(* ===== verification/Prelude.thy ===== *)
theory Prelude
  imports Complex_Main "HOL-Library.Multiset" "HOL-Library.Sublist"
begin

section \<open>Prelude: results, loops with an early return, and shared contracts\<close>

text \<open>
  What every component theory uses:
  \<^item> a fallible Go function \<open>func f() (T, error)\<close> returns \<open>'e + 'a\<close>: \<open>Inl\<close> holds the error,
    \<open>Inr\<close> the value; most packages build their errors with \<open>fmt.Errorf\<close>, so that the error is
    its message, a string;
  \<^item> \<open>traverse f xs\<close> is the loop \<open>for _, x := range xs { y, err := f(x); if err != nil
    { return err }; out = append(out, y) }\<close>;
  \<^item> the contract of \<open>sort.Slice\<close> (a permutation, ordered, not stable) as a locale, so that what
    is proved of the code that sorts holds for every order the library may leave ties in;
  \<^item> the contract of a normaliser (running it twice is running it once) as a locale.
\<close>

named_theorems res_simps \<open>case rules of results\<close>

subsection \<open>Loops with an early return\<close>

fun traverse :: "('a \<Rightarrow> 'e + 'b) \<Rightarrow> 'a list \<Rightarrow> 'e + 'b list" where
  "traverse f [] = Inr []"
| "traverse f (x # xs) =
     (case f x of
        Inl e \<Rightarrow> Inl e
      | Inr y \<Rightarrow> (case traverse f xs of Inl e \<Rightarrow> Inl e | Inr ys \<Rightarrow> Inr (y # ys)))"

lemma traverse_Inr_iff:
  "traverse f xs = Inr ys \<longleftrightarrow> list_all2 (\<lambda>x y. f x = Inr y) xs ys"
proof (induction xs arbitrary: ys)
  case Nil
  then show ?case by auto
next
  case (Cons x xs)
  have "traverse f xs = Inr zs \<longleftrightarrow> list_all2 (\<lambda>x y. f x = Inr y) xs zs" for zs
    by (rule Cons.IH)
  then show ?case
    by (cases "f x"; cases "traverse f xs") (auto simp: list_all2_Cons1)
qed

lemma traverse_Inl_ex: "traverse f xs = Inl e \<Longrightarrow> \<exists>x \<in> set xs. f x = Inl e"
  by (induction xs) (auto split: sum.splits)

lemma traverse_ok_iff:
  "(\<exists>ys. traverse f xs = Inr ys) \<longleftrightarrow> (\<forall>x \<in> set xs. \<exists>y. f x = Inr y)"
  by (induction xs) (auto split: sum.splits)

lemma traverse_map: "traverse f (map g xs) = traverse (f \<circ> g) xs"
  by (induction xs) (auto split: sum.splits)

lemma traverse_length: "traverse f xs = Inr ys \<Longrightarrow> length ys = length xs"
  by (auto simp: traverse_Inr_iff dest: list_all2_lengthD)

lemma traverse_member: "traverse f xs = Inr ys \<Longrightarrow> y \<in> set ys \<Longrightarrow> \<exists>x \<in> set xs. f x = Inr y"
  by (induction xs arbitrary: ys) (auto split: sum.splits)

lemma traverse_fixed:
  assumes "\<And>x. x \<in> set xs \<Longrightarrow> f x = Inr x"
  shows "traverse f xs = Inr xs"
  using assms by (induction xs) auto

lemma traverse_proj:
  assumes "traverse f xs = Inr ys" and "\<And>x y. x \<in> set xs \<Longrightarrow> f x = Inr y \<Longrightarrow> g y = h x"
  shows "map g ys = map h xs"
  using assms
  by (induction xs arbitrary: ys) (auto split: sum.splits)

text \<open>\<open>err == nil\<close>.\<close>

definition is_ok :: "'e + 'a \<Rightarrow> bool" where
  "is_ok r = (case r of Inl _ \<Rightarrow> False | Inr _ \<Rightarrow> True)"

lemma is_ok_simps [simp, res_simps]: "is_ok (Inr v)" "\<not> is_ok (Inl e)"
  by (simp_all add: is_ok_def)

lemma is_ok_iff: "is_ok r \<longleftrightarrow> (\<exists>v. r = Inr v)"
  by (cases r) auto

subsection \<open>The contract of sort.Slice\<close>

text \<open>
  \<open>sort.Slice(xs, less)\<close> permutes \<open>xs\<close> so that no element is \<open>less\<close> than an earlier one.
  It is not stable: which of two ties comes first is not specified.
\<close>

locale slice_sort =
  fixes lt :: "'a \<Rightarrow> 'a \<Rightarrow> bool"
    and srt :: "'a list \<Rightarrow> 'a list"
  assumes perm: "mset (srt xs) = mset xs"
    and ordered: "sorted_wrt (\<lambda>a b. \<not> lt b a) (srt xs)"
begin

lemma set_srt: "set (srt xs) = set xs"
  using perm [of xs] by (rule mset_eq_setD)

lemma length_srt: "length (srt xs) = length xs"
  using perm [of xs] by (metis size_mset)

lemma srt_Nil_iff: "srt xs = [] \<longleftrightarrow> xs = []"
  using length_srt [of xs] by auto

end

text \<open>Insertion sort by \<open>less\<close>, which is what \<open>sort.Slice\<close> runs on short slices.\<close>

fun insert_less :: "('a \<Rightarrow> 'a \<Rightarrow> bool) \<Rightarrow> 'a \<Rightarrow> 'a list \<Rightarrow> 'a list" where
  "insert_less lt x [] = [x]"
| "insert_less lt x (y # ys) =
     (if lt y x then y # insert_less lt x ys else x # y # ys)"

definition sort_less :: "('a \<Rightarrow> 'a \<Rightarrow> bool) \<Rightarrow> 'a list \<Rightarrow> 'a list" where
  "sort_less lt xs = foldr (insert_less lt) xs []"

lemma mset_insert_less: "mset (insert_less lt x ys) = add_mset x (mset ys)"
  by (induction ys) auto

lemma set_insert_less: "set (insert_less lt x ys) = insert x (set ys)"
  by (induction ys) auto

lemma mset_sort_less: "mset (sort_less lt xs) = mset xs"
  by (induction xs) (simp_all add: sort_less_def mset_insert_less)

lemma sorted_insert_less:
  assumes tr: "\<And>a b c. lt a b \<Longrightarrow> \<not> lt c b \<Longrightarrow> lt a c"
    and asym: "\<And>a b. lt a b \<Longrightarrow> \<not> lt b a"
    and srt: "sorted_wrt (\<lambda>a b. \<not> lt b a) ys"
  shows "sorted_wrt (\<lambda>a b. \<not> lt b a) (insert_less lt x ys)"
  using srt
proof (induction ys)
  case Nil
  then show ?case by simp
next
  case (Cons y ys)
  show ?case
  proof (cases "lt y x")
    case True
    with Cons asym [OF True] show ?thesis by (auto simp: set_insert_less)
  next
    case False
    with Cons.prems have "\<not> lt z x" if "z \<in> set ys" for z
      using that tr [of z x y] by (auto dest: asym)
    with False Cons.prems show ?thesis by auto
  qed
qed

text \<open>A strict weak order in Go's sense: \<open>less\<close> compares a key.\<close>

lemma sort_less_slice_sort:
  fixes key :: "'a \<Rightarrow> 'k::linorder"
  assumes "\<And>a b. lt a b \<longleftrightarrow> key a < key b"
  shows "slice_sort lt (sort_less lt)"
proof
  fix xs
  show "mset (sort_less lt xs) = mset xs" by (rule mset_sort_less)
  show "sorted_wrt (\<lambda>a b. \<not> lt b a) (sort_less lt xs)"
  proof (induction xs)
    case Nil
    then show ?case by (simp add: sort_less_def)
  next
    case (Cons x xs)
    have "sorted_wrt (\<lambda>a b. \<not> lt b a) (insert_less lt x (sort_less lt xs))"
      by (rule sorted_insert_less [OF _ _ Cons.IH]) (auto simp: assms)
    then show ?case by (simp add: sort_less_def)
  qed
qed

subsection \<open>The contract of a normaliser\<close>

locale normaliser =
  fixes norm :: "'a \<Rightarrow> 'a"
  assumes idem: "norm (norm x) = norm x"
begin

lemma fixed_iff_image: "norm x = x \<longleftrightarrow> x \<in> range norm"
  using idem by (auto simp: image_iff) (metis)

lemma map_idem: "map norm (map norm xs) = map norm xs"
  by (simp add: idem)

lemma map_fixed: "ys = map norm xs \<Longrightarrow> y \<in> set ys \<Longrightarrow> norm y = y"
  using idem by auto

end

subsection \<open>Lists updated through an index loop\<close>

text \<open>
  \<open>for i := range xs { if p(xs[i]) { xs[i] = f(xs[i]) } }\<close>.
\<close>

definition update_where :: "('a \<Rightarrow> bool) \<Rightarrow> ('a \<Rightarrow> 'a) \<Rightarrow> 'a list \<Rightarrow> 'a list" where
  "update_where p f xs = map (\<lambda>x. if p x then f x else x) xs"

lemma update_where_length [simp]: "length (update_where p f xs) = length xs"
  by (simp add: update_where_def)

lemma update_where_none: "\<forall>x \<in> set xs. \<not> p x \<Longrightarrow> update_where p f xs = xs"
  by (simp add: update_where_def map_idI)

lemma update_where_map:
  assumes "\<And>x. p x \<Longrightarrow> g (f x) = g x"
  shows "map g (update_where p f xs) = map g xs"
  using assms by (simp add: update_where_def)

lemma set_update_where:
  "set (update_where p f xs) = {x \<in> set xs. \<not> p x} \<union> f ` {x \<in> set xs. p x}"
  by (auto simp: update_where_def)

lemma update_where_Cons:
  "update_where p f (x # xs) = (if p x then f x else x) # update_where p f xs" "update_where p f [] = []"
  by (simp_all add: update_where_def)

text \<open>An update of the row of one key keeps another column unique, where it has to be.\<close>

lemma update_where_key_distinct:
  assumes "distinct (map k xs)" and "distinct (filter P (map g xs))" and "\<And>x. k (f x) = k x"
    and "\<forall>x \<in> set xs. k x = i \<longrightarrow> P (g (f x)) \<longrightarrow> (\<forall>y \<in> set xs. k y \<noteq> i \<longrightarrow> g y \<noteq> g (f x))"
  shows "distinct (filter P (map g (update_where (\<lambda>x. k x = i) f xs)))"
  using assms
proof (induction xs)
  case (Cons x xs)
  have rest: "distinct (filter P (map g (update_where (\<lambda>x. k x = i) f xs)))"
    using Cons by (auto split: if_splits)
  show ?case
  proof (cases "k x = i")
    case True
    then have others: "\<forall>y \<in> set xs. k y \<noteq> i" using Cons.prems(1) by (auto simp: image_iff)
    then have "update_where (\<lambda>x. k x = i) f xs = xs" by (simp add: update_where_none)
    moreover have "P (g (f x)) \<longrightarrow> g (f x) \<notin> g ` set xs" using Cons.prems(4) True others by auto
    ultimately show ?thesis using True Cons.prems(2) by (auto simp: update_where_Cons split: if_splits)
  next
    case False
    have "g x \<notin> g ` set (update_where (\<lambda>x. k x = i) f xs)" if held: "P (g x)"
    proof
      assume "g x \<in> g ` set (update_where (\<lambda>x. k x = i) f xs)"
      then consider y where "y \<in> set xs" "g x = g y" | y where "y \<in> set xs" "k y = i" "g x = g (f y)"
        by (auto simp: set_update_where)
      then show False using Cons.prems(2,4) False held by cases (auto simp: image_iff)
    qed
    with rest False show ?thesis by (simp add: update_where_Cons)
  qed
qed (simp add: update_where_Cons)

lemma find_update_where: "(\<And>x. k (f x) = k x) \<Longrightarrow> find (\<lambda>x. k x = i) xs = Some r \<Longrightarrow>
    find (\<lambda>x. k x = i) (update_where (\<lambda>x. k x = i) f xs) = Some (f r)"
  by (induction xs) (auto simp: update_where_Cons split: if_splits)

text \<open>
  \<open>for i, x := range xs { if p(x) { xs = append(xs[:i], xs[i+1:]...); return } }\<close>: the first
  match is removed.
\<close>

fun remove_first :: "('a \<Rightarrow> bool) \<Rightarrow> 'a list \<Rightarrow> 'a list" where
  "remove_first p [] = []"
| "remove_first p (x # xs) = (if p x then xs else x # remove_first p xs)"

lemma set_remove_first_subset: "set (remove_first p xs) \<subseteq> set xs"
  by (induction xs) auto

lemma subseq_remove_first: "subseq (remove_first p xs) xs"
  by (induction xs) auto

lemma distinct_map_remove_first: "distinct (map g xs) \<Longrightarrow> distinct (map g (remove_first p xs))"
  using set_remove_first_subset [of p] by (induction xs) auto

lemma remove_first_distinct:
  assumes "distinct (map g xs)"
  shows "remove_first (\<lambda>x. g x = k) xs = filter (\<lambda>x. g x \<noteq> k) xs"
  using assms
proof (induction xs)
  case Nil
  then show ?case by simp
next
  case (Cons x xs)
  show ?case
  proof (cases "g x = k")
    case True
    with Cons.prems have "\<forall>y \<in> set xs. g y \<noteq> k" by (metis distinct.simps(2) image_eqI list.simps(9) set_map)
    then have "filter (\<lambda>y. g y \<noteq> k) xs = xs"
      by (simp add: filter_id_conv)
    with True show ?thesis by simp
  next
    case False
    with Cons show ?thesis by simp
  qed
qed

lemma remove_first_none: "\<forall>x \<in> set xs. \<not> p x \<Longrightarrow> remove_first p xs = xs"
  by (induction xs) auto

end
