(* ===== verification/GoText.thy ===== *)
theory GoText
  imports Prelude "HOL-Library.List_Lexorder"
begin

section \<open>The Go standard library's strings, strconv and fmt, as far as the sources use them\<close>

text \<open>
  A Go string is a sequence of bytes, a HOL \<open>string\<close> a list of \<open>char\<close>, which are bytes: \<open>len(s)\<close> is
  \<open>length s\<close>. \<open>strings.TrimSpace\<close> removes the UTF-8 encodings of every code point of
  \<open>unicode.IsSpace\<close>. \<open>strings.ToUpper\<close>, \<open>ToLower\<close> and \<open>EqualFold\<close> are modelled on ASCII letters and
  leave every other byte as it is: on scripts without case (Thai, the project's other language) that
  is what Go does, a non-ASCII letter that has case is outside the model.
\<close>

subsection \<open>TrimSpace\<close>

definition unicode_spaces :: "string list" where
  "unicode_spaces =
     map (map char_of)
       ([[0x09], [0x0A], [0x0B], [0x0C], [0x0D], [0x20], [0xC2, 0x85], [0xC2, 0xA0], [0xE1, 0x9A, 0x80],
         [0xE2, 0x80, 0x80], [0xE2, 0x80, 0x81], [0xE2, 0x80, 0x82], [0xE2, 0x80, 0x83],
         [0xE2, 0x80, 0x84], [0xE2, 0x80, 0x85], [0xE2, 0x80, 0x86], [0xE2, 0x80, 0x87],
         [0xE2, 0x80, 0x88], [0xE2, 0x80, 0x89], [0xE2, 0x80, 0x8A], [0xE2, 0x80, 0xA8],
         [0xE2, 0x80, 0xA9], [0xE2, 0x80, 0xAF], [0xE2, 0x81, 0x9F], [0xE3, 0x80, 0x80]] :: nat list list)"

function strip_prefixes :: "string list \<Rightarrow> string \<Rightarrow> string" where
  "strip_prefixes rs s =
     (case find (\<lambda>r. r \<noteq> [] \<and> prefix r s) rs of
        None \<Rightarrow> s
      | Some r \<Rightarrow> strip_prefixes rs (drop (length r) s))"
  by pat_completeness auto
termination
proof (relation "measure (\<lambda>(rs, s). length s)")
  fix rs s r
  assume "find (\<lambda>r. r \<noteq> [] \<and> prefix r s) rs = Some r"
  then have "r \<noteq> []" and "prefix r s" by (auto simp: find_Some_iff)
  then show "((rs, drop (length r) s), (rs, s)) \<in> measure (\<lambda>(rs, s). length s)"
    by (auto simp: prefix_def)
qed simp

declare strip_prefixes.simps [simp del]

definition trim_space :: "string \<Rightarrow> string" where
  "trim_space s =
     rev (strip_prefixes (map rev unicode_spaces) (rev (strip_prefixes unicode_spaces s)))"

lemma strip_prefixes_stop:
  "(\<forall>r \<in> set rs. r \<noteq> [] \<longrightarrow> \<not> prefix r s) \<Longrightarrow> strip_prefixes rs s = s"
  by (subst strip_prefixes.simps) (auto simp: find_Some_iff split: option.splits)

lemma strip_prefixes_no_prefix:
  "\<forall>r \<in> set rs. r \<noteq> [] \<longrightarrow> \<not> prefix r (strip_prefixes rs s)"
proof (induction rs s rule: strip_prefixes.induct)
  case (1 rs s)
  show ?case
  proof (cases "find (\<lambda>r. r \<noteq> [] \<and> prefix r s) rs")
    case None
    then have "\<forall>r \<in> set rs. r \<noteq> [] \<longrightarrow> \<not> prefix r s" by (auto simp: find_None_iff)
    then show ?thesis by (simp add: strip_prefixes_stop)
  next
    case (Some r)
    then have "strip_prefixes rs s = strip_prefixes rs (drop (length r) s)"
      by (subst strip_prefixes.simps) simp
    with "1.IH" [OF Some] show ?thesis by simp
  qed
qed

lemma strip_prefixes_suffix: "suffix (strip_prefixes rs s) s"
proof (induction rs s rule: strip_prefixes.induct)
  case (1 rs s)
  show ?case
  proof (cases "find (\<lambda>r. r \<noteq> [] \<and> prefix r s) rs")
    case None
    then show ?thesis by (subst strip_prefixes.simps) simp
  next
    case (Some r)
    then have "strip_prefixes rs s = strip_prefixes rs (drop (length r) s)"
      by (subst strip_prefixes.simps) simp
    with "1.IH" [OF Some] show ?thesis
      using suffix_drop suffix_order.order_trans by metis
  qed
qed

lemma trim_space_idem [simp]: "trim_space (trim_space s) = trim_space s"
proof -
  let ?L = "strip_prefixes unicode_spaces" and ?R = "strip_prefixes (map rev unicode_spaces)"
  let ?t = "trim_space s"
  have "prefix ?t (?L s)"
    using strip_prefixes_suffix [of "map rev unicode_spaces" "rev (?L s)"]
    by (simp add: trim_space_def suffix_to_prefix)
  then have "\<forall>r \<in> set unicode_spaces. r \<noteq> [] \<longrightarrow> \<not> prefix r ?t"
    using strip_prefixes_no_prefix [of unicode_spaces s] by (meson prefix_order.order_trans)
  then have l: "?L ?t = ?t" by (rule strip_prefixes_stop)
  have "?R (rev ?t) = rev ?t"
    using strip_prefixes_no_prefix [of "map rev unicode_spaces" "rev (?L s)"]
    by (intro strip_prefixes_stop) (simp add: trim_space_def)
  with l show ?thesis by (subst trim_space_def) simp
qed

lemma strip_prefixes_Nil [simp]: "strip_prefixes rs [] = []"
  by (rule strip_prefixes_stop) simp

lemma trim_space_Nil [simp]: "trim_space [] = []"
  by (simp add: trim_space_def)

lemma length_trim_space_le: "length (trim_space s) \<le> length s"
proof -
  have "length (strip_prefixes (map rev unicode_spaces) (rev (strip_prefixes unicode_spaces s)))
      \<le> length (strip_prefixes unicode_spaces s)"
    using strip_prefixes_suffix [of "map rev unicode_spaces"] by (metis length_rev suffix_length_le)
  also have "\<dots> \<le> length s"
    using strip_prefixes_suffix by (rule suffix_length_le)
  finally show ?thesis by (simp add: trim_space_def)
qed

text \<open>
  A string whose first and last byte are printable ASCII is its own trim: what lets the simplifier
  evaluate \<open>trim_space\<close> on the literals of the sources.
\<close>

definition plain_byte :: "char \<Rightarrow> bool" where
  "plain_byte c \<longleftrightarrow> 0x21 \<le> (of_char c :: nat) \<and> (of_char c :: nat) < 0x80"

lemma unicode_spaces_ends:
  "\<forall>r \<in> set unicode_spaces. r \<noteq> [] \<and> \<not> plain_byte (hd r) \<and> \<not> plain_byte (last r)"
  by (simp add: unicode_spaces_def plain_byte_def)

lemma trim_space_plain:
  assumes "s \<noteq> []" and "plain_byte (hd s)" and "plain_byte (last s)"
  shows "trim_space s = s"
proof -
  have "strip_prefixes unicode_spaces s = s"
    using unicode_spaces_ends assms(1,2)
    by (intro strip_prefixes_stop) (auto simp: prefix_def)
  moreover have "strip_prefixes (map rev unicode_spaces) (rev s) = rev s"
  proof (rule strip_prefixes_stop, intro ballI impI notI)
    fix r assume r: "r \<in> set (map rev unicode_spaces)" "r \<noteq> []" "prefix r (rev s)"
    then obtain q where q: "q \<in> set unicode_spaces" "r = rev q" by auto
    with r obtain u where "rev s = rev q @ u" by (auto simp: prefix_def)
    then have "s = rev u @ q" by (metis rev_append rev_rev_ident)
    with q unicode_spaces_ends assms(3) show False by auto
  qed
  ultimately show ?thesis by (simp add: trim_space_def)
qed

interpretation trim: normaliser trim_space
  by unfold_locales simp

subsection \<open>Case mapping\<close>

definition upper_char :: "char \<Rightarrow> char" where
  "upper_char c =
     (let n = of_char c :: nat in if 97 \<le> n \<and> n \<le> 122 then char_of (n - 32) else c)"

definition lower_char :: "char \<Rightarrow> char" where
  "lower_char c =
     (let n = of_char c :: nat in if 65 \<le> n \<and> n \<le> 90 then char_of (n + 32) else c)"

definition to_upper :: "string \<Rightarrow> string" where
  "to_upper s = map upper_char s"

definition to_lower :: "string \<Rightarrow> string" where
  "to_lower s = map lower_char s"

definition equal_fold :: "string \<Rightarrow> string \<Rightarrow> bool" where
  "equal_fold s t \<longleftrightarrow> to_lower s = to_lower t"

lemma of_char_upper:
  "(of_char (upper_char c) :: nat) =
     (if 97 \<le> (of_char c :: nat) \<and> (of_char c :: nat) \<le> 122 then of_char c - 32 else of_char c)"
  by (auto simp: upper_char_def Let_def)

lemma of_char_lower:
  "(of_char (lower_char c) :: nat) =
     (if 65 \<le> (of_char c :: nat) \<and> (of_char c :: nat) \<le> 90 then of_char c + 32 else of_char c)"
  by (simp add: lower_char_def Let_def)

lemma char_eq_iff: "c = d \<longleftrightarrow> (of_char c :: nat) = of_char d"
  by simp

lemma upper_char_idem [simp]: "upper_char (upper_char c) = upper_char c"
  by (auto simp: char_eq_iff of_char_upper simp del: of_char_eq_iff)

lemma lower_char_idem [simp]: "lower_char (lower_char c) = lower_char c"
  by (auto simp: char_eq_iff of_char_lower  simp del: of_char_eq_iff)

lemma upper_lower_char [simp]: "upper_char (lower_char c) = upper_char c"
  by (auto simp: char_eq_iff of_char_lower of_char_upper  simp del: of_char_eq_iff)

lemma lower_upper_char [simp]: "lower_char (upper_char c) = lower_char c"
  by (auto simp: char_eq_iff of_char_lower of_char_upper  simp del: of_char_eq_iff)

lemma to_upper_idem [simp]: "to_upper (to_upper s) = to_upper s"
  by (simp add: to_upper_def)

lemma to_lower_idem [simp]: "to_lower (to_lower s) = to_lower s"
  by (simp add: to_lower_def)

lemma to_upper_lower [simp]: "to_upper (to_lower s) = to_upper s"
  by (simp add: to_upper_def to_lower_def)

lemma to_lower_upper [simp]: "to_lower (to_upper s) = to_lower s"
  by (simp add: to_upper_def to_lower_def)

lemma length_case [simp]: "length (to_upper s) = length s" "length (to_lower s) = length s"
  by (simp_all add: to_upper_def to_lower_def)

lemma case_Nil_iff [simp]:
  "to_upper s = [] \<longleftrightarrow> s = []" "to_lower s = [] \<longleftrightarrow> s = []"
  "to_upper [] = []" "to_lower [] = []"
  by (simp_all add: to_upper_def to_lower_def)

lemma equal_fold_refl [simp]: "equal_fold s s"
  by (simp add: equal_fold_def)

lemma equal_fold_sym: "equal_fold s t \<longleftrightarrow> equal_fold t s"
  by (auto simp: equal_fold_def)

text \<open>Trimming does not look at letters, so it commutes with the case mappings.\<close>

definition letter :: "char \<Rightarrow> bool" where
  "letter c \<longleftrightarrow> (65 \<le> (of_char c :: nat) \<and> (of_char c :: nat) \<le> 90)
     \<or> (97 \<le> (of_char c :: nat) \<and> (of_char c :: nat) \<le> 122)"

lemma upper_char_eq: "\<not> letter d \<Longrightarrow> upper_char c = d \<longleftrightarrow> c = d"
  by (auto simp: letter_def char_eq_iff of_char_upper simp del: of_char_eq_iff split: if_splits)

lemma lower_char_eq: "\<not> letter d \<Longrightarrow> lower_char c = d \<longleftrightarrow> c = d"
  by (auto simp: letter_def char_eq_iff of_char_lower simp del: of_char_eq_iff split: if_splits)

lemma prefix_map_letterless:
  assumes "\<And>c d. \<not> letter d \<Longrightarrow> f c = d \<longleftrightarrow> c = d" and "\<forall>d \<in> set r. \<not> letter d"
  shows "prefix r (map f s) \<longleftrightarrow> prefix r s"
  using assms(2)
proof (induction r arbitrary: s)
  case Nil
  then show ?case by simp
next
  case (Cons d r)
  then have "\<not> letter d" by simp
  then have "f c = d \<longleftrightarrow> c = d" for c by (rule assms(1))
  with Cons show ?case by (cases s) (simp_all, metis)
qed

lemma strip_prefixes_map:
  assumes f: "\<And>c d. \<not> letter d \<Longrightarrow> f c = d \<longleftrightarrow> c = d"
    and rs: "\<forall>r \<in> set rs. \<forall>d \<in> set r. \<not> letter d"
  shows "strip_prefixes rs (map f s) = map f (strip_prefixes rs s)"
  using rs
proof (induction rs s rule: strip_prefixes.induct)
  case (1 rs s)
  have p: "prefix r (map f s) \<longleftrightarrow> prefix r s" if "r \<in> set rs" for r
    using that "1.prems" by (intro prefix_map_letterless f) auto
  have find_eq: "find (\<lambda>r. r \<noteq> [] \<and> prefix r (map f s)) rs = find (\<lambda>r. r \<noteq> [] \<and> prefix r s) rs"
    using p by (intro find_cong) auto
  show ?case
  proof (cases "find (\<lambda>r. r \<noteq> [] \<and> prefix r s) rs")
    case None
    with find_eq have "strip_prefixes rs (map f s) = map f s" by (subst strip_prefixes.simps) simp
    moreover from None have "strip_prefixes rs s = s" by (subst strip_prefixes.simps) simp
    ultimately show ?thesis by simp
  next
    case (Some r)
    then have "strip_prefixes rs (map f s) = strip_prefixes rs (map f (drop (length r) s))"
      using find_eq by (subst strip_prefixes.simps) (simp add: drop_map)
    moreover from Some have "strip_prefixes rs s = strip_prefixes rs (drop (length r) s)"
      by (subst strip_prefixes.simps) simp
    ultimately show ?thesis using "1.IH" [OF Some "1.prems"] by simp
  qed
qed

lemma unicode_spaces_letterless: "\<forall>r \<in> set unicode_spaces. \<forall>d \<in> set r. \<not> letter d"
  by (simp add: unicode_spaces_def letter_def)

lemma trim_space_upper [simp]: "trim_space (to_upper s) = to_upper (trim_space s)"
  using unicode_spaces_letterless
  by (simp add: trim_space_def to_upper_def strip_prefixes_map upper_char_eq rev_map)

lemma trim_space_lower [simp]: "trim_space (to_lower s) = to_lower (trim_space s)"
  using unicode_spaces_letterless
  by (simp add: trim_space_def to_lower_def strip_prefixes_map lower_char_eq rev_map)

interpretation upper: normaliser to_upper
  by unfold_locales simp

interpretation lower: normaliser to_lower
  by unfold_locales simp

text \<open>\<open>strings.ToUpper(strings.TrimSpace(s))\<close>, the way the sources clean a configured keyword.\<close>

definition clean_upper :: "string \<Rightarrow> string" where
  "clean_upper s = to_upper (trim_space s)"

lemma clean_upper_idem [simp]: "clean_upper (clean_upper s) = clean_upper s"
  by (simp add: clean_upper_def)

interpretation clean: normaliser clean_upper
  by unfold_locales simp

subsection \<open>Contains, Cut, Split, Replace, TrimPrefix\<close>

text \<open>The class \<open>[A-Z0-9]\<close> of the regular expressions.\<close>

definition upper_alnum :: "char \<Rightarrow> bool" where
  "upper_alnum c \<longleftrightarrow>
     (65 \<le> (of_char c :: nat) \<and> (of_char c :: nat) \<le> 90) \<or>
     (48 \<le> (of_char c :: nat) \<and> (of_char c :: nat) \<le> 57)"

definition contains :: "string \<Rightarrow> string \<Rightarrow> bool" where
  "contains s sub \<longleftrightarrow> sublist sub s"

text \<open>\<open>strings.Cut(s, sep)\<close> for a separator of one byte: before, after, found.\<close>

definition cut :: "char \<Rightarrow> string \<Rightarrow> string \<times> string \<times> bool" where
  "cut c s =
     (if c \<in> set s then (takeWhile (\<lambda>x. x \<noteq> c) s, tl (dropWhile (\<lambda>x. x \<noteq> c) s), True)
      else (s, [], False))"

text \<open>\<open>strings.Split(s, sep)\<close> for a separator of one byte.\<close>

fun split_on :: "char \<Rightarrow> string \<Rightarrow> string list" where
  "split_on c [] = [[]]"
| "split_on c (x # xs) =
     (if x = c then [] # split_on c xs
      else (case split_on c xs of [] \<Rightarrow> [[x]] | y # ys \<Rightarrow> (x # y) # ys))"

definition replace_bytes :: "(char \<Rightarrow> char) \<Rightarrow> string \<Rightarrow> string" where
  "replace_bytes f s = map f s"

definition trim_prefix :: "string \<Rightarrow> string \<Rightarrow> string" where
  "trim_prefix s p = (if prefix p s then drop (length p) s else s)"

text \<open>Go's \<open><\<close> on strings compares bytes.\<close>

fun string_less :: "string \<Rightarrow> string \<Rightarrow> bool" where
  "string_less s [] = False"
| "string_less [] (d # t) = True"
| "string_less (c # s) (d # t) =
     (let m = of_char c :: nat; n = of_char d in m < n \<or> m = n \<and> string_less s t)"

lemma string_less_key: "string_less s t \<longleftrightarrow> map (of_char :: char \<Rightarrow> nat) s < map of_char t"
  by (induction s t rule: string_less.induct) (auto simp: Let_def)

subsection \<open>strconv: decimal integers\<close>

definition digit_char :: "nat \<Rightarrow> char" where
  "digit_char d = char_of (48 + d)"

fun nat_digits :: "nat \<Rightarrow> string" where
  "nat_digits n =
     (if n < 10 then [digit_char n] else nat_digits (n div 10) @ [digit_char (n mod 10)])"

declare nat_digits.simps [simp del]

text \<open>\<open>fmt.Sprint(i)\<close>, \<open>fmt.Sprintf("%d", i)\<close>.\<close>

definition itoa :: "int \<Rightarrow> string" where
  "itoa i = (if i < 0 then CHR ''-'' # nat_digits (nat (- i)) else nat_digits (nat i))"

definition is_digit :: "char \<Rightarrow> bool" where
  "is_digit c \<longleftrightarrow> 48 \<le> (of_char c :: nat) \<and> (of_char c :: nat) \<le> 57"

definition digits_value :: "string \<Rightarrow> nat" where
  "digits_value s = foldl (\<lambda>a c. 10 * a + (of_char c - 48)) 0 s"

text \<open>
  \<open>strconv.ParseInt(s, 10, 64)\<close> and \<open>strconv.Atoi\<close> on a 64-bit platform: an optional sign, one or
  more digits, and a value in the range of int64.
\<close>

definition parse_int64 :: "string \<Rightarrow> int option" where
  "parse_int64 s =
     (let (neg, ds) = (case s of [] \<Rightarrow> (False, [])
                       | c # cs \<Rightarrow> if c = CHR ''-'' then (True, cs)
                                  else if c = CHR ''+'' then (False, cs) else (False, s))
      in if ds = [] \<or> \<not> list_all is_digit ds then None
         else let v = (if neg then - int (digits_value ds) else int (digits_value ds))
              in if - (2 ^ 63) \<le> v \<and> v < 2 ^ 63 then Some v else None)"

lemma is_digit_digit_char: "d < 10 \<Longrightarrow> is_digit (digit_char d)"
  by (simp add: is_digit_def digit_char_def)

lemma nat_digits_ok: "nat_digits n \<noteq> [] \<and> list_all is_digit (nat_digits n) \<and> digits_value (nat_digits n) = n"
proof (induction n rule: nat_digits.induct)
  case (1 n)
  show ?case
  proof (cases "n < 10")
    case True
    then show ?thesis
      using is_digit_digit_char [of n]
      by (subst (1 2 3) nat_digits.simps) (simp add: digits_value_def digit_char_def)
  next
    case False
    with 1 have ih: "list_all is_digit (nat_digits (n div 10))"
        "digits_value (nat_digits (n div 10)) = n div 10" by simp_all
    have "of_char (digit_char (n mod 10)) - 48 = n mod 10"
      by (simp add: digit_char_def)
    with False ih show ?thesis
      by (subst (1 2 3) nat_digits.simps)
        (simp add: is_digit_digit_char digits_value_def)
  qed
qed

lemma nat_digits_hd: "hd (nat_digits n) \<noteq> CHR ''-'' \<and> hd (nat_digits n) \<noteq> CHR ''+''"
proof -
  have "is_digit (hd (nat_digits n))"
    using nat_digits_ok [of n] by (cases "nat_digits n") auto
  then show ?thesis by (auto simp: is_digit_def)
qed

text \<open>Printing an int64 and parsing it gives it back: connection ids travel that way.\<close>

lemma parse_itoa:
  assumes "- (2 ^ 63) \<le> i" and "i < 2 ^ 63"
  shows "parse_int64 (itoa i) = Some i"
proof (cases "i < 0")
  case True
  then show ?thesis
    using assms nat_digits_ok [of "nat (- i)"]
    by (simp add: parse_int64_def itoa_def Let_def)
next
  case False
  let ?d = "nat_digits (nat i)"
  obtain c cs where d: "?d = c # cs" using nat_digits_ok [of "nat i"] by (cases ?d) auto
  with nat_digits_hd [of "nat i"] have "c \<noteq> CHR ''-''" "c \<noteq> CHR ''+''" by simp_all
  then show ?thesis
    using False assms nat_digits_ok [of "nat i"] d
    by (simp add: parse_int64_def itoa_def Let_def)
qed

lemma itoa_plain: "itoa i \<noteq> [] \<and> plain_byte (hd (itoa i)) \<and> plain_byte (last (itoa i))"
proof -
  have "is_digit c \<Longrightarrow> plain_byte c" for c
    by (simp add: is_digit_def plain_byte_def)
  moreover have "is_digit (hd (nat_digits n)) \<and> is_digit (last (nat_digits n))" for n
    using nat_digits_ok [of n] by (metis hd_in_set last_in_set list.pred_set)
  moreover have "plain_byte (CHR ''-'')" by (simp add: plain_byte_def)
  ultimately show ?thesis using nat_digits_ok by (simp add: itoa_def)
qed

lemma trim_itoa [simp]: "trim_space (itoa i) = itoa i"
  using itoa_plain [of i] by (intro trim_space_plain) auto

subsection \<open>fmt: quoted strings\<close>

definition hex_digit :: "nat \<Rightarrow> char" where
  "hex_digit d = (if d < 10 then char_of (48 + d) else char_of (87 + d))"

text \<open>One byte of \<open>%q\<close>; bytes of a multi-byte printable character stand for themselves.\<close>

definition quote_char :: "char \<Rightarrow> string" where
  "quote_char c =
     (let n = of_char c :: nat in
      if n = 34 then [CHR 0x5C, CHR 0x22]
      else if n = 92 then [CHR 0x5C, CHR 0x5C]
      else if n = 7 then CHR 0x5C # ''a'' else if n = 8 then CHR 0x5C # ''b''
      else if n = 12 then CHR 0x5C # ''f'' else if n = 10 then CHR 0x5C # ''n''
      else if n = 13 then CHR 0x5C # ''r'' else if n = 9 then CHR 0x5C # ''t''
      else if n = 11 then CHR 0x5C # ''v''
      else if n < 32 \<or> n = 127 then CHR 0x5C # CHR ''x'' # [hex_digit (n div 16), hex_digit (n mod 16)]
      else [c])"

definition quoted :: "string \<Rightarrow> string" where
  "quoted s = CHR 0x22 # concat (map quote_char s) @ [CHR 0x22]"

text \<open>\<open>fmt.Sprintf("%02d", n)\<close> for the non-negative codes the sources print.\<close>

definition pad2 :: "int \<Rightarrow> string" where
  "pad2 i = (if 0 \<le> i \<and> i < 10 then CHR ''0'' # itoa i else itoa i)"

subsection \<open>Evaluating text on literals\<close>

text \<open>Letters and digits by their code, so that the simplifier evaluates case mappings on literals.\<close>

lemma char_of_alnum:
  "char_of (48::nat) = CHR ''0''" "char_of (49::nat) = CHR ''1''" "char_of (50::nat) = CHR ''2''"
  "char_of (51::nat) = CHR ''3''" "char_of (52::nat) = CHR ''4''" "char_of (53::nat) = CHR ''5''"
  "char_of (54::nat) = CHR ''6''" "char_of (55::nat) = CHR ''7''" "char_of (56::nat) = CHR ''8''"
  "char_of (57::nat) = CHR ''9''" "char_of (65::nat) = CHR ''A''" "char_of (66::nat) = CHR ''B''"
  "char_of (67::nat) = CHR ''C''" "char_of (68::nat) = CHR ''D''" "char_of (69::nat) = CHR ''E''"
  "char_of (70::nat) = CHR ''F''" "char_of (71::nat) = CHR ''G''" "char_of (72::nat) = CHR ''H''"
  "char_of (73::nat) = CHR ''I''" "char_of (74::nat) = CHR ''J''" "char_of (75::nat) = CHR ''K''"
  "char_of (76::nat) = CHR ''L''" "char_of (77::nat) = CHR ''M''" "char_of (78::nat) = CHR ''N''"
  "char_of (79::nat) = CHR ''O''" "char_of (80::nat) = CHR ''P''" "char_of (81::nat) = CHR ''Q''"
  "char_of (82::nat) = CHR ''R''" "char_of (83::nat) = CHR ''S''" "char_of (84::nat) = CHR ''T''"
  "char_of (85::nat) = CHR ''U''" "char_of (86::nat) = CHR ''V''" "char_of (87::nat) = CHR ''W''"
  "char_of (88::nat) = CHR ''X''" "char_of (89::nat) = CHR ''Y''" "char_of (90::nat) = CHR ''Z''"
  "char_of (97::nat) = CHR ''a''" "char_of (98::nat) = CHR ''b''" "char_of (99::nat) = CHR ''c''"
  "char_of (100::nat) = CHR ''d''" "char_of (101::nat) = CHR ''e''" "char_of (102::nat) = CHR ''f''"
  "char_of (103::nat) = CHR ''g''" "char_of (104::nat) = CHR ''h''" "char_of (105::nat) = CHR ''i''"
  "char_of (106::nat) = CHR ''j''" "char_of (107::nat) = CHR ''k''" "char_of (108::nat) = CHR ''l''"
  "char_of (109::nat) = CHR ''m''" "char_of (110::nat) = CHR ''n''" "char_of (111::nat) = CHR ''o''"
  "char_of (112::nat) = CHR ''p''" "char_of (113::nat) = CHR ''q''" "char_of (114::nat) = CHR ''r''"
  "char_of (115::nat) = CHR ''s''" "char_of (116::nat) = CHR ''t''" "char_of (117::nat) = CHR ''u''"
  "char_of (118::nat) = CHR ''v''" "char_of (119::nat) = CHR ''w''" "char_of (120::nat) = CHR ''x''"
  "char_of (121::nat) = CHR ''y''" "char_of (122::nat) = CHR ''z''"
  by (simp_all add: char_of_def bit_Suc_0_iff)

lemmas text_eval = trim_space_plain plain_byte_def to_upper_def to_lower_def upper_char_def
  lower_char_def char_of_alnum equal_fold_def

end
