(* ===== verification/GoFloat.thy ===== *)
theory GoFloat
  imports Prelude "HOL-Library.Word"
begin

section \<open>Go's float64: values, comparison, conversion and rounding\<close>

text \<open>
  A float64 is NaN, an infinity, or a sign with a magnitude, a rational (minus zero is the finite
  value of magnitude 0 with the sign set). Conversions and the arithmetic operations round to the
  nearest representable magnitude, ties to even, with the subnormal range and the overflow to
  infinity of IEEE 754 binary64, which the Go specification prescribes.
\<close>

datatype f64 = F_NaN | F_Inf bool | F_Fin bool rat

fun is_nan :: "f64 \<Rightarrow> bool" where
  "is_nan F_NaN = True"
| "is_nan _ = False"

fun is_finite :: "f64 \<Rightarrow> bool" where
  "is_finite (F_Fin _ _) = True"
| "is_finite _ = False"

fun signed :: "bool \<Rightarrow> rat \<Rightarrow> rat" where
  "signed neg m = (if neg then - m else m)"

text \<open>Go's \<open>==\<close> and \<open><\<close> on float64: every comparison with NaN is false.\<close>

fun f_eq :: "f64 \<Rightarrow> f64 \<Rightarrow> bool" where
  "f_eq (F_Inf a) (F_Inf b) = (a = b)"
| "f_eq (F_Fin a x) (F_Fin b y) = (signed a x = signed b y)"
| "f_eq _ _ = False"

fun f_less :: "f64 \<Rightarrow> f64 \<Rightarrow> bool" where
  "f_less F_NaN _ = False"
| "f_less _ F_NaN = False"
| "f_less (F_Inf a) (F_Inf b) = (a \<and> \<not> b)"
| "f_less (F_Inf a) (F_Fin _ _) = a"
| "f_less (F_Fin _ _) (F_Inf b) = (\<not> b)"
| "f_less (F_Fin a x) (F_Fin b y) = (signed a x < signed b y)"

abbreviation f_zero :: f64 where "f_zero \<equiv> F_Fin False 0"
abbreviation f_one :: f64 where "f_one \<equiv> F_Fin False 1"

subsection \<open>Rounding\<close>

definition pow2 :: "int \<Rightarrow> rat" where
  "pow2 e = (if 0 \<le> e then 2 ^ nat e else 1 / 2 ^ nat (- e))"

fun bit_len :: "nat \<Rightarrow> nat" where
  "bit_len n = (if n = 0 then 0 else Suc (bit_len (n div 2)))"

declare bit_len.simps [simp del]

text \<open>The exponent of the leading bit of a positive rational.\<close>

definition lead_exp :: "rat \<Rightarrow> int" where
  "lead_exp m =
     (let (n, d) = quotient_of m; k = int (bit_len (nat n)) - int (bit_len (nat d))
      in if pow2 k \<le> m then k else k - 1)"

definition round_even :: "rat \<Rightarrow> int" where
  "round_even x =
     (let k = \<lfloor>x\<rfloor>; d = x - of_int k
      in if d < 1 / 2 then k else if 1 / 2 < d then k + 1 else if even k then k else k + 1)"

definition round_mag :: "rat \<Rightarrow> rat" where
  "round_mag m =
     (if m = 0 then 0
      else let e = max (lead_exp m - 52) (- 1074) in of_int (round_even (m / pow2 e)) * pow2 e)"

definition f_round :: "bool \<Rightarrow> rat \<Rightarrow> f64" where
  "f_round neg m = (let r = round_mag m in if 2 ^ 1024 \<le> r then F_Inf neg else F_Fin neg r)"

text \<open>\<open>float64(i)\<close> of an integer.\<close>

definition f_of_int :: "int \<Rightarrow> f64" where
  "f_of_int i = f_round (i < 0) (of_int \<bar>i\<bar>)"

text \<open>\<open>x / y\<close>.\<close>

fun f_div :: "f64 \<Rightarrow> f64 \<Rightarrow> f64" where
  "f_div F_NaN _ = F_NaN"
| "f_div _ F_NaN = F_NaN"
| "f_div (F_Inf _) (F_Inf _) = F_NaN"
| "f_div (F_Inf a) (F_Fin b _) = F_Inf (a \<noteq> b)"
| "f_div (F_Fin a _) (F_Inf b) = F_Fin (a \<noteq> b) 0"
| "f_div (F_Fin a x) (F_Fin b y) =
     (if y = 0 then (if x = 0 then F_NaN else F_Inf (a \<noteq> b)) else f_round (a \<noteq> b) (x / y))"

text \<open>\<open>math.Float32frombits\<close> widened to float64, which is exact.\<close>

definition f_of_bits32 :: "32 word \<Rightarrow> f64" where
  "f_of_bits32 u =
     (let n = unat u; neg = (2 ^ 31 \<le> n); ex = n div 2 ^ 23 mod 256; fr = n mod 2 ^ 23
      in if ex = 255 then (if fr = 0 then F_Inf neg else F_NaN)
         else if ex = 0 then F_Fin neg (of_nat fr * pow2 (- 149))
         else F_Fin neg (of_nat (2 ^ 23 + fr) * pow2 (int ex - 150)))"

subsection \<open>Integers up to 53 bits are exact\<close>

lemma round_even_of_int [simp]: "round_even (of_int k) = k"
  by (simp add: round_even_def)

lemma bit_len_le: "n < 2 ^ k \<Longrightarrow> bit_len n \<le> k"
proof (induction n arbitrary: k rule: bit_len.induct)
  case (1 n)
  show ?case
  proof (cases "n = 0")
    case True
    then show ?thesis by (subst bit_len.simps) simp
  next
    case False
    then obtain j where j: "k = Suc j" using "1.prems" by (cases k) auto
    then have "n div 2 < 2 ^ j" using "1.prems" by simp
    with False j "1.IH" show ?thesis by (subst bit_len.simps) simp
  qed
qed

lemma bit_len_one: "bit_len (Suc 0) = 1"
  by (simp add: bit_len.simps)

lemma lead_exp_of_int_le: "0 < i \<Longrightarrow> i < 2 ^ 53 \<Longrightarrow> lead_exp (of_int i) \<le> 52"
  using bit_len_le [of "nat i" 53]
  by (simp add: lead_exp_def Let_def bit_len_one nat_less_iff)

lemma round_mag_of_int: "0 \<le> i \<Longrightarrow> i < 2 ^ 53 \<Longrightarrow> round_mag (of_int i) = of_int i"
proof (cases "i = 0")
  case True
  then show ?thesis by (simp add: round_mag_def)
next
  case False
  assume i: "0 \<le> i" "i < 2 ^ 53"
  define e where "e = max (lead_exp (of_int i) - 52) (- 1074)"
  have e: "e \<le> 0" using lead_exp_of_int_le [of i] False i by (simp add: e_def)
  then have "of_int i / pow2 e = (of_int (i * 2 ^ nat (- e)) :: rat)"
    by (cases "e = 0") (simp_all add: pow2_def)
  then have "round_even (of_int i / pow2 e) = i * 2 ^ nat (- e)"
    by (simp only: round_even_of_int)
  then have "round_mag (of_int i) = of_int (i * 2 ^ nat (- e)) * pow2 e"
    using False by (simp add: round_mag_def Let_def e_def)
  also have "\<dots> = of_int i" using e by (cases "e = 0") (simp_all add: pow2_def)
  finally show ?thesis .
qed

lemma f_of_int_exact: "\<bar>i\<bar> < 2 ^ 53 \<Longrightarrow> f_of_int i = F_Fin (i < 0) (of_int \<bar>i\<bar>)"
proof -
  assume i: "\<bar>i\<bar> < 2 ^ 53"
  then have "(of_int \<bar>i\<bar> :: rat) < of_int (2 ^ 53)" by (simp only: of_int_less_iff)
  then have "(of_int \<bar>i\<bar> :: rat) < 2 ^ 1024" by simp
  with round_mag_of_int [of "\<bar>i\<bar>"] i show ?thesis by (simp add: f_of_int_def f_round_def Let_def)
qed

lemma f_of_int_inj:
  "\<bar>i\<bar> < 2 ^ 53 \<Longrightarrow> \<bar>j\<bar> < 2 ^ 53 \<Longrightarrow> f_of_int i = f_of_int j \<longleftrightarrow> i = j"
  by (auto simp: f_of_int_exact)

lemma f_round_not_nan [simp]: "\<not> is_nan (f_round b m)"
  by (simp add: f_round_def Let_def)

lemma f_of_int_not_nan [simp]: "\<not> is_nan (f_of_int i)"
  by (simp add: f_of_int_def)

lemma f_of_int_finite: "\<bar>i\<bar> < 2 ^ 53 \<Longrightarrow> is_finite (f_of_int i)"
  by (simp add: f_of_int_exact)

end
