(* ===== verification/Domain.thy ===== *)
theory Domain
  imports GoText GoFloat
begin

section \<open>internal/domain: the middleware's data\<close>

text \<open>
  One record per struct of \<open>modbus-api-middleware/internal/domain\<close>, with the struct's field names
  behind a prefix per struct (\<open>b_\<close> Brand, \<open>p_\<close> Plant, \<open>a_\<close> Address, \<open>ds_\<close> DeviceSet, \<open>cn_\<close> Connection, \<open>dv_\<close> Device, \<open>c_\<close>
  ConnectionConfig, \<open>cs_\<close> ConfigSnapshot, \<open>gc_\<close> GatewayConfig, \<open>d_\<close> RegisterDefinition, \<open>rp_\<close>
  RegisterProfile, \<open>s_\<close> RegisterSample, \<open>r_\<close> Reading, \<open>pl_\<close> PollLog, \<open>dl_\<close> DeliveryLog). Go's \<open>int\<close>
  and \<open>int64\<close> are \<open>int\<close>: every bound the code relies on is checked by the code itself, and where it
  converts to a narrower type (\<open>uint16\<close>, \<open>uint32\<close>, \<open>byte\<close>) the model uses words of that width. A
  \<open>map[string]float64\<close> is a partial function.
\<close>

record Brand =
  b_BrandID :: int
  b_BrandName :: string
  b_BrandDescription :: string
  b_BrandDevSetIDList :: "int list"

record Plant =
  p_PlantID :: int
  p_PlantCode :: string
  p_PlantName :: string

record Address =
  a_AddressID :: int
  a_DeviceSetID :: int
  a_FunctionCode :: int
  a_Register :: int
  a_Description :: string
  a_CanonicalKey :: string
  a_SourceTag :: string
  a_Factor :: f64
  a_Offset :: f64
  a_DataType :: string
  a_Length :: int
  a_WordOrder :: string
  a_SourceUnit :: string
  a_CanonicalUnit :: string
  a_Remark :: string
  a_Enabled :: bool
  a_EnabledSet :: bool

record DeviceSet =
  ds_DeviceSetID :: int
  ds_BrandID :: int
  ds_BrandName :: string
  ds_DevTypeID :: int
  ds_DevType :: string
  ds_DevModel :: string
  ds_AddressIDList :: "int list"
  ds_AddressMode :: string
  ds_ByteOrder :: string
  ds_WordOrder :: string
  ds_MaxBlockSize :: int
  ds_Addresses :: "Address list"

record ConnectionConfig =
  c_ConnectionID :: int
  c_ConnectionName :: string
  c_Host :: string
  c_Port :: int
  c_UnitID :: int
  c_SlaveID :: int
  c_DeviceSetID :: int
  c_DeviceSetName :: string
  c_DevTypeID :: int
  c_DevDn :: string
  c_DeviceName :: string
  c_PlantCode :: string
  c_PlantName :: string
  c_Enabled :: bool

record ConfigSnapshot =
  cs_Version :: int
  cs_Brands :: "Brand list"
  cs_DeviceSets :: "DeviceSet list"
  cs_Connections :: "ConnectionConfig list"
  cs_Plants :: "Plant list"
  cs_SendIntervalSeconds :: int
  cs_APIPollingEnabled :: bool
  cs_IdleHeartbeatSeconds :: int

record GatewayConfig =
  gc_GatewayID :: string
  gc_Endpoint :: string
  gc_APIKey :: string
  gc_APIPollingEnabled :: bool
  gc_SendIntervalSeconds :: int
  gc_SendTimeoutSeconds :: int
  gc_IdleHeartbeatSeconds :: int

record RegisterDefinition =
  d_Key :: string
  d_SourceTag :: string
  d_DataType :: string
  d_SourceUnit :: string
  d_CanonicalUnit :: string
  d_RegisterAddress :: int
  d_FunctionCode :: int
  d_Length :: int
  d_Scale :: f64
  d_Offset :: f64
  d_WordOrder :: string
  d_Enabled :: bool

record RegisterProfile =
  rp_ProfileID :: string
  rp_ProfileName :: string
  rp_AddressMode :: string
  rp_ByteOrder :: string
  rp_WordOrder :: string
  rp_MaxBlockSize :: int
  rp_DevTypeID :: int
  rp_DefaultFunctionCode :: int
  rp_Enabled :: bool
  rp_Registers :: "RegisterDefinition list"

record Connection =
  cn_Host :: string
  cn_Port :: int
  cn_UnitID :: int

record Device =
  dv_DeviceID :: string
  dv_DeviceName :: string
  dv_PlantCode :: string
  dv_PlantName :: string
  dv_RegisterProfileID :: string
  dv_DevTypeID :: int
  dv_Enabled :: bool
  dv_Connection :: Connection

record RegisterSample =
  s_FunctionCode :: int
  s_RegisterAddress :: int
  s_DataType :: string
  s_RawValue :: f64
  s_Quality :: string

record Reading =
  r_GatewayID :: string
  r_DevDn :: string
  r_DevName :: string
  r_PlantCode :: string
  r_PlantName :: string
  r_DevTypeID :: int
  r_Model :: string
  r_CollectTime :: int
  r_RegisterAddressMap :: "string \<rightharpoonup> f64"

record PollLog =
  pl_ID :: int
  pl_ConnectionID :: int
  pl_ConnectionName :: string
  pl_Status :: string
  pl_Message :: string
  pl_Detail :: string
  pl_CreatedAt :: int

record DeliveryLog =
  dl_ID :: int
  dl_IdempotencyKey :: string
  dl_Status :: string
  dl_Attempts :: int
  dl_LastHTTPStatus :: int
  dl_LastError :: string
  dl_LastResponse :: string
  dl_CreatedAt :: int
  dl_DeliveredAt :: int

text \<open>Zero values, what Go's \<open>T{}\<close> is.\<close>

definition zero_GatewayConfig :: GatewayConfig where
  "zero_GatewayConfig =
     \<lparr>gc_GatewayID = [], gc_Endpoint = [], gc_APIKey = [], gc_APIPollingEnabled = False,
      gc_SendIntervalSeconds = 0, gc_SendTimeoutSeconds = 0, gc_IdleHeartbeatSeconds = 0\<rparr>"

definition zero_Plant :: Plant where
  "zero_Plant = \<lparr>p_PlantID = 0, p_PlantCode = [], p_PlantName = []\<rparr>"

text \<open>
  One Address through \<open>json.Marshal\<close> and \<open>Address.UnmarshalJSON\<close>. The tag of \<open>Enabled\<close> is
  \<open>json:"enabled,omitempty"\<close>, so a false value is not written; \<open>EnabledSet\<close> is \<open>json:"-"\<close>, so it
  never is. Reading back, an absent \<open>enabled\<close> leaves both fields at their zero value, a present one
  sets \<open>Enabled\<close> to it and \<open>EnabledSet\<close> to true. Every other field travels under its own tag, and
  one that \<open>omitempty\<close> drops comes back as the zero value it had (an \<open>Offset\<close> of minus zero, which
  compares equal, as plus zero).
\<close>

definition marshal_enabled :: "Address \<Rightarrow> bool option" where
  "marshal_enabled a = (if a_Enabled a then Some True else None)"

definition UnmarshalJSON_enabled :: "bool option \<Rightarrow> Address \<Rightarrow> Address" where
  "UnmarshalJSON_enabled enabled a =
     (case enabled of
        None \<Rightarrow> a\<lparr>a_Enabled := False, a_EnabledSet := False\<rparr>
      | Some v \<Rightarrow> a\<lparr>a_Enabled := v, a_EnabledSet := True\<rparr>)"

definition json_Address :: "Address \<Rightarrow> Address" where
  "json_Address a =
     UnmarshalJSON_enabled (marshal_enabled a)
       (a\<lparr>a_Offset := if f_eq (a_Offset a) f_zero then f_zero else a_Offset a\<rparr>)"

definition json_DeviceSet :: "DeviceSet \<Rightarrow> DeviceSet" where
  "json_DeviceSet ds = ds\<lparr>ds_Addresses := map json_Address (ds_Addresses ds)\<rparr>"

lemma json_Address_Enabled [simp]: "a_Enabled (json_Address a) = a_Enabled a"
  by (simp add: json_Address_def UnmarshalJSON_enabled_def marshal_enabled_def)

lemma json_Address_EnabledSet [simp]: "a_EnabledSet (json_Address a) = a_Enabled a"
  by (simp add: json_Address_def UnmarshalJSON_enabled_def marshal_enabled_def)

end
