(* ===== verification/Profile.thy ===== *)
theory Profile
  imports Decoder
begin

section \<open>internal/profile: register addresses and read blocks\<close>

text \<open>
  \<open>CanonicalAddressMode\<close> and \<open>ResolveModbusAddress\<close> of \<open>address.go\<close> and \<open>BuildBlocks\<close> of
  \<open>blocks.go\<close>. Offsets and quantities are \<open>16 word\<close> and the arithmetic of the block loop is on
  \<open>32 word\<close>, as in the code, so that the conversions \<open>uint16(...)\<close> and the subtraction
  \<open>end - uint32(b.Start)\<close> wrap in the model where they would wrap in the code; the lemmas show that
  they never do. \<open>sort.Slice\<close> is the parameter \<open>srt\<close> with the contract \<open>slice_sort entry_less srt\<close>.
\<close>

subsection \<open>address.go\<close>

record ResolvedAddress =
  ra_FunctionCode :: int
  ra_Start :: "16 word"
  ra_Quantity :: "16 word"

definition CanonicalAddressMode :: "string \<Rightarrow> string + string" where
  "CanonicalAddressMode addressMode =
     (let mode = to_upper (trim_space addressMode) in
      if mode \<in> set ['''', ''ZERO_BASED'', ''OFFSET_0'', ''ZERO_BASED_OFFSET''] then Inr ''ZERO_BASED''
      else if mode \<in> set [''ONE_BASED'', ''OFFSET_1'', ''ONE_BASED_OFFSET''] then Inr ''ONE_BASED''
      else if mode \<in> set [''FULL_NOTATION'', ''FULL'', ''MODBUS_NOTATION''] then Inr ''FULL_NOTATION''
      else if mode \<in> set [''VENDOR_RAW'', ''RAW'', ''DIRECT'', ''MODBUS_RAW''] then Inr ''VENDOR_RAW''
      else if mode = ''SMA'' then Inr ''SMA''
      else if mode \<in> set [''REGISTER_30001'', ''INPUT_30001'', ''INPUT_REGISTER_30001'']
        then Inr ''REGISTER_30001''
      else if mode \<in> set [''REGISTER_40001'', ''HOLDING_40001'', ''HOLDING_REGISTER_40001'']
        then Inr ''REGISTER_40001''
      else Inl (''unsupported address mode '' @ quoted addressMode))"

definition canonical_modes :: "string list" where
  "canonical_modes = [''ZERO_BASED'', ''ONE_BASED'', ''FULL_NOTATION'', ''VENDOR_RAW'', ''SMA'',
     ''REGISTER_30001'', ''REGISTER_40001'']"

text \<open>The switch on the mode: the function code and the start it gives, or the notation error.\<close>

definition mode_start :: "string \<Rightarrow> int \<Rightarrow> int \<Rightarrow> string + int \<times> int" where
  "mode_start mode fc start =
     (if mode = ''ONE_BASED'' then Inr (fc, start - 1)
      else if mode = ''FULL_NOTATION'' then
        (if 30000 \<le> start \<and> start < 40000 then Inr (3, start - 30000)
         else if 40000 \<le> start \<and> start < 50000 then Inr (4, start - 40000)
         else Inl (''register '' @ itoa start @ '' is not 3xxxx/4xxxx full notation''))
      else if mode = ''REGISTER_40001'' then Inr (fc, start - 40001)
      else if mode = ''REGISTER_30001'' then Inr (fc, start - 30001)
      else Inr (fc, start))"

definition ResolveModbusAddress :: "string \<Rightarrow> RegisterDefinition \<Rightarrow> string + ResolvedAddress" where
  "ResolveModbusAddress addressMode d =
     (case CanonicalAddressMode addressMode of
        Inl err \<Rightarrow> Inl err
      | Inr mode \<Rightarrow>
          if d_Length d < 1 \<or> 125 < d_Length d
          then Inl (d_Key d @ '' has invalid length '' @ itoa (d_Length d))
          else (case mode_start mode (d_FunctionCode d) (d_RegisterAddress d) of
             Inl err \<Rightarrow> Inl err
           | Inr (fc, start) \<Rightarrow>
               if fc \<noteq> 3 \<and> fc \<noteq> 4
               then Inl (d_Key d @ '' has unsupported function code '' @ itoa fc)
               else if start < 0 \<or> 65535 < start \<or> 65536 < start + d_Length d
               then Inl (''register '' @ itoa (d_RegisterAddress d) @ '' out of range for '' @ mode)
               else Inr \<lparr>ra_FunctionCode = fc, ra_Start = word_of_int start,
                         ra_Quantity = word_of_int (d_Length d)\<rparr>))"

lemma CanonicalAddressMode_range:
  "CanonicalAddressMode m = Inr mode \<Longrightarrow> mode \<in> set canonical_modes"
  by (auto simp: CanonicalAddressMode_def canonical_modes_def Let_def split: if_splits)

lemma CanonicalAddressMode_canonical:
  "mode \<in> set canonical_modes \<Longrightarrow> CanonicalAddressMode mode = Inr mode"
proof -
  have "list_all (\<lambda>m. CanonicalAddressMode m = Inr m) canonical_modes"
    by (simp add: canonical_modes_def CanonicalAddressMode_def Let_def text_eval)
  then show "mode \<in> set canonical_modes \<Longrightarrow> CanonicalAddressMode mode = Inr mode"
    by (simp add: list_all_iff)
qed

text \<open>A configured mode is read the same way once it has been made canonical.\<close>

lemma CanonicalAddressMode_idem:
  "CanonicalAddressMode m = Inr mode \<Longrightarrow> CanonicalAddressMode mode = Inr mode"
  by (intro CanonicalAddressMode_canonical CanonicalAddressMode_range)

lemma CanonicalAddressMode_clean: "is_ok (CanonicalAddressMode (clean_upper m)) = is_ok (CanonicalAddressMode m)"
  by (simp add: CanonicalAddressMode_def Let_def clean_upper_def)

text \<open>What a resolved address promises, and that the conversions to 16 bits lose nothing.\<close>

lemma uint_of_int_16: "0 \<le> i \<Longrightarrow> i < 65536 \<Longrightarrow> uint (word_of_int i :: 16 word) = i"
  by (simp add: uint_word_of_int take_bit_int_eq_self)

lemma ResolveModbusAddress_ok:
  assumes "ResolveModbusAddress m d = Inr r"
  shows "ra_FunctionCode r = 3 \<or> ra_FunctionCode r = 4"
    and "uint (ra_Quantity r) = d_Length d"
    and "1 \<le> d_Length d" and "d_Length d \<le> 125"
    and "uint (ra_Start r) + d_Length d \<le> 65536"
    and "\<exists>mode. CanonicalAddressMode m = Inr mode \<and>
           mode_start mode (d_FunctionCode d) (d_RegisterAddress d) =
             Inr (ra_FunctionCode r, uint (ra_Start r))"
  using assms
  by (auto simp: ResolveModbusAddress_def uint_of_int_16 split: sum.splits if_splits)

text \<open>Resolving depends on the mode only through its canonical form.\<close>

lemma ResolveModbusAddress_canonical:
  "CanonicalAddressMode m = Inr mode \<Longrightarrow> ResolveModbusAddress mode d = ResolveModbusAddress m d"
  using CanonicalAddressMode_idem [of m mode] by (simp add: ResolveModbusAddress_def)

subsection \<open>blocks.go\<close>

record Entry =
  e_Definition :: RegisterDefinition
  e_Offset :: "16 word"

record Block =
  bk_FunctionCode :: int
  bk_Start :: "16 word"
  bk_Quantity :: "16 word"
  bk_Entries :: "Entry list"

definition block_limit :: "int \<Rightarrow> int" where
  "block_limit m = (let limit = (if m < 1 then 30 else m) in if 125 < limit then 125 else limit)"

text \<open>The body of the first loop, for an enabled register.\<close>

definition resolve_entry :: "RegisterProfile \<Rightarrow> RegisterDefinition \<Rightarrow> string + Entry" where
  "resolve_entry p d =
     (if d_Length d < 1 \<or> 125 < d_Length d then Inl (d_Key d @ '' has invalid length'')
      else
        let d = (if d_FunctionCode d = 0 then d\<lparr>d_FunctionCode := rp_DefaultFunctionCode p\<rparr> else d)
        in case ResolveModbusAddress (rp_AddressMode p) d of
             Inl err \<Rightarrow> Inl err
           | Inr resolved \<Rightarrow>
               Inr \<lparr>e_Definition = d\<lparr>d_FunctionCode := ra_FunctionCode resolved\<rparr>,
                    e_Offset = ra_Start resolved\<rparr>)"

definition entry_less :: "Entry \<Rightarrow> Entry \<Rightarrow> bool" where
  "entry_less a b =
     (if d_FunctionCode (e_Definition a) \<noteq> d_FunctionCode (e_Definition b)
      then d_FunctionCode (e_Definition a) < d_FunctionCode (e_Definition b)
      else e_Offset a < e_Offset b)"

text \<open>\<open>uint32(e.Offset) + uint32(e.Definition.Length)\<close>.\<close>

definition entry_end :: "Entry \<Rightarrow> 32 word" where
  "entry_end e = ucast (e_Offset e) + word_of_int (d_Length (e_Definition e))"

definition opens_block :: "int \<Rightarrow> Block \<Rightarrow> Entry \<Rightarrow> bool" where
  "opens_block limit b e =
     (let currentEnd = ucast (bk_Start b) + ucast (bk_Quantity b) :: 32 word in
      bk_FunctionCode b \<noteq> d_FunctionCode (e_Definition e)
      \<or> currentEnd < ucast (e_Offset e)
      \<or> word_of_int limit < entry_end e - ucast (bk_Start b))"

definition start_block :: "Entry \<Rightarrow> Block" where
  "start_block e =
     \<lparr>bk_FunctionCode = d_FunctionCode (e_Definition e), bk_Start = e_Offset e,
      bk_Quantity = word_of_int (d_Length (e_Definition e)), bk_Entries = [e]\<rparr>"

definition extend_block :: "Block \<Rightarrow> Entry \<Rightarrow> Block" where
  "extend_block b e =
     (let quantity = entry_end e - ucast (bk_Start b);
          b = (if ucast (bk_Quantity b) < quantity then b\<lparr>bk_Quantity := ucast quantity\<rparr> else b)
      in b\<lparr>bk_Entries := bk_Entries b @ [e]\<rparr>)"

text \<open>The body of the second loop; the block under construction is the last of \<open>blocks\<close>.\<close>

definition add_entry :: "int \<Rightarrow> Block list \<Rightarrow> Entry \<Rightarrow> string + Block list" where
  "add_entry limit blocks e =
     (if 65536 < entry_end e then Inl (d_Key (e_Definition e) @ '' exceeds register range'')
      else if blocks = [] \<or> opens_block limit (last blocks) e
      then Inr (blocks @ [start_block e])
      else Inr (butlast blocks @ [extend_block (last blocks) e]))"

fun add_entries :: "int \<Rightarrow> Block list \<Rightarrow> Entry list \<Rightarrow> string + Block list" where
  "add_entries limit blocks [] = Inr blocks"
| "add_entries limit blocks (e # es) =
     (case add_entry limit blocks e of
        Inl err \<Rightarrow> Inl err
      | Inr blocks \<Rightarrow> add_entries limit blocks es)"

definition BuildBlocks :: "(Entry list \<Rightarrow> Entry list) \<Rightarrow> RegisterProfile \<Rightarrow> string + Block list" where
  "BuildBlocks srt p =
     (case traverse (resolve_entry p) (filter d_Enabled (rp_Registers p)) of
        Inl err \<Rightarrow> Inl err
      | Inr entries \<Rightarrow> add_entries (block_limit (rp_MaxBlockSize p)) [] (srt entries))"

subsection \<open>The comparison is a strict weak order, so sort.Slice's contract can be met\<close>

definition entry_key :: "Entry \<Rightarrow> int" where
  "entry_key e = d_FunctionCode (e_Definition e) * 65536 + uint (e_Offset e)"

lemma uint_16_bounds: "0 \<le> uint (w :: 16 word)" "uint (w :: 16 word) < 65536"
  using uint_lt2p [of w] by simp_all

lemma entry_less_key: "entry_less a b \<longleftrightarrow> entry_key a < entry_key b"
proof -
  have key: "fa * 65536 + oa < fb * 65536 + ob \<longleftrightarrow> (if fa \<noteq> fb then fa < fb else oa < ob)"
    if "0 \<le> oa" "oa < 65536" "0 \<le> ob" "ob < 65536" for fa fb oa ob :: int
    using that by (cases fa fb rule: linorder_cases) auto
  show ?thesis
    unfolding entry_less_def entry_key_def word_less_def by (subst key) (simp_all add: uint_16_bounds)
qed

interpretation entries: slice_sort entry_less "sort_less entry_less"
  by (rule sort_less_slice_sort [of _ entry_key]) (rule entry_less_key)

subsection \<open>Well-formed entries and blocks\<close>

text \<open>The numbers of an entry and of a block, read as integers.\<close>

definition e_from :: "Entry \<Rightarrow> int" where
  "e_from e = uint (e_Offset e)"

definition e_to :: "Entry \<Rightarrow> int" where
  "e_to e = uint (e_Offset e) + d_Length (e_Definition e)"

definition bk_from :: "Block \<Rightarrow> int" where
  "bk_from b = uint (bk_Start b)"

definition bk_to :: "Block \<Rightarrow> int" where
  "bk_to b = uint (bk_Start b) + uint (bk_Quantity b)"

definition entry_ok :: "Entry \<Rightarrow> bool" where
  "entry_ok e \<longleftrightarrow> d_FunctionCode (e_Definition e) \<in> {3, 4}
     \<and> 1 \<le> d_Length (e_Definition e) \<and> d_Length (e_Definition e) \<le> 125 \<and> e_to e \<le> 65536"

text \<open>
  A block that can be read in one request and cut into the values of its entries: the request is
  within the protocol's bounds and the 16-bit address space, all entries share its function code and
  lie inside it, it starts at its first entry, and each register it reads belongs to some entry.
\<close>

definition block_ok :: "int \<Rightarrow> Block \<Rightarrow> bool" where
  "block_ok limit b \<longleftrightarrow>
     bk_Entries b \<noteq> [] \<and> bk_from b = e_from (hd (bk_Entries b))
     \<and> bk_from b < bk_to b \<and> bk_to b \<le> 65536
     \<and> bk_to b - bk_from b \<le> max limit (d_Length (e_Definition (hd (bk_Entries b))))
     \<and> bk_to b - bk_from b \<le> 125
     \<and> (\<forall>e \<in> set (bk_Entries b). d_FunctionCode (e_Definition e) = bk_FunctionCode b
          \<and> bk_from b \<le> e_from e \<and> e_to e \<le> bk_to b)
     \<and> (\<forall>r. bk_from b \<le> r \<and> r < bk_to b \<longrightarrow>
          (\<exists>e \<in> set (bk_Entries b). e_from e \<le> r \<and> r < e_to e))"

lemma block_limit_range: "1 \<le> block_limit m \<and> block_limit m \<le> 125"
  by (simp add: block_limit_def Let_def)

lemma resolve_entry_ok: "resolve_entry p d = Inr e \<Longrightarrow> entry_ok e"
proof -
  assume r: "resolve_entry p d = Inr e"
  define d' where
    "d' = (if d_FunctionCode d = 0 then d\<lparr>d_FunctionCode := rp_DefaultFunctionCode p\<rparr> else d)"
  have len: "d_Length d' = d_Length d" by (simp add: d'_def)
  from r obtain a where a: "ResolveModbusAddress (rp_AddressMode p) d' = Inr a"
    and e: "e = \<lparr>e_Definition = d'\<lparr>d_FunctionCode := ra_FunctionCode a\<rparr>, e_Offset = ra_Start a\<rparr>"
    by (simp add: resolve_entry_def Let_def flip: d'_def split: if_splits sum.splits)
  from ResolveModbusAddress_ok [OF a] show ?thesis by (auto simp: entry_ok_def e_to_def e)
qed

subsection \<open>The 32-bit arithmetic of the loop never wraps\<close>

lemma uint_word32: "0 \<le> i \<Longrightarrow> i < 4294967296 \<Longrightarrow> uint (word_of_int i :: 32 word) = i"
  by (simp add: uint_word_of_int take_bit_int_eq_self)

lemma uint_ucast_16_32: "uint (ucast (w :: 16 word) :: 32 word) = uint w"
  by (simp add: uint_up_ucast is_up)

lemma word_of_int_uint_16_32: "(ucast (w :: 16 word) :: 32 word) = word_of_int (uint w)"
  by (metis uint_ucast_16_32 word_of_int_uint)

lemma entry_end_word: "entry_end e = word_of_int (e_to e)"
  unfolding entry_end_def e_to_def word_of_int_uint_16_32 wi_hom_add by (rule refl)

lemma current_end_word:
  "(ucast (bk_Start b) + ucast (bk_Quantity b) :: 32 word) = word_of_int (bk_to b)"
  unfolding bk_to_def word_of_int_uint_16_32 wi_hom_add by (rule refl)

lemma entry_ok_bounds: "entry_ok e \<Longrightarrow> 0 \<le> e_from e \<and> e_from e < e_to e \<and> e_to e \<le> 65536"
  by (simp add: entry_ok_def e_from_def e_to_def)

lemma bk_bounds: "0 \<le> bk_from b \<and> bk_from b < 65536 \<and> bk_from b \<le> bk_to b \<and> bk_to b < 131072"
  using uint_16_bounds [of "bk_Start b"] uint_16_bounds [of "bk_Quantity b"]
  by (simp add: bk_from_def bk_to_def)

lemma distance_word: "entry_end e - ucast (bk_Start b) = word_of_int (e_to e - bk_from b)"
  unfolding entry_end_word word_of_int_uint_16_32 bk_from_def wi_hom_sub by (rule refl)

lemma opens_block_iff:
  assumes "entry_ok e" and "bk_from b \<le> e_from e" and "0 \<le> limit" and "limit \<le> 125"
  shows "opens_block limit b e \<longleftrightarrow>
     bk_FunctionCode b \<noteq> d_FunctionCode (e_Definition e) \<or> bk_to b < e_from e
     \<or> limit < e_to e - bk_from b"
  using assms entry_ok_bounds [OF assms(1)] bk_bounds [of b] uint_16_bounds [of "e_Offset e"]
  by (simp add: opens_block_def Let_def current_end_word distance_word word_less_def uint_word32
      uint_ucast_16_32 e_from_def del: of_int_diff)

lemma start_block_ok:
  assumes "entry_ok e" shows "block_ok limit (start_block e)"
proof -
  have "uint (word_of_int (d_Length (e_Definition e)) :: 16 word) = d_Length (e_Definition e)"
    using assms by (intro uint_of_int_16) (auto simp: entry_ok_def)
  with assms show ?thesis
    by (auto simp: block_ok_def start_block_def entry_ok_def bk_from_def bk_to_def e_from_def e_to_def)
qed

lemma extend_block_to:
  assumes "entry_ok e" and "bk_from b \<le> e_from e" and "e_to e - bk_from b \<le> 125"
  shows "bk_from (extend_block b e) = bk_from b"
    and "bk_to (extend_block b e) = max (bk_to b) (e_to e)"
    and "bk_FunctionCode (extend_block b e) = bk_FunctionCode b"
    and "bk_Entries (extend_block b e) = bk_Entries b @ [e]"
proof -
  have d: "0 \<le> e_to e - bk_from b" using assms entry_ok_bounds [OF assms(1)] by simp
  have "uint (word_of_int (e_to e - bk_from b) :: 32 word) = e_to e - bk_from b"
    using d assms(3) by (intro uint_word32) auto
  then have "uint (ucast (word_of_int (e_to e - bk_from b) :: 32 word) :: 16 word) = e_to e - bk_from b"
    using d assms(3) by (simp add: unsigned_ucast_eq take_bit_int_eq_self del: of_int_diff)
  then show "bk_to (extend_block b e) = max (bk_to b) (e_to e)"
    using d assms(3) uint_word32 [of "e_to e - bk_from b"]
    by (auto simp: extend_block_def Let_def distance_word word_less_def uint_ucast_16_32
        bk_to_def bk_from_def)
  show "bk_from (extend_block b e) = bk_from b"
    "bk_FunctionCode (extend_block b e) = bk_FunctionCode b"
    "bk_Entries (extend_block b e) = bk_Entries b @ [e]"
    by (simp_all add: extend_block_def Let_def bk_from_def)
qed

lemma extend_block_ok:
  assumes b: "block_ok limit b" and e: "entry_ok e" and fr: "bk_from b \<le> e_from e"
    and fc: "bk_FunctionCode b = d_FunctionCode (e_Definition e)"
    and gap: "e_from e \<le> bk_to b" and lim: "e_to e - bk_from b \<le> limit" and l: "limit \<le> 125"
  shows "block_ok limit (extend_block b e)"
proof -
  have x: "bk_from (extend_block b e) = bk_from b"
    "bk_to (extend_block b e) = max (bk_to b) (e_to e)"
    "bk_FunctionCode (extend_block b e) = bk_FunctionCode b"
    "bk_Entries (extend_block b e) = bk_Entries b @ [e]"
    using extend_block_to [OF e fr] lim l by simp_all
  have cover: "\<exists>x \<in> set (bk_Entries b @ [e]). e_from x \<le> r \<and> r < e_to x"
    if "bk_from b \<le> r" "r < max (bk_to b) (e_to e)" for r
    using that gap b by (cases "r < bk_to b") (auto simp: block_ok_def)
  show ?thesis
    unfolding block_ok_def x using b e fr fc lim l cover entry_ok_bounds [OF e]
    by (auto simp: block_ok_def)
qed

subsection \<open>The block loop\<close>

definition blocks_inv :: "int \<Rightarrow> Block list \<Rightarrow> Entry list \<Rightarrow> bool" where
  "blocks_inv limit blocks seen \<longleftrightarrow>
     concat (map bk_Entries blocks) = seen \<and> (\<forall>b \<in> set blocks. block_ok limit b)"

lemma add_entry_inv:
  assumes inv: "blocks_inv limit blocks seen" and e: "entry_ok e"
    and late: "\<forall>x \<in> set seen. \<not> entry_less e x" and l: "1 \<le> limit" "limit \<le> 125"
  shows "\<exists>bs. add_entry limit blocks e = Inr bs \<and> blocks_inv limit bs (seen @ [e])"
proof -
  have "uint (entry_end e) \<le> 65536"
    using e entry_ok_bounds [OF e] by (simp add: entry_end_word uint_word32)
  then have fits: "\<not> 65536 < entry_end e" by (simp add: word_less_def)
  show ?thesis
  proof (cases "blocks = [] \<or> opens_block limit (last blocks) e")
    case True
    then have "add_entry limit blocks e = Inr (blocks @ [start_block e])"
      using fits by (simp add: add_entry_def)
    moreover have "blocks_inv limit (blocks @ [start_block e]) (seen @ [e])"
      using inv start_block_ok [OF e] by (auto simp: blocks_inv_def start_block_def)
    ultimately show ?thesis by blast
  next
    case False
    then obtain front b where bs: "blocks = front @ [b]" by (metis append_butlast_last_id)
    with inv have b: "block_ok limit b" and x: "hd (bk_Entries b) \<in> set seen"
      by (auto simp: blocks_inv_def block_ok_def)
    from False bs have no: "\<not> opens_block limit b e" by simp
    then have fc: "bk_FunctionCode b = d_FunctionCode (e_Definition e)"
      by (auto simp: opens_block_def Let_def)
    moreover from b have "d_FunctionCode (e_Definition (hd (bk_Entries b))) = bk_FunctionCode b"
      by (auto simp: block_ok_def)
    moreover from b have "bk_from b = e_from (hd (bk_Entries b))" by (simp add: block_ok_def)
    ultimately have fr: "bk_from b \<le> e_from e"
      using late x by (auto simp: entry_less_def e_from_def word_less_def)
    have "block_ok limit (extend_block b e)"
      using no opens_block_iff [OF e fr] l by (intro extend_block_ok b e fr fc) auto
    moreover have "add_entry limit blocks e = Inr (front @ [extend_block b e])"
      using fits False by (simp add: add_entry_def bs)
    moreover have "bk_Entries (extend_block b e) = bk_Entries b @ [e]"
      by (simp add: extend_block_def Let_def)
    ultimately show ?thesis using inv by (auto simp: blocks_inv_def bs)
  qed
qed

lemma add_entries_inv:
  assumes "blocks_inv limit blocks seen" and "\<forall>e \<in> set es. entry_ok e"
    and "sorted_wrt (\<lambda>a b. \<not> entry_less b a) (seen @ es)" and "1 \<le> limit" "limit \<le> 125"
  shows "\<exists>bs. add_entries limit blocks es = Inr bs \<and> blocks_inv limit bs (seen @ es)"
  using assms
proof (induction es arbitrary: blocks seen)
  case Nil
  then show ?case by simp
next
  case (Cons e es)
  from Cons.prems(3) have "\<forall>x \<in> set seen. \<not> entry_less e x" by (simp add: sorted_wrt_append)
  with Cons.prems obtain bs where bs: "add_entry limit blocks e = Inr bs"
      "blocks_inv limit bs (seen @ [e])"
    using add_entry_inv [of limit blocks seen e] by auto
  with Cons.IH [OF bs(2)] Cons.prems show ?case by simp
qed

text \<open>Once every enabled register resolves, the loop cannot fail.\<close>

lemma BuildBlocks_cases:
  assumes srt: "slice_sort entry_less srt"
    and es: "traverse (resolve_entry p) (filter d_Enabled (rp_Registers p)) = Inr es"
  obtains blocks where "BuildBlocks srt p = Inr blocks"
    and "concat (map bk_Entries blocks) = srt es"
    and "\<forall>b \<in> set blocks. block_ok (block_limit (rp_MaxBlockSize p)) b"
proof -
  have set: "set (srt es) = set es" using srt by (rule slice_sort.set_srt)
  have ord: "sorted_wrt (\<lambda>a b. \<not> entry_less b a) ([] @ srt es)"
    using slice_sort.ordered [OF srt] by simp
  have ok: "\<forall>e \<in> set (srt es). entry_ok e"
    using traverse_member [OF es] resolve_entry_ok set by blast
  have "blocks_inv (block_limit (rp_MaxBlockSize p)) [] []" by (simp add: blocks_inv_def)
  from add_entries_inv [OF this ok ord] block_limit_range [of "rp_MaxBlockSize p"] that show ?thesis
    using es by (auto simp: BuildBlocks_def blocks_inv_def)
qed

lemma BuildBlocks_is_ok_iff:
  assumes srt: "slice_sort entry_less srt"
  shows "is_ok (BuildBlocks srt p) \<longleftrightarrow>
     (\<forall>d \<in> set (rp_Registers p). d_Enabled d \<longrightarrow> is_ok (resolve_entry p d))"
proof (cases "traverse (resolve_entry p) (filter d_Enabled (rp_Registers p))")
  case (Inl err)
  then have "\<not> is_ok (BuildBlocks srt p)" by (simp add: BuildBlocks_def)
  with traverse_Inl_ex [OF Inl] show ?thesis by force
next
  case (Inr es)
  with srt obtain blocks where "BuildBlocks srt p = Inr blocks" by (rule BuildBlocks_cases)
  moreover have "\<forall>d \<in> set (filter d_Enabled (rp_Registers p)). \<exists>e. resolve_entry p d = Inr e"
    using Inr traverse_ok_iff [of "resolve_entry p"] by metis
  ultimately show ?thesis by (auto simp: is_ok_iff)
qed

lemma BuildBlocks_result:
  assumes srt: "slice_sort entry_less srt" and b: "BuildBlocks srt p = Inr blocks"
  obtains es where "traverse (resolve_entry p) (filter d_Enabled (rp_Registers p)) = Inr es"
    and "concat (map bk_Entries blocks) = srt es"
    and "\<forall>b \<in> set blocks. block_ok (block_limit (rp_MaxBlockSize p)) b"
proof (cases "traverse (resolve_entry p) (filter d_Enabled (rp_Registers p))")
  case (Inl err)
  with b show ?thesis by (simp add: BuildBlocks_def)
next
  case (Inr es)
  from srt Inr obtain bs where "BuildBlocks srt p = Inr bs" "concat (map bk_Entries bs) = srt es"
      "\<forall>b \<in> set bs. block_ok (block_limit (rp_MaxBlockSize p)) b"
    by (rule BuildBlocks_cases)
  with b Inr that show ?thesis by simp
qed

subsection \<open>Properties\<close>

text \<open>
  A resolved address is a request the protocol allows. The function code is 3 or 4, the quantity
  is the configured length and between 1 and 125, the last register is at most 65535, the conversions
  to 16 bits lost nothing, and the start is the configured register moved by exactly what the
  address mode says.
\<close>

theorem ResolveModbusAddress_sound:
  assumes "ResolveModbusAddress m d = Inr r"
  shows "ra_FunctionCode r \<in> {3, 4} \<and> uint (ra_Quantity r) = d_Length d \<and> 1 \<le> d_Length d \<and> d_Length d \<le> 125
    \<and> uint (ra_Start r) + uint (ra_Quantity r) \<le> 65536
    \<and> (\<exists>mode. CanonicalAddressMode m = Inr mode \<and>
         (ra_FunctionCode r, uint (ra_Start r)) =
         (if mode = ''ONE_BASED'' then (d_FunctionCode d, d_RegisterAddress d - 1)
          else if mode = ''FULL_NOTATION'' then
            (if d_RegisterAddress d < 40000 then (3, d_RegisterAddress d - 30000)
             else (4, d_RegisterAddress d - 40000))
          else if mode = ''REGISTER_40001'' then (d_FunctionCode d, d_RegisterAddress d - 40001)
          else if mode = ''REGISTER_30001'' then (d_FunctionCode d, d_RegisterAddress d - 30001)
          else (d_FunctionCode d, d_RegisterAddress d)))"
proof -
  note r = ResolveModbusAddress_ok [OF assms]
  from r(6) obtain mode where "CanonicalAddressMode m = Inr mode"
    and "mode_start mode (d_FunctionCode d) (d_RegisterAddress d) = Inr (ra_FunctionCode r, uint (ra_Start r))"
    by blast
  with r(1-5) show ?thesis by (auto simp: mode_start_def split: if_splits)
qed

definition sample_definition :: "int \<Rightarrow> int \<Rightarrow> RegisterDefinition" where
  "sample_definition register len =
     \<lparr>d_Key = ''P'', d_SourceTag = ''P'', d_DataType = ''U32'', d_SourceUnit = [], d_CanonicalUnit = [],
      d_RegisterAddress = register, d_FunctionCode = 3, d_Length = len, d_Scale = f_one, d_Offset = f_zero,
      d_WordOrder = [], d_Enabled = True\<rparr>"

lemma sample_resolves:
  "ResolveModbusAddress ''one_based'' (sample_definition 41 2) =
     Inr \<lparr>ra_FunctionCode = 3, ra_Start = 40, ra_Quantity = 2\<rparr>"
  by (simp add: ResolveModbusAddress_def CanonicalAddressMode_def Let_def text_eval sample_definition_def
      mode_start_def)

theorem ResolveModbusAddress_sound_witness:
  "uint (ra_Start \<lparr>ra_FunctionCode = 3, ra_Start = 40, ra_Quantity = 2\<rparr>) + uint (2 :: 16 word) \<le> 65536"
  using ResolveModbusAddress_sound [OF sample_resolves] by simp

text \<open>
  C20: The blocks \<open>BuildBlocks\<close> returns read every enabled register exactly once and can be read. The
  entries of the blocks, in order, are a permutation of the resolved enabled registers; each block
  starts at its first entry, asks for 1 to 125 registers below 65536, never more than the larger of
  the configured limit and its first entry, holds only entries of its function code that lie inside
  it, and reads no register that belongs to none of its entries. This holds for every order
  \<open>sort.Slice\<close> may leave equal offsets in.
\<close>

theorem BuildBlocks_sound:
  assumes "slice_sort entry_less srt" and "BuildBlocks srt p = Inr blocks"
  shows "(\<exists>es. traverse (resolve_entry p) (filter d_Enabled (rp_Registers p)) = Inr es
           \<and> mset (concat (map bk_Entries blocks)) = mset es)
    \<and> (\<forall>b \<in> set blocks. block_ok (block_limit (rp_MaxBlockSize p)) b)"
  by (rule BuildBlocks_result [OF assms]) (auto simp: slice_sort.perm [OF assms(1)])

definition sample_profile :: RegisterProfile where
  "sample_profile =
     \<lparr>rp_ProfileID = [], rp_ProfileName = [], rp_AddressMode = ''SMA'', rp_ByteOrder = ''BIG_ENDIAN'',
      rp_WordOrder = ''HIGH_LOW'', rp_MaxBlockSize = 3, rp_DevTypeID = 1, rp_DefaultFunctionCode = 3,
      rp_Enabled = True,
      rp_Registers = [sample_definition 42 2, sample_definition 40 2, sample_definition 41 1]\<rparr>"

lemma sample_entry:
  "0 \<le> r \<Longrightarrow> r \<le> 60000 \<Longrightarrow> 1 \<le> n \<Longrightarrow> n \<le> 125 \<Longrightarrow>
     resolve_entry sample_profile (sample_definition r n) =
       Inr \<lparr>e_Definition = sample_definition r n, e_Offset = word_of_int r\<rparr>"
  by (simp add: resolve_entry_def Let_def ResolveModbusAddress_def CanonicalAddressMode_def text_eval
      sample_profile_def sample_definition_def mode_start_def)

lemma sample_registers: "rp_Registers sample_profile =
    [sample_definition 42 2, sample_definition 40 2, sample_definition 41 1]"
  "d_Enabled (sample_definition r n)"
  by (simp_all add: sample_profile_def sample_definition_def)

theorem BuildBlocks_sound_witness:
  "map bk_Quantity (projr (BuildBlocks (sort_less entry_less) sample_profile)) = [2, 2]
   \<and> list_all (block_ok 3) (projr (BuildBlocks (sort_less entry_less) sample_profile))"
proof -
  let ?e = "\<lambda>r n. \<lparr>e_Definition = sample_definition r n, e_Offset = word_of_int r\<rparr>"
  have es: "traverse (resolve_entry sample_profile) (filter d_Enabled (rp_Registers sample_profile))
      = Inr [?e 42 2, ?e 40 2, ?e 41 1]"
    by (simp add: sample_registers sample_entry)
  have "sort_less entry_less [?e 42 2, ?e 40 2, ?e 41 1] = [?e 40 2, ?e 41 1, ?e 42 2]"
    by (simp add: sort_less_def entry_less_def sample_definition_def)
  then have b: "BuildBlocks (sort_less entry_less) sample_profile
      = Inr [\<lparr>bk_FunctionCode = 3, bk_Start = 40, bk_Quantity = 2, bk_Entries = [?e 40 2, ?e 41 1]\<rparr>,
             \<lparr>bk_FunctionCode = 3, bk_Start = 42, bk_Quantity = 2, bk_Entries = [?e 42 2]\<rparr>]"
    using es
    by (simp add: BuildBlocks_def add_entry_def start_block_def opens_block_def extend_block_def
        entry_end_def block_limit_def sample_definition_def sample_profile_def Let_def)
  have l: "block_limit (rp_MaxBlockSize sample_profile) = 3" by (simp add: block_limit_def sample_profile_def)
  show ?thesis using BuildBlocks_sound [OF entries.slice_sort_axioms b] unfolding b l by simp
qed

text \<open>
  \<open>BuildBlocks\<close> succeeds exactly when each enabled register resolves; no combination of
  registers that resolve one by one makes it fail, and in particular its second loop never reports
  that an entry exceeds the register range.
\<close>

theorem BuildBlocks_succeeds_iff:
  assumes "slice_sort entry_less srt"
  shows "is_ok (BuildBlocks srt p) =
    (\<forall>d \<in> set (rp_Registers p). d_Enabled d \<longrightarrow> is_ok (resolve_entry p d))"
  using assms by (rule BuildBlocks_is_ok_iff)

theorem BuildBlocks_succeeds_iff_witness:
  "is_ok (BuildBlocks (sort_less entry_less) sample_profile)"
  by (subst BuildBlocks_succeeds_iff [OF entries.slice_sort_axioms])
    (simp add: sample_registers sample_entry)

end
