(* ===== verification/SMA.thy ===== *)
theory SMA
  imports Profile
begin

section \<open>internal/profile: the SMA Sunny Central profile\<close>

text \<open>
  \<open>SMADeviceSet\<close> of \<open>sma.go\<close>, the built-in register list. A decimal constant is the float64 nearest
  to it.
\<close>

definition smaAddress ::
  "int \<Rightarrow> int \<Rightarrow> string \<Rightarrow> string \<Rightarrow> string \<Rightarrow> f64 \<Rightarrow> string \<Rightarrow> string \<Rightarrow> string \<Rightarrow> Address" where
  "smaAddress register len dataType description key factor sourceUnit canonicalUnit remark =
     \<lparr>a_AddressID = 0, a_DeviceSetID = 0, a_FunctionCode = 3, a_Register = register,
      a_Description = description, a_CanonicalKey = key, a_SourceTag = description,
      a_Factor = factor, a_Offset = f_zero, a_DataType = dataType, a_Length = len,
      a_WordOrder = [], a_SourceUnit = sourceUnit, a_CanonicalUnit = canonicalUnit,
      a_Remark = remark, a_Enabled = True, a_EnabledSet = True\<rparr>"

definition SMA_addresses :: "Address list" where
  "SMA_addresses =
    [smaAddress 30057 2 ''U32'' ''Serial number'' ''serial_number'' f_one '''' '''' '''',
     smaAddress 30193 2 ''U32'' ''System time (UTC)''
       ''system_time'' f_one ''s'' ''s'' ''Unix epoch UTC'',
     smaAddress 30197 2 ''U32'' ''Event ID (current)'' ''event_id'' f_one '''' '''' '''',
     smaAddress 30199 2 ''U32'' ''Time until grid connection''
       ''time_until_grid_connection'' f_one ''s'' ''s'' '''',
     smaAddress 30211 2 ''U32'' ''Recommended action''
       ''recommended_action'' f_one '''' '''' ''336=manufacturer, 337=installer, 338=invalid'',
     smaAddress 30217 2 ''U32'' ''Grid contactor''
       ''grid_contactor'' f_one '''' '''' ''51=closed, 311=open'',
     smaAddress 30225 2 ''U32'' ''Insulation resistance''
       ''insulation_resistance'' f_one ''ohm'' ''ohm'' '''',
     smaAddress 30231 2 ''U32'' ''Max permanent active power''
       ''rated_power'' f_one ''W'' ''kW'' '''',
     smaAddress 30233 2 ''U32'' ''Active power limitation (Pmax)''
       ''active_power_adjustment'' f_one ''W'' ''kW'' '''',
     smaAddress 30241 2 ''U32'' ''Operating state''
       ''inverter_state'' f_one '''' '''' ''309=operation, 381=stop, 455=warning, 1392=error'',
     smaAddress 30243 2 ''U32'' ''Error''
       ''error_code'' f_one '''' '''' ''267=inverter, 1395=DC, 1396=AC grid'',
     smaAddress 30247 2 ''U32'' ''Complete event number''
       ''complete_event_number'' f_one '''' '''' '''',
     smaAddress 30257 2 ''U32'' ''DC switch in cabinet''
       ''dc_switch'' f_one '''' '''' ''51=closed, 311=open'',
     smaAddress 30513 4 ''U64'' ''Total yield'' ''total_cap'' f_one ''Wh'' ''kWh'' '''',
     smaAddress 30517 4 ''U64'' ''Daily yield'' ''day_cap'' f_one ''Wh'' ''kWh'' '''',
     smaAddress 30521 4 ''U64'' ''Operating time''
       ''operating_time'' f_one ''s'' ''s'' '''',
     smaAddress 30525 4 ''U64'' ''Feed-in time'' ''feed_in_time'' f_one ''s'' ''s'' '''',
     smaAddress 30769 2 ''I32'' ''DC current input (Ipv)''
       ''dc_current_input'' (f_round False (1 / 1000)) ''A'' ''A'' '''',
     smaAddress 30771 2 ''I32'' ''DC voltage input (Vpv)''
       ''dc_voltage_input'' (f_round False (1 / 100)) ''V'' ''V'' '''',
     smaAddress 30773 2 ''I32'' ''DC power input (Ppv)''
       ''input_power'' f_one ''W'' ''kW'' '''',
     smaAddress 30775 2 ''I32'' ''AC active power (Pac)''
       ''active_power'' f_one ''W'' ''kW'' '''',
     smaAddress 30789 2 ''U32'' ''Grid voltage L1-L2 (AB)''
       ''ab_u'' (f_round False (1 / 100)) ''V'' ''V'' '''',
     smaAddress 30791 2 ''U32'' ''Grid voltage L2-L3 (BC)''
       ''bc_u'' (f_round False (1 / 100)) ''V'' ''V'' '''',
     smaAddress 30793 2 ''U32'' ''Grid voltage L3-L1 (CA)''
       ''ca_u'' (f_round False (1 / 100)) ''V'' ''V'' '''',
     smaAddress 30795 2 ''U32'' ''Grid current AC (Iac)''
       ''grid_current'' (f_round False (1 / 1000)) ''A'' ''A'' '''',
     smaAddress 30797 2 ''U32'' ''Grid current L1''
       ''a_i'' (f_round False (1 / 1000)) ''A'' ''A'' '''',
     smaAddress 30799 2 ''U32'' ''Grid current L2''
       ''b_i'' (f_round False (1 / 1000)) ''A'' ''A'' '''',
     smaAddress 30801 2 ''U32'' ''Grid current L3''
       ''c_i'' (f_round False (1 / 1000)) ''A'' ''A'' '''',
     smaAddress 30803 2 ''U32'' ''Power frequency (Fac)''
       ''elec_freq'' (f_round False (1 / 100)) ''Hz'' ''Hz'' '''',
     smaAddress 30805 2 ''I32'' ''Reactive power (Qac)''
       ''reactive_power'' (f_round False (1 / 100)) ''var'' ''kvar'' '''',
     smaAddress 30813 2 ''I32'' ''Apparent power (Sac)''
       ''apparent_power'' f_one ''VA'' ''kVA'' '''',
     smaAddress 30821 2 ''U32'' ''Displacement power factor (PF)''
       ''power_factor'' (f_round False (1 / 100)) '''' '''' '''',
     smaAddress 30823 2 ''U32'' ''Excitation type of cos phi''
       ''excitation_type'' f_one '''' '''' ''1041=capacitive, 1042=inductive'',
     smaAddress 30841 2 ''U32'' ''AC voltage (avg all phases)''
       ''ac_voltage_average'' (f_round False (1 / 100)) ''V'' ''V'' '''',
     smaAddress 34109 2 ''I32'' ''Heat sink temperature''
       ''temperature'' (f_round False (1 / 10)) ''C'' ''C'' '''',
     smaAddress 34113 2 ''I32'' ''Interior temperature 1''
       ''interior_temperature'' (f_round False (1 / 10)) ''C'' ''C'' '''']"

definition SMADeviceModel :: string where
  "SMADeviceModel = ''Sunny Central SC/HE via SC-COM''"

definition SMADeviceSet :: "int \<Rightarrow> DeviceSet" where
  "SMADeviceSet brandID =
     \<lparr>ds_DeviceSetID = 0, ds_BrandID = brandID, ds_BrandName = [], ds_DevTypeID = 1,
      ds_DevType = ''Inverter'', ds_DevModel = SMADeviceModel, ds_AddressIDList = [],
      ds_AddressMode = ''SMA'', ds_ByteOrder = ''BIG_ENDIAN'', ds_WordOrder = ''HIGH_LOW'',
      ds_MaxBlockSize = 30, ds_Addresses = SMA_addresses\<rparr>"

end
