(* ===== verification/ConfigNormalize.thy ===== *)
theory ConfigNormalize
  imports SMA
begin

section \<open>internal/store/normalize.go: one set of configuration rules\<close>

text \<open>
  The pure rules both store adapters apply to what an operator saves and to what the platform pushes:
  \<open>normalizeDeviceSet\<close>, \<open>normalizeAddress\<close>, \<open>validateAddress\<close>, \<open>normalizeConnection\<close> and, for a whole
  pushed snapshot, \<open>normalizeConfigSnapshot\<close>. \<open>normalizeAddress\<close> returns an error that is always nil;
  the model returns the address. A \<open>map[int64]bool\<close> of ids is the list of the ids put into it.
\<close>

subsection \<open>Helpers\<close>

definition oneOf :: "string \<Rightarrow> string list \<Rightarrow> bool" where
  "oneOf v allowed \<longleftrightarrow> v \<in> set allowed"

fun first :: "string list \<Rightarrow> string" where
  "first [] = []"
| "first (v # vs) = (if trim_space v \<noteq> [] then trim_space v else first vs)"

definition devTypeName :: "int \<Rightarrow> string" where
  "devTypeName i = (if i = 17 then ''Grid-Meter'' else ''Inverter'')"

definition devTypeID :: "string \<Rightarrow> int" where
  "devTypeID v =
     (let v = to_lower (trim_space v) in
      if contains v ''grid'' \<or> contains v ''meter'' then 17 else 1)"

definition plantFromConnectionName :: "string \<Rightarrow> string" where
  "plantFromConnectionName v =
     (let (head, _, ok) = cut CHR ''-'' (trim_space v) in
      if \<not> ok \<or> trim_space head = [] then ''DEFAULT''
      else to_upper (trim_space head))"

definition addressIDList :: "Address list \<Rightarrow> int list" where
  "addressIDList as = map a_AddressID as"

subsection \<open>Device sets and addresses\<close>

text \<open>\<open>if mode, err := CanonicalAddressMode(m); err == nil { mode } else { ToUpper(TrimSpace(m)) }\<close>.\<close>

definition canonical_or_cleaned :: "string \<Rightarrow> string" where
  "canonical_or_cleaned m =
     (case CanonicalAddressMode m of Inr mode \<Rightarrow> mode | Inl _ \<Rightarrow> to_upper (trim_space m))"

definition normalizeDeviceSet :: "DeviceSet \<Rightarrow> DeviceSet" where
  "normalizeDeviceSet v0 =
     (let v = v0\<lparr>ds_DevType := trim_space (ds_DevType v0), ds_DevModel := trim_space (ds_DevModel v0)\<rparr>;
          v = v\<lparr>ds_DevType := if ds_DevType v = [] \<and> 0 < ds_DevTypeID v
                              then devTypeName (ds_DevTypeID v) else ds_DevType v\<rparr>;
          v = v\<lparr>ds_DevTypeID := if ds_DevTypeID v \<le> 0 then devTypeID (ds_DevType v)
                                else ds_DevTypeID v\<rparr>;
          v = v\<lparr>ds_AddressMode := if ds_AddressMode v = [] then ''ZERO_BASED'' else ds_AddressMode v\<rparr>;
          v = v\<lparr>ds_AddressMode := canonical_or_cleaned (ds_AddressMode v)\<rparr>;
          v = v\<lparr>ds_ByteOrder := if ds_ByteOrder v = [] then ''BIG_ENDIAN'' else ds_ByteOrder v\<rparr>;
          v = v\<lparr>ds_WordOrder := if ds_WordOrder v = [] then ''HIGH_LOW'' else ds_WordOrder v\<rparr>;
          v = v\<lparr>ds_ByteOrder := to_upper (trim_space (ds_ByteOrder v))\<rparr>;
          v = v\<lparr>ds_WordOrder := to_upper (trim_space (ds_WordOrder v))\<rparr>
      in v\<lparr>ds_MaxBlockSize := if ds_MaxBlockSize v < 1 then 30 else ds_MaxBlockSize v\<rparr>)"

definition normalizeRegister :: "int \<Rightarrow> int \<Rightarrow> int \<times> int" where
  "normalizeRegister fc register =
     (if 30000 \<le> register \<and> register < 40000 then (3, register - 30000)
      else if 40000 \<le> register \<and> register < 50000 then (4, register - 40000)
      else (fc, register))"

definition normalizeAddress :: "Address \<Rightarrow> string \<Rightarrow> Address" where
  "normalizeAddress a0 addressMode =
     (let a = a0\<lparr>a_Description := trim_space (a_Description a0),
                 a_DataType := to_upper (trim_space (a_DataType a0)),
                 a_SourceUnit := trim_space (a_SourceUnit a0),
                 a_CanonicalUnit := trim_space (a_CanonicalUnit a0),
                 a_Remark := trim_space (a_Remark a0)\<rparr>;
          (fc, register) = (if addressMode = ''ZERO_BASED''
                            then normalizeRegister (a_FunctionCode a) (a_Register a)
                            else (a_FunctionCode a, a_Register a));
          a = a\<lparr>a_FunctionCode := fc, a_Register := register\<rparr>;
          a = a\<lparr>a_Factor := if f_eq (a_Factor a) f_zero then f_one else a_Factor a\<rparr>;
          a = a\<lparr>a_CanonicalKey := if trim_space (a_CanonicalKey a) = []
                                  then itoa (a_FunctionCode a) @ '':'' @ itoa (a_Register a)
                                  else a_CanonicalKey a\<rparr>;
          a = a\<lparr>a_SourceTag := if a_SourceTag a = [] then a_Description a else a_SourceTag a\<rparr>;
          a = a\<lparr>a_Length := if a_Length a = 0 then RegisterCount (a_DataType a) else a_Length a\<rparr>;
          a = a\<lparr>a_WordOrder := to_upper (trim_space (a_WordOrder a))\<rparr>
      in a\<lparr>a_Enabled := if \<not> a_EnabledSet a then True else a_Enabled a\<rparr>)"

text \<open>The definition \<open>validateAddress\<close> hands to \<open>ResolveModbusAddress\<close>.\<close>

definition address_definition :: "Address \<Rightarrow> RegisterDefinition" where
  "address_definition a =
     \<lparr>d_Key = a_Description a, d_SourceTag = [], d_DataType = [], d_SourceUnit = [],
      d_CanonicalUnit = [], d_RegisterAddress = a_Register a, d_FunctionCode = a_FunctionCode a,
      d_Length = a_Length a, d_Scale = f_zero, d_Offset = f_zero, d_WordOrder = [],
      d_Enabled = False\<rparr>"

definition validateAddress :: "Address \<Rightarrow> string \<Rightarrow> string + unit" where
  "validateAddress a addressMode =
     (if a_FunctionCode a \<noteq> 3 \<and> a_FunctionCode a \<noteq> 4 then Inl ''functionCode must be 3 or 4''
      else if a_Register a < 0 \<or> 65535 < a_Register a then Inl ''register must be 0..65535''
      else if a_Description a = [] \<or> a_DataType a = []
        then Inl ''description and dataType are required''
      else if RegisterCount (a_DataType a) = 0
        then Inl (''unsupported dataType '' @ quoted (a_DataType a))
      else if a_Length a < 1 \<or> 4 < a_Length a then Inl ''length must be 1..4''
      else if a_WordOrder a \<noteq> [] \<and> \<not> oneOf (a_WordOrder a) [''HIGH_LOW'', ''LOW_HIGH'']
        then Inl ''wordOrder must be HIGH_LOW or LOW_HIGH''
      else (case ResolveModbusAddress addressMode (address_definition a) of
              Inl err \<Rightarrow> Inl err
            | Inr _ \<Rightarrow> Inr ()))"

definition normalizeConnection :: "ConnectionConfig \<Rightarrow> ConnectionConfig" where
  "normalizeConnection v0 =
     (let v = v0\<lparr>c_ConnectionName := trim_space (c_ConnectionName v0), c_Host := trim_space (c_Host v0)\<rparr>;
          v = v\<lparr>c_UnitID := if c_UnitID v \<le> 0 \<and> 0 < c_SlaveID v then c_SlaveID v else c_UnitID v\<rparr>;
          v = v\<lparr>c_UnitID := if c_UnitID v \<le> 0 then 1 else c_UnitID v\<rparr>;
          v = v\<lparr>c_SlaveID := c_UnitID v\<rparr>;
          v = v\<lparr>c_DevDn := if trim_space (c_DevDn v) = [] then c_ConnectionName v else c_DevDn v\<rparr>;
          v = v\<lparr>c_DeviceName := if trim_space (c_DeviceName v) = [] then c_ConnectionName v
                                else c_DeviceName v\<rparr>;
          v = v\<lparr>c_PlantCode := if trim_space (c_PlantCode v) = []
                               then plantFromConnectionName (c_ConnectionName v) else c_PlantCode v\<rparr>;
          v = v\<lparr>c_PlantName := if trim_space (c_PlantName v) = [] then c_PlantCode v
                               else c_PlantName v\<rparr>
      in v\<lparr>c_Enabled := if c_ConnectionID v = 0 then True else c_Enabled v\<rparr>)"

subsection \<open>A pushed snapshot\<close>

text \<open>The bodies of the four loops of \<open>normalizeConfigSnapshot\<close>.\<close>

definition snapshot_brand :: "Brand \<Rightarrow> string + Brand" where
  "snapshot_brand b0 =
     (let b = b0\<lparr>b_BrandName := trim_space (b_BrandName b0),
                 b_BrandDescription := trim_space (b_BrandDescription b0)\<rparr>
      in if b_BrandName b = [] then Inl ''brand: brandName is required'' else Inr b)"

definition snapshot_address :: "DeviceSet \<Rightarrow> int \<Rightarrow> int \<times> Address \<Rightarrow> string + Address" where
  "snapshot_address normalized deviceSetID ia =
     (let (i, addr) = ia;
          a = normalizeAddress addr (ds_AddressMode normalized)
      in case validateAddress a (ds_AddressMode normalized) of
           Inl err \<Rightarrow> Inl (''device set '' @ quoted (ds_DevModel normalized) @ '' address ''
                           @ itoa (i + 1) @ '': '' @ err)
         | Inr _ \<Rightarrow> Inr (a\<lparr>a_DeviceSetID := deviceSetID\<rparr>))"

definition indexed :: "'a list \<Rightarrow> (int \<times> 'a) list" where
  "indexed xs = zip (map int [0..<length xs]) xs"

definition snapshot_device_set :: "int list \<Rightarrow> DeviceSet \<Rightarrow> string + DeviceSet" where
  "snapshot_device_set brandIDs ds =
     (let normalized = normalizeDeviceSet ds in
      if ds_BrandID ds \<notin> set brandIDs
      then Inl (''device set '' @ quoted (ds_DevModel normalized) @ '': unknown brandId ''
                @ itoa (ds_BrandID ds))
      else if trim_space (ds_DevType normalized) = [] \<or> trim_space (ds_DevModel normalized) = []
      then Inl ''device set: devType and devModel are required''
      else if \<not> oneOf (ds_ByteOrder normalized) [''BIG_ENDIAN'', ''LITTLE_ENDIAN'']
              \<or> \<not> oneOf (ds_WordOrder normalized) [''HIGH_LOW'', ''LOW_HIGH'']
              \<or> ds_MaxBlockSize normalized < 1 \<or> 125 < ds_MaxBlockSize normalized
      then Inl (''device set '' @ quoted (ds_DevModel normalized)
                @ '': invalid byteOrder/wordOrder/maxBlockSize'')
      else if ds_Addresses ds = []
      then Inl (''device set '' @ quoted (ds_DevModel normalized)
                @ '': at least one address is required'')
      else (case traverse (snapshot_address normalized (ds_DeviceSetID ds)) (indexed (ds_Addresses ds)) of
              Inl err \<Rightarrow> Inl err
            | Inr addresses \<Rightarrow>
                Inr (normalized\<lparr>ds_Addresses := addresses, ds_AddressIDList := addressIDList addresses\<rparr>)))"

definition snapshot_plant :: "Plant \<Rightarrow> string + Plant" where
  "snapshot_plant p0 =
     (let p = p0\<lparr>p_PlantCode := to_upper (trim_space (p_PlantCode p0)),
                 p_PlantName := trim_space (p_PlantName p0)\<rparr>
      in if p_PlantCode p = [] \<or> p_PlantName p = []
         then Inl ''plant: plantCode and plantName are required'' else Inr p)"

definition snapshot_connection :: "int list \<Rightarrow> ConnectionConfig \<Rightarrow> string + ConnectionConfig" where
  "snapshot_connection deviceSetIDs c =
     (let normalized = normalizeConnection c in
      if c_DeviceSetID c \<notin> set deviceSetIDs
      then Inl (''connection '' @ quoted (c_ConnectionName normalized) @ '': unknown deviceSetId ''
                @ itoa (c_DeviceSetID c))
      else if trim_space (c_ConnectionName normalized) = [] \<or> trim_space (c_Host normalized) = []
              \<or> c_Port normalized < 1 \<or> 65535 < c_Port normalized
      then Inl (''connection '' @ quoted (c_ConnectionName normalized)
                @ '': connectionName, host and valid port are required'')
      else Inr normalized)"

definition normalizeConfigSnapshot :: "ConfigSnapshot \<Rightarrow> string + ConfigSnapshot" where
  "normalizeConfigSnapshot snap =
     (case traverse snapshot_brand (cs_Brands snap) of
        Inl err \<Rightarrow> Inl err
      | Inr brands \<Rightarrow>
     (case traverse (snapshot_device_set (map b_BrandID (cs_Brands snap))) (cs_DeviceSets snap) of
        Inl err \<Rightarrow> Inl err
      | Inr deviceSets \<Rightarrow>
     (case traverse snapshot_plant (cs_Plants snap) of
        Inl err \<Rightarrow> Inl err
      | Inr plants \<Rightarrow>
     (case traverse (snapshot_connection (map ds_DeviceSetID (cs_DeviceSets snap)))
             (cs_Connections snap) of
        Inl err \<Rightarrow> Inl err
      | Inr connections \<Rightarrow>
          Inr (snap\<lparr>cs_Brands := brands, cs_DeviceSets := deviceSets, cs_Plants := plants,
                    cs_Connections := connections\<rparr>)))))"

subsection \<open>What a normalised address and connection satisfy\<close>

text \<open>An address the poller can read: what \<open>validateAddress\<close> checks, as one predicate.\<close>

definition address_ok :: "string \<Rightarrow> Address \<Rightarrow> bool" where
  "address_ok mode a \<longleftrightarrow>
     a_FunctionCode a \<in> {3, 4} \<and> 0 \<le> a_Register a \<and> a_Register a \<le> 65535
     \<and> a_Description a \<noteq> [] \<and> a_DataType a \<noteq> [] \<and> RegisterCount (a_DataType a) \<noteq> 0
     \<and> 1 \<le> a_Length a \<and> a_Length a \<le> 4
     \<and> a_WordOrder a \<in> {[], ''HIGH_LOW'', ''LOW_HIGH''}
     \<and> is_ok (ResolveModbusAddress mode (address_definition a))"

lemma validateAddress_iff: "is_ok (validateAddress a mode) \<longleftrightarrow> address_ok mode a"
  by (auto simp: validateAddress_def address_ok_def oneOf_def split: sum.splits)

lemma trim_blank_iff: "trim_space s \<noteq> [] \<Longrightarrow> s \<noteq> []"
  by auto

lemma normalizeRegister_idem: "(case normalizeRegister fc r of (fc', r') \<Rightarrow>
    0 \<le> r' \<and> r' \<le> 65535 \<longrightarrow> normalizeRegister fc' r' = (fc', r'))"
  by (simp add: normalizeRegister_def)

lemma normalizeAddress_sel:
  "a_AddressID (normalizeAddress a m) = a_AddressID a"
  "a_DeviceSetID (normalizeAddress a m) = a_DeviceSetID a"
  "a_Description (normalizeAddress a m) = trim_space (a_Description a)"
  "a_DataType (normalizeAddress a m) = to_upper (trim_space (a_DataType a))"
  "a_SourceUnit (normalizeAddress a m) = trim_space (a_SourceUnit a)"
  "a_CanonicalUnit (normalizeAddress a m) = trim_space (a_CanonicalUnit a)"
  "a_Remark (normalizeAddress a m) = trim_space (a_Remark a)"
  "a_Offset (normalizeAddress a m) = a_Offset a"
  "a_WordOrder (normalizeAddress a m) = to_upper (trim_space (a_WordOrder a))"
  "a_EnabledSet (normalizeAddress a m) = a_EnabledSet a"
  "a_Enabled (normalizeAddress a m) = (a_EnabledSet a \<longrightarrow> a_Enabled a)"
  "a_Factor (normalizeAddress a m) = (if f_eq (a_Factor a) f_zero then f_one else a_Factor a)"
  "a_SourceTag (normalizeAddress a m) =
     (if a_SourceTag a = [] then trim_space (a_Description a) else a_SourceTag a)"
  "a_Length (normalizeAddress a m) =
     (if a_Length a = 0 then RegisterCount (to_upper (trim_space (a_DataType a))) else a_Length a)"
  "(a_FunctionCode (normalizeAddress a m), a_Register (normalizeAddress a m)) =
     (if m = ''ZERO_BASED'' then normalizeRegister (a_FunctionCode a) (a_Register a)
      else (a_FunctionCode a, a_Register a))"
  "a_CanonicalKey (normalizeAddress a m) =
     (if trim_space (a_CanonicalKey a) = []
      then itoa (a_FunctionCode (normalizeAddress a m)) @ '':'' @ itoa (a_Register (normalizeAddress a m))
      else a_CanonicalKey a)"
  by (simp_all add: normalizeAddress_def Let_def case_prod_beta)

lemma normalizeAddress_register:
  "a_FunctionCode (normalizeAddress a m) = (if m = ''ZERO_BASED''
     then fst (normalizeRegister (a_FunctionCode a) (a_Register a)) else a_FunctionCode a)"
  "a_Register (normalizeAddress a m) = (if m = ''ZERO_BASED''
     then snd (normalizeRegister (a_FunctionCode a) (a_Register a)) else a_Register a)"
  using normalizeAddress_sel(15) [of a m] by (simp_all add: prod_eq_iff split: if_splits)

lemma trim_key: "trim_space (itoa i @ '':'' @ itoa j) = itoa i @ '':'' @ itoa j"
  using itoa_plain [of i] itoa_plain [of j] by (intro trim_space_plain) auto

lemma normalizeRegister_twice:
  "normalizeRegister (fst (normalizeRegister fc r)) (snd (normalizeRegister fc r)) = normalizeRegister fc r"
  by (simp add: normalizeRegister_def)

lemma f_eq_one_zero [simp]: "\<not> f_eq f_one f_zero"
  by simp

lemma normalizeAddress_idem: "normalizeAddress (normalizeAddress a m) m = normalizeAddress a m"
proof -
  let ?n = "normalizeAddress a m"
  have fr: "(a_FunctionCode (normalizeAddress ?n m), a_Register (normalizeAddress ?n m))
      = (a_FunctionCode ?n, a_Register ?n)"
  proof (cases "m = ''ZERO_BASED''")
    case True
    then have *: "(a_FunctionCode ?n, a_Register ?n) = normalizeRegister (a_FunctionCode a) (a_Register a)"
      by (simp add: normalizeAddress_sel)
    have "(a_FunctionCode (normalizeAddress ?n m), a_Register (normalizeAddress ?n m))
        = normalizeRegister (a_FunctionCode ?n) (a_Register ?n)"
      using True by (simp add: normalizeAddress_sel)
    also have "\<dots> = normalizeRegister (a_FunctionCode a) (a_Register a)"
      using normalizeRegister_twice [of "a_FunctionCode a" "a_Register a"] by (simp flip: *)
    finally show ?thesis using * by simp
  next
    case False
    then show ?thesis by (simp add: normalizeAddress_sel)
  qed
  show ?thesis
  proof (rule Address.equality)
    have "trim_space (a_CanonicalKey ?n) \<noteq> []"
      using trim_key by (cases "trim_space (a_CanonicalKey a) = []") (simp_all add: normalizeAddress_sel(16) [of a m])
    then show "a_CanonicalKey (normalizeAddress ?n m) = a_CanonicalKey ?n"
      by (simp add: normalizeAddress_sel(16) [of ?n m])
    show "a_FunctionCode (normalizeAddress ?n m) = a_FunctionCode ?n"
      "a_Register (normalizeAddress ?n m) = a_Register ?n"
      using fr by simp_all
  qed (simp_all add: normalizeAddress_sel)
qed

interpretation address: normaliser "\<lambda>a. normalizeAddress a mode" for mode
  by unfold_locales (rule normalizeAddress_idem)

lemma plantFromConnectionName_nonblank: "trim_space (plantFromConnectionName v) \<noteq> []"
  by (auto simp: plantFromConnectionName_def Let_def trim_space_plain plain_byte_def split: prod.splits)

lemma normalizeConnection_sel:
  "c_ConnectionID (normalizeConnection v) = c_ConnectionID v"
  "c_ConnectionName (normalizeConnection v) = trim_space (c_ConnectionName v)"
  "c_Host (normalizeConnection v) = trim_space (c_Host v)"
  "c_Port (normalizeConnection v) = c_Port v"
  "c_UnitID (normalizeConnection v) =
     (if 0 < c_UnitID v then c_UnitID v else if 0 < c_SlaveID v then c_SlaveID v else 1)"
  "c_SlaveID (normalizeConnection v) = c_UnitID (normalizeConnection v)"
  "c_DeviceSetID (normalizeConnection v) = c_DeviceSetID v"
  "c_DeviceSetName (normalizeConnection v) = c_DeviceSetName v"
  "c_DevTypeID (normalizeConnection v) = c_DevTypeID v"
  "c_DevDn (normalizeConnection v) =
     (if trim_space (c_DevDn v) = [] then trim_space (c_ConnectionName v) else c_DevDn v)"
  "c_DeviceName (normalizeConnection v) =
     (if trim_space (c_DeviceName v) = [] then trim_space (c_ConnectionName v) else c_DeviceName v)"
  "c_PlantCode (normalizeConnection v) =
     (if trim_space (c_PlantCode v) = [] then plantFromConnectionName (trim_space (c_ConnectionName v))
      else c_PlantCode v)"
  "c_PlantName (normalizeConnection v) =
     (if trim_space (c_PlantName v) = [] then c_PlantCode (normalizeConnection v) else c_PlantName v)"
  "c_Enabled (normalizeConnection v) = (c_ConnectionID v = 0 \<or> c_Enabled v)"
  by (simp_all add: normalizeConnection_def Let_def)

lemma normalizeConnection_plant: "trim_space (c_PlantCode (normalizeConnection v)) \<noteq> []"
  using plantFromConnectionName_nonblank by (simp add: normalizeConnection_sel)

lemma normalizeConnection_idem: "normalizeConnection (normalizeConnection v) = normalizeConnection v"
  by (rule ConnectionConfig.equality)
    (simp_all add: normalizeConnection_sel plantFromConnectionName_nonblank)

interpretation connection: normaliser normalizeConnection
  by unfold_locales (rule normalizeConnection_idem)

subsection \<open>What an accepted device set, connection and snapshot satisfy\<close>

text \<open>A device set the poller can turn into read requests.\<close>

definition device_set_ok :: "DeviceSet \<Rightarrow> bool" where
  "device_set_ok ds \<longleftrightarrow>
     ds_DevType ds \<noteq> [] \<and> ds_DevModel ds \<noteq> [] \<and> ds_AddressMode ds \<in> set canonical_modes
     \<and> ds_ByteOrder ds \<in> {''BIG_ENDIAN'', ''LITTLE_ENDIAN''} \<and> ds_WordOrder ds \<in> {''HIGH_LOW'', ''LOW_HIGH''}
     \<and> 1 \<le> ds_MaxBlockSize ds \<and> ds_MaxBlockSize ds \<le> 125 \<and> 0 < ds_DevTypeID ds
     \<and> ds_Addresses ds \<noteq> []
     \<and> (\<forall>a \<in> set (ds_Addresses ds). address_ok (ds_AddressMode ds) a)"

definition connection_ok :: "ConnectionConfig \<Rightarrow> bool" where
  "connection_ok c \<longleftrightarrow>
     c_ConnectionName c \<noteq> [] \<and> c_Host c \<noteq> [] \<and> 1 \<le> c_Port c \<and> c_Port c \<le> 65535
     \<and> 1 \<le> c_UnitID c \<and> c_SlaveID c = c_UnitID c
     \<and> trim_space (c_DevDn c) \<noteq> [] \<and> trim_space (c_DeviceName c) \<noteq> []
     \<and> trim_space (c_PlantCode c) \<noteq> [] \<and> trim_space (c_PlantName c) \<noteq> []"

definition snapshot_ok :: "ConfigSnapshot \<Rightarrow> bool" where
  "snapshot_ok s \<longleftrightarrow>
     (\<forall>b \<in> set (cs_Brands s). b_BrandName b \<noteq> [])
     \<and> (\<forall>d \<in> set (cs_DeviceSets s). device_set_ok d
          \<and> ds_BrandID d \<in> b_BrandID ` set (cs_Brands s)
          \<and> (\<forall>a \<in> set (ds_Addresses d). a_DeviceSetID a = ds_DeviceSetID d)
          \<and> ds_AddressIDList d = map a_AddressID (ds_Addresses d))
     \<and> (\<forall>p \<in> set (cs_Plants s). p_PlantCode p \<noteq> [] \<and> p_PlantName p \<noteq> [])
     \<and> (\<forall>c \<in> set (cs_Connections s). connection_ok c
          \<and> c_DeviceSetID c \<in> ds_DeviceSetID ` set (cs_DeviceSets s))"

lemma normalizeDeviceSet_sel:
  "ds_DeviceSetID (normalizeDeviceSet v) = ds_DeviceSetID v"
  "ds_BrandID (normalizeDeviceSet v) = ds_BrandID v"
  "ds_BrandName (normalizeDeviceSet v) = ds_BrandName v"
  "ds_AddressIDList (normalizeDeviceSet v) = ds_AddressIDList v"
  "ds_Addresses (normalizeDeviceSet v) = ds_Addresses v"
  "ds_DevModel (normalizeDeviceSet v) = trim_space (ds_DevModel v)"
  "ds_DevType (normalizeDeviceSet v) =
     (if trim_space (ds_DevType v) = [] \<and> 0 < ds_DevTypeID v then devTypeName (ds_DevTypeID v)
      else trim_space (ds_DevType v))"
  "ds_DevTypeID (normalizeDeviceSet v) =
     (if ds_DevTypeID v \<le> 0 then devTypeID (ds_DevType (normalizeDeviceSet v)) else ds_DevTypeID v)"
  "ds_AddressMode (normalizeDeviceSet v) =
     canonical_or_cleaned (if ds_AddressMode v = [] then ''ZERO_BASED'' else ds_AddressMode v)"
  "ds_ByteOrder (normalizeDeviceSet v) =
     clean_upper (if ds_ByteOrder v = [] then ''BIG_ENDIAN'' else ds_ByteOrder v)"
  "ds_WordOrder (normalizeDeviceSet v) =
     clean_upper (if ds_WordOrder v = [] then ''HIGH_LOW'' else ds_WordOrder v)"
  "ds_MaxBlockSize (normalizeDeviceSet v) = (if ds_MaxBlockSize v < 1 then 30 else ds_MaxBlockSize v)"
  by (simp_all add: normalizeDeviceSet_def Let_def clean_upper_def)

lemma devTypeName_trim [simp]: "trim_space (devTypeName i) = devTypeName i"
  by (simp add: devTypeName_def text_eval)

lemma devTypeID_pos: "0 < devTypeID v"
  by (simp add: devTypeID_def Let_def)

text \<open>
  A mode that some address resolves under is canonical once normalised: an unknown mode is only
  cleaned, and stays unknown.
\<close>

lemma normalized_mode_canonical:
  assumes "is_ok (ResolveModbusAddress (ds_AddressMode (normalizeDeviceSet v)) d)"
  shows "ds_AddressMode (normalizeDeviceSet v) \<in> set canonical_modes"
proof -
  define m where "m = (if ds_AddressMode v = [] then ''ZERO_BASED'' else ds_AddressMode v)"
  have n: "ds_AddressMode (normalizeDeviceSet v) =
      (case CanonicalAddressMode m of Inr mode \<Rightarrow> mode | Inl _ \<Rightarrow> clean_upper m)"
    unfolding normalizeDeviceSet_sel m_def canonical_or_cleaned_def clean_upper_def by (rule refl)
  show ?thesis
  proof (cases "CanonicalAddressMode m")
    case (Inl err)
    with n have "\<not> is_ok (CanonicalAddressMode (ds_AddressMode (normalizeDeviceSet v)))"
      using CanonicalAddressMode_clean [of m] by simp
    then have "\<not> is_ok (ResolveModbusAddress (ds_AddressMode (normalizeDeviceSet v)) d)"
      by (auto simp: ResolveModbusAddress_def split: sum.splits)
    with assms show ?thesis by simp
  next
    case (Inr mode)
    with n CanonicalAddressMode_range [OF Inr] show ?thesis by simp
  qed
qed

lemma normalizeDeviceSet_idem:
  assumes "ds_AddressMode (normalizeDeviceSet v) \<in> set canonical_modes"
    and "ds_ByteOrder (normalizeDeviceSet v) \<noteq> []" and "ds_WordOrder (normalizeDeviceSet v) \<noteq> []"
    and "ds_DevType (normalizeDeviceSet v) \<noteq> []"
  shows "normalizeDeviceSet (normalizeDeviceSet v) = normalizeDeviceSet v"
proof (rule DeviceSet.equality)
  let ?n = "normalizeDeviceSet v"
  have "[] \<notin> set canonical_modes" by (simp add: canonical_modes_def)
  then show "ds_AddressMode (normalizeDeviceSet ?n) = ds_AddressMode ?n"
    using assms(1) CanonicalAddressMode_canonical [OF assms(1)]
    by (subst normalizeDeviceSet_sel(9)) (auto simp: canonical_or_cleaned_def)
  have pos: "0 < ds_DevTypeID ?n"
    using devTypeID_pos by (simp add: normalizeDeviceSet_sel)
  then show "ds_DevTypeID (normalizeDeviceSet ?n) = ds_DevTypeID ?n"
    by (subst normalizeDeviceSet_sel(8)) simp
  have "trim_space (ds_DevType ?n) = ds_DevType ?n" by (simp add: normalizeDeviceSet_sel)
  then show "ds_DevType (normalizeDeviceSet ?n) = ds_DevType ?n"
    using assms(4) by (subst normalizeDeviceSet_sel(7)) simp
  show "ds_ByteOrder (normalizeDeviceSet ?n) = ds_ByteOrder ?n"
    using assms(2) by (subst normalizeDeviceSet_sel(10)) (simp add: normalizeDeviceSet_sel(10) [of v])
  show "ds_WordOrder (normalizeDeviceSet ?n) = ds_WordOrder ?n"
    using assms(3) by (subst normalizeDeviceSet_sel(11)) (simp add: normalizeDeviceSet_sel(11) [of v])
qed (simp_all add: normalizeDeviceSet_sel)

lemma in_indexed: "(i, a) \<in> set (indexed xs) \<Longrightarrow> a \<in> set xs"
  by (auto simp: indexed_def dest: set_zip_rightD)

lemma indexed_snd: "map snd (indexed xs) = xs"
  by (simp add: indexed_def)

lemma address_ok_DeviceSetID [simp]: "address_ok m (a\<lparr>a_DeviceSetID := k\<rparr>) = address_ok m a"
  by (simp add: address_ok_def address_definition_def)

lemma normalizeAddress_DeviceSetID [simp]:
  "normalizeAddress (a\<lparr>a_DeviceSetID := k\<rparr>) m = (normalizeAddress a m)\<lparr>a_DeviceSetID := k\<rparr>"
  by (rule Address.equality) (simp_all add: normalizeAddress_sel normalizeAddress_register)

lemma snapshot_address_result:
  "snapshot_address n k (i, addr) = Inr a \<longleftrightarrow>
     address_ok (ds_AddressMode n) (normalizeAddress addr (ds_AddressMode n))
     \<and> a = (normalizeAddress addr (ds_AddressMode n))\<lparr>a_DeviceSetID := k\<rparr>"
  by (auto simp: snapshot_address_def Let_def is_ok_iff validateAddress_iff [symmetric] split: sum.splits)

lemma snapshot_device_set_result:
  assumes "snapshot_device_set brandIDs ds = Inr out"
  shows "ds_BrandID ds \<in> set brandIDs" and "device_set_ok out"
    and "ds_DeviceSetID out = ds_DeviceSetID ds" and "ds_BrandID out = ds_BrandID ds"
    and "\<forall>a \<in> set (ds_Addresses out). a_DeviceSetID a = ds_DeviceSetID out"
    and "ds_AddressIDList out = map a_AddressID (ds_Addresses out)"
    and "\<forall>a \<in> set (ds_Addresses out). normalizeAddress a (ds_AddressMode out) = a"
    and "normalizeDeviceSet out = out"
proof -
  let ?n = "normalizeDeviceSet ds"
  from assms obtain as where as: "traverse (snapshot_address ?n (ds_DeviceSetID ds)) (indexed (ds_Addresses ds)) = Inr as"
    and out: "out = ?n\<lparr>ds_Addresses := as, ds_AddressIDList := map a_AddressID as\<rparr>"
    and b: "ds_BrandID ds \<in> set brandIDs"
    and t: "trim_space (ds_DevType ?n) \<noteq> []" "trim_space (ds_DevModel ?n) \<noteq> []"
    and o: "oneOf (ds_ByteOrder ?n) [''BIG_ENDIAN'', ''LITTLE_ENDIAN'']"
      "oneOf (ds_WordOrder ?n) [''HIGH_LOW'', ''LOW_HIGH'']"
    and m: "1 \<le> ds_MaxBlockSize ?n" "ds_MaxBlockSize ?n \<le> 125" and ne: "ds_Addresses ds \<noteq> []"
    by (auto simp: snapshot_device_set_def Let_def addressIDList_def split: if_splits sum.splits)
  have each: "\<exists>addr. address_ok (ds_AddressMode ?n) (normalizeAddress addr (ds_AddressMode ?n))
      \<and> a = (normalizeAddress addr (ds_AddressMode ?n))\<lparr>a_DeviceSetID := ds_DeviceSetID ds\<rparr>"
    if "a \<in> set as" for a
    using traverse_member [OF as that] by (auto simp: snapshot_address_result)
  have "as \<noteq> []" using traverse_length [OF as] ne by (auto simp: indexed_def)
  then obtain a where "a \<in> set as" by (cases as) auto
  with each have "is_ok (ResolveModbusAddress (ds_AddressMode ?n) (address_definition a))"
    by (force simp: address_ok_def address_definition_def)
  then have mode: "ds_AddressMode ?n \<in> set canonical_modes" by (rule normalized_mode_canonical)
  have bo: "ds_ByteOrder ?n \<noteq> []" "ds_WordOrder ?n \<noteq> []" "ds_DevType ?n \<noteq> []"
    using o t by (auto simp: oneOf_def)
  have n: "normalizeDeviceSet ?n = ?n" using normalizeDeviceSet_idem [OF mode bo] .
  show "ds_BrandID ds \<in> set brandIDs" by (rule b)
  show "device_set_ok out"
    using t o m mode \<open>as \<noteq> []\<close> each devTypeID_pos
    by (fastforce simp: device_set_ok_def out oneOf_def normalizeDeviceSet_sel(8))
  show "ds_DeviceSetID out = ds_DeviceSetID ds" "ds_BrandID out = ds_BrandID ds"
    "ds_AddressIDList out = map a_AddressID (ds_Addresses out)"
    by (simp_all add: out normalizeDeviceSet_sel)
  show "\<forall>a \<in> set (ds_Addresses out). a_DeviceSetID a = ds_DeviceSetID out"
    using each by (fastforce simp: out normalizeDeviceSet_sel)
  show "\<forall>a \<in> set (ds_Addresses out). normalizeAddress a (ds_AddressMode out) = a"
    using each by (fastforce simp: out normalizeAddress_idem)
  have "normalizeDeviceSet (v\<lparr>ds_Addresses := as, ds_AddressIDList := is\<rparr>)
      = (normalizeDeviceSet v)\<lparr>ds_Addresses := as, ds_AddressIDList := is\<rparr>" for v "is"
    by (rule DeviceSet.equality) (simp_all add: normalizeDeviceSet_sel)
  with n show "normalizeDeviceSet out = out" by (simp add: out)
qed

text \<open>An accepted device set is accepted again, unchanged.\<close>

lemma snapshot_device_set_fixed:
  assumes n: "normalizeDeviceSet ds = ds" and ok: "device_set_ok ds" and b: "ds_BrandID ds \<in> set brandIDs"
    and a: "\<forall>a \<in> set (ds_Addresses ds). normalizeAddress a (ds_AddressMode ds) = a"
    and k: "\<forall>a \<in> set (ds_Addresses ds). a_DeviceSetID a = ds_DeviceSetID ds"
    and l: "ds_AddressIDList ds = map a_AddressID (ds_Addresses ds)"
  shows "snapshot_device_set brandIDs ds = Inr ds"
proof -
  have "snapshot_address ds (ds_DeviceSetID ds) (i, x) = Inr x" if "x \<in> set (ds_Addresses ds)" for i x
    using that a k ok by (auto simp: snapshot_address_result device_set_ok_def)
  then have "list_all2 (\<lambda>ix x. snapshot_address ds (ds_DeviceSetID ds) ix = Inr x)
      (indexed (ds_Addresses ds)) (ds_Addresses ds)"
    by (auto simp: list_all2_conv_all_nth indexed_def)
  then have "traverse (snapshot_address ds (ds_DeviceSetID ds)) (indexed (ds_Addresses ds)) = Inr (ds_Addresses ds)"
    by (simp add: traverse_Inr_iff)
  moreover have "trim_space (ds_DevModel ds) = ds_DevModel ds"
    by (subst (1 2) n [symmetric]) (simp add: normalizeDeviceSet_sel)
  moreover have "trim_space (ds_DevType ds) = ds_DevType ds"
    by (subst (1 2) n [symmetric]) (simp add: normalizeDeviceSet_sel)
  ultimately show ?thesis
    using ok b l
    by (auto simp: snapshot_device_set_def Let_def n device_set_ok_def oneOf_def addressIDList_def)
qed

lemma snapshot_brand_result:
  "snapshot_brand b = Inr b' \<Longrightarrow> b_BrandName b' \<noteq> [] \<and> b_BrandID b' = b_BrandID b \<and> snapshot_brand b' = Inr b'"
  by (auto simp: snapshot_brand_def Let_def split: if_splits)

lemma snapshot_plant_result:
  "snapshot_plant p = Inr p' \<Longrightarrow> p_PlantCode p' \<noteq> [] \<and> p_PlantName p' \<noteq> []
     \<and> p_PlantID p' = p_PlantID p \<and> snapshot_plant p' = Inr p'"
  by (auto simp: snapshot_plant_def Let_def split: if_splits)

lemma snapshot_connection_result:
  assumes "snapshot_connection dsIDs c = Inr c'"
  shows "connection_ok c' \<and> c_DeviceSetID c \<in> set dsIDs \<and> c_DeviceSetID c' = c_DeviceSetID c
    \<and> c_ConnectionID c' = c_ConnectionID c \<and> snapshot_connection dsIDs c' = Inr c'"
proof -
  from assms have c': "c' = normalizeConnection c" and "c_DeviceSetID c \<in> set dsIDs"
    and t: "trim_space (c_ConnectionName c) \<noteq> []" "trim_space (c_Host c) \<noteq> []"
      "1 \<le> c_Port c" "c_Port c \<le> 65535"
    by (auto simp: snapshot_connection_def Let_def normalizeConnection_sel split: if_splits)
  moreover from c' t have "connection_ok c'"
    using normalizeConnection_plant [of c]
    by (simp add: connection_ok_def normalizeConnection_sel)
  moreover from c' have "normalizeConnection c' = c'" by (simp add: normalizeConnection_idem)
  ultimately show ?thesis
    by (simp add: snapshot_connection_def Let_def normalizeConnection_sel)
qed

text \<open>The steps of an accepted snapshot.\<close>

lemma normalizeConfigSnapshot_steps:
  "normalizeConfigSnapshot s = Inr s' \<longleftrightarrow>
     (\<exists>bs ds ps cs. traverse snapshot_brand (cs_Brands s) = Inr bs
        \<and> traverse (snapshot_device_set (map b_BrandID (cs_Brands s))) (cs_DeviceSets s) = Inr ds
        \<and> traverse snapshot_plant (cs_Plants s) = Inr ps
        \<and> traverse (snapshot_connection (map ds_DeviceSetID (cs_DeviceSets s))) (cs_Connections s) = Inr cs
        \<and> s' = s\<lparr>cs_Brands := bs, cs_DeviceSets := ds, cs_Plants := ps, cs_Connections := cs\<rparr>)"
  by (auto simp: normalizeConfigSnapshot_def split: sum.splits)

lemma normalizeConfigSnapshot_ids:
  assumes "normalizeConfigSnapshot s = Inr s'"
  shows "map b_BrandID (cs_Brands s') = map b_BrandID (cs_Brands s)"
    and "map ds_DeviceSetID (cs_DeviceSets s') = map ds_DeviceSetID (cs_DeviceSets s)"
    and "map p_PlantID (cs_Plants s') = map p_PlantID (cs_Plants s)"
    and "map c_ConnectionID (cs_Connections s') = map c_ConnectionID (cs_Connections s)"
    and "cs_Version s' = cs_Version s"
  using assms
  by (auto simp: normalizeConfigSnapshot_steps
      intro!: traverse_proj dest: snapshot_brand_result snapshot_plant_result snapshot_connection_result
        snapshot_device_set_result(3))

lemma normalizeConfigSnapshot_valid:
  assumes "normalizeConfigSnapshot s = Inr s'" shows "snapshot_ok s'"
proof -
  note ids = normalizeConfigSnapshot_ids [OF assms]
  have b: "b_BrandID ` set (cs_Brands s') = set (map b_BrandID (cs_Brands s))"
    and d: "ds_DeviceSetID ` set (cs_DeviceSets s') = set (map ds_DeviceSetID (cs_DeviceSets s))"
    using ids(1,2) by (metis set_map)+
  from assms have m: "\<And>x. x \<in> set (cs_Brands s') \<Longrightarrow> \<exists>y. snapshot_brand y = Inr x"
    "\<And>x. x \<in> set (cs_DeviceSets s') \<Longrightarrow> \<exists>y. snapshot_device_set (map b_BrandID (cs_Brands s)) y = Inr x"
    "\<And>x. x \<in> set (cs_Plants s') \<Longrightarrow> \<exists>y. snapshot_plant y = Inr x"
    "\<And>x. x \<in> set (cs_Connections s') \<Longrightarrow>
       \<exists>y. snapshot_connection (map ds_DeviceSetID (cs_DeviceSets s)) y = Inr x"
    by (auto simp: normalizeConfigSnapshot_steps dest: traverse_member)
  have ds: "device_set_ok x \<and> ds_BrandID x \<in> set (map b_BrandID (cs_Brands s))
      \<and> (\<forall>a \<in> set (ds_Addresses x). a_DeviceSetID a = ds_DeviceSetID x)
      \<and> ds_AddressIDList x = map a_AddressID (ds_Addresses x)" if "x \<in> set (cs_DeviceSets s')" for x
  proof -
    from m(2) [OF that] obtain y where y: "snapshot_device_set (map b_BrandID (cs_Brands s)) y = Inr x" ..
    from snapshot_device_set_result [OF y] show ?thesis by simp
  qed
  have br: "b_BrandName x \<noteq> []" if "x \<in> set (cs_Brands s')" for x
    using m(1) [OF that] snapshot_brand_result by blast
  have pl: "p_PlantCode x \<noteq> [] \<and> p_PlantName x \<noteq> []" if "x \<in> set (cs_Plants s')" for x
    using m(3) [OF that] snapshot_plant_result by blast
  have co: "connection_ok x \<and> c_DeviceSetID x \<in> set (map ds_DeviceSetID (cs_DeviceSets s))"
    if "x \<in> set (cs_Connections s')" for x
    using m(4) [OF that] snapshot_connection_result by metis
  show ?thesis
    unfolding snapshot_ok_def b d using ds br pl co by blast
qed

lemma normalizeConfigSnapshot_again:
  assumes "normalizeConfigSnapshot s = Inr s'" shows "normalizeConfigSnapshot s' = Inr s'"
proof -
  note ids = normalizeConfigSnapshot_ids [OF assms]
  from assms have m: "\<And>x. x \<in> set (cs_Brands s') \<Longrightarrow> \<exists>y. snapshot_brand y = Inr x"
    "\<And>x. x \<in> set (cs_DeviceSets s') \<Longrightarrow> \<exists>y. snapshot_device_set (map b_BrandID (cs_Brands s)) y = Inr x"
    "\<And>x. x \<in> set (cs_Plants s') \<Longrightarrow> \<exists>y. snapshot_plant y = Inr x"
    "\<And>x. x \<in> set (cs_Connections s') \<Longrightarrow>
       \<exists>y. snapshot_connection (map ds_DeviceSetID (cs_DeviceSets s)) y = Inr x"
    by (auto simp: normalizeConfigSnapshot_steps dest: traverse_member)
  have d: "snapshot_device_set (map b_BrandID (cs_Brands s)) x = Inr x" if "x \<in> set (cs_DeviceSets s')" for x
  proof -
    from m(2) [OF that] obtain y where y: "snapshot_device_set (map b_BrandID (cs_Brands s)) y = Inr x" ..
    from snapshot_device_set_result [OF y] show ?thesis
      by (intro snapshot_device_set_fixed) simp_all
  qed
  have "traverse snapshot_brand (cs_Brands s') = Inr (cs_Brands s')"
    using m(1) snapshot_brand_result by (blast intro: traverse_fixed)
  moreover have "traverse (snapshot_device_set (map b_BrandID (cs_Brands s))) (cs_DeviceSets s') = Inr (cs_DeviceSets s')"
    using d by (rule traverse_fixed)
  moreover have "traverse snapshot_plant (cs_Plants s') = Inr (cs_Plants s')"
    using m(3) snapshot_plant_result by (blast intro: traverse_fixed)
  moreover have "traverse (snapshot_connection (map ds_DeviceSetID (cs_DeviceSets s))) (cs_Connections s')
      = Inr (cs_Connections s')"
    using m(4) snapshot_connection_result by (blast intro: traverse_fixed)
  ultimately show ?thesis by (simp add: normalizeConfigSnapshot_def ids)
qed

subsection \<open>Properties\<close>

text \<open>
  C21: A snapshot the middleware accepts is usable as a whole. Every device set belongs to a brand of
  the snapshot, has a known address mode, byte and word order, a block size of 1 to 125 and at least
  one address, and each address has function code 3 or 4, a known data type and resolves under that
  mode; every connection names a device set of the snapshot, has a host, a port of 1 to 65535, a unit
  id above 0 and a plant; ids, their order and the version are those that were sent.
\<close>

theorem normalizeConfigSnapshot_sound:
  assumes "normalizeConfigSnapshot s = Inr s'"
  shows "snapshot_ok s' \<and> cs_Version s' = cs_Version s
    \<and> map b_BrandID (cs_Brands s') = map b_BrandID (cs_Brands s)
    \<and> map ds_DeviceSetID (cs_DeviceSets s') = map ds_DeviceSetID (cs_DeviceSets s)
    \<and> map p_PlantID (cs_Plants s') = map p_PlantID (cs_Plants s)
    \<and> map c_ConnectionID (cs_Connections s') = map c_ConnectionID (cs_Connections s)"
  using normalizeConfigSnapshot_valid [OF assms] normalizeConfigSnapshot_ids [OF assms] by simp

definition sample_address :: Address where
  "sample_address =
     \<lparr>a_AddressID = 1, a_DeviceSetID = 0, a_FunctionCode = 3, a_Register = 40100, a_Description = ''P'',
      a_CanonicalKey = [], a_SourceTag = [], a_Factor = f_zero, a_Offset = f_zero, a_DataType = ''u32'',
      a_Length = 0, a_WordOrder = [], a_SourceUnit = [], a_CanonicalUnit = [], a_Remark = [],
      a_Enabled = False, a_EnabledSet = False\<rparr>"

definition sample_device_set :: DeviceSet where
  "sample_device_set =
     \<lparr>ds_DeviceSetID = 3, ds_BrandID = 7, ds_BrandName = [], ds_DevTypeID = 1, ds_DevType = ''Inverter'',
      ds_DevModel = ''M'', ds_AddressIDList = [], ds_AddressMode = [], ds_ByteOrder = [], ds_WordOrder = [],
      ds_MaxBlockSize = 0, ds_Addresses = [sample_address]\<rparr>"

definition sample_connection :: ConnectionConfig where
  "sample_connection =
     \<lparr>c_ConnectionID = 5, c_ConnectionName = ''VT1-A'', c_Host = ''h'', c_Port = 502, c_UnitID = 0,
      c_SlaveID = 9, c_DeviceSetID = 3, c_DeviceSetName = [], c_DevTypeID = 1, c_DevDn = [],
      c_DeviceName = [], c_PlantCode = [], c_PlantName = [], c_Enabled = True\<rparr>"

definition sample_snapshot :: ConfigSnapshot where
  "sample_snapshot =
     \<lparr>cs_Version = 4,
      cs_Brands = [\<lparr>b_BrandID = 7, b_BrandName = ''ABB'', b_BrandDescription = [], b_BrandDevSetIDList = []\<rparr>],
      cs_DeviceSets = [sample_device_set], cs_Connections = [sample_connection],
      cs_Plants = [\<lparr>p_PlantID = 2, p_PlantCode = ''vt1'', p_PlantName = ''VT1''\<rparr>],
      cs_SendIntervalSeconds = 0, cs_APIPollingEnabled = False, cs_IdleHeartbeatSeconds = 0\<rparr>"

definition sample_address_out :: Address where
  "sample_address_out = sample_address
     \<lparr>a_DeviceSetID := 3, a_FunctionCode := 4, a_Register := 100, a_CanonicalKey := ''4:100'',
      a_SourceTag := ''P'', a_Factor := f_one, a_DataType := ''U32'', a_Length := 2, a_Enabled := True\<rparr>"

definition sample_device_set_out :: DeviceSet where
  "sample_device_set_out = sample_device_set
     \<lparr>ds_AddressIDList := [1], ds_AddressMode := ''ZERO_BASED'', ds_ByteOrder := ''BIG_ENDIAN'',
      ds_WordOrder := ''HIGH_LOW'', ds_MaxBlockSize := 30, ds_Addresses := [sample_address_out]\<rparr>"

lemma sample_address_normal:
  "(normalizeAddress sample_address ''ZERO_BASED'')\<lparr>a_DeviceSetID := 3\<rparr> = sample_address_out"
  by (rule Address.equality)
    (simp_all add: normalizeAddress_sel normalizeAddress_register normalizeRegister_def sample_address_def
      sample_address_out_def text_eval RegisterCount_def NormalizeDataType_def itoa_def nat_digits.simps
      digit_char_def)

lemma sample_address_valid: "address_ok ''ZERO_BASED'' sample_address_out"
  by (simp add: address_ok_def sample_address_out_def sample_address_def RegisterCount_def
      NormalizeDataType_def text_eval Let_def ResolveModbusAddress_def CanonicalAddressMode_def
      address_definition_def mode_start_def)

lemma sample_device_set_accepted: "snapshot_device_set [7] sample_device_set = Inr sample_device_set_out"
proof -
  have n: "normalizeDeviceSet sample_device_set = sample_device_set_out
      \<lparr>ds_AddressIDList := [], ds_Addresses := [sample_address]\<rparr>"
    by (rule DeviceSet.equality)
      (simp_all add: normalizeDeviceSet_sel sample_device_set_def sample_device_set_out_def text_eval
        canonical_or_cleaned_def CanonicalAddressMode_def clean_upper_def)
  have "address_ok ''ZERO_BASED'' (normalizeAddress sample_address ''ZERO_BASED'')"
    using sample_address_valid by (simp flip: sample_address_normal)
  then have a: "snapshot_address (normalizeDeviceSet sample_device_set) 3 (0, sample_address) = Inr sample_address_out"
    using sample_address_normal
    by (simp add: snapshot_address_result n sample_device_set_out_def)
  have i: "indexed [sample_address] = [(0, sample_address)]" by (simp add: indexed_def)
  have sel: "ds_BrandID sample_device_set = 7" "ds_DeviceSetID sample_device_set = 3"
    "ds_Addresses sample_device_set = [sample_address]"
    by (simp_all add: sample_device_set_def)
  have out: "trim_space (ds_DevType sample_device_set_out) \<noteq> []" "trim_space (ds_DevModel sample_device_set_out) \<noteq> []"
    "oneOf (ds_ByteOrder sample_device_set_out) [''BIG_ENDIAN'', ''LITTLE_ENDIAN'']"
    "oneOf (ds_WordOrder sample_device_set_out) [''HIGH_LOW'', ''LOW_HIGH'']"
    "ds_MaxBlockSize sample_device_set_out = 30" "addressIDList [sample_address_out] = [1]"
    by (simp_all add: sample_device_set_out_def sample_device_set_def oneOf_def text_eval addressIDList_def
        sample_address_out_def sample_address_def)
  have "sample_device_set_out\<lparr>ds_Addresses := [sample_address_out], ds_AddressIDList := [1]\<rparr> = sample_device_set_out"
    by (simp add: sample_device_set_out_def)
  with a i out show ?thesis
    by (simp add: snapshot_device_set_def Let_def n sel)
qed

lemma sample_snapshot_accepted: "\<exists>s'. normalizeConfigSnapshot sample_snapshot = Inr s'"
proof -
  have "snapshot_connection [3] sample_connection = Inr (normalizeConnection sample_connection)"
    by (simp add: snapshot_connection_def normalizeConnection_sel sample_connection_def text_eval)
  moreover have "ds_DeviceSetID sample_device_set = 3" by (simp add: sample_device_set_def)
  ultimately show ?thesis
    using sample_device_set_accepted
    by (simp add: normalizeConfigSnapshot_def sample_snapshot_def snapshot_brand_def snapshot_plant_def text_eval)
qed

theorem normalizeConfigSnapshot_sound_witness: "\<exists>s'. snapshot_ok s' \<and> cs_Version s' = cs_Version sample_snapshot"
  using normalizeConfigSnapshot_sound sample_snapshot_accepted by blast

text \<open>
  Normalising is idempotent on what it accepts: a snapshot that was accepted, exported and pushed
  again is accepted again and stored unchanged.
\<close>

theorem normalizeConfigSnapshot_idempotent:
  assumes "normalizeConfigSnapshot s = Inr s'"
  shows "normalizeConfigSnapshot s' = Inr s'"
  using assms by (rule normalizeConfigSnapshot_again)

theorem normalizeConfigSnapshot_idempotent_witness:
  "\<exists>s'. normalizeConfigSnapshot sample_snapshot = Inr s' \<and> normalizeConfigSnapshot s' = Inr s'"
  using normalizeConfigSnapshot_idempotent sample_snapshot_accepted by blast

text \<open>
  A pushed unit id is not bounded: \<open>normalizeConfigSnapshot\<close> accepts one above 255, which a local save
  refuses and the client cuts to its low byte when it writes the request.
\<close>

lemma pushed_unit_id_unbounded:
  "snapshot_connection [3] (sample_connection\<lparr>c_UnitID := 300\<rparr>) =
     Inr (normalizeConnection (sample_connection\<lparr>c_UnitID := 300\<rparr>))
   \<and> c_UnitID (normalizeConnection (sample_connection\<lparr>c_UnitID := 300\<rparr>)) = 300"
  by (simp add: snapshot_connection_def normalizeConnection_sel sample_connection_def text_eval)

end
