(* ===== verification/FileStore.thy ===== *)
theory FileStore
  imports ConfigNormalize
begin

section \<open>internal/store/file_arch.go: the file store, state and configuration\<close>

text \<open>
  The store of the MIPS build keeps the whole state in memory and rewrites one JSON file after a
  change. \<open>st_mem\<close> is \<open>s.state\<close>, \<open>st_disk\<close> what the file at \<open>path\<close> holds (\<open>None\<close>: it does not
  exist). File operations are the outside: a parameter \<open>io\<close> of every writing operation says how this
  call of \<open>saveLocked\<close> ends, \<open>None\<close> when the temporary file was written and renamed, \<open>Some err\<close> when a
  step before the rename failed, which leaves the file as it was. The mutex makes each operation one
  step. A Go map is a partial function; a result next to an error is not modelled, callers drop it.
\<close>

subsection \<open>State\<close>

record fileOutbox =
  o_ID :: int
  o_Key :: string
  o_Hash :: string
  o_Payload :: string
  o_Status :: string
  o_Attempts :: int
  o_HTTPStatus :: int
  o_NextRetry :: int
  o_Created :: int
  o_Delivered :: int
  o_LastError :: string
  o_LastResponse :: string

record fileHistory =
  h_Version :: int
  h_Status :: string
  h_Reason :: string
  h_Snapshot :: string
  h_AppliedAt :: int

record fileState =
  fs_FormatVersion :: int
  fs_NextID :: int
  fs_GatewayConfig :: GatewayConfig
  fs_GatewayConfigSet :: bool
  fs_Brands :: "Brand list"
  fs_DeviceSets :: "DeviceSet list"
  fs_Plants :: "Plant list"
  fs_Connections :: "ConnectionConfig list"
  fs_Profiles :: "string \<rightharpoonup> RegisterProfile"
  fs_Devices :: "string \<rightharpoonup> Device"
  fs_Outbox :: "fileOutbox list"
  fs_PollLogs :: "PollLog list"
  fs_History :: "fileHistory list"

record Store =
  st_mem :: fileState
  st_disk :: "fileState option"

definition zero_fileState :: fileState where
  "zero_fileState =
     \<lparr>fs_FormatVersion = 0, fs_NextID = 0, fs_GatewayConfig = zero_GatewayConfig,
      fs_GatewayConfigSet = False, fs_Brands = [], fs_DeviceSets = [], fs_Plants = [],
      fs_Connections = [], fs_Profiles = Map.empty, fs_Devices = Map.empty, fs_Outbox = [],
      fs_PollLogs = [], fs_History = []\<rparr>"

text \<open>What \<open>json.Unmarshal\<close> reads from the document \<open>json.MarshalIndent\<close> wrote.\<close>

definition json_fileState :: "fileState \<Rightarrow> fileState" where
  "json_fileState f = f\<lparr>fs_DeviceSets := map json_DeviceSet (fs_DeviceSets f)\<rparr>"

text \<open>
  \<open>openNormalized\<close>, for a path that does not end in \<open>.db\<close> and a readable or absent file; the maps of
  the model are never nil.
\<close>

definition openNormalized :: "string \<Rightarrow> fileState option \<Rightarrow> string + Store" where
  "openNormalized path disk =
     (if suffix ''.db'' (to_lower path)
      then Inl ''SQLite middleware.db is not supported on MIPS; use middleware.store or export/import settings''
      else
        let f = (case disk of None \<Rightarrow> zero_fileState | Some doc \<Rightarrow> json_fileState doc);
            f = (if fs_FormatVersion f = 0 then f\<lparr>fs_FormatVersion := 1\<rparr> else f);
            f = (if fs_NextID f < 1 then f\<lparr>fs_NextID := 1\<rparr> else f)
        in Inr \<lparr>st_mem = f, st_disk = disk\<rparr>)"

definition saveLocked :: "string option \<Rightarrow> Store \<Rightarrow> Store \<times> string option" where
  "saveLocked io s =
     (case io of None \<Rightarrow> (s\<lparr>st_disk := Some (st_mem s)\<rparr>, None) | Some err \<Rightarrow> (s, Some err))"

text \<open>\<open>return v, s.saveLocked()\<close>, after the state in memory became \<open>f\<close>.\<close>

definition save_result :: "string option \<Rightarrow> Store \<Rightarrow> fileState \<Rightarrow> 'a \<Rightarrow> Store \<times> (string + 'a)" where
  "save_result io s f v =
     (case saveLocked io (s\<lparr>st_mem := f\<rparr>) of
        (s', None) \<Rightarrow> (s', Inr v)
      | (s', Some err) \<Rightarrow> (s', Inl err))"

definition nextID :: "fileState \<Rightarrow> int \<times> fileState" where
  "nextID f = (fs_NextID f, f\<lparr>fs_NextID := fs_NextID f + 1\<rparr>)"

definition ErrNotExist :: string where
  "ErrNotExist = ''file does not exist''"

subsection \<open>Profiles and devices\<close>

definition SaveProfile :: "string option \<Rightarrow> RegisterProfile \<Rightarrow> Store \<Rightarrow> Store \<times> (string + unit)" where
  "SaveProfile io v s =
     save_result io s ((st_mem s)\<lparr>fs_Profiles := (fs_Profiles (st_mem s))(rp_ProfileID v \<mapsto> v)\<rparr>) ()"

definition SaveDevice :: "string option \<Rightarrow> Device \<Rightarrow> Store \<Rightarrow> Store \<times> (string + unit)" where
  "SaveDevice io v s =
     save_result io s ((st_mem s)\<lparr>fs_Devices := (fs_Devices (st_mem s))(dv_DeviceID v \<mapsto> v)\<rparr>) ()"

definition get_profile :: "string \<Rightarrow> Store \<Rightarrow> string + RegisterProfile" where
  "get_profile i s = (case fs_Profiles (st_mem s) i of None \<Rightarrow> Inl ErrNotExist | Some v \<Rightarrow> Inr v)"

definition get_device :: "string \<Rightarrow> Store \<Rightarrow> string + Device" where
  "get_device i s = (case fs_Devices (st_mem s) i of None \<Rightarrow> Inl ErrNotExist | Some v \<Rightarrow> Inr v)"

subsection \<open>Brands\<close>

definition brandSets :: "fileState \<Rightarrow> int \<Rightarrow> int list" where
  "brandSets f i = map ds_DeviceSetID (filter (\<lambda>v. ds_BrandID v = i) (fs_DeviceSets f))"

text \<open>
  The loop of \<open>SaveBrand\<close>: an unnumbered brand takes the id of an earlier one of its name, and a brand
  with the id at hand replaces it.
\<close>

fun save_brand_loop :: "Brand \<Rightarrow> Brand list \<Rightarrow> (Brand \<times> Brand list) option" where
  "save_brand_loop v [] = None"
| "save_brand_loop v (b # bs) =
     (let v = (if b_BrandName b = b_BrandName v \<and> b_BrandID v = 0
               then v\<lparr>b_BrandID := b_BrandID b\<rparr> else v)
      in if b_BrandID b = b_BrandID v \<and> b_BrandID v \<noteq> 0 then Some (v, v # bs)
         else map_option (\<lambda>(w, ws). (w, b # ws)) (save_brand_loop v bs))"

definition SaveBrand :: "string option \<Rightarrow> Brand \<Rightarrow> Store \<Rightarrow> Store \<times> (string + Brand)" where
  "SaveBrand io v0 s =
     (let f = st_mem s;
          v = v0\<lparr>b_BrandName := trim_space (b_BrandName v0),
                 b_BrandDescription := trim_space (b_BrandDescription v0)\<rparr>
      in if b_BrandName v = [] then (s, Inl ''brandName is required'')
         else (case save_brand_loop v (fs_Brands f) of
                 Some (w, bs) \<Rightarrow>
                   save_result io s (f\<lparr>fs_Brands := bs\<rparr>)
                     (w\<lparr>b_BrandDevSetIDList := brandSets f (b_BrandID w)\<rparr>)
               | None \<Rightarrow>
                   let (i, f) = nextID f; w = v\<lparr>b_BrandID := i\<rparr>
                   in save_result io s (f\<lparr>fs_Brands := fs_Brands f @ [w]\<rparr>)
                        (w\<lparr>b_BrandDevSetIDList := brandSets f i\<rparr>)))"

definition brand_name_less :: "Brand \<Rightarrow> Brand \<Rightarrow> bool" where
  "brand_name_less a b \<longleftrightarrow> string_less (b_BrandName a) (b_BrandName b)"

definition Brands :: "(Brand list \<Rightarrow> Brand list) \<Rightarrow> Store \<Rightarrow> Brand list" where
  "Brands srt s =
     map (\<lambda>b. b\<lparr>b_BrandDevSetIDList := brandSets (st_mem s) (b_BrandID b)\<rparr>) (srt (fs_Brands (st_mem s)))"

definition DeleteBrand :: "string option \<Rightarrow> int \<Rightarrow> Store \<Rightarrow> Store \<times> (string + unit)" where
  "DeleteBrand io i s =
     (let f = st_mem s in
      if \<exists>d \<in> set (fs_DeviceSets f). ds_BrandID d = i then (s, Inl ''brand is used by device set'')
      else if \<exists>b \<in> set (fs_Brands f). b_BrandID b = i
      then save_result io s (f\<lparr>fs_Brands := remove_first (\<lambda>b. b_BrandID b = i) (fs_Brands f)\<rparr>) ()
      else (s, Inr ()))"

subsection \<open>Device sets\<close>

text \<open>
  The loop over the addresses of \<open>SaveDeviceSet\<close>, which takes ids from \<open>s.state.NextID\<close> as it goes:
  an address that fails leaves the ids taken before it used up.
\<close>

fun save_addresses ::
  "string \<Rightarrow> int \<Rightarrow> fileState \<Rightarrow> Address list \<Rightarrow> fileState \<times> (string + Address list)" where
  "save_addresses mode setID f [] = (f, Inr [])"
| "save_addresses mode setID f (a0 # rest) =
     (let a = (normalizeAddress a0 mode)\<lparr>a_DeviceSetID := setID\<rparr> in
      case validateAddress a mode of
        Inl err \<Rightarrow> (f, Inl err)
      | Inr _ \<Rightarrow>
          let (i, f) = (if a_AddressID a = 0 then nextID f else (a_AddressID a, f)) in
          case save_addresses mode setID f rest of
            (f, Inl err) \<Rightarrow> (f, Inl err)
          | (f, Inr as) \<Rightarrow> (f, Inr (a\<lparr>a_AddressID := i\<rparr> # as)))"

definition put_device_set :: "DeviceSet \<Rightarrow> DeviceSet list \<Rightarrow> DeviceSet list" where
  "put_device_set v ds =
     (if \<exists>d \<in> set ds. ds_DeviceSetID d = ds_DeviceSetID v
      then update_where (\<lambda>d. ds_DeviceSetID d = ds_DeviceSetID v) (\<lambda>_. v) ds
      else ds @ [v])"

definition SaveDeviceSet :: "string option \<Rightarrow> DeviceSet \<Rightarrow> Store \<Rightarrow> Store \<times> (string + DeviceSet)" where
  "SaveDeviceSet io v0 s =
     (let v = normalizeDeviceSet v0 in
      if ds_BrandID v = 0 \<or> ds_DevType v = [] \<or> ds_DevModel v = []
      then (s, Inl ''brandId, devType and devModel are required'')
      else if \<not> oneOf (ds_ByteOrder v) [''BIG_ENDIAN'', ''LITTLE_ENDIAN'']
              \<or> \<not> oneOf (ds_WordOrder v) [''HIGH_LOW'', ''LOW_HIGH'']
      then (s, Inl ''invalid byteOrder or wordOrder'')
      else if ds_MaxBlockSize v < 1 \<or> 125 < ds_MaxBlockSize v
      then (s, Inl ''maxBlockSize must be 1..125'')
      else if ds_Addresses v = [] then (s, Inl ''at least one address is required'')
      else
        let (i, f) = (if ds_DeviceSetID v = 0 then nextID (st_mem s) else (ds_DeviceSetID v, st_mem s)) in
        case save_addresses (ds_AddressMode v) i f (ds_Addresses v) of
          (f, Inl err) \<Rightarrow> (s\<lparr>st_mem := f\<rparr>, Inl err)
        | (f, Inr as) \<Rightarrow>
            let v = v\<lparr>ds_DeviceSetID := i, ds_Addresses := as, ds_AddressIDList := addressIDList as\<rparr>
            in save_result io s (f\<lparr>fs_DeviceSets := put_device_set v (fs_DeviceSets f)\<rparr>) v)"

definition DeviceSets :: "Store \<Rightarrow> DeviceSet list" where
  "DeviceSets s =
     map (\<lambda>d. d\<lparr>ds_AddressIDList := addressIDList (ds_Addresses d)\<rparr>) (fs_DeviceSets (st_mem s))"

definition get_device_set :: "int \<Rightarrow> Store \<Rightarrow> string + DeviceSet" where
  "get_device_set i s =
     (case find (\<lambda>v. ds_DeviceSetID v = i) (fs_DeviceSets (st_mem s)) of
        None \<Rightarrow> Inl ErrNotExist | Some v \<Rightarrow> Inr v)"

definition Addresses :: "int \<Rightarrow> Store \<Rightarrow> string + Address list" where
  "Addresses i s = map_sum id ds_Addresses (get_device_set i s)"

definition DeleteDeviceSet :: "string option \<Rightarrow> int \<Rightarrow> Store \<Rightarrow> Store \<times> (string + unit)" where
  "DeleteDeviceSet io i s =
     (let f = st_mem s in
      if \<exists>c \<in> set (fs_Connections f). c_DeviceSetID c = i
      then (s, Inl ''device set is used by connection'')
      else if \<exists>d \<in> set (fs_DeviceSets f). ds_DeviceSetID d = i
      then save_result io s
             (f\<lparr>fs_DeviceSets := remove_first (\<lambda>d. ds_DeviceSetID d = i) (fs_DeviceSets f)\<rparr>) ()
      else (s, Inr ()))"

subsection \<open>Connections\<close>

definition SaveConnection ::
  "string option \<Rightarrow> ConnectionConfig \<Rightarrow> Store \<Rightarrow> Store \<times> (string + ConnectionConfig)" where
  "SaveConnection io v0 s =
     (let f = st_mem s; v = normalizeConnection v0 in
      if c_ConnectionName v = [] \<or> c_Host v = [] \<or> c_Port v < 1 \<or> 65535 < c_Port v
         \<or> c_UnitID v < 0 \<or> 255 < c_UnitID v \<or> c_DeviceSetID v = 0
      then (s, Inl ''connectionName, host, valid port/unitId and deviceSetId are required'')
      else if c_ConnectionID v = 0 then
        let (i, f) = nextID f; v = v\<lparr>c_ConnectionID := i\<rparr>
        in save_result io s (f\<lparr>fs_Connections := fs_Connections f @ [v]\<rparr>) v
      else if \<exists>c \<in> set (fs_Connections f). c_ConnectionID c = c_ConnectionID v
      then save_result io s
             (f\<lparr>fs_Connections :=
                 update_where (\<lambda>c. c_ConnectionID c = c_ConnectionID v) (\<lambda>_. v) (fs_Connections f)\<rparr>) v
      else (s, Inl ''connection not found''))"

definition firstBrand :: "Brand list \<Rightarrow> int \<Rightarrow> string" where
  "firstBrand bs i = (case find (\<lambda>b. b_BrandID b = i) bs of None \<Rightarrow> [] | Some b \<Rightarrow> b_BrandName b)"

text \<open>The loop has no break: of several device sets with the id the last one counts.\<close>

definition enrich :: "fileState \<Rightarrow> ConnectionConfig \<Rightarrow> ConnectionConfig" where
  "enrich f v =
     normalizeConnection
       (fold (\<lambda>d v. if ds_DeviceSetID d = c_DeviceSetID v
                  then v\<lparr>c_DeviceSetName := firstBrand (fs_Brands f) (ds_BrandID d) @ '' '' @ ds_DevModel d,
                         c_DevTypeID := ds_DevTypeID d\<rparr>
                  else v)
          (fs_DeviceSets f) v)"

definition connection_name_less :: "ConnectionConfig \<Rightarrow> ConnectionConfig \<Rightarrow> bool" where
  "connection_name_less a b \<longleftrightarrow> string_less (c_ConnectionName a) (c_ConnectionName b)"

definition Connections :: "(ConnectionConfig list \<Rightarrow> ConnectionConfig list) \<Rightarrow> Store \<Rightarrow> ConnectionConfig list" where
  "Connections srt s = srt (map (enrich (st_mem s)) (fs_Connections (st_mem s)))"

definition get_connection :: "int \<Rightarrow> Store \<Rightarrow> string + ConnectionConfig" where
  "get_connection i s =
     (case find (\<lambda>v. c_ConnectionID v = i) (fs_Connections (st_mem s)) of
        None \<Rightarrow> Inl ErrNotExist | Some v \<Rightarrow> Inr (enrich (st_mem s) v))"

definition DeleteConnection :: "string option \<Rightarrow> int \<Rightarrow> Store \<Rightarrow> Store \<times> (string + unit)" where
  "DeleteConnection io i s =
     (let f = st_mem s in
      if \<exists>c \<in> set (fs_Connections f). c_ConnectionID c = i
      then save_result io s
             (f\<lparr>fs_Connections := remove_first (\<lambda>c. c_ConnectionID c = i) (fs_Connections f)\<rparr>) ()
      else (s, Inr ()))"

text \<open>Only the first connection with the id is switched.\<close>

fun set_first :: "('a \<Rightarrow> bool) \<Rightarrow> ('a \<Rightarrow> 'a) \<Rightarrow> 'a list \<Rightarrow> 'a list" where
  "set_first p f [] = []"
| "set_first p f (x # xs) = (if p x then f x # xs else x # set_first p f xs)"

definition SetConnectionEnabled :: "string option \<Rightarrow> int \<Rightarrow> bool \<Rightarrow> Store \<Rightarrow> Store \<times> (string + unit)" where
  "SetConnectionEnabled io i e s =
     (let f = st_mem s in
      if \<exists>c \<in> set (fs_Connections f). c_ConnectionID c = i
      then save_result io s
             (f\<lparr>fs_Connections :=
                 set_first (\<lambda>c. c_ConnectionID c = i) (\<lambda>c. c\<lparr>c_Enabled := e\<rparr>) (fs_Connections f)\<rparr>) ()
      else (s, Inl ''connection not found''))"

definition EnabledConnections :: "(ConnectionConfig list \<Rightarrow> ConnectionConfig list) \<Rightarrow> Store \<Rightarrow> ConnectionConfig list" where
  "EnabledConnections srt s = filter c_Enabled (Connections srt s)"

subsection \<open>Plants\<close>

definition SavePlant :: "string option \<Rightarrow> Plant \<Rightarrow> Store \<Rightarrow> Store \<times> (string + Plant)" where
  "SavePlant io v0 s =
     (let f = st_mem s;
          v = v0\<lparr>p_PlantCode := trim_space (p_PlantCode v0), p_PlantName := trim_space (p_PlantName v0)\<rparr>
      in if p_PlantCode v = [] \<or> p_PlantName v = []
         then (s, Inl ''plantCode and plantName are required'')
         else if p_PlantID v = 0 then
           let (i, f) = nextID f; v = v\<lparr>p_PlantID := i\<rparr>
           in save_result io s (f\<lparr>fs_Plants := fs_Plants f @ [v]\<rparr>) v
         else save_result io s
                (f\<lparr>fs_Plants := update_where (\<lambda>p. p_PlantID p = p_PlantID v) (\<lambda>_. v) (fs_Plants f)\<rparr>) v)"

definition Plants :: "Store \<Rightarrow> Plant list" where
  "Plants s = fs_Plants (st_mem s)"

definition PlantByCode :: "string \<Rightarrow> Store \<Rightarrow> string + Plant" where
  "PlantByCode code s =
     (case find (\<lambda>v. p_PlantCode v = code) (fs_Plants (st_mem s)) of
        None \<Rightarrow> Inl ErrNotExist | Some v \<Rightarrow> Inr v)"

definition DeletePlant :: "string option \<Rightarrow> int \<Rightarrow> Store \<Rightarrow> Store \<times> (string + unit)" where
  "DeletePlant io i s =
     (let f = st_mem s in
      if \<exists>p \<in> set (fs_Plants f). p_PlantID p = i
      then save_result io s (f\<lparr>fs_Plants := remove_first (\<lambda>p. p_PlantID p = i) (fs_Plants f)\<rparr>) ()
      else (s, Inr ()))"

subsection \<open>The gateway's own configuration\<close>

text \<open>
  \<open>net/url.Parse\<close> is a parameter: scheme and host of an endpoint, or \<open>None\<close> where it reports an
  error.
\<close>

definition get_gateway_config :: "Store \<Rightarrow> GatewayConfig" where
  "get_gateway_config s =
     (if \<not> fs_GatewayConfigSet (st_mem s) then zero_GatewayConfig else fs_GatewayConfig (st_mem s))"

definition SaveGatewayConfig ::
  "(string \<Rightarrow> (string \<times> string) option) \<Rightarrow> string option \<Rightarrow> GatewayConfig \<Rightarrow> Store \<Rightarrow>
     Store \<times> (string + GatewayConfig)" where
  "SaveGatewayConfig url_parse io v0 s =
     (if trim_space (gc_Endpoint v0) \<noteq> []
         \<and> (case url_parse (trim_space (gc_Endpoint v0)) of
               None \<Rightarrow> True
             | Some (scheme, host) \<Rightarrow> scheme \<noteq> ''http'' \<and> scheme \<noteq> ''https'' \<or> host = [])
      then (s, Inl ''endpoint must be a valid http/https URL'')
      else
        let v = v0\<lparr>gc_SendIntervalSeconds :=
                     if gc_SendIntervalSeconds v0 < 1 then 5 else gc_SendIntervalSeconds v0,
                   gc_SendTimeoutSeconds :=
                     if gc_SendTimeoutSeconds v0 < 1 then 10 else gc_SendTimeoutSeconds v0,
                   gc_IdleHeartbeatSeconds :=
                     if gc_IdleHeartbeatSeconds v0 < 60 then 1800 else gc_IdleHeartbeatSeconds v0\<rparr>
        in save_result io s ((st_mem s)\<lparr>fs_GatewayConfig := v, fs_GatewayConfigSet := True\<rparr>) v)"

subsection \<open>Pushed configuration\<close>

definition CurrentConfigVersion :: "Store \<Rightarrow> int" where
  "CurrentConfigVersion s =
     fold (\<lambda>h v. if h_Status h = ''APPLIED'' \<and> v < h_Version h then h_Version h else v)
       (fs_History (st_mem s)) 0"

definition raise_next :: "int list \<Rightarrow> int \<Rightarrow> int" where
  "raise_next ids n = fold (\<lambda>i n. if n \<le> i then i + 1 else n) ids n"

text \<open>\<open>marshal\<close> is \<open>json.Marshal\<close> of the snapshot (its error is dropped), \<open>now\<close> the clock.\<close>

definition ApplyConfigSnapshot ::
  "(ConfigSnapshot \<Rightarrow> string) \<Rightarrow> int \<Rightarrow> string option \<Rightarrow> int \<Rightarrow> ConfigSnapshot \<Rightarrow> Store \<Rightarrow>
     Store \<times> (string + unit)" where
  "ApplyConfigSnapshot marshal now io version snap0 s =
     (let snap = snap0\<lparr>cs_Version := version\<rparr>;
          normalized = normalizeConfigSnapshot snap;
          f = st_mem s;
          entry = \<lparr>h_Version = version, h_Status = (if is_ok normalized then ''APPLIED'' else ''FAILED''),
                   h_Reason = (case normalized of Inl err \<Rightarrow> err | Inr _ \<Rightarrow> []),
                   h_Snapshot = marshal snap, h_AppliedAt = now\<rparr>;
          f = f\<lparr>fs_History := fs_History f @ [entry]\<rparr>
      in case normalized of
           Inl err \<Rightarrow> save_result io s f ()
         | Inr n \<Rightarrow>
             let f = f\<lparr>fs_Brands := cs_Brands n, fs_DeviceSets := cs_DeviceSets n,
                       fs_Connections := cs_Connections n, fs_Plants := cs_Plants n\<rparr>;
                 f = f\<lparr>fs_NextID := raise_next (map b_BrandID (fs_Brands f)) (fs_NextID f)\<rparr>;
                 f = f\<lparr>fs_NextID := raise_next (map ds_DeviceSetID (fs_DeviceSets f)) (fs_NextID f)\<rparr>;
                 f = f\<lparr>fs_NextID := raise_next (map c_ConnectionID (fs_Connections f)) (fs_NextID f)\<rparr>
             in save_result io s f ())"

subsection \<open>Facts the components share\<close>

lemma save_result_cases:
  "save_result io s f v =
     (case io of None \<Rightarrow> (\<lparr>st_mem = f, st_disk = Some f\<rparr>, Inr v)
               | Some err \<Rightarrow> (s\<lparr>st_mem := f\<rparr>, Inl err))"
  by (cases s) (simp add: save_result_def saveLocked_def split: option.splits)

lemma save_result_sel [simp]:
  "st_mem (fst (save_result io s f v)) = f"
  "st_disk (fst (save_result io s f v)) = (if io = None then Some f else st_disk s)"
  "snd (save_result io s f v) = (case io of None \<Rightarrow> Inr v | Some err \<Rightarrow> Inl err)"
  "is_ok (snd (save_result io s f v)) \<longleftrightarrow> io = None"
  by (simp_all add: save_result_cases split: option.splits)

lemma raise_next_ge: "n \<le> raise_next ids n"
proof (induction ids arbitrary: n)
  case Nil
  then show ?case by (simp add: raise_next_def)
next
  case (Cons j ids)
  have "n \<le> (if n \<le> j then j + 1 else n)" by simp
  also have "\<dots> \<le> raise_next ids (if n \<le> j then j + 1 else n)" by (rule Cons.IH)
  also have "\<dots> = raise_next (j # ids) n" by (simp add: raise_next_def)
  finally show ?case .
qed

lemma raise_next_above: "i \<in> set ids \<Longrightarrow> i < raise_next ids n"
proof (induction ids arbitrary: n)
  case Nil
  then show ?case by simp
next
  case (Cons j ids)
  then show ?case
    using raise_next_ge [of "if n \<le> j then j + 1 else n" ids]
    by (auto simp: raise_next_def split: if_splits)
qed

text \<open>The current version is the highest that was applied.\<close>

definition applied_versions :: "fileState \<Rightarrow> int set" where
  "applied_versions f = h_Version ` {h \<in> set (fs_History f). h_Status h = ''APPLIED''}"

lemma config_version_fold:
  fixes hs :: "fileHistory list" and v :: int
  defines "w \<equiv> fold (\<lambda>h v. if h_Status h = ''APPLIED'' \<and> v < h_Version h then h_Version h else v) hs v"
  shows "v \<le> w" and "h \<in> set hs \<Longrightarrow> h_Status h = ''APPLIED'' \<Longrightarrow> h_Version h \<le> w"
    and "w = v \<or> w \<in> h_Version ` {h \<in> set hs. h_Status h = ''APPLIED''}"
  unfolding w_def
proof (induction hs arbitrary: v)
  case Nil
  {
    case 1 then show ?case by simp
  next
    case 2 then show ?case by simp
  next
    case 3 then show ?case by simp
  }
next
  case (Cons x hs)
  {
    case 1
    then show ?case using Cons.IH(1) [of v] Cons.IH(1) [of "h_Version x"] by auto
  next
    case 2
    then show ?case using Cons.IH(1) [of v] Cons.IH(1) [of "h_Version x"] Cons.IH(2) by auto
  next
    case 3
    then show ?case using Cons.IH(3) [of v] Cons.IH(3) [of "h_Version x"] by auto
  }
qed

lemma CurrentConfigVersion_max:
  shows "0 \<le> CurrentConfigVersion s" and "v \<in> applied_versions (st_mem s) \<Longrightarrow> v \<le> CurrentConfigVersion s"
    and "CurrentConfigVersion s = 0 \<or> CurrentConfigVersion s \<in> applied_versions (st_mem s)"
  using config_version_fold [where hs = "fs_History (st_mem s)" and v = 0]
  by (auto simp: CurrentConfigVersion_def applied_versions_def)

subsection \<open>Properties\<close>


subsection \<open>Where the store departs from what it means to do\<close>

text \<open>
  A rejected push is recorded as \<open>FAILED\<close> in the history, but the call itself reports success when the
  file can be written.
\<close>

lemma rejected_push_reports_success:
  assumes "normalizeConfigSnapshot (snap\<lparr>cs_Version := version\<rparr>) = Inl err"
  shows "snd (ApplyConfigSnapshot marshal now None version snap s) = Inr ()"
  using assms by (simp add: ApplyConfigSnapshot_def Let_def)

text \<open>
  Applying a push does not raise the id counter above the ids of its plants, so a plant added locally
  afterwards can get the id of a pushed one.
\<close>

lemma plant_id_given_twice:
  "let s0 = \<lparr>st_mem = zero_fileState\<lparr>fs_NextID := 1\<rparr>, st_disk = None\<rparr>;
       snap = \<lparr>cs_Version = 1, cs_Brands = [], cs_DeviceSets = [], cs_Connections = [],
               cs_Plants = [\<lparr>p_PlantID = 1, p_PlantCode = ''A'', p_PlantName = ''A''\<rparr>],
               cs_SendIntervalSeconds = 0, cs_APIPollingEnabled = False, cs_IdleHeartbeatSeconds = 0\<rparr>;
       s1 = fst (ApplyConfigSnapshot (\<lambda>_. []) 0 None 1 snap s0);
       s2 = fst (SavePlant None \<lparr>p_PlantID = 0, p_PlantCode = ''B'', p_PlantName = ''B''\<rparr> s1)
   in map p_PlantID (Plants s2) = [1, 1]"
  by (simp add: ApplyConfigSnapshot_def normalizeConfigSnapshot_def snapshot_plant_def SavePlant_def
      Plants_def nextID_def raise_next_def zero_fileState_def text_eval Let_def)

text \<open>
  An address switched off loses that through the JSON of the store or of an exported configuration:
  \<open>enabled\<close> is not written when false, and the rules switch an address on that does not say.
\<close>

lemma disabled_address_reenabled:
  "a_Enabled (normalizeAddress (json_Address (a\<lparr>a_Enabled := False, a_EnabledSet := True\<rparr>)) mode)"
  by (simp add: normalizeAddress_sel)

end
