(* ===== verification/Outbox.thy ===== *)
theory Outbox
  imports FileStore
begin

section \<open>internal/store/file_arch.go: outbox, delivery logs and poll logs\<close>

text \<open>
  The queue of readings to deliver, and the logs, of the file store. A row is \<open>PENDING\<close> or \<open>RETRYING\<close>
  until the platform acknowledges it (\<open>DELIVERED\<close>) or refuses it for good (\<open>DEAD_LETTER\<close>). The clock
  is a parameter \<open>now\<close> in milliseconds; \<open>marshal\<close> is \<open>json.Marshal\<close> of a reading, which may fail.
\<close>

subsection \<open>The code\<close>

definition new_row :: "int \<Rightarrow> string \<Rightarrow> string \<Rightarrow> string \<Rightarrow> int \<Rightarrow> fileOutbox" where
  "new_row i key hash payload now =
     \<lparr>o_ID = i, o_Key = key, o_Hash = hash, o_Payload = payload, o_Status = ''PENDING'', o_Attempts = 0,
      o_HTTPStatus = 0, o_NextRetry = 0, o_Created = now, o_Delivered = 0, o_LastError = [],
      o_LastResponse = []\<rparr>"

definition Enqueue ::
  "(Reading \<Rightarrow> string + string) \<Rightarrow> int \<Rightarrow> string option \<Rightarrow> string \<Rightarrow> string \<Rightarrow> Reading \<Rightarrow> Store \<Rightarrow>
     Store \<times> (string + bool)" where
  "Enqueue marshal now io key hash r s =
     (let f = st_mem s in
      if \<exists>v \<in> set (fs_Outbox f). o_Key v = key then (s, Inr False)
      else (case marshal r of
              Inl err \<Rightarrow> (s, Inl err)
            | Inr b \<Rightarrow>
                let (i, f) = nextID f
                in save_result io s (f\<lparr>fs_Outbox := fs_Outbox f @ [new_row i key hash b now]\<rparr>) True))"

definition row_due :: "int \<Rightarrow> fileOutbox \<Rightarrow> bool" where
  "row_due now v \<longleftrightarrow> (o_Status v = ''PENDING'' \<or> o_Status v = ''RETRYING'') \<and> o_NextRetry v \<le> now"

record OutboxEvent =
  ev_ID :: int
  ev_Payload :: string
  ev_Attempts :: int

definition event_of :: "fileOutbox \<Rightarrow> OutboxEvent" where
  "event_of v = \<lparr>ev_ID = o_ID v, ev_Payload = o_Payload v, ev_Attempts = o_Attempts v\<rparr>"

text \<open>The loop of \<open>Ready\<close>; \<open>n\<close> is \<open>len(r)\<close>. The limit is looked at after an append.\<close>

fun ready_loop :: "int \<Rightarrow> int \<Rightarrow> int \<Rightarrow> fileOutbox list \<Rightarrow> OutboxEvent list" where
  "ready_loop now limit n [] = []"
| "ready_loop now limit n (v # vs) =
     (if row_due now v
      then event_of v # (if limit \<le> n + 1 then [] else ready_loop now limit (n + 1) vs)
      else ready_loop now limit n vs)"

definition Ready :: "int \<Rightarrow> int \<Rightarrow> Store \<Rightarrow> OutboxEvent list" where
  "Ready now limit s = ready_loop now limit 0 (fs_Outbox (st_mem s))"

definition deliver_row :: "int \<Rightarrow> int \<Rightarrow> string \<Rightarrow> fileOutbox \<Rightarrow> fileOutbox" where
  "deliver_row now status response v =
     v\<lparr>o_Status := ''DELIVERED'', o_HTTPStatus := status, o_LastResponse := response, o_Delivered := now\<rparr>"

text \<open>\<open>for i := range rows { for _, id := range ids { if rows[i].ID == id { rows[i] = g(rows[i]) } } }\<close>.\<close>

definition for_ids :: "int list \<Rightarrow> (fileOutbox \<Rightarrow> fileOutbox) \<Rightarrow> fileOutbox list \<Rightarrow> fileOutbox list" where
  "for_ids ids g rows = map (\<lambda>v. foldl (\<lambda>v i. if o_ID v = i then g v else v) v ids) rows"

definition DeliveredWithResponse ::
  "int \<Rightarrow> string option \<Rightarrow> int list \<Rightarrow> int \<Rightarrow> string \<Rightarrow> Store \<Rightarrow> Store \<times> (string + unit)" where
  "DeliveredWithResponse now io ids status response s =
     (let f = st_mem s in
      save_result io s (f\<lparr>fs_Outbox := for_ids ids (deliver_row now status response) (fs_Outbox f)\<rparr>) ())"

definition Delivered :: "int \<Rightarrow> string option \<Rightarrow> int list \<Rightarrow> Store \<Rightarrow> Store \<times> (string + unit)" where
  "Delivered now io ids s = DeliveredWithResponse now io ids 0 [] s"

text \<open>The next attempt after \<open>1 << min(v.Attempts-1, 8)\<close> seconds, \<open>Attempts\<close> already counted up.\<close>

definition backoff_ms :: "int \<Rightarrow> int" where
  "backoff_ms attempts = 1000 * push_bit (nat (min (attempts - 1) 8)) 1"

definition fail_row :: "int \<Rightarrow> int \<Rightarrow> string \<Rightarrow> bool \<Rightarrow> fileOutbox \<Rightarrow> fileOutbox" where
  "fail_row now status msg retry v0 =
     (let v = v0\<lparr>o_Attempts := o_Attempts v0 + 1, o_HTTPStatus := status, o_LastError := msg,
                 o_LastResponse := msg\<rparr>
      in if retry then v\<lparr>o_Status := ''RETRYING'', o_NextRetry := now + backoff_ms (o_Attempts v)\<rparr>
         else v\<lparr>o_Status := ''DEAD_LETTER''\<rparr>)"

definition Failed ::
  "int \<Rightarrow> string option \<Rightarrow> int list \<Rightarrow> int \<Rightarrow> string \<Rightarrow> bool \<Rightarrow> Store \<Rightarrow> Store \<times> (string + unit)" where
  "Failed now io ids status msg retry s =
     (let f = st_mem s in
      save_result io s (f\<lparr>fs_Outbox := for_ids ids (fail_row now status msg retry) (fs_Outbox f)\<rparr>) ())"

definition log_limit :: "int \<Rightarrow> nat" where
  "log_limit limit = nat (if limit \<le> 0 \<or> 500 < limit then 100 else limit)"

definition delivery_log :: "fileOutbox \<Rightarrow> DeliveryLog" where
  "delivery_log v =
     \<lparr>dl_ID = o_ID v, dl_IdempotencyKey = o_Key v, dl_Status = o_Status v, dl_Attempts = o_Attempts v,
      dl_LastHTTPStatus = o_HTTPStatus v, dl_LastError = o_LastError v, dl_LastResponse = o_LastResponse v,
      dl_CreatedAt = o_Created v, dl_DeliveredAt = o_Delivered v\<rparr>"

definition DeliveryLogs :: "int \<Rightarrow> Store \<Rightarrow> DeliveryLog list" where
  "DeliveryLogs limit s = map delivery_log (take (log_limit limit) (rev (fs_Outbox (st_mem s))))"

definition row_final :: "fileOutbox \<Rightarrow> bool" where
  "row_final v \<longleftrightarrow> o_Status v = ''DELIVERED'' \<or> o_Status v = ''DEAD_LETTER''"

definition ClearDeliveryLogs :: "string option \<Rightarrow> Store \<Rightarrow> Store \<times> (string + int)" where
  "ClearDeliveryLogs io s =
     (let f = st_mem s in
      save_result io s (f\<lparr>fs_Outbox := filter (\<lambda>v. \<not> row_final v) (fs_Outbox f)\<rparr>)
        (int (length (filter row_final (fs_Outbox f)))))"

definition SavePollLog :: "int \<Rightarrow> string option \<Rightarrow> PollLog \<Rightarrow> Store \<Rightarrow> Store \<times> (string + unit)" where
  "SavePollLog now io v s =
     (let (i, f) = (if pl_ID v = 0 then nextID (st_mem s) else (pl_ID v, st_mem s));
          v = v\<lparr>pl_ID := i, pl_CreatedAt := if pl_CreatedAt v = 0 then now else pl_CreatedAt v\<rparr>
      in save_result io s (f\<lparr>fs_PollLogs := fs_PollLogs f @ [v]\<rparr>) ())"

definition PollLogs :: "int \<Rightarrow> int \<Rightarrow> Store \<Rightarrow> PollLog list" where
  "PollLogs cid limit s =
     take (log_limit limit)
       (filter (\<lambda>v. cid = 0 \<or> pl_ConnectionID v = cid) (rev (fs_PollLogs (st_mem s))))"

text \<open>\<open>cutoff\<close> is \<open>time.Now().Add(-ret).UnixMilli()\<close>.\<close>

definition row_expired :: "int \<Rightarrow> fileOutbox \<Rightarrow> bool" where
  "row_expired cutoff v \<longleftrightarrow> o_Status v = ''DELIVERED'' \<and> o_Delivered v < cutoff
     \<or> o_Status v = ''DEAD_LETTER'' \<and> o_Created v < cutoff"

definition CleanupOld :: "int \<Rightarrow> string option \<Rightarrow> Store \<Rightarrow> Store \<times> (string + int)" where
  "CleanupOld cutoff io s =
     (let f = st_mem s;
          n = length (filter (row_expired cutoff) (fs_Outbox f))
              + length (filter (\<lambda>v. pl_CreatedAt v < cutoff) (fs_PollLogs f))
      in save_result io s
           (f\<lparr>fs_Outbox := filter (\<lambda>v. \<not> row_expired cutoff v) (fs_Outbox f),
              fs_PollLogs := filter (\<lambda>v. \<not> pl_CreatedAt v < cutoff) (fs_PollLogs f)\<rparr>) (int n))"

subsection \<open>Rows\<close>

definition row_statuses :: "string set" where
  "row_statuses = {''PENDING'', ''RETRYING'', ''DELIVERED'', ''DEAD_LETTER''}"

text \<open>The invariant of the queue: one row per key and per id, ids below the counter.\<close>

definition outbox_ok :: "fileState \<Rightarrow> bool" where
  "outbox_ok f \<longleftrightarrow>
     distinct (map o_Key (fs_Outbox f)) \<and> distinct (map o_ID (fs_Outbox f))
     \<and> (\<forall>v \<in> set (fs_Outbox f). o_ID v < fs_NextID f \<and> 0 \<le> o_Attempts v \<and> o_Status v \<in> row_statuses)"

text \<open>What a row is about, which nothing changes after it was queued.\<close>

definition row_subject :: "fileOutbox \<Rightarrow> int \<times> string \<times> string \<times> string \<times> int" where
  "row_subject v = (o_ID v, o_Key v, o_Hash v, o_Payload v, o_Created v)"

lemma row_subject_keys: "o_ID v = fst (row_subject v)" "o_Key v = fst (snd (row_subject v))"
  by (simp_all add: row_subject_def)

lemma row_subject_change [simp]:
  "row_subject (deliver_row now status response v) = row_subject v"
  "row_subject (fail_row now status msg retry v) = row_subject v"
  by (simp_all add: row_subject_def deliver_row_def fail_row_def Let_def)

lemma foldl_when_other:
  "o_ID v \<notin> set ids \<Longrightarrow> foldl (\<lambda>v i. if o_ID v = i then g v else v) v ids = v"
  by (induction ids) auto

lemma foldl_when_preserves:
  assumes "\<And>v. P v \<Longrightarrow> P (g v)" and "P v"
  shows "P (foldl (\<lambda>v i. if o_ID v = i then g v else v) v ids)"
  using assms(2) by (induction ids arbitrary: v) (auto intro: assms(1))

lemma foldl_when_subject:
  assumes "\<And>v. row_subject (g v) = row_subject v"
  shows "row_subject (foldl (\<lambda>v i. if o_ID v = i then g v else v) v ids) = row_subject v"
  by (rule foldl_when_preserves [where P = "\<lambda>w. row_subject w = row_subject v"]) (simp_all add: assms)

lemma for_ids_subject:
  assumes "\<And>v. row_subject (g v) = row_subject v"
  shows "map row_subject (for_ids ids g rows) = map row_subject rows"
  by (simp add: for_ids_def foldl_when_subject [OF assms])

lemma map_via_subject:
  assumes "map row_subject xs = map row_subject ys"
  shows "map o_ID xs = map o_ID ys" and "map o_Key xs = map o_Key ys"
proof -
  have "map fst (map row_subject xs) = map fst (map row_subject ys)"
    by (rule arg_cong [OF assms])
  then show "map o_ID xs = map o_ID ys" by (simp add: row_subject_def comp_def)
  have "map (fst \<circ> snd) (map row_subject xs) = map (fst \<circ> snd) (map row_subject ys)"
    by (rule arg_cong [OF assms])
  then show "map o_Key xs = map o_Key ys" by (simp add: row_subject_def comp_def)
qed

lemma deliver_row_good:
  "0 \<le> o_Attempts v \<and> o_Status v \<in> row_statuses \<Longrightarrow>
     0 \<le> o_Attempts (deliver_row now status response v) \<and> o_Status (deliver_row now status response v) \<in> row_statuses"
  by (simp add: deliver_row_def row_statuses_def)

lemma fail_row_good:
  "0 \<le> o_Attempts v \<and> o_Status v \<in> row_statuses \<Longrightarrow>
     0 \<le> o_Attempts (fail_row now status msg retry v) \<and> o_Status (fail_row now status msg retry v) \<in> row_statuses"
  by (simp add: fail_row_def Let_def row_statuses_def)

text \<open>Changing rows in place keeps the invariant; so does dropping rows and raising the counter.\<close>

lemma outbox_ok_for_ids:
  assumes ok: "outbox_ok f" and g: "\<And>v. row_subject (g v) = row_subject v"
    and good: "\<And>v. 0 \<le> o_Attempts v \<and> o_Status v \<in> row_statuses \<Longrightarrow> 0 \<le> o_Attempts (g v) \<and> o_Status (g v) \<in> row_statuses"
  shows "outbox_ok (f\<lparr>fs_Outbox := for_ids ids g (fs_Outbox f)\<rparr>)"
proof -
  note m = map_via_subject [OF for_ids_subject [of g ids "fs_Outbox f", OF g]]
  have "0 \<le> o_Attempts w \<and> o_Status w \<in> row_statuses \<and> o_ID w < fs_NextID f"
    if "w \<in> set (for_ids ids g (fs_Outbox f))" for w
  proof -
    from that obtain v where v: "v \<in> set (fs_Outbox f)"
      and w: "w = foldl (\<lambda>v i. if o_ID v = i then g v else v) v ids"
      by (auto simp: for_ids_def)
    have "o_ID w = o_ID v" using foldl_when_subject [OF g] by (simp add: w row_subject_keys)
    moreover have "0 \<le> o_Attempts w \<and> o_Status w \<in> row_statuses"
      unfolding w using ok v good
      by (intro foldl_when_preserves [where P = "\<lambda>w. 0 \<le> o_Attempts w \<and> o_Status w \<in> row_statuses"])
        (auto simp: outbox_ok_def)
    ultimately show ?thesis using ok v by (simp add: outbox_ok_def)
  qed
  with ok m show ?thesis by (simp add: outbox_ok_def)
qed

lemma outbox_ok_filter: "outbox_ok f \<Longrightarrow> outbox_ok (f\<lparr>fs_Outbox := filter p (fs_Outbox f)\<rparr>)"
  by (auto simp: outbox_ok_def distinct_map_filter)

lemma outbox_ok_other:
  "outbox_ok f \<Longrightarrow> fs_Outbox g = fs_Outbox f \<Longrightarrow> fs_NextID f \<le> fs_NextID g \<Longrightarrow> outbox_ok g"
  by (auto simp: outbox_ok_def)

lemma outbox_ok_append:
  assumes "outbox_ok f" and "\<forall>v \<in> set (fs_Outbox f). o_Key v \<noteq> key"
  shows "outbox_ok (f\<lparr>fs_NextID := fs_NextID f + 1,
      fs_Outbox := fs_Outbox f @ [new_row (fs_NextID f) key hash b now]\<rparr>)"
  using assms by (auto simp: outbox_ok_def new_row_def row_statuses_def)

subsection \<open>Ready: the oldest due rows, up to the limit\<close>

lemma ready_loop_take:
  "ready_loop now limit n vs =
     map event_of (take (nat (max 1 (limit - n))) (filter (row_due now) vs))"
proof (induction vs arbitrary: n)
  case Nil
  then show ?case by simp
next
  case (Cons v vs)
  show ?case
  proof (cases "row_due now v")
    case True
    have "nat (max 1 (limit - n)) = Suc (if limit \<le> n + 1 then 0 else nat (max 1 (limit - (n + 1))))"
      by auto
    with True Cons.IH [of "n + 1"] show ?thesis by simp
  next
    case False
    with Cons.IH [of n] show ?thesis by simp
  qed
qed

lemma Ready_take:
  "Ready now limit s = map event_of (take (nat (max 1 limit)) (filter (row_due now) (fs_Outbox (st_mem s))))"
  by (simp add: Ready_def ready_loop_take)

lemma backoff_range: "1 \<le> attempts \<Longrightarrow> 1000 \<le> backoff_ms attempts \<and> backoff_ms attempts \<le> 256000"
proof -
  assume a: "1 \<le> attempts"
  define k where "k = nat (min (attempts - 1) 8)"
  have "k \<le> 8" by (simp add: k_def)
  then have "(2::int) ^ k \<le> 2 ^ 8" by (intro power_increasing) auto
  moreover have "(1::int) \<le> 2 ^ k" by simp
  ultimately show ?thesis by (simp add: backoff_ms_def push_bit_eq_mult flip: k_def)
qed

subsection \<open>The queue as its client sees it\<close>

text \<open>
  The contract the drain and acknowledge commands rely on: a drain gives ids of due rows, and at least
  one while there is one; acknowledging ids makes exactly those no longer due.
\<close>

locale outbox_queue =
  fixes inv :: "'s \<Rightarrow> bool"
    and due :: "'s \<Rightarrow> int set"
    and drain :: "'s \<Rightarrow> int list"
    and ack :: "int list \<Rightarrow> 's \<Rightarrow> 's"
  assumes due_finite: "inv s \<Longrightarrow> finite (due s)"
    and drain_due: "inv s \<Longrightarrow> set (drain s) \<subseteq> due s"
    and drain_distinct: "inv s \<Longrightarrow> distinct (drain s)"
    and drain_progress: "inv s \<Longrightarrow> due s \<noteq> {} \<Longrightarrow> drain s \<noteq> []"
    and ack_inv: "inv s \<Longrightarrow> inv (ack ids s)"
    and ack_due: "inv s \<Longrightarrow> due (ack ids s) = due s - set ids"

text \<open>The platform's side: drain, store the batch, acknowledge it; \<open>n\<close> times.\<close>

fun drain_cycles :: "('s \<Rightarrow> int list) \<Rightarrow> (int list \<Rightarrow> 's \<Rightarrow> 's) \<Rightarrow> nat \<Rightarrow> 's \<Rightarrow> int list \<times> 's" where
  "drain_cycles drain ack 0 s = ([], s)"
| "drain_cycles drain ack (Suc n) s =
     (let ids = drain s; rest = drain_cycles drain ack n (ack ids s) in (ids @ fst rest, snd rest))"

context outbox_queue
begin

lemma cycles_inv: "inv s \<Longrightarrow> inv (snd (drain_cycles drain ack n s))"
  by (induction n arbitrary: s) (auto simp: Let_def ack_inv)

lemma cycles_due:
  assumes "inv s"
  shows "due (snd (drain_cycles drain ack n s)) = due s - set (fst (drain_cycles drain ack n s))"
    and "set (fst (drain_cycles drain ack n s)) \<subseteq> due s"
    and "distinct (fst (drain_cycles drain ack n s))"
  using assms
proof (induction n arbitrary: s)
  case 0
  {
    case 1 then show ?case by simp
  next
    case 2 then show ?case by simp
  next
    case 3 then show ?case by simp
  }
next
  case (Suc n)
  {
    case 1
    then show ?case
      using Suc.IH(1) [OF ack_inv, of s "drain s"] by (auto simp: Let_def ack_due)
  next
    case 2
    then show ?case
      using Suc.IH(2) [OF ack_inv, of s "drain s"] drain_due [of s] by (auto simp: Let_def ack_due)
  next
    case 3
    then show ?case
      using Suc.IH(2,3) [OF ack_inv, of s "drain s"] drain_distinct [of s]
      by (auto simp: Let_def ack_due)
  }
qed

text \<open>As many cycles as there are due rows empty the queue.\<close>

lemma cycles_empty: "inv s \<Longrightarrow> card (due s) \<le> n \<Longrightarrow> due (snd (drain_cycles drain ack n s)) = {}"
proof (induction n arbitrary: s)
  case 0
  then show ?case using due_finite [of s] by simp
next
  case (Suc n)
  have "card (due (ack (drain s) s)) \<le> n"
  proof (cases "due s = {}")
    case True
    then show ?thesis using Suc.prems(1) by (simp add: ack_due)
  next
    case False
    then have "drain s \<noteq> []" by (rule drain_progress [OF Suc.prems(1)])
    then obtain i where "i \<in> set (drain s)" by (cases "drain s") auto
    with drain_due [OF Suc.prems(1)] have "due s - set (drain s) \<subset> due s" by auto
    with due_finite [OF Suc.prems(1)] have "card (due s - set (drain s)) < card (due s)"
      by (rule psubset_card_mono)
    with Suc.prems show ?thesis by (simp add: ack_due)
  qed
  with Suc.IH ack_inv Suc.prems(1) show ?case by (auto simp: Let_def)
qed

end

subsection \<open>The file store is such a queue\<close>

lemma o_ID_deliver_row [simp]: "o_ID (deliver_row now status response v) = o_ID v"
  by (simp add: deliver_row_def)

lemma for_ids_deliver:
  "for_ids ids (deliver_row now status response) rows =
     map (\<lambda>v. if o_ID v \<in> set ids then deliver_row now status response v else v) rows"
proof -
  have "foldl (\<lambda>v i. if o_ID v = i then deliver_row now status response v else v) v ids
      = (if o_ID v \<in> set ids then deliver_row now status response v else v)" for v
  proof (induction ids arbitrary: v)
    case Nil
    then show ?case by simp
  next
    case (Cons i ids)
    then show ?case by (simp add: deliver_row_def)
  qed
  then show ?thesis by (simp add: for_ids_def)
qed

definition due_ids :: "int \<Rightarrow> Store \<Rightarrow> int set" where
  "due_ids now s = o_ID ` {v \<in> set (fs_Outbox (st_mem s)). row_due now v}"

definition drain_ids :: "int \<Rightarrow> int \<Rightarrow> Store \<Rightarrow> int list" where
  "drain_ids now limit s = map ev_ID (Ready now limit s)"

definition ack_ids :: "int \<Rightarrow> int list \<Rightarrow> Store \<Rightarrow> Store" where
  "ack_ids now ids s = fst (Delivered now None ids s)"

lemma drain_ids_take:
  "drain_ids now limit s =
     take (nat (max 1 limit)) (map o_ID (filter (row_due now) (fs_Outbox (st_mem s))))"
  by (simp add: drain_ids_def Ready_take take_map event_of_def comp_def)

lemma outbox_mem_Delivered:
  "st_mem (fst (DeliveredWithResponse now io ids status response s)) = (st_mem s)\<lparr>fs_Outbox :=
     for_ids ids (deliver_row now status response) (fs_Outbox (st_mem s))\<rparr>"
  by (simp add: DeliveredWithResponse_def Let_def)

interpretation queue: outbox_queue "\<lambda>s. outbox_ok (st_mem s)" "due_ids now" "drain_ids now limit" "ack_ids later"
  for now limit later
proof
  fix s ids
  show "finite (due_ids now s)" by (simp add: due_ids_def)
  assume ok: "outbox_ok (st_mem s)"
  show "set (drain_ids now limit s) \<subseteq> due_ids now s"
    by (auto simp: drain_ids_take due_ids_def dest: in_set_takeD)
  have "distinct (map o_ID (filter (row_due now) (fs_Outbox (st_mem s))))"
    using ok by (simp add: outbox_ok_def distinct_map_filter)
  then show "distinct (drain_ids now limit s)" unfolding drain_ids_take by (rule distinct_take)
  show "drain_ids now limit s \<noteq> []" if "due_ids now s \<noteq> {}"
    using that by (auto simp: drain_ids_take due_ids_def filter_empty_conv)
  show "outbox_ok (st_mem (ack_ids later ids s))"
    using outbox_ok_for_ids [OF ok, of "deliver_row later 0 []" ids]
    by (simp add: ack_ids_def Delivered_def outbox_mem_Delivered deliver_row_good)
  have "row_due now (deliver_row later 0 [] v) = False" for v
    by (simp add: row_due_def deliver_row_def)
  then show "due_ids now (ack_ids later ids s) = due_ids now s - set ids"
    by (auto simp: ack_ids_def Delivered_def outbox_mem_Delivered due_ids_def for_ids_deliver image_iff
        split: if_splits)
qed

subsection \<open>Properties\<close>

text \<open>
  C23: Draining and acknowledging moves everything and nothing twice. From a store whose queue is in
  order, as many drain/acknowledge cycles as there are due rows (fewer suffice when a batch holds more
  than one) leave no due row; the ids handed out are exactly the due ones, each once.
\<close>

theorem drain_cycles_deliver_all:
  assumes "outbox_ok (st_mem s)" and "card (due_ids now s) \<le> n"
  shows "let (ids, s') = drain_cycles (drain_ids now limit) (ack_ids later) n s in
    due_ids now s' = {} \<and> set ids = due_ids now s \<and> distinct ids \<and> outbox_ok (st_mem s')"
proof -
  let ?r = "drain_cycles (drain_ids now limit) (ack_ids later) n s"
  have e: "due_ids now (snd ?r) = {}" using assms by (rule queue.cycles_empty)
  moreover have "set (fst ?r) \<subseteq> due_ids now s" using assms(1) by (rule queue.cycles_due(2))
  moreover have "due_ids now (snd ?r) = due_ids now s - set (fst ?r)"
    using assms(1) by (rule queue.cycles_due(1))
  moreover have "distinct (fst ?r)" using assms(1) by (rule queue.cycles_due(3))
  moreover have "outbox_ok (st_mem (snd ?r))" using assms(1) by (rule queue.cycles_inv)
  ultimately show ?thesis by (auto simp: case_prod_beta)
qed

definition sample_queue :: Store where
  "sample_queue =
     \<lparr>st_mem = zero_fileState\<lparr>fs_NextID := 4,
        fs_Outbox := [new_row 1 ''a'' [] ''x'' 0, new_row 2 ''b'' [] ''y'' 0, new_row 3 ''c'' [] ''z'' 0]\<rparr>,
      st_disk = None\<rparr>"

lemma sample_queue_ok: "outbox_ok (st_mem sample_queue)"
  by (simp add: sample_queue_def outbox_ok_def new_row_def row_statuses_def)

lemma due_ids_filter: "due_ids now s = set (map o_ID (filter (row_due now) (fs_Outbox (st_mem s))))"
  by (auto simp: due_ids_def)

lemma sample_queue_due: "due_ids 9 sample_queue = {1, 2, 3}"
  unfolding due_ids_filter by (simp add: sample_queue_def new_row_def row_due_def)

theorem drain_cycles_deliver_all_witness:
  "let (ids, s') = drain_cycles (drain_ids 9 2) (ack_ids 10) 3 sample_queue in
     due_ids 9 s' = {} \<and> set ids = {1, 2, 3} \<and> distinct ids"
  using drain_cycles_deliver_all [OF sample_queue_ok, of 9 3 2 10] by (auto simp: sample_queue_due)

text \<open>
  \<open>Ready\<close> hands out the due rows in the order they were queued, at most \<open>limit\<close> of them for a
  limit of one or more, and changes nothing.
\<close>

theorem Ready_oldest_due_first:
  "Ready now limit s =
     map event_of (take (nat (max 1 limit)) (filter (row_due now) (fs_Outbox (st_mem s))))"
  by (rule Ready_take)

text \<open>
  A failed row that is to be retried waits between 1 and 256 seconds, twice as long after each
  failure up to the bound, and is not due before; one that is not to be retried is never due again. A
  row whose id is not reported as failed is untouched.
\<close>

theorem Failed_backs_off:
  assumes "outbox_ok (st_mem s)" and "v \<in> set (fs_Outbox (st_mem s))" and "ids = [o_ID v]"
  shows "\<exists>w \<in> set (fs_Outbox (st_mem (fst (Failed now io ids status msg retry s)))).
    row_subject w = row_subject v \<and> o_Attempts w = o_Attempts v + 1
    \<and> (if retry then o_NextRetry w = now + 1000 * 2 ^ nat (min (o_Attempts v) 8)
         \<and> now + 1000 \<le> o_NextRetry w \<and> o_NextRetry w \<le> now + 256000
         \<and> (\<forall>t. row_due t w \<longleftrightarrow> o_NextRetry w \<le> t)
       else (\<forall>t. \<not> row_due t w))"
proof -
  let ?w = "fail_row now status msg retry v"
  have "?w \<in> set (for_ids ids (fail_row now status msg retry) (fs_Outbox (st_mem s)))"
    using assms(2,3) by (force simp: for_ids_def)
  then have "?w \<in> set (fs_Outbox (st_mem (fst (Failed now io ids status msg retry s))))"
    by (simp add: Failed_def Let_def)
  moreover have "1000 \<le> backoff_ms (o_Attempts v + 1) \<and> backoff_ms (o_Attempts v + 1) \<le> 256000"
    using assms(1,2) by (intro backoff_range) (auto simp: outbox_ok_def)
  moreover have "backoff_ms (o_Attempts v + 1) = 1000 * 2 ^ nat (min (o_Attempts v) 8)"
    by (simp add: backoff_ms_def push_bit_eq_mult)
  ultimately show ?thesis
    by (intro bexI [of _ ?w]) (auto simp: fail_row_def row_due_def Let_def row_subject_def)
qed

theorem Failed_backs_off_witness:
  "\<exists>w \<in> set (fs_Outbox (st_mem (fst (Failed 50 None [2] 503 ''busy'' True sample_queue)))).
     o_ID w = 2 \<and> o_Attempts w = 1 \<and> o_NextRetry w = 1050"
proof -
  have "new_row 2 ''b'' [] ''y'' 0 \<in> set (fs_Outbox (st_mem sample_queue))" by (simp add: sample_queue_def)
  then show ?thesis
    using Failed_backs_off [OF sample_queue_ok, of "new_row 2 ''b'' [] ''y'' 0" "[2]" 50 None 503 "''busy''" True]
    by (auto simp: new_row_def row_subject_def)
qed

end
