(* ===== verification/StoreRun.thy ===== *)
theory StoreRun
  imports Outbox
begin

section \<open>The file store as a state machine\<close>

text \<open>
  Every writing operation of the store as one constructor, a step function that runs the operation's
  definition, and the stores reachable from a newly opened one. The lemmas are the invariants of the
  whole machine: an acknowledged change is on disk, queued readings are kept until they are final, and
  keys and ids of the queue stay unique.
\<close>

datatype StoreOp =
    Op_SaveProfile RegisterProfile
  | Op_SaveDevice Device
  | Op_SaveBrand Brand
  | Op_DeleteBrand int
  | Op_SaveDeviceSet DeviceSet
  | Op_DeleteDeviceSet int
  | Op_SaveConnection ConnectionConfig
  | Op_DeleteConnection int
  | Op_SetConnectionEnabled int bool
  | Op_SavePlant Plant
  | Op_DeletePlant int
  | Op_SaveGatewayConfig GatewayConfig
  | Op_Enqueue string string Reading
  | Op_Delivered "int list" int string
  | Op_Failed "int list" int string bool
  | Op_ClearDeliveryLogs
  | Op_SavePollLog PollLog
  | Op_CleanupOld int
  | Op_ApplyConfigSnapshot int ConfigSnapshot

text \<open>What the operations take from outside: the URL parser and the JSON encoder.\<close>

record StoreEnv =
  env_url :: "string \<Rightarrow> (string \<times> string) option"
  env_reading :: "Reading \<Rightarrow> string + string"
  env_snapshot :: "ConfigSnapshot \<Rightarrow> string"

text \<open>The state after a call, and whether it returned an error.\<close>

definition outcome :: "Store \<times> (string + 'a) \<Rightarrow> Store \<times> bool" where
  "outcome r = (fst r, is_ok (snd r))"

fun store_step :: "StoreEnv \<Rightarrow> int \<Rightarrow> string option \<Rightarrow> StoreOp \<Rightarrow> Store \<Rightarrow> Store \<times> bool" where
  "store_step env now io (Op_SaveProfile v) s = outcome (SaveProfile io v s)"
| "store_step env now io (Op_SaveDevice v) s = outcome (SaveDevice io v s)"
| "store_step env now io (Op_SaveBrand v) s = outcome (SaveBrand io v s)"
| "store_step env now io (Op_DeleteBrand i) s = outcome (DeleteBrand io i s)"
| "store_step env now io (Op_SaveDeviceSet v) s = outcome (SaveDeviceSet io v s)"
| "store_step env now io (Op_DeleteDeviceSet i) s = outcome (DeleteDeviceSet io i s)"
| "store_step env now io (Op_SaveConnection v) s = outcome (SaveConnection io v s)"
| "store_step env now io (Op_DeleteConnection i) s = outcome (DeleteConnection io i s)"
| "store_step env now io (Op_SetConnectionEnabled i e) s = outcome (SetConnectionEnabled io i e s)"
| "store_step env now io (Op_SavePlant v) s = outcome (SavePlant io v s)"
| "store_step env now io (Op_DeletePlant i) s = outcome (DeletePlant io i s)"
| "store_step env now io (Op_SaveGatewayConfig v) s = outcome (SaveGatewayConfig (env_url env) io v s)"
| "store_step env now io (Op_Enqueue key hash r) s = outcome (Enqueue (env_reading env) now io key hash r s)"
| "store_step env now io (Op_Delivered ids status response) s =
     outcome (DeliveredWithResponse now io ids status response s)"
| "store_step env now io (Op_Failed ids status msg retry) s = outcome (Failed now io ids status msg retry s)"
| "store_step env now io Op_ClearDeliveryLogs s = outcome (ClearDeliveryLogs io s)"
| "store_step env now io (Op_SavePollLog v) s = outcome (SavePollLog now io v s)"
| "store_step env now io (Op_CleanupOld cutoff) s = outcome (CleanupOld cutoff io s)"
| "store_step env now io (Op_ApplyConfigSnapshot version snap) s =
     outcome (ApplyConfigSnapshot (env_snapshot env) now io version snap s)"

text \<open>
  A store is opened without a file, changed by operations with any clock and any outcome of writing
  the file, and opened again after the process stopped.
\<close>

inductive reachable :: "StoreEnv \<Rightarrow> Store \<Rightarrow> bool" for env where
  fresh: "openNormalized path None = Inr s \<Longrightarrow> reachable env s"
| step: "reachable env s \<Longrightarrow> store_step env now io op s = (s', ok) \<Longrightarrow> reachable env s'"
| restart: "reachable env s \<Longrightarrow> openNormalized path (st_disk s) = Inr s' \<Longrightarrow> reachable env s'"

inductive_cases reachableE: "reachable env s"

lemma outcome_save [simp]:
  "outcome (save_result io s f v) = (\<lparr>st_mem = f, st_disk = (if io = None then Some f else st_disk s)\<rparr>, io = None)"
  by (cases s) (simp add: outcome_def save_result_cases split: option.splits)

lemma outcome_pair [simp]: "outcome (s, r) = (s, is_ok r)"
  by (simp add: outcome_def)

lemma outcome_if: "outcome (if c then x else y) = (if c then outcome x else outcome y)"
  by simp

subsection \<open>What an operation leaves in memory and on disk\<close>

text \<open>
  The three ways a writing operation ends: nothing changed; memory changed and written; memory changed
  and an error returned, the file as it was.
\<close>

definition settled :: "Store \<Rightarrow> Store \<times> bool \<Rightarrow> bool" where
  "settled s r \<longleftrightarrow>
     (if snd r then fst r = s \<or> st_disk (fst r) = Some (st_mem (fst r)) else st_disk (fst r) = st_disk s)"

lemma settled_save [simp]: "settled s (outcome (save_result io s f v))"
  by (simp add: settled_def)

lemma settled_same [simp]: "settled s (s, ok)"
  by (simp add: settled_def)

lemma settled_error [simp]: "settled s (s\<lparr>st_mem := f\<rparr>, False)"
  by (simp add: settled_def)

lemmas store_ops = SaveProfile_def SaveDevice_def SaveBrand_def DeleteBrand_def SaveDeviceSet_def
  DeleteDeviceSet_def SaveConnection_def DeleteConnection_def SetConnectionEnabled_def SavePlant_def
  DeletePlant_def SaveGatewayConfig_def Enqueue_def DeliveredWithResponse_def Failed_def
  ClearDeliveryLogs_def SavePollLog_def CleanupOld_def ApplyConfigSnapshot_def

lemma store_step_settled: "settled s (store_step env now io op s)"
proof (cases op)
  case (Op_SaveDeviceSet v)
  then show ?thesis by (simp add: SaveDeviceSet_def Let_def split: prod.splits sum.splits del: outcome_save)
next
  case (Op_SaveBrand v)
  then show ?thesis by (simp add: SaveBrand_def Let_def split: prod.splits option.splits del: outcome_save)
next
  case (Op_SaveConnection v)
  then show ?thesis by (simp add: SaveConnection_def Let_def split: prod.splits del: outcome_save)
next
  case (Op_Enqueue key hash r)
  then show ?thesis by (simp add: Enqueue_def Let_def split: prod.splits sum.splits del: outcome_save)
next
  case (Op_ApplyConfigSnapshot version snap)
  then show ?thesis by (simp add: ApplyConfigSnapshot_def Let_def split: sum.splits del: outcome_save)
qed (simp_all add: store_ops Let_def outcome_if split: prod.splits del: outcome_save)

subsection \<open>What an operation does to the queue\<close>

text \<open>
  The queue's own transition relation: leave it, append a row under a new key, mark the rows of given
  ids (with a mark that changes neither what a row is about nor leaves the known statuses), or drop
  final rows. Every operation of the store is one of these moves; the first argument are the ids it
  marks.
\<close>

inductive queue_move :: "int list \<Rightarrow> fileState \<Rightarrow> fileState \<Rightarrow> bool" for ids where
  keep: "fs_Outbox g = fs_Outbox f \<Longrightarrow> fs_NextID f \<le> fs_NextID g \<Longrightarrow> queue_move ids f g"
| append: "\<forall>v \<in> set (fs_Outbox f). o_Key v \<noteq> key \<Longrightarrow> fs_NextID g = fs_NextID f + 1 \<Longrightarrow>
     fs_Outbox g = fs_Outbox f @ [new_row (fs_NextID f) key hash b now] \<Longrightarrow> queue_move ids f g"
| mark: "m = deliver_row now status response \<or> m = fail_row now status msg retry \<Longrightarrow>
     fs_NextID g = fs_NextID f \<Longrightarrow> fs_Outbox g = for_ids ids m (fs_Outbox f) \<Longrightarrow> queue_move ids f g"
| drop: "\<forall>v. \<not> row_final v \<longrightarrow> p v \<Longrightarrow> fs_NextID g = fs_NextID f \<Longrightarrow>
     fs_Outbox g = filter p (fs_Outbox f) \<Longrightarrow> queue_move ids f g"

lemma queue_move_refl [simp]: "queue_move ids f f"
  by (rule keep) simp_all

lemma save_addresses_state:
  "save_addresses mode k f as = (f', r) \<Longrightarrow> \<exists>n. fs_NextID f \<le> n \<and> f' = f\<lparr>fs_NextID := n\<rparr>"
proof (induction as arbitrary: f f' r)
  case Nil
  then show ?case by (intro exI [of _ "fs_NextID f"]) simp
next
  case (Cons a as)
  define b where "b = (normalizeAddress a mode)\<lparr>a_DeviceSetID := k\<rparr>"
  define f1 where "f1 = (if a_AddressID b = 0 then f\<lparr>fs_NextID := fs_NextID f + 1\<rparr> else f)"
  show ?case
  proof (cases "validateAddress b mode")
    case (Inl err)
    with Cons.prems have "f' = f" by (simp add: Let_def flip: b_def)
    then show ?thesis by (intro exI [of _ "fs_NextID f"]) simp
  next
    case (Inr u)
    obtain f2 r2 where rec: "save_addresses mode k f1 as = (f2, r2)" by fastforce
    have "fst (save_addresses mode k f (a # as)) = f2"
      using Inr rec
      by (cases "a_AddressID b = 0"; cases r2) (simp_all add: Let_def nextID_def f1_def flip: b_def)
    with Cons.prems have "f' = f2" by simp
    moreover from Cons.IH [OF rec] obtain n where "fs_NextID f1 \<le> n" "f2 = f1\<lparr>fs_NextID := n\<rparr>" by blast
    ultimately show ?thesis by (intro exI [of _ n]) (auto simp: f1_def split: if_splits)
  qed
qed

lemma final_is_expired: "row_expired cutoff v \<Longrightarrow> row_final v"
  by (auto simp: row_expired_def row_final_def)

lemma queue_move_device_set:
  "queue_move ids (st_mem s) (st_mem (fst (SaveDeviceSet io v s)))"
proof -
  let ?v = "normalizeDeviceSet v"
  define i where "i = fst (if ds_DeviceSetID ?v = 0 then nextID (st_mem s) else (ds_DeviceSetID ?v, st_mem s))"
  define f where "f = snd (if ds_DeviceSetID ?v = 0 then nextID (st_mem s) else (ds_DeviceSetID ?v, st_mem s))"
  have if_pair: "(if ds_DeviceSetID ?v = 0 then nextID (st_mem s) else (ds_DeviceSetID ?v, st_mem s)) = (i, f)"
    by (simp add: i_def f_def)
  have f: "fs_Outbox f = fs_Outbox (st_mem s)" "fs_NextID (st_mem s) \<le> fs_NextID f"
    by (simp_all add: f_def nextID_def)
  obtain f' r where sa: "save_addresses (ds_AddressMode ?v) i f (ds_Addresses ?v) = (f', r)" by fastforce
  from save_addresses_state [OF this] f
  have f': "fs_Outbox f' = fs_Outbox (st_mem s)" "fs_NextID (st_mem s) \<le> fs_NextID f'" by auto
  have out: "st_mem (fst (SaveDeviceSet io v s)) = st_mem s
      \<or> st_mem (fst (SaveDeviceSet io v s)) = f'
      \<or> (\<exists>d. st_mem (fst (SaveDeviceSet io v s)) = f'\<lparr>fs_DeviceSets := d\<rparr>)"
    unfolding SaveDeviceSet_def Let_def if_pair by (simp add: sa split: sum.splits) blast
  then show ?thesis using f' by (elim disjE exE) (auto intro!: keep)
qed

definition marked_ids :: "StoreOp \<Rightarrow> int list" where
  "marked_ids op = (case op of Op_Delivered ids _ _ \<Rightarrow> ids | Op_Failed ids _ _ _ \<Rightarrow> ids | _ \<Rightarrow> [])"

lemma store_step_queue: "queue_move (marked_ids op) (st_mem s) (st_mem (fst (store_step env now io op s)))"
proof (cases op)
  case (Op_SaveDeviceSet v)
  then show ?thesis using queue_move_device_set by (simp add: outcome_def)
next
  case (Op_SaveBrand v)
  then show ?thesis
    by (auto simp: SaveBrand_def Let_def nextID_def intro!: keep split: option.splits)
next
  case (Op_Enqueue key hash r)
  then show ?thesis
    by (auto simp: Enqueue_def Let_def nextID_def intro: append split: sum.splits)
next
  case (Op_Delivered ids status response)
  show ?thesis
    by (rule mark [OF disjI1 [OF refl], where now = now and status = status and response = response])
      (simp_all add: marked_ids_def Op_Delivered DeliveredWithResponse_def Let_def)
next
  case (Op_Failed ids status msg retry)
  show ?thesis
    by (rule mark [OF disjI2 [OF refl], where now = now and status = status and msg = msg and retry = retry])
      (simp_all add: marked_ids_def Op_Failed Failed_def Let_def)
next
  case Op_ClearDeliveryLogs
  then show ?thesis
    by (auto simp: ClearDeliveryLogs_def Let_def intro!: drop [where p = "\<lambda>v. \<not> row_final v"])
next
  case (Op_CleanupOld cutoff)
  then show ?thesis
    by (auto simp: CleanupOld_def Let_def dest: final_is_expired intro!: drop [where p = "\<lambda>v. \<not> row_expired cutoff v"])
next
  case (Op_ApplyConfigSnapshot version snap)
  then show ?thesis
    by (auto simp: ApplyConfigSnapshot_def Let_def intro!: keep split: sum.splits)
      (meson order_trans raise_next_ge)+
next
  case (Op_SavePollLog v)
  then show ?thesis by (auto simp: SavePollLog_def Let_def nextID_def intro!: keep split: prod.splits)
qed (auto simp: store_ops Let_def nextID_def outcome_if intro!: keep)

inductive_cases queue_moveE: "queue_move ids f g"

lemma queue_move_ok:
  assumes "queue_move ids f g" and "outbox_ok f" shows "outbox_ok g"
  using assms(1)
proof cases
  case keep
  with assms(2) show ?thesis by (blast intro: outbox_ok_other)
next
  case (append key hash b now)
  have "outbox_ok (f\<lparr>fs_NextID := fs_NextID f + 1,
      fs_Outbox := fs_Outbox f @ [new_row (fs_NextID f) key hash b now]\<rparr>)"
    using assms(2) append(1) by (rule outbox_ok_append)
  then show ?thesis using append(2,3) by (simp add: outbox_ok_def)
next
  case (mark m now status response msg retry)
  have "outbox_ok (f\<lparr>fs_Outbox := for_ids ids m (fs_Outbox f)\<rparr>)"
    using mark(1) deliver_row_good fail_row_good by (intro outbox_ok_for_ids assms(2)) auto
  then show ?thesis using mark(2,3) by (simp add: outbox_ok_def)
next
  case (drop p)
  then show ?thesis using outbox_ok_filter [OF assms(2), of p] by (simp add: outbox_ok_def)
qed

text \<open>A row that is not final and whose id is not marked is still there, as it was.\<close>

lemma queue_move_keeps:
  assumes "queue_move ids f g" and "v \<in> set (fs_Outbox f)" and "\<not> row_final v" and "o_ID v \<notin> set ids"
  shows "v \<in> set (fs_Outbox g)"
  using assms(1)
proof cases
  case (mark m now status response msg retry)
  have "foldl (\<lambda>v i. if o_ID v = i then m v else v) v ids = v"
    using assms(4) by (rule foldl_when_other)
  then show ?thesis using assms(2) mark(3) by (force simp: for_ids_def)
qed (use assms in auto)

text \<open>A marked row keeps what it is about.\<close>

lemma queue_move_subject:
  assumes "queue_move ids f g" and "v \<in> set (fs_Outbox f)" and "\<not> row_final v"
  shows "row_subject v \<in> row_subject ` set (fs_Outbox g)"
  using assms(1)
proof cases
  case (mark m now status response msg retry)
  have "row_subject (m w) = row_subject w" for w using mark(1) by auto
  then have "map row_subject (fs_Outbox g) = map row_subject (fs_Outbox f)"
    using mark(3) for_ids_subject by metis
  then show ?thesis using assms(2) by (metis image_eqI list.set_map)
qed (use assms in auto)

subsection \<open>Reachable stores\<close>

definition store_ok :: "Store \<Rightarrow> bool" where
  "store_ok s \<longleftrightarrow> outbox_ok (st_mem s) \<and> (\<forall>f. st_disk s = Some f \<longrightarrow> outbox_ok f)"

lemma openNormalized_result:
  assumes "openNormalized path disk = Inr s"
  shows "st_disk s = disk"
    and "fs_Outbox (st_mem s) = (case disk of None \<Rightarrow> [] | Some f \<Rightarrow> fs_Outbox f)"
    and "\<And>f. disk = Some f \<Longrightarrow> fs_NextID f \<le> fs_NextID (st_mem s)"
  using assms
  by (auto simp: openNormalized_def Let_def zero_fileState_def json_fileState_def
      split: if_splits option.splits)

lemma store_step_ok: "store_ok s \<Longrightarrow> store_step env now io op s = (s', ok) \<Longrightarrow> store_ok s'"
  using store_step_queue [of op s env now io] store_step_settled [of s env now io op] queue_move_ok
  by (fastforce simp: store_ok_def settled_def split: if_splits)

lemma openNormalized_ok:
  assumes "openNormalized path disk = Inr s" and "\<forall>f. disk = Some f \<longrightarrow> outbox_ok f"
  shows "store_ok s"
proof (cases disk)
  case None
  then show ?thesis using openNormalized_result(1,2) [OF assms(1)] by (simp add: store_ok_def outbox_ok_def)
next
  case (Some f)
  then have "outbox_ok (st_mem s)"
    using openNormalized_result [OF assms(1)] assms(2) by (auto intro: outbox_ok_other)
  then show ?thesis using openNormalized_result(1) [OF assms(1)] assms(2) by (simp add: store_ok_def)
qed

lemma reachable_ok: "reachable env s \<Longrightarrow> store_ok s"
proof (induction rule: reachable.induct)
  case (fresh path s)
  then show ?case by (rule openNormalized_ok) simp
next
  case (step s now io op s' ok)
  then show ?case by (blast intro: store_step_ok)
next
  case (restart s path s')
  then show ?case by (blast intro: openNormalized_ok dest: store_ok_def [THEN iffD1])
qed

subsection \<open>Properties\<close>

text \<open>
  C19: An acknowledged change is durable. Whatever the operation and however writing the file ends, a
  call that returns no error either changed nothing or left the file equal to the memory, so that the
  store opened after a crash has the same queue, brands, connections, plants, history and gateway
  configuration (device sets as their JSON reads back); a call that returns an error left the file as
  it was.
\<close>

theorem acknowledged_change_is_durable:
  "let (s', ok) = store_step env now io op s in
   if ok
   then s' = s \<or>
        (st_disk s' = Some (st_mem s') \<and>
         (case openNormalized path (st_disk s') of
            Inl _ \<Rightarrow> suffix ''.db'' (to_lower path)
          | Inr s'' \<Rightarrow>
              fs_Outbox (st_mem s'') = fs_Outbox (st_mem s') \<and> fs_Brands (st_mem s'') = fs_Brands (st_mem s')
            \<and> fs_Connections (st_mem s'') = fs_Connections (st_mem s') \<and> fs_Plants (st_mem s'') = fs_Plants (st_mem s')
            \<and> fs_History (st_mem s'') = fs_History (st_mem s') \<and> get_gateway_config s'' = get_gateway_config s'
            \<and> fs_DeviceSets (st_mem s'') = map json_DeviceSet (fs_DeviceSets (st_mem s'))))
   else st_disk s' = st_disk s"
  using store_step_settled [of s env now io op]
  by (cases "store_step env now io op s")
    (auto simp: settled_def openNormalized_def json_fileState_def Let_def get_gateway_config_def)


definition sample_env :: StoreEnv where
  "sample_env = \<lparr>env_url = (\<lambda>_. None), env_reading = (\<lambda>_. Inr ''{}''), env_snapshot = (\<lambda>_. [])\<rparr>"

definition sample_reading :: Reading where
  "sample_reading =
     \<lparr>r_GatewayID = ''G'', r_DevDn = ''D'', r_DevName = [], r_PlantCode = ''P'', r_PlantName = [],
      r_DevTypeID = 1, r_Model = [], r_CollectTime = 5, r_RegisterAddressMap = [''40'' \<mapsto> f_one]\<rparr>"

definition sample_store :: Store where
  "sample_store = fst (store_step sample_env 8 None (Op_Enqueue ''k'' ''h'' sample_reading)
     (projr (openNormalized ''s'' None)))"

lemma sample_store_rows: "fs_Outbox (st_mem sample_store) = [new_row 1 ''k'' ''h'' ''{}'' 8]"
  by (simp add: sample_store_def openNormalized_def text_eval suffix_def zero_fileState_def Enqueue_def
      sample_env_def nextID_def)

lemma sample_store_reachable: "reachable sample_env sample_store"
proof -
  have "openNormalized ''s'' None = Inr (projr (openNormalized ''s'' None))"
    by (simp add: openNormalized_def text_eval suffix_def Let_def)
  then have "reachable sample_env (projr (openNormalized ''s'' None))" by (rule fresh)
  then show ?thesis unfolding sample_store_def
    by (rule step) (rule prod.collapse [symmetric])
qed


text \<open>A sequence of operations, each with its clock and the outcome of its write.\<close>

definition run_ops :: "StoreEnv \<Rightarrow> (int \<times> string option \<times> StoreOp) list \<Rightarrow> Store \<Rightarrow> Store" where
  "run_ops env ops s = fold (\<lambda>(now, io, op) s. fst (store_step env now io op s)) ops s"

text \<open>
  C2: No reading is lost before the platform has it. A queued row that is not final is still in the
  queue, unchanged, after any sequence of operations that neither acknowledges nor fails its id,
  whatever else they do and however their writes end; cleaning up and clearing logs included.
\<close>

theorem queued_reading_survives:
  assumes "v \<in> set (fs_Outbox (st_mem s))" and "\<not> row_final v"
    and "\<forall>(now, io, op) \<in> set ops. o_ID v \<notin> set (marked_ids op)"
  shows "v \<in> set (fs_Outbox (st_mem (run_ops env ops s)))"
  using assms(1,3)
proof (induction ops arbitrary: s)
  case Nil
  then show ?case by (simp add: run_ops_def)
next
  case (Cons x ops)
  obtain now io op where x: "x = (now, io, op)" by (cases x)
  have "v \<in> set (fs_Outbox (st_mem (fst (store_step env now io op s))))"
    by (rule queue_move_keeps [OF store_step_queue Cons.prems(1) assms(2)])
      (use Cons.prems(2) in \<open>simp add: x\<close>)
  then show ?case using Cons.IH [of "fst (store_step env now io op s)"] Cons.prems
    by (simp add: run_ops_def x)
qed

theorem queued_reading_survives_witness:
  "new_row 1 ''k'' ''h'' ''{}'' 8 \<in> set (fs_Outbox (st_mem
     (run_ops sample_env [(9, None, Op_Delivered [2] 200 []), (10, Some ''disk full'', Op_ClearDeliveryLogs),
        (11, None, Op_CleanupOld 1000)] sample_store)))"
  by (rule queued_reading_survives)
    (simp_all add: sample_store_rows row_final_def new_row_def marked_ids_def)

end
