(* ===== verification/SqliteQueue.thy ===== *)
theory SqliteQueue
  imports StoreRun
begin

section \<open>internal/store/sqlite.go: the queue and the logs in SQLite\<close>

text \<open>
  Every build but the MIPS one keeps its store in SQLite: \<open>sqlite.go\<close>, \<open>delivery_logs.go\<close>, \<open>poll_logs.go\<close>,
  \<open>cleanup.go\<close>. The operations are those of \<open>Outbox\<close> under the names with \<open>sql_\<close>. A table is the list of its rows
  in the order of insertion, \<open>AUTOINCREMENT\<close> a counter that only grows. \<open>io n\<close> is the error of the \<open>n\<close>-th statement
  of a call; what earlier statements of a call without a transaction did stays. The clock stands still
  during a call, milliseconds are its unit.
\<close>

record SqlOutbox =
  so_ID :: int
  so_Key :: string
  so_Hash :: string
  so_Payload :: string
  so_Status :: string
  so_Attempts :: int
  so_NextRetry :: int
  so_HTTPStatus :: "int option"
  so_LastError :: "string option"
  so_LastResponse :: "string option"
  so_Created :: int
  so_Delivered :: "int option"

record SqlQueue =
  sq_Rows :: "SqlOutbox list"
  sq_Seq :: int
  sq_PollLogs :: "PollLog list"
  sq_PollSeq :: int

definition empty_queue :: SqlQueue where
  "empty_queue = \<lparr>sq_Rows = [], sq_Seq = 0, sq_PollLogs = [], sq_PollSeq = 0\<rparr>"

type_synonym Statements = "nat \<Rightarrow> string option"

subsection \<open>The queue\<close>

definition sql_row :: "int \<Rightarrow> string \<Rightarrow> string \<Rightarrow> string \<Rightarrow> int \<Rightarrow> SqlOutbox" where
  "sql_row i key hash payload now =
     \<lparr>so_ID = i, so_Key = key, so_Hash = hash, so_Payload = payload, so_Status = ''PENDING'', so_Attempts = 0,
      so_NextRetry = 0, so_HTTPStatus = None, so_LastError = None, so_LastResponse = None, so_Created = now,
      so_Delivered = None\<rparr>"

text \<open>\<open>INSERT OR IGNORE\<close>: a key that is there already is no error and inserts nothing, the counter has moved on all the same.\<close>

definition sql_Enqueue ::
  "(Reading \<Rightarrow> string + string) \<Rightarrow> int \<Rightarrow> Statements \<Rightarrow> string \<Rightarrow> string \<Rightarrow> Reading \<Rightarrow> SqlQueue \<Rightarrow>
     SqlQueue \<times> (string + bool)" where
  "sql_Enqueue marshal now io key hash r q =
     (case marshal r of
        Inl err \<Rightarrow> (q, Inl err)
      | Inr b \<Rightarrow>
     (case io 0 of
        Some err \<Rightarrow> (q, Inl err)
      | None \<Rightarrow>
          if \<exists>v \<in> set (sq_Rows q). so_Key v = key then (q\<lparr>sq_Seq := sq_Seq q + 1\<rparr>, Inr False)
          else (q\<lparr>sq_Rows := sq_Rows q @ [sql_row (sq_Seq q + 1) key hash b now], sq_Seq := sq_Seq q + 1\<rparr>, Inr True)))"

definition sql_due :: "int \<Rightarrow> SqlOutbox \<Rightarrow> bool" where
  "sql_due now v \<longleftrightarrow> (so_Status v = ''PENDING'' \<or> so_Status v = ''RETRYING'') \<and> so_NextRetry v \<le> now"

definition sql_event :: "SqlOutbox \<Rightarrow> OutboxEvent" where
  "sql_event v = \<lparr>ev_ID = so_ID v, ev_Payload = so_Payload v, ev_Attempts = so_Attempts v\<rparr>"

text \<open>\<open>LIMIT n\<close>: a negative limit is none.\<close>

definition sql_limit :: "int \<Rightarrow> 'a list \<Rightarrow> 'a list" where
  "sql_limit limit xs = (if limit < 0 then xs else take (nat limit) xs)"

definition sql_Ready :: "int \<Rightarrow> int \<Rightarrow> Statements \<Rightarrow> SqlQueue \<Rightarrow> string + OutboxEvent list" where
  "sql_Ready now limit io q =
     (case io 0 of
        Some err \<Rightarrow> Inl err
      | None \<Rightarrow> Inr (map sql_event (sql_limit limit (sort_key so_ID (filter (sql_due now) (sq_Rows q))))))"

text \<open>\<open>for _, id := range ids { if err := ...; err != nil { return err } }\<close>; \<open>n\<close> counts the turns.\<close>

fun sql_for_ids ::
  "(nat \<Rightarrow> int \<Rightarrow> SqlQueue \<Rightarrow> string + SqlQueue) \<Rightarrow> nat \<Rightarrow> int list \<Rightarrow> SqlQueue \<Rightarrow> SqlQueue \<times> (string + unit)" where
  "sql_for_ids f n [] q = (q, Inr ())"
| "sql_for_ids f n (i # ids) q =
     (case f n i q of
        Inl err \<Rightarrow> (q, Inl err)
      | Inr q' \<Rightarrow> sql_for_ids f (Suc n) ids q')"

definition on_row :: "int \<Rightarrow> (SqlOutbox \<Rightarrow> SqlOutbox) \<Rightarrow> SqlQueue \<Rightarrow> SqlQueue" where
  "on_row i g q = q\<lparr>sq_Rows := update_where (\<lambda>v. so_ID v = i) g (sq_Rows q)\<rparr>"

definition sql_deliver_row :: "int \<Rightarrow> int \<Rightarrow> string \<Rightarrow> SqlOutbox \<Rightarrow> SqlOutbox" where
  "sql_deliver_row now status response v =
     v\<lparr>so_Status := ''DELIVERED'', so_Delivered := Some now, so_HTTPStatus := Some status, so_LastError := Some [],
       so_LastResponse := Some response\<rparr>"

definition sql_DeliveredWithResponse ::
  "int \<Rightarrow> Statements \<Rightarrow> int list \<Rightarrow> int \<Rightarrow> string \<Rightarrow> SqlQueue \<Rightarrow> SqlQueue \<times> (string + unit)" where
  "sql_DeliveredWithResponse now io ids status response q =
     sql_for_ids (\<lambda>n i q. case io n of
         Some err \<Rightarrow> Inl err
       | None \<Rightarrow> Inr (on_row i (sql_deliver_row now status response) q)) 0 ids q"

definition sql_Delivered :: "int \<Rightarrow> Statements \<Rightarrow> int list \<Rightarrow> SqlQueue \<Rightarrow> SqlQueue \<times> (string + unit)" where
  "sql_Delivered now io ids q = sql_DeliveredWithResponse now io ids 0 [] q"

text \<open>
  \<open>Failed\<close>: two statements a turn when the row is to be retried, the first reads the attempts and its error
  is dropped.
\<close>

definition sql_attempts :: "Statements \<Rightarrow> nat \<Rightarrow> int \<Rightarrow> SqlQueue \<Rightarrow> int" where
  "sql_attempts io n i q =
     (case io (2 * n) of
        Some _ \<Rightarrow> 0
      | None \<Rightarrow> (case find (\<lambda>v. so_ID v = i) (sq_Rows q) of None \<Rightarrow> 0 | Some v \<Rightarrow> so_Attempts v))"

definition sql_fail_row :: "int \<Rightarrow> int \<Rightarrow> string \<Rightarrow> bool \<Rightarrow> int \<Rightarrow> SqlOutbox \<Rightarrow> SqlOutbox" where
  "sql_fail_row now status msg retry attempts v =
     v\<lparr>so_Status := if retry then ''RETRYING'' else ''DEAD_LETTER'', so_Attempts := so_Attempts v + 1,
       so_NextRetry := if retry then now + 1000 * push_bit (nat (min attempts 8)) 1 else 0,
       so_HTTPStatus := Some status, so_LastError := Some msg, so_LastResponse := Some msg\<rparr>"

definition sql_Failed ::
  "int \<Rightarrow> Statements \<Rightarrow> int list \<Rightarrow> int \<Rightarrow> string \<Rightarrow> bool \<Rightarrow> SqlQueue \<Rightarrow> SqlQueue \<times> (string + unit)" where
  "sql_Failed now io ids status msg retry q =
     sql_for_ids (\<lambda>n i q. case io (2 * n + 1) of
         Some err \<Rightarrow> Inl err
       | None \<Rightarrow> Inr (on_row i (sql_fail_row now status msg retry (sql_attempts io n i q)) q)) 0 ids q"

subsection \<open>The logs and the retention\<close>

definition sql_log_limit :: "int \<Rightarrow> nat" where
  "sql_log_limit limit = nat (if limit < 1 \<or> 500 < limit then 100 else limit)"

definition sql_delivery_log :: "SqlOutbox \<Rightarrow> DeliveryLog" where
  "sql_delivery_log v =
     \<lparr>dl_ID = so_ID v, dl_IdempotencyKey = so_Key v, dl_Status = so_Status v, dl_Attempts = so_Attempts v,
      dl_LastHTTPStatus = (case so_HTTPStatus v of None \<Rightarrow> 0 | Some s \<Rightarrow> s),
      dl_LastError = (case so_LastError v of None \<Rightarrow> [] | Some s \<Rightarrow> s),
      dl_LastResponse = (case so_LastResponse v of None \<Rightarrow> [] | Some s \<Rightarrow> s),
      dl_CreatedAt = so_Created v, dl_DeliveredAt = (case so_Delivered v of None \<Rightarrow> 0 | Some s \<Rightarrow> s)\<rparr>"

definition sql_DeliveryLogs :: "int \<Rightarrow> Statements \<Rightarrow> SqlQueue \<Rightarrow> string + DeliveryLog list" where
  "sql_DeliveryLogs limit io q =
     (case io 0 of
        Some err \<Rightarrow> Inl err
      | None \<Rightarrow> Inr (map sql_delivery_log (take (sql_log_limit limit) (sort_key (\<lambda>v. - so_ID v) (sq_Rows q)))))"

definition sql_final :: "SqlOutbox \<Rightarrow> bool" where
  "sql_final v \<longleftrightarrow> so_Status v = ''DELIVERED'' \<or> so_Status v = ''DEAD_LETTER''"

definition sql_ClearDeliveryLogs :: "Statements \<Rightarrow> SqlQueue \<Rightarrow> SqlQueue \<times> (string + int)" where
  "sql_ClearDeliveryLogs io q =
     (case io 0 of
        Some err \<Rightarrow> (q, Inl err)
      | None \<Rightarrow> (q\<lparr>sq_Rows := filter (\<lambda>v. \<not> sql_final v) (sq_Rows q)\<rparr>, Inr (int (length (filter sql_final (sq_Rows q))))))"

text \<open>Statement 0 is \<open>ensurePollLogs\<close>. The id of a log is the counter's, whatever \<open>v.ID\<close> is.\<close>

definition sql_SavePollLog :: "int \<Rightarrow> Statements \<Rightarrow> PollLog \<Rightarrow> SqlQueue \<Rightarrow> SqlQueue \<times> (string + unit)" where
  "sql_SavePollLog now io v q =
     (case io 0 of
        Some err \<Rightarrow> (q, Inl err)
      | None \<Rightarrow>
     (case io 1 of
        Some err \<Rightarrow> (q, Inl err)
      | None \<Rightarrow>
          let i = sq_PollSeq q + 1;
              v = v\<lparr>pl_ID := i, pl_CreatedAt := if pl_CreatedAt v = 0 then now else pl_CreatedAt v\<rparr>
          in (q\<lparr>sq_PollLogs := sq_PollLogs q @ [v], sq_PollSeq := i\<rparr>, Inr ())))"

text \<open>\<open>newest\<close> is \<open>ORDER BY created_at DESC\<close>; the order of two logs of one millisecond is not specified.\<close>

definition sql_PollLogs ::
  "(PollLog list \<Rightarrow> PollLog list) \<Rightarrow> int \<Rightarrow> int \<Rightarrow> Statements \<Rightarrow> SqlQueue \<Rightarrow> string + PollLog list" where
  "sql_PollLogs newest cid limit io q =
     (case io 0 of
        Some err \<Rightarrow> Inl err
      | None \<Rightarrow>
     (case io 1 of
        Some err \<Rightarrow> Inl err
      | None \<Rightarrow> Inr (take (sql_log_limit limit) (newest (filter (\<lambda>v. pl_ConnectionID v = cid) (sq_PollLogs q))))))"

text \<open>One \<open>DELETE\<close> of the queue.\<close>

definition sql_delete :: "(SqlOutbox \<Rightarrow> bool) \<Rightarrow> SqlQueue \<Rightarrow> SqlQueue \<times> int" where
  "sql_delete gone q =
     (q\<lparr>sq_Rows := filter (\<lambda>v. \<not> gone v) (sq_Rows q)\<rparr>, int (length (filter gone (sq_Rows q))))"

definition sql_CleanupOld :: "int \<Rightarrow> int \<Rightarrow> Statements \<Rightarrow> SqlQueue \<Rightarrow> SqlQueue \<times> (string + int)" where
  "sql_CleanupOld now retention io q =
     (let cutoff = now - retention in
      if retention \<le> 0 then (q, Inr 0)
      else (case io 0 of
        Some err \<Rightarrow> (q, Inl err)
      | None \<Rightarrow>
          let (q, n) = sql_delete (\<lambda>v. so_Status v = ''DELIVERED''
                          \<and> (case so_Delivered v of None \<Rightarrow> so_Created v | Some d \<Rightarrow> d) < cutoff) q in
          (case io 1 of
             Some err \<Rightarrow> (q, Inl err)
           | None \<Rightarrow>
               let (q, m) = sql_delete (\<lambda>v. so_Status v = ''DEAD_LETTER'' \<and> so_Created v < cutoff) q in
               (case io 2 of
                  Some err \<Rightarrow> (q, Inl err)
                | None \<Rightarrow>
                    (case io 3 of
                       Some err \<Rightarrow> (q, Inl err)
                     | None \<Rightarrow>
                         (q\<lparr>sq_PollLogs := filter (\<lambda>v. \<not> pl_CreatedAt v < cutoff) (sq_PollLogs q)\<rparr>,
                          Inr (n + m + int (length (filter (\<lambda>v. pl_CreatedAt v < cutoff) (sq_PollLogs q))))))))))"

subsection \<open>The table in order\<close>

definition sql_ok :: "SqlQueue \<Rightarrow> bool" where
  "sql_ok q \<longleftrightarrow>
     sorted_wrt (<) (map so_ID (sq_Rows q)) \<and> (\<forall>v \<in> set (sq_Rows q). so_ID v \<le> sq_Seq q)
     \<and> distinct (map so_Key (sq_Rows q)) \<and> (\<forall>v \<in> set (sq_Rows q). 0 \<le> so_Attempts v)"

lemma sql_ok_distinct: "sql_ok q \<Longrightarrow> distinct (map so_ID (sq_Rows q))"
  by (auto simp: sql_ok_def strict_sorted_iff)

lemma filter_key:
  assumes "distinct (map f xs)"
  shows "filter (\<lambda>x. f x = k) xs = (case find (\<lambda>x. f x = k) xs of None \<Rightarrow> [] | Some x \<Rightarrow> [x])"
  using assms
proof (induction xs)
  case (Cons a xs)
  have "filter (\<lambda>x. f x = f a) xs = []" using Cons.prems by (auto simp: filter_empty_conv image_iff)
  with Cons show ?case by auto
qed simp

lemma sort_key_rev:
  assumes "sorted_wrt (<) (map (k :: 'a \<Rightarrow> int) xs)"
  shows "sort_key (\<lambda>v. - k v) xs = rev xs"
proof (rule properties_for_sort_key)
  have "distinct (map k xs)" using assms by (simp add: strict_sorted_iff)
  then have same: "filter (\<lambda>x. k x = i) (rev xs) = filter (\<lambda>x. k x = i) xs" for i
    unfolding rev_filter [symmetric] by (simp add: filter_key split: option.split)
  show "filter (\<lambda>x. - k y = - k x) (rev xs) = filter (\<lambda>x. - k y = - k x) xs" for y
    using same [of "k y"] by (simp add: eq_commute [of "k y"])
  show "sorted (map (\<lambda>v. - k v) (rev xs))"
    using assms by (induction xs) (auto simp: sorted_append)
qed simp

lemma sorted_filter_ids: "sorted_wrt (<) (map (k :: 'a \<Rightarrow> int) xs) \<Longrightarrow> sorted_wrt (<) (map k (filter p xs))"
  by (induction xs) auto

text \<open>\<open>ORDER BY id\<close> is the order of the rows, \<open>ORDER BY id DESC\<close> the reverse.\<close>

lemma ordered_by_id:
  assumes "sql_ok q"
  shows "sort_key so_ID (filter p (sq_Rows q)) = filter p (sq_Rows q)"
    and "sort_key (\<lambda>v. - so_ID v) (sq_Rows q) = rev (sq_Rows q)"
proof -
  have sorted: "sorted_wrt (<) (map so_ID (sq_Rows q))" using assms by (simp add: sql_ok_def)
  then show "sort_key so_ID (filter p (sq_Rows q)) = filter p (sq_Rows q)"
    using sorted_filter_ids [OF sorted, of p] by (intro sort_key_id_if_sorted) (simp add: strict_sorted_iff)
  show "sort_key (\<lambda>v. - so_ID v) (sq_Rows q) = rev (sq_Rows q)" by (rule sort_key_rev [OF sorted])
qed

text \<open>A loop of statements that all succeed changes every row as the loop of the file store does.\<close>

definition sql_rows_for :: "int list \<Rightarrow> (SqlOutbox \<Rightarrow> SqlOutbox) \<Rightarrow> SqlOutbox list \<Rightarrow> SqlOutbox list" where
  "sql_rows_for ids g rows = map (\<lambda>v. foldl (\<lambda>v i. if so_ID v = i then g v else v) v ids) rows"

lemma sql_rows_for_Cons: "sql_rows_for (i # ids) g rows = sql_rows_for ids g (update_where (\<lambda>v. so_ID v = i) g rows)"
  by (simp add: sql_rows_for_def update_where_def)

lemma sql_for_ids_done:
  assumes "\<And>n i q. P q \<Longrightarrow> f n i q = Inr (on_row i g q) \<and> P (on_row i g q)" and "P q"
  shows "sql_for_ids f n ids q = (q\<lparr>sq_Rows := sql_rows_for ids g (sq_Rows q)\<rparr>, Inr ())"
  using assms(2)
proof (induction ids arbitrary: n q)
  case (Cons i ids)
  then show ?case using assms(1) [of q n i] by (simp add: sql_rows_for_Cons) (simp add: on_row_def)
qed (simp add: sql_rows_for_def)

text \<open>Rows named by a key of their own: naming them by id comes to the same.\<close>

definition ids_of :: "('r \<Rightarrow> int) \<Rightarrow> ('r \<Rightarrow> string) \<Rightarrow> 'r list \<Rightarrow> string list \<Rightarrow> int list" where
  "ids_of idf keyf rows keys = concat (map (\<lambda>k. map idf (filter (\<lambda>v. keyf v = k) rows)) keys)"

lemma foldl_by_keys:
  assumes "distinct (map idf rows)" and "distinct (map keyf rows)" and "v0 \<in> set rows"
    and g: "\<And>v. idf (g v) = idf v \<and> keyf (g v) = keyf v" and "idf v = idf v0 \<and> keyf v = keyf v0"
  shows "foldl (\<lambda>v i. if idf v = i then g v else v) v (ids_of idf keyf rows keys)
       = foldl (\<lambda>v k. if keyf v = k then g v else v) v keys"
  using assms(5)
proof (induction keys arbitrary: v)
  case (Cons k keys)
  have "foldl (\<lambda>v i. if idf v = i then g v else v) v (map idf (filter (\<lambda>v. keyf v = k) rows)) = (if keyf v = k then g v else v)"
  proof (cases "find (\<lambda>v. keyf v = k) rows")
    case None
    then have "keyf v0 \<noteq> k" using assms(3) by (auto simp: find_None_iff)
    then show ?thesis using None Cons.prems by (simp add: filter_key [OF assms(2)])
  next
    case (Some r)
    then have r: "r \<in> set rows" "keyf r = k" by (auto simp: find_Some_iff)
    then have "idf v0 = idf r \<longleftrightarrow> keyf v0 = k"
      using assms(1-3) by (auto simp: distinct_map dest: inj_onD)
    then show ?thesis using Some Cons.prems by (simp add: filter_key [OF assms(2)])
  qed
  then show ?case using Cons g by (simp add: ids_of_def)
qed (simp add: ids_of_def)

subsection \<open>The two stores hold the same queue\<close>

definition same_row :: "fileOutbox \<Rightarrow> SqlOutbox \<Rightarrow> bool" where
  "same_row v w \<longleftrightarrow>
     o_Key v = so_Key w \<and> o_Hash v = so_Hash w \<and> o_Payload v = so_Payload w \<and> o_Status v = so_Status w
     \<and> o_Attempts v = so_Attempts w \<and> o_Created v = so_Created w
     \<and> (o_Status v = ''PENDING'' \<or> o_Status v = ''RETRYING'' \<longrightarrow> o_NextRetry v = so_NextRetry w)
     \<and> o_HTTPStatus v = (case so_HTTPStatus w of None \<Rightarrow> 0 | Some s \<Rightarrow> s)
     \<and> o_LastResponse v = (case so_LastResponse w of None \<Rightarrow> [] | Some s \<Rightarrow> s)
     \<and> o_Delivered v = (case so_Delivered w of None \<Rightarrow> 0 | Some s \<Rightarrow> s)
     \<and> (o_Status v = ''DELIVERED'' \<longrightarrow> so_Delivered w \<noteq> None)
     \<and> (o_Status v \<noteq> ''DELIVERED'' \<longrightarrow> o_LastError v = (case so_LastError w of None \<Rightarrow> [] | Some s \<Rightarrow> s))"

definition same_poll :: "PollLog \<Rightarrow> PollLog \<Rightarrow> bool" where
  "same_poll v w \<longleftrightarrow> v\<lparr>pl_ID := 0\<rparr> = w\<lparr>pl_ID := 0\<rparr>"

definition same_queue :: "fileState \<Rightarrow> SqlQueue \<Rightarrow> bool" where
  "same_queue f q \<longleftrightarrow>
     outbox_ok f \<and> sql_ok q \<and> list_all2 same_row (fs_Outbox f) (sq_Rows q) \<and> list_all2 same_poll (fs_PollLogs f) (sq_PollLogs q)"

text \<open>
  A client of the queue names a row by its idempotency key, which both stores keep; the ids are those of the
  store it talks to. What it sees of a log is everything but the id and the last error.
\<close>

datatype QueueOp =
    Q_Enqueue string string Reading
  | Q_Ready int
  | Q_Delivered "string list" int string
  | Q_Failed "string list" int string bool
  | Q_DeliveryLogs int
  | Q_ClearDeliveryLogs
  | Q_SavePollLog PollLog
  | Q_CleanupOld int

datatype QueueReply =
    R_Done
  | R_Bool bool
  | R_Count int
  | R_Events "(string \<times> int) list"
  | R_Logs "DeliveryLog list"
  | R_Error string

definition seen_event :: "OutboxEvent \<Rightarrow> string \<times> int" where
  "seen_event e = (ev_Payload e, ev_Attempts e)"

definition seen_log :: "DeliveryLog \<Rightarrow> DeliveryLog" where
  "seen_log l = l\<lparr>dl_ID := 0, dl_LastError := []\<rparr>"

definition reply :: "('a \<Rightarrow> QueueReply) \<Rightarrow> 's \<times> (string + 'a) \<Rightarrow> 's \<times> QueueReply" where
  "reply f r = (fst r, case snd r of Inl err \<Rightarrow> R_Error err | Inr v \<Rightarrow> f v)"

fun file_op :: "(Reading \<Rightarrow> string + string) \<Rightarrow> int \<Rightarrow> QueueOp \<Rightarrow> Store \<Rightarrow> Store \<times> QueueReply" where
  "file_op marshal now (Q_Enqueue key hash r) s = reply R_Bool (Enqueue marshal now None key hash r s)"
| "file_op marshal now (Q_Ready limit) s = (s, R_Events (map seen_event (Ready now limit s)))"
| "file_op marshal now (Q_Delivered keys status response) s =
     reply (\<lambda>_. R_Done) (DeliveredWithResponse now None (ids_of o_ID o_Key (fs_Outbox (st_mem s)) keys) status response s)"
| "file_op marshal now (Q_Failed keys status msg retry) s =
     reply (\<lambda>_. R_Done) (Failed now None (ids_of o_ID o_Key (fs_Outbox (st_mem s)) keys) status msg retry s)"
| "file_op marshal now (Q_DeliveryLogs limit) s = (s, R_Logs (map seen_log (DeliveryLogs limit s)))"
| "file_op marshal now Q_ClearDeliveryLogs s = reply R_Count (ClearDeliveryLogs None s)"
| "file_op marshal now (Q_SavePollLog v) s = reply (\<lambda>_. R_Done) (SavePollLog now None v s)"
| "file_op marshal now (Q_CleanupOld retention) s = reply R_Count (CleanupOld (now - retention) None s)"

fun sql_op :: "(Reading \<Rightarrow> string + string) \<Rightarrow> int \<Rightarrow> QueueOp \<Rightarrow> SqlQueue \<Rightarrow> SqlQueue \<times> QueueReply" where
  "sql_op marshal now (Q_Enqueue key hash r) q = reply R_Bool (sql_Enqueue marshal now Map.empty key hash r q)"
| "sql_op marshal now (Q_Ready limit) q =
     reply (R_Events \<circ> map seen_event) (q, sql_Ready now limit Map.empty q)"
| "sql_op marshal now (Q_Delivered keys status response) q =
     reply (\<lambda>_. R_Done) (sql_DeliveredWithResponse now Map.empty (ids_of so_ID so_Key (sq_Rows q) keys) status response q)"
| "sql_op marshal now (Q_Failed keys status msg retry) q =
     reply (\<lambda>_. R_Done) (sql_Failed now Map.empty (ids_of so_ID so_Key (sq_Rows q) keys) status msg retry q)"
| "sql_op marshal now (Q_DeliveryLogs limit) q =
     reply (R_Logs \<circ> map seen_log) (q, sql_DeliveryLogs limit Map.empty q)"
| "sql_op marshal now Q_ClearDeliveryLogs q = reply R_Count (sql_ClearDeliveryLogs Map.empty q)"
| "sql_op marshal now (Q_SavePollLog v) q = reply (\<lambda>_. R_Done) (sql_SavePollLog now Map.empty v q)"
| "sql_op marshal now (Q_CleanupOld retention) q = reply R_Count (sql_CleanupOld now retention Map.empty q)"

text \<open>
  What the callers in the gateway ask for: a reading that can be marshalled, a drain of at least one row, a retention
  of at least a moment.
\<close>

fun asked :: "(Reading \<Rightarrow> string + string) \<Rightarrow> QueueOp \<Rightarrow> bool" where
  "asked marshal (Q_Enqueue key hash r) \<longleftrightarrow> (\<exists>b. marshal r = Inr b)"
| "asked marshal (Q_Ready limit) \<longleftrightarrow> 1 \<le> limit"
| "asked marshal (Q_CleanupOld retention) \<longleftrightarrow> 0 < retention"
| "asked marshal _ \<longleftrightarrow> True"

fun queue_replies :: "(int \<Rightarrow> QueueOp \<Rightarrow> 's \<Rightarrow> 's \<times> QueueReply) \<Rightarrow> (int \<times> QueueOp) list \<Rightarrow> 's \<Rightarrow> QueueReply list" where
  "queue_replies f [] s = []"
| "queue_replies f ((now, op) # calls) s = (let (s, r) = f now op s in r # queue_replies f calls s)"

lemma list_all2_filter_same:
  assumes "list_all2 R xs ys" and "\<And>x y. R x y \<Longrightarrow> p x \<longleftrightarrow> r y"
  shows "list_all2 R (filter p xs) (filter r ys)"
  using assms by (induction rule: list_all2_induct) auto

lemma list_all2_map_same:
  assumes "list_all2 R xs ys" and "\<And>x y. R x y \<Longrightarrow> f x = g y"
  shows "map f xs = map g ys"
  using assms by (induction rule: list_all2_induct) auto

lemma same_row_deliver: "same_row v w \<Longrightarrow> same_row (deliver_row now status response v) (sql_deliver_row now status response w)"
  by (auto simp: same_row_def deliver_row_def sql_deliver_row_def)

lemma same_row_fail:
  assumes "same_row v w"
  shows "same_row (fail_row now status msg retry v) (sql_fail_row now status msg retry (so_Attempts w) w)"
  using assms by (auto simp: same_row_def fail_row_def sql_fail_row_def backoff_ms_def Let_def)

text \<open>\<open>Failed\<close> computes the wait from the attempts of the row it changes.\<close>

definition sql_fail :: "int \<Rightarrow> int \<Rightarrow> string \<Rightarrow> bool \<Rightarrow> SqlOutbox \<Rightarrow> SqlOutbox" where
  "sql_fail now status msg retry v = sql_fail_row now status msg retry (so_Attempts v) v"

lemma on_row_keys:
  assumes "\<And>v. so_ID (g v) = so_ID v \<and> so_Key (g v) = so_Key v"
  shows "map so_ID (sq_Rows (on_row i g q)) = map so_ID (sq_Rows q)" "map so_Key (sq_Rows (on_row i g q)) = map so_Key (sq_Rows q)"
  using assms by (simp_all add: on_row_def update_where_map)

lemma sql_failed_on_row:
  assumes "distinct (map so_ID (sq_Rows q))"
  shows "on_row i (sql_fail_row now status msg retry (sql_attempts Map.empty n i q)) q = on_row i (sql_fail now status msg retry) q"
proof -
  have "so_Attempts v = sql_attempts Map.empty n i q" if v: "v \<in> set (sq_Rows q)" "so_ID v = i" for v
  proof -
    obtain x where x: "find (\<lambda>v. so_ID v = i) (sq_Rows q) = Some x"
      using v by (cases "find (\<lambda>v. so_ID v = i) (sq_Rows q)") (auto simp: find_None_iff)
    then have "x \<in> set (sq_Rows q)" "so_ID x = so_ID v" using v(2) by (auto simp: find_Some_iff)
    then have "x = v" using assms v(1) by (auto simp: distinct_map dest: inj_onD)
    then show ?thesis by (simp add: sql_attempts_def x)
  qed
  then show ?thesis by (auto simp: on_row_def update_where_def sql_fail_def)
qed

lemma sql_delivered_rows:
  "sql_DeliveredWithResponse now Map.empty ids status response q
     = (q\<lparr>sq_Rows := sql_rows_for ids (sql_deliver_row now status response) (sq_Rows q)\<rparr>, Inr ())"
  unfolding sql_DeliveredWithResponse_def by (rule sql_for_ids_done [where P = "\<lambda>_. True"]) simp_all

lemma sql_failed_rows:
  assumes "distinct (map so_ID (sq_Rows q))"
  shows "sql_Failed now Map.empty ids status msg retry q
     = (q\<lparr>sq_Rows := sql_rows_for ids (sql_fail now status msg retry) (sq_Rows q)\<rparr>, Inr ())"
  unfolding sql_Failed_def
  by (rule sql_for_ids_done [where P = "\<lambda>q. distinct (map so_ID (sq_Rows q))"])
    (simp_all add: assms sql_failed_on_row on_row_keys sql_fail_def sql_fail_row_def)

text \<open>Rows marked through ids of the two stores for the same keys stay the same rows.\<close>

lemma marked_rows:
  assumes "same_queue f q" and "\<And>v w. same_row v w \<Longrightarrow> same_row (g v) (h w)"
    and "\<And>v. o_ID (g v) = o_ID v \<and> o_Key (g v) = o_Key v" and "\<And>v. so_ID (h v) = so_ID v \<and> so_Key (h v) = so_Key v"
  shows "list_all2 same_row (for_ids (ids_of o_ID o_Key (fs_Outbox f) keys) g (fs_Outbox f))
           (sql_rows_for (ids_of so_ID so_Key (sq_Rows q) keys) h (sq_Rows q))"
proof -
  have left: "for_ids (ids_of o_ID o_Key (fs_Outbox f) keys) g (fs_Outbox f)
      = map (\<lambda>v. foldl (\<lambda>v k. if o_Key v = k then g v else v) v keys) (fs_Outbox f)"
    using assms(1,3) by (auto simp: for_ids_def same_queue_def outbox_ok_def intro!: foldl_by_keys)
  have right: "sql_rows_for (ids_of so_ID so_Key (sq_Rows q) keys) h (sq_Rows q)
      = map (\<lambda>v. foldl (\<lambda>v k. if so_Key v = k then h v else v) v keys) (sq_Rows q)"
    using assms(1,4) sql_ok_distinct by (auto simp: sql_rows_for_def same_queue_def sql_ok_def intro!: foldl_by_keys)
  have "same_row (foldl (\<lambda>v k. if o_Key v = k then g v else v) v keys) (foldl (\<lambda>v k. if so_Key v = k then h v else v) w keys)"
    if "same_row v w" for v w
    using that
  proof (induction keys arbitrary: v w)
    case (Cons k keys)
    have "o_Key v = so_Key w" using Cons.prems by (simp add: same_row_def)
    then show ?case using Cons assms(2) by simp
  qed simp
  then show ?thesis
    using assms(1) unfolding left right by (auto simp: same_queue_def list.rel_map intro: list_all2_mono)
qed

lemma sql_ok_marked:
  assumes "sql_ok q" and "\<And>v. so_ID (h v) = so_ID v \<and> so_Key (h v) = so_Key v"
    and "\<And>v. 0 \<le> so_Attempts v \<Longrightarrow> 0 \<le> so_Attempts (h v)"
  shows "sql_ok (q\<lparr>sq_Rows := sql_rows_for ids h (sq_Rows q)\<rparr>)"
proof -
  let ?row = "\<lambda>v. foldl (\<lambda>v i. if so_ID v = i then h v else v) v ids"
  have row: "so_ID (?row v) = so_ID v \<and> so_Key (?row v) = so_Key v \<and> (0 \<le> so_Attempts v \<longrightarrow> 0 \<le> so_Attempts (?row v))" for v
    using assms(2,3) by (induction ids arbitrary: v) auto
  have ids: "map so_ID (sql_rows_for ids h (sq_Rows q)) = map so_ID (sq_Rows q)"
    and keys: "map so_Key (sql_rows_for ids h (sq_Rows q)) = map so_Key (sq_Rows q)"
    using row by (simp_all add: sql_rows_for_def)
  have "\<forall>v \<in> set (sql_rows_for ids h (sq_Rows q)). so_ID v \<le> sq_Seq q \<and> 0 \<le> so_Attempts v"
    using assms(1) row by (auto simp: sql_ok_def sql_rows_for_def)
  then show ?thesis using assms(1) by (simp add: sql_ok_def ids keys)
qed

lemma sql_ok_filter: "sql_ok q \<Longrightarrow> sql_ok (q\<lparr>sq_Rows := filter p (sq_Rows q)\<rparr>)"
  by (auto simp: sql_ok_def distinct_map_filter sorted_filter_ids)

lemma sql_ok_polls [simp]: "sql_ok (q\<lparr>sq_PollLogs := ps\<rparr>) = sql_ok q" "sql_ok (q\<lparr>sq_PollSeq := n\<rparr>) = sql_ok q"
  by (simp_all add: sql_ok_def)

lemma same_keys:
  assumes "list_all2 same_row (fs_Outbox f) (sq_Rows q)"
  shows "(\<exists>v \<in> set (fs_Outbox f). o_Key v = key) \<longleftrightarrow> (\<exists>v \<in> set (sq_Rows q). so_Key v = key)"
proof -
  have "map o_Key (fs_Outbox f) = map so_Key (sq_Rows q)"
    by (rule list_all2_map_same [OF assms]) (simp add: same_row_def)
  then have "o_Key ` set (fs_Outbox f) = so_Key ` set (sq_Rows q)" by (metis list.set_map)
  then have "key \<in> o_Key ` set (fs_Outbox f) \<longleftrightarrow> key \<in> so_Key ` set (sq_Rows q)" by simp
  then show ?thesis by (auto simp: image_iff)
qed

text \<open>Every operation gives the same reply and leaves the same queue.\<close>

definition agree :: "Store \<times> QueueReply \<Rightarrow> SqlQueue \<times> QueueReply \<Rightarrow> bool" where
  "agree a b \<longleftrightarrow> same_queue (st_mem (fst a)) (fst b) \<and> snd a = snd b"

lemma agree_Enqueue:
  assumes same: "same_queue (st_mem s) q" and Inr: "marshal r = Inr b"
  shows "agree (file_op marshal now (Q_Enqueue key hash r) s) (sql_op marshal now (Q_Enqueue key hash r) q)"
proof -
  let ?f = "st_mem s"
  have keys: "(\<exists>v \<in> set (fs_Outbox ?f). o_Key v = key) \<longleftrightarrow> (\<exists>v \<in> set (sq_Rows q). so_Key v = key)"
    using same by (intro same_keys) (simp add: same_queue_def)
  show ?thesis
  proof (cases "\<exists>v \<in> set (sq_Rows q). so_Key v = key")
    case True
    have "sql_ok (q\<lparr>sq_Seq := sq_Seq q + 1\<rparr>)" using same by (force simp: same_queue_def sql_ok_def)
    then show ?thesis
      using True same keys Inr by (simp add: agree_def reply_def Enqueue_def sql_Enqueue_def Let_def same_queue_def)
  next
    case False
    have "outbox_ok (?f\<lparr>fs_NextID := fs_NextID ?f + 1, fs_Outbox := fs_Outbox ?f @ [new_row (fs_NextID ?f) key hash b now]\<rparr>)"
      using same keys False by (intro outbox_ok_append) (auto simp: same_queue_def)
    moreover have "sql_ok (q\<lparr>sq_Rows := sq_Rows q @ [sql_row (sq_Seq q + 1) key hash b now], sq_Seq := sq_Seq q + 1\<rparr>)"
      using same False by (force simp: same_queue_def sql_ok_def sql_row_def sorted_wrt_append)
    moreover have "same_row (new_row i key hash b now) (sql_row j key hash b now)" for i j
      by (simp add: same_row_def new_row_def sql_row_def)
    ultimately have "same_queue (?f\<lparr>fs_NextID := fs_NextID ?f + 1, fs_Outbox := fs_Outbox ?f @ [new_row (fs_NextID ?f) key hash b now]\<rparr>)
        (q\<lparr>sq_Rows := sq_Rows q @ [sql_row (sq_Seq q + 1) key hash b now], sq_Seq := sq_Seq q + 1\<rparr>)"
      using same by (simp add: same_queue_def list_all2_appendI)
    then show ?thesis
      using keys False Inr by (simp add: agree_def reply_def Enqueue_def sql_Enqueue_def Let_def nextID_def)
  qed
qed

lemma agree_Ready:
  assumes "same_queue (st_mem s) q" and "1 \<le> limit"
  shows "agree (file_op marshal now (Q_Ready limit) s) (sql_op marshal now (Q_Ready limit) q)"
proof -
  have "list_all2 same_row (filter (row_due now) (fs_Outbox (st_mem s))) (filter (sql_due now) (sq_Rows q))"
    using assms(1) by (intro list_all2_filter_same) (auto simp: same_queue_def same_row_def row_due_def sql_due_def)
  then have "list_all2 same_row (take n (filter (row_due now) (fs_Outbox (st_mem s)))) (take n (filter (sql_due now) (sq_Rows q)))" for n
    by simp
  then have "map (seen_event \<circ> event_of) (take n (filter (row_due now) (fs_Outbox (st_mem s))))
      = map (seen_event \<circ> sql_event) (take n (filter (sql_due now) (sq_Rows q)))" for n
    by (rule list_all2_map_same) (simp add: seen_event_def event_of_def sql_event_def same_row_def)
  then show ?thesis
    using assms by (simp add: agree_def reply_def sql_Ready_def Ready_take sql_limit_def ordered_by_id same_queue_def)
qed

lemma same_statuses: "same_row v w \<Longrightarrow> row_final v \<longleftrightarrow> sql_final w"
  by (simp add: same_row_def row_final_def sql_final_def)

lemma same_filter:
  assumes "same_queue f q" and "\<And>v w. same_row v w \<Longrightarrow> p v \<longleftrightarrow> r w"
  shows "same_queue (f\<lparr>fs_Outbox := filter p (fs_Outbox f)\<rparr>) (q\<lparr>sq_Rows := filter r (sq_Rows q)\<rparr>)"
  using assms by (auto simp: same_queue_def outbox_ok_filter sql_ok_filter intro!: list_all2_filter_same)

lemma same_count:
  assumes "list_all2 R xs ys" and "\<And>v w. R v w \<Longrightarrow> p v \<longleftrightarrow> r w"
  shows "length (filter p xs) = length (filter r ys)"
  by (rule list_all2_lengthD [OF list_all2_filter_same [OF assms]])

lemma agree_Delivered:
  assumes "same_queue (st_mem s) q"
  shows "agree (file_op marshal now (Q_Delivered keys status response) s) (sql_op marshal now (Q_Delivered keys status response) q)"
proof -
  let ?f = "st_mem s"
  have "outbox_ok (?f\<lparr>fs_Outbox := for_ids ids (deliver_row now status response) (fs_Outbox ?f)\<rparr>)" for ids
    using assms by (intro outbox_ok_for_ids) (simp_all add: same_queue_def deliver_row_good)
  moreover have "sql_ok (q\<lparr>sq_Rows := sql_rows_for ids (sql_deliver_row now status response) (sq_Rows q)\<rparr>)" for ids
    using assms by (intro sql_ok_marked) (simp_all add: same_queue_def sql_deliver_row_def)
  moreover have "list_all2 same_row
      (for_ids (ids_of o_ID o_Key (fs_Outbox ?f) keys) (deliver_row now status response) (fs_Outbox ?f))
      (sql_rows_for (ids_of so_ID so_Key (sq_Rows q) keys) (sql_deliver_row now status response) (sq_Rows q))"
    by (intro marked_rows [OF assms same_row_deliver]) (simp_all add: deliver_row_def sql_deliver_row_def)
  ultimately show ?thesis
    using assms by (simp add: agree_def reply_def DeliveredWithResponse_def sql_delivered_rows Let_def same_queue_def)
qed

lemma agree_Failed:
  assumes "same_queue (st_mem s) q"
  shows "agree (file_op marshal now (Q_Failed keys status msg retry) s) (sql_op marshal now (Q_Failed keys status msg retry) q)"
proof -
  let ?f = "st_mem s"
  have same: "same_row (fail_row now status msg retry v) (sql_fail now status msg retry w)" if "same_row v w" for v w
    using that by (simp add: sql_fail_def same_row_fail)
  have ids: "distinct (map so_ID (sq_Rows q))" using assms by (simp add: same_queue_def sql_ok_distinct)
  have "outbox_ok (?f\<lparr>fs_Outbox := for_ids ids (fail_row now status msg retry) (fs_Outbox ?f)\<rparr>)" for ids
    using assms by (intro outbox_ok_for_ids) (simp_all add: same_queue_def fail_row_good)
  moreover have "sql_ok (q\<lparr>sq_Rows := sql_rows_for ids (sql_fail now status msg retry) (sq_Rows q)\<rparr>)" for ids
    using assms by (intro sql_ok_marked) (simp_all add: same_queue_def sql_fail_def sql_fail_row_def)
  moreover have "list_all2 same_row
      (for_ids (ids_of o_ID o_Key (fs_Outbox ?f) keys) (fail_row now status msg retry) (fs_Outbox ?f))
      (sql_rows_for (ids_of so_ID so_Key (sq_Rows q) keys) (sql_fail now status msg retry) (sq_Rows q))"
    by (intro marked_rows [OF assms same]) (simp_all add: fail_row_def Let_def sql_fail_def sql_fail_row_def)
  ultimately show ?thesis
    using assms by (simp add: agree_def reply_def Failed_def sql_failed_rows [OF ids] Let_def same_queue_def)
qed

lemma agree_DeliveryLogs:
  assumes "same_queue (st_mem s) q"
  shows "agree (file_op marshal now (Q_DeliveryLogs limit) s) (sql_op marshal now (Q_DeliveryLogs limit) q)"
proof -
  have "list_all2 same_row (take n (rev (fs_Outbox (st_mem s)))) (take n (rev (sq_Rows q)))" for n
    using assms by (simp add: same_queue_def)
  then have "map (seen_log \<circ> delivery_log) (take n (rev (fs_Outbox (st_mem s))))
      = map (seen_log \<circ> sql_delivery_log) (take n (rev (sq_Rows q)))" for n
    by (rule list_all2_map_same) (simp add: same_row_def seen_log_def delivery_log_def sql_delivery_log_def)
  moreover have "sql_log_limit limit = log_limit limit" by (simp add: sql_log_limit_def log_limit_def)
  ultimately show ?thesis
    using assms
    by (simp add: agree_def reply_def DeliveryLogs_def sql_DeliveryLogs_def ordered_by_id same_queue_def)
qed

lemma agree_ClearDeliveryLogs:
  assumes "same_queue (st_mem s) q"
  shows "agree (file_op marshal now Q_ClearDeliveryLogs s) (sql_op marshal now Q_ClearDeliveryLogs q)"
proof -
  have "length (filter row_final (fs_Outbox (st_mem s))) = length (filter sql_final (sq_Rows q))"
    using assms by (intro same_count [where R = same_row]) (auto simp: same_queue_def same_statuses)
  then show ?thesis
    using same_filter [OF assms, of "\<lambda>v. \<not> row_final v" "\<lambda>v. \<not> sql_final v"]
    by (simp add: agree_def reply_def ClearDeliveryLogs_def sql_ClearDeliveryLogs_def Let_def same_statuses)
qed

lemma agree_SavePollLog:
  assumes "same_queue (st_mem s) q"
  shows "agree (file_op marshal now (Q_SavePollLog v) s) (sql_op marshal now (Q_SavePollLog v) q)"
  using assms
  by (auto simp: agree_def reply_def SavePollLog_def sql_SavePollLog_def Let_def nextID_def same_queue_def same_poll_def
      intro!: list_all2_appendI elim: outbox_ok_other)

lemma length_filter_or:
  "length (filter (\<lambda>x. p x \<or> r x) xs) = length (filter p xs) + length (filter r (filter (\<lambda>x. \<not> p x) xs))"
  by (induction xs) auto

definition old_delivered :: "int \<Rightarrow> SqlOutbox \<Rightarrow> bool" where
  "old_delivered cutoff v \<longleftrightarrow> so_Status v = ''DELIVERED''
     \<and> (case so_Delivered v of None \<Rightarrow> so_Created v | Some d \<Rightarrow> d) < cutoff"

definition old_dead :: "int \<Rightarrow> SqlOutbox \<Rightarrow> bool" where
  "old_dead cutoff v \<longleftrightarrow> so_Status v = ''DEAD_LETTER'' \<and> so_Created v < cutoff"

lemma sql_CleanupOld_done:
  assumes "0 < retention"
  shows "sql_CleanupOld now retention Map.empty q =
    (let c = now - retention in
      (q\<lparr>sq_Rows := filter (\<lambda>v. \<not> (old_delivered c v \<or> old_dead c v)) (sq_Rows q),
         sq_PollLogs := filter (\<lambda>v. \<not> pl_CreatedAt v < c) (sq_PollLogs q)\<rparr>,
       Inr (int (length (filter (\<lambda>v. old_delivered c v \<or> old_dead c v) (sq_Rows q)))
            + int (length (filter (\<lambda>v. pl_CreatedAt v < c) (sq_PollLogs q))))))"
  using assms
  by (simp add: sql_CleanupOld_def sql_delete_def Let_def length_filter_or flip: old_delivered_def old_dead_def)

lemma row_expired_same: "same_row v w \<Longrightarrow> row_expired c v \<longleftrightarrow> old_delivered c w \<or> old_dead c w"
  by (auto simp: same_row_def row_expired_def old_delivered_def old_dead_def split: option.splits)

lemma agree_CleanupOld:
  assumes same: "same_queue (st_mem s) q" and "0 < retention"
  shows "agree (file_op marshal now (Q_CleanupOld retention) s) (sql_op marshal now (Q_CleanupOld retention) q)"
proof -
  let ?f = "st_mem s" and ?c = "now - retention"
  have rows: "list_all2 same_row (fs_Outbox ?f) (sq_Rows q)" and logs: "list_all2 same_poll (fs_PollLogs ?f) (sq_PollLogs q)"
    using same by (simp_all add: same_queue_def)
  have age: "same_poll v w \<Longrightarrow> pl_CreatedAt v = pl_CreatedAt w" for v w
    unfolding same_poll_def by (metis PollLog.select_convs(7) PollLog.surjective PollLog.update_convs(1))
  let ?g = "?f\<lparr>fs_Outbox := filter (\<lambda>v. \<not> row_expired ?c v) (fs_Outbox ?f)\<rparr>"
  let ?p = "q\<lparr>sq_Rows := filter (\<lambda>v. \<not> (old_delivered ?c v \<or> old_dead ?c v)) (sq_Rows q)\<rparr>"
  have "same_queue ?g ?p" by (rule same_filter [OF same]) (simp add: row_expired_same)
  moreover have "list_all2 same_poll (filter (\<lambda>v. \<not> pl_CreatedAt v < ?c) (fs_PollLogs ?f))
      (filter (\<lambda>v. \<not> pl_CreatedAt v < ?c) (sq_PollLogs q))"
    by (rule list_all2_filter_same [OF logs]) (simp add: age)
  ultimately have "same_queue (?g\<lparr>fs_PollLogs := filter (\<lambda>v. \<not> pl_CreatedAt v < ?c) (fs_PollLogs ?f)\<rparr>)
      (?p\<lparr>sq_PollLogs := filter (\<lambda>v. \<not> pl_CreatedAt v < ?c) (sq_PollLogs q)\<rparr>)"
    by (auto simp: same_queue_def outbox_ok_def)
  moreover have "length (filter (row_expired ?c) (fs_Outbox ?f)) = length (filter (\<lambda>v. old_delivered ?c v \<or> old_dead ?c v) (sq_Rows q))"
    by (rule same_count [OF rows]) (rule row_expired_same)
  moreover have "length (filter (\<lambda>v. pl_CreatedAt v < ?c) (fs_PollLogs ?f)) = length (filter (\<lambda>v. pl_CreatedAt v < ?c) (sq_PollLogs q))"
    by (rule same_count [OF logs]) (simp add: age)
  ultimately show ?thesis
    using assms(2) by (simp add: agree_def reply_def CleanupOld_def sql_CleanupOld_done Let_def)
qed

text \<open>So one call after the other.\<close>

lemma agree_op:
  assumes "same_queue (st_mem s) q" and "asked marshal op"
  shows "agree (file_op marshal now op s) (sql_op marshal now op q)"
  using assms
  by (cases op)
    (auto simp del: file_op.simps sql_op.simps intro: agree_Enqueue agree_Ready agree_Delivered agree_Failed agree_DeliveryLogs
      agree_ClearDeliveryLogs agree_SavePollLog agree_CleanupOld)

lemma same_fresh: "openNormalized path None = Inr s \<Longrightarrow> same_queue (st_mem s) empty_queue"
  by (auto simp: openNormalized_def Let_def same_queue_def outbox_ok_def sql_ok_def empty_queue_def zero_fileState_def
      split: if_splits)

lemma agree_calls:
  assumes "same_queue (st_mem s) q" and "list_all (\<lambda>(now, op). asked marshal op) calls"
  shows "queue_replies (file_op marshal) calls s = queue_replies (sql_op marshal) calls q"
  using assms
proof (induction calls arbitrary: s q)
  case (Cons call calls)
  obtain now op where call: "call = (now, op)" by (cases call)
  then have "agree (file_op marshal now op s) (sql_op marshal now op q)" using Cons.prems by (intro agree_op) simp_all
  then show ?case using Cons by (simp add: call agree_def case_prod_beta)
qed simp

subsection \<open>SQLite is a queue as well\<close>

lemma sql_for_ids_keeps:
  assumes "\<And>n i q q'. P q \<Longrightarrow> f n i q = Inr q' \<Longrightarrow> P q'" and "P q"
  shows "P (fst (sql_for_ids f n ids q))"
  using assms(2) by (induction ids arbitrary: n q) (auto intro: assms(1) split: sum.split)

lemma on_row_ok:
  assumes "sql_ok q" and "\<And>v. so_ID (h v) = so_ID v \<and> so_Key (h v) = so_Key v"
    and "\<And>v. 0 \<le> so_Attempts v \<Longrightarrow> 0 \<le> so_Attempts (h v)"
  shows "sql_ok (on_row i h q)"
  using sql_ok_marked [OF assms, of "[i]"] by (simp add: sql_rows_for_def on_row_def update_where_def)

text \<open>Whatever the statements of a call come to, the table stays in order.\<close>

lemma sql_Enqueue_ok: "sql_ok q \<Longrightarrow> sql_ok (fst (sql_Enqueue marshal now io key hash r q))"
  by (force simp: sql_Enqueue_def sql_ok_def sql_row_def sorted_wrt_append split: sum.split option.split)

lemma sql_DeliveredWithResponse_ok: "sql_ok q \<Longrightarrow> sql_ok (fst (sql_DeliveredWithResponse now io ids status response q))"
  unfolding sql_DeliveredWithResponse_def
  by (erule sql_for_ids_keeps [rotated]) (auto split: option.splits intro!: on_row_ok simp: sql_deliver_row_def)

lemma sql_Failed_ok: "sql_ok q \<Longrightarrow> sql_ok (fst (sql_Failed now io ids status msg retry q))"
  unfolding sql_Failed_def
  by (erule sql_for_ids_keeps [rotated]) (auto split: option.splits intro!: on_row_ok simp: sql_fail_row_def)

lemma sql_ClearDeliveryLogs_ok: "sql_ok q \<Longrightarrow> sql_ok (fst (sql_ClearDeliveryLogs io q))"
  by (simp add: sql_ClearDeliveryLogs_def sql_ok_filter split: option.split)

lemma sql_SavePollLog_ok: "sql_ok q \<Longrightarrow> sql_ok (fst (sql_SavePollLog now io v q))"
  by (simp add: sql_SavePollLog_def Let_def split: option.split)

lemma sql_delete_ok: "sql_ok q \<Longrightarrow> sql_ok (fst (sql_delete gone q))"
  by (simp add: sql_delete_def sql_ok_filter)

lemma sql_CleanupOld_ok: "sql_ok q \<Longrightarrow> sql_ok (fst (sql_CleanupOld now retention io q))"
  by (auto simp: sql_CleanupOld_def Let_def case_prod_beta sql_delete_ok split: option.split)

lemmas sql_queue_ok = sql_Enqueue_ok sql_DeliveredWithResponse_ok sql_Failed_ok sql_ClearDeliveryLogs_ok sql_SavePollLog_ok
  sql_CleanupOld_ok

definition sql_due_ids :: "int \<Rightarrow> SqlQueue \<Rightarrow> int set" where
  "sql_due_ids now q = so_ID ` set (filter (sql_due now) (sq_Rows q))"

definition sql_drain_ids :: "int \<Rightarrow> int \<Rightarrow> SqlQueue \<Rightarrow> int list" where
  "sql_drain_ids now limit q = (case sql_Ready now limit Map.empty q of Inl err \<Rightarrow> [] | Inr es \<Rightarrow> map ev_ID es)"

definition sql_ack_ids :: "int \<Rightarrow> int list \<Rightarrow> SqlQueue \<Rightarrow> SqlQueue" where
  "sql_ack_ids now ids q = fst (sql_Delivered now Map.empty ids q)"

lemma sql_rows_deliver:
  "sql_rows_for ids (sql_deliver_row now status response) rows
     = map (\<lambda>v. if so_ID v \<in> set ids then sql_deliver_row now status response v else v) rows"
proof -
  have "foldl (\<lambda>v i. if so_ID v = i then sql_deliver_row now status response v else v) v ids
      = (if so_ID v \<in> set ids then sql_deliver_row now status response v else v)" for v
    by (induction ids arbitrary: v) (simp_all add: sql_deliver_row_def)
  then show ?thesis by (simp add: sql_rows_for_def)
qed

lemma sql_drain_take:
  "sql_ok q \<Longrightarrow> sql_drain_ids now (int (Suc n)) q = take (Suc n) (map so_ID (filter (sql_due now) (sq_Rows q)))"
  by (simp add: sql_drain_ids_def sql_Ready_def ordered_by_id sql_limit_def take_map sql_event_def comp_def nat_add_distrib)

interpretation sql_queue: outbox_queue sql_ok "sql_due_ids now" "sql_drain_ids now (int (Suc n))" "sql_ack_ids later"
  for now n later
proof
  fix q ids
  show "finite (sql_due_ids now q)" by (simp add: sql_due_ids_def)
  assume ok: "sql_ok q"
  then show "set (sql_drain_ids now (int (Suc n)) q) \<subseteq> sql_due_ids now q"
    using set_take_subset by (simp only: sql_drain_take sql_due_ids_def flip: set_map)
  show "distinct (sql_drain_ids now (int (Suc n)) q)"
    using sql_ok_distinct [OF ok] unfolding sql_drain_take [OF ok] by (intro distinct_take distinct_map_filter)
  show "sql_drain_ids now (int (Suc n)) q \<noteq> []" if "sql_due_ids now q \<noteq> {}"
    using that unfolding sql_drain_take [OF ok] by (auto simp: sql_due_ids_def filter_empty_conv)
  show "sql_ok (sql_ack_ids later ids q)"
    using ok by (simp add: sql_ack_ids_def sql_Delivered_def sql_DeliveredWithResponse_ok)
  have "sql_due now (sql_deliver_row later 0 [] v) = False" for v by (simp add: sql_due_def sql_deliver_row_def)
  then show "sql_due_ids now (sql_ack_ids later ids q) = sql_due_ids now q - set ids"
    by (auto simp: sql_ack_ids_def sql_Delivered_def sql_delivered_rows sql_rows_deliver sql_due_ids_def image_iff
        split: if_splits)
qed

lemma sql_drained:
  assumes "sql_ok q" and "card (sql_due_ids now q) \<le> n"
  shows "sql_due_ids now (snd (drain_cycles (sql_drain_ids now (int (Suc k))) (sql_ack_ids later) n q)) = {}"
  using assms by (rule sql_queue.cycles_empty)

subsection \<open>Where the stores differ\<close>

text \<open>After a failed attempt and a delivery the file store still shows the error, SQLite has cleared it.\<close>

lemma delivered_error_differs:
  fixes s :: Store
  assumes "fs_Outbox (st_mem s) = [new_row 1 ''k'' [] ''{}'' 5]" and "sq_Rows q = [sql_row 1 ''k'' [] ''{}'' 5]"
  shows "map dl_LastError (DeliveryLogs 10
           (fst (DeliveredWithResponse 9 None [1] 200 [] (fst (Failed 7 None [1] 503 ''busy'' True s))))) = [''busy'']"
    and "map_sum id (map dl_LastError) (sql_DeliveryLogs 10 Map.empty
           (fst (sql_DeliveredWithResponse 9 Map.empty [1] 200 [] (fst (sql_Failed 7 Map.empty [1] 503 ''busy'' True q))))) = Inr [[]]"
  using assms
  by (simp_all add: DeliveryLogs_def DeliveredWithResponse_def Failed_def Let_def for_ids_def delivery_log_def log_limit_def
      deliver_row_def fail_row_def new_row_def sql_DeliveryLogs_def sql_DeliveredWithResponse_def sql_Failed_def on_row_def
      update_where_def sql_delivery_log_def sql_log_limit_def sql_deliver_row_def sql_fail_row_def sql_row_def)

text \<open>
  Connection 0, what the web interface asks for when the query names none: the file store lists every log, SQLite those
  of a connection 0. Without a retention the file store deletes what is final and older than the moment, SQLite nothing;
  the command line keeps such a retention away from both.
\<close>

lemma poll_logs_of_no_connection:
  assumes "\<forall>v \<in> set (sq_PollLogs q). pl_ConnectionID v \<noteq> 0" and "newest [] = []"
  shows "PollLogs 0 limit s = take (log_limit limit) (rev (fs_PollLogs (st_mem s)))"
    and "sql_PollLogs newest 0 limit Map.empty q = Inr []"
  using assms by (auto simp: PollLogs_def sql_PollLogs_def filter_empty_conv cong: filter_cong)

lemma cleanup_without_retention: "sql_CleanupOld now 0 io q = (q, Inr 0)"
  by (simp add: sql_CleanupOld_def)

subsection \<open>Properties\<close>


definition sample_calls :: "(int \<times> QueueOp) list" where
  "sample_calls =
     [(5, Q_Enqueue ''k'' ''h'' sample_reading), (6, Q_Ready 10), (7, Q_Failed [''k''] 503 ''busy'' True), (8, Q_Ready 10),
      (2000, Q_Ready 10), (2001, Q_Delivered [''k''] 200 ''ok''), (2002, Q_Ready 10)]"



end
