(* ===== verification/ModbusClient.thy ===== *)
theory ModbusClient
  imports Profile
begin

section \<open>internal/modbus: the Modbus TCP client\<close>

text \<open>
  \<open>Client.Read\<close>, \<open>ProbeDetails\<close> and \<open>probeFunction\<close> of \<open>client.go\<close>. The network is not code of the
  repository: it is a record of two operations on an arbitrary world \<open>'w\<close>, dialling and one exchange
  on the open connection (what the write returns, which bytes arrive before the deadline or the end of
  the stream, and the error a read past them gives). \<open>c.transaction\<close> is an atomic 32-bit counter, so
  the client's state is the world and the counter. The returned latencies are left out, they are
  measurements; byte slices are lists of \<open>8 word\<close>.
\<close>

record Exchange =
  x_write :: "string option"
  x_bytes :: "8 word list"
  x_end :: string

record 'w Net =
  net_dial :: "'w \<Rightarrow> string \<Rightarrow> int \<Rightarrow> 'w \<times> string option"
  net_exchange :: "'w \<Rightarrow> 8 word list \<Rightarrow> 'w \<times> Exchange"

record 'w Client =
  cl_world :: 'w
  cl_transaction :: "32 word"

subsection \<open>Frames\<close>

text \<open>\<open>binary.BigEndian.PutUint16\<close>; \<open>Uint16\<close> is \<open>be16\<close>.\<close>

definition put16 :: "16 word \<Rightarrow> 8 word list" where
  "put16 w = [ucast (drop_bit 8 w), ucast w]"

definition request_frame :: "16 word \<Rightarrow> int \<Rightarrow> int \<Rightarrow> 16 word \<Rightarrow> 16 word \<Rightarrow> 8 word list" where
  "request_frame tx unitID functionCode address quantity =
     put16 tx @ [0, 0] @ put16 6 @ [word_of_int unitID, word_of_int functionCode]
     @ put16 address @ put16 quantity"

text \<open>\<open>io.ReadFull(conn, make([]byte, n))\<close> on the bytes still to come.\<close>

definition ReadFull :: "nat \<Rightarrow> string \<Rightarrow> 8 word list \<Rightarrow> string + 8 word list \<times> 8 word list" where
  "ReadFull n err bytes = (if n \<le> length bytes then Inr (take n bytes, drop n bytes) else Inl err)"

text \<open>From the write to the end of the PDU, which \<open>Read\<close> and \<open>probeFunction\<close> spell out alike.\<close>

definition receive_pdu :: "16 word \<Rightarrow> Exchange \<Rightarrow> string + 8 word list" where
  "receive_pdu tx x =
     (case x_write x of
        Some err \<Rightarrow> Inl err
      | None \<Rightarrow>
     (case ReadFull 7 (x_end x) (x_bytes x) of
        Inl err \<Rightarrow> Inl err
      | Inr (header, rest) \<Rightarrow>
          if be16 (header ! 0) (header ! 1) \<noteq> tx then Inl ''transaction id mismatch''
          else
            let len = uint (be16 (header ! 4) (header ! 5)) - 1 in
            if len < 2 \<or> 252 < len then Inl ''invalid response length''
            else (case ReadFull (nat len) (x_end x) rest of
                    Inl err \<Rightarrow> Inl err
                  | Inr (pdu, _) \<Rightarrow> Inr pdu)))"

text \<open>Dial, take the next transaction number, send, receive.\<close>

definition exchange_pdu ::
  "'w Net \<Rightarrow> string \<Rightarrow> int \<Rightarrow> (16 word \<Rightarrow> 8 word list) \<Rightarrow> 'w Client \<Rightarrow> 'w Client \<times> (string + 8 word list)"
where
  "exchange_pdu net host port frame c =
     (case net_dial net (cl_world c) host port of
        (w, Some err) \<Rightarrow> (c\<lparr>cl_world := w\<rparr>, Inl err)
      | (w, None) \<Rightarrow>
          let n = cl_transaction c + 1; tx = ucast n;
              (w', x) = net_exchange net w (frame tx)
          in (c\<lparr>cl_world := w', cl_transaction := n\<rparr>, receive_pdu tx x))"

text \<open>The checks on the PDU of a read.\<close>

definition check_pdu :: "int \<Rightarrow> 8 word list \<Rightarrow> string + 8 word list" where
  "check_pdu functionCode pdu =
     (if pdu ! 0 AND 0x80 \<noteq> 0 then Inl (''modbus exception '' @ itoa (uint (pdu ! 1)))
      else if pdu ! 0 \<noteq> word_of_int functionCode then Inl ''function code mismatch''
      else if uint (pdu ! 1) \<noteq> int (length pdu) - 2 then Inl ''invalid byte count''
      else Inr (drop 2 pdu))"

definition Read ::
  "'w Net \<Rightarrow> string \<Rightarrow> int \<Rightarrow> int \<Rightarrow> int \<Rightarrow> 16 word \<Rightarrow> 16 word \<Rightarrow> 'w Client \<Rightarrow> 'w Client \<times> (string + 8 word list)"
where
  "Read net host port unitID functionCode address quantity c =
     (if functionCode \<noteq> 3 \<and> functionCode \<noteq> 4
      then (c, Inl (''unsupported function code '' @ itoa functionCode))
      else if quantity = 0 \<or> 125 < quantity then (c, Inl ''quantity must be 1..125'')
      else (case exchange_pdu net host port (\<lambda>tx. request_frame tx unitID functionCode address quantity) c of
              (c', Inl err) \<Rightarrow> (c', Inl err)
            | (c', Inr pdu) \<Rightarrow> (c', check_pdu functionCode pdu)))"

subsection \<open>Probing\<close>

definition probeFunction ::
  "'w Net \<Rightarrow> string \<Rightarrow> int \<Rightarrow> int \<Rightarrow> int \<Rightarrow> 'w Client \<Rightarrow> 'w Client \<times> (string + 8 word list)"
where
  "probeFunction net host port unitID functionCode c =
     (case exchange_pdu net host port (\<lambda>tx. request_frame tx unitID functionCode 0 1) c of
        (c', Inl err) \<Rightarrow> (c', Inl err)
      | (c', Inr pdu) \<Rightarrow>
          if pdu ! 0 \<noteq> word_of_int functionCode \<and> pdu ! 0 \<noteq> word_of_int functionCode OR 0x80
          then (c', Inl ''function code mismatch'')
          else (c', Inr pdu))"

record ProbeInfo =
  pi_Protocol :: string
  pi_Transport :: string
  pi_FunctionCodes :: "int list"
  pi_RegisterFamily :: string
  pi_Detail :: string

definition registerFamily :: "int list \<Rightarrow> string" where
  "registerFamily functions =
     (let has3 = 3 \<in> set functions; has4 = 4 \<in> set functions in
      if has3 \<and> has4 then ''Holding/Input registers (4x/3x)''
      else if has3 then ''Holding registers (4x / FC03)''
      else if has4 then ''Input registers (3x / FC04)''
      else ''unknown'')"

definition joinDetails :: "string list \<Rightarrow> string" where
  "joinDetails vs = foldl (\<lambda>out v. (if out \<noteq> [] then out @ ''; '' else out) @ v) [] vs"

text \<open>One turn of the loop over the two function codes.\<close>

definition probe_step ::
  "'w Net \<Rightarrow> string \<Rightarrow> int \<Rightarrow> int \<Rightarrow> int \<Rightarrow> 'w Client \<times> int list \<times> string list \<Rightarrow> 'w Client \<times> int list \<times> string list"
where
  "probe_step net host port unitID fc st =
     (let (c, codes, details) = st in
      case probeFunction net host port unitID fc c of
        (c', Inl _) \<Rightarrow> (c', codes, details @ [''FC'' @ pad2 fc @ '' no response''])
      | (c', Inr pdu) \<Rightarrow>
          if pdu ! 0 AND 0x80 \<noteq> 0 then
            let code = (if 1 < length pdu then uint (pdu ! 1) else 0) in
            (c', if code \<noteq> 1 then codes @ [fc] else codes,
             details @ [''FC'' @ pad2 fc @ '' exception '' @ itoa code])
          else (c', codes @ [fc], details @ [''FC'' @ pad2 fc @ '' normal'']))"

definition ProbeDetails ::
  "'w Net \<Rightarrow> string \<Rightarrow> int \<Rightarrow> int \<Rightarrow> 'w Client \<Rightarrow> 'w Client \<times> ProbeInfo \<times> string option" where
  "ProbeDetails net host port unitID c =
     (let (c', codes, details) = fold (probe_step net host port unitID) [3, 4] (c, [], []);
          info = \<lparr>pi_Protocol = ''Modbus TCP'', pi_Transport = ''TCP'', pi_FunctionCodes = codes,
                  pi_RegisterFamily = registerFamily codes, pi_Detail = joinDetails details\<rparr>
      in (c', info, if codes = [] then Some ''no Modbus FC03/FC04 response'' else None))"

subsection \<open>An accepted reply\<close>

text \<open>
  Every index the client takes of the header and of the PDU is in range, and what it returns is cut
  out of the bytes that arrived, behind a header with its own transaction number.
\<close>

lemma receive_pdu_ok:
  assumes "receive_pdu tx x = Inr pdu"
  obtains header rest where "x_write x = None" and "x_bytes x = header @ pdu @ rest"
    and "length header = 7" and "be16 (header ! 0) (header ! 1) = tx"
    and "uint (be16 (header ! 4) (header ! 5)) = int (length pdu) + 1"
    and "2 \<le> length pdu" and "length pdu \<le> 252"
proof -
  let ?h = "take 7 (x_bytes x)" and ?r = "drop 7 (x_bytes x)"
  let ?len = "uint (be16 (?h ! 4) (?h ! 5)) - 1"
  from assms have w: "x_write x = None" and l: "7 \<le> length (x_bytes x)"
    and t: "be16 (?h ! 0) (?h ! 1) = tx" and b: "2 \<le> ?len" "?len \<le> 252"
    and p: "nat ?len \<le> length ?r" "pdu = take (nat ?len) ?r"
    by (auto simp: receive_pdu_def ReadFull_def Let_def split: option.splits if_splits)
  have "x_bytes x = ?h @ take (nat ?len) ?r @ drop (nat ?len) ?r"
    by (simp only: append_take_drop_id)
  then have "x_bytes x = ?h @ pdu @ drop (nat ?len) ?r" using p(2) by simp
  moreover have "length ?h = 7" using l by simp
  moreover have "int (length pdu) = ?len" using p b by simp
  ultimately show ?thesis using that [OF w _ _ t] b by simp
qed

lemma exchange_pdu_ok:
  assumes "exchange_pdu net host port frame c = (c', Inr pdu)"
  shows "cl_transaction c' = cl_transaction c + 1"
    and "\<exists>w x. net_dial net (cl_world c) host port = (w, None)
         \<and> net_exchange net w (frame (ucast (cl_transaction c + 1))) = (cl_world c', x)
         \<and> receive_pdu (ucast (cl_transaction c + 1)) x = Inr pdu"
  using assms by (auto simp: exchange_pdu_def Let_def split: prod.splits option.splits)

text \<open>A request that is not allowed is not sent.\<close>

lemma Read_refused:
  "fc \<noteq> 3 \<and> fc \<noteq> 4 \<or> quantity = 0 \<or> 125 < quantity \<Longrightarrow>
     fst (Read net host port unitID fc address quantity c) = c
     \<and> \<not> is_ok (snd (Read net host port unitID fc address quantity c))"
  by (cases "fc \<noteq> 3 \<and> fc \<noteq> 4") (simp_all add: Read_def)

lemma Read_ok:
  assumes "Read net host port unitID fc address quantity c = (c', Inr data)"
  shows "fc = 3 \<or> fc = 4" and "1 \<le> uint quantity" and "uint quantity \<le> 125"
    and "cl_transaction c' = cl_transaction c + 1"
    and "\<exists>pdu. exchange_pdu net host port (\<lambda>tx. request_frame tx unitID fc address quantity) c = (c', Inr pdu)
          \<and> 2 \<le> length pdu \<and> pdu = word_of_int fc # word_of_int (int (length data)) # data
          \<and> length data \<le> 250"
proof -
  have q: "uint quantity = 0 \<longleftrightarrow> quantity = 0" by (rule uint_0_iff)
  let ?x = "exchange_pdu net host port (\<lambda>tx. request_frame tx unitID fc address quantity) c"
  have g: "fc = 3 \<or> fc = 4" "quantity \<noteq> 0" "\<not> 125 < quantity"
    using assms Read_refused [of fc quantity net host port unitID address c] by auto
  then have r: "(case ?x of (c', Inl err) \<Rightarrow> (c', Inl err) | (c', Inr pdu) \<Rightarrow> (c', check_pdu fc pdu))
      = (c', Inr data)"
    using assms unfolding Read_def by (subst (asm) if_not_P; simp)
  then obtain pdu where ex: "?x = (c', Inr pdu)" and "check_pdu fc pdu = Inr data"
    by (cases ?x; cases "snd ?x") simp_all
  then have p: "pdu ! 0 = word_of_int fc" "uint (pdu ! 1) = int (length pdu) - 2" "data = drop 2 pdu"
    by (simp_all add: check_pdu_def split: if_splits)
  show "fc = 3 \<or> fc = 4" by (rule g)
  show "1 \<le> uint quantity" using g(2) q uint_16_bounds [of quantity] by linarith
  show "uint quantity \<le> 125" using g(3) by (simp add: word_less_def)
  show "cl_transaction c' = cl_transaction c + 1" using exchange_pdu_ok(1) [OF ex] .
  from exchange_pdu_ok(2) [OF ex] obtain x where "receive_pdu (ucast (cl_transaction c + 1)) x = Inr pdu"
    by blast
  then have l: "2 \<le> length pdu" "length pdu \<le> 252" by (auto elim: receive_pdu_ok)
  obtain a b zs where "pdu = a # b # zs"
    using l(1) by (cases pdu; cases "tl pdu") auto
  with p(3) have ab: "pdu = a # b # data" by simp
  with p(1,2) have a: "a = word_of_int fc" and "uint b = int (length data)" by simp_all
  from this(2) have "word_of_int (int (length data)) = b" by (metis word_of_int_uint)
  with a ab have "pdu = word_of_int fc # word_of_int (int (length data)) # data" by simp
  then show "\<exists>pdu. exchange_pdu net host port (\<lambda>tx. request_frame tx unitID fc address quantity) c = (c', Inr pdu)
      \<and> 2 \<le> length pdu \<and> pdu = word_of_int fc # word_of_int (int (length data)) # data \<and> length data \<le> 250"
    using ex l by (intro exI [of _ pdu] conjI) (simp_all add: ab)
qed

subsection \<open>A device that answers\<close>

text \<open>
  The specification of a Modbus TCP server with the memory \<open>mem functionCode register\<close>: it answers a
  read request with the registers asked for, in its byte order, or, where \<open>refuse\<close> says so, with an
  exception of that code. It accepts every connection and every write.
\<close>

definition device_registers :: "(int \<Rightarrow> int \<Rightarrow> 16 word) \<Rightarrow> int \<Rightarrow> 16 word \<Rightarrow> 16 word \<Rightarrow> 16 word list" where
  "device_registers mem fc start quantity =
     map (\<lambda>i. mem fc (uint start + int i)) [0..<unat quantity]"

definition serve ::
  "string \<Rightarrow> (int \<Rightarrow> int \<Rightarrow> 16 word) \<Rightarrow> (int \<Rightarrow> 16 word \<Rightarrow> 16 word \<Rightarrow> 8 word option) \<Rightarrow> 8 word list \<Rightarrow> 8 word list"
where
  "serve byteOrder mem refuse req =
     (let fc = uint (req ! 7); start = be16 (req ! 8) (req ! 9); quantity = be16 (req ! 10) (req ! 11)
      in case refuse fc start quantity of
           Some code \<Rightarrow> take 2 req @ [0, 0] @ put16 3 @ [req ! 6, word_of_int fc OR 0x80, code]
         | None \<Rightarrow> take 2 req @ [0, 0] @ put16 (3 + 2 * quantity)
                   @ [req ! 6, word_of_int fc, ucast (2 * quantity)]
                   @ wire byteOrder (device_registers mem fc start quantity))"

definition device_net ::
  "string \<Rightarrow> (int \<Rightarrow> int \<Rightarrow> 16 word) \<Rightarrow> (int \<Rightarrow> 16 word \<Rightarrow> 16 word \<Rightarrow> 8 word option) \<Rightarrow> unit Net" where
  "device_net byteOrder mem refuse =
     \<lparr>net_dial = \<lambda>w host port. ((), None),
      net_exchange = \<lambda>w req. ((), \<lparr>x_write = None, x_bytes = serve byteOrder mem refuse req, x_end = ''EOF''\<rparr>)\<rparr>"

lemma be16_put16: "be16 (put16 w ! 0) (put16 w ! 1) = w"
  by (simp add: put16_def be16_split)

lemma put16_Cons: "put16 w @ xs = ucast (drop_bit 8 w) # ucast w # xs"
  by (simp add: put16_def)

lemma receive_pdu_frame:
  assumes "2 \<le> length pdu" and "length pdu \<le> 252" and "w = word_of_int (int (length pdu) + 1)"
  shows "receive_pdu tx \<lparr>x_write = None, x_bytes = put16 tx @ [p, p'] @ put16 w @ [u] @ pdu @ rest, x_end = e\<rparr>
    = Inr pdu"
proof -
  have "uint w - 1 = int (length pdu)"
    using assms(1,2) unfolding assms(3) by (subst uint_of_int_16) simp_all
  then show ?thesis
    using assms(1,2) by (simp add: receive_pdu_def ReadFull_def put16_Cons be16_split Let_def)
qed

lemma length_wire: "length (wire bo ws) = 2 * length ws"
  by (induction ws) (auto simp: wire_def register_bytes_def Let_def)

lemma request_frame_nth:
  "take 2 (request_frame tx u fc a q) = put16 tx"
  "request_frame tx u fc a q ! 6 = word_of_int u" "request_frame tx u fc a q ! 7 = word_of_int fc"
  "be16 (request_frame tx u fc a q ! 8) (request_frame tx u fc a q ! 9) = a"
  "be16 (request_frame tx u fc a q ! 10) (request_frame tx u fc a q ! 11) = q"
  by (simp_all add: request_frame_def put16_def be16_split)

lemma uint_fc: "fc = 3 \<or> fc = 4 \<Longrightarrow> uint (word_of_int fc :: 8 word) = fc"
  by auto

lemma small_quantity:
  fixes q :: "16 word" assumes "uint q \<le> 125"
  shows "3 + 2 * q = word_of_int (3 + 2 * uint q)" and "uint (ucast (2 * q) :: 8 word) = 2 * uint q"
proof -
  show "3 + 2 * q = word_of_int (3 + 2 * uint q)" by simp
  have "uint (2 * q) = 2 * uint q"
    using assms uint_16_bounds [of q] by (subst uint_mult_lem [THEN iffD1]) (simp_all)
  then show "uint (ucast (2 * q) :: 8 word) = 2 * uint q"
    using assms uint_16_bounds [of q] by (simp add: unsigned_ucast_eq take_bit_int_eq_self)
qed

text \<open>Reading from a device that answers gives its registers, in its byte order.\<close>

lemma Read_device_values:
  assumes fc: "fc = 3 \<or> fc = 4" and q: "1 \<le> uint q" "uint q \<le> 125" and ok: "refuse fc a q = None"
  shows "Read (device_net bo mem refuse) host port u fc a q c =
    (c\<lparr>cl_transaction := cl_transaction c + 1\<rparr>, Inr (wire bo (device_registers mem fc a q)))"
proof -
  define tx :: "16 word" where "tx = ucast (cl_transaction c + 1)"
  define pdu where "pdu = (word_of_int fc :: 8 word) # ucast (2 * q) # wire bo (device_registers mem fc a q)"
  have len: "int (length (wire bo (device_registers mem fc a q))) = 2 * uint q"
    by (simp add: length_wire device_registers_def)
  then have l: "int (length pdu) = 2 * uint q + 2" by (simp add: pdu_def)
  have s: "serve bo mem refuse (request_frame tx u fc a q)
      = put16 tx @ [0, 0] @ put16 (3 + 2 * q) @ [word_of_int u] @ pdu @ []"
    using ok by (simp add: serve_def request_frame_nth Let_def uint_fc [OF fc] pdu_def)
  have "receive_pdu tx \<lparr>x_write = None, x_bytes = serve bo mem refuse (request_frame tx u fc a q), x_end = ''EOF''\<rparr>
      = Inr pdu"
    unfolding s using l q small_quantity(1) [OF q(2)] by (intro receive_pdu_frame) auto
  then have ex: "exchange_pdu (device_net bo mem refuse) host port (\<lambda>tx. request_frame tx u fc a q) c
      = (c\<lparr>cl_transaction := cl_transaction c + 1\<rparr>, Inr pdu)"
    by (simp add: exchange_pdu_def device_net_def Let_def flip: tx_def)
  have "pdu ! 0 AND 0x80 = 0" using fc by (auto simp: pdu_def)
  then have "check_pdu fc pdu = Inr (wire bo (device_registers mem fc a q))"
    using l small_quantity(2) [OF q(2)] by (simp add: check_pdu_def pdu_def)
  moreover have "q \<noteq> 0" using q by auto
  moreover have "\<not> 125 < q" using q by (simp add: word_less_def)
  ultimately show ?thesis using fc by (auto simp: Read_def ex)
qed

lemma Read_device_exception:
  assumes fc: "fc = 3 \<or> fc = 4" and q: "1 \<le> uint q" "uint q \<le> 125" and no: "refuse fc a q = Some code"
  shows "snd (Read (device_net bo mem refuse) host port u fc a q c) =
    Inl (''modbus exception '' @ itoa (uint code))"
proof -
  define tx :: "16 word" where "tx = ucast (cl_transaction c + 1)"
  define pdu where "pdu = [(word_of_int fc :: 8 word) OR 0x80, code]"
  have s: "serve bo mem refuse (request_frame tx u fc a q)
      = put16 tx @ [0, 0] @ put16 3 @ [word_of_int u] @ pdu @ []"
    using no by (simp add: serve_def request_frame_nth Let_def uint_fc [OF fc] pdu_def)
  have "receive_pdu tx \<lparr>x_write = None, x_bytes = serve bo mem refuse (request_frame tx u fc a q), x_end = ''EOF''\<rparr>
      = Inr pdu"
    unfolding s by (intro receive_pdu_frame) (simp_all add: pdu_def)
  then have ex: "exchange_pdu (device_net bo mem refuse) host port (\<lambda>tx. request_frame tx u fc a q) c
      = (c\<lparr>cl_transaction := cl_transaction c + 1\<rparr>, Inr pdu)"
    by (simp add: exchange_pdu_def device_net_def Let_def flip: tx_def)
  have "check_pdu fc pdu = Inl (''modbus exception '' @ itoa (uint code))"
    using fc by (auto simp: check_pdu_def pdu_def)
  moreover have "q \<noteq> 0" using q by auto
  moreover have "\<not> 125 < q" using q by (simp add: word_less_def)
  ultimately show ?thesis using fc by (auto simp: Read_def ex)
qed

subsection \<open>What probing reports\<close>

text \<open>A function code answers when a reply came back that is not the exception \<open>illegal function\<close>.\<close>

definition answers :: "string + 8 word list \<Rightarrow> bool" where
  "answers r = (case r of Inl _ \<Rightarrow> False | Inr pdu \<Rightarrow> pdu ! 0 AND 0x80 = 0 \<or> uint (pdu ! 1) \<noteq> 1)"

lemma probeFunction_length: "probeFunction net host port u fc c = (c', Inr pdu) \<Longrightarrow> 1 < length pdu"
proof -
  assume "probeFunction net host port u fc c = (c', Inr pdu)"
  then have "exchange_pdu net host port (\<lambda>tx. request_frame tx u fc 0 1) c = (c', Inr pdu)"
    unfolding probeFunction_def
    by (cases "exchange_pdu net host port (\<lambda>tx. request_frame tx u fc 0 1) c";
        cases "snd (exchange_pdu net host port (\<lambda>tx. request_frame tx u fc 0 1) c)")
      (simp_all split: if_splits)
  from exchange_pdu_ok(2) [OF this] obtain x
    where "receive_pdu (ucast (cl_transaction c + 1)) x = Inr pdu" by blast
  then show "1 < length pdu" by (rule receive_pdu_ok) simp
qed

lemma probe_step_codes:
  "probe_step net host port u fc (c, codes, details) = (c', codes', details') \<Longrightarrow>
     c' = fst (probeFunction net host port u fc c)
     \<and> codes' = codes @ (if answers (snd (probeFunction net host port u fc c)) then [fc] else [])
     \<and> length details' = Suc (length details)"
proof -
  assume step: "probe_step net host port u fc (c, codes, details) = (c', codes', details')"
  obtain c1 r where r: "probeFunction net host port u fc c = (c1, r)" by (cases "probeFunction net host port u fc c")
  show ?thesis
  proof (cases r)
    case (Inl err)
    with r step show ?thesis by (auto simp: probe_step_def answers_def)
  next
    case (Inr pdu)
    with probeFunction_length r have "1 < length pdu" by metis
    with r Inr step show ?thesis
      by (auto simp: probe_step_def answers_def Let_def split: if_splits)
  qed
qed

subsection \<open>Properties\<close>

text \<open>
  C27: What \<open>Read\<close> returns was sent for this request. A result is only returned for function code 3 or
  4 and 1 to 125 registers, the transaction counter went up by one, and the data is the tail of a PDU
  with the requested function code and its own length as byte count, behind a header with the
  transaction number of this request; all of it is a prefix of the bytes that arrived, so no index of
  the parser is out of range.
\<close>

theorem Read_returns_matching_reply:
  assumes "Read net host port unitID fc address quantity c = (c', Inr data)"
  shows "(fc = 3 \<or> fc = 4) \<and> 1 \<le> uint quantity \<and> uint quantity \<le> 125
    \<and> cl_transaction c' = cl_transaction c + 1 \<and> length data \<le> 250
    \<and> (\<exists>w x header rest.
         net_dial net (cl_world c) host port = (w, None)
       \<and> net_exchange net w (request_frame (ucast (cl_transaction c')) unitID fc address quantity) = (cl_world c', x)
       \<and> x_bytes x = header @ (word_of_int fc # word_of_int (int (length data)) # data) @ rest
       \<and> length header = 7 \<and> be16 (header ! 0) (header ! 1) = ucast (cl_transaction c'))"
proof -
  note r = Read_ok [OF assms]
  from r(5) obtain pdu where ex: "exchange_pdu net host port (\<lambda>tx. request_frame tx unitID fc address quantity) c = (c', Inr pdu)"
    and pdu: "pdu = word_of_int fc # word_of_int (int (length data)) # data" and l: "length data \<le> 250"
    by blast
  from exchange_pdu_ok(2) [OF ex] obtain w x where "net_dial net (cl_world c) host port = (w, None)"
    and "net_exchange net w (request_frame (ucast (cl_transaction c')) unitID fc address quantity) = (cl_world c', x)"
    and rec: "receive_pdu (ucast (cl_transaction c')) x = Inr pdu"
    by (auto simp: r(4))
  moreover from rec obtain header rest where "x_bytes x = header @ pdu @ rest" "length header = 7"
      "be16 (header ! 0) (header ! 1) = ucast (cl_transaction c')"
    by (rule receive_pdu_ok)
  ultimately show ?thesis using r(1-4) l unfolding pdu by blast
qed

definition sample_client :: "unit Client" where
  "sample_client = \<lparr>cl_world = (), cl_transaction = 6\<rparr>"

text \<open>
  C26: Reading from a device works. A Modbus server that answers the request gives back exactly its
  registers, byte for byte in its byte order, which \<open>BytesToRegisters\<close> turns into the register
  values; one that refuses it gives the error with its exception code.
\<close>

theorem Read_from_device:
  assumes "fc = 3 \<or> fc = 4" and "1 \<le> uint q" and "uint q \<le> 125"
  shows "case refuse fc a q of
      None \<Rightarrow> (\<exists>data. Read (device_net bo mem refuse) host port u fc a q c =
                  (c\<lparr>cl_transaction := cl_transaction c + 1\<rparr>, Inr data)
                \<and> BytesToRegisters data bo = Inr (map (\<lambda>i. mem fc (uint a + int i)) [0..<unat q]))
    | Some code \<Rightarrow> snd (Read (device_net bo mem refuse) host port u fc a q c) =
                   Inl (''modbus exception '' @ itoa (uint code))"
proof (cases "refuse fc a q")
  case None
  with Read_device_values [of fc q refuse a bo mem host port u c] assms show ?thesis
    by (auto simp: BytesToRegisters_wire device_registers_def)
next
  case (Some code)
  with Read_device_exception [of fc q refuse a code bo mem host port u c] assms show ?thesis by simp
qed

theorem Read_from_device_witness:
  "\<exists>data. snd (Read (device_net ''LITTLE_ENDIAN'' (\<lambda>fc r. word_of_int r) (\<lambda>_ _ _. None)) ''h'' 502 1 3 40 2 sample_client)
      = Inr data \<and> BytesToRegisters data ''LITTLE_ENDIAN'' = Inr [40, 41]"
proof -
  have "(2 :: nat) = Suc (Suc 0)" by simp
  then show ?thesis
    using Read_from_device [where fc = 3 and q = 2 and refuse = "\<lambda>_ _ _. None" and a = 40 and u = 1
        and bo = "''LITTLE_ENDIAN''" and mem = "\<lambda>fc r. word_of_int r" and host = "''h''" and port = 502
        and c = sample_client]
    by (auto simp: upt_rec)
qed

theorem Read_returns_matching_reply_witness:
  "\<exists>c' data. Read (device_net [] (\<lambda>fc r. word_of_int r) (\<lambda>_ _ _. None)) ''h'' 502 1 3 40 2 sample_client = (c', Inr data)
     \<and> cl_transaction c' = 7 \<and> length data \<le> 250"
proof -
  have "Read (device_net [] (\<lambda>fc r. word_of_int r) (\<lambda>_ _ _. None)) ''h'' 502 1 3 40 2 sample_client =
      (sample_client\<lparr>cl_transaction := cl_transaction sample_client + 1\<rparr>,
       Inr (wire [] (device_registers (\<lambda>fc r. word_of_int r) 3 40 2)))"
    by (rule Read_device_values) simp_all
  with Read_returns_matching_reply [OF this] show ?thesis by (auto simp: sample_client_def)
qed

text \<open>
  A probe lists a function code exactly when the device answered it with something other than the
  exception \<open>illegal function\<close>, asks for 03 before 04, and reports an error exactly when it lists
  none.
\<close>

theorem ProbeDetails_lists_answers:
  "(let (c1, r3) = probeFunction net host port u 3 c; (c2, r4) = probeFunction net host port u 4 c1;
        (c', info, err) = ProbeDetails net host port u c
    in c' = c2 \<and> pi_FunctionCodes info = (if answers r3 then [3] else []) @ (if answers r4 then [4] else [])
       \<and> (err = None) = (answers r3 \<or> answers r4))"
proof -
  obtain c1 r3 where p3: "probeFunction net host port u 3 c = (c1, r3)" by fastforce
  obtain c2 r4 where p4: "probeFunction net host port u 4 c1 = (c2, r4)" by fastforce
  obtain d1 k1 e1 where s3: "probe_step net host port u 3 (c, [], []) = (d1, k1, e1)"
    by (cases "probe_step net host port u 3 (c, [], [])") auto
  note q3 = probe_step_codes [OF s3]
  obtain d2 k2 e2 where s4: "probe_step net host port u 4 (d1, k1, e1) = (d2, k2, e2)"
    by (cases "probe_step net host port u 4 (d1, k1, e1)") auto
  note q4 = probe_step_codes [OF s4]
  from p3 q3 have d1: "d1 = c1" "k1 = (if answers r3 then [3] else [])" by simp_all
  with p4 q4 have d2: "d2 = c2" "k2 = k1 @ (if answers r4 then [4] else [])" by simp_all
  have f: "fold (probe_step net host port u) [3, 4] (c, [], []) = (d2, k2, e2)" using s3 s4 by simp
  show ?thesis unfolding ProbeDetails_def f Let_def prod.case p3 p4 using d1 d2 by simp
qed

end
