(* ===== verification/PollService.thy ===== *)
theory PollService
  imports StoreRun ModbusClient
begin

section \<open>internal/app and internal/configcache: polling a device\<close>

text \<open>
  \<open>PollConnection\<close> of \<open>app/service.go\<close>: configuration to read blocks, blocks to Modbus reads with the
  fall back to single registers, registers to values. \<open>Config\<close> is the immutable snapshot of
  \<open>configcache\<close>. The Modbus client is the model of \<open>ModbusClient\<close> over an arbitrary network, so the
  functions below thread its state. The reading's time \<open>now\<close> is a parameter, and so is the text
  \<open>detail\<close> that \<open>json.Marshal\<close> makes of the failures.
\<close>

subsection \<open>Configuration\<close>

record Config =
  cf_Version :: int
  cf_Brands :: "Brand list"
  cf_DeviceSets :: "int \<rightharpoonup> DeviceSet"
  cf_Connections :: "int \<rightharpoonup> ConnectionConfig"
  cf_Plants :: "Plant list"

text \<open>\<open>RebuildFromStore\<close>; a later entry of an id overwrites an earlier one, as in the Go map.\<close>

definition RebuildFromStore ::
  "(Brand list \<Rightarrow> Brand list) \<Rightarrow> (ConnectionConfig list \<Rightarrow> ConnectionConfig list) \<Rightarrow> Store \<Rightarrow> Config" where
  "RebuildFromStore srt_brands srt_connections st =
     \<lparr>cf_Version = CurrentConfigVersion st, cf_Brands = Brands srt_brands st,
      cf_DeviceSets = fold (\<lambda>d m. m(ds_DeviceSetID d \<mapsto> d)) (DeviceSets st) Map.empty,
      cf_Connections = fold (\<lambda>c m. m(c_ConnectionID c \<mapsto> c)) (Connections srt_connections st) Map.empty,
      cf_Plants = Plants st\<rparr>"

definition ErrNoRows :: string where
  "ErrNoRows = ''sql: no rows in result set''"

definition localConnection :: "Store option \<Rightarrow> Config option \<Rightarrow> int \<Rightarrow> string + ConnectionConfig" where
  "localConnection st cache i =
     (case st of
        Some s \<Rightarrow>
          (case get_connection i s of
             Inr connection \<Rightarrow> Inr connection
           | Inl err \<Rightarrow> if err \<noteq> ErrNoRows then Inl (''load local connection: '' @ err)
                        else Inl ''connection not found'')
      | None \<Rightarrow>
          (case cache of
             None \<Rightarrow> Inl ''connection not found''
           | Some cfg \<Rightarrow> (case cf_Connections cfg i of
                            Some connection \<Rightarrow> Inr connection
                          | None \<Rightarrow> Inl ''connection not found'')))"

definition localDeviceSet :: "Store option \<Rightarrow> Config option \<Rightarrow> int \<Rightarrow> string + DeviceSet" where
  "localDeviceSet st cache i =
     (case st of
        Some s \<Rightarrow>
          (case get_device_set i s of
             Inr d \<Rightarrow> Inr d
           | Inl err \<Rightarrow> if err \<noteq> ErrNoRows then Inl (''load local device set: '' @ err)
                        else Inl ''device set not found'')
      | None \<Rightarrow>
          (case cache of
             None \<Rightarrow> Inl ''device set not found''
           | Some cfg \<Rightarrow> (case cf_DeviceSets cfg i of
                            Some d \<Rightarrow> Inr d
                          | None \<Rightarrow> Inl ''device set not found'')))"

definition poll_definition :: "Address \<Rightarrow> RegisterDefinition" where
  "poll_definition a =
     \<lparr>d_Key = itoa (a_FunctionCode a) @ '':'' @ itoa (a_Register a),
      d_SourceTag = first [a_SourceTag a, a_Description a],
      d_DataType = NormalizeDataType (a_DataType a), d_SourceUnit = a_SourceUnit a,
      d_CanonicalUnit = a_CanonicalUnit a, d_RegisterAddress = a_Register a,
      d_FunctionCode = a_FunctionCode a, d_Length = a_Length a, d_Scale = a_Factor a,
      d_Offset = a_Offset a, d_WordOrder = a_WordOrder a, d_Enabled = a_Enabled a\<rparr>"

definition poll_profile :: "DeviceSet \<Rightarrow> RegisterProfile" where
  "poll_profile ds =
     \<lparr>rp_ProfileID = itoa (ds_DeviceSetID ds), rp_ProfileName = ds_BrandName ds @ '' '' @ ds_DevModel ds,
      rp_AddressMode = first [ds_AddressMode ds, ''ZERO_BASED''],
      rp_ByteOrder = first [ds_ByteOrder ds, ''BIG_ENDIAN''],
      rp_WordOrder = first [ds_WordOrder ds, ''HIGH_LOW''], rp_MaxBlockSize = ds_MaxBlockSize ds,
      rp_DevTypeID = ds_DevTypeID ds, rp_DefaultFunctionCode = 0, rp_Enabled = True,
      rp_Registers = map poll_definition (ds_Addresses ds)\<rparr>"

subsection \<open>Reading and decoding\<close>

record ReadFailure =
  rf_FunctionCode :: int
  rf_Start :: "16 word"
  rf_Quantity :: "16 word"
  rf_UnitID :: int
  rf_Error :: string
  rf_Hint :: string

text \<open>The variables of one run of \<open>PollConnection\<close>.\<close>

record 'w Poll =
  po_client :: "'w Client"
  po_values :: "string \<rightharpoonup> f64"
  po_measurements :: "RegisterSample list"
  po_lastReadErr :: "string option"
  po_failures :: "ReadFailure list"

definition modbusAddressHint :: "int \<Rightarrow> 16 word \<Rightarrow> string \<Rightarrow> string" where
  "modbusAddressHint fc start err =
     (if \<not> contains err ''modbus exception'' then []
      else if fc = 3 \<and> 40001 \<le> start \<and> start < 50000
      then ''start address looks like 4xxxx notation; try Address Mode REGISTER_40001 for FC03 holding registers''
      else if fc = 4 \<and> 30001 \<le> start \<and> start < 40000
      then ''start address looks like 3xxxx notation; try Address Mode REGISTER_30001 for FC04 input registers''
      else [])"

text \<open>\<open>appendFailure\<close>, which every caller runs after \<open>lastReadErr = err\<close>.\<close>

definition poll_fail ::
  "ConnectionConfig \<Rightarrow> int \<Rightarrow> 16 word \<Rightarrow> 16 word \<Rightarrow> string \<Rightarrow> 'w Poll \<Rightarrow> 'w Poll" where
  "poll_fail connection fc start quantity err st =
     st\<lparr>po_lastReadErr := Some err,
        po_failures := po_failures st @
          [\<lparr>rf_FunctionCode = fc, rf_Start = start, rf_Quantity = quantity,
            rf_UnitID = c_UnitID connection, rf_Error = err, rf_Hint = modbusAddressHint fc start err\<rparr>]\<rparr>"

definition readRegisters ::
  "'w Net \<Rightarrow> ConnectionConfig \<Rightarrow> string \<Rightarrow> int \<Rightarrow> 16 word \<Rightarrow> 16 word \<Rightarrow> 'w Poll \<Rightarrow>
     'w Poll \<times> (string + 16 word list)" where
  "readRegisters net connection byteOrder fc start quantity st =
     (let context = ''fc='' @ pad2 fc @ '' start='' @ itoa (uint start) @ '' quantity=''
                    @ itoa (uint quantity) @ '' unit='' @ itoa (c_UnitID connection) @ '': '';
          (c, r) = Read net (c_Host connection) (c_Port connection) (c_UnitID connection) fc start quantity
                     (po_client st);
          st = st\<lparr>po_client := c\<rparr>
      in case r of
           Inl e \<Rightarrow> (st, Inl (context @ e))
         | Inr data \<Rightarrow>
             (case BytesToRegisters data byteOrder of
                Inl e \<Rightarrow> (st, Inl (context @ e))
              | Inr regs \<Rightarrow> (st, Inr regs)))"

definition decodeEntry ::
  "ConnectionConfig \<Rightarrow> RegisterProfile \<Rightarrow> Entry \<Rightarrow> 16 word list \<Rightarrow> 16 word \<Rightarrow> 'w Poll \<Rightarrow> 'w Poll" where
  "decodeEntry connection p entry regs base st =
     (let start = uint (e_Offset entry - base); def = e_Definition entry;
          fail = (\<lambda>err. poll_fail connection (d_FunctionCode def) (e_Offset entry)
                          (word_of_int (d_Length def)) (d_SourceTag def @ err) st)
      in if start < 0 \<or> int (length regs) < start + d_Length def
         then fail '': incomplete register response''
         else (case Decode (take (nat (d_Length def)) (drop (nat start) regs)) (d_DataType def)
                      (first [d_WordOrder def, rp_WordOrder p]) of
                 Inl e \<Rightarrow> fail ('': '' @ e)
               | Inr raw \<Rightarrow>
                   if is_nan raw then fail '': sentinel/NaN skipped''
                   else st\<lparr>po_values := (po_values st)(itoa (d_RegisterAddress def) \<mapsto> raw),
                           po_measurements := po_measurements st @
                             [\<lparr>s_FunctionCode = d_FunctionCode def, s_RegisterAddress = d_RegisterAddress def,
                               s_DataType = d_DataType def, s_RawValue = raw, s_Quality = ''GOOD''\<rparr>]\<rparr>))"

text \<open>The inner loop: each entry of a block that could not be read at once is read alone.\<close>

definition poll_single ::
  "'w Net \<Rightarrow> ConnectionConfig \<Rightarrow> RegisterProfile \<Rightarrow> Entry \<Rightarrow> 'w Poll \<Rightarrow> 'w Poll" where
  "poll_single net connection p entry st =
     (let quantity = word_of_int (d_Length (e_Definition entry));
          fc = d_FunctionCode (e_Definition entry) in
      case readRegisters net connection (rp_ByteOrder p) fc (e_Offset entry) quantity st of
        (st, Inl e) \<Rightarrow> poll_fail connection fc (e_Offset entry) quantity e st
      | (st, Inr regs) \<Rightarrow> decodeEntry connection p entry regs (e_Offset entry) st)"

definition poll_block ::
  "'w Net \<Rightarrow> ConnectionConfig \<Rightarrow> RegisterProfile \<Rightarrow> Block \<Rightarrow> 'w Poll \<Rightarrow> 'w Poll" where
  "poll_block net connection p b st =
     (case readRegisters net connection (rp_ByteOrder p) (bk_FunctionCode b) (bk_Start b) (bk_Quantity b) st of
        (st, Inr regs) \<Rightarrow> fold (\<lambda>entry. decodeEntry connection p entry regs (bk_Start b)) (bk_Entries b) st
      | (st, Inl e) \<Rightarrow>
          let st = poll_fail connection (bk_FunctionCode b) (bk_Start b) (bk_Quantity b) e st in
          if length (bk_Entries b) = 1
             \<and> bk_Quantity b = word_of_int (d_Length (e_Definition (hd (bk_Entries b))))
          then st
          else fold (poll_single net connection p) (bk_Entries b) st)"

text \<open>
  \<open>PollConnection\<close> of a service with a store. The results are the client's and the store's state and
  the reading with its samples; \<open>logPoll\<close> ignores the error of its write.
\<close>

definition poll_reading ::
  "ConnectionConfig \<Rightarrow> DeviceSet \<Rightarrow> int \<Rightarrow> 'w Poll \<Rightarrow> string + Reading \<times> RegisterSample list" where
  "poll_reading connection ds now st =
     (if po_measurements st = [] then
        (case po_lastReadErr st of Some err \<Rightarrow> Inl err | None \<Rightarrow> Inl ''device returned no data'')
      else Inr (\<lparr>r_GatewayID = [], r_DevDn = c_DevDn connection, r_DevName = c_DeviceName connection,
                 r_PlantCode = c_PlantCode connection, r_PlantName = c_PlantName connection,
                 r_DevTypeID = ds_DevTypeID ds, r_Model = ds_DevModel ds, r_CollectTime = now,
                 r_RegisterAddressMap = po_values st\<rparr>, po_measurements st))"

definition poll_log :: "ConnectionConfig \<Rightarrow> string \<Rightarrow> string \<Rightarrow> string \<Rightarrow> PollLog" where
  "poll_log connection status message detail =
     \<lparr>pl_ID = 0, pl_ConnectionID = c_ConnectionID connection,
      pl_ConnectionName = c_ConnectionName connection, pl_Status = status, pl_Message = message,
      pl_Detail = detail, pl_CreatedAt = 0\<rparr>"

definition PollConnection ::
  "'w Net \<Rightarrow> (Entry list \<Rightarrow> Entry list) \<Rightarrow> (ReadFailure list \<Rightarrow> string) \<Rightarrow> int \<Rightarrow> string option \<Rightarrow> string \<Rightarrow>
     'w Client \<times> Store \<Rightarrow> ('w Client \<times> Store) \<times> (string + Reading \<times> RegisterSample list)" where
  "PollConnection net srt detail now io arg cs =
     (let (c, s) = cs in
      case parse_int64 (trim_space arg) of
        None \<Rightarrow> (cs, Inl ''invalid connection id'')
      | Some i \<Rightarrow>
     (case localConnection (Some s) None i of
        Inl err \<Rightarrow> (cs, Inl err)
      | Inr connection \<Rightarrow>
     (case localDeviceSet (Some s) None (c_DeviceSetID connection) of
        Inl err \<Rightarrow> (cs, Inl err)
      | Inr ds \<Rightarrow>
     (case BuildBlocks srt (poll_profile ds) of
        Inl err \<Rightarrow> (cs, Inl err)
      | Inr blocks \<Rightarrow>
          if blocks = [] then (cs, Inl ''device set has no address'')
          else
            let st = fold (poll_block net connection (poll_profile ds)) blocks
                       \<lparr>po_client = c, po_values = Map.empty, po_measurements = [], po_lastReadErr = None,
                        po_failures = []\<rparr>;
                n = length (po_failures st);
                s = (if 0 < n
                     then fst (SavePollLog now io
                                 (poll_log connection ''WARN'' (itoa (int n) @ '' Modbus read warning(s)'')
                                    (detail (po_failures st))) s)
                     else s)
            in ((po_client st, s), poll_reading connection ds now st)))))"

subsection \<open>What a poll of an answering device gives\<close>

text \<open>
  The specification: the value of an entry is what \<open>Decode\<close> makes of the device's registers at the
  entry's offset, and nothing where \<open>Decode\<close> fails or gives NaN.
\<close>

definition entry_regs :: "(int \<Rightarrow> int \<Rightarrow> 16 word) \<Rightarrow> Entry \<Rightarrow> 16 word list" where
  "entry_regs mem e =
     device_registers mem (d_FunctionCode (e_Definition e)) (e_Offset e)
       (word_of_int (d_Length (e_Definition e)))"

definition decode_value :: "string + f64 \<Rightarrow> f64 option" where
  "decode_value r = (case r of Inl _ \<Rightarrow> None | Inr raw \<Rightarrow> if is_nan raw then None else Some raw)"

definition entry_value :: "(int \<Rightarrow> int \<Rightarrow> 16 word) \<Rightarrow> RegisterProfile \<Rightarrow> Entry \<Rightarrow> f64 option" where
  "entry_value mem p e =
     decode_value (Decode (entry_regs mem e) (d_DataType (e_Definition e))
                     (first [d_WordOrder (e_Definition e), rp_WordOrder p]))"

definition put_value ::
  "(int \<Rightarrow> int \<Rightarrow> 16 word) \<Rightarrow> RegisterProfile \<Rightarrow> Entry \<Rightarrow> (string \<rightharpoonup> f64) \<Rightarrow> (string \<rightharpoonup> f64)" where
  "put_value mem p e m =
     (case entry_value mem p e of None \<Rightarrow> m | Some raw \<Rightarrow> m(itoa (d_RegisterAddress (e_Definition e)) \<mapsto> raw))"

definition entry_samples :: "(int \<Rightarrow> int \<Rightarrow> 16 word) \<Rightarrow> RegisterProfile \<Rightarrow> Entry \<Rightarrow> RegisterSample list" where
  "entry_samples mem p e =
     (case entry_value mem p e of
        None \<Rightarrow> []
      | Some raw \<Rightarrow>
          [\<lparr>s_FunctionCode = d_FunctionCode (e_Definition e),
            s_RegisterAddress = d_RegisterAddress (e_Definition e),
            s_DataType = d_DataType (e_Definition e), s_RawValue = raw, s_Quality = ''GOOD''\<rparr>])"

text \<open>What of a poll's variables the specification speaks about.\<close>

definition poll_result :: "'w Poll \<Rightarrow> (string \<rightharpoonup> f64) \<times> RegisterSample list" where
  "poll_result st = (po_values st, po_measurements st)"

definition put_result ::
  "(int \<Rightarrow> int \<Rightarrow> 16 word) \<Rightarrow> RegisterProfile \<Rightarrow> Entry \<Rightarrow> (string \<rightharpoonup> f64) \<times> RegisterSample list \<Rightarrow>
     (string \<rightharpoonup> f64) \<times> RegisterSample list" where
  "put_result mem p e vm = (put_value mem p e (fst vm), snd vm @ entry_samples mem p e)"

lemma poll_fail_result [simp]: "poll_result (poll_fail connection fc start q err st) = poll_result st"
  by (simp add: poll_result_def poll_fail_def)

lemma length_entry_regs: "entry_ok e \<Longrightarrow> int (length (entry_regs mem e)) = d_Length (e_Definition e)"
  by (simp add: entry_regs_def device_registers_def entry_ok_def uint_of_int_16)

lemma decodeEntry_alone:
  assumes e: "entry_ok e"
  shows "poll_result (decodeEntry connection p e (entry_regs mem e) (e_Offset e) st) =
    put_result mem p e (poll_result st)"
proof -
  have l: "int (length (entry_regs mem e)) = d_Length (e_Definition e)"
    using e by (rule length_entry_regs)
  then have n: "nat (d_Length (e_Definition e)) = length (entry_regs mem e)" by simp
  show ?thesis
  proof (cases "Decode (entry_regs mem e) (d_DataType (e_Definition e))
      (first [d_WordOrder (e_Definition e), rp_WordOrder p])")
    case (Inl err)
    then show ?thesis
      using l n by (simp add: decodeEntry_def Let_def put_result_def put_value_def entry_samples_def
          entry_value_def decode_value_def poll_result_def poll_fail_def)
  next
    case (Inr raw)
    then show ?thesis
      using l n by (simp add: decodeEntry_def Let_def put_result_def put_value_def entry_samples_def
          entry_value_def decode_value_def poll_result_def poll_fail_def)
  qed
qed

definition block_regs :: "(int \<Rightarrow> int \<Rightarrow> 16 word) \<Rightarrow> Block \<Rightarrow> 16 word list" where
  "block_regs mem b = device_registers mem (bk_FunctionCode b) (bk_Start b) (bk_Quantity b)"

text \<open>Cutting an entry out of its block's registers gives the registers at the entry's own offset.\<close>

lemma block_slice:
  assumes e: "entry_ok e" and fc: "d_FunctionCode (e_Definition e) = bk_FunctionCode b"
    and lo: "bk_from b \<le> e_from e" and hi: "e_to e \<le> bk_to b"
  shows "uint (e_Offset e - bk_Start b) = e_from e - bk_from b"
    and "take (nat (d_Length (e_Definition e))) (drop (nat (e_from e - bk_from b)) (block_regs mem b))
      = entry_regs mem e"
proof -
  show "uint (e_Offset e - bk_Start b) = e_from e - bk_from b"
    using lo by (simp add: uint_sub_if' e_from_def bk_from_def)
  have len: "unat (word_of_int (d_Length (e_Definition e)) :: 16 word) = nat (d_Length (e_Definition e))"
    using e by (simp add: unat_eq_nat_uint uint_of_int_16 entry_ok_def)
  define k where "k = nat (e_from e - bk_from b)"
  define n where "n = nat (d_Length (e_Definition e))"
  define q where "q = unat (bk_Quantity b)"
  have "int k = e_from e - bk_from b" using lo by (simp add: k_def)
  moreover have "int n = d_Length (e_Definition e)" using e by (simp add: n_def entry_ok_def)
  moreover have "int q = bk_to b - bk_from b" by (simp add: q_def bk_to_def bk_from_def)
  moreover have "e_to e = e_from e + d_Length (e_Definition e)" by (simp add: e_to_def e_from_def)
  ultimately have kn: "k + n \<le> q" using hi by linarith
  have pos: "uint (bk_Start b) + int (k + i) = uint (e_Offset e) + int i" for i
    using lo by (simp add: k_def e_from_def bk_from_def)
  have "take n (drop k (map f [0..<q])) = map (\<lambda>i. f (k + i)) [0..<n]" for f :: "nat \<Rightarrow> 16 word"
    using kn by (intro nth_equalityI) auto
  then have "take n (drop k (block_regs mem b))
      = map (\<lambda>i. mem (bk_FunctionCode b) (uint (bk_Start b) + int (k + i))) [0..<n]"
    by (simp only: block_regs_def device_registers_def flip: q_def)
  also have "\<dots> = entry_regs mem e"
    by (simp only: pos entry_regs_def device_registers_def fc len n_def)
  finally show "take (nat (d_Length (e_Definition e))) (drop (nat (e_from e - bk_from b)) (block_regs mem b))
      = entry_regs mem e"
    by (simp add: k_def n_def)
qed

lemma decodeEntry_in_block:
  assumes e: "entry_ok e" and fc: "d_FunctionCode (e_Definition e) = bk_FunctionCode b"
    and lo: "bk_from b \<le> e_from e" and hi: "e_to e \<le> bk_to b"
  shows "poll_result (decodeEntry connection p e (block_regs mem b) (bk_Start b) st) =
    put_result mem p e (poll_result st)"
proof -
  have len: "int (length (block_regs mem b)) = uint (bk_Quantity b)"
    by (simp add: block_regs_def device_registers_def)
  have n: "nat (d_Length (e_Definition e)) = length (entry_regs mem e)"
    using length_entry_regs [OF e, of mem] by simp
  have "decodeEntry connection p e (block_regs mem b) (bk_Start b) st
      = decodeEntry connection p e (entry_regs mem e) (e_Offset e) st"
    unfolding decodeEntry_def Let_def block_slice(1) [OF assms] block_slice(2) [OF assms] len
    using lo hi n length_entry_regs [OF e, of mem]
    by (simp add: e_to_def e_from_def bk_to_def bk_from_def)
  then show ?thesis using decodeEntry_alone [OF e] by simp
qed

lemma decode_block_entries:
  assumes "\<forall>e \<in> set es. entry_ok e \<and> d_FunctionCode (e_Definition e) = bk_FunctionCode b
      \<and> bk_from b \<le> e_from e \<and> e_to e \<le> bk_to b"
  shows "poll_result (fold (\<lambda>e. decodeEntry connection p e (block_regs mem b) (bk_Start b)) es st) =
    fold (put_result mem p) es (poll_result st)"
  using assms by (induction es arbitrary: st) (simp_all add: decodeEntry_in_block)

text \<open>Reading from the device.\<close>

lemma readRegisters_device:
  assumes "fc = 3 \<or> fc = 4" and "1 \<le> uint q" and "uint q \<le> 125" and "refuse fc a q = None"
  shows "\<exists>c. readRegisters (device_net bo mem refuse) connection bo fc a q st =
    (st\<lparr>po_client := c\<rparr>, Inr (device_registers mem fc a q))"
  using Read_device_values [of fc q refuse a bo mem "c_Host connection" "c_Port connection"
      "c_UnitID connection" "po_client st", OF assms]
  by (auto simp: readRegisters_def Let_def BytesToRegisters_wire)

lemma readRegisters_result:
  "poll_result (fst (readRegisters net connection bo fc a q st)) = poll_result st"
  by (auto simp: readRegisters_def Let_def poll_result_def split: prod.splits sum.splits)

lemma readRegisters_error:
  assumes "snd (Read net (c_Host connection) (c_Port connection) (c_UnitID connection) fc a q (po_client st)) = Inl e"
  shows "\<exists>st' e'. readRegisters net connection bo fc a q st = (st', Inl e')"
  using assms
  by (cases "Read net (c_Host connection) (c_Port connection) (c_UnitID connection) fc a q (po_client st)")
    (simp add: readRegisters_def)

lemma poll_single_device:
  assumes e: "entry_ok e" and ok: "refuse (d_FunctionCode (e_Definition e)) (e_Offset e)
      (word_of_int (d_Length (e_Definition e))) = None"
  shows "poll_result (poll_single (device_net (rp_ByteOrder p) mem refuse) connection p e st) =
    put_result mem p e (poll_result st)"
proof -
  have q: "uint (word_of_int (d_Length (e_Definition e)) :: 16 word) = d_Length (e_Definition e)"
    using e by (simp add: entry_ok_def uint_of_int_16)
  have "\<exists>c. readRegisters (device_net (rp_ByteOrder p) mem refuse) connection (rp_ByteOrder p)
      (d_FunctionCode (e_Definition e)) (e_Offset e) (word_of_int (d_Length (e_Definition e))) st
    = (st\<lparr>po_client := c\<rparr>, Inr (entry_regs mem e))"
    using e ok q unfolding entry_regs_def by (intro readRegisters_device) (auto simp: entry_ok_def)
  then obtain c where "readRegisters (device_net (rp_ByteOrder p) mem refuse) connection (rp_ByteOrder p)
      (d_FunctionCode (e_Definition e)) (e_Offset e) (word_of_int (d_Length (e_Definition e))) st
    = (st\<lparr>po_client := c\<rparr>, Inr (entry_regs mem e))" ..
  then show ?thesis
    using decodeEntry_alone [OF e, of connection p mem "st\<lparr>po_client := c\<rparr>"]
    by (simp add: poll_single_def Let_def poll_result_def)
qed

text \<open>
  A block of an answering device, or of one that refuses the block as a whole and answers for each of
  its entries: either way every entry gets its value.
\<close>

definition answered :: "(int \<Rightarrow> 16 word \<Rightarrow> 16 word \<Rightarrow> 8 word option) \<Rightarrow> Entry \<Rightarrow> bool" where
  "answered refuse e \<longleftrightarrow>
     refuse (d_FunctionCode (e_Definition e)) (e_Offset e) (word_of_int (d_Length (e_Definition e))) = None"

lemma poll_singles_device:
  assumes "\<forall>e \<in> set es. entry_ok e \<and> answered refuse e"
  shows "poll_result (fold (poll_single (device_net (rp_ByteOrder p) mem refuse) connection p) es st) =
    fold (put_result mem p) es (poll_result st)"
  using assms
  by (induction es arbitrary: st) (simp_all add: poll_single_device answered_def)

lemma poll_block_device:
  assumes b: "block_ok limit b" and es: "\<forall>e \<in> set (bk_Entries b). entry_ok e \<and> answered refuse e"
  shows "poll_result (poll_block (device_net (rp_ByteOrder p) mem refuse) connection p b st) =
    fold (put_result mem p) (bk_Entries b) (poll_result st)"
proof -
  let ?net = "device_net (rp_ByteOrder p) mem refuse"
  have ne: "hd (bk_Entries b) \<in> set (bk_Entries b)" using b by (simp add: block_ok_def)
  with b es have fc: "bk_FunctionCode b = 3 \<or> bk_FunctionCode b = 4"
    by (auto simp: block_ok_def entry_ok_def)
  have q: "1 \<le> uint (bk_Quantity b)" "uint (bk_Quantity b) \<le> 125"
    using b by (simp_all add: block_ok_def bk_from_def bk_to_def)
  show ?thesis
  proof (cases "refuse (bk_FunctionCode b) (bk_Start b) (bk_Quantity b)")
    case None
    from readRegisters_device [of "bk_FunctionCode b" "bk_Quantity b" refuse "bk_Start b" "rp_ByteOrder p"
        mem connection st, OF fc q None]
    obtain c where "readRegisters ?net connection (rp_ByteOrder p) (bk_FunctionCode b) (bk_Start b)
        (bk_Quantity b) st = (st\<lparr>po_client := c\<rparr>, Inr (block_regs mem b))"
      by (auto simp: block_regs_def)
    moreover have "poll_result (fold (\<lambda>e. decodeEntry connection p e (block_regs mem b) (bk_Start b))
        (bk_Entries b) (st\<lparr>po_client := c\<rparr>)) = fold (put_result mem p) (bk_Entries b) (poll_result (st\<lparr>po_client := c\<rparr>))"
      using b es by (intro decode_block_entries) (auto simp: block_ok_def)
    ultimately show ?thesis by (simp add: poll_block_def poll_result_def)
  next
    case (Some code)
    have "snd (Read ?net (c_Host connection) (c_Port connection) (c_UnitID connection) (bk_FunctionCode b)
        (bk_Start b) (bk_Quantity b) (po_client st)) = Inl (''modbus exception '' @ itoa (uint code))"
      by (rule Read_device_exception [of "bk_FunctionCode b" "bk_Quantity b" refuse "bk_Start b" code,
            OF fc q Some])
    from readRegisters_error [OF this] obtain st' e
      where r: "readRegisters ?net connection (rp_ByteOrder p) (bk_FunctionCode b) (bk_Start b)
        (bk_Quantity b) st = (st', Inl e)" by blast
    then have st': "poll_result st' = poll_result st"
      using readRegisters_result [of ?net connection "rp_ByteOrder p" "bk_FunctionCode b" "bk_Start b"
          "bk_Quantity b" st] by simp
    have many: "\<not> (length (bk_Entries b) = 1
        \<and> bk_Quantity b = word_of_int (d_Length (e_Definition (hd (bk_Entries b)))))"
    proof
      assume *: "length (bk_Entries b) = 1
        \<and> bk_Quantity b = word_of_int (d_Length (e_Definition (hd (bk_Entries b))))"
      from b have "uint (e_Offset (hd (bk_Entries b))) = uint (bk_Start b)"
        by (simp add: block_ok_def bk_from_def e_from_def)
      then have "e_Offset (hd (bk_Entries b)) = bk_Start b" by (simp only: word_uint_eq_iff)
      moreover from b ne have "d_FunctionCode (e_Definition (hd (bk_Entries b))) = bk_FunctionCode b"
        by (auto simp: block_ok_def)
      ultimately show False using * es ne Some by (auto simp: answered_def)
    qed
    show ?thesis
      unfolding poll_block_def r prod.case sum.case Let_def if_not_P [OF many]
      using poll_singles_device [OF es] by (simp add: st')
  qed
qed

lemma poll_blocks_device:
  assumes "\<forall>b \<in> set blocks. block_ok limit b"
    and "\<forall>e \<in> set (concat (map bk_Entries blocks)). entry_ok e \<and> answered refuse e"
  shows "poll_result (fold (poll_block (device_net (rp_ByteOrder p) mem refuse) connection p) blocks st) =
    fold (put_result mem p) (concat (map bk_Entries blocks)) (poll_result st)"
  using assms
  by (induction blocks arbitrary: st) (simp_all add: poll_block_device [where limit = limit])

subsection \<open>From addresses to entries\<close>

text \<open>What an address stands for: the request that reads it, and the value of the registers there.\<close>

definition address_target :: "DeviceSet \<Rightarrow> Address \<Rightarrow> ResolvedAddress option" where
  "address_target ds a =
     (case ResolveModbusAddress (ds_AddressMode ds) (address_definition a) of
        Inl _ \<Rightarrow> None | Inr t \<Rightarrow> Some t)"

definition target_value :: "(int \<Rightarrow> int \<Rightarrow> 16 word) \<Rightarrow> DeviceSet \<Rightarrow> Address \<Rightarrow> ResolvedAddress \<Rightarrow> f64 option" where
  "target_value mem ds a t =
     decode_value (Decode (device_registers mem (ra_FunctionCode t) (ra_Start t) (ra_Quantity t))
       (NormalizeDataType (a_DataType a)) (first [a_WordOrder a, ds_WordOrder ds]))"

definition address_value :: "(int \<Rightarrow> int \<Rightarrow> 16 word) \<Rightarrow> DeviceSet \<Rightarrow> Address \<Rightarrow> f64 option" where
  "address_value mem ds a = Option.bind (address_target ds a) (target_value mem ds a)"

definition address_answered ::
  "(int \<Rightarrow> 16 word \<Rightarrow> 16 word \<Rightarrow> 8 word option) \<Rightarrow> DeviceSet \<Rightarrow> Address \<Rightarrow> bool" where
  "address_answered refuse ds a =
     (case address_target ds a of
        None \<Rightarrow> False
      | Some t \<Rightarrow> refuse (ra_FunctionCode t) (ra_Start t) (ra_Quantity t) = None)"

lemma ResolveModbusAddress_same:
  assumes "d_FunctionCode d = d_FunctionCode d'" and "d_RegisterAddress d = d_RegisterAddress d'"
    and "d_Length d = d_Length d'"
  shows "ResolveModbusAddress m d = Inr r \<longleftrightarrow> ResolveModbusAddress m d' = Inr r"
  using assms by (auto simp: ResolveModbusAddress_def split: sum.splits)

lemma trim_keywords [simp]:
  "trim_space ''BIG_ENDIAN'' = ''BIG_ENDIAN''" "trim_space ''LITTLE_ENDIAN'' = ''LITTLE_ENDIAN''"
  "trim_space ''HIGH_LOW'' = ''HIGH_LOW''" "trim_space ''LOW_HIGH'' = ''LOW_HIGH''"
  by (simp_all add: trim_space_plain plain_byte_def)

lemma trim_canonical_mode: "m \<in> set canonical_modes \<Longrightarrow> trim_space m = m \<and> m \<noteq> []"
  by (auto simp: canonical_modes_def trim_space_plain plain_byte_def)

lemma poll_profile_orders:
  assumes "device_set_ok ds"
  shows "rp_AddressMode (poll_profile ds) = ds_AddressMode ds"
    and "rp_ByteOrder (poll_profile ds) = ds_ByteOrder ds"
    and "rp_WordOrder (poll_profile ds) = ds_WordOrder ds"
  using assms trim_canonical_mode [of "ds_AddressMode ds"]
  by (auto simp: device_set_ok_def poll_profile_def)

text \<open>The entry of an address of an accepted device set.\<close>

definition address_entry :: "Address \<Rightarrow> ResolvedAddress \<Rightarrow> Entry" where
  "address_entry a t =
     \<lparr>e_Definition = (poll_definition a)\<lparr>d_FunctionCode := ra_FunctionCode t\<rparr>, e_Offset = ra_Start t\<rparr>"

lemma resolve_poll_definition:
  assumes ok: "device_set_ok ds" and a: "a \<in> set (ds_Addresses ds)"
  obtains t where "address_target ds a = Some t"
    and "resolve_entry (poll_profile ds) (poll_definition a) = Inr (address_entry a t)"
    and "uint (ra_Quantity t) = a_Length a" and "1 \<le> a_Length a"
proof -
  from ok a have "address_ok (ds_AddressMode ds) a" by (simp add: device_set_ok_def)
  then obtain t where r: "ResolveModbusAddress (ds_AddressMode ds) (address_definition a) = Inr t"
    and fc: "a_FunctionCode a \<noteq> 0" and l: "1 \<le> a_Length a" "a_Length a \<le> 4"
    by (auto simp: address_ok_def is_ok_iff)
  then have t: "address_target ds a = Some t" by (simp add: address_target_def)
  have "ResolveModbusAddress (ds_AddressMode ds) (poll_definition a) = Inr t"
    using r by (subst ResolveModbusAddress_same [of _ "address_definition a"])
      (simp_all add: poll_definition_def address_definition_def)
  then have e: "resolve_entry (poll_profile ds) (poll_definition a) = Inr (address_entry a t)"
    using fc l poll_profile_orders(1) [OF ok]
    by (simp add: resolve_entry_def Let_def address_entry_def) (simp add: poll_definition_def)
  have "uint (ra_Quantity t) = a_Length a"
    using ResolveModbusAddress_ok(2) [OF r] by (simp add: address_definition_def)
  with t e l show ?thesis using that by blast
qed

lemma address_entry_value:
  assumes ok: "device_set_ok ds" and t: "address_target ds a = Some t" and q: "uint (ra_Quantity t) = a_Length a"
  shows "entry_value mem (poll_profile ds) (address_entry a t) = address_value mem ds a"
    and "d_RegisterAddress (e_Definition (address_entry a t)) = a_Register a"
    and "answered refuse (address_entry a t) = address_answered refuse ds a"
proof -
  have w: "word_of_int (a_Length a) = ra_Quantity t" by (simp flip: q)
  show "entry_value mem (poll_profile ds) (address_entry a t) = address_value mem ds a"
    by (simp add: entry_value_def address_value_def t target_value_def address_entry_def entry_regs_def
        poll_definition_def w poll_profile_orders(3) [OF ok])
  show "d_RegisterAddress (e_Definition (address_entry a t)) = a_Register a"
    by (simp add: address_entry_def poll_definition_def)
  show "answered refuse (address_entry a t) = address_answered refuse ds a"
    by (simp add: answered_def address_answered_def t address_entry_def poll_definition_def w)
qed

definition enabled_addresses :: "DeviceSet \<Rightarrow> Address list" where
  "enabled_addresses ds = filter a_Enabled (ds_Addresses ds)"

definition entry_for :: "DeviceSet \<Rightarrow> Address \<Rightarrow> Entry" where
  "entry_for ds a = address_entry a (the (address_target ds a))"

lemma entry_for_facts:
  assumes ok: "device_set_ok ds" and a: "a \<in> set (enabled_addresses ds)"
  shows "resolve_entry (poll_profile ds) (poll_definition a) = Inr (entry_for ds a)"
    and "entry_value mem (poll_profile ds) (entry_for ds a) = address_value mem ds a"
    and "d_RegisterAddress (e_Definition (entry_for ds a)) = a_Register a"
    and "answered refuse (entry_for ds a) = address_answered refuse ds a"
    and "entry_ok (entry_for ds a)"
proof -
  from a have "a \<in> set (ds_Addresses ds)" by (simp add: enabled_addresses_def)
  from resolve_poll_definition [OF ok this] obtain t where t: "address_target ds a = Some t"
    and r: "resolve_entry (poll_profile ds) (poll_definition a) = Inr (address_entry a t)"
    and q: "uint (ra_Quantity t) = a_Length a" by blast
  have e: "entry_for ds a = address_entry a t" by (simp add: entry_for_def t)
  show "resolve_entry (poll_profile ds) (poll_definition a) = Inr (entry_for ds a)" by (simp add: e r)
  then show "entry_ok (entry_for ds a)" by (rule resolve_entry_ok)
  show "entry_value mem (poll_profile ds) (entry_for ds a) = address_value mem ds a"
    "d_RegisterAddress (e_Definition (entry_for ds a)) = a_Register a"
    "answered refuse (entry_for ds a) = address_answered refuse ds a"
    unfolding e using address_entry_value [OF ok t q] by simp_all
qed

text \<open>The device sets the configuration rules accept never make \<open>BuildBlocks\<close> fail.\<close>

lemma poll_entries:
  assumes ok: "device_set_ok ds"
  shows "traverse (resolve_entry (poll_profile ds)) (filter d_Enabled (rp_Registers (poll_profile ds)))
    = Inr (map (entry_for ds) (enabled_addresses ds))"
proof -
  have "filter d_Enabled (rp_Registers (poll_profile ds)) = map poll_definition (enabled_addresses ds)"
    by (simp add: poll_profile_def enabled_addresses_def filter_map comp_def poll_definition_def)
  moreover have "traverse (resolve_entry (poll_profile ds) \<circ> poll_definition) (enabled_addresses ds)
      = Inr (map (entry_for ds) (enabled_addresses ds))"
    using entry_for_facts(1) [OF ok]
    by (simp add: traverse_Inr_iff list_all2_map2 list_all2_same)
  ultimately show ?thesis by (simp add: traverse_map)
qed

text \<open>The values of a fold over entries with different registers.\<close>

lemma put_results_fold:
  "fst (fold (put_result mem p) es vm) = fold (put_value mem p) es (fst vm)"
  "snd (fold (put_result mem p) es vm) = snd vm @ concat (map (entry_samples mem p) es)"
  by (induction es arbitrary: vm) (simp_all add: put_result_def)

lemma put_value_other:
  "key \<noteq> itoa (d_RegisterAddress (e_Definition e)) \<Longrightarrow> put_value mem p e m key = m key"
  by (simp add: put_value_def split: option.splits)

lemma fold_put_value_other:
  "\<forall>e \<in> set es. key \<noteq> itoa (d_RegisterAddress (e_Definition e)) \<Longrightarrow> fold (put_value mem p) es m key = m key"
  by (induction es arbitrary: m) (simp_all add: put_value_other)

lemma fold_put_value:
  assumes "distinct (map (\<lambda>e. itoa (d_RegisterAddress (e_Definition e))) es)" and "e \<in> set es"
    and "m (itoa (d_RegisterAddress (e_Definition e))) = None"
  shows "fold (put_value mem p) es m (itoa (d_RegisterAddress (e_Definition e))) = entry_value mem p e"
  using assms
proof (induction es arbitrary: m)
  case Nil
  then show ?case by simp
next
  case (Cons x xs)
  show ?case
  proof (cases "x = e")
    case True
    with Cons.prems(1) have "\<forall>y \<in> set xs. itoa (d_RegisterAddress (e_Definition e)) \<noteq> itoa (d_RegisterAddress (e_Definition y))"
      by (auto simp: image_iff)
    then have "fold (put_value mem p) (x # xs) m (itoa (d_RegisterAddress (e_Definition e)))
        = put_value mem p e m (itoa (d_RegisterAddress (e_Definition e)))"
      using True by (simp add: fold_put_value_other)
    also have "\<dots> = entry_value mem p e"
      using Cons.prems(3) by (simp add: put_value_def split: option.splits)
    finally show ?thesis .
  next
    case False
    with Cons.prems have "itoa (d_RegisterAddress (e_Definition e)) \<noteq> itoa (d_RegisterAddress (e_Definition x))"
      by (auto simp: image_iff)
    then have "put_value mem p x m (itoa (d_RegisterAddress (e_Definition e))) = None"
      using Cons.prems(3) by (simp add: put_value_other)
    with Cons False show ?thesis by simp
  qed
qed

lemma itoa_inj: "- (2 ^ 63) \<le> i \<Longrightarrow> i < 2 ^ 63 \<Longrightarrow> - (2 ^ 63) \<le> j \<Longrightarrow> j < 2 ^ 63 \<Longrightarrow> itoa i = itoa j \<longleftrightarrow> i = j"
  using parse_itoa by (metis option.inject)

subsection \<open>The whole poll\<close>

lemma entry_ok_of_set: "slice_sort entry_less srt \<Longrightarrow> set (srt es) = set es"
  by (rule slice_sort.set_srt)

text \<open>The blocks of an accepted device set, and what reading them from the device collects.\<close>

lemma poll_device_blocks:
  assumes srt: "slice_sort entry_less srt" and ok: "device_set_ok ds"
    and ans: "\<forall>a \<in> set (enabled_addresses ds). address_answered refuse ds a"
  obtains blocks where "BuildBlocks srt (poll_profile ds) = Inr blocks"
    and "blocks = [] \<longleftrightarrow> enabled_addresses ds = []"
    and "\<And>connection st. poll_result (fold (poll_block (device_net (ds_ByteOrder ds) mem refuse) connection
           (poll_profile ds)) blocks st) =
         fold (put_result mem (poll_profile ds)) (srt (map (entry_for ds) (enabled_addresses ds))) (poll_result st)"
proof -
  let ?es = "map (entry_for ds) (enabled_addresses ds)"
  from BuildBlocks_cases [OF srt poll_entries [OF ok]] obtain blocks
    where b: "BuildBlocks srt (poll_profile ds) = Inr blocks" "concat (map bk_Entries blocks) = srt ?es"
      "\<forall>b \<in> set blocks. block_ok (block_limit (rp_MaxBlockSize (poll_profile ds))) b"
    by blast
  have set: "set (srt ?es) = set ?es" using srt by (rule entry_ok_of_set)
  have all: "\<forall>e \<in> set (concat (map bk_Entries blocks)). entry_ok e \<and> answered refuse e"
    unfolding b(2) set using entry_for_facts(4,5) [OF ok] ans by auto
  have "blocks = [] \<longleftrightarrow> srt ?es = []"
    unfolding b(2) [symmetric] using b(3) by (auto simp: block_ok_def)
  then have ne: "blocks = [] \<longleftrightarrow> enabled_addresses ds = []"
    using slice_sort.srt_Nil_iff [OF srt, of ?es] by simp
  have "poll_result (fold (poll_block (device_net (ds_ByteOrder ds) mem refuse) connection (poll_profile ds)) blocks st)
      = fold (put_result mem (poll_profile ds)) (srt ?es) (poll_result st)" for connection :: ConnectionConfig and st
    using poll_blocks_device [OF b(3) all, where p = "poll_profile ds" and mem = mem and connection = connection and st = st]
    by (simp add: poll_profile_orders(2) [OF ok] b(2))
  with b(1) ne that show ?thesis by blast
qed

lemma enabled_register_range:
  assumes "device_set_ok ds" and "a \<in> set (enabled_addresses ds)"
  shows "0 \<le> a_Register a" and "a_Register a \<le> 65535"
  using assms by (auto simp: device_set_ok_def enabled_addresses_def address_ok_def)

text \<open>Looking up an address in the values of the poll.\<close>

lemma poll_values_lookup:
  assumes srt: "slice_sort entry_less srt" and ok: "device_set_ok ds"
    and dist: "distinct (map a_Register (enabled_addresses ds))" and a: "a \<in> set (enabled_addresses ds)"
  shows "fold (put_value mem (poll_profile ds)) (srt (map (entry_for ds) (enabled_addresses ds))) Map.empty
      (itoa (a_Register a)) = address_value mem ds a"
proof -
  let ?es = "map (entry_for ds) (enabled_addresses ds)" and ?key = "\<lambda>e. itoa (d_RegisterAddress (e_Definition e))"
  have keys: "map ?key ?es = map (\<lambda>a. itoa (a_Register a)) (enabled_addresses ds)"
    using entry_for_facts(3) [OF ok] by simp
  have "inj_on (\<lambda>a. itoa (a_Register a)) (set (enabled_addresses ds))"
  proof (rule inj_onI)
    fix x y assume xy: "x \<in> set (enabled_addresses ds)" "y \<in> set (enabled_addresses ds)"
      "itoa (a_Register x) = itoa (a_Register y)"
    then have "a_Register x = a_Register y"
      using enabled_register_range [OF ok xy(1)] enabled_register_range [OF ok xy(2)] itoa_inj by simp
    with dist xy show "x = y" by (simp add: distinct_map inj_on_def)
  qed
  then have "distinct (map ?key ?es)" using dist unfolding keys by (simp add: distinct_map)
  then have "distinct (map ?key (srt ?es))"
    using slice_sort.perm [OF srt, of ?es] by (metis mset_eq_imp_distinct_iff mset_map)
  moreover have "entry_for ds a \<in> set (srt ?es)" using a entry_ok_of_set [OF srt] by simp
  ultimately have "fold (put_value mem (poll_profile ds)) (srt ?es) Map.empty (?key (entry_for ds a))
      = entry_value mem (poll_profile ds) (entry_for ds a)"
    by (rule fold_put_value) simp
  then show ?thesis using entry_for_facts(2,3) [OF ok a] by simp
qed

definition poll_init :: "'w Client \<Rightarrow> 'w Poll" where
  "poll_init c = \<lparr>po_client = c, po_values = Map.empty, po_measurements = [], po_lastReadErr = None,
     po_failures = []\<rparr>"

lemma PollConnection_result:
  assumes "- (2 ^ 63) \<le> i" "i < 2 ^ 63" and "get_connection i s = Inr connection"
    and "get_device_set (c_DeviceSetID connection) s = Inr ds"
    and "BuildBlocks srt (poll_profile ds) = Inr blocks" and "blocks \<noteq> []"
  shows "snd (PollConnection net srt detail now io (itoa i) (c, s)) =
    poll_reading connection ds now (fold (poll_block net connection (poll_profile ds)) blocks (poll_init c))"
  using assms parse_itoa [OF assms(1,2)]
  by (simp add: PollConnection_def Let_def localConnection_def localDeviceSet_def poll_init_def)

lemma samples_empty_iff:
  assumes ok: "device_set_ok ds" and srt: "slice_sort entry_less srt"
  shows "concat (map (entry_samples mem (poll_profile ds)) (srt (map (entry_for ds) (enabled_addresses ds)))) = []
    \<longleftrightarrow> (\<forall>a \<in> set (enabled_addresses ds). address_value mem ds a = None)"
proof -
  have "entry_samples mem (poll_profile ds) (entry_for ds a) = [] \<longleftrightarrow> address_value mem ds a = None"
    if "a \<in> set (enabled_addresses ds)" for a
    using entry_for_facts(2) [OF ok that, of mem] by (simp add: entry_samples_def split: option.splits)
  then show ?thesis using entry_ok_of_set [OF srt] by simp
qed

lemma PollConnection_answered:
  assumes srt: "slice_sort entry_less srt" and i: "- (2 ^ 63) \<le> i" "i < 2 ^ 63"
    and c: "get_connection i s = Inr connection"
    and d: "get_device_set (c_DeviceSetID connection) s = Inr ds" and ok: "device_set_ok ds"
    and dist: "distinct (map a_Register (enabled_addresses ds))"
    and ans: "\<forall>a \<in> set (enabled_addresses ds). address_answered refuse ds a"
    and some: "\<exists>a \<in> set (enabled_addresses ds). address_value mem ds a \<noteq> None"
  shows "\<exists>r samples.
    snd (PollConnection (device_net (ds_ByteOrder ds) mem refuse) srt detail now io (itoa i) (cl, s)) = Inr (r, samples)
    \<and> (\<forall>a \<in> set (enabled_addresses ds). r_RegisterAddressMap r (itoa (a_Register a)) = address_value mem ds a)
    \<and> r_DevDn r = c_DevDn connection \<and> r_PlantCode r = c_PlantCode connection
    \<and> r_DevTypeID r = ds_DevTypeID ds \<and> r_CollectTime r = now"
proof -
  let ?p = "poll_profile ds" and ?net = "device_net (ds_ByteOrder ds) mem refuse"
  let ?es = "srt (map (entry_for ds) (enabled_addresses ds))"
  from poll_device_blocks [OF srt ok ans, of mem] obtain blocks
    where b: "BuildBlocks srt ?p = Inr blocks" "blocks = [] \<longleftrightarrow> enabled_addresses ds = []"
      and run: "\<And>connection st. poll_result (fold (poll_block ?net connection ?p) blocks st) =
         fold (put_result mem ?p) ?es (poll_result st)"
    by blast
  have ne: "blocks \<noteq> []" using b(2) some by auto
  let ?st = "fold (poll_block ?net connection ?p) blocks (poll_init cl)"
  have "poll_result ?st = fold (put_result mem ?p) ?es (Map.empty, [])"
    using run [of connection "poll_init cl"] by (simp add: poll_init_def poll_result_def)
  then have v: "po_values ?st = fold (put_value mem ?p) ?es Map.empty"
    and m: "po_measurements ?st = concat (map (entry_samples mem ?p) ?es)"
    using put_results_fold [of mem ?p ?es "(Map.empty, [])"] by (simp_all add: poll_result_def prod_eq_iff)
  have "po_measurements ?st \<noteq> []" unfolding m samples_empty_iff [OF ok srt] using some by simp
  then have "snd (PollConnection ?net srt detail now io (itoa i) (cl, s)) =
      Inr (\<lparr>r_GatewayID = [], r_DevDn = c_DevDn connection, r_DevName = c_DeviceName connection,
            r_PlantCode = c_PlantCode connection, r_PlantName = c_PlantName connection,
            r_DevTypeID = ds_DevTypeID ds, r_Model = ds_DevModel ds, r_CollectTime = now,
            r_RegisterAddressMap = po_values ?st\<rparr>, po_measurements ?st)"
    using PollConnection_result [OF i c d b(1) ne, of ?net detail now io cl] by (simp add: poll_reading_def)
  then show ?thesis using v poll_values_lookup [OF srt ok dist, of _ mem] by auto
qed

subsection \<open>Properties\<close>


definition sample_address_2 :: Address where
  "sample_address_2 = sample_address_out\<lparr>a_AddressID := 2, a_Register := 102, a_DataType := ''U16'', a_Length := 1\<rparr>"

definition sample_set :: DeviceSet where
  "sample_set = sample_device_set_out\<lparr>ds_Addresses := [sample_address_2, sample_address_out]\<rparr>"

definition sample_config :: Store where
  "sample_config =
     \<lparr>st_mem = zero_fileState\<lparr>fs_NextID := 9, fs_DeviceSets := [sample_set],
        fs_Connections := [sample_connection]\<rparr>,
      st_disk = None\<rparr>"

text \<open>A device whose registers hold their own address; it refuses every request but those of one value.\<close>

definition sample_mem :: "int \<Rightarrow> int \<Rightarrow> 16 word" where
  "sample_mem fc r = word_of_int r"

definition sample_refuse :: "int \<Rightarrow> 16 word \<Rightarrow> 16 word \<Rightarrow> 8 word option" where
  "sample_refuse fc start q = (if start = 100 \<and> q = 2 \<or> start = 102 \<and> q = 1 then None else Some 2)"

lemma sample_address_2_valid: "address_ok ''ZERO_BASED'' sample_address_2"
  by (simp add: address_ok_def sample_address_2_def sample_address_out_def sample_address_def
      RegisterCount_def NormalizeDataType_def text_eval Let_def ResolveModbusAddress_def
      CanonicalAddressMode_def address_definition_def mode_start_def)

lemma sample_set_sel:
  "ds_Addresses sample_set = [sample_address_2, sample_address_out]" "ds_AddressMode sample_set = ''ZERO_BASED''"
  "ds_DeviceSetID sample_set = 3" "ds_ByteOrder sample_set = ''BIG_ENDIAN''" "ds_WordOrder sample_set = ''HIGH_LOW''"
  by (simp_all add: sample_set_def sample_device_set_out_def sample_device_set_def)

lemma sample_set_ok: "device_set_ok sample_set"
  using sample_address_valid sample_address_2_valid
  by (simp add: device_set_ok_def sample_set_sel)
    (simp add: sample_set_def sample_device_set_out_def sample_device_set_def canonical_modes_def)

lemma sample_enabled: "enabled_addresses sample_set = [sample_address_2, sample_address_out]"
  "a_Register sample_address_out = 100" "a_Register sample_address_2 = 102"
  by (simp_all add: enabled_addresses_def sample_set_sel sample_address_2_def sample_address_out_def)

lemma sample_targets:
  "address_target sample_set sample_address_out = Some \<lparr>ra_FunctionCode = 4, ra_Start = 100, ra_Quantity = 2\<rparr>"
  "address_target sample_set sample_address_2 = Some \<lparr>ra_FunctionCode = 4, ra_Start = 102, ra_Quantity = 1\<rparr>"
  by (simp_all add: address_target_def sample_set_sel ResolveModbusAddress_def CanonicalAddressMode_def
      address_definition_def mode_start_def text_eval sample_address_2_def sample_address_out_def
      sample_address_def)

lemma sample_values:
  "address_value sample_mem sample_set sample_address_out = Some (F_Fin False 6553701)"
  "address_value sample_mem sample_set sample_address_2 = Some (F_Fin False 102)"
proof -
  have d: "NormalizeDataType (a_DataType sample_address_out) = ''U32''"
    "NormalizeDataType (a_DataType sample_address_2) = ''U16''"
    "NormalizeDataType ''U32'' = ''U32''" "NormalizeDataType ''U16'' = ''U16''"
    by (simp_all add: sample_address_2_def sample_address_out_def NormalizeDataType_def text_eval)
  have w: "first [a_WordOrder sample_address_out, ds_WordOrder sample_set] = ''HIGH_LOW''"
    "\<not> swap_words ''U32'' ''HIGH_LOW''"
    by (simp_all add: sample_address_out_def sample_address_def sample_set_sel swap_words_def text_eval prefix_def)
  have r: "device_registers sample_mem 4 100 2 = [100, 101]" "device_registers sample_mem 4 102 1 = [102]"
    by (simp_all add: device_registers_def sample_mem_def upt_rec)
  have j: "join32 100 101 = 6553701" by (simp add: join32_def)
  have "Decode [100, 101] ''U32'' ''HIGH_LOW'' = Inr (F_Fin False 6553701)"
    using w(2) by (simp add: Decode_def d j f_of_int_exact)
  then show "address_value sample_mem sample_set sample_address_out = Some (F_Fin False 6553701)"
    unfolding address_value_def sample_targets target_value_def Option.bind.simps ResolvedAddress.simps r d w
    by (simp add: decode_value_def)
  show "address_value sample_mem sample_set sample_address_2 = Some (F_Fin False 102)"
    by (simp add: address_value_def sample_targets target_value_def r d Decode_def decode_value_def
        f_of_int_exact)
qed


text \<open>
  C24: A configuration that was accepted can be polled: for every device set of a snapshot the
  middleware accepted, \<open>BuildBlocks\<close> succeeds on the profile the poller makes of it, and gives at
  least one block exactly when an address is enabled.
\<close>

theorem accepted_configuration_is_pollable:
  assumes "slice_sort entry_less srt" and "normalizeConfigSnapshot snap = Inr s" and "ds \<in> set (cs_DeviceSets s)"
  shows "case BuildBlocks srt (poll_profile ds) of Inl _ \<Rightarrow> False | Inr blocks \<Rightarrow> blocks = [] \<longleftrightarrow> enabled_addresses ds = []"
proof -
  have "device_set_ok ds"
    using normalizeConfigSnapshot_valid [OF assms(2)] assms(3) by (simp add: snapshot_ok_def)
  note e = poll_entries [OF this]
  from BuildBlocks_cases [OF assms(1) e] obtain blocks
    where b: "BuildBlocks srt (poll_profile ds) = Inr blocks"
      "concat (map bk_Entries blocks) = srt (map (entry_for ds) (enabled_addresses ds))"
      "\<forall>b \<in> set blocks. block_ok (block_limit (rp_MaxBlockSize (poll_profile ds))) b" by blast
  have "blocks = [] \<longleftrightarrow> concat (map bk_Entries blocks) = []"
    using b(3) by (auto simp: block_ok_def)
  also have "\<dots> \<longleftrightarrow> enabled_addresses ds = []"
    unfolding b(2) using slice_sort.srt_Nil_iff [OF assms(1)] by simp
  finally show ?thesis using b(1) by simp
qed

theorem accepted_configuration_is_pollable_witness:
  "\<exists>s ds. normalizeConfigSnapshot sample_snapshot = Inr s \<and> ds \<in> set (cs_DeviceSets s)
    \<and> is_ok (BuildBlocks (sort_less entry_less) (poll_profile ds))"
proof -
  obtain s where s: "normalizeConfigSnapshot sample_snapshot = Inr s" using sample_snapshot_accepted ..
  then have "map ds_DeviceSetID (cs_DeviceSets s) \<noteq> []"
    using normalizeConfigSnapshot_ids(2) [OF s] by (simp add: sample_snapshot_def)
  then obtain ds where ds: "ds \<in> set (cs_DeviceSets s)" by (cases "cs_DeviceSets s") auto
  from accepted_configuration_is_pollable [OF entries.slice_sort_axioms s ds]
  have "is_ok (BuildBlocks (sort_less entry_less) (poll_profile ds))" by (simp split: sum.splits)
  with s ds show ?thesis by blast
qed

text \<open>
  The poller hands the decoder the canonical name of a data type, and with it loses the \<open>SW_\<close> prefix
  by which the decoder knows that the words of a type are swapped.
\<close>

lemma poll_drops_word_swapped_types:
  "swap_words ''SW_INT'' ''HIGH_LOW'' \<and> d_DataType (poll_definition (a\<lparr>a_DataType := ''SW_INT''\<rparr>)) = ''I32''
   \<and> \<not> swap_words (d_DataType (poll_definition (a\<lparr>a_DataType := ''SW_INT''\<rparr>))) ''HIGH_LOW''"
  by (simp add: poll_definition_def swap_words_def NormalizeDataType_def text_eval prefix_def)

end
