(* ===== verification/PollSweep.thy ===== *)
theory PollSweep
  imports PollService
begin

section \<open>internal/app: enqueueing readings, the poll sweep and the maintenance gate\<close>

text \<open>
  \<open>Enqueue\<close> with its suppression of unchanged readings, \<open>PollEnabledConnections\<close> and
  \<open>PollInterval\<close>, and the one-token channel that keeps sweeps and maintenance apart. Durations are in
  milliseconds. \<open>vhash\<close> is \<open>valuesHash\<close> as a function of the register values and \<open>rhash\<close> the hash of
  the whole reading, SHA-256 of their JSON. The cache's map of connections is given by the order in
  which the loop meets its entries.
\<close>

subsection \<open>Unchanged readings\<close>

record Idle =
  id_lastEnqueued :: "string \<rightharpoonup> string \<times> int"
  id_idleHeartbeat :: int

definition DefaultIdleHeartbeat :: int where
  "DefaultIdleHeartbeat = 30 * 60 * 1000"

definition SetIdleHeartbeat :: "int \<Rightarrow> Idle \<Rightarrow> Idle" where
  "SetIdleHeartbeat seconds s =
     (if seconds < 60 \<or> 86400 < seconds then s\<lparr>id_idleHeartbeat := 0\<rparr>
      else s\<lparr>id_idleHeartbeat := seconds * 1000\<rparr>)"

definition heartbeat :: "Idle \<Rightarrow> int" where
  "heartbeat s = (if id_idleHeartbeat s \<le> 0 then DefaultIdleHeartbeat else id_idleHeartbeat s)"

definition PrepareReadingForAPI :: "Reading \<Rightarrow> string \<Rightarrow> string + Reading \<times> string" where
  "PrepareReadingForAPI r0 gatewayID0 =
     (let gatewayID = trim_space gatewayID0; r = r0\<lparr>r_GatewayID := gatewayID\<rparr> in
      if gatewayID = [] \<or> r_DevDn r = [] \<or> r_PlantCode r = [] \<or> r_DevTypeID r \<le> 0 \<or> r_CollectTime r \<le> 0
         \<or> r_RegisterAddressMap r = Map.empty
      then Inl ''incomplete API payload''
      else Inr (r, gatewayID @ ''|'' @ r_PlantCode r @ ''|'' @ itoa (r_DevTypeID r) @ ''|'' @ r_DevDn r
                   @ ''|'' @ itoa (r_CollectTime r)))"

definition deviceKey :: "Reading \<Rightarrow> string" where
  "deviceKey r = r_GatewayID r @ ''|'' @ r_PlantCode r @ ''|'' @ itoa (r_DevTypeID r) @ ''|'' @ r_DevDn r"

definition skipUnchanged :: "((string \<rightharpoonup> f64) \<Rightarrow> string) \<Rightarrow> Reading \<Rightarrow> Idle \<Rightarrow> Idle \<times> bool" where
  "skipUnchanged vhash r s =
     (let observed = r_CollectTime r; vals = vhash (r_RegisterAddressMap r); device = deviceKey r in
      if (case id_lastEnqueued s device of
            None \<Rightarrow> False
          | Some (last_values, last_at) \<Rightarrow>
              last_values = vals \<and> \<not> observed < last_at \<and> observed - last_at < heartbeat s)
      then (s, True)
      else (s\<lparr>id_lastEnqueued := (id_lastEnqueued s)(device \<mapsto> (vals, observed))\<rparr>, False))"

definition forgetEnqueued :: "Reading \<Rightarrow> Idle \<Rightarrow> Idle" where
  "forgetEnqueued r s = s\<lparr>id_lastEnqueued := (id_lastEnqueued s)(deviceKey r := None)\<rparr>"

text \<open>\<open>Service.Enqueue\<close>; \<open>Enqueue\<close> is the store's.\<close>

definition ServiceEnqueue ::
  "(Reading \<Rightarrow> string + string) \<Rightarrow> ((string \<rightharpoonup> f64) \<Rightarrow> string) \<Rightarrow> (Reading \<Rightarrow> string) \<Rightarrow> int \<Rightarrow> string option \<Rightarrow>
     Reading \<Rightarrow> string \<Rightarrow> Idle \<times> Store \<Rightarrow> (Idle \<times> Store) \<times> (string + bool)" where
  "ServiceEnqueue marshal vhash rhash now io r0 gatewayID is =
     (case PrepareReadingForAPI r0 gatewayID of
        Inl err \<Rightarrow> (is, Inl err)
      | Inr (r, key) \<Rightarrow>
          let (idle, skip) = skipUnchanged vhash r (fst is) in
          if skip then ((idle, snd is), Inr False)
          else
            let (s, created) = Enqueue marshal now io key (rhash r) r (snd is);
                idle = (if created = Inr True then idle else forgetEnqueued r idle)
            in ((idle, s), created))"

subsection \<open>The sweep\<close>

definition PollInterval :: "Store \<Rightarrow> int" where
  "PollInterval s =
     (let seconds = (if 0 < gc_SendIntervalSeconds (get_gateway_config s)
                     then gc_SendIntervalSeconds (get_gateway_config s) else 5);
          seconds = (if seconds < 1 then 1 else seconds)
      in if 3600 < seconds then 3600 else seconds)"

record Sweep =
  sw_readOK :: nat
  sw_failed :: nat
  sw_queued :: nat
  sw_idle :: nat

text \<open>
  What a sweep takes from outside, and the state it works on. How a write of the file ends may differ
  from one write to the next: it is a function of the store.
\<close>

record 'w SweepEnv =
  se_net :: "'w Net"
  se_sort :: "Entry list \<Rightarrow> Entry list"
  se_marshal :: "Reading \<Rightarrow> string + string"
  se_vhash :: "(string \<rightharpoonup> f64) \<Rightarrow> string"
  se_rhash :: "Reading \<Rightarrow> string"
  se_failures :: "ReadFailure list \<Rightarrow> string"
  se_error :: "string \<Rightarrow> string"
  se_reading :: "Reading \<times> RegisterSample list \<Rightarrow> string"
  se_io :: "Store \<Rightarrow> string option"

record 'w SweepState =
  ss_client :: "'w Client"
  ss_store :: Store
  ss_idle :: Idle

definition logPoll ::
  "'w SweepEnv \<Rightarrow> int \<Rightarrow> ConnectionConfig \<Rightarrow> string \<Rightarrow> string \<Rightarrow> string \<Rightarrow> 'w SweepState \<Rightarrow> 'w SweepState" where
  "logPoll env now c status message detail st =
     st\<lparr>ss_store := fst (SavePollLog now (se_io env (ss_store st)) (poll_log c status message detail) (ss_store st))\<rparr>"

text \<open>One turn of the loop over the enabled connections.\<close>

definition sweep_connection ::
  "'w SweepEnv \<Rightarrow> int \<Rightarrow> string \<Rightarrow> ConnectionConfig \<Rightarrow> 'w SweepState \<times> Sweep \<Rightarrow> 'w SweepState \<times> Sweep" where
  "sweep_connection env now gw c sn =
     (let (st, n) = sn;
          ((client, store), r) = PollConnection (se_net env) (se_sort env) (se_failures env) now
                                   (se_io env (ss_store st))
                                   (itoa (c_ConnectionID c)) (ss_client st, ss_store st);
          st = st\<lparr>ss_client := client, ss_store := store\<rparr>
      in case r of
           Inl err \<Rightarrow>
             (logPoll env now c ''ERROR'' err (se_error env err) st, n\<lparr>sw_failed := sw_failed n + 1\<rparr>)
         | Inr (reading, measurements) \<Rightarrow>
             let n = n\<lparr>sw_readOK := sw_readOK n + 1\<rparr>;
                 ((idle, store), created) = ServiceEnqueue (se_marshal env) (se_vhash env) (se_rhash env) now
                                              (se_io env (ss_store st)) reading gw (ss_idle st, ss_store st);
                 st = st\<lparr>ss_store := store, ss_idle := idle\<rparr>
             in case created of
                  Inl err \<Rightarrow>
                    (logPoll env now c ''ERROR'' err (se_reading env (reading, measurements)) st,
                     n\<lparr>sw_failed := sw_failed n + 1\<rparr>)
                | Inr True \<Rightarrow>
                    (logPoll env now c ''OK'' ''poll queued'' [] st, n\<lparr>sw_queued := sw_queued n + 1\<rparr>)
                | Inr False \<Rightarrow>
                    (logPoll env now c ''OK'' ''poll skipped (unchanged)'' [] st,
                     n\<lparr>sw_idle := sw_idle n + 1\<rparr>))"

definition zero_Sweep :: Sweep where
  "zero_Sweep = \<lparr>sw_readOK = 0, sw_failed = 0, sw_queued = 0, sw_idle = 0\<rparr>"

text \<open>
  \<open>PollEnabledConnections\<close> once the gate is taken; \<open>cached\<close> are the connections of the cache. The
  file store's \<open>GatewayConfig\<close> has no error.
\<close>

definition PollEnabledConnections ::
  "'w SweepEnv \<Rightarrow> int \<Rightarrow> string \<Rightarrow> ConnectionConfig list \<Rightarrow> 'w SweepState \<Rightarrow> 'w SweepState \<times> Sweep" where
  "PollEnabledConnections env now gatewayID cached st =
     (let connections = filter c_Enabled cached;
          cfg = get_gateway_config (ss_store st);
          gw = (if trim_space (gc_GatewayID cfg) \<noteq> [] then trim_space (gc_GatewayID cfg)
                else trim_space gatewayID);
          st = st\<lparr>ss_idle := SetIdleHeartbeat (gc_IdleHeartbeatSeconds cfg) (ss_idle st)\<rparr>
      in fold (sweep_connection env now gw) connections (st, zero_Sweep))"

subsection \<open>Properties of the suppression\<close>

text \<open>
  After a reading was looked at, the baseline of its device has its values and is not older than the
  heartbeat: what is not stored repeats what is.
\<close>

lemma heartbeat_pos: "0 < heartbeat s"
  by (simp add: heartbeat_def DefaultIdleHeartbeat_def)

lemma SetIdleHeartbeat_range:
  "60000 \<le> heartbeat (SetIdleHeartbeat seconds s) \<and> heartbeat (SetIdleHeartbeat seconds s) \<le> 86400000"
  by (simp add: heartbeat_def SetIdleHeartbeat_def DefaultIdleHeartbeat_def)

lemma skipUnchanged_baseline:
  assumes "skipUnchanged vhash r s = (s', skip)"
  shows "\<exists>t. id_lastEnqueued s' (deviceKey r) = Some (vhash (r_RegisterAddressMap r), t)
    \<and> t \<le> r_CollectTime r \<and> r_CollectTime r - t < heartbeat s
    \<and> (skip \<longrightarrow> s' = s) \<and> (\<not> skip \<longrightarrow> t = r_CollectTime r)"
  using assms heartbeat_pos [of s]
  by (auto simp: skipUnchanged_def Let_def split: option.splits if_splits prod.splits)

lemma skipUnchanged_iff:
  "snd (skipUnchanged vhash r s) \<longleftrightarrow>
     (\<exists>t. id_lastEnqueued s (deviceKey r) = Some (vhash (r_RegisterAddressMap r), t)
        \<and> t \<le> r_CollectTime r \<and> r_CollectTime r - t < heartbeat s)"
  by (auto simp: skipUnchanged_def Let_def split: option.splits)

lemma skipUnchanged_other:
  "key \<noteq> deviceKey r \<Longrightarrow> id_lastEnqueued (fst (skipUnchanged vhash r s)) key = id_lastEnqueued s key"
  by (simp add: skipUnchanged_def Let_def)

text \<open>The four ways an enqueue ends.\<close>

lemma ServiceEnqueue_cases:
  assumes e: "ServiceEnqueue marshal vhash rhash now io r0 gw (idle, s) = ((idle', s'), created)"
  obtains (incomplete) err where "PrepareReadingForAPI r0 gw = Inl err" "created = Inl err" "idle' = idle" "s' = s"
  | (skipped) r key where "PrepareReadingForAPI r0 gw = Inr (r, key)" "snd (skipUnchanged vhash r idle)"
      "created = Inr False" "idle' = idle" "s' = s"
  | (stored) r key where "PrepareReadingForAPI r0 gw = Inr (r, key)" "\<not> snd (skipUnchanged vhash r idle)"
      "Enqueue marshal now io key (rhash r) r s = (s', Inr True)" "created = Inr True"
      "idle' = fst (skipUnchanged vhash r idle)"
  | (dropped) r key where "PrepareReadingForAPI r0 gw = Inr (r, key)" "\<not> snd (skipUnchanged vhash r idle)"
      "Enqueue marshal now io key (rhash r) r s = (s', created)" "created \<noteq> Inr True"
      "id_lastEnqueued idle' (deviceKey r) = None"
proof (cases "PrepareReadingForAPI r0 gw")
  case (Inl err)
  with e show ?thesis by (auto simp: ServiceEnqueue_def intro: incomplete)
next
  case (Inr rk)
  obtain r key where rk: "rk = (r, key)" by fastforce
  obtain i1 skip where sk: "skipUnchanged vhash r idle = (i1, skip)" by fastforce
  obtain s1 c1 where en: "Enqueue marshal now io key (rhash r) r s = (s1, c1)" by fastforce
  show ?thesis
  proof (cases skip)
    case True
    with e Inr rk sk skipUnchanged_baseline [OF sk] show ?thesis
      by (intro skipped) (auto simp: ServiceEnqueue_def)
  next
    case False
    with e Inr rk sk en show ?thesis
      by (cases "c1 = Inr True")
        (auto simp: ServiceEnqueue_def forgetEnqueued_def intro: stored dropped)
  qed
qed

text \<open>Each enabled connection counts once: queued, unchanged, or failed.\<close>

definition sweep_total :: "Sweep \<Rightarrow> nat" where
  "sweep_total n = sw_queued n + sw_idle n + sw_failed n"

lemma sweep_connection_counts:
  "sweep_total (snd (sweep_connection env now gw c sn)) = Suc (sweep_total (snd sn))
   \<and> sw_readOK (snd (sweep_connection env now gw c sn)) + sw_failed (snd (sweep_connection env now gw c sn))
     \<ge> Suc (sw_readOK (snd sn) + sw_failed (snd sn))
   \<and> (sw_queued (snd sn) + sw_idle (snd sn) \<le> sw_readOK (snd sn) \<longrightarrow>
      sw_queued (snd (sweep_connection env now gw c sn)) + sw_idle (snd (sweep_connection env now gw c sn))
      \<le> sw_readOK (snd (sweep_connection env now gw c sn)))"
  by (auto simp: sweep_connection_def Let_def sweep_total_def split: prod.splits sum.splits bool.splits)

lemma sweep_counts:
  "sweep_total (snd (fold (sweep_connection env now gw) cs sn)) = length cs + sweep_total (snd sn)"
  by (induction cs arbitrary: sn) (simp_all add: sweep_connection_counts)

lemma sweep_read_ok:
  "sw_queued (snd sn) + sw_idle (snd sn) \<le> sw_readOK (snd sn) \<Longrightarrow>
     sw_queued (snd (fold (sweep_connection env now gw) cs sn)) + sw_idle (snd (fold (sweep_connection env now gw) cs sn))
     \<le> sw_readOK (snd (fold (sweep_connection env now gw) cs sn))"
  by (induction cs arbitrary: sn) (simp_all add: sweep_connection_counts)

subsection \<open>The maintenance gate\<close>

text \<open>
  \<open>maintenanceGate\<close> is a channel of capacity one that \<open>gate()\<close> makes with one token under the mutex:
  \<open>None\<close> before it is made, then whether the token is in it. The other component are the holders: a
  sweep that passed \<open>tryBeginPoll\<close>, or a maintenance whose \<open>BeginMaintenance\<close> returned.
\<close>

datatype Holder = Poll_sweep | Maintenance

record Gate =
  g_token :: "bool option"
  g_holders :: "Holder list"

definition new_gate :: Gate where
  "new_gate = \<lparr>g_token = None, g_holders = []\<rparr>"

definition make_gate :: "Gate \<Rightarrow> Gate" where
  "make_gate g = (case g_token g of None \<Rightarrow> g\<lparr>g_token := Some True\<rparr> | Some _ \<Rightarrow> g)"

text \<open>\<open>case <-s.gate():\<close>, where it can proceed.\<close>

definition take_token :: "Holder \<Rightarrow> Gate \<Rightarrow> Gate option" where
  "take_token h g =
     (let g = make_gate g in
      if g_token g = Some True then Some (g\<lparr>g_token := Some False, g_holders := h # g_holders g\<rparr>) else None)"

definition tryBeginPoll :: "Gate \<Rightarrow> Gate \<times> bool" where
  "tryBeginPoll g =
     (case take_token Poll_sweep g of Some g' \<Rightarrow> (g', True) | None \<Rightarrow> (make_gate g, False))"

text \<open>\<open>s.gate() <- struct{}{}\<close> blocks while the channel is full.\<close>

definition put_token :: "Holder \<Rightarrow> Gate \<Rightarrow> Gate option" where
  "put_token h g =
     (let g = make_gate g in
      if g_token g = Some False then Some (g\<lparr>g_token := Some True, g_holders := remove1 h (g_holders g)\<rparr>)
      else None)"

text \<open>
  The interleavings: a sweep begins or is skipped, maintenance begins or gives up waiting, and whoever
  holds the token ends.
\<close>

inductive gate_step :: "Gate \<Rightarrow> Gate \<Rightarrow> bool" where
  poll: "tryBeginPoll g = (g', b) \<Longrightarrow> gate_step g g'"
| begin_maintenance: "take_token Maintenance g = Some g' \<Longrightarrow> gate_step g g'"
| give_up: "gate_step g (make_gate g)"
| release: "h \<in> set (g_holders g) \<Longrightarrow> put_token h g = Some g' \<Longrightarrow> gate_step g g'"

inductive gate_reachable :: "Gate \<Rightarrow> bool" where
  init: "gate_reachable new_gate"
| step: "gate_reachable g \<Longrightarrow> gate_step g g' \<Longrightarrow> gate_reachable g'"

inductive_cases gate_stepE: "gate_step g g'"

definition gate_inv :: "Gate \<Rightarrow> bool" where
  "gate_inv g \<longleftrightarrow>
     (case g_token g of
        None \<Rightarrow> g_holders g = []
      | Some True \<Rightarrow> g_holders g = []
      | Some False \<Rightarrow> (\<exists>h. g_holders g = [h]))"

lemma make_gate_inv: "gate_inv g \<Longrightarrow> gate_inv (make_gate g)"
  by (auto simp: gate_inv_def make_gate_def split: option.splits bool.splits)

lemma take_token_inv: "gate_inv g \<Longrightarrow> take_token h g = Some g' \<Longrightarrow> gate_inv g'"
  by (auto simp: gate_inv_def take_token_def make_gate_def Let_def split: option.splits bool.splits if_splits)

lemma put_token_inv: "gate_inv g \<Longrightarrow> h \<in> set (g_holders g) \<Longrightarrow> put_token h g = Some g' \<Longrightarrow> gate_inv g'"
  by (auto simp: gate_inv_def put_token_def make_gate_def Let_def split: option.splits bool.splits if_splits)

lemma gate_step_inv: "gate_step g g' \<Longrightarrow> gate_inv g \<Longrightarrow> gate_inv g'"
  by (erule gate_stepE)
    (auto simp: tryBeginPoll_def make_gate_inv split: option.splits intro: take_token_inv put_token_inv)

lemma gate_reachable_inv: "gate_reachable g \<Longrightarrow> gate_inv g"
proof (induction rule: gate_reachable.induct)
  case init
  then show ?case by (simp add: gate_inv_def new_gate_def)
next
  case (step g g')
  then show ?case by (blast intro: gate_step_inv)
qed

text \<open>Whoever holds the token can give it back at once: a release never blocks.\<close>

lemma gate_release:
  assumes "gate_inv g" and "h \<in> set (g_holders g)"
  shows "\<exists>g'. put_token h g = Some g' \<and> g_holders g' = [] \<and> take_token k g' \<noteq> None"
  using assms
  by (auto simp: gate_inv_def put_token_def take_token_def make_gate_def Let_def split: option.splits bool.splits)

subsection \<open>Properties\<close>

text \<open>
  What is not stored repeats what is. A reading is suppressed exactly when the baseline of its
  device has the same values, is not younger, and is less than the heartbeat old; whether suppressed
  or not, afterwards the device's baseline has the reading's values and is at most that old, a
  suppressed reading leaves the baseline as it was, and no other device's baseline changes. So a
  change of values always gets through, and a reading at least every heartbeat.
\<close>

theorem suppressed_reading_repeats_baseline:
  "let (s', skip) = skipUnchanged vhash r s in
   skip = (case id_lastEnqueued s (deviceKey r) of
             None \<Rightarrow> False
           | Some (values, t) \<Rightarrow> values = vhash (r_RegisterAddressMap r) \<and> t \<le> r_CollectTime r
                                \<and> r_CollectTime r < t + heartbeat s)
   \<and> (case id_lastEnqueued s' (deviceKey r) of
        None \<Rightarrow> False
      | Some (values, t) \<Rightarrow> values = vhash (r_RegisterAddressMap r) \<and> t \<le> r_CollectTime r
                           \<and> r_CollectTime r < t + heartbeat s)
   \<and> (if skip then s' = s else id_lastEnqueued s' = (id_lastEnqueued s)(deviceKey r \<mapsto> (vhash (r_RegisterAddressMap r), r_CollectTime r)))
   \<and> 60000 \<le> heartbeat (SetIdleHeartbeat seconds s) \<and> heartbeat (SetIdleHeartbeat seconds s) \<le> 86400000"
  using heartbeat_pos [of s] SetIdleHeartbeat_range [of seconds s]
  by (auto simp: skipUnchanged_def Let_def split: option.splits)

text \<open>
  C29: The baseline only remembers what was stored. After an enqueue that did not end in a new row the
  device has either the baseline it had, because the reading repeats it or was refused for missing
  fields, or none; after one that did, the new row is the last of the queue, under the key of gateway,
  plant, device type, device and time, and the queue is on disk.
\<close>

theorem enqueue_baseline_matches_queue:
  assumes "ServiceEnqueue marshal vhash rhash now io r0 gw (idle, s) = ((idle', s'), created)"
  shows "if created = Inr True
    then \<exists>r key b. PrepareReadingForAPI r0 gw = Inr (r, key) \<and> marshal r = Inr b
       \<and> key = deviceKey r @ ''|'' @ itoa (r_CollectTime r)
       \<and> id_lastEnqueued idle' (deviceKey r) = Some (vhash (r_RegisterAddressMap r), r_CollectTime r)
       \<and> fs_Outbox (st_mem s') = fs_Outbox (st_mem s) @ [new_row (fs_NextID (st_mem s)) key (rhash r) b now]
       \<and> st_disk s' = Some (st_mem s')
    else (idle' = idle \<and> s' = s)
       \<or> (\<exists>r key. PrepareReadingForAPI r0 gw = Inr (r, key) \<and> id_lastEnqueued idle' (deviceKey r) = None)"
  using assms
proof (cases rule: ServiceEnqueue_cases)
  case (stored r key)
  have k: "key = deviceKey r @ ''|'' @ itoa (r_CollectTime r)"
    using stored(1) by (auto simp: PrepareReadingForAPI_def Let_def deviceKey_def split: if_splits)
  obtain i1 skip where sk: "skipUnchanged vhash r idle = (i1, skip)" by fastforce
  with stored(2,5) skipUnchanged_baseline [OF sk]
  have i: "id_lastEnqueued idle' (deviceKey r) = Some (vhash (r_RegisterAddressMap r), r_CollectTime r)" by auto
  from stored(3) obtain b where b: "marshal r = Inr b" and io: "io = None"
    and s': "s' = fst (save_result None s ((st_mem s)\<lparr>fs_NextID := fs_NextID (st_mem s) + 1,
      fs_Outbox := fs_Outbox (st_mem s) @ [new_row (fs_NextID (st_mem s)) key (rhash r) b now]\<rparr>) True)"
    by (auto simp: Enqueue_def Let_def nextID_def save_result_cases split: if_splits sum.splits option.splits)
  have "fs_Outbox (st_mem s') = fs_Outbox (st_mem s) @ [new_row (fs_NextID (st_mem s)) key (rhash r) b now]"
    "st_disk s' = Some (st_mem s')"
    unfolding s' by simp_all
  with stored(1,4) k i b show ?thesis by simp
qed auto

lemma sample_enqueue:
  "\<exists>idle' s'. ServiceEnqueue (\<lambda>_. Inr ''{}'') (\<lambda>_. ''v'') (\<lambda>_. ''h'') 9 None sample_reading ''G''
     (\<lparr>id_lastEnqueued = Map.empty, id_idleHeartbeat = 0\<rparr>, sample_store) = ((idle', s'), Inr True)"
proof -
  have "PrepareReadingForAPI sample_reading ''G'' = Inr (sample_reading, ''G|P|1|D|5'')"
    by (simp add: PrepareReadingForAPI_def sample_reading_def text_eval itoa_def nat_digits.simps digit_char_def)
  then show ?thesis
    by (simp add: ServiceEnqueue_def skipUnchanged_def Enqueue_def sample_store_rows nextID_def
        save_result_cases new_row_def)
qed

theorem enqueue_baseline_matches_queue_witness:
  "\<exists>idle' s'. ServiceEnqueue (\<lambda>_. Inr ''{}'') (\<lambda>_. ''v'') (\<lambda>_. ''h'') 9 None sample_reading ''G''
     (\<lparr>id_lastEnqueued = Map.empty, id_idleHeartbeat = 0\<rparr>, sample_store) = ((idle', s'), Inr True)
   \<and> st_disk s' = Some (st_mem s')"
proof -
  obtain idle' s' where e: "ServiceEnqueue (\<lambda>_. Inr ''{}'') (\<lambda>_. ''v'') (\<lambda>_. ''h'') 9 None sample_reading ''G''
     (\<lparr>id_lastEnqueued = Map.empty, id_idleHeartbeat = 0\<rparr>, sample_store) = ((idle', s'), Inr True)"
    using sample_enqueue by blast
  from enqueue_baseline_matches_queue [OF e] have "st_disk s' = Some (st_mem s')" by auto
  with e show ?thesis by blast
qed

text \<open>
  A sweep accounts for every enabled connection: each is counted exactly once as queued, as
  unchanged or as failed, and no more are queued or unchanged than were read.
\<close>

theorem sweep_accounts_for_connections:
  "let (_, n) = PollEnabledConnections env now gw cached st in
     sw_queued n + sw_idle n + sw_failed n = length (filter c_Enabled cached)
     \<and> sw_queued n + sw_idle n \<le> sw_readOK n"
proof -
  let ?st = "st\<lparr>ss_idle := SetIdleHeartbeat (gc_IdleHeartbeatSeconds (get_gateway_config (ss_store st))) (ss_idle st)\<rparr>"
  have z: "sweep_total zero_Sweep = 0" "sw_queued zero_Sweep + sw_idle zero_Sweep \<le> sw_readOK zero_Sweep"
    by (simp_all add: sweep_total_def zero_Sweep_def)
  show ?thesis
    using sweep_counts [of env now _ "filter c_Enabled cached" "(?st, zero_Sweep)"]
      sweep_read_ok [of "(?st, zero_Sweep)" env now _ "filter c_Enabled cached"] z
    by (simp add: PollEnabledConnections_def Let_def case_prod_beta sweep_total_def)
qed

text \<open>
  A poll sweep and maintenance never overlap, nor do two sweeps or two maintenances: in every
  reachable state of the gate at most one holder exists, the token is in the channel exactly when
  there is none, and the holder can always give it back without blocking, after which the next one can
  begin.
\<close>

theorem gate_excludes:
  assumes "gate_reachable g"
  shows "length (g_holders g) \<le> 1 \<and> (g_holders g = [] \<longleftrightarrow> g_token g \<noteq> Some False)
    \<and> list_all (\<lambda>h. case put_token h g of
         None \<Rightarrow> False | Some g' \<Rightarrow> g_holders g' = [] \<and> take_token k g' \<noteq> None) (g_holders g)"
proof -
  note inv = gate_reachable_inv [OF assms]
  have "case put_token h g of None \<Rightarrow> False | Some g' \<Rightarrow> g_holders g' = [] \<and> take_token k g' \<noteq> None"
    if "h \<in> set (g_holders g)" for h
    using gate_release [OF inv that, of k] by auto
  with inv show ?thesis
    by (auto simp: gate_inv_def list_all_iff split: option.splits bool.splits)
qed

lemma sample_gate: "gate_reachable \<lparr>g_token = Some False, g_holders = [Poll_sweep]\<rparr>"
proof -
  have "tryBeginPoll new_gate = (\<lparr>g_token = Some False, g_holders = [Poll_sweep]\<rparr>, True)"
    by (simp add: tryBeginPoll_def take_token_def make_gate_def new_gate_def)
  then show ?thesis by (blast intro: gate_reachable.intros gate_step.poll)
qed

theorem gate_excludes_witness:
  "take_token Maintenance \<lparr>g_token = Some False, g_holders = [Poll_sweep]\<rparr> = None
   \<and> length (g_holders \<lparr>g_token = Some False, g_holders = [Poll_sweep]\<rparr>) \<le> 1"
  using gate_excludes [OF sample_gate, of Maintenance]
  by (simp add: take_token_def make_gate_def)

end
