(* ===== verification/GatewayCommands.thy ===== *)
theory GatewayCommands
  imports PollSweep
begin

section \<open>internal/realtimeclient: the gateway's side of the realtime channel\<close>

text \<open>
  \<open>Client\<close> of \<open>realtimeclient/client.go\<close>: what the gateway does with a message of the platform, a
  pushed configuration or a command, and what it sends back; the patch download; reconnecting. A
  handler takes the gateway's state (store, cache, Modbus client) and returns it with the messages it
  sends. The updater, the HTTP transport, \<open>net/url\<close> and \<open>encoding/json\<close> are parameters, gathered in
  \<open>GatewayEnv\<close>; texts of \<open>json.RawMessage\<close> are strings. A failing write to the socket only loses the
  message.
\<close>

subsection \<open>Messages\<close>

record envelope =
  en_Type :: string
  en_GatewayID :: string
  en_AppliedVersion :: int
  en_SoftwareVersion :: string
  en_Status :: string
  en_Reason :: string
  en_CommandID :: string
  en_Kind :: string
  en_ConnectionID :: int
  en_Ok :: bool
  en_Data :: string
  en_Error :: string
  en_Phase :: string
  en_DownloadedBytes :: int
  en_TotalBytes :: int
  en_DownloadURL :: string
  en_SHA256 :: string
  en_PatchVersion :: string
  en_OS :: string
  en_Arch :: string
  en_Binary :: string
  en_ConfigSnapshot :: ConfigSnapshot

definition zero_ConfigSnapshot :: ConfigSnapshot where
  "zero_ConfigSnapshot =
     \<lparr>cs_Version = 0, cs_Brands = [], cs_DeviceSets = [], cs_Connections = [], cs_Plants = [],
      cs_SendIntervalSeconds = 0, cs_APIPollingEnabled = False, cs_IdleHeartbeatSeconds = 0\<rparr>"

definition zero_envelope :: envelope where
  "zero_envelope =
     \<lparr>en_Type = [], en_GatewayID = [], en_AppliedVersion = 0, en_SoftwareVersion = [], en_Status = [],
      en_Reason = [], en_CommandID = [], en_Kind = [], en_ConnectionID = 0, en_Ok = False, en_Data = [],
      en_Error = [], en_Phase = [], en_DownloadedBytes = 0, en_TotalBytes = 0, en_DownloadURL = [],
      en_SHA256 = [], en_PatchVersion = [], en_OS = [], en_Arch = [], en_Binary = [],
      en_ConfigSnapshot = zero_ConfigSnapshot\<rparr>"

text \<open>The values a reply's data is the JSON text of.\<close>

datatype Payload =
    P_reading Reading "RegisterSample list"
  | P_probe ConnectionConfig ProbeInfo int
  | P_config ConfigSnapshot
  | P_batch "int list" "string list"
  | P_backup string

subsection \<open>Downloading a patch\<close>

text \<open>
  One \<open>Read\<close> of the response body: the bytes, whether it ends the body (\<open>Some None\<close> is \<open>io.EOF\<close>,
  \<open>Some (Some e)\<close> another error) and the clock after it, in milliseconds.
\<close>

record BodyRead =
  br_Bytes :: string
  br_End :: "string option option"
  br_Now :: int

datatype HttpReply =
    Http_no_request string
  | Http_no_response string
  | Http_response int string int "BodyRead list" string

text \<open>
  \<open>io.LimitReader\<close>: at the limit the body ends, whatever follows. A list of reads that runs out stands
  for a body at its end.
\<close>

fun LimitReader :: "nat \<Rightarrow> BodyRead list \<Rightarrow> BodyRead list" where
  "LimitReader n [] = []"
| "LimitReader n (r # rs) =
     (if n = 0 then [r\<lparr>br_Bytes := [], br_End := Some None\<rparr>]
      else if length (br_Bytes r) \<le> n then r # LimitReader (n - length (br_Bytes r)) rs
      else [r\<lparr>br_Bytes := take n (br_Bytes r), br_End := None\<rparr>, r\<lparr>br_Bytes := [], br_End := Some None\<rparr>])"

record DownloadProgress =
  dp_DownloadedBytes :: int
  dp_TotalBytes :: int

record progressReader =
  pr_total :: int
  pr_read :: int
  pr_reported :: int
  pr_lastReportTime :: int

text \<open>\<open>progressReader.Read\<close> after the inner read; the zero time is before every clock value.\<close>

definition progress_Read :: "BodyRead \<Rightarrow> progressReader \<Rightarrow> progressReader \<times> DownloadProgress list" where
  "progress_Read r p =
     (if br_Bytes r = [] then (p, [])
      else
        let p = p\<lparr>pr_read := pr_read p + int (length (br_Bytes r))\<rparr>;
            shouldReport = (pr_reported p = 0 \<or> 262144 \<le> pr_read p - pr_reported p
                            \<or> 250 \<le> br_Now r - pr_lastReportTime p \<or> br_End r = Some None)
        in if shouldReport
           then (p\<lparr>pr_reported := pr_read p, pr_lastReportTime := br_Now r\<rparr>,
                 [\<lparr>dp_DownloadedBytes = pr_read p, dp_TotalBytes = pr_total p\<rparr>])
           else (p, []))"

text \<open>\<open>io.ReadAll\<close> over the progress reader.\<close>

fun ReadAll_progress ::
  "progressReader \<Rightarrow> BodyRead list \<Rightarrow> DownloadProgress list \<times> (string + string)" where
  "ReadAll_progress p [] = ([], Inr [])"
| "ReadAll_progress p (r # rs) =
     (let (p, reports) = progress_Read r p in
      case br_End r of
        Some None \<Rightarrow> (reports, Inr (br_Bytes r))
      | Some (Some e) \<Rightarrow> (reports, Inl e)
      | None \<Rightarrow>
          let (later, rest) = ReadAll_progress p rs in
          (reports @ later, map_sum id ((@) (br_Bytes r)) rest))"

text \<open>The fields of a response are status code, status text, content length, body and the body's first 4096 bytes.\<close>

definition downloadPatch ::
  "(string \<Rightarrow> string \<Rightarrow> HttpReply) \<Rightarrow> string \<Rightarrow> string \<Rightarrow> DownloadProgress list \<times> (string + string)" where
  "downloadPatch http downloadURL apiKey =
     (case http downloadURL (trim_space apiKey) of
        Http_no_request e \<Rightarrow> ([], Inl e)
      | Http_no_response e \<Rightarrow> ([], Inl (''download patch: '' @ e))
      | Http_response code status len body detail \<Rightarrow>
          if code \<noteq> 200 then
            let message = trim_space detail in
            ([], Inl (if message \<noteq> [] then ''download patch: unexpected status '' @ status @ '': '' @ message
                      else ''download patch: unexpected status '' @ status))
          else
            (case ReadAll_progress \<lparr>pr_total = len, pr_read = 0, pr_reported = 0, pr_lastReportTime = 0\<rparr>
                    (LimitReader 134217728 body) of
               (reports, Inl e) \<Rightarrow> (reports, Inl (''download patch: '' @ e))
             | (reports, Inr data) \<Rightarrow> (reports, Inr data)))"

subsection \<open>The gateway\<close>

text \<open>The configuration cache is an atomic pointer to an immutable \<open>Config\<close>: the value it points to.\<close>

definition configcache_New :: Config where
  "configcache_New =
     \<lparr>cf_Version = 0, cf_Brands = [], cf_DeviceSets = Map.empty, cf_Connections = Map.empty, cf_Plants = []\<rparr>"

record 'w Gateway =
  gw_Store :: Store
  gw_Cache :: Config
  gw_Client :: "'w Client"

text \<open>\<open>Cache.Swap\<close>.\<close>

definition Swap :: "Config \<Rightarrow> 'w Gateway \<Rightarrow> 'w Gateway" where
  "Swap cfg g = g\<lparr>gw_Cache := cfg\<rparr>"

record 'w GatewayEnv =
  ge_net :: "'w Net"
  ge_sort :: "Entry list \<Rightarrow> Entry list"
  ge_brands :: "Brand list \<Rightarrow> Brand list"
  ge_connections :: "ConnectionConfig list \<Rightarrow> ConnectionConfig list"
  ge_keys :: "int set \<Rightarrow> int list"
  ge_failures :: "ReadFailure list \<Rightarrow> string"
  ge_url :: "string \<Rightarrow> (string \<times> string) option"
  ge_url_string :: "string \<Rightarrow> string \<Rightarrow> string \<Rightarrow> string"
  ge_snapshot :: "ConfigSnapshot \<Rightarrow> string"
  ge_json :: "Payload \<Rightarrow> string + string"
  ge_batchSize :: "string \<Rightarrow> int"
  ge_ids :: "string \<Rightarrow> string + int list"
  ge_io :: "Store \<Rightarrow> string option"
  ge_latency :: int
  ge_maintenance :: "string option"
  ge_http :: "string \<Rightarrow> string \<Rightarrow> HttpReply"
  ge_stageZip :: "string \<Rightarrow> string option"
  ge_apply :: "string + string"
  ge_rollback :: "string + string"
  ge_restart :: "string option"

text \<open>
  \<open>ProbeConnection\<close> of \<open>app/service.go\<close>, with the service's client set. The latency is a
  parameter; the values returned beside an error are dropped.
\<close>

definition ProbeConnection ::
  "'w Net \<Rightarrow> int \<Rightarrow> 'w Client \<times> Store \<Rightarrow> 'w Client \<times> (string + ProbeInfo \<times> ConnectionConfig)" where
  "ProbeConnection net i cs =
     (case localConnection (Some (snd cs)) None i of
        Inl err \<Rightarrow> (fst cs, Inl err)
      | Inr connection \<Rightarrow>
          (case ProbeDetails net (c_Host connection) (c_Port connection) (c_UnitID connection) (fst cs) of
             (c, info, None) \<Rightarrow> (c, Inr (info, connection))
           | (c, info, Some err) \<Rightarrow> (c, Inl err)))"

subsection \<open>A pushed configuration\<close>

text \<open>The settings beside the configuration proper, and whether one of them changed.\<close>

definition pushed_settings :: "ConfigSnapshot \<Rightarrow> GatewayConfig \<Rightarrow> GatewayConfig \<times> bool" where
  "pushed_settings snapshot cfg0 =
     (let (cfg, changed) =
            (if 0 < cs_SendIntervalSeconds snapshot
                \<and> gc_SendIntervalSeconds cfg0 \<noteq> cs_SendIntervalSeconds snapshot
             then (cfg0\<lparr>gc_SendIntervalSeconds := cs_SendIntervalSeconds snapshot\<rparr>, True)
             else (cfg0, False));
          (cfg, changed) =
            (if gc_APIPollingEnabled cfg \<noteq> cs_APIPollingEnabled snapshot
             then (cfg\<lparr>gc_APIPollingEnabled := cs_APIPollingEnabled snapshot\<rparr>, True)
             else (cfg, changed))
      in if 0 < cs_IdleHeartbeatSeconds snapshot
            \<and> gc_IdleHeartbeatSeconds cfg \<noteq> cs_IdleHeartbeatSeconds snapshot
         then (cfg\<lparr>gc_IdleHeartbeatSeconds := cs_IdleHeartbeatSeconds snapshot\<rparr>, True)
         else (cfg, changed))"

definition rebuild :: "'w GatewayEnv \<Rightarrow> Store \<Rightarrow> Config" where
  "rebuild env s = RebuildFromStore (ge_brands env) (ge_connections env) s"

definition handleConfigSnapshot ::
  "'w GatewayEnv \<Rightarrow> int \<Rightarrow> envelope \<Rightarrow> 'w Gateway \<Rightarrow> 'w Gateway \<times> envelope" where
  "handleConfigSnapshot env now msg g =
     (let snapshot = en_ConfigSnapshot msg;
          ack = zero_envelope\<lparr>en_Type := ''config.ack'', en_AppliedVersion := cs_Version snapshot\<rparr>;
          (s, r) = ApplyConfigSnapshot (ge_snapshot env) now (ge_io env (gw_Store g)) (cs_Version snapshot)
                     snapshot (gw_Store g);
          g = g\<lparr>gw_Store := s\<rparr>
      in case r of
           Inl err \<Rightarrow> (g, ack\<lparr>en_Status := ''FAILED'', en_Reason := err\<rparr>)
         | Inr _ \<Rightarrow>
             let g = Swap (rebuild env s) g;
                 (cfg, changed) = pushed_settings snapshot (get_gateway_config s);
                 g = (if changed then g\<lparr>gw_Store := fst (SaveGatewayConfig (ge_url env) (ge_io env s) cfg s)\<rparr>
                      else g)
             in (g, ack\<lparr>en_Status := ''APPLIED''\<rparr>))"

subsection \<open>Commands\<close>

definition command_failed :: "string \<Rightarrow> envelope \<Rightarrow> envelope" where
  "command_failed err result = result\<lparr>en_Ok := False, en_Error := err\<rparr>"

text \<open>\<open>data, _ := json.Marshal(..)\<close>: without data where the marshaller reports an error.\<close>

definition command_data :: "'w GatewayEnv \<Rightarrow> Payload \<Rightarrow> envelope \<Rightarrow> envelope" where
  "command_data env p result =
     result\<lparr>en_Ok := True, en_Data := (case ge_json env p of Inl _ \<Rightarrow> [] | Inr data \<Rightarrow> data)\<rparr>"

definition config_export :: "'w GatewayEnv \<Rightarrow> Config \<Rightarrow> ConfigSnapshot" where
  "config_export env cfg =
     zero_ConfigSnapshot\<lparr>cs_Version := cf_Version cfg, cs_Brands := cf_Brands cfg, cs_Plants := cf_Plants cfg,
       cs_DeviceSets := map (\<lambda>i. the (cf_DeviceSets cfg i)) (ge_keys env (dom (cf_DeviceSets cfg))),
       cs_Connections := map (\<lambda>i. the (cf_Connections cfg i)) (ge_keys env (dom (cf_Connections cfg)))\<rparr>"

text \<open>The batch size of a drain; data that cannot be decoded leaves what was decoded, at first 0.\<close>

definition drain_size :: "'w GatewayEnv \<Rightarrow> string \<Rightarrow> int" where
  "drain_size env data =
     (let n = (if data \<noteq> [] then ge_batchSize env data else 0) in if n \<le> 0 \<or> 500 < n then 20 else n)"

definition stageUpdate ::
  "'w GatewayEnv \<Rightarrow> envelope \<Rightarrow> 'w Gateway \<Rightarrow> DownloadProgress list \<times> string option" where
  "stageUpdate env msg g =
     (if en_DownloadURL msg = [] then ([], Some ''update.stage: downloadUrl is required'')
      else (case ge_maintenance env of
              Some err \<Rightarrow> ([], Some (''maintenance: wait for active Modbus poll: '' @ err))
            | None \<Rightarrow>
                (case downloadPatch (ge_http env) (en_DownloadURL msg)
                        (gc_APIKey (get_gateway_config (gw_Store g))) of
                   (reports, Inl err) \<Rightarrow> (reports, Some err)
                 | (reports, Inr data) \<Rightarrow> (reports, ge_stageZip env data))))"

definition progress_message :: "string \<Rightarrow> DownloadProgress \<Rightarrow> envelope" where
  "progress_message i p =
     zero_envelope\<lparr>en_Type := ''command.progress'', en_CommandID := i, en_Phase := ''download'',
       en_DownloadedBytes := dp_DownloadedBytes p, en_TotalBytes := dp_TotalBytes p\<rparr>"

text \<open>The result of a command that answers with nothing, and with the name of a backup.\<close>

definition command_done :: "string option \<Rightarrow> envelope \<Rightarrow> envelope" where
  "command_done r result =
     (case r of Some err \<Rightarrow> command_failed err result | None \<Rightarrow> result\<lparr>en_Ok := True\<rparr>)"

definition command_backup :: "'w GatewayEnv \<Rightarrow> string + string \<Rightarrow> envelope \<Rightarrow> envelope" where
  "command_backup env r result =
     (case r of Inl err \<Rightarrow> command_failed err result | Inr backup \<Rightarrow> command_data env (P_backup backup) result)"

text \<open>The messages sent are the progress messages, in order, and the result.\<close>

definition handleCommand ::
  "'w GatewayEnv \<Rightarrow> int \<Rightarrow> envelope \<Rightarrow> 'w Gateway \<Rightarrow> 'w Gateway \<times> envelope list" where
  "handleCommand env now msg g =
     (let result = zero_envelope\<lparr>en_Type := ''command.result'', en_CommandID := en_CommandID msg\<rparr>;
          s = gw_Store g
      in if en_Kind msg = ''readNow'' then
           let ((c, s), r) = PollConnection (ge_net env) (ge_sort env) (ge_failures env) now (ge_io env s)
                               (itoa (en_ConnectionID msg)) (gw_Client g, s)
           in (g\<lparr>gw_Store := s, gw_Client := c\<rparr>,
               [case r of Inl err \<Rightarrow> command_failed err result
                | Inr (reading, ms) \<Rightarrow> command_data env (P_reading reading ms) result])
         else if en_Kind msg = ''connectTest'' then
           let (c, r) = ProbeConnection (ge_net env) (en_ConnectionID msg) (gw_Client g, s)
           in (g\<lparr>gw_Client := c\<rparr>,
               [case r of Inl err \<Rightarrow> command_failed err result
                | Inr (info, connection) \<Rightarrow> command_data env (P_probe connection info (ge_latency env)) result])
         else if en_Kind msg = ''config-export'' then
           (g, [case ge_json env (P_config (config_export env (gw_Cache g))) of
                  Inl err \<Rightarrow> command_failed err result
                | Inr data \<Rightarrow> result\<lparr>en_Ok := True, en_Data := data\<rparr>])
         else if en_Kind msg = ''telemetry.drain'' then
           let events = Ready now (drain_size env (en_Data msg)) s
           in (g, [command_data env (P_batch (map ev_ID events) (map ev_Payload events)) result])
         else if en_Kind msg = ''telemetry.ack'' then
           (case ge_ids env (en_Data msg) of
              Inl err \<Rightarrow> (g, [command_failed err result])
            | Inr ids \<Rightarrow>
                let (s, r) = Delivered now (ge_io env s) ids s
                in (g\<lparr>gw_Store := s\<rparr>,
                    [case r of Inl err \<Rightarrow> command_failed err result | Inr _ \<Rightarrow> result\<lparr>en_Ok := True\<rparr>]))
         else if en_Kind msg = ''update.stage'' then
           let (reports, r) = stageUpdate env msg g
           in (g, map (progress_message (en_CommandID msg)) reports @ [command_done r result])
         else if en_Kind msg = ''update.apply'' then (g, [command_backup env (ge_apply env) result])
         else if en_Kind msg = ''update.rollback'' then (g, [command_backup env (ge_rollback env) result])
         else if en_Kind msg = ''service.restart'' then (g, [command_done (ge_restart env) result])
         else (g, [command_failed ''unknown command kind'' result]))"

subsection \<open>A connection\<close>

definition handle_message ::
  "'w GatewayEnv \<Rightarrow> int \<Rightarrow> envelope \<Rightarrow> 'w Gateway \<Rightarrow> 'w Gateway \<times> envelope list" where
  "handle_message env now msg g =
     (if en_Type msg = ''config.snapshot'' then
        let (g, ack) = handleConfigSnapshot env now msg g in (g, [ack])
      else if en_Type msg = ''command.request'' then handleCommand env now msg g
      else (g, []))"

text \<open>The read loop, up to the read that fails.\<close>

fun read_loop ::
  "'w GatewayEnv \<Rightarrow> (int \<times> envelope) list \<Rightarrow> 'w Gateway \<Rightarrow> 'w Gateway \<times> envelope list" where
  "read_loop env [] g = (g, [])"
| "read_loop env ((now, msg) # rest) g =
     (let (g, out) = handle_message env now msg g; (g, later) = read_loop env rest g in (g, out @ later))"

definition wsURLFromEndpoint :: "'w GatewayEnv \<Rightarrow> string \<Rightarrow> string + string" where
  "wsURLFromEndpoint env endpoint =
     (case ge_url env (trim_space endpoint) of
        None \<Rightarrow> Inl (''invalid gateway endpoint '' @ quoted endpoint)
      | Some (scheme, host) \<Rightarrow>
          if host = [] then Inl (''invalid gateway endpoint '' @ quoted endpoint)
          else Inr (ge_url_string env (if scheme = ''https'' then ''wss'' else ''ws'') host
                      ''/api/v1/gateway/realtime''))"

text \<open>What one attempt meets: the dial, the first write, the messages, and the read that ends it.\<close>

record Attempt =
  at_dial :: "string option"
  at_hello :: "string option"
  at_messages :: "(int \<times> envelope) list"
  at_read :: string

definition hello :: "string \<Rightarrow> GatewayConfig \<Rightarrow> Store \<Rightarrow> envelope" where
  "hello version cfg s =
     zero_envelope\<lparr>en_Type := ''hello'', en_GatewayID := gc_GatewayID cfg,
       en_AppliedVersion := CurrentConfigVersion s, en_SoftwareVersion := version\<rparr>"

definition runOnce ::
  "'w GatewayEnv \<Rightarrow> string \<Rightarrow> Attempt \<Rightarrow> GatewayConfig \<Rightarrow> 'w Gateway \<Rightarrow>
     'w Gateway \<times> envelope list \<times> bool \<times> string option" where
  "runOnce env version a cfg g =
     (case wsURLFromEndpoint env (gc_Endpoint cfg) of
        Inl err \<Rightarrow> (g, [], False, Some err)
      | Inr url \<Rightarrow>
          (case at_dial a of
             Some err \<Rightarrow> (g, [], False, Some (''dial '' @ url @ '': '' @ err))
           | None \<Rightarrow>
               (case at_hello a of
                  Some err \<Rightarrow> (g, [], True, Some (''send hello: '' @ err))
                | None \<Rightarrow>
                    let (g', out) = read_loop env (at_messages a) g
                    in (g', hello version cfg (gw_Store g) # out, True, Some (''read: '' @ at_read a)))))"

text \<open>
  One turn of the loop of \<open>Run\<close>: the seconds it then waits at most, and the count of attempts.
\<close>

definition run_turn ::
  "'w GatewayEnv \<Rightarrow> string \<Rightarrow> Attempt \<Rightarrow> 'w Gateway \<times> int \<Rightarrow> ('w Gateway \<times> int) \<times> envelope list \<times> int" where
  "run_turn env version a ga =
     (let (g, attempts) = ga; cfg = get_gateway_config (gw_Store g) in
      if gc_Endpoint cfg = [] \<or> gc_APIKey cfg = [] then ((g, attempts), [], 5)
      else
        let (g, out, connected, _) = runOnce env version a cfg g;
            attempts = (if connected then 0 else attempts) + 1
        in ((g, attempts), out, push_bit (nat (min attempts 8)) 1))"

subsection \<open>Answers\<close>

text \<open>Every command is answered by one result with its id, after progress messages with its id.\<close>

lemmas command_parts = command_failed_def command_data_def command_done_def command_backup_def

lemma command_parts_sel [simp]:
  "en_Type (command_failed err r) = en_Type r" "en_CommandID (command_failed err r) = en_CommandID r"
  "en_Type (command_data env p r) = en_Type r" "en_CommandID (command_data env p r) = en_CommandID r"
  "en_Type (command_done o' r) = en_Type r" "en_CommandID (command_done o' r) = en_CommandID r"
  "en_Type (command_backup env b r) = en_Type r" "en_CommandID (command_backup env b r) = en_CommandID r"
  by (simp_all add: command_parts split: option.splits sum.splits)

definition answers_command :: "string \<Rightarrow> envelope list \<Rightarrow> bool" where
  "answers_command i out \<longleftrightarrow>
     out \<noteq> [] \<and> en_Type (last out) = ''command.result'' \<and> list_all (\<lambda>m. en_CommandID m = i) out
     \<and> list_all (\<lambda>m. en_Type m = ''command.progress'') (butlast out)"

lemma answers_single [simp]:
  "answers_command i [r] \<longleftrightarrow> en_Type r = ''command.result'' \<and> en_CommandID r = i"
  by (auto simp: answers_command_def)

lemma answers_progress:
  "answers_command i (map (progress_message i) ps @ [r]) \<longleftrightarrow> en_Type r = ''command.result'' \<and> en_CommandID r = i"
  by (auto simp: answers_command_def list_all_iff progress_message_def butlast_append)

lemma handleCommand_answers: "answers_command (en_CommandID msg) (snd (handleCommand env now msg g))"
  unfolding handleCommand_def Let_def
  by (auto simp: answers_progress split: prod.splits sum.splits if_splits)

subsection \<open>What a command changes\<close>

text \<open>The part of the store that is configuration.\<close>

definition same_config :: "fileState \<Rightarrow> fileState \<Rightarrow> bool" where
  "same_config f g \<longleftrightarrow>
     fs_Brands g = fs_Brands f \<and> fs_DeviceSets g = fs_DeviceSets f \<and> fs_Connections g = fs_Connections f
     \<and> fs_Plants g = fs_Plants f \<and> fs_History g = fs_History f \<and> get_gateway_config \<lparr>st_mem = g, st_disk = None\<rparr>
       = get_gateway_config \<lparr>st_mem = f, st_disk = None\<rparr>"

lemma same_config_refl [simp]: "same_config f f"
  by (simp add: same_config_def)

lemma SavePollLog_config: "same_config (st_mem s) (st_mem (fst (SavePollLog now io v s)))"
  by (simp add: SavePollLog_def same_config_def get_gateway_config_def nextID_def Let_def split: prod.splits)

lemma SavePollLog_outbox: "fs_Outbox (st_mem (fst (SavePollLog now io v s))) = fs_Outbox (st_mem s)"
  by (simp add: SavePollLog_def nextID_def Let_def split: prod.splits)

lemma PollConnection_store:
  "snd (fst (PollConnection net srt detail now io arg (c, s))) = s \<or>
   (\<exists>v. snd (fst (PollConnection net srt detail now io arg (c, s))) = fst (SavePollLog now io v s))"
  by (auto simp: PollConnection_def Let_def split: option.splits sum.splits)

lemma Delivered_config: "same_config (st_mem s) (st_mem (fst (Delivered now io ids s)))"
  by (simp add: Delivered_def outbox_mem_Delivered same_config_def get_gateway_config_def)

lemma PollConnection_keeps:
  "same_config (st_mem s) (st_mem (snd (fst (PollConnection net srt detail now io arg (c, s)))))"
  "fs_Outbox (st_mem (snd (fst (PollConnection net srt detail now io arg (c, s))))) = fs_Outbox (st_mem s)"
  using PollConnection_store [of net srt detail now io arg c s]
  by (auto simp: SavePollLog_config SavePollLog_outbox)

lemma handleCommand_readNow:
  "en_Kind msg = ''readNow'' \<Longrightarrow>
   fst (handleCommand env now msg g) =
     (let r = PollConnection (ge_net env) (ge_sort env) (ge_failures env) now (ge_io env (gw_Store g))
                (itoa (en_ConnectionID msg)) (gw_Client g, gw_Store g)
      in g\<lparr>gw_Store := snd (fst r), gw_Client := fst (fst r)\<rparr>)"
  by (simp add: handleCommand_def Let_def split: prod.splits)

lemma handleCommand_ack:
  "en_Kind msg = ''telemetry.ack'' \<Longrightarrow>
   handleCommand env now msg g =
     (case ge_ids env (en_Data msg) of
        Inl err \<Rightarrow> (g, [command_failed err (zero_envelope\<lparr>en_Type := ''command.result'', en_CommandID := en_CommandID msg\<rparr>)])
      | Inr ids \<Rightarrow>
          (g\<lparr>gw_Store := fst (Delivered now (ge_io env (gw_Store g)) ids (gw_Store g))\<rparr>,
           [case snd (Delivered now (ge_io env (gw_Store g)) ids (gw_Store g)) of
              Inl err \<Rightarrow> command_failed err (zero_envelope\<lparr>en_Type := ''command.result'', en_CommandID := en_CommandID msg\<rparr>)
            | Inr _ \<Rightarrow> zero_envelope\<lparr>en_Type := ''command.result'', en_CommandID := en_CommandID msg, en_Ok := True\<rparr>]))"
  by (simp add: handleCommand_def Let_def split: prod.splits sum.splits)

lemma handleCommand_drain:
  "en_Kind msg = ''telemetry.drain'' \<Longrightarrow>
   handleCommand env now msg g =
     (let events = Ready now (drain_size env (en_Data msg)) (gw_Store g) in
      (g, [command_data env (P_batch (map ev_ID events) (map ev_Payload events))
             (zero_envelope\<lparr>en_Type := ''command.result'', en_CommandID := en_CommandID msg\<rparr>)]))"
  by (simp add: handleCommand_def Let_def)

lemma handleCommand_other:
  assumes "en_Kind msg \<noteq> ''readNow''" and "en_Kind msg \<noteq> ''telemetry.ack''"
  shows "gw_Store (fst (handleCommand env now msg g)) = gw_Store g"
    and "gw_Cache (fst (handleCommand env now msg g)) = gw_Cache g"
  using assms by (auto simp: handleCommand_def Let_def split: prod.splits)

lemma handleCommand_config:
  "gw_Cache (fst (handleCommand env now msg g)) = gw_Cache g"
  "same_config (st_mem (gw_Store g)) (st_mem (gw_Store (fst (handleCommand env now msg g))))"
proof -
  consider "en_Kind msg = ''readNow''" | "en_Kind msg = ''telemetry.ack''"
    | "en_Kind msg \<noteq> ''readNow''" "en_Kind msg \<noteq> ''telemetry.ack''" by blast
  then have "gw_Cache (fst (handleCommand env now msg g)) = gw_Cache g
    \<and> same_config (st_mem (gw_Store g)) (st_mem (gw_Store (fst (handleCommand env now msg g))))"
  proof cases
    case 1
    then show ?thesis by (simp add: handleCommand_readNow Let_def PollConnection_keeps)
  next
    case 2
    then show ?thesis by (simp add: handleCommand_ack Delivered_config split: sum.splits)
  next
    case 3
    then show ?thesis by (simp add: handleCommand_other)
  qed
  then show "gw_Cache (fst (handleCommand env now msg g)) = gw_Cache g"
    "same_config (st_mem (gw_Store g)) (st_mem (gw_Store (fst (handleCommand env now msg g))))" by blast+
qed

text \<open>Only an acknowledgement changes the queue: it marks the rows of its ids.\<close>

definition acked_ids :: "'w GatewayEnv \<Rightarrow> envelope \<Rightarrow> int list" where
  "acked_ids env msg =
     (if en_Kind msg = ''telemetry.ack''
      then (case ge_ids env (en_Data msg) of Inl _ \<Rightarrow> [] | Inr ids \<Rightarrow> ids) else [])"

lemma handleCommand_outbox:
  "fs_Outbox (st_mem (gw_Store (fst (handleCommand env now msg g)))) =
     for_ids (acked_ids env msg) (deliver_row now 0 []) (fs_Outbox (st_mem (gw_Store g)))"
proof -
  have nil: "for_ids [] h rows = rows" for h rows by (simp add: for_ids_def)
  consider "en_Kind msg = ''readNow''" | "en_Kind msg = ''telemetry.ack''"
    | "en_Kind msg \<noteq> ''readNow''" "en_Kind msg \<noteq> ''telemetry.ack''" by blast
  then show ?thesis
  proof cases
    case 1
    then show ?thesis by (simp add: handleCommand_readNow Let_def PollConnection_keeps acked_ids_def nil)
  next
    case 2
    then show ?thesis
      by (simp add: handleCommand_ack acked_ids_def nil Delivered_def outbox_mem_Delivered split: sum.splits)
  next
    case 3
    then show ?thesis by (simp add: handleCommand_other acked_ids_def nil)
  qed
qed

subsection \<open>The cache follows the store\<close>

definition cache_current :: "'w GatewayEnv \<Rightarrow> 'w Gateway \<Rightarrow> bool" where
  "cache_current env g \<longleftrightarrow> gw_Cache g = rebuild env (gw_Store g)"

lemma rebuild_same:
  assumes "fs_Brands (st_mem t) = fs_Brands (st_mem s)" and "fs_DeviceSets (st_mem t) = fs_DeviceSets (st_mem s)"
    and "fs_Connections (st_mem t) = fs_Connections (st_mem s)" and "fs_Plants (st_mem t) = fs_Plants (st_mem s)"
    and "fs_History (st_mem t) = fs_History (st_mem s)"
  shows "rebuild env t = rebuild env s"
  unfolding rebuild_def RebuildFromStore_def CurrentConfigVersion_def Brands_def DeviceSets_def
    Connections_def Plants_def enrich_def brandSets_def assms
  by (rule refl)

lemma rebuild_config: "same_config (st_mem s) (st_mem t) \<Longrightarrow> rebuild env t = rebuild env s"
  by (intro rebuild_same) (simp_all add: same_config_def)

lemma SaveGatewayConfig_rebuild:
  "rebuild env (fst (SaveGatewayConfig url io v s)) = rebuild env s"
  by (intro rebuild_same) (simp_all add: SaveGatewayConfig_def Let_def)

text \<open>The two ways a push is acknowledged.\<close>

lemma handleConfigSnapshot_cases:
  assumes "handleConfigSnapshot env now msg g = (g', ack)"
  obtains (failed) s err where
      "ApplyConfigSnapshot (ge_snapshot env) now (ge_io env (gw_Store g)) (cs_Version (en_ConfigSnapshot msg))
         (en_ConfigSnapshot msg) (gw_Store g) = (s, Inl err)"
      "g' = g\<lparr>gw_Store := s\<rparr>" "en_Status ack = ''FAILED''" "en_Reason ack = err"
  | (applied) s cfg changed where
      "ApplyConfigSnapshot (ge_snapshot env) now (ge_io env (gw_Store g)) (cs_Version (en_ConfigSnapshot msg))
         (en_ConfigSnapshot msg) (gw_Store g) = (s, Inr ())"
      "pushed_settings (en_ConfigSnapshot msg) (get_gateway_config s) = (cfg, changed)"
      "g' = g\<lparr>gw_Store := if changed then fst (SaveGatewayConfig (ge_url env) (ge_io env s) cfg s) else s,
              gw_Cache := rebuild env s\<rparr>"
      "en_Status ack = ''APPLIED''"
proof -
  obtain s r where a: "ApplyConfigSnapshot (ge_snapshot env) now (ge_io env (gw_Store g))
      (cs_Version (en_ConfigSnapshot msg)) (en_ConfigSnapshot msg) (gw_Store g) = (s, r)" by fastforce
  obtain cfg changed where p: "pushed_settings (en_ConfigSnapshot msg) (get_gateway_config s) = (cfg, changed)"
    by fastforce
  show ?thesis
  proof (cases r)
    case (Inl err)
    with assms a show ?thesis by (intro failed [of s err]) (auto simp: handleConfigSnapshot_def)
  next
    case (Inr u)
    with assms a p show ?thesis
      by (intro applied [of s cfg changed]) (auto simp: handleConfigSnapshot_def Swap_def Let_def split: if_splits)
  qed
qed

lemma handleConfigSnapshot_ack:
  "en_Type (snd (handleConfigSnapshot env now msg g)) = ''config.ack''
   \<and> en_AppliedVersion (snd (handleConfigSnapshot env now msg g)) = cs_Version (en_ConfigSnapshot msg)"
  by (simp add: handleConfigSnapshot_def Let_def split: prod.splits sum.splits)

lemma handleConfigSnapshot_current:
  assumes "handleConfigSnapshot env now msg g = (g', ack)" and "en_Status ack \<noteq> ''FAILED''"
  shows "cache_current env g'"
  using assms(1)
proof (cases rule: handleConfigSnapshot_cases)
  case (failed s err)
  then show ?thesis using assms(2) by simp
next
  case (applied s cfg changed)
  then show ?thesis by (simp add: cache_current_def SaveGatewayConfig_rebuild)
qed

lemma handle_message_current:
  assumes "handle_message env now msg g = (g', out)" and "list_all (\<lambda>m. en_Status m \<noteq> ''FAILED'') out"
    and "cache_current env g \<or> en_Type msg = ''config.snapshot''"
  shows "cache_current env g'"
proof (cases "en_Type msg = ''config.snapshot''")
  case True
  obtain h ack where h: "handleConfigSnapshot env now msg g = (h, ack)" by fastforce
  with True assms(1) have "g' = h" "out = [ack]" by (simp_all add: handle_message_def)
  with handleConfigSnapshot_current [OF h] assms(2) show ?thesis by simp
next
  case False
  note f = False
  show ?thesis
  proof (cases "en_Type msg = ''command.request''")
    case True
    with f assms(1) have "g' = fst (handleCommand env now msg g)" by (simp add: handle_message_def)
    then show ?thesis
      using f assms(3)
      by (simp add: cache_current_def handleCommand_config(1) rebuild_config [OF handleCommand_config(2)])
  next
    case False
    with f assms show ?thesis by (simp add: handle_message_def)
  qed
qed

lemma read_loop_current:
  assumes "list_all (\<lambda>m. en_Status m \<noteq> ''FAILED'') (snd (read_loop env msgs g))"
    and "cache_current env g \<or> list_ex (\<lambda>(_, msg). en_Type msg = ''config.snapshot'') msgs"
  shows "cache_current env (fst (read_loop env msgs g))"
  using assms
proof (induction msgs arbitrary: g)
  case Nil
  then show ?case by simp
next
  case (Cons m msgs)
  obtain now msg where m: "m = (now, msg)" by fastforce
  obtain g1 out where h: "handle_message env now msg g = (g1, out)" by fastforce
  from Cons.prems(1) have "list_all (\<lambda>m. en_Status m \<noteq> ''FAILED'') out"
    "list_all (\<lambda>m. en_Status m \<noteq> ''FAILED'') (snd (read_loop env msgs g1))"
    by (simp_all add: m h case_prod_beta)
  with handle_message_current [OF h] Cons.IH [of g1] Cons.prems(2) show ?case
    by (auto simp: m h case_prod_beta)
qed

text \<open>
  Where the file cannot be written the acknowledgement is \<open>FAILED\<close>, but the pushed configuration is the
  one in memory, which \<open>PollConnection\<close> reads, and the cache keeps the old one.
\<close>

lemma failed_push_is_in_memory:
  assumes "ge_io env (gw_Store g) = Some err"
    and "normalizeConfigSnapshot (en_ConfigSnapshot msg) = Inr n"
  shows "case handleConfigSnapshot env now msg g of (g', ack) \<Rightarrow>
    en_Status ack = ''FAILED'' \<and> fs_Connections (st_mem (gw_Store g')) = cs_Connections n
    \<and> fs_DeviceSets (st_mem (gw_Store g')) = cs_DeviceSets n \<and> gw_Cache g' = gw_Cache g"
  using assms
  by (simp add: handleConfigSnapshot_def ApplyConfigSnapshot_def Let_def save_result_cases)

text \<open>A push the configuration rules refuse is acknowledged as \<open>APPLIED\<close>, and its settings are taken.\<close>

lemma refused_push_is_acknowledged:
  assumes "\<And>s. ge_io env s = None" and "normalizeConfigSnapshot (en_ConfigSnapshot msg) = Inl err"
  shows "case handleConfigSnapshot env now msg g of (g', ack) \<Rightarrow>
    en_Status ack = ''APPLIED'' \<and> fs_Connections (st_mem (gw_Store g')) = fs_Connections (st_mem (gw_Store g))
    \<and> h_Status (last (fs_History (st_mem (gw_Store g')))) = ''FAILED''"
  using assms
  by (simp add: handleConfigSnapshot_def ApplyConfigSnapshot_def Let_def save_result_cases Swap_def
      SaveGatewayConfig_def split: prod.splits)

subsection \<open>The pushed settings\<close>

lemma pushed_settings_sel:
  "gc_SendIntervalSeconds (fst (pushed_settings sn cfg)) =
     (if 0 < cs_SendIntervalSeconds sn then cs_SendIntervalSeconds sn else gc_SendIntervalSeconds cfg)"
  "gc_APIPollingEnabled (fst (pushed_settings sn cfg)) = cs_APIPollingEnabled sn"
  "gc_IdleHeartbeatSeconds (fst (pushed_settings sn cfg)) =
     (if 0 < cs_IdleHeartbeatSeconds sn then cs_IdleHeartbeatSeconds sn else gc_IdleHeartbeatSeconds cfg)"
  "gc_Endpoint (fst (pushed_settings sn cfg)) = gc_Endpoint cfg"
  "gc_APIKey (fst (pushed_settings sn cfg)) = gc_APIKey cfg"
  "gc_GatewayID (fst (pushed_settings sn cfg)) = gc_GatewayID cfg"
  by (auto simp: pushed_settings_def Let_def split: prod.splits)

lemma pushed_settings_changed: "snd (pushed_settings sn cfg) \<longleftrightarrow> fst (pushed_settings sn cfg) \<noteq> cfg"
  by (cases cfg) (auto simp: pushed_settings_def Let_def)

subsection \<open>Bounds of reconnecting and of progress messages\<close>

lemma run_wait_bounds:
  assumes "0 \<le> snd ga"
  shows "case run_turn env version a ga of ((g, n), out, wait) \<Rightarrow>
    0 \<le> n \<and> n \<le> snd ga + 1 \<and> 2 \<le> wait \<and> wait \<le> 256"
proof -
  have w: "2 \<le> (push_bit (nat (min n 8)) 1 :: int) \<and> push_bit (nat (min n 8)) (1::int) \<le> 256" if "1 \<le> n" for n :: int
  proof -
    have k: "1 \<le> nat (min n 8)" "nat (min n 8) \<le> 8" using that by auto
    have "(2::int) ^ 1 \<le> 2 ^ nat (min n 8)" by (intro power_increasing k) simp
    moreover have "(2::int) ^ nat (min n 8) \<le> 2 ^ 8" by (intro power_increasing k) simp
    ultimately show ?thesis by (simp add: push_bit_eq_mult)
  qed
  show ?thesis
    using assms w [of 1] w [of "snd ga + 1"]
    by (auto simp: run_turn_def Let_def split: prod.splits)
qed

lemma ReadAll_progress_reports:
  "sorted_wrt (<) (pr_read p # map dp_DownloadedBytes (fst (ReadAll_progress p rs)))"
proof (induction rs arbitrary: p)
  case Nil
  then show ?case by simp
next
  case (Cons r rs)
  obtain q reports where q: "progress_Read r p = (q, reports)" by fastforce
  have rep: "reports = [] \<and> pr_read p \<le> pr_read q \<or>
      (\<exists>m. reports = [m] \<and> dp_DownloadedBytes m = pr_read q \<and> pr_read p < pr_read q)"
    using q by (auto simp: progress_Read_def Let_def split: if_splits)
  have one: "sorted_wrt (<) (pr_read p # map dp_DownloadedBytes reports)" using rep by auto
  show ?case
  proof (cases "br_End r")
    case None
    with q have "fst (ReadAll_progress p (r # rs)) = reports @ fst (ReadAll_progress q rs)"
      by (simp add: case_prod_beta)
    then show ?thesis using rep Cons.IH [of q] by (auto intro: order.strict_trans2)
  next
    case (Some e)
    with q have "fst (ReadAll_progress p (r # rs)) = reports" by (simp split: option.splits)
    then show ?thesis using one by simp
  qed
qed

lemma LimitReader_bytes:
  "length (concat (map br_Bytes (LimitReader n rs))) \<le> n
   \<and> prefix (concat (map br_Bytes (LimitReader n rs))) (concat (map br_Bytes rs))"
proof (induction n rs rule: LimitReader.induct)
  case (2 n r rs)
  then show ?case
    by (auto simp: take_is_prefix prefix_prefix min_def)
qed simp

subsection \<open>Properties\<close>

text \<open>
  Every command is answered, and does what it says and no more. A command sends progress messages
  and then exactly one result, all with the command's id; it leaves the cache and the whole
  configuration of the store as they were, and of the queue it marks as delivered exactly the rows
  whose ids an acknowledgement names, under every outcome of polling, probing, writing the file,
  downloading and updating.
\<close>

theorem handleCommand_effect:
  "case handleCommand env now msg g of (g', out) \<Rightarrow>
     answers_command (en_CommandID msg) out \<and> gw_Cache g' = gw_Cache g
     \<and> same_config (st_mem (gw_Store g)) (st_mem (gw_Store g'))
     \<and> fs_Outbox (st_mem (gw_Store g')) =
         map (\<lambda>v. if o_ID v \<in> set (acked_ids env msg) then deliver_row now 0 [] v else v)
           (fs_Outbox (st_mem (gw_Store g)))"
  using handleCommand_answers [of msg env now g] handleCommand_config [where env = env and now = now and msg = msg and g = g]
    handleCommand_outbox [of env now msg g]
  by (simp add: case_prod_beta for_ids_deliver)

text \<open>
  C39: The cache follows the store. Whatever messages arrive over a connection, as long as no push is
  answered \<open>FAILED\<close> the cache afterwards is what \<open>RebuildFromStore\<close> makes of the store, if it was so
  before or if at least one of the messages is a push.
\<close>

theorem cache_follows_store:
  assumes "list_all (\<lambda>m. en_Status m \<noteq> ''FAILED'') (snd (read_loop env msgs g))"
    and "cache_current env g \<or> list_ex (\<lambda>(_, msg). en_Type msg = ''config.snapshot'') msgs"
  shows "gw_Cache (fst (read_loop env msgs g)) =
    RebuildFromStore (ge_brands env) (ge_connections env) (gw_Store (fst (read_loop env msgs g)))"
  using read_loop_current [OF assms] by (simp add: cache_current_def rebuild_def)

definition sample_genv :: "unit GatewayEnv" where
  "sample_genv =
     \<lparr>ge_net = device_net ''BIG_ENDIAN'' sample_mem sample_refuse, ge_sort = sort_less entry_less,
      ge_brands = id, ge_connections = id, ge_keys = (\<lambda>_. []), ge_failures = (\<lambda>_. []), ge_url = (\<lambda>_. None),
      ge_url_string = (\<lambda>s h p. s @ ''://'' @ h @ p), ge_snapshot = (\<lambda>_. ''{}''), ge_json = (\<lambda>_. Inr ''{}''),
      ge_batchSize = (\<lambda>_. 500), ge_ids = (\<lambda>_. Inr [1]), ge_io = (\<lambda>_. None), ge_latency = 0,
      ge_maintenance = None, ge_http = (\<lambda>_ _. Http_no_response ''down''), ge_stageZip = (\<lambda>_. None),
      ge_apply = Inr ''backup'', ge_rollback = Inr ''backup'', ge_restart = None\<rparr>"

definition sample_gateway :: "unit Gateway" where
  "sample_gateway = \<lparr>gw_Store = sample_config, gw_Cache = configcache_New, gw_Client = sample_client\<rparr>"

definition sample_push :: envelope where
  "sample_push = zero_envelope\<lparr>en_Type := ''config.snapshot'', en_ConfigSnapshot := sample_snapshot\<rparr>"

lemma sample_push_applied:
  "list_all (\<lambda>m. en_Status m \<noteq> ''FAILED'') (snd (read_loop sample_genv [(7, sample_push)] sample_gateway))"
proof -
  obtain h ack where h: "handleConfigSnapshot sample_genv 7 sample_push sample_gateway = (h, ack)" by fastforce
  then have "en_Status ack \<noteq> ''FAILED''"
  proof (cases rule: handleConfigSnapshot_cases)
    case (failed s err)
    then show ?thesis
      by (simp add: ApplyConfigSnapshot_def Let_def sample_genv_def save_result_cases split: sum.splits)
  qed simp
  with h show ?thesis by (simp add: handle_message_def sample_push_def)
qed

theorem cache_follows_store_witness:
  "gw_Cache (fst (read_loop sample_genv [(7, sample_push)] sample_gateway)) =
     RebuildFromStore id id (gw_Store (fst (read_loop sample_genv [(7, sample_push)] sample_gateway)))"
proof -
  have "en_Type sample_push = ''config.snapshot''" by (simp add: sample_push_def)
  with cache_follows_store [OF sample_push_applied] show ?thesis by (simp add: sample_genv_def)
qed

end
