(* ===== verification/GatewayHub.thy ===== *)
theory GatewayHub
  imports Prelude
begin

section \<open>internal/gatewayhub: calls over the live connections of the gateways\<close>

text \<open>
  \<open>Hub\<close> of \<open>platform-api/internal/gatewayhub/hub.go\<close>. A \<open>*conn\<close> is an address of the heap
  \<open>hb_heap\<close>, so that a connection that was replaced or unregistered is still the one an older call and
  its own \<open>resolve\<close> work on. Every critical section of a mutex is one operation; \<open>run\<close> is the sequence
  \<open>run_begin\<close>, \<open>run_send\<close> (or \<open>run_cancel\<close>), \<open>run_receive\<close> (or \<open>run_cancel\<close>), which may interleave
  with everything else. A goroutine that is in \<open>run\<close> is a caller; its result channel has capacity one.
  Commands and results are texts.
\<close>

subsection \<open>State\<close>

record conn =
  cn_out :: "string list"
  cn_pending :: "string \<rightharpoonup> nat"

text \<open>A caller: the connection it found, its command id, and the content of its result channel.\<close>

datatype Phase = Sending string | Waiting | Returned "string + string"

record Caller =
  ca_conn :: nat
  ca_command :: string
  ca_result :: "string list"
  ca_phase :: Phase

record Hub =
  hb_conns :: "string \<rightharpoonup> nat"
  hb_heap :: "nat \<rightharpoonup> conn"
  hb_callers :: "nat \<rightharpoonup> Caller"

definition New :: Hub where
  "New = \<lparr>hb_conns = Map.empty, hb_heap = Map.empty, hb_callers = Map.empty\<rparr>"

definition out_capacity :: nat where
  "out_capacity = 16"

subsection \<open>Connections\<close>

text \<open>\<open>Register\<close>; \<open>c\<close> is the address of the new \<open>conn\<close>.\<close>

definition Register :: "string \<Rightarrow> nat \<Rightarrow> Hub \<Rightarrow> Hub" where
  "Register gatewayID c h =
     h\<lparr>hb_heap := (hb_heap h)(c \<mapsto> \<lparr>cn_out = [], cn_pending = Map.empty\<rparr>),
       hb_conns := (hb_conns h)(gatewayID \<mapsto> c)\<rparr>"

definition unregister :: "string \<Rightarrow> nat \<Rightarrow> Hub \<Rightarrow> Hub" where
  "unregister gatewayID c h =
     (if hb_conns h gatewayID = Some c then h\<lparr>hb_conns := (hb_conns h)(gatewayID := None)\<rparr> else h)"

definition IsOnline :: "string \<Rightarrow> Hub \<Rightarrow> bool" where
  "IsOnline gatewayID h \<longleftrightarrow> hb_conns h gatewayID \<noteq> None"

definition put_conn :: "nat \<Rightarrow> conn \<Rightarrow> Hub \<Rightarrow> Hub" where
  "put_conn c v h = h\<lparr>hb_heap := (hb_heap h)(c \<mapsto> v)\<rparr>"

definition put_caller :: "nat \<Rightarrow> Caller \<Rightarrow> Hub \<Rightarrow> Hub" where
  "put_caller k v h = h\<lparr>hb_callers := (hb_callers h)(k \<mapsto> v)\<rparr>"

text \<open>
  \<open>resolve\<close>. The second result is false where the send on the caller's channel would block, with the
  pending entry deleted already.
\<close>

definition resolve :: "nat \<Rightarrow> string \<Rightarrow> string \<Rightarrow> Hub \<Rightarrow> Hub \<times> bool" where
  "resolve c commandID result h =
     (case hb_heap h c of
        None \<Rightarrow> (h, True)
      | Some cn \<Rightarrow>
          let h = put_conn c (cn\<lparr>cn_pending := (cn_pending cn)(commandID := None)\<rparr>) h in
          (case cn_pending cn commandID of
             None \<Rightarrow> (h, True)
           | Some k \<Rightarrow>
               (case hb_callers h k of
                  None \<Rightarrow> (h, True)
                | Some ca \<Rightarrow>
                    if ca_result ca = []
                    then (put_caller k (ca\<lparr>ca_result := [result]\<rparr>) h, True) else (h, False))))"

text \<open>\<open>Progress\<close>: whose progress callback is called.\<close>

definition Progress :: "string \<Rightarrow> string \<Rightarrow> Hub \<Rightarrow> nat option" where
  "Progress gatewayID commandID h =
     (case hb_conns h gatewayID of
        None \<Rightarrow> None
      | Some c \<Rightarrow> (case hb_heap h c of None \<Rightarrow> None | Some cn \<Rightarrow> cn_pending cn commandID))"

text \<open>A send on the buffered channel \<open>out\<close>, where it does not block.\<close>

definition send_out :: "nat \<Rightarrow> string \<Rightarrow> Hub \<Rightarrow> Hub option" where
  "send_out c payload h =
     (case hb_heap h c of
        None \<Rightarrow> None
      | Some cn \<Rightarrow> if length (cn_out cn) < out_capacity
                   then Some (put_conn c (cn\<lparr>cn_out := cn_out cn @ [payload]\<rparr>) h) else None)"

definition PushConfig :: "string \<Rightarrow> string \<Rightarrow> Hub \<Rightarrow> Hub \<times> bool" where
  "PushConfig gatewayID payload h =
     (case hb_conns h gatewayID of
        None \<Rightarrow> (h, False)
      | Some c \<Rightarrow> (case send_out c payload h of Some h' \<Rightarrow> (h', True) | None \<Rightarrow> (h, False)))"

text \<open>The writer of the connection takes the next message.\<close>

definition take_out :: "nat \<Rightarrow> Hub \<Rightarrow> (Hub \<times> string) option" where
  "take_out c h =
     (case hb_heap h c of
        None \<Rightarrow> None
      | Some cn \<Rightarrow> (case cn_out cn of [] \<Rightarrow> None | m # ms \<Rightarrow> Some (put_conn c (cn\<lparr>cn_out := ms\<rparr>) h, m)))"

subsection \<open>Calls\<close>

definition ErrOffline :: string where
  "ErrOffline = ''gateway is offline''"

text \<open>\<open>run\<close> up to the first \<open>select\<close>; \<open>k\<close> is the caller.\<close>

definition run_begin :: "nat \<Rightarrow> string \<Rightarrow> string \<Rightarrow> string \<Rightarrow> Hub \<Rightarrow> Hub" where
  "run_begin k gatewayID commandID payload h =
     (case hb_conns h gatewayID of
        None \<Rightarrow> put_caller k \<lparr>ca_conn = 0, ca_command = commandID, ca_result = [], ca_phase = Returned (Inl ErrOffline)\<rparr> h
      | Some c \<Rightarrow>
          let h = (case hb_heap h c of
                     None \<Rightarrow> h
                   | Some cn \<Rightarrow> put_conn c (cn\<lparr>cn_pending := (cn_pending cn)(commandID \<mapsto> k)\<rparr>) h)
          in put_caller k \<lparr>ca_conn = c, ca_command = commandID, ca_result = [], ca_phase = Sending payload\<rparr> h)"

definition run_send :: "nat \<Rightarrow> Hub \<Rightarrow> Hub option" where
  "run_send k h =
     (case hb_callers h k of
        Some ca \<Rightarrow>
          (case ca_phase ca of
             Sending payload \<Rightarrow>
               map_option (put_caller k (ca\<lparr>ca_phase := Waiting\<rparr>)) (send_out (ca_conn ca) payload h)
           | _ \<Rightarrow> None)
      | None \<Rightarrow> None)"

text \<open>The deferred delete of the pending entry, and the return.\<close>

definition run_return :: "nat \<Rightarrow> Caller \<Rightarrow> string + string \<Rightarrow> Hub \<Rightarrow> Hub" where
  "run_return k ca r h =
     (let h = (case hb_heap h (ca_conn ca) of
                 None \<Rightarrow> h
               | Some cn \<Rightarrow> put_conn (ca_conn ca) (cn\<lparr>cn_pending := (cn_pending cn)(ca_command ca := None)\<rparr>) h)
      in put_caller k (ca\<lparr>ca_phase := Returned r\<rparr>) h)"

definition run_receive :: "nat \<Rightarrow> Hub \<Rightarrow> Hub option" where
  "run_receive k h =
     (case hb_callers h k of
        Some ca \<Rightarrow>
          (case (ca_phase ca, ca_result ca) of
             (Waiting, r # rs) \<Rightarrow> Some (run_return k (ca\<lparr>ca_result := rs\<rparr>) (Inr r) h)
           | _ \<Rightarrow> None)
      | None \<Rightarrow> None)"

text \<open>\<open>case <-ctx.Done()\<close> of either \<open>select\<close>.\<close>

definition run_cancel :: "nat \<Rightarrow> string \<Rightarrow> Hub \<Rightarrow> Hub option" where
  "run_cancel k err h =
     (case hb_callers h k of
        Some ca \<Rightarrow>
          (case ca_phase ca of Returned _ \<Rightarrow> None | _ \<Rightarrow> Some (run_return k ca (Inl err) h))
      | None \<Rightarrow> None)"

subsection \<open>The outcome of a call\<close>

text \<open>
  What \<open>Call\<close> makes of what \<open>run\<close> returned. The argument of the decoded case is the outcome of
  \<open>json.Unmarshal\<close>.
\<close>

datatype CallError = Call_transport string | Call_undecodable string | RejectedError string string

record CommandResult =
  cr_Ok :: bool
  cr_Data :: string
  cr_Error :: string

definition call_result ::
  "(string \<Rightarrow> string + CommandResult) \<Rightarrow> string \<Rightarrow> string + string \<Rightarrow> CallError + string" where
  "call_result decode kind r =
     (case r of
        Inl err \<Rightarrow> Inl (Call_transport err)
      | Inr raw \<Rightarrow>
          (case decode raw of
             Inl err \<Rightarrow> Inl (Call_undecodable (''decode '' @ kind @ '' result: '' @ err))
           | Inr result \<Rightarrow>
               if \<not> cr_Ok result
               then Inl (RejectedError kind (if cr_Error result = [] then ''no reason given'' else cr_Error result))
               else Inr (cr_Data result)))"

text \<open>\<open>RejectedError.Error\<close> and \<open>commandErrorText\<close> of the telemetry pull.\<close>

fun call_error :: "CallError \<Rightarrow> string" where
  "call_error (Call_transport err) = err"
| "call_error (Call_undecodable err) = err"
| "call_error (RejectedError kind reason) = ''gateway rejected '' @ kind @ '': '' @ reason"

definition commandErrorText :: "CallError \<Rightarrow> string" where
  "commandErrorText e = (case e of RejectedError kind reason \<Rightarrow> reason | _ \<Rightarrow> call_error e)"

subsection \<open>The interleavings\<close>

text \<open>
  A run of the hub: the operations in any order, with the results that arrived on each connection.
  A command id is 128 random bits: no two calls have the same. A new \<open>conn\<close> has a new address.
\<close>

inductive hub_run :: "(nat \<times> string \<times> string) list \<Rightarrow> Hub \<Rightarrow> bool" where
  init: "hub_run [] New"
| register: "hub_run evs h \<Longrightarrow> hb_heap h c = None \<Longrightarrow> hub_run evs (Register g c h)"
| unregister: "hub_run evs h \<Longrightarrow> hub_run evs (unregister g c h)"
| push: "hub_run evs h \<Longrightarrow> hub_run evs (fst (PushConfig g payload h))"
| flush: "hub_run evs h \<Longrightarrow> take_out c h = Some (h', m) \<Longrightarrow> hub_run evs h'"
| begin_call: "hub_run evs h \<Longrightarrow> hb_callers h k = None \<Longrightarrow> i \<notin> ca_command ` ran (hb_callers h) \<Longrightarrow>
    hub_run evs (run_begin k g i payload h)"
| send: "hub_run evs h \<Longrightarrow> run_send k h = Some h' \<Longrightarrow> hub_run evs h'"
| receive: "hub_run evs h \<Longrightarrow> run_receive k h = Some h' \<Longrightarrow> hub_run evs h'"
| cancel: "hub_run evs h \<Longrightarrow> run_cancel k err h = Some h' \<Longrightarrow> hub_run evs h'"
| result: "hub_run evs h \<Longrightarrow> hub_run (evs @ [(c, i, r)]) (fst (resolve c i r h))"

subsection \<open>Replies reach their own call\<close>

text \<open>
  The invariant: command ids are unique; a pending entry belongs to a caller of that connection and
  command that has no result yet and has not returned; what a caller received came in on its connection
  under its command; the queue to the socket is within its capacity.
\<close>

definition caller_ok :: "(nat \<times> string \<times> string) list \<Rightarrow> Caller \<Rightarrow> bool" where
  "caller_ok evs ca \<longleftrightarrow>
     length (ca_result ca) \<le> 1
     \<and> (\<forall>r \<in> set (ca_result ca). (ca_conn ca, ca_command ca, r) \<in> set evs)
     \<and> (\<forall>r. ca_phase ca = Returned (Inr r) \<longrightarrow> (ca_conn ca, ca_command ca, r) \<in> set evs)"

definition awaits :: "nat \<Rightarrow> string \<Rightarrow> Caller \<Rightarrow> bool" where
  "awaits c i ca \<longleftrightarrow>
     ca_conn ca = c \<and> ca_command ca = i \<and> ca_result ca = [] \<and> (\<forall>r. ca_phase ca \<noteq> Returned r)"

definition pending_ok :: "Hub \<Rightarrow> bool" where
  "pending_ok h \<longleftrightarrow>
     (\<forall>c cn i k. hb_heap h c = Some cn \<and> cn_pending cn i = Some k \<longrightarrow>
        (\<exists>ca. hb_callers h k = Some ca \<and> awaits c i ca))"

definition commands_unique :: "Hub \<Rightarrow> bool" where
  "commands_unique h \<longleftrightarrow>
     (\<forall>k k' ca ca'. hb_callers h k = Some ca \<and> hb_callers h k' = Some ca' \<and> ca_command ca = ca_command ca' \<longrightarrow> k = k')"

definition queues_ok :: "Hub \<Rightarrow> bool" where
  "queues_ok h \<longleftrightarrow> (\<forall>c cn. hb_heap h c = Some cn \<longrightarrow> length (cn_out cn) \<le> out_capacity)"

definition hub_inv :: "(nat \<times> string \<times> string) list \<Rightarrow> Hub \<Rightarrow> bool" where
  "hub_inv evs h \<longleftrightarrow>
     (\<forall>k ca. hb_callers h k = Some ca \<longrightarrow> caller_ok evs ca) \<and> pending_ok h \<and> commands_unique h \<and> queues_ok h"

lemmas hub_inv_defs = hub_inv_def pending_ok_def commands_unique_def queues_ok_def

lemma put_sel [simp]:
  "hb_heap (put_conn c v h) = (hb_heap h)(c \<mapsto> v)" "hb_callers (put_conn c v h) = hb_callers h"
  "hb_conns (put_conn c v h) = hb_conns h" "hb_heap (put_caller k u h) = hb_heap h"
  "hb_callers (put_caller k u h) = (hb_callers h)(k \<mapsto> u)" "hb_conns (put_caller k u h) = hb_conns h"
  by (simp_all add: put_conn_def put_caller_def)

text \<open>The two kinds of change every operation is made of.\<close>

lemma hub_inv_put_conn:
  assumes "hub_inv evs h" and "length (cn_out v) \<le> out_capacity"
    and "\<And>i k. cn_pending v i = Some k \<Longrightarrow> \<exists>ca. hb_callers h k = Some ca \<and> awaits c i ca"
  shows "hub_inv evs (put_conn c v h)"
  using assms by (auto simp: hub_inv_defs)

lemma hub_inv_put_caller:
  assumes "hub_inv evs h" and "caller_ok evs u"
    and "\<And>k' ca. hb_callers h k' = Some ca \<Longrightarrow> ca_command ca = ca_command u \<Longrightarrow> k' = k"
    and "\<And>c cn i. hb_heap h c = Some cn \<Longrightarrow> cn_pending cn i = Some k \<Longrightarrow> awaits c i u"
  shows "hub_inv evs (put_caller k u h)"
  using assms unfolding hub_inv_def
  by (intro conjI) (auto simp: pending_ok_def commands_unique_def queues_ok_def)

lemma hub_inv_put_own:
  assumes "hub_inv evs h" and "hb_callers h k = Some ca" and "ca_command u = ca_command ca" and "caller_ok evs u"
    and "\<And>c cn i. hb_heap h c = Some cn \<Longrightarrow> cn_pending cn i = Some k \<Longrightarrow> awaits c i u"
  shows "hub_inv evs (put_caller k u h)"
  using assms(1,4) by (rule hub_inv_put_caller) (use assms in \<open>auto simp: hub_inv_defs\<close>)

lemma hub_inv_mono: "hub_inv evs h \<Longrightarrow> hub_inv (evs @ later) h"
  by (auto simp: hub_inv_def caller_ok_def)

lemma hub_inv_cong: "hb_heap g = hb_heap h \<Longrightarrow> hb_callers g = hb_callers h \<Longrightarrow> hub_inv evs g \<longleftrightarrow> hub_inv evs h"
  by (simp add: hub_inv_defs)

lemma pending_awaits:
  "hub_inv evs h \<Longrightarrow> hb_heap h c = Some cn \<Longrightarrow> cn_pending cn i = Some k \<Longrightarrow>
     \<exists>ca. hb_callers h k = Some ca \<and> awaits c i ca"
  by (simp add: hub_inv_def pending_ok_def)

lemma caller_is_ok: "hub_inv evs h \<Longrightarrow> hb_callers h k = Some ca \<Longrightarrow> caller_ok evs ca"
  by (simp add: hub_inv_def)

lemma queue_ok: "hub_inv evs h \<Longrightarrow> hb_heap h c = Some cn \<Longrightarrow> length (cn_out cn) \<le> out_capacity"
  by (simp add: hub_inv_def queues_ok_def)

lemma send_out_inv: "hub_inv evs h \<Longrightarrow> send_out c m h = Some h' \<Longrightarrow> hub_inv evs h'"
  by (auto simp: send_out_def split: option.splits if_splits intro!: hub_inv_put_conn dest: pending_awaits)

lemma take_out_inv: "hub_inv evs h \<Longrightarrow> take_out c h = Some (h', m) \<Longrightarrow> hub_inv evs h'"
  by (auto simp: take_out_def split: option.splits list.splits intro!: hub_inv_put_conn
      dest: pending_awaits queue_ok)

lemma send_out_sel: "send_out c m h = Some h' \<Longrightarrow> hb_callers h' = hb_callers h"
  by (auto simp: send_out_def split: option.splits if_splits)

lemma send_out_pending:
  "send_out c m h = Some h' \<Longrightarrow> hb_heap h' d = Some cn \<Longrightarrow> \<exists>dn. hb_heap h d = Some dn \<and> cn_pending cn = cn_pending dn"
  by (auto simp: send_out_def split: option.splits if_splits)

lemma run_send_inv:
  assumes "hub_inv evs h" and "run_send k h = Some h'" shows "hub_inv evs h'"
proof -
  from assms(2) obtain ca p g where ca: "hb_callers h k = Some ca" "ca_phase ca = Sending p"
    and g: "send_out (ca_conn ca) p h = Some g" and h': "h' = put_caller k (ca\<lparr>ca_phase := Waiting\<rparr>) g"
    by (auto simp: run_send_def split: option.splits Phase.splits)
  have inv: "hub_inv evs g" using assms(1) g by (rule send_out_inv)
  have cg: "hb_callers g k = Some ca" using ca g by (simp add: send_out_sel)
  have "caller_ok evs (ca\<lparr>ca_phase := Waiting\<rparr>)"
    using caller_is_ok [OF assms(1) ca(1)] by (simp add: caller_ok_def)
  moreover have "awaits c i (ca\<lparr>ca_phase := Waiting\<rparr>)" if "hb_heap g c = Some cn" "cn_pending cn i = Some k" for c cn i
    using pending_awaits [OF inv that] cg by (auto simp: awaits_def)
  ultimately show ?thesis unfolding h' by (intro hub_inv_put_own [OF inv cg]) simp_all
qed

lemma run_return_inv:
  assumes inv: "hub_inv evs h" and k: "hb_callers h k = Some ca0"
    and ca: "ca_conn ca = ca_conn ca0" "ca_command ca = ca_command ca0"
    and ok: "caller_ok evs (ca\<lparr>ca_phase := Returned r\<rparr>)"
  shows "hub_inv evs (run_return k ca r h)"
proof -
  define g where "g = (case hb_heap h (ca_conn ca) of None \<Rightarrow> h
    | Some cn \<Rightarrow> put_conn (ca_conn ca) (cn\<lparr>cn_pending := (cn_pending cn)(ca_command ca := None)\<rparr>) h)"
  have g: "hub_inv evs g"
    using inv by (auto simp: g_def split: option.splits if_splits intro!: hub_inv_put_conn dest: pending_awaits queue_ok)
  have kg: "hb_callers g k = Some ca0" using k by (simp add: g_def split: option.splits)
  have none: False if "hb_heap g c = Some cn" "cn_pending cn i = Some k" for c cn i
  proof -
    have "awaits c i ca0" using pending_awaits [OF g that] kg by auto
    then have "c = ca_conn ca" "i = ca_command ca" by (simp_all add: awaits_def ca)
    with that show False by (auto simp: g_def split: option.splits if_splits)
  qed
  have "run_return k ca r h = put_caller k (ca\<lparr>ca_phase := Returned r\<rparr>) g"
    by (simp add: run_return_def g_def Let_def)
  then show ?thesis using ok ca none by (auto intro!: hub_inv_put_own [OF g kg])
qed

lemma run_receive_inv:
  assumes "hub_inv evs h" and "run_receive k h = Some h'" shows "hub_inv evs h'"
proof -
  from assms(2) obtain ca r rs where ca: "hb_callers h k = Some ca" "ca_result ca = r # rs"
    and h': "h' = run_return k (ca\<lparr>ca_result := rs\<rparr>) (Inr r) h"
    by (auto simp: run_receive_def split: option.splits Phase.splits list.splits)
  show ?thesis unfolding h'
    by (rule run_return_inv [OF assms(1) ca(1)]) (use caller_is_ok [OF assms(1) ca(1)] ca(2) in \<open>simp_all add: caller_ok_def\<close>)
qed

lemma run_cancel_inv:
  assumes "hub_inv evs h" and "run_cancel k err h = Some h'" shows "hub_inv evs h'"
proof -
  from assms(2) obtain ca where ca: "hb_callers h k = Some ca" and h': "h' = run_return k ca (Inl err) h"
    by (auto simp: run_cancel_def split: option.splits Phase.splits)
  show ?thesis unfolding h'
    by (rule run_return_inv [OF assms(1) ca]) (use caller_is_ok [OF assms(1) ca] in \<open>simp_all add: caller_ok_def\<close>)
qed

lemma run_begin_inv:
  assumes inv: "hub_inv evs h" and k: "hb_callers h k = None" and i: "i \<notin> ca_command ` ran (hb_callers h)"
  shows "hub_inv evs (run_begin k g i payload h)"
proof -
  have fresh: "ca_command ca \<noteq> i" if "hb_callers h k' = Some ca" for k' ca
    using i that by (auto simp: ran_def)
  have nopending: False if "hb_heap h c = Some cn" "cn_pending cn j = Some k" for c cn j
    using pending_awaits [OF inv that] k by auto
  show ?thesis
  proof (cases "hb_conns h g")
    case None
    have "hub_inv evs (put_caller k \<lparr>ca_conn = 0, ca_command = i, ca_result = [],
        ca_phase = Returned (Inl ErrOffline)\<rparr> h)"
      by (rule hub_inv_put_caller [OF inv]) (use fresh nopending in \<open>fastforce simp: caller_ok_def\<close>)+
    with None show ?thesis by (simp add: run_begin_def)
  next
    case (Some c)
    define u where "u = \<lparr>ca_conn = c, ca_command = i, ca_result = [], ca_phase = Sending payload\<rparr>"
    have u: "caller_ok evs u" "awaits c i u" by (simp_all add: u_def caller_ok_def awaits_def)
    have first: "hub_inv evs (put_caller k u h)"
      by (rule hub_inv_put_caller [OF inv u(1)]) (use fresh nopending in \<open>fastforce simp: u_def\<close>)+
    show ?thesis
    proof (cases "hb_heap h c")
      case None
      with Some first show ?thesis by (simp add: run_begin_def u_def)
    next
      case (Some cn)
      have "hub_inv evs (put_conn c (cn\<lparr>cn_pending := (cn_pending cn)(i \<mapsto> k)\<rparr>) (put_caller k u h))"
      proof (rule hub_inv_put_conn [OF first])
        show "length (cn_out (cn\<lparr>cn_pending := (cn_pending cn)(i \<mapsto> k)\<rparr>)) \<le> out_capacity"
          using queue_ok [OF inv Some] by simp
        show "\<exists>ca. hb_callers (put_caller k u h) j = Some ca \<and> awaits c i' ca"
          if "cn_pending (cn\<lparr>cn_pending := (cn_pending cn)(i \<mapsto> k)\<rparr>) i' = Some j" for i' j
          using that u(2) pending_awaits [OF first, of c cn i' j] Some by (cases "i' = i") simp_all
      qed
      then show ?thesis
        by (rule hub_inv_cong [THEN iffD1, rotated -1])
          (simp_all add: run_begin_def u_def \<open>hb_conns h g = Some c\<close> Some)
    qed
  qed
qed

lemma resolve_inv:
  assumes inv: "hub_inv evs h"
  shows "hub_inv (evs @ [(c, i, r)]) (fst (resolve c i r h)) \<and> snd (resolve c i r h)"
proof (cases "hb_heap h c")
  case None
  then show ?thesis using hub_inv_mono [OF inv] by (simp add: resolve_def)
next
  case (Some cn)
  define g where "g = put_conn c (cn\<lparr>cn_pending := (cn_pending cn)(i := None)\<rparr>) h"
  have g: "hub_inv (evs @ [(c, i, r)]) g"
    unfolding g_def using Some pending_awaits [OF inv Some] queue_ok [OF inv Some]
    by (auto intro!: hub_inv_put_conn [OF hub_inv_mono [OF inv]] split: if_splits)
  show ?thesis
  proof (cases "cn_pending cn i")
    case None
    with Some g show ?thesis by (simp add: resolve_def Let_def g_def)
  next
    case (Some k)
    obtain ca where ca: "hb_callers h k = Some ca" "awaits c i ca"
      using pending_awaits [OF inv \<open>hb_heap h c = Some cn\<close> Some] by blast
    have cg: "hb_callers g k = Some ca" using ca by (simp add: g_def)
    have none: False if "hb_heap g d = Some dn" "cn_pending dn j = Some k" for d dn j
    proof -
      have "awaits d j ca" using pending_awaits [OF g that] cg by auto
      then have "d = c" "j = i" using ca(2) by (simp_all add: awaits_def)
      with that show False by (auto simp: g_def)
    qed
    have "caller_ok (evs @ [(c, i, r)]) (ca\<lparr>ca_result := [r]\<rparr>)"
      using ca(2) by (simp add: caller_ok_def awaits_def)
    then have "hub_inv (evs @ [(c, i, r)]) (put_caller k (ca\<lparr>ca_result := [r]\<rparr>) g)"
      using none by (auto intro!: hub_inv_put_own [OF g cg])
    then show ?thesis
      using \<open>hb_heap h c = Some cn\<close> Some ca cg by (simp add: resolve_def Let_def g_def awaits_def)
  qed
qed

lemma hub_run_inv: "hub_run evs h \<Longrightarrow> hub_inv evs h"
proof (induction rule: hub_run.induct)
  case init
  then show ?case by (simp add: hub_inv_defs New_def)
next
  case (register evs h c g)
  have "hub_inv evs (put_conn c \<lparr>cn_out = [], cn_pending = Map.empty\<rparr> h)"
    by (rule hub_inv_put_conn [OF register.IH]) simp_all
  then show ?case
    using hub_inv_cong [of "put_conn c \<lparr>cn_out = [], cn_pending = Map.empty\<rparr> h" "Register g c h"]
    by (simp add: Register_def put_conn_def)
next
  case (unregister evs h g c)
  then show ?case using hub_inv_cong [of "unregister g c h" h] by (simp add: unregister_def)
next
  case (push evs h g payload)
  then show ?case by (auto simp: PushConfig_def split: option.splits intro: send_out_inv)
next
  case (flush evs h c h' m)
  then show ?case by (blast intro: take_out_inv)
next
  case (begin_call evs h k i g payload)
  then show ?case by (blast intro: run_begin_inv)
next
  case (send evs h k h')
  then show ?case by (blast intro: run_send_inv)
next
  case (receive evs h k h')
  then show ?case by (blast intro: run_receive_inv)
next
  case (cancel evs h k err h')
  then show ?case by (blast intro: run_cancel_inv)
next
  case (result evs h c i r)
  then show ?case by (simp add: resolve_inv)
qed

text \<open>
  C40: Replies reach their own call. In every interleaving of registering, unregistering, pushing, calling
  and answering, a call that returned a result returned one that arrived on the connection it was sent
  over and under its own command id; no two calls share an id; taking a result never blocks the read
  loop of the connection, however often the gateway answers; and the queue to a socket never exceeds its
  16 places.
\<close>

theorem hub_replies_to_caller:
  assumes "hub_run evs h"
  shows "(\<forall>k ca r. hb_callers h k = Some ca \<and> ca_phase ca = Returned (Inr r) \<longrightarrow>
            (ca_conn ca, ca_command ca, r) \<in> set evs)
    \<and> (\<forall>k k' ca ca'. hb_callers h k = Some ca \<and> hb_callers h k' = Some ca' \<and> ca_command ca = ca_command ca' \<longrightarrow> k = k')
    \<and> snd (resolve c i result h)
    \<and> (\<forall>d cn. hb_heap h d = Some cn \<longrightarrow> length (cn_out cn) \<le> 16)"
proof -
  note inv = hub_run_inv [OF assms]
  have "\<forall>k ca r. hb_callers h k = Some ca \<and> ca_phase ca = Returned (Inr r) \<longrightarrow>
      (ca_conn ca, ca_command ca, r) \<in> set evs"
    using inv unfolding hub_inv_def caller_ok_def by blast
  moreover have "commands_unique h" "queues_ok h" using inv by (simp_all add: hub_inv_def)
  ultimately show ?thesis
    using resolve_inv [OF inv, of c i result]
    by (auto simp: commands_unique_def queues_ok_def out_capacity_def)
qed

definition sample_hub :: Hub where
  "sample_hub =
     \<lparr>hb_conns = [''gw'' \<mapsto> 0], hb_heap = [0 \<mapsto> \<lparr>cn_out = [''frame''], cn_pending = Map.empty\<rparr>],
      hb_callers = [7 \<mapsto> \<lparr>ca_conn = 0, ca_command = ''id'', ca_result = [], ca_phase = Returned (Inr ''reply'')\<rparr>]\<rparr>"

lemma sample_hub_run: "hub_run [(0, ''id'', ''reply'')] sample_hub"
proof -
  define h1 where "h1 = run_begin 7 ''gw'' ''id'' ''frame'' (Register ''gw'' 0 New)"
  have "hub_run [] (Register ''gw'' 0 New)" by (intro hub_run.intros) (simp add: New_def)
  then have "hub_run [] h1" unfolding h1_def by (rule hub_run.begin_call) (simp_all add: Register_def New_def)
  then have "hub_run [] (the (run_send 7 h1))"
    by (rule hub_run.send [of _ _ 7])
      (simp add: h1_def run_begin_def run_send_def send_out_def Register_def New_def put_conn_def put_caller_def out_capacity_def)
  from hub_run.result [OF this, of 0 "''id''" "''reply''"]
  have "hub_run [(0, ''id'', ''reply'')] (fst (resolve 0 ''id'' ''reply'' (the (run_send 7 h1))))" by simp
  then have "hub_run [(0, ''id'', ''reply'')] (the (run_receive 7 (fst (resolve 0 ''id'' ''reply'' (the (run_send 7 h1))))))"
    by (rule hub_run.receive [where k = 7])
      (simp_all add: h1_def run_begin_def run_send_def send_out_def Register_def New_def put_conn_def
        put_caller_def out_capacity_def resolve_def run_receive_def)
  moreover have "the (run_receive 7 (fst (resolve 0 ''id'' ''reply'' (the (run_send 7 h1))))) = sample_hub"
    by (simp add: h1_def run_begin_def run_send_def send_out_def Register_def New_def put_conn_def
        put_caller_def out_capacity_def resolve_def run_receive_def run_return_def sample_hub_def)
  ultimately show ?thesis by simp
qed

theorem hub_replies_to_caller_witness:
  "(0, ''id'', ''reply'') \<in> set [(0::nat, ''id'', ''reply'')] \<and> snd (resolve 0 ''id'' ''again'' sample_hub)"
  using hub_replies_to_caller [OF sample_hub_run, of 0 "''id''" "''again''"] by simp

end
