(* ===== verification/AlarmRules.thy ===== *)
theory AlarmRules
  imports GoText GoFloat
begin

section \<open>services/platform-api/internal/core/alarms.go: what an alarm rule means\<close>

text \<open>
  The validation shared by \<open>CreateAlarmRule\<close> and \<open>UpdateAlarmRule\<close>, the fold of the conditions of a
  rule into its verdict (AND binds tighter than OR), and the Alarm Delay. An instant is a number of
  nanoseconds since Go's zero time, so that \<open>t.IsZero()\<close> is \<open>t = 0\<close> (the \<open>Time\<close> of a NULL timestamp).
\<close>

record ConditionInput =
  ci_PointKey :: string
  ci_MinValue :: "f64 option"
  ci_MaxValue :: "f64 option"
  ci_Logic :: string

definition ErrAlarmRuleInvalid :: string where
  "ErrAlarmRuleInvalid = ''invalid alarm rule data''"

definition ErrAlarmEventNotFound :: string where
  "ErrAlarmEventNotFound = ''alarm event not found''"

definition alarmSeverities :: "string list" where
  "alarmSeverities = [''warning'', ''major'', ''critical'']"

definition MaxAlarmDelaySeconds :: int where
  "MaxAlarmDelaySeconds = 86400"

subsection \<open>Validation\<close>

text \<open>One round of the loop over the conditions; \<open>i\<close> is the index.\<close>

definition bad_bound :: "f64 option \<Rightarrow> bool" where
  "bad_bound v = (case v of None \<Rightarrow> False | Some x \<Rightarrow> \<not> is_finite x)"

definition crossed_bounds :: "f64 option \<Rightarrow> f64 option \<Rightarrow> bool" where
  "crossed_bounds lo hi =
     (case (lo, hi) of (Some a, Some b) \<Rightarrow> f_less b a \<or> f_eq a b | _ \<Rightarrow> False)"

definition connector :: "nat \<Rightarrow> string \<Rightarrow> string" where
  "connector i l = (let l = clean_upper l in if l = [] \<or> i = 0 then ''AND'' else l)"

definition validateCondition :: "nat \<times> ConditionInput \<Rightarrow> string + ConditionInput" where
  "validateCondition ic =
     (let (i, c) = ic; key = trim_space (ci_PointKey c); logic = connector i (ci_Logic c)
      in if length key = 0 \<or> 200 < length key then Inl ErrAlarmRuleInvalid
         else if ci_MinValue c = None \<and> ci_MaxValue c = None then Inl ErrAlarmRuleInvalid
         else if bad_bound (ci_MinValue c) \<or> bad_bound (ci_MaxValue c) then Inl ErrAlarmRuleInvalid
         else if crossed_bounds (ci_MinValue c) (ci_MaxValue c) then Inl ErrAlarmRuleInvalid
         else if logic \<noteq> ''AND'' \<and> logic \<noteq> ''OR'' then Inl ErrAlarmRuleInvalid
         else Inr \<lparr>ci_PointKey = key, ci_MinValue = ci_MinValue c, ci_MaxValue = ci_MaxValue c,
                   ci_Logic = logic\<rparr>)"

definition validateAlarmRule ::
  "string \<Rightarrow> string \<Rightarrow> int \<Rightarrow> ConditionInput list \<Rightarrow>
     string + string \<times> string \<times> int \<times> ConditionInput list" where
  "validateAlarmRule label severity delay conditions =
     (let label = trim_space label; severity = to_lower (trim_space severity) in
      if length label = 0 \<or> 200 < length label \<or> severity \<notin> set alarmSeverities
      then Inl ErrAlarmRuleInvalid
      else if delay < 0 \<or> MaxAlarmDelaySeconds < delay then Inl ErrAlarmRuleInvalid
      else if length conditions = 0 \<or> 20 < length conditions then Inl ErrAlarmRuleInvalid
      else (case traverse validateCondition (enumerate 0 conditions) of
              Inl e \<Rightarrow> Inl e
            | Inr normalized \<Rightarrow> Inr (label, severity, delay, normalized)))"

subsection \<open>The verdict of a rule\<close>

text \<open>
  \<open>EvaluateConditions\<close>: the loop keeps the finished terms in \<open>acc\<close> and the current one in \<open>term\<close>;
  \<open>None\<close> is the panic of an index out of range, when \<open>logic\<close> is shorter than \<open>results\<close>.
\<close>

fun evaluate_loop :: "bool \<Rightarrow> bool \<Rightarrow> bool list \<Rightarrow> string list \<Rightarrow> bool option" where
  "evaluate_loop acc t [] ls = Some (acc \<or> t)"
| "evaluate_loop acc t (r # rs) [] = None"
| "evaluate_loop acc t (r # rs) (l # ls) =
     (if l = ''OR'' then evaluate_loop (acc \<or> t) r rs ls else evaluate_loop acc (t \<and> r) rs ls)"

definition EvaluateConditions :: "bool list \<Rightarrow> string list \<Rightarrow> bool option" where
  "EvaluateConditions results logic =
     (case results of [] \<Rightarrow> Some False | r # rs \<Rightarrow> evaluate_loop False r rs (drop 1 logic))"

text \<open>\<open>AlarmSuppressed\<close>; the delay is an int32 number of seconds, at most \<open>2 ^ 31 * 10 ^ 9\<close>
  nanoseconds, which a \<open>time.Duration\<close> holds.\<close>

definition AlarmSuppressed :: "int \<Rightarrow> int \<Rightarrow> int \<Rightarrow> bool" where
  "AlarmSuppressed lastBreachedAt observedAt delay =
     (if delay \<le> 0 \<or> lastBreachedAt = 0 then False
      else observedAt < lastBreachedAt + delay * 1000000000)"

definition parseInt64 :: "string \<Rightarrow> string + int" where
  "parseInt64 v =
     (case parse_int64 (trim_space v) of
        None \<Rightarrow> Inl ErrAlarmEventNotFound
      | Some i \<Rightarrow> if i \<le> 0 then Inl ErrAlarmEventNotFound else Inr i)"

text \<open>
  One condition against a value, in \<open>evaluateAlarms\<close> (internal/ingestion/alarms.go).
\<close>

definition condition_breached :: "f64 option \<Rightarrow> f64 option \<Rightarrow> f64 \<Rightarrow> bool" where
  "condition_breached lo hi v \<longleftrightarrow>
     (case lo of None \<Rightarrow> False | Some a \<Rightarrow> f_less v a) \<or>
     (case hi of None \<Rightarrow> False | Some b \<Rightarrow> f_less b v)"

subsection \<open>Lemmas\<close>

text \<open>A sum of products: some run of conditions joined by AND is breached throughout.\<close>

definition and_run :: "string list \<Rightarrow> nat \<Rightarrow> nat \<Rightarrow> bool" where
  "and_run logic i j \<longleftrightarrow> (\<forall>k. i < k \<and> k \<le> j \<longrightarrow> logic ! k \<noteq> ''OR'')"

definition sum_of_products :: "bool list \<Rightarrow> string list \<Rightarrow> bool" where
  "sum_of_products results logic \<longleftrightarrow>
     (\<exists>i < length results. (i = 0 \<or> logic ! i = ''OR'') \<and>
        (\<forall>j. i \<le> j \<and> j < length results \<and> and_run logic i j \<longrightarrow> results ! j))"

definition product_from :: "bool list \<Rightarrow> string list \<Rightarrow> nat \<Rightarrow> bool" where
  "product_from results logic i \<longleftrightarrow>
     (\<forall>j. i \<le> j \<and> j < length results \<and> and_run logic i j \<longrightarrow> results ! j)"

lemma and_run_shift: "and_run (x # ls) (Suc i) (Suc j) \<longleftrightarrow> and_run ls i j"
proof -
  have "(\<forall>k. Suc i < k \<and> k \<le> Suc j \<longrightarrow> P k) \<longleftrightarrow> (\<forall>k. i < k \<and> k \<le> j \<longrightarrow> P (Suc k))" for P
    by (metis Suc_le_mono Suc_less_eq not0_implies_Suc not_less0)
  then show ?thesis by (simp add: and_run_def)
qed

lemma all_less_Suc:
  "(\<forall>j. j < Suc n \<and> P j \<longrightarrow> Q j) \<longleftrightarrow> (P 0 \<longrightarrow> Q 0) \<and> (\<forall>j. j < n \<and> P (Suc j) \<longrightarrow> Q (Suc j))"
  by (metis Suc_less_eq not0_implies_Suc zero_less_Suc)

lemma ex_less_Suc: "(\<exists>i < Suc n. Q i) \<longleftrightarrow> Q 0 \<or> (\<exists>i < n. Q (Suc i))"
  by (metis Suc_less_eq not0_implies_Suc zero_less_Suc)

lemma and_run_refl [simp]: "and_run ls i i"
  unfolding and_run_def using leD by blast

lemma and_run_from_0: "and_run (x # l # ls) 0 (Suc j) \<longleftrightarrow> l \<noteq> ''OR'' \<and> and_run (l # ls) 0 j"
  unfolding and_run_def
  by (auto simp: nth_Cons split: nat.splits)

lemma product_from_shift: "product_from (t # rs) (x # ls) (Suc i) \<longleftrightarrow> product_from rs ls i"
  unfolding product_from_def
proof (intro iffI allI impI; elim conjE)
  fix j
  assume a: "\<forall>j. Suc i \<le> j \<and> j < length (t # rs) \<and> and_run (x # ls) (Suc i) j \<longrightarrow> (t # rs) ! j"
    and j: "i \<le> j" "j < length rs" "and_run ls i j"
  from a [rule_format, of "Suc j"] j show "rs ! j" by (simp add: and_run_shift)
next
  fix j
  assume a: "\<forall>j. i \<le> j \<and> j < length rs \<and> and_run ls i j \<longrightarrow> rs ! j"
    and j: "Suc i \<le> j" "j < length (t # rs)" "and_run (x # ls) (Suc i) j"
  then obtain j' where "j = Suc j'" by (cases j) auto
  with a [rule_format, of j'] j show "(t # rs) ! j" by (simp add: and_run_shift)
qed

lemma product_from_0:
  "product_from (t # r # rs) (x # l # ls) 0 \<longleftrightarrow>
     t \<and> (l \<noteq> ''OR'' \<longrightarrow> product_from (r # rs) (l # ls) 0)"
  unfolding product_from_def
  by (simp add: all_less_Suc [of "Suc (length rs)"] and_run_from_0) blast

lemma product_from_conj:
  "product_from ((t \<and> r) # rs) ls 0 \<longleftrightarrow> t \<and> product_from (r # rs) ls 0"
  unfolding product_from_def
  by (auto simp: nth_Cons split: nat.splits)

lemma sum_of_products_alt:
  "sum_of_products rs ls \<longleftrightarrow>
     (\<exists>i < length rs. (i = 0 \<or> ls ! i = ''OR'') \<and> product_from rs ls i)"
  by (simp add: sum_of_products_def product_from_def)

lemma sum_of_products_Cons:
  "sum_of_products (t # rs) (x # ls) \<longleftrightarrow>
     product_from (t # rs) (x # ls) 0 \<or>
     (\<exists>i < length rs. ls ! i = ''OR'' \<and> product_from rs ls i)"
  by (simp add: sum_of_products_alt ex_less_Suc product_from_shift)

lemma sum_of_products_step:
  "sum_of_products (t # r # rs) (x # l # ls) \<longleftrightarrow>
     (if l = ''OR'' then t \<or> sum_of_products (r # rs) (l # ls)
      else sum_of_products ((t \<and> r) # rs) (l # ls))"
proof -
  let ?rest = "\<exists>i < length rs. ls ! i = ''OR'' \<and> product_from rs ls i"
  have split: "(\<exists>i < length (r # rs). (l # ls) ! i = ''OR'' \<and> product_from (r # rs) (l # ls) i) \<longleftrightarrow>
      (l = ''OR'' \<and> product_from (r # rs) (l # ls) 0) \<or> ?rest"
    by (simp add: ex_less_Suc product_from_shift)
  show ?thesis
    unfolding sum_of_products_Cons [of t "r # rs"] split product_from_0
    by (auto simp: sum_of_products_Cons product_from_conj)
qed

lemma sum_of_products_single: "sum_of_products [t] (x # ls) \<longleftrightarrow> t"
  by (simp add: sum_of_products_Cons product_from_def)

lemma evaluate_loop_spec:
  "length rs \<le> length ls \<Longrightarrow>
     evaluate_loop acc t rs ls = Some (acc \<or> sum_of_products (t # rs) (x # ls))"
proof (induction acc t rs ls arbitrary: x rule: evaluate_loop.induct)
  case (1 acc t ls)
  then show ?case by (simp add: sum_of_products_single)
next
  case (2 acc t r rs)
  then show ?case by simp
next
  case (3 acc t r rs l ls)
  then show ?case by (auto simp: sum_of_products_step)
qed

lemma evaluate_sum_of_products:
  assumes "length results \<le> length logic"
  shows "EvaluateConditions results logic = Some (sum_of_products results logic)"
proof (cases results)
  case Nil
  then show ?thesis by (simp add: EvaluateConditions_def sum_of_products_def)
next
  case (Cons r rs)
  moreover obtain l ls where "logic = l # ls" using assms Cons by (cases logic) auto
  ultimately show ?thesis
    using assms by (simp add: EvaluateConditions_def evaluate_loop_spec [of rs ls _ _ l])
qed

lemma evaluate_loop_panics: "length ls < length rs \<Longrightarrow> evaluate_loop acc t rs ls = None"
  by (induction acc t rs ls rule: evaluate_loop.induct) auto

subsection \<open>What validation leaves\<close>

definition condition_ok :: "nat \<Rightarrow> ConditionInput \<Rightarrow> bool" where
  "condition_ok i c \<longleftrightarrow>
     trim_space (ci_PointKey c) = ci_PointKey c \<and>
     0 < length (ci_PointKey c) \<and> length (ci_PointKey c) \<le> 200 \<and>
     \<not> (ci_MinValue c = None \<and> ci_MaxValue c = None) \<and>
     \<not> bad_bound (ci_MinValue c) \<and> \<not> bad_bound (ci_MaxValue c) \<and>
     \<not> crossed_bounds (ci_MinValue c) (ci_MaxValue c) \<and>
     connector i (ci_Logic c) = ci_Logic c \<and> (ci_Logic c = ''AND'' \<or> ci_Logic c = ''OR'')"

lemma clean_AND: "clean_upper ''AND'' = ''AND''"
  by (simp add: clean_upper_def text_eval)

lemma connector_idem [simp]: "connector i (connector i l) = connector i l"
  by (simp add: connector_def Let_def clean_AND)

lemma connector_fixed: "connector i l = w \<Longrightarrow> connector i w = w"
  using connector_idem by blast

lemma connector_first: "connector 0 l = ''AND''"
  by (simp add: connector_def Let_def)

lemma validateCondition_iff:
  "validateCondition (i, c) = Inr c' \<longleftrightarrow>
     c' = \<lparr>ci_PointKey = trim_space (ci_PointKey c), ci_MinValue = ci_MinValue c,
           ci_MaxValue = ci_MaxValue c, ci_Logic = connector i (ci_Logic c)\<rparr> \<and> condition_ok i c'"
  by (auto simp: validateCondition_def condition_ok_def Let_def dest: connector_fixed)

lemma validateCondition_fixed: "condition_ok i c \<Longrightarrow> validateCondition (i, c) = Inr c"
  by (simp add: validateCondition_iff) (simp add: condition_ok_def)

lemma validateCondition_errors: "validateCondition ic = Inl e \<Longrightarrow> e = ErrAlarmRuleInvalid"
  by (cases ic) (auto simp: validateCondition_def Let_def split: if_splits)

definition conditions_ok :: "ConditionInput list \<Rightarrow> bool" where
  "conditions_ok cs \<longleftrightarrow>
     0 < length cs \<and> length cs \<le> 20 \<and> (\<forall>i < length cs. condition_ok i (cs ! i))"

definition rule_ok :: "string \<Rightarrow> string \<Rightarrow> int \<Rightarrow> ConditionInput list \<Rightarrow> bool" where
  "rule_ok label severity delay cs \<longleftrightarrow>
     trim_space label = label \<and> 0 < length label \<and> length label \<le> 200 \<and>
     severity \<in> set alarmSeverities \<and> 0 \<le> delay \<and> delay \<le> MaxAlarmDelaySeconds \<and>
     conditions_ok cs"

lemma traverse_enumerate:
  "traverse f (enumerate 0 xs) = Inr ys \<longleftrightarrow>
     length ys = length xs \<and> (\<forall>i < length xs. f (i, xs ! i) = Inr (ys ! i))"
  by (auto simp: traverse_Inr_iff list_all2_conv_all_nth nth_enumerate_eq)

lemma severity_normal: "s \<in> set alarmSeverities \<Longrightarrow> to_lower (trim_space s) = s"
  by (auto simp: alarmSeverities_def text_eval)

lemma validateAlarmRule_ok:
  assumes "validateAlarmRule l s d cs = Inr (l', s', d', cs')"
  shows "rule_ok l' s' d' cs'"
  using assms
  by (auto simp: validateAlarmRule_def rule_ok_def conditions_ok_def Let_def traverse_enumerate
      validateCondition_iff split: if_splits sum.splits)

lemma validateAlarmRule_fixed:
  assumes "rule_ok l s d cs"
  shows "validateAlarmRule l s d cs = Inr (l, s, d, cs)"
proof -
  have "traverse validateCondition (enumerate 0 cs) = Inr cs"
    using assms by (simp add: rule_ok_def conditions_ok_def traverse_enumerate validateCondition_fixed)
  with assms show ?thesis
    by (simp add: validateAlarmRule_def rule_ok_def conditions_ok_def severity_normal)
qed

lemma condition_ok_quiet:
  assumes "condition_ok i c"
  obtains v where "is_finite v" and "\<not> condition_breached (ci_MinValue c) (ci_MaxValue c) v"
proof -
  have irrefl: "\<not> f_less x x" for x by (cases x) auto
  show thesis
  proof (cases "ci_MinValue c")
    case None
    then obtain b where "ci_MaxValue c = Some b"
      using assms by (auto simp: condition_ok_def)
    with None assms irrefl show thesis
      by (intro that [of b]) (auto simp: condition_ok_def bad_bound_def condition_breached_def)
  next
    case (Some a)
    with assms irrefl show thesis
      by (intro that [of a])
        (auto simp: condition_ok_def bad_bound_def crossed_bounds_def condition_breached_def
          split: option.splits)
  qed
qed

lemma EvaluateConditions_returns:
  "\<exists>b. EvaluateConditions (map f cs) (map g cs) = Some b"
  using evaluate_sum_of_products [of "map f cs" "map g cs"] by simp

text \<open>
  C37: an alarm rule fires exactly when its conditions, read as a sum of products with AND binding
  tighter than OR, say so: some run of conditions that starts the rule or follows an OR, and is
  continued by every connector that is not OR, is breached throughout. With one connector per
  condition (which is what the ingestion passes) the fold never runs out of range.
\<close>

theorem EvaluateConditions_sum_of_products:
  assumes "length results \<le> length logic"
  shows "EvaluateConditions results logic = Some (sum_of_products results logic)"
  using assms by (rule evaluate_sum_of_products)

theorem EvaluateConditions_sum_of_products_witness:
  "EvaluateConditions [True, False, True] [''AND'', ''AND'', ''OR''] =
     Some (sum_of_products [True, False, True] [''AND'', ''AND'', ''OR'']) \<and>
   EvaluateConditions [True, False, True] [''AND'', ''AND'', ''OR''] = Some True \<and>
   EvaluateConditions [False, True, True] [''AND'', ''OR'', ''AND''] = Some True \<and>
   EvaluateConditions [False, True, False] [''AND'', ''OR'', ''AND''] = Some False"
  using EvaluateConditions_sum_of_products
    [of "[True, False, True]" "[''AND'', ''AND'', ''OR'']"]
  by (simp add: EvaluateConditions_def)

text \<open>
  C38: what \<open>validateAlarmRule\<close> lets through is in normal form: a trimmed label of 1 to 200 bytes, one
  of the three severities, a delay of at most a day, and 1 to 20 conditions, each with a trimmed key,
  finite bounds of which at least one is set and the lower is below the upper, and a connector AND or
  OR that is AND on the first. Saving it again stores the same rule, it can always be evaluated, and
  no condition of it is breached by every value, so that an alarm that opened can clear.
\<close>

theorem validateAlarmRule_sound:
  assumes "validateAlarmRule label severity delay conditions = Inr (l, s, d, cs)"
  shows "rule_ok l s d cs \<and> validateAlarmRule l s d cs = Inr (l, s, d, cs) \<and>
     ci_Logic (hd cs) = ''AND'' \<and>
     list_all (\<lambda>c. \<exists>v. is_finite v \<and> \<not> condition_breached (ci_MinValue c) (ci_MaxValue c) v) cs \<and>
     (\<exists>b. EvaluateConditions (map f cs) (map ci_Logic cs) = Some b)"
proof -
  have ok: "rule_ok l s d cs" using assms by (rule validateAlarmRule_ok)
  then have cs: "\<And>i. i < length cs \<Longrightarrow> condition_ok i (cs ! i)" and ne: "cs \<noteq> []"
    by (simp_all add: rule_ok_def conditions_ok_def)
  have first: "ci_Logic (hd cs) = ''AND''"
    using cs [of 0] ne by (simp add: hd_conv_nth condition_ok_def connector_first)
  have quiet: "list_all (\<lambda>c. \<exists>v. is_finite v \<and>
      \<not> condition_breached (ci_MinValue c) (ci_MaxValue c) v) cs"
    unfolding list_all_length
  proof (intro allI impI)
    fix n
    assume "n < length cs"
    from condition_ok_quiet [OF cs [OF this]]
    show "\<exists>v. is_finite v \<and> \<not> condition_breached (ci_MinValue (cs ! n)) (ci_MaxValue (cs ! n)) v"
      by blast
  qed
  show ?thesis
    by (intro conjI ok validateAlarmRule_fixed first quiet EvaluateConditions_returns)
qed

theorem validateAlarmRule_sound_witness:
  "rule_ok ''Hot'' ''major'' 60 [\<lparr>ci_PointKey = ''temp'', ci_MinValue = None,
      ci_MaxValue = Some (F_Fin False 80), ci_Logic = ''AND''\<rparr>]"
proof -
  have "validateAlarmRule ''Hot'' ''Major'' 60 [\<lparr>ci_PointKey = ''temp'', ci_MinValue = None,
      ci_MaxValue = Some (F_Fin False 80), ci_Logic = ''or''\<rparr>] =
    Inr (''Hot'', ''major'', 60, [\<lparr>ci_PointKey = ''temp'', ci_MinValue = None,
      ci_MaxValue = Some (F_Fin False 80), ci_Logic = ''AND''\<rparr>])"
    by (simp add: validateAlarmRule_def Let_def alarmSeverities_def MaxAlarmDelaySeconds_def
        validateCondition_def connector_first bad_bound_def crossed_bounds_def text_eval)
  from validateAlarmRule_sound [OF this, of "\<lambda>_. True"] show ?thesis by simp
qed

end
