(* ===== verification/CloudTables.thy ===== *)
theory CloudTables
  imports AlarmRules
begin

section \<open>services/platform-api: the tables the ingestion and the alarms work on\<close>

text \<open>
  The rows of the PostgreSQL tables (internal/database/migrations), with the columns the code reads
  or writes, and the database they form. A table is a list in order of insertion; a UUID is its text;
  a timestamp is a number of nanoseconds as in \<open>AlarmRules\<close>, NULL is \<open>None\<close>. A statement is a
  function on the database; \<open>ON CONFLICT\<close> follows the unique index it names.
\<close>

subsection \<open>Alarms\<close>

text \<open>\<open>alarm.alarm_rule\<close> with its conditions in \<open>position\<close> order.\<close>

record AlarmRuleRow =
  ar_ID :: string
  ar_OrganizationID :: string
  ar_PlantID :: string
  ar_DeviceID :: string
  ar_Label :: string
  ar_Severity :: string
  ar_DelaySeconds :: int
  ar_IsActive :: bool
  ar_NotifyRoleID :: "string option"
  ar_Conditions :: "ConditionInput list"

record alarmConditionSnapshot =
  sn_PointKey :: string
  sn_Value :: f64
  sn_MinValue :: "f64 option"
  sn_MaxValue :: "f64 option"
  sn_Breached :: bool
  sn_Logic :: string

record registerAlarmSignal =
  sg_MappingSourceID :: string
  sg_AddressKey :: string
  sg_RawValue :: f64
  sg_NumericValue :: f64
  sg_DisplayValue :: string
  sg_Severity :: string

text \<open>\<open>alarm.alarm_event\<close>; \<open>source_type\<close> is \<open>RULE\<close> or \<open>REGISTER\<close>.\<close>

record AlarmEventRow =
  ae_ID :: int
  ae_OrganizationID :: string
  ae_PlantID :: string
  ae_DeviceID :: string
  ae_AlarmRuleID :: "string option"
  ae_SourceType :: string
  ae_MappingID :: "string option"
  ae_RegisterSnapshot :: "registerAlarmSignal option"
  ae_Severity :: string
  ae_ConditionSnapshot :: "alarmConditionSnapshot list"
  ae_BreachedAt :: int
  ae_ClearedAt :: "int option"
  ae_AcknowledgedBy :: "string option"
  ae_AcknowledgedAt :: "int option"
  ae_AcknowledgedNote :: "string option"

subsection \<open>Inventory, readings and batches\<close>

record PlantRow =
  pr_ID :: string
  pr_OrganizationID :: string
  pr_Code :: string
  pr_Name :: string
  pr_IsActive :: bool
  pr_AlarmEmail :: bool
  pr_NotifyRoleID :: "string option"

record DeviceModelRow =
  dm_ID :: string
  dm_OrganizationID :: string
  dm_Manufacturer :: string
  dm_Model :: string
  dm_DeviceType :: string
  dm_SourceTypeID :: int
  dm_ProfileID :: string

text \<open>\<open>plant.register_profile\<close>.\<close>

record ProfileRow =
  pf_ID :: string
  pf_OrganizationID :: string
  pf_Name :: string

record DeviceRow =
  dr_ID :: string
  dr_OrganizationID :: string
  dr_PlantID :: string
  dr_ModelID :: string
  dr_ExternalID :: string
  dr_Name :: string
  dr_IsActive :: bool

text \<open>
  \<open>plant.device_model_register_metadata\<close> and \<open>plant.register_profile_address\<close> share these columns;
  \<open>md_ModelID\<close> is the model in the first and the profile in the second.
\<close>

record MetadataRow =
  md_OrganizationID :: string
  md_ModelID :: string
  md_AddressKey :: string
  md_DisplayName :: string
  md_DataType :: string
  md_Notes :: string

record RawReadingRow =
  rw_ID :: string
  rw_OrganizationID :: string
  rw_PlantID :: string
  rw_DeviceID :: string
  rw_ClientID :: string
  rw_BatchID :: string
  rw_GatewayID :: string
  rw_ExternalKey :: string
  rw_ObservedAt :: int
  rw_RegisterAddressMap :: "(string \<times> f64) list"

record RecordError =
  re_Index :: nat
  re_Code :: string
  re_Message :: string

record BatchRow =
  bt_ID :: string
  bt_OrganizationID :: string
  bt_ClientID :: string
  bt_IdempotencyKey :: string
  bt_PayloadHash :: string
  bt_Status :: string
  bt_Accepted :: nat
  bt_Duplicate :: nat
  bt_Rejected :: nat
  bt_Plants :: nat
  bt_Devices :: nat
  bt_Errors :: "RecordError list"

record AuditRow =
  au_OrganizationID :: string
  au_Action :: string
  au_TargetType :: string
  au_TargetID :: string

record Db =
  db_Plants :: "PlantRow list"
  db_Models :: "DeviceModelRow list"
  db_Devices :: "DeviceRow list"
  db_Profiles :: "ProfileRow list"
  db_Metadata :: "MetadataRow list"
  db_ProfileAddresses :: "MetadataRow list"
  db_Readings :: "RawReadingRow list"
  db_Batches :: "BatchRow list"
  db_Rules :: "AlarmRuleRow list"
  db_Events :: "AlarmEventRow list"
  db_NextEvent :: int
  db_Audit :: "AuditRow list"
  db_LastSeen :: "string \<rightharpoonup> int"

text \<open>\<open>SELECT ... WHERE p LIMIT 1\<close> on a column set that a unique index covers.\<close>

definition select_one :: "('a \<Rightarrow> bool) \<Rightarrow> 'a list \<Rightarrow> 'a option" where
  "select_one p rows = find p rows"

text \<open>\<open>INSERT ... ON CONFLICT\<close>: the row that conflicts by \<open>p\<close>, or the table with the new row.\<close>

definition insert_or_get :: "('a \<Rightarrow> bool) \<Rightarrow> 'a \<Rightarrow> 'a list \<Rightarrow> 'a list \<times> 'a \<times> bool" where
  "insert_or_get p row rows =
     (case find p rows of Some old \<Rightarrow> (rows, old, False) | None \<Rightarrow> (rows @ [row], row, True))"

lemma insert_or_get_cases:
  obtains (conflict) old where "insert_or_get p row rows = (rows, old, False)" "old \<in> set rows" "p old"
  | (created) "insert_or_get p row rows = (rows @ [row], row, True)" "\<forall>r \<in> set rows. \<not> p r"
proof (cases "find p rows")
  case None
  then have "\<forall>r \<in> set rows. \<not> p r" by (auto simp: find_None_iff)
  with None show thesis by (intro created) (simp_all add: insert_or_get_def)
next
  case (Some old)
  then have "old \<in> set rows" "p old" by (auto simp: find_Some_iff)
  with Some show thesis by (intro conflict) (auto simp: insert_or_get_def)
qed

text \<open>A table with a unique index stays unique under \<open>ON CONFLICT\<close>.\<close>

lemma insert_or_get_distinct:
  assumes "distinct (map k rows)" and "\<And>r. p r \<longleftrightarrow> k r = k row"
  shows "distinct (map k (fst (insert_or_get p row rows)))"
  by (rule insert_or_get_cases [of p row rows]) (use assms in \<open>auto simp: image_iff\<close>)

end
