(* ===== verification/AlarmEvents.thy ===== *)
theory AlarmEvents
  imports CloudTables
begin

section \<open>internal/ingestion/alarms.go and register_alarms.go: opening and clearing alarms\<close>

text \<open>
  \<open>evaluateAlarms\<close> and \<open>evaluateRegisterAlarms\<close> run in the transaction of a reading. A statement that
  fails aborts the transaction (that is the caller's branch, in \<open>Ingestion\<close>); the errors here are the
  ones the code raises itself. \<open>dbnow\<close> is the transaction's \<open>now()\<close>.
\<close>

record alarmBreach =
  ab_RuleLabel :: string
  ab_Severity :: string
  ab_Conditions :: "alarmConditionSnapshot list"
  ab_NotifyRoleID :: "string option"
  ab_PlantID :: string
  ab_PlantCode :: string
  ab_PlantName :: string
  ab_DeviceName :: string
  ab_SourceType :: string
  ab_RegisterAddress :: string
  ab_RegisterDisplay :: string
  ab_RegisterRaw :: f64
  ab_RegisterNumeric :: f64
  ab_EmailEnabled :: bool

text \<open>The reading's place: the arguments both functions share.\<close>

record Site =
  si_OrganizationID :: string
  si_PlantID :: string
  si_DeviceID :: string
  si_ModelID :: string
  si_PlantCode :: string
  si_PlantName :: string
  si_DeviceName :: string

definition find_plant :: "Site \<Rightarrow> Db \<Rightarrow> PlantRow option" where
  "find_plant si db =
     select_one (\<lambda>p. pr_OrganizationID p = si_OrganizationID si \<and> pr_ID p = si_PlantID si) (db_Plants db)"

subsection \<open>Threshold rules\<close>

text \<open>\<open>SELECT max(e.breached_at) ... WHERE e.alarm_rule_id = r.id\<close>; the zero time when there is none.\<close>

definition last_breached :: "string \<Rightarrow> AlarmEventRow list \<Rightarrow> int" where
  "last_breached i evs =
     (case map ae_BreachedAt (filter (\<lambda>e. ae_AlarmRuleID e = Some i) evs) of
        [] \<Rightarrow> 0
      | t # ts \<Rightarrow> foldl max t ts)"

text \<open>The loop over the conditions of a rule: \<open>None\<close> when the reading lacks a point.\<close>

fun snapshot_conditions ::
  "(string \<rightharpoonup> f64) \<Rightarrow> ConditionInput list \<Rightarrow> alarmConditionSnapshot list option" where
  "snapshot_conditions items [] = Some []"
| "snapshot_conditions items (c # cs) =
     (case items (ci_PointKey c) of
        None \<Rightarrow> None
      | Some v \<Rightarrow>
          (case snapshot_conditions items cs of
             None \<Rightarrow> None
           | Some ss \<Rightarrow>
               Some (\<lparr>sn_PointKey = ci_PointKey c, sn_Value = v, sn_MinValue = ci_MinValue c,
                      sn_MaxValue = ci_MaxValue c,
                      sn_Breached = condition_breached (ci_MinValue c) (ci_MaxValue c) v,
                      sn_Logic = ci_Logic c\<rparr> # ss)))"

text \<open>\<open>json.Marshal\<close> of the snapshots refuses a NaN or an infinity.\<close>

definition json_float :: "f64 \<Rightarrow> bool" where
  "json_float v = is_finite v"

definition snapshot_marshals :: "alarmConditionSnapshot \<Rightarrow> bool" where
  "snapshot_marshals s \<longleftrightarrow>
     json_float (sn_Value s) \<and> pred_option json_float (sn_MinValue s) \<and>
     pred_option json_float (sn_MaxValue s)"

definition open_for_rule :: "string \<Rightarrow> AlarmEventRow \<Rightarrow> bool" where
  "open_for_rule i e \<longleftrightarrow>
     ae_AlarmRuleID e = Some i \<and> ae_ClearedAt e = None \<and> ae_SourceType e = ''RULE''"

definition rule_event ::
  "Site \<Rightarrow> int \<Rightarrow> AlarmRuleRow \<Rightarrow> alarmConditionSnapshot list \<Rightarrow> int \<Rightarrow> AlarmEventRow" where
  "rule_event si i r ss observedAt =
     \<lparr>ae_ID = i, ae_OrganizationID = si_OrganizationID si, ae_PlantID = si_PlantID si,
      ae_DeviceID = si_DeviceID si, ae_AlarmRuleID = Some (ar_ID r), ae_SourceType = ''RULE'',
      ae_MappingID = None, ae_RegisterSnapshot = None, ae_Severity = ar_Severity r,
      ae_ConditionSnapshot = ss, ae_BreachedAt = observedAt, ae_ClearedAt = None,
      ae_AcknowledgedBy = None, ae_AcknowledgedAt = None, ae_AcknowledgedNote = None\<rparr>"

text \<open>
  \<open>INSERT ... ON CONFLICT (alarm_rule_id) WHERE cleared_at IS NULL AND source_type = 'RULE'
  DO NOTHING RETURNING id\<close>; the identity is drawn in either case.
\<close>

definition insert_event :: "(AlarmEventRow \<Rightarrow> bool) \<Rightarrow> (int \<Rightarrow> AlarmEventRow) \<Rightarrow> Db \<Rightarrow> Db \<times> bool" where
  "insert_event conflict row db =
     (let i = db_NextEvent db;
          (evs, _, opened) = insert_or_get conflict (row i) (db_Events db)
      in (db\<lparr>db_Events := evs, db_NextEvent := i + 1\<rparr>, opened))"

definition clear_events :: "(AlarmEventRow \<Rightarrow> bool) \<Rightarrow> int \<Rightarrow> Db \<Rightarrow> Db" where
  "clear_events p t db =
     db\<lparr>db_Events := update_where (\<lambda>e. p e \<and> ae_ClearedAt e = None)
                       (\<lambda>e. e\<lparr>ae_ClearedAt := Some t\<rparr>) (db_Events db)\<rparr>"

definition rule_breach_of ::
  "Site \<Rightarrow> bool \<Rightarrow> AlarmRuleRow \<Rightarrow> alarmConditionSnapshot list \<Rightarrow> alarmBreach" where
  "rule_breach_of si email r ss =
     \<lparr>ab_RuleLabel = ar_Label r, ab_Severity = ar_Severity r, ab_Conditions = ss,
      ab_NotifyRoleID = ar_NotifyRoleID r, ab_PlantID = si_PlantID si, ab_PlantCode = si_PlantCode si,
      ab_PlantName = si_PlantName si, ab_DeviceName = si_DeviceName si, ab_SourceType = ''RULE'',
      ab_RegisterAddress = [], ab_RegisterDisplay = [], ab_RegisterRaw = f_zero,
      ab_RegisterNumeric = f_zero, ab_EmailEnabled = email\<rparr>"

text \<open>One round of the loop over the active rules; \<open>last\<close> came with the rule from the query.\<close>

definition evaluate_rule ::
  "Site \<Rightarrow> bool \<Rightarrow> (string \<rightharpoonup> f64) \<Rightarrow> int \<Rightarrow> int \<Rightarrow> AlarmRuleRow \<times> int \<Rightarrow> Db \<Rightarrow>
     string + Db \<times> alarmBreach list" where
  "evaluate_rule si email items observedAt dbnow rl db =
     (let (r, lst) = rl in
      case snapshot_conditions items (ar_Conditions r) of
        None \<Rightarrow> Inr (db, [])
      | Some ss \<Rightarrow>
          (case EvaluateConditions (map sn_Breached ss) (map sn_Logic ss) of
             None \<Rightarrow> Inl ''panic: index out of range''
           | Some ruleBreach \<Rightarrow>
               if ruleBreach \<and> AlarmSuppressed lst observedAt (ar_DelaySeconds r) then Inr (db, [])
               else if ruleBreach then
                 (if \<not> list_all snapshot_marshals ss
                  then Inl ''encode alarm event condition snapshot''
                  else let (db', opened) = insert_event (open_for_rule (ar_ID r))
                                             (\<lambda>i. rule_event si i r ss observedAt) db
                       in Inr (db', if opened \<and> ar_NotifyRoleID r \<noteq> None
                                    then [rule_breach_of si email r ss] else []))
               else Inr (clear_events (\<lambda>e. ae_AlarmRuleID e = Some (ar_ID r)) dbnow db, [])))"

fun evaluate_rules ::
  "Site \<Rightarrow> bool \<Rightarrow> (string \<rightharpoonup> f64) \<Rightarrow> int \<Rightarrow> int \<Rightarrow> (AlarmRuleRow \<times> int) list \<Rightarrow> Db \<Rightarrow>
     string + Db \<times> alarmBreach list" where
  "evaluate_rules si email items observedAt dbnow [] db = Inr (db, [])"
| "evaluate_rules si email items observedAt dbnow (r # rs) db =
     (case evaluate_rule si email items observedAt dbnow r db of
        Inl e \<Rightarrow> Inl e
      | Inr (db1, b1) \<Rightarrow>
          (case evaluate_rules si email items observedAt dbnow rs db1 of
             Inl e \<Rightarrow> Inl e
           | Inr (db2, b2) \<Rightarrow> Inr (db2, b1 @ b2)))"

definition active_rules :: "Site \<Rightarrow> Db \<Rightarrow> (AlarmRuleRow \<times> int) list" where
  "active_rules si db =
     map (\<lambda>r. (r, last_breached (ar_ID r) (db_Events db)))
       (filter (\<lambda>r. ar_OrganizationID r = si_OrganizationID si \<and> ar_DeviceID r = si_DeviceID si \<and>
                    ar_IsActive r) (db_Rules db))"

definition evaluateAlarms ::
  "Site \<Rightarrow> (string \<rightharpoonup> f64) \<Rightarrow> int \<Rightarrow> int \<Rightarrow> Db \<Rightarrow> string + Db \<times> alarmBreach list" where
  "evaluateAlarms si items observedAt dbnow db =
     (case find_plant si db of
        None \<Rightarrow> Inl ''load plant alarm email setting: no rows in result set''
      | Some p \<Rightarrow> evaluate_rules si (pr_AlarmEmail p) items observedAt dbnow (active_rules si db) db)"

subsection \<open>Register alarms\<close>

text \<open>
  \<open>registerAlarmTransitions\<close>: the slices become maps by mapping id (a later signal of the same id wins)
  and the maps are iterated; \<open>ord\<close> is the order of that iteration, which Go leaves open.
\<close>

definition by_id :: "registerAlarmSignal list \<Rightarrow> (string \<rightharpoonup> registerAlarmSignal)" where
  "by_id xs = foldl (\<lambda>m s. m(sg_MappingSourceID s \<mapsto> s)) Map.empty xs"

definition signal_ids :: "registerAlarmSignal list \<Rightarrow> string list" where
  "signal_ids xs = remdups (map sg_MappingSourceID xs)"

definition registerAlarmTransitions ::
  "(string list \<Rightarrow> string list) \<Rightarrow> registerAlarmSignal list \<Rightarrow> registerAlarmSignal list \<Rightarrow>
     registerAlarmSignal list \<times> registerAlarmSignal list" where
  "registerAlarmTransitions ord opened current =
     (let openByID = by_id opened; currentByID = by_id current in
      (map (\<lambda>i. the (openByID i)) (filter (\<lambda>i. currentByID i = None) (ord (signal_ids opened))),
       map (\<lambda>i. the (currentByID i)) (filter (\<lambda>i. openByID i = None) (ord (signal_ids current)))))"

text \<open>A row of the query that joins the model's register profile with its value mappings.\<close>

record registerAlarmRow =
  rr_MappingID :: string
  rr_AddressKey :: string
  rr_Mode :: string
  rr_DisplayValue :: string
  rr_AlarmState :: string
  rr_Severity :: string
  rr_MatchValue :: "int option"
  rr_BitIndex :: "int option"

fun isIntegerRegisterValue :: "f64 \<Rightarrow> bool" where
  "isIntegerRegisterValue (F_Fin neg m) = (of_int \<lfloor>m\<rfloor> = m)"
| "isIntegerRegisterValue _ = False"

text \<open>
  \<open>int64(v)\<close> and \<open>uint64(v)\<close> of a value that passed \<open>isIntegerRegisterValue\<close>. Out of range the
  language leaves the result to the implementation; these are amd64's.
\<close>

fun f_integer :: "f64 \<Rightarrow> int" where
  "f_integer (F_Fin neg m) = (if neg then - \<lfloor>m\<rfloor> else \<lfloor>m\<rfloor>)"
| "f_integer _ = 0"

definition f_int64 :: "f64 \<Rightarrow> int" where
  "f_int64 v = (let i = f_integer v in if - (2 ^ 63) \<le> i \<and> i < 2 ^ 63 then i else - (2 ^ 63))"

definition f_uint64 :: "f64 \<Rightarrow> 64 word" where
  "f_uint64 v = (let i = f_integer v in if i < 2 ^ 64 then word_of_int i else push_bit 63 1)"

definition lookupRegisterValue :: "(string \<rightharpoonup> f64) \<Rightarrow> string \<Rightarrow> f64 option" where
  "lookupRegisterValue values key =
     (case values key of
        Some v \<Rightarrow> Some v
      | None \<Rightarrow>
          let bare = trim_prefix (trim_prefix key ''reg'') ''REG''
          in (case values bare of Some v \<Rightarrow> Some v | None \<Rightarrow> values (''reg'' @ bare)))"

text \<open>\<open>uint64(1) << uint(bitIndex)\<close> is 0 from bit 64 on, and for a negative index.\<close>

definition bit_set :: "f64 \<Rightarrow> int \<Rightarrow> bool" where
  "bit_set v b \<longleftrightarrow> 0 \<le> b \<and> b < 64 \<and> bit (f_uint64 v) (nat b)"

definition mapping_active :: "registerAlarmRow \<Rightarrow> f64 \<Rightarrow> bool" where
  "mapping_active d v =
     (let active = rr_MatchValue d \<noteq> None \<and> rr_BitIndex d = None \<and> isIntegerRegisterValue v \<and>
                   rr_MatchValue d = Some (f_int64 v)
      in if equal_fold (rr_Mode d) ''BITMASK'' \<and> rr_BitIndex d \<noteq> None \<and> \<not> f_less v f_zero \<and>
            isIntegerRegisterValue v
         then (case rr_BitIndex d of None \<Rightarrow> False | Some b \<Rightarrow> bit_set v b)
         else active)"

definition register_signal ::
  "(string \<rightharpoonup> f64) \<Rightarrow> (string \<rightharpoonup> f64) \<Rightarrow> registerAlarmRow \<Rightarrow> registerAlarmSignal option" where
  "register_signal raw numeric d =
     (case lookupRegisterValue raw (rr_AddressKey d) of
        None \<Rightarrow> None
      | Some v \<Rightarrow>
          if equal_fold (rr_AlarmState d) ''NORMAL'' then None
          else if \<not> mapping_active d v then None
          else Some \<lparr>sg_MappingSourceID = rr_MappingID d, sg_AddressKey = rr_AddressKey d, sg_RawValue = v,
                     sg_NumericValue = (case lookupRegisterValue numeric (rr_AddressKey d) of
                                          None \<Rightarrow> f_zero | Some n \<Rightarrow> n),
                     sg_DisplayValue = rr_DisplayValue d, sg_Severity = rr_Severity d\<rparr>)"

definition current_signals ::
  "(string \<rightharpoonup> f64) \<Rightarrow> (string \<rightharpoonup> f64) \<Rightarrow> registerAlarmRow list \<Rightarrow> registerAlarmSignal list" where
  "current_signals raw numeric ds = List.map_filter (register_signal raw numeric) ds"

definition open_register :: "Site \<Rightarrow> AlarmEventRow \<Rightarrow> bool" where
  "open_register si e \<longleftrightarrow>
     ae_OrganizationID e = si_OrganizationID si \<and> ae_PlantID e = si_PlantID si \<and>
     ae_DeviceID e = si_DeviceID si \<and> ae_SourceType e = ''REGISTER'' \<and> ae_ClearedAt e = None"

definition open_signals :: "Site \<Rightarrow> Db \<Rightarrow> registerAlarmSignal list" where
  "open_signals si db =
     map (\<lambda>e. \<lparr>sg_MappingSourceID = the (ae_MappingID e), sg_AddressKey = [], sg_RawValue = f_zero,
               sg_NumericValue = f_zero, sg_DisplayValue = [], sg_Severity = []\<rparr>)
       (filter (open_register si) (db_Events db))"

definition register_event :: "Site \<Rightarrow> int \<Rightarrow> registerAlarmSignal \<Rightarrow> int \<Rightarrow> AlarmEventRow" where
  "register_event si i g observedAt =
     \<lparr>ae_ID = i, ae_OrganizationID = si_OrganizationID si, ae_PlantID = si_PlantID si,
      ae_DeviceID = si_DeviceID si, ae_AlarmRuleID = None, ae_SourceType = ''REGISTER'',
      ae_MappingID = Some (sg_MappingSourceID g), ae_RegisterSnapshot = Some g,
      ae_Severity = sg_Severity g, ae_ConditionSnapshot = [], ae_BreachedAt = observedAt,
      ae_ClearedAt = None, ae_AcknowledgedBy = None, ae_AcknowledgedAt = None,
      ae_AcknowledgedNote = None\<rparr>"

definition same_register :: "string \<Rightarrow> string \<Rightarrow> AlarmEventRow \<Rightarrow> bool" where
  "same_register dev m e \<longleftrightarrow>
     ae_DeviceID e = dev \<and> ae_MappingID e = Some m \<and> ae_ClearedAt e = None \<and>
     ae_SourceType e = ''REGISTER''"

definition clear_register :: "Site \<Rightarrow> int \<Rightarrow> registerAlarmSignal \<Rightarrow> Db \<Rightarrow> Db" where
  "clear_register si observedAt g db =
     clear_events (\<lambda>e. ae_OrganizationID e = si_OrganizationID si \<and> ae_DeviceID e = si_DeviceID si \<and>
                       ae_SourceType e = ''REGISTER'' \<and> ae_MappingID e = Some (sg_MappingSourceID g))
       observedAt db"

definition register_breach_of :: "Site \<Rightarrow> PlantRow \<Rightarrow> registerAlarmSignal \<Rightarrow> alarmBreach" where
  "register_breach_of si p g =
     \<lparr>ab_RuleLabel = [], ab_Severity = sg_Severity g, ab_Conditions = [],
      ab_NotifyRoleID = pr_NotifyRoleID p, ab_PlantID = si_PlantID si, ab_PlantCode = si_PlantCode si,
      ab_PlantName = si_PlantName si, ab_DeviceName = si_DeviceName si, ab_SourceType = ''REGISTER'',
      ab_RegisterAddress = sg_AddressKey g, ab_RegisterDisplay = sg_DisplayValue g,
      ab_RegisterRaw = sg_RawValue g, ab_RegisterNumeric = sg_NumericValue g,
      ab_EmailEnabled = pr_AlarmEmail p\<rparr>"

fun open_registers ::
  "Site \<Rightarrow> PlantRow \<Rightarrow> int \<Rightarrow> registerAlarmSignal list \<Rightarrow> Db \<Rightarrow> string + Db \<times> alarmBreach list" where
  "open_registers si p observedAt [] db = Inr (db, [])"
| "open_registers si p observedAt (g # gs) db =
     (if \<not> (json_float (sg_RawValue g) \<and> json_float (sg_NumericValue g))
      then Inl ''json: unsupported value''
      else let (db1, opened) = insert_event (same_register (si_DeviceID si) (sg_MappingSourceID g))
                                 (\<lambda>i. register_event si i g observedAt) db
           in (case open_registers si p observedAt gs db1 of
                 Inl e \<Rightarrow> Inl e
               | Inr (db2, bs) \<Rightarrow> Inr (db2, if opened then register_breach_of si p g # bs else bs)))"

definition evaluateRegisterAlarms ::
  "(string list \<Rightarrow> string list) \<Rightarrow> registerAlarmRow list \<Rightarrow> Site \<Rightarrow> (string \<rightharpoonup> f64) \<Rightarrow> (string \<rightharpoonup> f64) \<Rightarrow>
     int \<Rightarrow> Db \<Rightarrow> string + Db \<times> alarmBreach list" where
  "evaluateRegisterAlarms ord definitions si raw numeric observedAt db =
     (let current = current_signals raw numeric definitions;
          (toClose, toOpen) = registerAlarmTransitions ord (open_signals si db) current;
          db1 = fold (clear_register si observedAt) toClose db
      in (case find_plant si db1 of
            None \<Rightarrow> Inl ''load plant alarm email settings: no rows in result set''
          | Some p \<Rightarrow> open_registers si p observedAt toOpen db1))"

subsection \<open>Notification\<close>

text \<open>
  \<open>show\<close> is \<open>fmt.Sprintf("%v", x)\<close> of a float64, \<open>recipients\<close> the query for the active users of a role,
  \<open>render\<close> the mail template. What leaves the server is a list of mails; the outcome of sending one is
  only logged.
\<close>

definition thresholdText :: "(f64 \<Rightarrow> string) \<Rightarrow> f64 option \<Rightarrow> f64 option \<Rightarrow> string" where
  "thresholdText sh lo hi =
     (case (lo, hi) of
        (Some a, Some b) \<Rightarrow> ''between '' @ sh a @ '' and '' @ sh b
      | (Some a, None) \<Rightarrow> ''below '' @ sh a
      | (None, Some b) \<Rightarrow> ''above '' @ sh b
      | (None, None) \<Rightarrow> ''n/a'')"

definition condition_row :: "(f64 \<Rightarrow> string) \<Rightarrow> alarmConditionSnapshot \<Rightarrow> string \<times> string" where
  "condition_row sh c =
     (if sn_Breached c then sn_PointKey c @ map char_of [0x20, 0xE2, 0x9A, 0xA0 :: nat] else sn_PointKey c,
      sh (sn_Value c) @ '' (threshold '' @ thresholdText sh (sn_MinValue c) (sn_MaxValue c) @ '')'')"

definition email_rows :: "(f64 \<Rightarrow> string) \<Rightarrow> alarmBreach \<Rightarrow> (string \<times> string) list" where
  "email_rows sh b =
     [(''Plant'', ab_PlantName b @ '' ('' @ ab_PlantCode b @ '')''), (''Device'', ab_DeviceName b),
      (''Severity'', to_upper (ab_Severity b))] @
     (if ab_SourceType b = ''REGISTER''
      then [(''Register'', ab_RegisterAddress b), (''Raw value'', sh (ab_RegisterRaw b)),
            (''Numeric value'', sh (ab_RegisterNumeric b)), (''Decoded value'', ab_RegisterDisplay b)]
      else map (condition_row sh) (ab_Conditions b))"

record Mail =
  ml_To :: "string list"
  ml_Subject :: string
  ml_Html :: string

definition breach_mail ::
  "(f64 \<Rightarrow> string) \<Rightarrow> (string \<Rightarrow> string \<Rightarrow> string + string list) \<Rightarrow>
     (string \<Rightarrow> (string \<times> string) list \<Rightarrow> string + string) \<Rightarrow> alarmBreach \<Rightarrow> Mail option" where
  "breach_mail sh recipients render b =
     (if \<not> ab_EmailEnabled b then None
      else (case ab_NotifyRoleID b of
              None \<Rightarrow> None
            | Some role \<Rightarrow>
                (case recipients (ab_PlantID b) role of
                   Inl _ \<Rightarrow> None
                 | Inr to \<Rightarrow>
                     if to = [] then None
                     else (case render (''Alarm rule '' @ quoted (ab_RuleLabel b) @ '' breached'')
                                  (email_rows sh b) of
                             Inl _ \<Rightarrow> None
                           | Inr html \<Rightarrow>
                               Some \<lparr>ml_To = to,
                                     ml_Subject = ''['' @ to_upper (ab_Severity b) @ ''] '' @
                                       ab_RuleLabel b @ '' - '' @ ab_PlantName b,
                                     ml_Html = html\<rparr>))))"

definition notifyAlarmBreaches ::
  "(f64 \<Rightarrow> string) \<Rightarrow> (string \<Rightarrow> string \<Rightarrow> string + string list) \<Rightarrow>
     (string \<Rightarrow> (string \<times> string) list \<Rightarrow> string + string) \<Rightarrow> alarmBreach list \<Rightarrow> Mail list" where
  "notifyAlarmBreaches sh recipients render bs = List.map_filter (breach_mail sh recipients render) bs"

subsection \<open>The event log as a state machine\<close>

text \<open>
  Everything the two evaluations do to the log is one of three steps: open an event of a rule, open an
  event of a register mapping, clear open events. The invariants of the log are proved of the steps.
\<close>

inductive alarm_step :: "Db \<Rightarrow> Db \<Rightarrow> bool" where
  rule_opens:
    "alarm_step db (fst (insert_event (open_for_rule (ar_ID r)) (\<lambda>i. rule_event si i r ss t) db))"
| register_opens:
    "alarm_step db (fst (insert_event (same_register (si_DeviceID si) (sg_MappingSourceID g))
                           (\<lambda>i. register_event si i g t) db))"
| clears: "alarm_step db (clear_events p t db)"

definition alarm_steps :: "Db \<Rightarrow> Db \<Rightarrow> bool" where
  "alarm_steps = alarm_step\<^sup>*\<^sup>*"

lemma alarm_steps_refl [simp, intro]: "alarm_steps db db"
  by (simp add: alarm_steps_def)

lemma alarm_steps_trans: "alarm_steps a b \<Longrightarrow> alarm_steps b c \<Longrightarrow> alarm_steps a c"
  by (simp add: alarm_steps_def)

lemma alarm_step_steps: "alarm_step a b \<Longrightarrow> alarm_steps a b"
  by (simp add: alarm_steps_def)

lemma alarm_steps_invariant:
  assumes "alarm_steps a b" and "P a" and "\<And>x y. alarm_step x y \<Longrightarrow> P x \<Longrightarrow> P y"
  shows "P b"
  using assms(1,2) unfolding alarm_steps_def
  by (induction rule: rtranclp_induct) (auto intro: assms(3))

lemma insert_event_cases:
  obtains (conflict) e where "e \<in> set (db_Events db)" "c e"
      "insert_event c row db = (db\<lparr>db_NextEvent := db_NextEvent db + 1\<rparr>, False)"
  | (opened) "\<forall>e \<in> set (db_Events db). \<not> c e"
      "insert_event c row db =
         (db\<lparr>db_Events := db_Events db @ [row (db_NextEvent db)], db_NextEvent := db_NextEvent db + 1\<rparr>,
          True)"
  by (rule insert_or_get_cases [of c "row (db_NextEvent db)" "db_Events db"])
    (auto simp: insert_event_def Let_def intro: that)

lemma evaluate_rule_steps:
  "evaluate_rule si email items t now rl db = Inr (db', bs) \<Longrightarrow> alarm_steps db db'"
  by (auto simp: evaluate_rule_def Let_def split_beta
      split: option.splits if_splits prod.splits
      intro!: alarm_step_steps alarm_step.intros)

lemma evaluate_rules_steps:
  "evaluate_rules si email items t now rs db = Inr (db', bs) \<Longrightarrow> alarm_steps db db'"
proof (induction rs arbitrary: db bs)
  case Nil
  then show ?case by simp
next
  case (Cons r rs)
  then obtain db1 b1 b2 where "evaluate_rule si email items t now r db = Inr (db1, b1)"
    and "evaluate_rules si email items t now rs db1 = Inr (db', b2)"
    by (auto split: sum.splits)
  with Cons.IH [of db1] evaluate_rule_steps show ?case by (blast intro: alarm_steps_trans)
qed

lemma evaluateAlarms_steps:
  "evaluateAlarms si items t now db = Inr (db', bs) \<Longrightarrow> alarm_steps db db'"
  by (auto simp: evaluateAlarms_def split: option.splits dest: evaluate_rules_steps)

lemma open_registers_steps:
  "open_registers si p t gs db = Inr (db', bs) \<Longrightarrow> alarm_steps db db'"
proof (induction gs arbitrary: db bs)
  case Nil
  then show ?case by simp
next
  case (Cons g gs)
  let ?ins = "insert_event (same_register (si_DeviceID si) (sg_MappingSourceID g))
    (\<lambda>i. register_event si i g t) db"
  from Cons.prems obtain bs' where "open_registers si p t gs (fst ?ins) = Inr (db', bs')"
    by (auto simp: Let_def split_beta split: if_splits sum.splits)
  with Cons.IH have "alarm_steps (fst ?ins) db'" by blast
  moreover have "alarm_steps db (fst ?ins)"
    by (intro alarm_step_steps alarm_step.register_opens)
  ultimately show ?case by (blast intro: alarm_steps_trans)
qed

lemma clear_registers_steps: "alarm_steps db (fold (clear_register si t) gs db)"
proof (induction gs arbitrary: db)
  case Nil
  then show ?case by simp
next
  case (Cons g gs)
  have "alarm_steps db (clear_register si t g db)"
    unfolding clear_register_def by (intro alarm_step_steps alarm_step.clears)
  with Cons.IH [of "clear_register si t g db"] show ?case by (simp add: alarm_steps_trans)
qed

lemma evaluateRegisterAlarms_steps:
  "evaluateRegisterAlarms ord ds si raw numeric t db = Inr (db', bs) \<Longrightarrow> alarm_steps db db'"
  unfolding evaluateRegisterAlarms_def Let_def split_beta
  by (auto split: option.splits dest: open_registers_steps intro: alarm_steps_trans clear_registers_steps)

text \<open>
  What the unique indexes and checks of \<open>alarm.alarm_event\<close> promise: increasing ids below the sequence,
  an event belongs to a rule or to a register mapping, at most one open event per rule, and per device
  and mapping.
\<close>

definition source_ok :: "AlarmEventRow \<Rightarrow> bool" where
  "source_ok e \<longleftrightarrow>
     (ae_SourceType e = ''RULE'' \<and> ae_AlarmRuleID e \<noteq> None \<and> ae_MappingID e = None \<and>
        ae_RegisterSnapshot e = None) \<or>
     (ae_SourceType e = ''REGISTER'' \<and> ae_AlarmRuleID e = None \<and> ae_MappingID e \<noteq> None \<and>
        ae_RegisterSnapshot e \<noteq> None)"

definition one_open :: "AlarmEventRow list \<Rightarrow> bool" where
  "one_open evs \<longleftrightarrow>
     (\<forall>i. length (filter (open_for_rule i) evs) \<le> 1) \<and>
     (\<forall>d m. length (filter (same_register d m) evs) \<le> 1)"

definition events_ok :: "Db \<Rightarrow> bool" where
  "events_ok db \<longleftrightarrow>
     sorted_wrt (<) (map ae_ID (db_Events db)) \<and>
     (\<forall>e \<in> set (db_Events db). ae_ID e < db_NextEvent db \<and> source_ok e) \<and> one_open (db_Events db)"

lemma filter_update_where_le:
  assumes "\<And>x. q x \<Longrightarrow> \<not> p (f x)"
  shows "length (filter p (update_where q f xs)) \<le> length (filter p xs)"
  using assms by (induction xs) (auto simp: update_where_def)

lemma one_open_clear:
  assumes "one_open evs"
  shows "one_open (update_where (\<lambda>e. p e \<and> ae_ClearedAt e = None) (\<lambda>e. e\<lparr>ae_ClearedAt := Some t\<rparr>) evs)"
    (is "one_open ?evs")
proof -
  have "length (filter (open_for_rule i) ?evs) \<le> length (filter (open_for_rule i) evs)" for i
    by (rule filter_update_where_le) (simp add: open_for_rule_def)
  moreover have "length (filter (same_register d m) ?evs) \<le> length (filter (same_register d m) evs)" for d m
    by (rule filter_update_where_le) (simp add: same_register_def)
  ultimately show ?thesis using assms unfolding one_open_def by (meson order_trans)
qed

lemma one_open_rule_event:
  assumes "one_open evs" and "\<forall>e \<in> set evs. \<not> open_for_rule (ar_ID r) e"
  shows "one_open (evs @ [rule_event si i r ss t])"
proof -
  have "filter (open_for_rule (ar_ID r)) evs = []" using assms(2) by (simp add: filter_empty_conv)
  moreover have "\<not> same_register d m (rule_event si i r ss t)" for d m
    by (simp add: same_register_def rule_event_def)
  moreover have "open_for_rule k (rule_event si i r ss t) \<longleftrightarrow> k = ar_ID r" for k
    by (auto simp: open_for_rule_def rule_event_def)
  ultimately show ?thesis using assms(1) by (auto simp: one_open_def)
qed

lemma one_open_register_event:
  assumes "one_open evs"
    and "\<forall>e \<in> set evs. \<not> same_register (si_DeviceID si) (sg_MappingSourceID g) e"
  shows "one_open (evs @ [register_event si i g t])"
proof -
  let ?p = "same_register (si_DeviceID si) (sg_MappingSourceID g)"
  have "filter ?p evs = []" using assms(2) by (simp add: filter_empty_conv)
  moreover have "\<not> open_for_rule k (register_event si i g t)" for k
    by (simp add: open_for_rule_def register_event_def)
  moreover have "same_register d m (register_event si i g t) \<longleftrightarrow>
      d = si_DeviceID si \<and> m = sg_MappingSourceID g" for d m
    by (auto simp: same_register_def register_event_def)
  ultimately show ?thesis using assms(1) by (auto simp: one_open_def)
qed

lemma map_update_where:
  assumes "\<And>x. g (f x) = g x"
  shows "map g (update_where p f xs) = map g xs"
  using assms by (simp add: update_where_def)

lemma events_ok_clear: "events_ok db \<Longrightarrow> events_ok (clear_events p t db)"
  unfolding events_ok_def clear_events_def
  by (auto simp: map_update_where one_open_clear set_update_where source_ok_def)

lemma events_ok_append:
  assumes "events_ok db" and "ae_ID (row (db_NextEvent db)) = db_NextEvent db"
    and "source_ok (row (db_NextEvent db))" and "one_open (db_Events db @ [row (db_NextEvent db)])"
  shows "events_ok (db\<lparr>db_Events := db_Events db @ [row (db_NextEvent db)],
                       db_NextEvent := db_NextEvent db + 1\<rparr>)"
  using assms by (auto simp: events_ok_def sorted_wrt_append)

lemma events_ok_next: "events_ok db \<Longrightarrow> events_ok (db\<lparr>db_NextEvent := db_NextEvent db + 1\<rparr>)"
  by (auto simp: events_ok_def)

lemma alarm_step_events_ok:
  assumes "alarm_step a b" and "events_ok a"
  shows "events_ok b"
  using assms
proof cases
  case (rule_opens r si ss t)
  show ?thesis
  proof (rule insert_event_cases [of a "open_for_rule (ar_ID r)" "\<lambda>i. rule_event si i r ss t"])
    assume "insert_event (open_for_rule (ar_ID r)) (\<lambda>i. rule_event si i r ss t) a =
      (a\<lparr>db_NextEvent := db_NextEvent a + 1\<rparr>, False)"
    with rule_opens assms(2) show ?thesis by (simp add: events_ok_next)
  next
    assume n: "\<forall>e \<in> set (db_Events a). \<not> open_for_rule (ar_ID r) e"
      and e: "insert_event (open_for_rule (ar_ID r)) (\<lambda>i. rule_event si i r ss t) a =
        (a\<lparr>db_Events := db_Events a @ [rule_event si (db_NextEvent a) r ss t],
           db_NextEvent := db_NextEvent a + 1\<rparr>, True)"
    have "one_open (db_Events a)" using assms(2) by (simp add: events_ok_def)
    from one_open_rule_event [OF this n] assms(2)
    have "events_ok (a\<lparr>db_Events := db_Events a @ [rule_event si (db_NextEvent a) r ss t],
        db_NextEvent := db_NextEvent a + 1\<rparr>)"
      by (intro events_ok_append [where row = "\<lambda>i. rule_event si i r ss t"])
        (simp_all add: rule_event_def source_ok_def)
    with rule_opens e show ?thesis by simp
  qed
next
  case (register_opens si g t)
  let ?c = "same_register (si_DeviceID si) (sg_MappingSourceID g)"
  show ?thesis
  proof (rule insert_event_cases [of a ?c "\<lambda>i. register_event si i g t"])
    assume "insert_event ?c (\<lambda>i. register_event si i g t) a =
      (a\<lparr>db_NextEvent := db_NextEvent a + 1\<rparr>, False)"
    with register_opens assms(2) show ?thesis by (simp add: events_ok_next)
  next
    assume n: "\<forall>e \<in> set (db_Events a). \<not> ?c e"
      and e: "insert_event ?c (\<lambda>i. register_event si i g t) a =
        (a\<lparr>db_Events := db_Events a @ [register_event si (db_NextEvent a) g t],
           db_NextEvent := db_NextEvent a + 1\<rparr>, True)"
    have "one_open (db_Events a)" using assms(2) by (simp add: events_ok_def)
    from one_open_register_event [OF this n] assms(2)
    have "events_ok (a\<lparr>db_Events := db_Events a @ [register_event si (db_NextEvent a) g t],
        db_NextEvent := db_NextEvent a + 1\<rparr>)"
      by (intro events_ok_append [where row = "\<lambda>i. register_event si i g t"])
        (simp_all add: register_event_def source_ok_def)
    with register_opens e show ?thesis by simp
  qed
next
  case (clears p t)
  with assms(2) show ?thesis by (simp add: events_ok_clear)
qed

lemma alarm_steps_events_ok: "alarm_steps a b \<Longrightarrow> events_ok a \<Longrightarrow> events_ok b"
  by (rule alarm_steps_invariant [where P = events_ok]) (auto intro: alarm_step_events_ok)

text \<open>
  The log is append-only: an event that was recorded stays, with its snapshot and acknowledgement; its
  \<open>cleared_at\<close> may be set once. Nothing but the log and its sequence changes.
\<close>

definition event_kept :: "AlarmEventRow \<Rightarrow> AlarmEventRow \<Rightarrow> bool" where
  "event_kept e e' \<longleftrightarrow>
     e' = e\<lparr>ae_ClearedAt := ae_ClearedAt e'\<rparr> \<and> (ae_ClearedAt e \<noteq> None \<longrightarrow> ae_ClearedAt e' = ae_ClearedAt e)"

definition log_grows :: "Db \<Rightarrow> Db \<Rightarrow> bool" where
  "log_grows a b \<longleftrightarrow>
     b = a\<lparr>db_Events := db_Events b, db_NextEvent := db_NextEvent b\<rparr> \<and>
     (\<exists>old new. db_Events b = old @ new \<and> list_all2 event_kept (db_Events a) old)"

lemma event_kept_refl [simp]: "event_kept e e"
  by (simp add: event_kept_def)

lemma event_kept_trans:
  assumes "event_kept a b" and "event_kept b c"
  shows "event_kept a c"
proof -
  from assms(1) obtain u where b: "b = a\<lparr>ae_ClearedAt := u\<rparr>" unfolding event_kept_def by blast
  from assms(2) obtain v where c: "c = b\<lparr>ae_ClearedAt := v\<rparr>" unfolding event_kept_def by blast
  from assms show ?thesis by (simp add: event_kept_def b c)
qed

lemma log_growsI:
  assumes "b = a\<lparr>db_Events := old @ new, db_NextEvent := n\<rparr>" and "list_all2 event_kept (db_Events a) old"
  shows "log_grows a b"
  using assms by (auto simp: log_grows_def)

lemma log_grows_refl: "log_grows a a"
  by (rule log_growsI [where old = "db_Events a" and new = "[]" and n = "db_NextEvent a"])
    (simp_all add: list_all2_refl)

lemma log_grows_trans:
  assumes "log_grows a b" and "log_grows b c"
  shows "log_grows a c"
proof -
  obtain old new where o: "db_Events b = old @ new" "list_all2 event_kept (db_Events a) old"
    using assms(1) by (auto simp: log_grows_def)
  obtain old' new' where o': "db_Events c = old' @ new'" "list_all2 event_kept (db_Events b) old'"
    using assms(2) by (auto simp: log_grows_def)
  from o o' obtain us vs where "old' = us @ vs" "list_all2 event_kept old us"
    by (auto simp: list_all2_append1)
  then have "db_Events c = us @ (vs @ new')" "list_all2 event_kept (db_Events a) us"
    using o o' by (auto intro: list_all2_trans [OF event_kept_trans])
  moreover have "c = a\<lparr>db_Events := db_Events c, db_NextEvent := db_NextEvent c\<rparr>"
  proof -
    obtain x y where "b = a\<lparr>db_Events := x, db_NextEvent := y\<rparr>"
      using assms(1) unfolding log_grows_def by blast
    moreover obtain x' y' where "c = b\<lparr>db_Events := x', db_NextEvent := y'\<rparr>"
      using assms(2) unfolding log_grows_def by blast
    ultimately show ?thesis by simp
  qed
  ultimately show ?thesis unfolding log_grows_def by blast
qed

lemma log_grows_append:
  "log_grows a (a\<lparr>db_Events := db_Events a @ [e], db_NextEvent := n\<rparr>)"
  by (rule log_growsI [where old = "db_Events a" and new = "[e]"]) (simp_all add: list_all2_refl)

lemma log_grows_next: "log_grows a (a\<lparr>db_NextEvent := n\<rparr>)"
  by (rule log_growsI [where old = "db_Events a" and new = "[]"]) (simp_all add: list_all2_refl)

lemma log_grows_clear: "log_grows a (clear_events p t a)"
proof -
  have "list_all2 event_kept evs
      (update_where (\<lambda>e. p e \<and> ae_ClearedAt e = None) (\<lambda>e. e\<lparr>ae_ClearedAt := Some t\<rparr>) evs)" for evs
    by (induction evs) (auto simp: update_where_def event_kept_def)
  then show ?thesis
    by (intro log_growsI [where new = "[]" and n = "db_NextEvent a"]) (simp_all add: clear_events_def)
qed

lemma insert_event_grows: "log_grows a (fst (insert_event c row a))"
  by (rule insert_event_cases [of a c row]) (auto simp: log_grows_append log_grows_next)

lemma alarm_step_grows: "alarm_step a b \<Longrightarrow> log_grows a b"
  by (erule alarm_step.cases) (simp_all add: insert_event_grows log_grows_clear)

lemma alarm_steps_grow: "alarm_steps a b \<Longrightarrow> log_grows a b"
  by (rule alarm_steps_invariant [where P = "log_grows a"])
    (auto intro: log_grows_refl log_grows_trans alarm_step_grows)

lemma log_grows_frame:
  assumes "log_grows a b"
  shows "db_Plants b = db_Plants a" "db_Models b = db_Models a" "db_Devices b = db_Devices a"
    "db_Metadata b = db_Metadata a" "db_ProfileAddresses b = db_ProfileAddresses a"
    "db_Readings b = db_Readings a" "db_Batches b = db_Batches a" "db_Rules b = db_Rules a"
    "db_Audit b = db_Audit a" "db_Profiles b = db_Profiles a"
    "db_LastSeen b = db_LastSeen a"
proof -
  have "b = a\<lparr>db_Events := db_Events b, db_NextEvent := db_NextEvent b\<rparr>"
    using assms by (simp add: log_grows_def)
  then obtain x y where "b = a\<lparr>db_Events := x, db_NextEvent := y\<rparr>" by blast
  then show "db_Plants b = db_Plants a" "db_Models b = db_Models a" "db_Devices b = db_Devices a"
    "db_Metadata b = db_Metadata a" "db_ProfileAddresses b = db_ProfileAddresses a"
    "db_Readings b = db_Readings a" "db_Batches b = db_Batches a" "db_Rules b = db_Rules a"
    "db_Audit b = db_Audit a" "db_Profiles b = db_Profiles a"
    "db_LastSeen b = db_LastSeen a" by simp_all
qed

subsection \<open>What a reading does to each rule\<close>

definition rule_events :: "string \<Rightarrow> Db \<Rightarrow> AlarmEventRow list" where
  "rule_events i db = filter (\<lambda>e. ae_AlarmRuleID e = Some i) (db_Events db)"

text \<open>The verdict of a rule on a reading; \<open>None\<close> when the reading lacks one of its points.\<close>

definition rule_verdict ::
  "(string \<rightharpoonup> f64) \<Rightarrow> AlarmRuleRow \<Rightarrow> (alarmConditionSnapshot list \<times> bool) option" where
  "rule_verdict items r =
     (case snapshot_conditions items (ar_Conditions r) of
        None \<Rightarrow> None
      | Some ss \<Rightarrow> Some (ss, sum_of_products (map sn_Breached ss) (map sn_Logic ss)))"

definition is_open :: "AlarmEventRow \<Rightarrow> bool" where
  "is_open e \<longleftrightarrow> ae_ClearedAt e = None"

definition close_event :: "int \<Rightarrow> AlarmEventRow \<Rightarrow> AlarmEventRow" where
  "close_event t e = (if is_open e then e\<lparr>ae_ClearedAt := Some t\<rparr> else e)"

text \<open>How the events of a rule change, and what is reported.\<close>

definition rule_effect ::
  "Site \<Rightarrow> bool \<Rightarrow> (string \<rightharpoonup> f64) \<Rightarrow> int \<Rightarrow> int \<Rightarrow> AlarmRuleRow \<times> int \<Rightarrow>
     AlarmEventRow list \<Rightarrow> AlarmEventRow list \<Rightarrow> alarmBreach list \<Rightarrow> bool" where
  "rule_effect si email items t now rl before after bs =
     (let (r, lst) = rl in
      case rule_verdict items r of
        None \<Rightarrow> after = before \<and> bs = []
      | Some (ss, False) \<Rightarrow> after = map (close_event now) before \<and> bs = []
      | Some (ss, True) \<Rightarrow>
          if AlarmSuppressed lst t (ar_DelaySeconds r) \<or> list_ex is_open before
          then after = before \<and> bs = []
          else (\<exists>i. after = before @ [rule_event si i r ss t]) \<and>
               bs = (if ar_NotifyRoleID r \<noteq> None then [rule_breach_of si email r ss] else []))"

lemma rule_open_iff:
  assumes "\<forall>e \<in> set (db_Events db). source_ok e"
  shows "(\<exists>e \<in> set (db_Events db). open_for_rule i e) \<longleftrightarrow> list_ex is_open (rule_events i db)"
proof -
  have "open_for_rule i e \<longleftrightarrow> ae_AlarmRuleID e = Some i \<and> is_open e" if "e \<in> set (db_Events db)" for e
  proof -
    from assms that have "source_ok e" by blast
    then have "ae_AlarmRuleID e = Some i \<Longrightarrow> ae_SourceType e = ''RULE''"
      unfolding source_ok_def by force
    then show ?thesis unfolding open_for_rule_def is_open_def by blast
  qed
  then show ?thesis by (auto simp: rule_events_def list_ex_iff)
qed

lemma rule_events_clear:
  "rule_events k (clear_events (\<lambda>e. ae_AlarmRuleID e = Some i) t db) =
     (if k = i then map (close_event t) (rule_events k db) else rule_events k db)"
proof -
  have "filter (\<lambda>e. ae_AlarmRuleID e = Some k)
      (update_where (\<lambda>e. ae_AlarmRuleID e = Some i \<and> ae_ClearedAt e = None)
         (\<lambda>e. e\<lparr>ae_ClearedAt := Some t\<rparr>) evs) =
    (if k = i then map (close_event t) (filter (\<lambda>e. ae_AlarmRuleID e = Some k) evs)
     else filter (\<lambda>e. ae_AlarmRuleID e = Some k) evs)" for evs
    by (cases "k = i"; induction evs) (simp_all add: update_where_def close_event_def is_open_def)
  then show ?thesis by (simp add: rule_events_def clear_events_def)
qed

lemma rule_events_next [simp]: "rule_events k (db\<lparr>db_NextEvent := n\<rparr>) = rule_events k db"
  by (simp add: rule_events_def)

lemma rule_events_append:
  "rule_events k (db\<lparr>db_Events := db_Events db @ [rule_event si i r ss t]\<rparr>) =
     (if k = ar_ID r then rule_events k db @ [rule_event si i r ss t] else rule_events k db)"
  by (simp add: rule_events_def rule_event_def)

lemma evaluate_verdict:
  "EvaluateConditions (map f ss) (map g ss) = Some (sum_of_products (map f ss) (map g ss))"
  by (rule evaluate_sum_of_products) simp

lemma evaluate_rule_effect:
  assumes "evaluate_rule si email items t now (r, lst) db = Inr (db', bs)"
    and "\<forall>e \<in> set (db_Events db). source_ok e"
  shows "rule_effect si email items t now (r, lst) (rule_events (ar_ID r) db)
           (rule_events (ar_ID r) db') bs \<and>
         (\<forall>k. k \<noteq> ar_ID r \<longrightarrow> rule_events k db' = rule_events k db)"
proof (cases "snapshot_conditions items (ar_Conditions r)")
  case None
  with assms(1) show ?thesis by (simp add: evaluate_rule_def rule_effect_def rule_verdict_def)
next
  case (Some ss)
  let ?v = "sum_of_products (map sn_Breached ss) (map sn_Logic ss)"
  let ?c = "open_for_rule (ar_ID r)" and ?row = "\<lambda>i. rule_event si i r ss t"
  show ?thesis
  proof (cases "?v \<and> \<not> AlarmSuppressed lst t (ar_DelaySeconds r)")
    case False
    with assms(1) Some show ?thesis
      by (auto simp: evaluate_rule_def rule_effect_def rule_verdict_def evaluate_verdict
          rule_events_clear split: if_splits)
  next
    case True
    with assms(1) Some have db': "db' = fst (insert_event ?c ?row db)"
      and bs: "bs = (if snd (insert_event ?c ?row db) \<and> ar_NotifyRoleID r \<noteq> None
        then [rule_breach_of si email r ss] else [])"
      by (simp_all add: evaluate_rule_def evaluate_verdict Let_def split_beta split: if_splits)
    show ?thesis
    proof (rule insert_event_cases [of db ?c ?row])
      fix e assume e: "e \<in> set (db_Events db)" "?c e"
        and i: "insert_event ?c ?row db = (db\<lparr>db_NextEvent := db_NextEvent db + 1\<rparr>, False)"
      then have "list_ex is_open (rule_events (ar_ID r) db)"
        using rule_open_iff [OF assms(2)] by blast
      with i bs db' True Some show ?thesis
        by (simp add: rule_effect_def rule_verdict_def)
    next
      assume n: "\<forall>e \<in> set (db_Events db). \<not> ?c e"
        and i: "insert_event ?c ?row db =
          (db\<lparr>db_Events := db_Events db @ [?row (db_NextEvent db)],
              db_NextEvent := db_NextEvent db + 1\<rparr>, True)"
      then have "\<not> list_ex is_open (rule_events (ar_ID r) db)"
        using rule_open_iff [OF assms(2)] by blast
      with i bs db' True Some show ?thesis
        by (auto simp: rule_effect_def rule_verdict_def rule_events_append)
    qed
  qed
qed

lemma evaluate_rule_source_ok:
  assumes "evaluate_rule si email items t now rl db = Inr (db', bs)" and "events_ok db"
  shows "events_ok db'"
  using evaluate_rule_steps [OF assms(1)] assms(2) by (rule alarm_steps_events_ok)

lemma evaluate_rules_effect:
  assumes "evaluate_rules si email items t now rs db = Inr (db', bs)"
    and "events_ok db" and "distinct (map (\<lambda>rl. ar_ID (fst rl)) rs)"
  shows "(\<exists>bss. bs = concat bss \<and>
            list_all2 (\<lambda>rl. rule_effect si email items t now rl (rule_events (ar_ID (fst rl)) db)
                               (rule_events (ar_ID (fst rl)) db')) rs bss) \<and>
         (\<forall>k. k \<notin> (\<lambda>rl. ar_ID (fst rl)) ` set rs \<longrightarrow> rule_events k db' = rule_events k db)"
  using assms
proof (induction rs arbitrary: db bs)
  case Nil
  then show ?case by (auto intro!: exI [of _ "[]"])
next
  case (Cons rl rs)
  obtain r lst where rl: "rl = (r, lst)" by (cases rl)
  from Cons.prems(1) obtain db1 b1 b2 where
    e1: "evaluate_rule si email items t now (r, lst) db = Inr (db1, b1)" and
    e2: "evaluate_rules si email items t now rs db1 = Inr (db', b2)" and bs: "bs = b1 @ b2"
    by (auto simp: rl split: sum.splits)
  have ok1: "events_ok db1" using evaluate_rule_source_ok [OF e1 Cons.prems(2)] .
  have src: "\<forall>e \<in> set (db_Events db). source_ok e" using Cons.prems(2) by (simp add: events_ok_def)
  note ef1 = evaluate_rule_effect [OF e1 src]
  from Cons.IH [OF e2 ok1] Cons.prems(3) obtain bss where
    b2: "b2 = concat bss" and
    ef2: "list_all2 (\<lambda>rl. rule_effect si email items t now rl (rule_events (ar_ID (fst rl)) db1)
            (rule_events (ar_ID (fst rl)) db')) rs bss" and
    fr2: "\<forall>k. k \<notin> (\<lambda>rl. ar_ID (fst rl)) ` set rs \<longrightarrow> rule_events k db' = rule_events k db1"
    by auto
  have "ar_ID r \<notin> (\<lambda>rl. ar_ID (fst rl)) ` set rs" using Cons.prems(3) by (auto simp: rl)
  with ef1 fr2 have hd: "rule_effect si email items t now rl (rule_events (ar_ID (fst rl)) db)
      (rule_events (ar_ID (fst rl)) db') b1"
    by (simp add: rl)
  have "rule_events (ar_ID (fst x)) db1 = rule_events (ar_ID (fst x)) db" if "x \<in> set rs" for x
  proof -
    have "ar_ID (fst x) \<noteq> ar_ID r" using Cons.prems(3) that by (force simp: rl)
    with ef1 show ?thesis by blast
  qed
  with ef2 have tl: "list_all2 (\<lambda>rl. rule_effect si email items t now rl (rule_events (ar_ID (fst rl)) db)
      (rule_events (ar_ID (fst rl)) db')) rs bss"
    by (auto simp: list_all2_conv_all_nth)
  have "rule_events k db' = rule_events k db" if "k \<notin> (\<lambda>rl. ar_ID (fst rl)) ` set (rl # rs)" for k
    using that fr2 ef1 by (auto simp: rl)
  with hd tl b2 bs show ?case by (intro conjI exI [of _ "b1 # bss"]) simp_all
qed

lemma active_rules_distinct:
  "distinct (map ar_ID (db_Rules db)) \<Longrightarrow> distinct (map (\<lambda>rl. ar_ID (fst rl)) (active_rules si db))"
  by (simp add: active_rules_def comp_def distinct_map_filter)

text \<open>
  C33: what a reading does to the alarms of its device, rule by rule. A rule is left alone when the
  reading lacks one of its points; when its verdict (the sum of products) is no breach every open event
  of it is cleared; when it is a breach, nothing changes while an event is open or the Alarm Delay since
  the last one runs, and otherwise exactly one event opens, with the snapshot of every condition. A
  notification is reported for exactly the newly opened events of rules with a notify role, in the order
  of the rules, and the events of every other rule stay as they were.
\<close>

theorem evaluateAlarms_effect:
  assumes "events_ok db" and "distinct (map ar_ID (db_Rules db))"
    and "evaluateAlarms si items t now db = Inr (db', bs)"
  shows "\<exists>p bss. find_plant si db = Some p \<and> bs = concat bss \<and>
     list_all2 (\<lambda>rl. rule_effect si (pr_AlarmEmail p) items t now rl
                        (rule_events (ar_ID (fst rl)) db) (rule_events (ar_ID (fst rl)) db'))
       (active_rules si db) bss \<and>
     (\<forall>k. k \<notin> (\<lambda>rl. ar_ID (fst rl)) ` set (active_rules si db) \<longrightarrow>
        rule_events k db' = rule_events k db)"
proof -
  obtain p where p: "find_plant si db = Some p"
    and e: "evaluate_rules si (pr_AlarmEmail p) items t now (active_rules si db) db = Inr (db', bs)"
    using assms(3) by (auto simp: evaluateAlarms_def split: option.splits)
  from evaluate_rules_effect [OF e assms(1) active_rules_distinct [OF assms(2)]] p
  show ?thesis by blast
qed

definition sample_site :: Site where
  "sample_site =
     \<lparr>si_OrganizationID = ''org'', si_PlantID = ''plant'', si_DeviceID = ''dev'', si_ModelID = ''model'',
      si_PlantCode = ''P1'', si_PlantName = ''Roof'', si_DeviceName = ''Inverter''\<rparr>"

definition sample_plant :: PlantRow where
  "sample_plant =
     \<lparr>pr_ID = ''plant'', pr_OrganizationID = ''org'', pr_Code = ''P1'', pr_Name = ''Roof'',
      pr_IsActive = True, pr_AlarmEmail = True, pr_NotifyRoleID = None\<rparr>"

definition sample_rule :: AlarmRuleRow where
  "sample_rule =
     \<lparr>ar_ID = ''rule'', ar_OrganizationID = ''org'', ar_PlantID = ''plant'', ar_DeviceID = ''dev'',
      ar_Label = ''Hot'', ar_Severity = ''major'', ar_DelaySeconds = 60, ar_IsActive = True,
      ar_NotifyRoleID = Some ''role'',
      ar_Conditions = [\<lparr>ci_PointKey = ''temp'', ci_MinValue = None,
                        ci_MaxValue = Some (F_Fin False 80), ci_Logic = ''AND''\<rparr>]\<rparr>"

definition sample_db :: Db where
  "sample_db =
     \<lparr>db_Plants = [sample_plant], db_Models = [], db_Devices = [], db_Profiles = [], db_Metadata = [],
      db_ProfileAddresses = [], db_Readings = [], db_Batches = [], db_Rules = [sample_rule],
      db_Events = [], db_NextEvent = 1, db_Audit = [],
      db_LastSeen = Map.empty\<rparr>"

lemma sample_db_ok: "events_ok sample_db" "distinct (map ar_ID (db_Rules sample_db))"
  by (simp_all add: events_ok_def one_open_def sample_db_def)

definition hot :: "string \<rightharpoonup> f64" where
  "hot = [''temp'' \<mapsto> F_Fin False 90]"

lemma sample_active: "active_rules sample_site sample_db = [(sample_rule, 0)]"
  by (simp add: active_rules_def sample_db_def sample_site_def sample_rule_def last_breached_def)

lemma sample_find_plant: "find_plant sample_site sample_db = Some sample_plant"
  by (simp add: find_plant_def select_one_def sample_db_def sample_site_def sample_plant_def)

definition hot_snapshot :: alarmConditionSnapshot where
  "hot_snapshot =
     \<lparr>sn_PointKey = ''temp'', sn_Value = F_Fin False 90, sn_MinValue = None,
      sn_MaxValue = Some (F_Fin False 80), sn_Breached = True, sn_Logic = ''AND''\<rparr>"

lemma hot_snapshots: "snapshot_conditions hot (ar_Conditions sample_rule) = Some [hot_snapshot]"
  by (simp add: sample_rule_def hot_def hot_snapshot_def condition_breached_def)

lemma sample_insert: "snd (insert_event c row sample_db)"
  by (simp add: insert_event_def insert_or_get_def sample_db_def)

lemma hot_fires:
  "\<exists>db' b. evaluateAlarms sample_site hot 5000 6000 sample_db = Inr (db', [b])"
proof -
  have "EvaluateConditions (map sn_Breached [hot_snapshot]) (map sn_Logic [hot_snapshot]) = Some True"
    by (simp add: EvaluateConditions_def hot_snapshot_def)
  moreover have "list_all snapshot_marshals [hot_snapshot]"
    by (simp add: hot_snapshot_def snapshot_marshals_def json_float_def)
  moreover have "\<not> AlarmSuppressed 0 5000 d" for d by (simp add: AlarmSuppressed_def)
  moreover have "ar_NotifyRoleID sample_rule \<noteq> None" by (simp add: sample_rule_def)
  ultimately show ?thesis
    by (simp add: evaluateAlarms_def sample_find_plant sample_active evaluate_rule_def hot_snapshots
        sample_insert Let_def split_beta)
qed

theorem evaluateAlarms_effect_witness:
  "\<exists>db' bs p bss. evaluateAlarms sample_site hot 5000 6000 sample_db = Inr (db', bs) \<and>
     length bs = 1 \<and> bs = concat bss \<and> find_plant sample_site sample_db = Some p \<and>
     list_all2 (\<lambda>rl. rule_effect sample_site (pr_AlarmEmail p) hot 5000 6000 rl
                        (rule_events (ar_ID (fst rl)) sample_db) (rule_events (ar_ID (fst rl)) db'))
       (active_rules sample_site sample_db) bss"
proof -
  obtain db' b where e: "evaluateAlarms sample_site hot 5000 6000 sample_db = Inr (db', [b])"
    using hot_fires by blast
  from evaluateAlarms_effect [OF sample_db_ok e] obtain p bss where
    "find_plant sample_site sample_db = Some p" and "[b] = concat bss" and
    "list_all2 (\<lambda>rl. rule_effect sample_site (pr_AlarmEmail p) hot 5000 6000 rl
       (rule_events (ar_ID (fst rl)) sample_db) (rule_events (ar_ID (fst rl)) db'))
       (active_rules sample_site sample_db) bss"
    by blast
  moreover have "length [b] = 1" by simp
  ultimately show ?thesis using e by blast
qed

subsection \<open>What a reading does to the register alarms\<close>

definition open_mappings :: "Site \<Rightarrow> Db \<Rightarrow> string set" where
  "open_mappings si db = {m. \<exists>e \<in> set (db_Events db). open_register si e \<and> ae_MappingID e = Some m}"

text \<open>The register events of a device are of the plant the device is in.\<close>

definition registers_at :: "Site \<Rightarrow> Db \<Rightarrow> bool" where
  "registers_at si db \<longleftrightarrow>
     (\<forall>e \<in> set (db_Events db). ae_SourceType e = ''REGISTER'' \<and> ae_DeviceID e = si_DeviceID si \<longrightarrow>
        ae_OrganizationID e = si_OrganizationID si \<and> ae_PlantID e = si_PlantID si)"

lemma by_id_lookup: "i \<in> sg_MappingSourceID ` set xs \<Longrightarrow>
    \<exists>s \<in> set xs. sg_MappingSourceID s = i \<and> by_id xs i = Some s"
  by (induction xs rule: rev_induct) (auto simp: by_id_def)

lemma by_id_None_iff: "by_id xs i = None \<longleftrightarrow> i \<notin> sg_MappingSourceID ` set xs"
  by (induction xs rule: rev_induct) (auto simp: by_id_def)

lemma open_signals_ids:
  assumes "\<forall>e \<in> set (db_Events db). source_ok e"
  shows "sg_MappingSourceID ` set (open_signals si db) = open_mappings si db"
proof -
  have "ae_MappingID e \<noteq> None" if "e \<in> set (db_Events db)" "open_register si e" for e
    using assms that by (force simp: source_ok_def open_register_def)
  then show ?thesis
    by (force simp: open_signals_def open_mappings_def)
qed

lemma transitions_spec:
  assumes ord: "\<And>xs. mset (ord xs) = mset xs"
    and tr: "registerAlarmTransitions ord opened current = (toClose, toOpen)"
  shows "sg_MappingSourceID ` set toClose =
           sg_MappingSourceID ` set opened - sg_MappingSourceID ` set current"
    and "sg_MappingSourceID ` set toOpen =
           sg_MappingSourceID ` set current - sg_MappingSourceID ` set opened"
    and "distinct (map sg_MappingSourceID toOpen)" and "set toOpen \<subseteq> set current"
proof -
  have set_ord: "set (ord xs) = set xs" for xs using ord [of xs] by (rule mset_eq_setD)
  have id: "sg_MappingSourceID (the (by_id xs i)) = i \<and> the (by_id xs i) \<in> set xs"
    if "i \<in> sg_MappingSourceID ` set xs" for xs i
    using by_id_lookup [OF that] by auto
  have c: "toClose = map (\<lambda>i. the (by_id opened i)) (filter (\<lambda>i. by_id current i = None) (ord (signal_ids opened)))"
    and o: "toOpen = map (\<lambda>i. the (by_id current i)) (filter (\<lambda>i. by_id opened i = None) (ord (signal_ids current)))"
    using tr by (simp_all add: registerAlarmTransitions_def Let_def)
  have ids: "set (signal_ids xs) = sg_MappingSourceID ` set xs" for xs by (simp add: signal_ids_def)
  have mc: "map sg_MappingSourceID toClose = filter (\<lambda>i. by_id current i = None) (ord (signal_ids opened))"
    unfolding c by (auto simp: set_ord ids id intro!: map_idI)
  have mo: "map sg_MappingSourceID toOpen = filter (\<lambda>i. by_id opened i = None) (ord (signal_ids current))"
    unfolding o by (auto simp: set_ord ids id intro!: map_idI)
  have "sg_MappingSourceID ` set toClose = set (map sg_MappingSourceID toClose)" by simp
  also have "\<dots> = sg_MappingSourceID ` set opened - sg_MappingSourceID ` set current"
    unfolding mc by (auto simp: set_ord ids by_id_None_iff)
  finally show "sg_MappingSourceID ` set toClose =
      sg_MappingSourceID ` set opened - sg_MappingSourceID ` set current" .
  have "sg_MappingSourceID ` set toOpen = set (map sg_MappingSourceID toOpen)" by simp
  also have "\<dots> = sg_MappingSourceID ` set current - sg_MappingSourceID ` set opened"
    unfolding mo by (auto simp: set_ord ids by_id_None_iff)
  finally show "sg_MappingSourceID ` set toOpen =
      sg_MappingSourceID ` set current - sg_MappingSourceID ` set opened" .
  have "distinct (ord (signal_ids current))"
    using ord [of "signal_ids current"] by (metis distinct_remdups mset_eq_imp_distinct_iff signal_ids_def)
  then show "distinct (map sg_MappingSourceID toOpen)" by (simp add: mo)
  show "set toOpen \<subseteq> set current"
    unfolding o by (auto simp: set_ord ids id)
qed

lemma clear_register_open:
  "open_mappings si (clear_register si t g db) = open_mappings si db - {sg_MappingSourceID g}"
  unfolding open_mappings_def clear_register_def clear_events_def
  by (auto simp: set_update_where open_register_def)

lemma clear_registers_open:
  "open_mappings si (fold (clear_register si t) gs db) = open_mappings si db - sg_MappingSourceID ` set gs"
  by (induction gs arbitrary: db) (auto simp: clear_register_open)

lemma clear_register_at: "registers_at si db \<Longrightarrow> registers_at si (clear_register si t g db)"
  unfolding registers_at_def clear_register_def clear_events_def
  by (auto simp: set_update_where)

lemma clear_registers_at: "registers_at si db \<Longrightarrow> registers_at si (fold (clear_register si t) gs db)"
  by (induction gs arbitrary: db) (simp_all add: clear_register_at)

lemma insert_register_open:
  assumes "registers_at si db"
  shows "open_mappings si (fst (insert_event (same_register (si_DeviceID si) (sg_MappingSourceID g))
             (\<lambda>i. register_event si i g t) db)) = insert (sg_MappingSourceID g) (open_mappings si db)"
    (is "open_mappings si (fst ?ins) = _")
proof (rule insert_event_cases [of db "same_register (si_DeviceID si) (sg_MappingSourceID g)"
      "\<lambda>i. register_event si i g t"])
  fix e
  assume e: "e \<in> set (db_Events db)" "same_register (si_DeviceID si) (sg_MappingSourceID g) e"
    and ins: "?ins = (db\<lparr>db_NextEvent := db_NextEvent db + 1\<rparr>, False)"
  then have "sg_MappingSourceID g \<in> open_mappings si db"
    using assms unfolding open_mappings_def registers_at_def same_register_def open_register_def by blast
  with ins show ?thesis by (auto simp: open_mappings_def)
next
  assume ins: "?ins = (db\<lparr>db_Events := db_Events db @ [register_event si (db_NextEvent db) g t],
      db_NextEvent := db_NextEvent db + 1\<rparr>, True)"
  have "open_register si (register_event si i g t)" "ae_MappingID (register_event si i g t) = Some (sg_MappingSourceID g)" for i
    by (simp_all add: open_register_def register_event_def)
  with ins show ?thesis by (auto simp: open_mappings_def)
qed

lemma insert_register_at:
  assumes "registers_at si db"
  shows "registers_at si (fst (insert_event c (\<lambda>i. register_event si i g t) db))"
  by (rule insert_event_cases [of db c "\<lambda>i. register_event si i g t"])
    (use assms in \<open>auto simp: registers_at_def register_event_def\<close>)

lemma open_registers_open:
  assumes "open_registers si p t gs db = Inr (db', bs)" and "registers_at si db"
  shows "open_mappings si db' = open_mappings si db \<union> sg_MappingSourceID ` set gs"
  using assms
proof (induction gs arbitrary: db bs)
  case Nil
  then show ?case by simp
next
  case (Cons g gs)
  let ?ins = "insert_event (same_register (si_DeviceID si) (sg_MappingSourceID g))
    (\<lambda>i. register_event si i g t) db"
  from Cons.prems obtain bs' where "open_registers si p t gs (fst ?ins) = Inr (db', bs')"
    by (auto simp: Let_def split_beta split: if_splits sum.splits)
  from Cons.IH [OF this insert_register_at [OF Cons.prems(2)]] insert_register_open [OF Cons.prems(2)]
  show ?case by simp
qed

lemma open_registers_at:
  assumes "open_registers si p t gs db = Inr (db', bs)" and "registers_at si db"
  shows "registers_at si db'"
  using assms
proof (induction gs arbitrary: db bs)
  case Nil
  then show ?case by simp
next
  case (Cons g gs)
  let ?ins = "insert_event (same_register (si_DeviceID si) (sg_MappingSourceID g))
    (\<lambda>i. register_event si i g t) db"
  from Cons.prems obtain bs' where "open_registers si p t gs (fst ?ins) = Inr (db', bs')"
    by (auto simp: Let_def split_beta split: if_splits sum.splits)
  from Cons.IH [OF this insert_register_at [OF Cons.prems(2)]] show ?case .
qed

lemma current_signal_ids:
  "sg_MappingSourceID ` set (current_signals raw numeric ds) =
     {rr_MappingID d |d. d \<in> set ds \<and> register_signal raw numeric d \<noteq> None}"
proof -
  have "sg_MappingSourceID g = rr_MappingID d" if "register_signal raw numeric d = Some g" for d g
    using that by (auto simp: register_signal_def split: option.splits if_splits)
  then show ?thesis
    by (force simp: current_signals_def List.map_filter_def image_iff)
qed

text \<open>
  C34: after a reading is evaluated against the register profile, the open register alarms of its device
  are exactly the value mappings that are active in the reading: those whose address the reading has and
  whose value or bit matches, the ones marked NORMAL left out. A reading that lacks an address so closes
  its alarms. This holds in whatever order Go iterates its maps.
\<close>

theorem evaluateRegisterAlarms_exact:
  assumes "\<And>xs. mset (ord xs) = mset xs" and "events_ok db" and "registers_at si db"
    and "evaluateRegisterAlarms ord ds si raw numeric t db = Inr (db', bs)"
  shows "open_mappings si db' = {rr_MappingID d |d. d \<in> set ds \<and> register_signal raw numeric d \<noteq> None} \<and>
     events_ok db' \<and> registers_at si db'"
proof -
  let ?current = "current_signals raw numeric ds"
  obtain toClose toOpen where tr:
    "registerAlarmTransitions ord (open_signals si db) ?current = (toClose, toOpen)"
    by (cases "registerAlarmTransitions ord (open_signals si db) ?current")
  let ?db1 = "fold (clear_register si t) toClose db"
  obtain p where o: "open_registers si p t toOpen ?db1 = Inr (db', bs)"
    using assms(4) tr by (auto simp: evaluateRegisterAlarms_def Let_def split: option.splits)
  have src: "\<forall>e \<in> set (db_Events db). source_ok e" using assms(2) by (simp add: events_ok_def)
  note ts = transitions_spec [OF assms(1) tr]
  have at1: "registers_at si ?db1" using assms(3) by (rule clear_registers_at)
  have "open_mappings si db' = open_mappings si ?db1 \<union> sg_MappingSourceID ` set toOpen"
    by (rule open_registers_open [OF o at1])
  also have "open_mappings si ?db1 = open_mappings si db - sg_MappingSourceID ` set toClose"
    by (rule clear_registers_open)
  finally have "open_mappings si db' = sg_MappingSourceID ` set ?current"
    using ts(1,2) open_signals_ids [OF src] by auto
  moreover have "events_ok db'"
    using evaluateRegisterAlarms_steps [OF assms(4)] assms(2) by (rule alarm_steps_events_ok)
  moreover have "registers_at si db'" by (rule open_registers_at [OF o at1])
  ultimately show ?thesis by (simp add: current_signal_ids)
qed

definition sample_mapping :: registerAlarmRow where
  "sample_mapping =
     \<lparr>rr_MappingID = ''m1'', rr_AddressKey = ''40001'', rr_Mode = ''BITMASK'', rr_DisplayValue = ''Fan fault'',
      rr_AlarmState = ''FAULT'', rr_Severity = ''major'', rr_MatchValue = None, rr_BitIndex = Some 1\<rparr>"

lemma sample_mapping_signal:
  "register_signal [''40001'' \<mapsto> F_Fin False 6] Map.empty sample_mapping =
     Some \<lparr>sg_MappingSourceID = ''m1'', sg_AddressKey = ''40001'', sg_RawValue = F_Fin False 6,
           sg_NumericValue = f_zero, sg_DisplayValue = ''Fan fault'', sg_Severity = ''major''\<rparr>"
proof -
  have "bit_set (F_Fin False 6) 1"
    by (simp add: bit_set_def f_uint64_def Let_def)
  then have "mapping_active sample_mapping (F_Fin False 6)"
    by (simp add: mapping_active_def sample_mapping_def)
  then show ?thesis
    by (simp add: register_signal_def lookupRegisterValue_def sample_mapping_def text_eval Let_def
        trim_prefix_def)
qed

lemma sample_register_run:
  "\<exists>db' bs. evaluateRegisterAlarms id [sample_mapping] sample_site [''40001'' \<mapsto> F_Fin False 6] Map.empty
     5000 sample_db = Inr (db', bs)"
proof -
  have "open_signals sample_site sample_db = []"
    by (simp add: open_signals_def sample_db_def)
  then show ?thesis
    by (simp add: evaluateRegisterAlarms_def current_signals_def List.map_filter_def sample_mapping_signal
        registerAlarmTransitions_def signal_ids_def by_id_def sample_find_plant json_float_def Let_def
        split_beta)
qed

theorem evaluateRegisterAlarms_exact_witness:
  "\<exists>db' bs. evaluateRegisterAlarms id [sample_mapping] sample_site [''40001'' \<mapsto> F_Fin False 6] Map.empty
     5000 sample_db = Inr (db', bs) \<and> open_mappings sample_site db' = {''m1''}"
proof -
  obtain db' bs where e: "evaluateRegisterAlarms id [sample_mapping] sample_site
      [''40001'' \<mapsto> F_Fin False 6] Map.empty 5000 sample_db = Inr (db', bs)"
    using sample_register_run by blast
  have "registers_at sample_site sample_db" by (simp add: registers_at_def sample_db_def)
  from evaluateRegisterAlarms_exact [OF _ sample_db_ok(1) this e]
  have "open_mappings sample_site db' = {''m1''}"
    by (simp add: sample_mapping_signal) (simp add: sample_mapping_def)
  with e show ?thesis by blast
qed

text \<open>A mail about a register alarm names no rule: its label is left empty.\<close>

lemma register_mail_without_label:
  "ab_RuleLabel (register_breach_of si p g) = [] \<and>
   (\<forall>m. breach_mail sh recipients render (register_breach_of si p g) = Some m \<longrightarrow>
      ml_Subject m = ''['' @ to_upper (sg_Severity g) @ ''] '' @ '' - '' @ si_PlantName si)"
  by (auto simp: breach_mail_def register_breach_of_def split: if_splits option.splits sum.splits)

end
