(* ===== verification/IngestReading.thy ===== *)
theory IngestReading
  imports AlarmEvents
begin

section \<open>internal/ingestion: one raw reading, from validation to its alarms\<close>

text \<open>
  The transaction of a batch is a computation on the database that may abort (the error of a statement,
  after which everything rolls back) or reject one reading, which the batch records and goes on.
  Parameters: \<open>uuid\<close> the ids drawn from \<open>crypto/rand\<close>, named by what they are for; \<open>mapped\<close> the SQL
  function \<open>telemetry.mapped_data_items\<close>; \<open>registers\<close> the rows of the register profile of a model;
  \<open>ord\<close> the iteration order of Go's maps; \<open>fmt_time\<close> is \<open>Format(time.RFC3339Nano)\<close>.
\<close>

subsection \<open>Transactions\<close>

record recordFailure =
  rf_Code :: string
  rf_Message :: string

type_synonym 'a tx = "Db \<Rightarrow> string + Db \<times> (recordFailure + 'a)"

definition tx_return :: "'a \<Rightarrow> 'a tx" where
  "tx_return v db = Inr (db, Inr v)"

definition tx_abort :: "string \<Rightarrow> 'a tx" where
  "tx_abort e db = Inl e"

definition tx_reject :: "string \<Rightarrow> string \<Rightarrow> 'a tx" where
  "tx_reject code msg db = Inr (db, Inl \<lparr>rf_Code = code, rf_Message = msg\<rparr>)"

definition tx_bind :: "'a tx \<Rightarrow> ('a \<Rightarrow> 'b tx) \<Rightarrow> 'b tx" where
  "tx_bind m f db =
     (case m db of
        Inl e \<Rightarrow> Inl e
      | Inr (db1, Inl r) \<Rightarrow> Inr (db1, Inl r)
      | Inr (db1, Inr v) \<Rightarrow> f v db1)"

text \<open>What holds between the database before and after a computation that did not abort.\<close>

definition tx_rel :: "(Db \<Rightarrow> Db \<Rightarrow> bool) \<Rightarrow> 'a tx \<Rightarrow> bool" where
  "tx_rel R m \<longleftrightarrow> (\<forall>db db' r. m db = Inr (db', r) \<longrightarrow> R db db')"

lemma tx_relD: "tx_rel R m \<Longrightarrow> m db = Inr (db', r) \<Longrightarrow> R db db'"
  by (simp add: tx_rel_def)

lemma tx_rel_return: "reflp R \<Longrightarrow> tx_rel R (tx_return v)"
  by (simp add: tx_rel_def tx_return_def reflp_def)

lemma tx_rel_reject: "reflp R \<Longrightarrow> tx_rel R (tx_reject c m)"
  by (simp add: tx_rel_def tx_reject_def reflp_def)

lemma tx_rel_abort: "tx_rel R (tx_abort e)"
  by (simp add: tx_rel_def tx_abort_def)

lemma tx_rel_bind:
  assumes "transp R" and "tx_rel R m" and "\<And>v. tx_rel R (f v)"
  shows "tx_rel R (tx_bind m f)"
  unfolding tx_rel_def
proof (intro allI impI)
  fix db db' r
  assume e: "tx_bind m f db = Inr (db', r)"
  show "R db db'"
  proof (cases "m db")
    case (Inl e)
    with \<open>tx_bind m f db = Inr (db', r)\<close> show ?thesis by (simp add: tx_bind_def)
  next
    case (Inr x)
    then obtain db1 s where m: "m db = Inr (db1, s)" by (cases x) auto
    then have 1: "R db db1" using assms(2) by (rule tx_relD [rotated])
    show ?thesis
    proof (cases s)
      case (Inl f)
      with e m 1 show ?thesis by (simp add: tx_bind_def)
    next
      case (Inr v)
      with e m have "f v db1 = Inr (db', r)" by (simp add: tx_bind_def)
      then have "R db1 db'" using assms(3) by (rule tx_relD [rotated])
      with 1 assms(1) show ?thesis by (blast dest: transpD)
    qed
  qed
qed

subsection \<open>Readings\<close>

record RawReading =
  rg_GatewayID :: string
  rg_DevDn :: string
  rg_DevName :: string
  rg_PlantCode :: string
  rg_PlantName :: string
  rg_DevTypeID :: int
  rg_Model :: string
  rg_CollectTime :: int
  rg_Map :: "(string \<times> f64) list"

record normalizedRawReading =
  nr_Reading :: RawReading
  nr_ObservedAt :: int
  nr_DeviceType :: string

record MiddlewareClient =
  cl_ID :: string
  cl_OrganizationID :: string
  cl_Name :: string
  cl_AutoOnboard :: bool

definition RawSchemaVersion :: string where
  "RawSchemaVersion = ''2.0''"

text \<open>\<open>^[A-Z0-9][A-Z0-9._=-]*$\<close>.\<close>

definition plantCodeRE :: "string \<Rightarrow> bool" where
  "plantCodeRE s \<longleftrightarrow>
     s \<noteq> [] \<and> upper_alnum (hd s) \<and> list_all (\<lambda>c. upper_alnum c \<or> c \<in> set ''._=-'') (tl s)"

text \<open>\<open>time.UnixMilli(ms).UTC()\<close>.\<close>

definition unix_milli :: "int \<Rightarrow> int" where
  "unix_milli ms = (62135596800000 + ms) * 1000000"

definition or_else :: "string \<Rightarrow> string \<Rightarrow> string" where
  "or_else s d = (if s = [] then d else s)"

definition deviceType :: "RawReading \<Rightarrow> string" where
  "deviceType r = ''DEV_TYPE_'' @ itoa (rg_DevTypeID r)"

text \<open>The trimming and the defaults at the start of \<open>validateRawReading\<close>.\<close>

definition trim_reading :: "string \<Rightarrow> RawReading \<Rightarrow> RawReading" where
  "trim_reading clientName r =
     (let code = to_upper (trim_space (rg_PlantCode r)); dn = trim_space (rg_DevDn r) in
      r\<lparr>rg_PlantCode := code, rg_PlantName := or_else (trim_space (rg_PlantName r)) code, rg_DevDn := dn,
        rg_DevName := or_else (trim_space (rg_DevName r)) dn,
        rg_GatewayID := or_else (trim_space (rg_GatewayID r)) clientName,
        rg_Model := or_else (trim_space (rg_Model r)) (deviceType r)\<rparr>)"

text \<open>The loop over the registers, in the order of the map's iteration.\<close>

fun check_registers :: "(string \<times> f64) list \<Rightarrow> string option" where
  "check_registers [] = None"
| "check_registers ((k, v) # kvs) =
     (case parse_int64 k of
        None \<Rightarrow> Some (''register '' @ quoted k @ '' has invalid address'')
      | Some a \<Rightarrow>
          if a < 0 \<or> 65535 < a then Some (''register '' @ quoted k @ '' has invalid address'')
          else if \<not> is_finite v then Some (''register '' @ quoted k @ '' has a non-finite value'')
          else check_registers kvs)"

definition validateRawReading :: "RawReading \<Rightarrow> string \<Rightarrow> int \<Rightarrow> string + normalizedRawReading" where
  "validateRawReading r0 clientName now =
     (let r = trim_reading clientName r0; observedAt = unix_milli (rg_CollectTime r) in
      if length (rg_PlantCode r) = 0 \<or> 100 < length (rg_PlantCode r) \<or> \<not> plantCodeRE (rg_PlantCode r)
      then Inl ''invalid plantCode''
      else if length (rg_DevDn r) = 0 \<or> 200 < length (rg_DevDn r) \<or> 200 < length (rg_DevName r) \<or>
              200 < length (rg_PlantName r)
      then Inl ''invalid plant or device identity''
      else if rg_DevTypeID r \<le> 0 \<or> 200 < length (rg_Model r) \<or> length (rg_GatewayID r) = 0 \<or>
              200 < length (rg_GatewayID r)
      then Inl ''invalid device type, model, or gateway''
      else if rg_CollectTime r \<le> 0 \<or> length (rg_Map r) = 0 \<or> 5000 < length (rg_Map r)
      then Inl ''collectTime and registerAddressMap are required''
      else (case check_registers (rg_Map r) of
              Some e \<Rightarrow> Inl e
            | None \<Rightarrow>
                if now + 600 * 1000000000 < observedAt then Inl ''collectTime is too far in the future''
                else Inr \<lparr>nr_Reading = r, nr_ObservedAt = observedAt, nr_DeviceType = deviceType r\<rparr>))"

subsection \<open>Onboarding\<close>

datatype IdUse = U_batch | U_plant nat | U_model nat | U_device nat | U_reading nat

record IngestEnv =
  ie_uuid :: "IdUse \<Rightarrow> string"
  ie_sha :: "string \<Rightarrow> string"
  ie_mapped :: "Db \<Rightarrow> Site \<Rightarrow> (string \<times> f64) list \<Rightarrow> string + (string \<rightharpoonup> f64)"
  ie_registers :: "string \<Rightarrow> string \<Rightarrow> registerAlarmRow list"
  ie_ord :: "string list \<Rightarrow> string list"
  ie_fmt_time :: "int \<Rightarrow> string"
  ie_dbnow :: int

definition inventoryAudit :: "MiddlewareClient \<Rightarrow> string \<Rightarrow> string \<Rightarrow> string \<Rightarrow> Db \<Rightarrow> Db" where
  "inventoryAudit client action targetType targetID db =
     db\<lparr>db_Audit := db_Audit db @
          [\<lparr>au_OrganizationID = cl_OrganizationID client, au_Action = action, au_TargetType = targetType,
            au_TargetID = targetID\<rparr>]\<rparr>"

definition GetIngestionPlant :: "string \<Rightarrow> string \<Rightarrow> Db \<Rightarrow> PlantRow option" where
  "GetIngestionPlant org code db =
     select_one (\<lambda>p. pr_OrganizationID p = org \<and> pr_Code p = code) (db_Plants db)"

definition OnboardPlant :: "PlantRow \<Rightarrow> Db \<Rightarrow> Db \<times> PlantRow \<times> bool" where
  "OnboardPlant row db =
     (let (rows, p, created) =
            insert_or_get (\<lambda>p. pr_OrganizationID p = pr_OrganizationID row \<and> pr_Code p = pr_Code row) row
              (db_Plants db)
      in (db\<lparr>db_Plants := rows\<rparr>, p, created))"

text \<open>The first part of \<open>ingestRawReading\<close>: the plant, and how many were created.\<close>

definition ingest_plant :: "IngestEnv \<Rightarrow> MiddlewareClient \<Rightarrow> nat \<Rightarrow> normalizedRawReading \<Rightarrow> (PlantRow \<times> nat) tx" where
  "ingest_plant env client k nr db =
     (let r = nr_Reading nr; org = cl_OrganizationID client in
      case GetIngestionPlant org (rg_PlantCode r) db of
        Some p \<Rightarrow>
          if \<not> pr_IsActive p then tx_reject ''PLANT_DISABLED'' ''plant is disabled'' db
          else tx_return (p, 0) db
      | None \<Rightarrow>
          if \<not> cl_AutoOnboard client then tx_reject ''UNKNOWN_PLANT'' ''plant is not registered'' db
          else
            let (db1, p, created) = OnboardPlant
                  \<lparr>pr_ID = ie_uuid env (U_plant k), pr_OrganizationID = org, pr_Code = rg_PlantCode r,
                   pr_Name = rg_PlantName r, pr_IsActive = True, pr_AlarmEmail = False,
                   pr_NotifyRoleID = None\<rparr> db;
                db2 = (if created then inventoryAudit client ''plant.auto_onboarded'' ''plant'' (pr_ID p) db1
                       else db1)
            in if \<not> pr_IsActive p then tx_reject ''PLANT_DISABLED'' ''plant is disabled'' db2
               else tx_return (p, if created then 1 else 0) db2)"

definition GetIngestionDevice :: "string \<Rightarrow> string \<Rightarrow> string \<Rightarrow> Db \<Rightarrow> DeviceRow option" where
  "GetIngestionDevice org plant dn db =
     select_one (\<lambda>d. dr_OrganizationID d = org \<and> dr_PlantID d = plant \<and> dr_ExternalID d = dn) (db_Devices db)"

text \<open>
  A new model comes with an empty profile of the same id; the name of a profile is unique in its
  organisation, so that a profile of that name without the model makes the statement fail.
\<close>

definition same_model :: "DeviceModelRow \<Rightarrow> DeviceModelRow \<Rightarrow> bool" where
  "same_model row m \<longleftrightarrow>
     dm_OrganizationID m = dm_OrganizationID row \<and> dm_Manufacturer m = dm_Manufacturer row \<and>
     dm_Model m = dm_Model row"

definition new_profile :: "DeviceModelRow \<Rightarrow> ProfileRow" where
  "new_profile row =
     \<lparr>pf_ID = dm_ID row, pf_OrganizationID = dm_OrganizationID row,
      pf_Name = take 200 (''Middleware '' @ dm_Model row)\<rparr>"

definition profile_key :: "ProfileRow \<Rightarrow> string \<times> string" where
  "profile_key q = (pf_OrganizationID q, pf_Name q)"

definition OnboardDeviceModel :: "DeviceModelRow \<Rightarrow> Db \<Rightarrow> string + Db \<times> DeviceModelRow" where
  "OnboardDeviceModel row db =
     (case select_one (same_model row) (db_Models db) of
        Some m \<Rightarrow> Inr (db, m)
      | None \<Rightarrow>
          if \<exists>q \<in> set (db_Profiles db). profile_key q = profile_key (new_profile row)
          then Inl ''onboard device model: duplicate key value violates unique constraint''
          else Inr (db\<lparr>db_Profiles := db_Profiles db @ [new_profile row],
                       db_Models := db_Models db @ [row]\<rparr>, row))"

definition OnboardDevice :: "DeviceRow \<Rightarrow> Db \<Rightarrow> Db \<times> DeviceRow \<times> bool" where
  "OnboardDevice row db =
     (let (rows, d, created) =
            insert_or_get (\<lambda>d. dr_OrganizationID d = dr_OrganizationID row \<and>
                               dr_PlantID d = dr_PlantID row \<and> dr_ExternalID d = dr_ExternalID row) row
              (db_Devices db)
      in (db\<lparr>db_Devices := rows\<rparr>, d, created))"

definition ingest_device ::
  "IngestEnv \<Rightarrow> MiddlewareClient \<Rightarrow> nat \<Rightarrow> normalizedRawReading \<Rightarrow> PlantRow \<Rightarrow> (DeviceRow \<times> nat) tx" where
  "ingest_device env client k nr plant db =
     (let r = nr_Reading nr; org = cl_OrganizationID client in
      case GetIngestionDevice org (pr_ID plant) (rg_DevDn r) db of
        Some d \<Rightarrow>
          if \<not> dr_IsActive d then tx_reject ''DEVICE_DISABLED'' ''device is disabled'' db
          else tx_return (d, 0) db
      | None \<Rightarrow>
          if \<not> cl_AutoOnboard client then tx_reject ''UNKNOWN_DEVICE'' ''device is not registered'' db
          else
            (case OnboardDeviceModel
                    \<lparr>dm_ID = ie_uuid env (U_model k), dm_OrganizationID = org,
                     dm_Manufacturer = ''Middleware'', dm_Model = rg_Model r,
                     dm_DeviceType = nr_DeviceType nr, dm_SourceTypeID = signed_take_bit 31 (rg_DevTypeID r),
                     dm_ProfileID = ie_uuid env (U_model k)\<rparr> db of
               Inl e \<Rightarrow> Inl e
             | Inr (db1, m) \<Rightarrow>
                 let (db2, d, created) = OnboardDevice
                       \<lparr>dr_ID = ie_uuid env (U_device k), dr_OrganizationID = org, dr_PlantID = pr_ID plant,
                        dr_ModelID = dm_ID m, dr_ExternalID = rg_DevDn r, dr_Name = rg_DevName r,
                        dr_IsActive = True\<rparr> db1;
                     db3 = (if created
                            then inventoryAudit client ''device.auto_onboarded'' ''device'' (dr_ID d) db2
                            else db2)
                 in if \<not> dr_IsActive d then tx_reject ''DEVICE_DISABLED'' ''device is disabled'' db3
                    else tx_return (d, if created then 1 else 0) db3))"

subsection \<open>Register metadata\<close>

definition canonicalRegisterKey :: "string \<Rightarrow> string" where
  "canonicalRegisterKey key0 =
     (let key = trim_space key0 in
      if prefix ''reg'' (to_lower key) then key
      else if parse_int64 key \<noteq> None then ''reg'' @ key
      else key)"

definition metadataDataType :: "string \<Rightarrow> string" where
  "metadataDataType ty =
     (if to_upper (trim_space ty) \<in> {''BOOL'', ''BOOLEAN'', ''BIT'', ''COIL''} then ''boolean'' else ''number'')"

definition metadata_row :: "MiddlewareClient \<Rightarrow> string \<Rightarrow> string \<Rightarrow> string \<times> string \<Rightarrow> MetadataRow" where
  "metadata_row client modelID source kt =
     (let key = canonicalRegisterKey (fst kt) in
      \<lparr>md_OrganizationID = cl_OrganizationID client, md_ModelID = modelID, md_AddressKey = key,
       md_DisplayName = key, md_DataType = metadataDataType (snd kt),
       md_Notes = ''Auto-created from '' @ source\<rparr>)"

definition same_metadata :: "MetadataRow \<Rightarrow> MetadataRow \<Rightarrow> bool" where
  "same_metadata row m \<longleftrightarrow>
     md_OrganizationID m = md_OrganizationID row \<and> md_ModelID m = md_ModelID row \<and>
     md_AddressKey m = md_AddressKey row"

text \<open>
  One key: the metadata row and, when it is new, a row of the profile whose id is the model's, which a
  foreign key requires to exist.
\<close>

definition ensure_key :: "MetadataRow \<Rightarrow> Db \<Rightarrow> string + Db \<times> bool" where
  "ensure_key row db =
     (let (rows, _, created) = insert_or_get (same_metadata row) row (db_Metadata db);
          db1 = db\<lparr>db_Metadata := rows\<rparr>
      in if \<not> created then Inr (db1, False)
         else if \<exists>a \<in> set (db_ProfileAddresses db1). same_metadata row a then Inr (db1, True)
         else if \<not> (\<exists>q \<in> set (db_Profiles db1). pf_OrganizationID q = md_OrganizationID row \<and>
                                              pf_ID q = md_ModelID row)
         then Inl (''auto-create register profile address '' @ quoted (md_AddressKey row))
         else Inr (db1\<lparr>db_ProfileAddresses := db_ProfileAddresses db1 @ [row]\<rparr>, True))"

fun ensure_keys :: "MetadataRow list \<Rightarrow> Db \<Rightarrow> string + Db \<times> string list" where
  "ensure_keys [] db = Inr (db, [])"
| "ensure_keys (row # rows) db =
     (case ensure_key row db of
        Inl e \<Rightarrow> Inl e
      | Inr (db1, created) \<Rightarrow>
          (case ensure_keys rows db1 of
             Inl e \<Rightarrow> Inl e
           | Inr (db2, added) \<Rightarrow> Inr (db2, if created then md_AddressKey row # added else added)))"

definition ensureModelRegisterMetadata ::
  "MiddlewareClient \<Rightarrow> string \<Rightarrow> (string \<times> string) list \<Rightarrow> string \<Rightarrow> unit tx" where
  "ensureModelRegisterMetadata client modelID items source db =
     (let keys = sort_less (\<lambda>a b. string_less (fst a) (fst b)) items in
      case ensure_keys (map (metadata_row client modelID source) keys) db of
        Inl e \<Rightarrow> Inl e
      | Inr (db1, added) \<Rightarrow>
          tx_return ()
            (if added \<noteq> []
             then inventoryAudit client ''device_model_register_metadata.auto_created'' ''device_model''
                    modelID db1
             else db1))"

subsection \<open>The reading itself\<close>

record ingestOutcome =
  oc_Accepted :: nat
  oc_Duplicate :: nat
  oc_Plants :: nat
  oc_Devices :: nat
  oc_Breaches :: "alarmBreach list"

definition external_key :: "(int \<Rightarrow> string) \<Rightarrow> normalizedRawReading \<Rightarrow> string" where
  "external_key fmt nr =
     ''v2:'' @ rg_PlantCode (nr_Reading nr) @ '':'' @ rg_DevDn (nr_Reading nr) @ '':'' @ fmt (nr_ObservedAt nr)"

definition raw_row ::
  "IngestEnv \<Rightarrow> MiddlewareClient \<Rightarrow> nat \<Rightarrow> string \<Rightarrow> normalizedRawReading \<Rightarrow> PlantRow \<Rightarrow> DeviceRow \<Rightarrow> RawReadingRow" where
  "raw_row env client k batchID nr plant device =
     \<lparr>rw_ID = ie_uuid env (U_reading k), rw_OrganizationID = cl_OrganizationID client,
      rw_PlantID = pr_ID plant, rw_DeviceID = dr_ID device, rw_ClientID = cl_ID client,
      rw_BatchID = batchID, rw_GatewayID = rg_GatewayID (nr_Reading nr),
      rw_ExternalKey = external_key (ie_fmt_time env) nr, rw_ObservedAt = nr_ObservedAt nr,
      rw_RegisterAddressMap = rg_Map (nr_Reading nr)\<rparr>"

definition reading_key :: "RawReadingRow \<Rightarrow> string \<times> string \<times> int" where
  "reading_key row = (rw_ClientID row, rw_ExternalKey row, rw_ObservedAt row)"

definition InsertRawRegisterReading :: "RawReadingRow \<Rightarrow> Db \<Rightarrow> Db \<times> bool" where
  "InsertRawRegisterReading row db =
     (let (rows, _, created) = insert_or_get (\<lambda>w. reading_key w = reading_key row) row (db_Readings db)
      in (db\<lparr>db_Readings := rows\<rparr>, created))"

definition site_of :: "MiddlewareClient \<Rightarrow> PlantRow \<Rightarrow> DeviceRow \<Rightarrow> Site" where
  "site_of client plant device =
     \<lparr>si_OrganizationID = cl_OrganizationID client, si_PlantID = pr_ID plant, si_DeviceID = dr_ID device,
      si_ModelID = dr_ModelID device, si_PlantCode = pr_Code plant, si_PlantName = pr_Name plant,
      si_DeviceName = dr_Name device\<rparr>"

text \<open>\<open>mappedDataItems\<close> and both alarm evaluations, on a reading that is new.\<close>

definition ingest_alarms ::
  "IngestEnv \<Rightarrow> Site \<Rightarrow> normalizedRawReading \<Rightarrow> alarmBreach list tx" where
  "ingest_alarms env si nr db =
     (let regs = rg_Map (nr_Reading nr) in
      case ie_mapped env db si regs of
        Inl e \<Rightarrow> Inl e
      | Inr items \<Rightarrow>
          (case evaluateAlarms si items (nr_ObservedAt nr) (ie_dbnow env) db of
             Inl e \<Rightarrow> Inl (''evaluate alarms: '' @ e)
           | Inr (db1, b1) \<Rightarrow>
               (case evaluateRegisterAlarms (ie_ord env)
                       (ie_registers env (si_OrganizationID si) (si_ModelID si)) si (map_of regs) items
                       (nr_ObservedAt nr) db1 of
                  Inl e \<Rightarrow> Inl (''evaluate register alarms: '' @ e)
                | Inr (db2, b2) \<Rightarrow> tx_return (b1 @ b2) db2)))"

definition store_reading ::
  "IngestEnv \<Rightarrow> MiddlewareClient \<Rightarrow> nat \<Rightarrow> string \<Rightarrow> normalizedRawReading \<Rightarrow> PlantRow \<Rightarrow> DeviceRow \<Rightarrow> nat \<Rightarrow> nat \<Rightarrow>
     ingestOutcome tx" where
  "store_reading env client k batchID nr plant device plants devices db =
     (let (db1, created) = InsertRawRegisterReading (raw_row env client k batchID nr plant device) db in
      if \<not> created
      then tx_return \<lparr>oc_Accepted = 0, oc_Duplicate = 1, oc_Plants = plants, oc_Devices = devices,
                      oc_Breaches = []\<rparr> db1
      else tx_bind (ingest_alarms env (site_of client plant device) nr)
             (\<lambda>bs. tx_return \<lparr>oc_Accepted = 1, oc_Duplicate = 0, oc_Plants = plants,
                              oc_Devices = devices, oc_Breaches = bs\<rparr>) db1)"

definition ingestRawReading ::
  "IngestEnv \<Rightarrow> MiddlewareClient \<Rightarrow> nat \<Rightarrow> string \<Rightarrow> normalizedRawReading \<Rightarrow> ingestOutcome tx" where
  "ingestRawReading env client k batchID nr =
     tx_bind (ingest_plant env client k nr)
       (\<lambda>(plant, plants).
          tx_bind (ingest_device env client k nr plant)
            (\<lambda>(device, devices).
               tx_bind (ensureModelRegisterMetadata client (dr_ModelID device)
                          (map (\<lambda>kv. (''reg'' @ fst kv, ''number'')) (rg_Map (nr_Reading nr)))
                          ''MIDDLEWARE_V2'')
                 (\<lambda>_. store_reading env client k batchID nr plant device plants devices)))"

subsection \<open>What the statements keep\<close>

text \<open>
  The unique indexes of the tables, and that the statements of the ingestion only add rows (and clear
  alarms): one relation between the database before and after, which every step of the transaction
  satisfies.
\<close>

definition plant_key :: "PlantRow \<Rightarrow> string \<times> string" where
  "plant_key p = (pr_OrganizationID p, pr_Code p)"

definition device_key :: "DeviceRow \<Rightarrow> string \<times> string \<times> string" where
  "device_key d = (dr_OrganizationID d, dr_PlantID d, dr_ExternalID d)"

definition model_key :: "DeviceModelRow \<Rightarrow> string \<times> string \<times> string" where
  "model_key m = (dm_OrganizationID m, dm_Manufacturer m, dm_Model m)"

definition metadata_key :: "MetadataRow \<Rightarrow> string \<times> string \<times> string" where
  "metadata_key m = (md_OrganizationID m, md_ModelID m, md_AddressKey m)"

definition batch_key :: "BatchRow \<Rightarrow> string \<times> string" where
  "batch_key b = (bt_ClientID b, bt_IdempotencyKey b)"

definition tables_ok :: "Db \<Rightarrow> bool" where
  "tables_ok db \<longleftrightarrow>
     distinct (map plant_key (db_Plants db)) \<and> distinct (map device_key (db_Devices db)) \<and>
     distinct (map model_key (db_Models db)) \<and> distinct (map profile_key (db_Profiles db)) \<and>
     distinct (map metadata_key (db_Metadata db)) \<and>
     distinct (map metadata_key (db_ProfileAddresses db)) \<and>
     distinct (map reading_key (db_Readings db)) \<and> events_ok db"

definition events_grow :: "AlarmEventRow list \<Rightarrow> AlarmEventRow list \<Rightarrow> bool" where
  "events_grow as bs \<longleftrightarrow> (\<exists>old new. bs = old @ new \<and> list_all2 event_kept as old)"

definition tables_grow :: "Db \<Rightarrow> Db \<Rightarrow> bool" where
  "tables_grow a b \<longleftrightarrow>
     prefix (db_Plants a) (db_Plants b) \<and> prefix (db_Devices a) (db_Devices b) \<and>
     prefix (db_Models a) (db_Models b) \<and> prefix (db_Profiles a) (db_Profiles b) \<and>
     prefix (db_Metadata a) (db_Metadata b) \<and>
     prefix (db_ProfileAddresses a) (db_ProfileAddresses b) \<and>
     prefix (db_Readings a) (db_Readings b) \<and> prefix (db_Audit a) (db_Audit b) \<and>
     db_Batches b = db_Batches a \<and> db_Rules b = db_Rules a \<and> db_LastSeen b = db_LastSeen a \<and>
     events_grow (db_Events a) (db_Events b) \<and> (tables_ok a \<longrightarrow> tables_ok b)"

lemma events_grow_refl [simp]: "events_grow es es"
  unfolding events_grow_def by (intro exI [of _ es] exI [of _ "[]"]) (simp add: list_all2_refl)

lemma events_grow_trans:
  assumes "events_grow as bs" and "events_grow bs cs"
  shows "events_grow as cs"
proof -
  obtain old new where o: "bs = old @ new" "list_all2 event_kept as old"
    using assms(1) by (auto simp: events_grow_def)
  obtain old' new' where o': "cs = old' @ new'" "list_all2 event_kept bs old'"
    using assms(2) by (auto simp: events_grow_def)
  from o o' obtain us vs where u: "old' = us @ vs" "list_all2 event_kept old us"
    by (auto simp: list_all2_append1)
  have "list_all2 event_kept as us" using event_kept_trans o(2) u(2) by (rule list_all2_trans)
  with o' u show ?thesis unfolding events_grow_def by (intro exI [of _ us] exI [of _ "vs @ new'"]) simp
qed

lemma reflp_tables_grow: "reflp tables_grow"
  by (simp add: reflp_def tables_grow_def)

lemma transp_tables_grow: "transp tables_grow"
proof (rule transpI)
  fix a b c
  assume "tables_grow a b" and "tables_grow b c"
  then show "tables_grow a c"
    unfolding tables_grow_def
    by (elim conjE; intro conjI)
      (erule (1) prefix_order.order_trans | erule (1) events_grow_trans | simp)+
qed

lemma log_grows_tables:
  assumes "log_grows a b" and "events_ok a \<longrightarrow> events_ok b"
  shows "tables_grow a b"
proof -
  have "events_grow (db_Events a) (db_Events b)"
    using assms(1) by (auto simp: log_grows_def events_grow_def)
  with assms show ?thesis
    by (simp add: tables_grow_def tables_ok_def log_grows_frame [OF assms(1)])
qed

lemma insert_or_get_prefix: "prefix rows (fst (insert_or_get p row rows))"
  by (rule insert_or_get_cases [of p row rows]) simp_all

lemma inventoryAudit_grows: "tables_grow db (inventoryAudit client action ty i db)"
  by (simp add: tables_grow_def inventoryAudit_def tables_ok_def events_ok_def)

lemma OnboardPlant_grows: "tables_grow db (fst (OnboardPlant row db))"
proof -
  let ?p = "\<lambda>p. pr_OrganizationID p = pr_OrganizationID row \<and> pr_Code p = pr_Code row"
  have "distinct (map plant_key (db_Plants db)) \<Longrightarrow>
      distinct (map plant_key (fst (insert_or_get ?p row (db_Plants db))))"
    by (erule insert_or_get_distinct) (simp add: plant_key_def)
  then show ?thesis
    using insert_or_get_prefix [of "db_Plants db" ?p row]
    by (simp add: OnboardPlant_def split_beta tables_grow_def tables_ok_def events_ok_def)
qed

lemma OnboardDevice_grows: "tables_grow db (fst (OnboardDevice row db))"
proof -
  let ?p = "\<lambda>d. dr_OrganizationID d = dr_OrganizationID row \<and>
    dr_PlantID d = dr_PlantID row \<and> dr_ExternalID d = dr_ExternalID row"
  have "distinct (map device_key (db_Devices db)) \<Longrightarrow>
      distinct (map device_key (fst (insert_or_get ?p row (db_Devices db))))"
    by (erule insert_or_get_distinct) (simp add: device_key_def)
  then show ?thesis
    using insert_or_get_prefix [of "db_Devices db" ?p row]
    by (simp add: OnboardDevice_def split_beta tables_grow_def tables_ok_def events_ok_def)
qed

lemma OnboardDeviceModel_grows:
  assumes "OnboardDeviceModel row db = Inr (db', m)"
  shows "tables_grow db db'"
proof (cases "select_one (same_model row) (db_Models db)")
  case (Some m')
  with assms have "db' = db" by (simp add: OnboardDeviceModel_def)
  then show ?thesis using reflp_tables_grow by (simp add: reflp_def)
next
  case None
  then have "\<forall>m \<in> set (db_Models db). model_key m \<noteq> model_key row"
    by (auto simp: select_one_def find_None_iff same_model_def model_key_def)
  moreover have "\<forall>q \<in> set (db_Profiles db). profile_key q \<noteq> profile_key (new_profile row)"
    and "db' = db\<lparr>db_Profiles := db_Profiles db @ [new_profile row], db_Models := db_Models db @ [row]\<rparr>"
    using assms None by (auto simp: OnboardDeviceModel_def split: if_splits)
  ultimately show ?thesis
    by (auto simp: tables_grow_def tables_ok_def events_ok_def)
qed

lemma ensure_key_grows:
  assumes "ensure_key row db = Inr (db', created)"
  shows "tables_grow db db'"
proof (rule insert_or_get_cases [of "same_metadata row" row "db_Metadata db"])
  fix old
  assume "insert_or_get (same_metadata row) row (db_Metadata db) = (db_Metadata db, old, False)"
  with assms have "db' = db" by (simp add: ensure_key_def)
  then show ?thesis using reflp_tables_grow by (simp add: reflp_def)
next
  assume i: "insert_or_get (same_metadata row) row (db_Metadata db) = (db_Metadata db @ [row], row, True)"
    and n: "\<forall>r \<in> set (db_Metadata db). \<not> same_metadata row r"
  have k: "same_metadata row r \<longleftrightarrow> metadata_key r = metadata_key row" for r
    by (auto simp: same_metadata_def metadata_key_def)
  have d: "distinct (map metadata_key rows) \<Longrightarrow> \<forall>r \<in> set rows. \<not> same_metadata row r \<Longrightarrow>
      distinct (map metadata_key (rows @ [row]))" for rows
    by (auto simp: k)
  from assms i have
    "db' = db\<lparr>db_Metadata := db_Metadata db @ [row]\<rparr> \<or>
     (\<forall>r \<in> set (db_ProfileAddresses db). \<not> same_metadata row r) \<and>
     db' = db\<lparr>db_Metadata := db_Metadata db @ [row],
               db_ProfileAddresses := db_ProfileAddresses db @ [row]\<rparr>"
    by (auto simp: ensure_key_def Let_def split: if_splits)
  then show ?thesis
    using n d [of "db_Metadata db"] d [of "db_ProfileAddresses db"]
    by (elim disjE conjE) (simp_all add: tables_grow_def tables_ok_def events_ok_def)
qed

lemma ensure_keys_grow:
  "ensure_keys rows db = Inr (db', added) \<Longrightarrow> tables_grow db db'"
proof (induction rows arbitrary: db added)
  case Nil
  then show ?case using reflp_tables_grow by (simp add: reflp_def)
next
  case (Cons row rows)
  then obtain db1 c added' where "ensure_key row db = Inr (db1, c)"
    and "ensure_keys rows db1 = Inr (db', added')"
    by (auto split: sum.splits)
  with Cons.IH ensure_key_grows transp_tables_grow show ?case by (blast dest: transpD)
qed

lemma grows_trans: "tables_grow a b \<Longrightarrow> tables_grow b c \<Longrightarrow> tables_grow a c"
  using transp_tables_grow by (blast dest: transpD)

lemma grows_refl [simp]: "tables_grow a a"
  using reflp_tables_grow by (simp add: reflp_def)

lemma ingest_plant_grows: "tx_rel tables_grow (ingest_plant env client k nr)"
  unfolding tx_rel_def
proof (intro allI impI)
  fix db db' r
  assume e: "ingest_plant env client k nr db = Inr (db', r)"
  let ?row = "\<lparr>pr_ID = ie_uuid env (U_plant k), pr_OrganizationID = cl_OrganizationID client,
    pr_Code = rg_PlantCode (nr_Reading nr), pr_Name = rg_PlantName (nr_Reading nr), pr_IsActive = True,
    pr_AlarmEmail = False, pr_NotifyRoleID = None\<rparr>"
  obtain db1 p c where o: "OnboardPlant ?row db = (db1, p, c)" by (cases "OnboardPlant ?row db") auto
  then have "tables_grow db db1" using OnboardPlant_grows [of db ?row] by simp
  with e o show "tables_grow db db'"
    by (auto simp: ingest_plant_def tx_reject_def tx_return_def Let_def
        split: option.splits if_splits
        intro: grows_trans inventoryAudit_grows)
qed

lemma ingest_device_grows: "tx_rel tables_grow (ingest_device env client k nr plant)"
  unfolding tx_rel_def
proof (intro allI impI)
  fix db db' r
  assume e: "ingest_device env client k nr plant db = Inr (db', r)"
  let ?m = "\<lparr>dm_ID = ie_uuid env (U_model k), dm_OrganizationID = cl_OrganizationID client,
    dm_Manufacturer = ''Middleware'', dm_Model = rg_Model (nr_Reading nr),
    dm_DeviceType = nr_DeviceType nr,
    dm_SourceTypeID = signed_take_bit 31 (rg_DevTypeID (nr_Reading nr)),
    dm_ProfileID = ie_uuid env (U_model k)\<rparr>"
  show "tables_grow db db'"
  proof (cases "OnboardDeviceModel ?m db")
    case (Inl err)
    with e show ?thesis
      by (auto simp: ingest_device_def tx_reject_def tx_return_def Let_def
          split: option.splits if_splits)
  next
    case (Inr x)
    then obtain db1 m where m: "OnboardDeviceModel ?m db = Inr (db1, m)" by (cases x) auto
    let ?d = "\<lparr>dr_ID = ie_uuid env (U_device k), dr_OrganizationID = cl_OrganizationID client,
      dr_PlantID = pr_ID plant, dr_ModelID = dm_ID m, dr_ExternalID = rg_DevDn (nr_Reading nr),
      dr_Name = rg_DevName (nr_Reading nr), dr_IsActive = True\<rparr>"
    obtain db2 d c where o: "OnboardDevice ?d db1 = (db2, d, c)" by (cases "OnboardDevice ?d db1") auto
    have "tables_grow db db1" using OnboardDeviceModel_grows [OF m] .
    moreover have "tables_grow db1 db2" using OnboardDevice_grows [of db1 ?d] o by simp
    ultimately have "tables_grow db db2" by (rule grows_trans)
    with e m o show ?thesis
      by (auto simp: ingest_device_def tx_reject_def tx_return_def Let_def
          split: option.splits if_splits
          intro: grows_trans inventoryAudit_grows)
  qed
qed

lemma metadata_grows: "tx_rel tables_grow (ensureModelRegisterMetadata client m items source)"
  unfolding tx_rel_def
  by (auto simp: ensureModelRegisterMetadata_def tx_return_def Let_def
      split: sum.splits if_splits intro: grows_trans inventoryAudit_grows dest: ensure_keys_grow)

lemma alarm_steps_grow_tables: "alarm_steps a b \<Longrightarrow> tables_grow a b"
  using alarm_steps_grow alarm_steps_events_ok by (blast intro: log_grows_tables)

lemma ingest_alarms_steps:
  assumes "ingest_alarms env si nr db = Inr (db', r)"
  shows "alarm_steps db db' \<and> (\<exists>bs. r = Inr bs)"
  using assms
  by (auto simp: ingest_alarms_def tx_return_def Let_def split: sum.splits
      intro: alarm_steps_trans dest!: evaluateAlarms_steps evaluateRegisterAlarms_steps)

lemma InsertRawRegisterReading_grows: "tables_grow db (fst (InsertRawRegisterReading row db))"
proof -
  let ?p = "\<lambda>w. reading_key w = reading_key row"
  have "distinct (map reading_key (db_Readings db)) \<Longrightarrow>
      distinct (map reading_key (fst (insert_or_get ?p row (db_Readings db))))"
    by (erule insert_or_get_distinct) simp
  then show ?thesis
    using insert_or_get_prefix [of "db_Readings db" ?p row]
    by (simp add: InsertRawRegisterReading_def split_beta tables_grow_def tables_ok_def events_ok_def)
qed

text \<open>What \<open>store_reading\<close> does to the readings: it counts one, and the reading is then in the table.\<close>

definition stored_key :: "IngestEnv \<Rightarrow> MiddlewareClient \<Rightarrow> normalizedRawReading \<Rightarrow> string \<times> string \<times> int" where
  "stored_key env client nr = (cl_ID client, external_key (ie_fmt_time env) nr, nr_ObservedAt nr)"

lemma store_reading_spec:
  assumes "store_reading env client k batchID nr plant device plants devices db = Inr (db', r)"
  shows "tables_grow db db' \<and>
     (\<exists>o'. r = Inr o' \<and> oc_Plants o' = plants \<and> oc_Devices o' = devices \<and>
        (if stored_key env client nr \<in> reading_key ` set (db_Readings db)
         then db' = db \<and> oc_Accepted o' = 0 \<and> oc_Duplicate o' = 1 \<and> oc_Breaches o' = []
         else db_Readings db' = db_Readings db @ [raw_row env client k batchID nr plant device] \<and>
              oc_Accepted o' = 1 \<and> oc_Duplicate o' = 0))"
proof -
  let ?row = "raw_row env client k batchID nr plant device"
  have key: "reading_key ?row = stored_key env client nr"
    by (simp add: reading_key_def stored_key_def raw_row_def)
  note g = InsertRawRegisterReading_grows [of db ?row]
  show ?thesis
  proof (rule insert_or_get_cases [of "\<lambda>w. reading_key w = reading_key ?row" ?row "db_Readings db"])
    fix old
    assume i: "insert_or_get (\<lambda>w. reading_key w = reading_key ?row) ?row (db_Readings db) =
        (db_Readings db, old, False)" and old: "old \<in> set (db_Readings db)" "reading_key old = reading_key ?row"
    then have "stored_key env client nr \<in> reading_key ` set (db_Readings db)"
      using key by (metis image_eqI)
    with assms i show ?thesis
      by (auto simp: store_reading_def InsertRawRegisterReading_def tx_return_def)
  next
    assume i: "insert_or_get (\<lambda>w. reading_key w = reading_key ?row) ?row (db_Readings db) =
        (db_Readings db @ [?row], ?row, True)" and n: "\<forall>w \<in> set (db_Readings db). reading_key w \<noteq> reading_key ?row"
    let ?db1 = "db\<lparr>db_Readings := db_Readings db @ [?row]\<rparr>"
    from assms i have b: "tx_bind (ingest_alarms env (site_of client plant device) nr)
        (\<lambda>bs. tx_return \<lparr>oc_Accepted = 1, oc_Duplicate = 0, oc_Plants = plants, oc_Devices = devices,
                         oc_Breaches = bs\<rparr>) ?db1 = Inr (db', r)"
      by (simp add: store_reading_def InsertRawRegisterReading_def)
    then obtain db2 s where a: "ingest_alarms env (site_of client plant device) nr ?db1 = Inr (db2, s)"
      by (cases "ingest_alarms env (site_of client plant device) nr ?db1") (auto simp: tx_bind_def)
    then obtain bs where s: "s = Inr bs" and st: "alarm_steps ?db1 db2"
      using ingest_alarms_steps by blast
    with a b have r: "db' = db2" "r = Inr \<lparr>oc_Accepted = 1, oc_Duplicate = 0, oc_Plants = plants,
        oc_Devices = devices, oc_Breaches = bs\<rparr>"
      by (simp_all add: tx_bind_def tx_return_def)
    have "tables_grow db ?db1" using g i by (simp add: InsertRawRegisterReading_def)
    then have "tables_grow db db'" using alarm_steps_grow_tables [OF st] r(1) by (simp add: grows_trans)
    moreover have "stored_key env client nr \<notin> reading_key ` set (db_Readings db)"
      using n key by (metis (no_types, lifting) imageE)
    moreover have "db_Readings db' = db_Readings db @ [?row]"
      using log_grows_frame(6) [OF alarm_steps_grow [OF st]] r(1) by simp
    ultimately show ?thesis using r(2) by simp
  qed
qed

subsection \<open>Only the reading's own statement adds a reading\<close>

definition same_readings :: "Db \<Rightarrow> Db \<Rightarrow> bool" where
  "same_readings a b \<longleftrightarrow> db_Readings b = db_Readings a"

lemma audit_readings [simp]: "db_Readings (inventoryAudit client action ty i db) = db_Readings db"
  by (simp add: inventoryAudit_def)

lemma ingest_plant_readings:
  "ingest_plant env client k nr db = Inr (db', r) \<Longrightarrow> db_Readings db' = db_Readings db"
  by (auto simp: ingest_plant_def tx_reject_def tx_return_def Let_def OnboardPlant_def split_beta
      split: option.splits if_splits)

lemma OnboardDeviceModel_readings:
  "OnboardDeviceModel row db = Inr (db', m) \<Longrightarrow> db_Readings db' = db_Readings db"
  by (auto simp: OnboardDeviceModel_def split: option.splits if_splits)

lemma ingest_device_readings:
  "ingest_device env client k nr plant db = Inr (db', r) \<Longrightarrow> db_Readings db' = db_Readings db"
  by (auto simp: ingest_device_def tx_reject_def tx_return_def Let_def OnboardDevice_def split_beta
      split: option.splits if_splits sum.splits dest!: OnboardDeviceModel_readings)

lemma ensure_keys_readings:
  "ensure_keys rows db = Inr (db', added) \<Longrightarrow> db_Readings db' = db_Readings db"
proof (induction rows arbitrary: db added)
  case Nil
  then show ?case by simp
next
  case (Cons row rows)
  then obtain db1 c added' where "ensure_key row db = Inr (db1, c)"
    and "ensure_keys rows db1 = Inr (db', added')"
    by (auto split: sum.splits)
  moreover from this(1) have "db_Readings db1 = db_Readings db"
    by (auto simp: ensure_key_def Let_def split_beta split: if_splits)
  ultimately show ?case using Cons.IH by simp
qed

lemma metadata_readings:
  "ensureModelRegisterMetadata client m items source db = Inr (db', r) \<Longrightarrow>
     db_Readings db' = db_Readings db \<and> r = Inr ()"
  by (auto simp: ensureModelRegisterMetadata_def tx_return_def Let_def
      split: sum.splits if_splits dest: ensure_keys_readings)

lemma tx_bind_InrE:
  assumes "tx_bind m f db = Inr (db', r)"
  obtains (rejected) e where "m db = Inr (db', Inl e)" and "r = Inl e"
  | (ran) db1 v where "m db = Inr (db1, Inr v)" and "f v db1 = Inr (db', r)"
  using assms by (auto simp: tx_bind_def split: sum.splits prod.splits intro: that)

text \<open>
  One reading: it is rejected and no reading is stored, or it is counted once, as accepted when its key
  was not in the table and as a duplicate when it was; then it is in the table.
\<close>

lemma ingestRawReading_spec:
  assumes "ingestRawReading env client k batchID nr db = Inr (db', r)"
  shows "tables_grow db db' \<and>
     (case r of
        Inl f \<Rightarrow> db_Readings db' = db_Readings db
      | Inr o' \<Rightarrow>
          oc_Accepted o' + oc_Duplicate o' = 1 \<and>
          stored_key env client nr \<in> reading_key ` set (db_Readings db') \<and>
          length (db_Readings db') = length (db_Readings db) + oc_Accepted o' \<and>
          (oc_Duplicate o' = 1 \<longleftrightarrow> stored_key env client nr \<in> reading_key ` set (db_Readings db)))"
  using assms unfolding ingestRawReading_def
proof (cases rule: tx_bind_InrE)
  case (rejected e)
  then show ?thesis
    using ingest_plant_grows [of env client k nr] ingest_plant_readings
    by (auto dest: tx_relD)
next
  case (ran db1 v)
  obtain plant plants where v: "v = (plant, plants)" by (cases v)
  have g1: "tables_grow db db1" using ingest_plant_grows ran(1) by (rule tx_relD)
  have r1: "db_Readings db1 = db_Readings db" using ran(1) by (rule ingest_plant_readings)
  from ran(2) have "tx_bind (ingest_device env client k nr plant)
      (\<lambda>(device, devices).
         tx_bind (ensureModelRegisterMetadata client (dr_ModelID device)
                    (map (\<lambda>kv. (''reg'' @ fst kv, ''number'')) (rg_Map (nr_Reading nr))) ''MIDDLEWARE_V2'')
           (\<lambda>_. store_reading env client k batchID nr plant device plants devices)) db1 = Inr (db', r)"
    by (simp add: v)
  then show ?thesis
  proof (cases rule: tx_bind_InrE)
    case (rejected e)
    then have "tables_grow db1 db'" using ingest_device_grows by (blast dest: tx_relD)
    with g1 r1 rejected show ?thesis
      using ingest_device_readings by (auto intro: grows_trans)
  next
    case (ran db2 w)
    obtain device devices where w: "w = (device, devices)" by (cases w)
    have g2: "tables_grow db1 db2" using ingest_device_grows ran(1) by (rule tx_relD)
    have r2: "db_Readings db2 = db_Readings db1" using ran(1) by (rule ingest_device_readings)
    from ran(2) have "tx_bind (ensureModelRegisterMetadata client (dr_ModelID device)
        (map (\<lambda>kv. (''reg'' @ fst kv, ''number'')) (rg_Map (nr_Reading nr))) ''MIDDLEWARE_V2'')
        (\<lambda>_. store_reading env client k batchID nr plant device plants devices) db2 = Inr (db', r)"
      by (simp add: w)
    then show ?thesis
    proof (cases rule: tx_bind_InrE)
      case (rejected e)
      then show ?thesis using metadata_readings by fastforce
    next
      case (ran db3 u)
      have g3: "tables_grow db2 db3" using metadata_grows ran(1) by (rule tx_relD)
      have r3: "db_Readings db3 = db_Readings db2" using metadata_readings [OF ran(1)] by simp
      from r1 r2 r3 have rd: "db_Readings db3 = db_Readings db" by simp
      from g1 g2 g3 have g: "tables_grow db db3" by (blast intro: grows_trans)
      from store_reading_spec [OF ran(2)] obtain o' where
        g4: "tables_grow db3 db'" and r: "r = Inr o'" and
        s: "if stored_key env client nr \<in> reading_key ` set (db_Readings db3)
            then db' = db3 \<and> oc_Accepted o' = 0 \<and> oc_Duplicate o' = 1 \<and> oc_Breaches o' = []
            else db_Readings db' = db_Readings db3 @ [raw_row env client k batchID nr plant device] \<and>
                 oc_Accepted o' = 1 \<and> oc_Duplicate o' = 0"
        by blast
      have "reading_key (raw_row env client k batchID nr plant device) = stored_key env client nr"
        by (simp add: reading_key_def stored_key_def raw_row_def)
      with s rd r g g4 show ?thesis
        by (auto simp: grows_trans split: if_splits)
    qed
  qed
qed

subsection \<open>Validated readings and their keys\<close>

lemma check_registers_ok:
  "check_registers kvs = None \<longleftrightarrow>
     list_all (\<lambda>(k, v). (\<exists>a. parse_int64 k = Some a \<and> 0 \<le> a \<and> a \<le> 65535) \<and> is_finite v) kvs"
  by (induction kvs rule: check_registers.induct) (auto split: option.splits)

lemma plantCodeRE_chars:
  "plantCodeRE s \<Longrightarrow> c \<in> set s \<Longrightarrow> upper_alnum c \<or> c \<in> set ''._=-''"
  unfolding plantCodeRE_def by (cases s) (auto simp: list_all_iff)

lemma plantCodeRE_no_colon: "plantCodeRE s \<Longrightarrow> CHR '':'' \<notin> set s"
  using plantCodeRE_chars [of s "CHR '':''"] by (auto simp: upper_alnum_def)

lemma validateRawReading_facts:
  assumes "validateRawReading r clientName now = Inr nr"
  shows "plantCodeRE (rg_PlantCode (nr_Reading nr))" "0 < length (rg_DevDn (nr_Reading nr))"
    "nr_ObservedAt nr = unix_milli (rg_CollectTime (nr_Reading nr))"
    "nr_Reading nr = trim_reading clientName r"
  using assms by (auto simp: validateRawReading_def Let_def split: if_splits option.splits)

lemma first_colon:
  assumes "p @ c # x = q @ c # y" and "c \<notin> set p" and "c \<notin> set q"
  shows "p = q \<and> x = y"
proof -
  have "takeWhile (\<lambda>d. d \<noteq> c) (p @ c # x) = p" "takeWhile (\<lambda>d. d \<noteq> c) (q @ c # y) = q"
    using assms(2,3) by (auto simp: takeWhile_append takeWhile_eq_all_conv)
  with assms(1) have "p = q" by simp
  with assms(1) show ?thesis by simp
qed

text \<open>
  C36: the key under which readings are de-duplicated never confuses two devices or two instants: when
  two validated readings of a client have the same stored key, they are of the same plant code, the same
  device and the same collect time. The device name may contain the separator, the plant code cannot.
\<close>

theorem stored_key_identifies:
  assumes "validateRawReading r1 name1 now1 = Inr n1" and "validateRawReading r2 name2 now2 = Inr n2"
    and "stored_key env client n1 = stored_key env client n2"
  shows "rg_PlantCode (nr_Reading n1) = rg_PlantCode (nr_Reading n2) \<and>
     rg_DevDn (nr_Reading n1) = rg_DevDn (nr_Reading n2) \<and>
     rg_CollectTime (nr_Reading n1) = rg_CollectTime (nr_Reading n2)"
proof -
  let ?p = "\<lambda>n. rg_PlantCode (nr_Reading n)" and ?d = "\<lambda>n. rg_DevDn (nr_Reading n)"
  have t: "nr_ObservedAt n1 = nr_ObservedAt n2"
    and k: "external_key (ie_fmt_time env) n1 = external_key (ie_fmt_time env) n2"
    using assms(3) by (simp_all add: stored_key_def)
  from k have "?p n1 @ CHR '':'' # (?d n1 @ '':'' @ ie_fmt_time env (nr_ObservedAt n1)) =
      ?p n2 @ CHR '':'' # (?d n2 @ '':'' @ ie_fmt_time env (nr_ObservedAt n2))"
    by (simp add: external_key_def)
  then have "?p n1 = ?p n2 \<and> ?d n1 @ '':'' @ ie_fmt_time env (nr_ObservedAt n1) =
      ?d n2 @ '':'' @ ie_fmt_time env (nr_ObservedAt n2)"
    by (rule first_colon [OF _ plantCodeRE_no_colon plantCodeRE_no_colon])
      (rule validateRawReading_facts(1) [OF assms(1)] validateRawReading_facts(1) [OF assms(2)])+
  moreover have "rg_CollectTime (nr_Reading n1) = rg_CollectTime (nr_Reading n2)"
    using t validateRawReading_facts(3) [OF assms(1)] validateRawReading_facts(3) [OF assms(2)]
    by (simp add: unix_milli_def)
  ultimately show ?thesis using t by simp
qed

definition sample_raw :: RawReading where
  "sample_raw =
     \<lparr>rg_GatewayID = ''gw'', rg_DevDn = ''INV:1'', rg_DevName = ''Inverter'', rg_PlantCode = ''p1'',
      rg_PlantName = ''Roof'', rg_DevTypeID = 1, rg_Model = ''STP'', rg_CollectTime = 1000,
      rg_Map = [(''40001'', F_Fin False 6)]\<rparr>"

definition sample_normal :: normalizedRawReading where
  "sample_normal =
     \<lparr>nr_Reading = sample_raw\<lparr>rg_PlantCode := ''P1''\<rparr>, nr_ObservedAt = 62135596801000000000,
      nr_DeviceType = ''DEV_TYPE_1''\<rparr>"

lemma itoa_1: "itoa 1 = ''1''"
  by (simp add: itoa_def nat_digits.simps digit_char_def char_of_alnum)

lemma sample_validates: "validateRawReading sample_raw ''client'' 62135596801000000000 = Inr sample_normal"
proof -
  have t: "trim_reading ''client'' sample_raw = sample_raw\<lparr>rg_PlantCode := ''P1''\<rparr>"
    by (simp add: trim_reading_def sample_raw_def or_else_def Let_def text_eval)
  have c: "check_registers (rg_Map sample_raw) = None"
    by (simp add: sample_raw_def parse_int64_def is_digit_def digits_value_def Let_def)
  have p: "plantCodeRE ''P1''" by (simp add: plantCodeRE_def upper_alnum_def)
  show ?thesis
    using c p
    by (simp add: validateRawReading_def t Let_def)
      (simp add: sample_raw_def sample_normal_def unix_milli_def deviceType_def itoa_1)
qed

theorem stored_key_identifies_witness:
  "rg_DevDn (nr_Reading sample_normal) = ''INV:1'' \<and>
   rg_PlantCode (nr_Reading sample_normal) = rg_PlantCode (nr_Reading sample_normal)"
  using stored_key_identifies [OF sample_validates sample_validates refl]
  by (simp add: sample_normal_def sample_raw_def)

text \<open>
  a reading that passes validation is within the bounds the tables have: a plant code of 1 to 100
  bytes of the permitted alphabet, a device id, names, model and gateway within 200 bytes, a positive
  device type, 1 to 5000 registers with an address of 16 bits and a finite value, and an instant that is
  at most ten minutes ahead of the server.
\<close>

theorem validateRawReading_sound:
  assumes "validateRawReading r clientName now = Inr nr"
  shows "let q = nr_Reading nr in
     plantCodeRE (rg_PlantCode q) \<and> length (rg_PlantCode q) \<le> 100 \<and>
     0 < length (rg_DevDn q) \<and> length (rg_DevDn q) \<le> 200 \<and> length (rg_DevName q) \<le> 200 \<and>
     0 < length (rg_DevName q) \<and> length (rg_PlantName q) \<le> 200 \<and> 0 < length (rg_PlantName q) \<and>
     0 < rg_DevTypeID q \<and> length (rg_Model q) \<le> 200 \<and> 0 < length (rg_Model q) \<and>
     0 < length (rg_GatewayID q) \<and> length (rg_GatewayID q) \<le> 200 \<and>
     0 < length (rg_Map q) \<and> length (rg_Map q) \<le> 5000 \<and>
     list_all (\<lambda>(k, v). (\<exists>a. parse_int64 k = Some a \<and> 0 \<le> a \<and> a \<le> 65535) \<and> is_finite v) (rg_Map q) \<and>
     unix_milli 0 < nr_ObservedAt nr \<and> nr_ObservedAt nr \<le> now + 600 * 1000000000"
proof -
  let ?q = "trim_reading clientName r"
  have nonempty: "rg_DevDn ?q \<noteq> [] \<Longrightarrow> rg_DevName ?q \<noteq> []"
    "rg_PlantCode ?q \<noteq> [] \<Longrightarrow> rg_PlantName ?q \<noteq> []" "rg_Model ?q \<noteq> []"
    by (simp_all add: trim_reading_def Let_def or_else_def deviceType_def)
  have nr: "nr = \<lparr>nr_Reading = ?q, nr_ObservedAt = unix_milli (rg_CollectTime ?q), nr_DeviceType = deviceType ?q\<rparr>"
    and code: "\<not> (length (rg_PlantCode ?q) = 0 \<or> 100 < length (rg_PlantCode ?q) \<or> \<not> plantCodeRE (rg_PlantCode ?q))"
    and ident: "\<not> (length (rg_DevDn ?q) = 0 \<or> 200 < length (rg_DevDn ?q) \<or> 200 < length (rg_DevName ?q) \<or>
      200 < length (rg_PlantName ?q))"
    and dev: "\<not> (rg_DevTypeID ?q \<le> 0 \<or> 200 < length (rg_Model ?q) \<or> length (rg_GatewayID ?q) = 0 \<or>
      200 < length (rg_GatewayID ?q))"
    and regs: "\<not> (rg_CollectTime ?q \<le> 0 \<or> length (rg_Map ?q) = 0 \<or> 5000 < length (rg_Map ?q))"
      "check_registers (rg_Map ?q) = None"
    and fut: "\<not> now + 600 * 1000000000 < unix_milli (rg_CollectTime ?q)"
    using assms unfolding validateRawReading_def Let_def
    by (simp_all only: split: if_splits option.splits) simp_all
  show ?thesis
    unfolding Let_def nr normalizedRawReading.simps
    using code ident dev regs fut nonempty
    by (intro conjI) (simp_all add: check_registers_ok unix_milli_def)
qed

theorem validateRawReading_sound_witness:
  "plantCodeRE ''P1'' \<and> nr_ObservedAt sample_normal \<le> 62135596801000000000 + 600 * 1000000000"
  using validateRawReading_sound [OF sample_validates]
  by (simp add: Let_def sample_normal_def)

end
