(* ===== verification/Ingestion.thy ===== *)
theory Ingestion
  imports IngestReading
begin

section \<open>internal/ingestion: batches, idempotency and their result\<close>

text \<open>
  \<open>IngestRaw\<close> stores a batch in one transaction under an idempotency key. How the transaction ends is a
  parameter: it commits; a statement or the commit fails and everything rolls back; or the commit is
  done but its reply is lost, so that the caller sees an error although the batch is stored.
\<close>

record Result =
  rs_IngestionID :: string
  rs_Status :: string
  rs_Accepted :: nat
  rs_Duplicate :: nat
  rs_Rejected :: nat
  rs_Plants :: nat
  rs_Devices :: nat
  rs_Errors :: "RecordError list"

record RawBatch =
  rb_SchemaVersion :: string
  rb_Data :: "RawReading list"

datatype TxEnd = Tx_commit | Tx_fails string | Tx_reply_lost string

definition ErrUnauthenticated :: string where
  "ErrUnauthenticated = ''invalid middleware API key''"

definition ErrInvalidBatch :: string where
  "ErrInvalidBatch = ''invalid telemetry batch''"

definition ErrIdempotencyConflict :: string where
  "ErrIdempotencyConflict = ''idempotency key already used for another payload''"

text \<open>
  \<open>Authenticate\<close>: only the SHA-256 of a key is stored; \<open>clients\<close> are the rows of
  \<open>auth.middleware_client\<close> with their hash and \<open>is_active\<close>.
\<close>

definition Authenticate ::
  "(string \<Rightarrow> string) \<Rightarrow> (string \<times> bool \<times> MiddlewareClient) list \<Rightarrow> string \<Rightarrow> string + MiddlewareClient" where
  "Authenticate sha clients presented =
     (let key = trim_space presented in
      if length key < 24 \<or> 200 < length key then Inl ErrUnauthenticated
      else (case select_one (\<lambda>(h, active, c). h = sha key \<and> active) clients of
              None \<Rightarrow> Inl ErrUnauthenticated
            | Some (h, active, c) \<Rightarrow> Inr c))"

definition new_batch :: "string \<Rightarrow> MiddlewareClient \<Rightarrow> string \<Rightarrow> string \<Rightarrow> BatchRow" where
  "new_batch i client key hash =
     \<lparr>bt_ID = i, bt_OrganizationID = cl_OrganizationID client, bt_ClientID = cl_ID client,
      bt_IdempotencyKey = key, bt_PayloadHash = hash, bt_Status = ''PROCESSING'', bt_Accepted = 0,
      bt_Duplicate = 0, bt_Rejected = 0, bt_Plants = 0, bt_Devices = 0, bt_Errors = []\<rparr>"

definition CreateOrGetIngestBatch :: "BatchRow \<Rightarrow> Db \<Rightarrow> Db \<times> BatchRow" where
  "CreateOrGetIngestBatch row db =
     (let (rows, b, _) = insert_or_get (\<lambda>b. batch_key b = batch_key row) row (db_Batches db)
      in (db\<lparr>db_Batches := rows\<rparr>, b))"

definition resultFromStored :: "BatchRow \<Rightarrow> Result" where
  "resultFromStored b =
     \<lparr>rs_IngestionID = bt_ID b, rs_Status = to_lower (bt_Status b), rs_Accepted = bt_Accepted b,
      rs_Duplicate = bt_Duplicate b, rs_Rejected = bt_Rejected b, rs_Plants = bt_Plants b,
      rs_Devices = bt_Devices b, rs_Errors = bt_Errors b\<rparr>"

definition CompleteIngestBatch :: "string \<Rightarrow> Result \<Rightarrow> Db \<Rightarrow> Db" where
  "CompleteIngestBatch i res db =
     db\<lparr>db_Batches := update_where (\<lambda>b. bt_ID b = i)
          (\<lambda>b. b\<lparr>bt_Accepted := rs_Accepted res, bt_Duplicate := rs_Duplicate res,
                 bt_Rejected := rs_Rejected res, bt_Plants := rs_Plants res, bt_Devices := rs_Devices res,
                 bt_Errors := rs_Errors res, bt_Status := ''PROCESSED''\<rparr>) (db_Batches db)\<rparr>"

definition TouchMiddlewareClient :: "string \<Rightarrow> int \<Rightarrow> Db \<Rightarrow> Db" where
  "TouchMiddlewareClient i t db = db\<lparr>db_LastSeen := (db_LastSeen db)(i \<mapsto> t)\<rparr>"

text \<open>The loop over the readings of a batch; \<open>k\<close> is the index.\<close>

definition reject_reading :: "nat \<Rightarrow> string \<Rightarrow> string \<Rightarrow> Result \<Rightarrow> Result" where
  "reject_reading k code msg res =
     res\<lparr>rs_Rejected := rs_Rejected res + 1,
         rs_Errors := rs_Errors res @ [\<lparr>re_Index = k, re_Code = code, re_Message = msg\<rparr>]\<rparr>"

definition add_outcome :: "ingestOutcome \<Rightarrow> Result \<Rightarrow> Result" where
  "add_outcome o' res =
     res\<lparr>rs_Accepted := rs_Accepted res + oc_Accepted o', rs_Duplicate := rs_Duplicate res + oc_Duplicate o',
         rs_Plants := rs_Plants res + oc_Plants o', rs_Devices := rs_Devices res + oc_Devices o'\<rparr>"

fun ingest_loop ::
  "IngestEnv \<Rightarrow> MiddlewareClient \<Rightarrow> int \<Rightarrow> string \<Rightarrow> nat \<Rightarrow> RawReading list \<Rightarrow> Db \<Rightarrow> Result \<Rightarrow> alarmBreach list \<Rightarrow>
     string + Db \<times> Result \<times> alarmBreach list" where
  "ingest_loop env client now batchID k [] db res bs = Inr (db, res, bs)"
| "ingest_loop env client now batchID k (r # rs) db res bs =
     (case validateRawReading r (cl_Name client) now of
        Inl e \<Rightarrow> ingest_loop env client now batchID (k + 1) rs db (reject_reading k ''INVALID_READING'' e res) bs
      | Inr nr \<Rightarrow>
          (case ingestRawReading env client k batchID nr db of
             Inl e \<Rightarrow> Inl e
           | Inr (db1, Inl f) \<Rightarrow>
               ingest_loop env client now batchID (k + 1) rs db1
                 (reject_reading k (rf_Code f) (rf_Message f) res) bs
           | Inr (db1, Inr o') \<Rightarrow>
               ingest_loop env client now batchID (k + 1) rs db1 (add_outcome o' res)
                 (bs @ oc_Breaches o')))"

definition empty_result :: "string \<Rightarrow> Result" where
  "empty_result i =
     \<lparr>rs_IngestionID = i, rs_Status = ''accepted'', rs_Accepted = 0, rs_Duplicate = 0, rs_Rejected = 0,
      rs_Plants = 0, rs_Devices = 0, rs_Errors = []\<rparr>"

text \<open>What the transaction does once the batch row is its own.\<close>

definition ingest_batch ::
  "IngestEnv \<Rightarrow> MiddlewareClient \<Rightarrow> int \<Rightarrow> RawReading list \<Rightarrow> Db \<Rightarrow> string + Db \<times> Result \<times> alarmBreach list" where
  "ingest_batch env client now data db =
     (let batchID = ie_uuid env U_batch in
      case ingest_loop env client now batchID 0 data db (empty_result batchID) [] of
        Inl e \<Rightarrow> Inl e
      | Inr (db1, res, bs) \<Rightarrow>
          Inr (TouchMiddlewareClient (cl_ID client) (ie_dbnow env) (CompleteIngestBatch batchID res db1), res, bs))"

definition batch_guard :: "MiddlewareClient \<Rightarrow> RawBatch \<Rightarrow> bool" where
  "batch_guard client batch \<longleftrightarrow>
     rb_SchemaVersion batch \<noteq> RawSchemaVersion \<or> length (rb_Data batch) = 0 \<or>
     500 < length (rb_Data batch) \<or> cl_ID client = [] \<or> cl_OrganizationID client = []"

definition batch_idempotency_key :: "IngestEnv \<Rightarrow> string \<Rightarrow> string \<Rightarrow> string" where
  "batch_idempotency_key env key raw =
     (let key = trim_space key in if key = [] then ''sha256:'' @ ie_sha env raw else key)"

text \<open>
  \<open>IngestRaw\<close>; the breaches of the result are what \<open>notifyAlarmBreaches\<close> is started with after the
  commit (when the mailer is configured).
\<close>

definition IngestRaw ::
  "IngestEnv \<Rightarrow> TxEnd \<Rightarrow> MiddlewareClient \<Rightarrow> string \<Rightarrow> string \<Rightarrow> RawBatch \<Rightarrow> int \<Rightarrow> Db \<Rightarrow>
     Db \<times> (string + Result \<times> alarmBreach list)" where
  "IngestRaw env txend client key0 raw batch now db =
     (let key = batch_idempotency_key env key0 raw; batchID = ie_uuid env U_batch in
      if batch_guard client batch \<or> 200 < length key then (db, Inl ErrInvalidBatch)
      else (case txend of
              Tx_fails e \<Rightarrow> (db, Inl e)
            | _ \<Rightarrow>
                let (db1, stored) = CreateOrGetIngestBatch (new_batch batchID client key (ie_sha env raw)) db in
                if bt_ID stored \<noteq> batchID then
                  (if bt_PayloadHash stored \<noteq> ie_sha env raw then (db, Inl ErrIdempotencyConflict)
                   else (db, Inr ((resultFromStored stored)\<lparr>rs_Status := ''duplicate''\<rparr>, [])))
                else (case ingest_batch env client now (rb_Data batch) db1 of
                        Inl e \<Rightarrow> (db, Inl e)
                      | Inr (db2, res, bs) \<Rightarrow>
                          (case txend of
                             Tx_reply_lost e \<Rightarrow> (db2, Inl e)
                           | _ \<Rightarrow> (db2, Inr (res, bs))))))"

subsection \<open>The loop\<close>

definition reading_settled ::
  "IngestEnv \<Rightarrow> MiddlewareClient \<Rightarrow> int \<Rightarrow> nat \<Rightarrow> RawReading \<Rightarrow> Db \<Rightarrow> Result \<Rightarrow> bool" where
  "reading_settled env client now k r db res \<longleftrightarrow>
     k \<in> re_Index ` set (rs_Errors res) \<or>
     (\<exists>nr. validateRawReading r (cl_Name client) now = Inr nr \<and>
           stored_key env client nr \<in> reading_key ` set (db_Readings db))"

definition loop_ok :: "Db \<Rightarrow> Result \<Rightarrow> Db \<Rightarrow> Result \<Rightarrow> nat \<Rightarrow> bool" where
  "loop_ok db res db' res' n \<longleftrightarrow>
     tables_grow db db' \<and> prefix (rs_Errors res) (rs_Errors res') \<and>
     rs_IngestionID res' = rs_IngestionID res \<and> rs_Status res' = rs_Status res \<and>
     rs_Accepted res' + rs_Duplicate res' + rs_Rejected res' =
       rs_Accepted res + rs_Duplicate res + rs_Rejected res + n \<and>
     length (rs_Errors res') + rs_Rejected res = length (rs_Errors res) + rs_Rejected res' \<and>
     length (db_Readings db') + rs_Accepted res = length (db_Readings db) + rs_Accepted res'"

lemma loop_ok_refl: "loop_ok db res db res 0"
  by (simp add: loop_ok_def)

lemma loop_ok_trans:
  assumes "loop_ok a ra b rb m" and "loop_ok b rb c rc n"
  shows "loop_ok a ra c rc (m + n)"
proof -
  have "tables_grow a c" using assms unfolding loop_ok_def by (blast intro: grows_trans)
  moreover have "prefix (rs_Errors ra) (rs_Errors rc)"
    using assms unfolding loop_ok_def by (blast intro: prefix_order.order_trans)
  ultimately show ?thesis using assms unfolding loop_ok_def
    by (elim conjE, intro conjI) (assumption | linarith | simp)+
qed

lemma loop_ok_reject:
  assumes "tables_grow db db'" and "db_Readings db' = db_Readings db"
  shows "loop_ok db res db' (reject_reading k c m res) 1"
  using assms by (simp add: loop_ok_def reject_reading_def)

lemma loop_ok_outcome:
  assumes "tables_grow db db'" and "oc_Accepted o' + oc_Duplicate o' = 1"
    and "length (db_Readings db') = length (db_Readings db) + oc_Accepted o'"
  shows "loop_ok db res db' (add_outcome o' res) 1"
  using assms by (simp add: loop_ok_def add_outcome_def)

lemma settled_mono:
  assumes "loop_ok db res db' res' n" and "reading_settled env client now k r db res"
  shows "reading_settled env client now k r db' res'"
proof -
  have "set (rs_Errors res) \<subseteq> set (rs_Errors res')" "set (db_Readings db) \<subseteq> set (db_Readings db')"
    using assms(1) by (auto simp: loop_ok_def tables_grow_def dest: set_mono_prefix)
  with assms(2) show ?thesis unfolding reading_settled_def by blast
qed

text \<open>One reading of the loop.\<close>

lemma ingest_loop_Cons:
  assumes "ingest_loop env client now batchID k (r # rs) db res bs = Inr out"
  obtains db1 res1 bs1 where "loop_ok db res db1 res1 1" and "reading_settled env client now k r db1 res1"
    and "ingest_loop env client now batchID (k + 1) rs db1 res1 bs1 = Inr out"
proof (cases "validateRawReading r (cl_Name client) now")
  case (Inl e)
  let ?res = "reject_reading k ''INVALID_READING'' e res"
  have "loop_ok db res db ?res 1" by (rule loop_ok_reject) simp_all
  moreover have "reading_settled env client now k r db ?res"
    by (simp add: reading_settled_def reject_reading_def)
  ultimately show thesis using assms Inl that by simp
next
  case (Inr nr)
  then obtain db1 s where i: "ingestRawReading env client k batchID nr db = Inr (db1, s)"
    using assms by (auto split: sum.splits)
  note spec = ingestRawReading_spec [OF i]
  show thesis
  proof (cases s)
    case (Inl f)
    let ?res = "reject_reading k (rf_Code f) (rf_Message f) res"
    have "loop_ok db res db1 ?res 1" using spec Inl by (intro loop_ok_reject) simp_all
    moreover have "reading_settled env client now k r db1 ?res"
      by (simp add: reading_settled_def reject_reading_def)
    ultimately show thesis using assms Inr i Inl that by simp
  next
    case (Inr o')
    have "loop_ok db res db1 (add_outcome o' res) 1" using spec Inr by (intro loop_ok_outcome) simp_all
    moreover have "reading_settled env client now k r db1 (add_outcome o' res)"
      using spec Inr \<open>validateRawReading r (cl_Name client) now = Inr nr\<close>
      by (auto simp: reading_settled_def)
    ultimately show thesis
      using assms \<open>validateRawReading r (cl_Name client) now = Inr nr\<close> i Inr that by simp
  qed
qed

lemma ingest_loop_spec:
  assumes "ingest_loop env client now batchID k rs db res bs = Inr (db', res', bs')"
  shows "loop_ok db res db' res' (length rs) \<and>
     (\<forall>j < length rs. reading_settled env client now (k + j) (rs ! j) db' res')"
  using assms
proof (induction rs arbitrary: k db res bs)
  case Nil
  then show ?case by (simp add: loop_ok_refl)
next
  case (Cons r rs)
  from Cons.prems obtain db1 res1 bs1 where
    one: "loop_ok db res db1 res1 1" "reading_settled env client now k r db1 res1" and
    rest: "ingest_loop env client now batchID (k + 1) rs db1 res1 bs1 = Inr (db', res', bs')"
    by (rule ingest_loop_Cons)
  from Cons.IH [OF rest] have ih: "loop_ok db1 res1 db' res' (length rs)"
    "\<forall>j < length rs. reading_settled env client now (k + 1 + j) (rs ! j) db' res'" by simp_all
  have "reading_settled env client now k r db' res'" using ih(1) one(2) by (rule settled_mono)
  with ih(2) have "reading_settled env client now (k + j) ((r # rs) ! j) db' res'" if "j < length (r # rs)" for j
    using that by (cases j) simp_all
  then show ?case using loop_ok_trans [OF one(1) ih(1)] by simp
qed

subsection \<open>The batch\<close>

lemma batches_unchanged: "tables_grow a b \<Longrightarrow> db_Batches b = db_Batches a"
  by (simp add: tables_grow_def)

definition completed_row :: "Result \<Rightarrow> BatchRow \<Rightarrow> BatchRow" where
  "completed_row res b =
     b\<lparr>bt_Accepted := rs_Accepted res, bt_Duplicate := rs_Duplicate res, bt_Rejected := rs_Rejected res,
       bt_Plants := rs_Plants res, bt_Devices := rs_Devices res, bt_Errors := rs_Errors res,
       bt_Status := ''PROCESSED''\<rparr>"

text \<open>Adding or completing batch rows leaves the invariants of the other tables.\<close>

lemma tables_ok_batches [simp]: "tables_ok (db\<lparr>db_Batches := bs\<rparr>) = tables_ok db"
  by (simp add: tables_ok_def events_ok_def)

lemma tables_ok_seen [simp]: "tables_ok (db\<lparr>db_LastSeen := f\<rparr>) = tables_ok db"
  by (simp add: tables_ok_def events_ok_def)

text \<open>A batch whose key is new runs its readings and completes its own row.\<close>

lemma IngestRaw_accepted:
  assumes "IngestRaw env txend client key raw batch now db = (db', Inr (res, bs))"
    and "rs_Status res = ''accepted''"
    and "ie_uuid env U_batch \<notin> bt_ID ` set (db_Batches db)"
  obtains db1 where
    "\<not> batch_guard client batch" "length (batch_idempotency_key env key raw) \<le> 200"
    "\<forall>b \<in> set (db_Batches db). batch_key b \<noteq> (cl_ID client, batch_idempotency_key env key raw)"
    "loop_ok db (empty_result (ie_uuid env U_batch)) db1 res (length (rb_Data batch))"
    "\<forall>j < length (rb_Data batch). reading_settled env client now j (rb_Data batch ! j) db1 res"
    "db' = db1\<lparr>db_Batches := db_Batches db @
        [completed_row res (new_batch (ie_uuid env U_batch) client (batch_idempotency_key env key raw)
                              (ie_sha env raw))],
       db_LastSeen := (db_LastSeen db1)(cl_ID client \<mapsto> ie_dbnow env)\<rparr>"
proof -
  let ?key = "batch_idempotency_key env key raw" and ?id = "ie_uuid env U_batch"
  let ?row = "new_batch ?id client ?key (ie_sha env raw)"
  have guard: "\<not> batch_guard client batch" "length ?key \<le> 200" and nf: "\<And>e. txend \<noteq> Tx_fails e"
    using assms(1) by (auto simp: IngestRaw_def Let_def split: if_splits TxEnd.splits)
  show thesis
  proof (rule insert_or_get_cases [of "\<lambda>b. batch_key b = batch_key ?row" ?row "db_Batches db"])
    fix old
    assume i: "insert_or_get (\<lambda>b. batch_key b = batch_key ?row) ?row (db_Batches db) =
      (db_Batches db, old, False)" and old: "old \<in> set (db_Batches db)"
    have "bt_ID old \<noteq> ?id" using assms(3) old by (metis image_eqI)
    with assms(1,2) guard nf i show thesis
      by (auto simp: IngestRaw_def Let_def CreateOrGetIngestBatch_def split: if_splits TxEnd.splits)
  next
    assume i: "insert_or_get (\<lambda>b. batch_key b = batch_key ?row) ?row (db_Batches db) =
      (db_Batches db @ [?row], ?row, True)"
      and n: "\<forall>b \<in> set (db_Batches db). batch_key b \<noteq> batch_key ?row"
    let ?db0 = "db\<lparr>db_Batches := db_Batches db @ [?row]\<rparr>"
    have "bt_ID ?row = ?id" by (simp add: new_batch_def)
    with assms(1) guard nf i have "ingest_batch env client now (rb_Data batch) ?db0 = Inr (db', res, bs)"
      by (auto simp: IngestRaw_def Let_def CreateOrGetIngestBatch_def
          split: if_splits TxEnd.splits sum.splits)
    then obtain db2 where
      l: "ingest_loop env client now ?id 0 (rb_Data batch) ?db0 (empty_result ?id) [] = Inr (db2, res, bs)"
      and db': "db' = TouchMiddlewareClient (cl_ID client) (ie_dbnow env) (CompleteIngestBatch ?id res db2)"
      by (auto simp: ingest_batch_def Let_def split: sum.splits)
    from ingest_loop_spec [OF l] have
      lo: "loop_ok ?db0 (empty_result ?id) db2 res (length (rb_Data batch))" and
      se: "\<forall>j < length (rb_Data batch). reading_settled env client now j (rb_Data batch ! j) db2 res"
      by simp_all
    have b2: "db_Batches db2 = db_Batches db @ [?row]"
      using lo batches_unchanged unfolding loop_ok_def by fastforce
    have "update_where (\<lambda>b. bt_ID b = ?id) f (db_Batches db @ [?row]) = db_Batches db @ [f ?row]" for f
    proof -
      have "\<forall>b \<in> set (db_Batches db). bt_ID b \<noteq> ?id" using assms(3) by (metis image_eqI)
      then have "update_where (\<lambda>b. bt_ID b = ?id) f (db_Batches db) = db_Batches db"
        by (rule update_where_none)
      then show ?thesis by (simp add: update_where_def new_batch_def)
    qed
    with b2 have c: "CompleteIngestBatch ?id res db2 =
        db2\<lparr>db_Batches := db_Batches db @ [completed_row res ?row]\<rparr>"
      by (simp add: CompleteIngestBatch_def completed_row_def)
    let ?db1 = "db2\<lparr>db_Batches := db_Batches db\<rparr>"
    have "loop_ok db (empty_result ?id) ?db1 res (length (rb_Data batch))"
      using lo by (simp add: loop_ok_def tables_grow_def)
    moreover have "\<forall>j < length (rb_Data batch). reading_settled env client now j (rb_Data batch ! j) ?db1 res"
      using se by (simp add: reading_settled_def)
    moreover have "\<forall>b \<in> set (db_Batches db). batch_key b \<noteq> (cl_ID client, ?key)"
      using n by (simp add: batch_key_def new_batch_def)
    ultimately show thesis
      using that [of ?db1] guard db' c by (simp add: TouchMiddlewareClient_def)
  qed
qed

text \<open>
  C32: an accepted batch accounts for every reading. Accepted, duplicate and rejected readings add up to
  the batch; there is one error per rejected reading; the table of readings grows by exactly the accepted
  ones, rows that were there stay; each reading of the batch is either named in the errors by its index
  or is in the table under its key; and the unique keys of all tables and the state of the alarm log
  hold again.
\<close>

theorem IngestRaw_accounts:
  assumes "IngestRaw env txend client key raw batch now db = (db', Inr (res, bs))"
    and "rs_Status res = ''accepted''"
    and "ie_uuid env U_batch \<notin> bt_ID ` set (db_Batches db)" and "tables_ok db"
  shows "rs_Accepted res + rs_Duplicate res + rs_Rejected res = length (rb_Data batch) \<and>
     length (rs_Errors res) = rs_Rejected res \<and>
     prefix (db_Readings db) (db_Readings db') \<and>
     length (db_Readings db') = length (db_Readings db) + rs_Accepted res \<and>
     (\<forall>k < length (rb_Data batch). reading_settled env client now k (rb_Data batch ! k) db' res) \<and>
     tables_ok db'"
proof -
  obtain db1 where lo: "loop_ok db (empty_result (ie_uuid env U_batch)) db1 res (length (rb_Data batch))"
    and se: "\<forall>j < length (rb_Data batch). reading_settled env client now j (rb_Data batch ! j) db1 res"
    and db': "db' = db1\<lparr>db_Batches := db_Batches db @
        [completed_row res (new_batch (ie_uuid env U_batch) client (batch_idempotency_key env key raw)
                              (ie_sha env raw))],
       db_LastSeen := (db_LastSeen db1)(cl_ID client \<mapsto> ie_dbnow env)\<rparr>"
    by (rule IngestRaw_accepted [OF assms(1-3)])
  have "tables_grow db db1" using lo by (simp add: loop_ok_def)
  then have "prefix (db_Readings db) (db_Readings db1)" "tables_ok db1"
    using assms(4) by (simp_all add: tables_grow_def)
  moreover have "\<forall>k < length (rb_Data batch). reading_settled env client now k (rb_Data batch ! k) db' res"
    using se by (simp add: reading_settled_def db')
  ultimately show ?thesis
    using lo by (simp add: loop_ok_def empty_result_def db')
qed

text \<open>
  C31: sending a batch again is safe. Once a batch has been committed, even when the reply was lost and
  the gateway saw an error, sending the same payload under the same key answers with the counts of the
  first run, marked duplicate, and changes nothing at all: no row, no alarm and no notification. This
  holds in every later state of the database that still has the batch's row. The same key with another
  payload is refused.
\<close>

theorem IngestRaw_replay:
  assumes "snd (IngestRaw env Tx_commit client key raw batch now db) = Inr (res, bs)"
    and "rs_Status res = ''accepted''"
    and "ie_uuid env U_batch \<notin> bt_ID ` set (db_Batches db)"
    and "t = Tx_commit \<or> t = Tx_reply_lost e"
    and "set (db_Batches (fst (IngestRaw env t client key raw batch now db))) \<subseteq> set (db_Batches later)"
    and "distinct (map batch_key (db_Batches later))"
    and "ie_uuid env' U_batch \<notin> bt_ID ` set (db_Batches later)" and "ie_sha env' = ie_sha env"
    and "\<forall>f. t' \<noteq> Tx_fails f"
  shows "IngestRaw env' t' client key raw batch now' later =
           (later, Inr (res\<lparr>rs_Status := ''duplicate''\<rparr>, [])) \<and>
         (batch_idempotency_key env key raw' = batch_idempotency_key env key raw \<and>
          ie_sha env raw' \<noteq> ie_sha env raw \<longrightarrow>
          IngestRaw env' t' client key raw' batch now' later = (later, Inl ErrIdempotencyConflict))"
proof -
  let ?key = "batch_idempotency_key env key raw" and ?id = "ie_uuid env U_batch"
  let ?row = "completed_row res (new_batch ?id client ?key (ie_sha env raw))"
  have e1: "IngestRaw env Tx_commit client key raw batch now db =
      (fst (IngestRaw env Tx_commit client key raw batch now db), Inr (res, bs))"
    using assms(1) by (metis prod.collapse)
  have same: "fst (IngestRaw env t client key raw batch now db) =
      fst (IngestRaw env Tx_commit client key raw batch now db)"
    using assms(4)
    by (auto simp: IngestRaw_def Let_def split_beta split: sum.splits)
  from IngestRaw_accepted [OF e1 assms(2,3)] obtain db1 where
    g: "\<not> batch_guard client batch" "length ?key \<le> 200" and
    lo: "loop_ok db (empty_result ?id) db1 res (length (rb_Data batch))" and
    db': "fst (IngestRaw env Tx_commit client key raw batch now db) =
      db1\<lparr>db_Batches := db_Batches db @ [?row],
          db_LastSeen := (db_LastSeen db1)(cl_ID client \<mapsto> ie_dbnow env)\<rparr>"
    by metis
  have in_later: "?row \<in> set (db_Batches later)" using assms(5) same db' by simp
  have bk: "batch_key ?row = (cl_ID client, ?key)"
    by (simp add: completed_row_def new_batch_def batch_key_def)
  have k': "batch_idempotency_key env' key r = batch_idempotency_key env key r" for r
    using assms(8) by (simp add: batch_idempotency_key_def Let_def)
  have found: "find (\<lambda>b. batch_key b = (cl_ID client, ?key)) (db_Batches later) = Some ?row"
  proof (cases "find (\<lambda>b. batch_key b = (cl_ID client, ?key)) (db_Batches later)")
    case None
    with in_later bk show ?thesis by (auto simp: find_None_iff)
  next
    case (Some b)
    then have b: "b \<in> set (db_Batches later)" "batch_key b = (cl_ID client, ?key)"
      by (auto simp: find_Some_iff)
    with in_later bk assms(6) have "b = ?row" by (metis distinct_map inj_onD)
    with Some show ?thesis by simp
  qed
  have get: "CreateOrGetIngestBatch (new_batch (ie_uuid env' U_batch) client ?key h) later = (later, ?row)" for h
    using found by (simp add: CreateOrGetIngestBatch_def insert_or_get_def batch_key_def new_batch_def)
  have new: "bt_ID ?row \<noteq> ie_uuid env' U_batch" using in_later assms(7) by (metis image_eqI)
  have hash: "bt_PayloadHash ?row = ie_sha env raw" by (simp add: completed_row_def new_batch_def)
  have stored: "(resultFromStored ?row)\<lparr>rs_Status := ''duplicate''\<rparr> = res\<lparr>rs_Status := ''duplicate''\<rparr>"
    using lo by (simp add: resultFromStored_def completed_row_def new_batch_def loop_ok_def empty_result_def)
  have "IngestRaw env' t' client key raw batch now' later =
      (later, Inr (res\<lparr>rs_Status := ''duplicate''\<rparr>, []))"
    using g get new hash stored assms(8,9) k'
    by (cases t') (simp_all add: IngestRaw_def Let_def)
  moreover have "IngestRaw env' t' client key raw' batch now' later = (later, Inl ErrIdempotencyConflict)"
    if "batch_idempotency_key env key raw' = ?key" and "ie_sha env raw' \<noteq> ie_sha env raw"
    using g get new hash assms(8,9) k' that
    by (cases t') (simp_all add: IngestRaw_def Let_def)
  ultimately show ?thesis by blast
qed


subsection \<open>A first batch on an empty database\<close>

fun sample_uuid :: "IdUse \<Rightarrow> string" where
  "sample_uuid U_batch = ''b1''"
| "sample_uuid (U_plant k) = ''p''"
| "sample_uuid (U_model k) = ''m''"
| "sample_uuid (U_device k) = ''d''"
| "sample_uuid (U_reading k) = ''r''"

definition sample_ienv :: IngestEnv where
  "sample_ienv =
     \<lparr>ie_uuid = sample_uuid, ie_sha = (\<lambda>s. ''h'' @ s), ie_mapped = (\<lambda>db si regs. Inr (map_of regs)),
      ie_registers = (\<lambda>org model. []), ie_ord = id, ie_fmt_time = itoa, ie_dbnow = 7\<rparr>"

definition sample_client :: MiddlewareClient where
  "sample_client = \<lparr>cl_ID = ''c'', cl_OrganizationID = ''org'', cl_Name = ''client'', cl_AutoOnboard = True\<rparr>"

definition empty_db :: Db where
  "empty_db =
     \<lparr>db_Plants = [], db_Models = [], db_Devices = [], db_Profiles = [], db_Metadata = [],
      db_ProfileAddresses = [], db_Readings = [], db_Batches = [], db_Rules = [], db_Events = [],
      db_NextEvent = 1, db_Audit = [], db_LastSeen = Map.empty\<rparr>"

definition sample_batch :: RawBatch where
  "sample_batch = \<lparr>rb_SchemaVersion = ''2.0'', rb_Data = [sample_raw, sample_raw]\<rparr>"

lemma empty_db_ok: "tables_ok empty_db"
  by (simp add: tables_ok_def events_ok_def one_open_def empty_db_def)

definition sample_res :: Result where
  "sample_res =
     \<lparr>rs_IngestionID = ''b1'', rs_Status = ''accepted'', rs_Accepted = 1, rs_Duplicate = 1,
      rs_Rejected = 0, rs_Plants = 1, rs_Devices = 1, rs_Errors = []\<rparr>"

lemma sample_key: "canonicalRegisterKey ''reg40001'' = ''reg40001''"
  by (simp add: canonicalRegisterKey_def text_eval Let_def)

text \<open>The statements of one reading, for evaluation.\<close>

lemmas ingest_eval = ingestRawReading_def tx_bind_def ingest_plant_def ingest_device_def tx_return_def
  tx_reject_def GetIngestionPlant_def GetIngestionDevice_def OnboardPlant_def OnboardDevice_def
  OnboardDeviceModel_def select_one_def insert_or_get_def ensureModelRegisterMetadata_def ensure_key_def
  sort_less_def metadata_row_def inventoryAudit_def store_reading_def InsertRawRegisterReading_def
  ingest_alarms_def evaluateAlarms_def find_plant_def site_of_def active_rules_def
  evaluateRegisterAlarms_def current_signals_def open_signals_def registerAlarmTransitions_def
  signal_ids_def by_id_def List.map_filter_def new_profile_def same_metadata_def

lemma sample_run:
  "\<exists>db'. ingest_loop sample_ienv sample_client 62135596801000000000 ''b1'' 0 [sample_raw, sample_raw]
     (empty_db\<lparr>db_Batches := bs\<rparr>) (empty_result ''b1'') [] = Inr (db', sample_res, [])"
proof -
  have v: "validateRawReading sample_raw (cl_Name sample_client) 62135596801000000000 = Inr sample_normal"
    using sample_validates by (simp add: sample_client_def)
  show ?thesis
    by (simp add: v)
      (simp add: sample_validates [unfolded sample_raw_def] ingest_eval empty_db_def sample_client_def sample_ienv_def sample_key Let_def
        sample_normal_def sample_raw_def raw_row_def reading_key_def empty_result_def add_outcome_def
        sample_res_def)
qed

lemma sample_ingest:
  "\<exists>db'. IngestRaw sample_ienv Tx_commit sample_client [] ''body'' sample_batch 62135596801000000000 empty_db =
     (db', Inr (sample_res, []))"
proof -
  let ?row = "new_batch ''b1'' sample_client ''sha256:hbody'' (ie_sha sample_ienv ''body'')"
  have guard: "\<not> batch_guard sample_client sample_batch"
    by (simp add: batch_guard_def sample_client_def sample_batch_def RawSchemaVersion_def)
  have key: "batch_idempotency_key sample_ienv [] ''body'' = ''sha256:hbody''"
    by (simp add: batch_idempotency_key_def sample_ienv_def)
  have id: "ie_uuid sample_ienv U_batch = ''b1''" by (simp add: sample_ienv_def)
  have get: "CreateOrGetIngestBatch ?row empty_db = (empty_db\<lparr>db_Batches := [?row]\<rparr>, ?row)"
    by (simp add: CreateOrGetIngestBatch_def insert_or_get_def empty_db_def)
  have row: "bt_ID ?row = ''b1''" by (simp add: new_batch_def)
  obtain db' where "ingest_loop sample_ienv sample_client 62135596801000000000 ''b1'' 0
      [sample_raw, sample_raw] (empty_db\<lparr>db_Batches := [?row]\<rparr>) (empty_result ''b1'') [] =
    Inr (db', sample_res, [])"
    using sample_run by blast
  then have "ingest_batch sample_ienv sample_client 62135596801000000000
      (rb_Data sample_batch) (empty_db\<lparr>db_Batches := [?row]\<rparr>) =
    Inr (TouchMiddlewareClient (cl_ID sample_client) (ie_dbnow sample_ienv)
           (CompleteIngestBatch ''b1'' sample_res db'), sample_res, [])"
    by (simp add: ingest_batch_def Let_def sample_batch_def id del: ingest_loop.simps)
  then show ?thesis
    by (simp add: IngestRaw_def Let_def guard key id get row)
qed

theorem IngestRaw_accounts_witness:
  "rs_Accepted sample_res + rs_Duplicate sample_res + rs_Rejected sample_res = 2 \<and>
   (\<exists>db'. fst (IngestRaw sample_ienv Tx_commit sample_client [] ''body'' sample_batch
        62135596801000000000 empty_db) = db' \<and> length (db_Readings db') = 1 \<and> tables_ok db')"
proof -
  obtain db' where e: "IngestRaw sample_ienv Tx_commit sample_client [] ''body'' sample_batch
      62135596801000000000 empty_db = (db', Inr (sample_res, []))"
    using sample_ingest by blast
  have "rs_Status sample_res = ''accepted''" by (simp add: sample_res_def)
  moreover have "ie_uuid sample_ienv U_batch \<notin> bt_ID ` set (db_Batches empty_db)"
    by (simp add: empty_db_def)
  ultimately show ?thesis
    using IngestRaw_accounts [OF e _ _ empty_db_ok] e
    by (simp add: sample_res_def sample_batch_def empty_db_def)
qed

theorem IngestRaw_replay_witness:
  "let later = fst (IngestRaw sample_ienv (Tx_reply_lost ''reset'') sample_client [] ''body'' sample_batch
                      62135596801000000000 empty_db);
       env = sample_ienv\<lparr>ie_uuid := \<lambda>_. ''b2''\<rparr>
   in IngestRaw env Tx_commit sample_client [] ''body'' sample_batch 62135596900000000000 later =
        (later, Inr (sample_res\<lparr>rs_Status := ''duplicate''\<rparr>, []))"
proof -
  let ?lost = "Tx_reply_lost ''reset''"
  let ?later = "fst (IngestRaw sample_ienv ?lost sample_client [] ''body'' sample_batch
      62135596801000000000 empty_db)"
  obtain db' where e: "IngestRaw sample_ienv Tx_commit sample_client [] ''body'' sample_batch
      62135596801000000000 empty_db = (db', Inr (sample_res, []))"
    using sample_ingest by blast
  have acc: "rs_Status sample_res = ''accepted''" by (simp add: sample_res_def)
  have fresh: "ie_uuid sample_ienv U_batch \<notin> bt_ID ` set (db_Batches empty_db)"
    by (simp add: empty_db_def)
  have same: "?later = db'"
  proof -
    have "fst (IngestRaw sample_ienv ?lost sample_client [] ''body'' sample_batch
        62135596801000000000 empty_db) = fst (IngestRaw sample_ienv Tx_commit sample_client [] ''body''
        sample_batch 62135596801000000000 empty_db)"
      by (auto simp: IngestRaw_def Let_def split_beta split: sum.splits)
    with e show ?thesis by simp
  qed
  from IngestRaw_accepted [OF e acc fresh] obtain db1 r where
    "db' = db1\<lparr>db_Batches := db_Batches empty_db @
        [completed_row sample_res (new_batch (ie_uuid sample_ienv U_batch) sample_client r
                              (ie_sha sample_ienv ''body''))],
       db_LastSeen := (db_LastSeen db1)(cl_ID sample_client \<mapsto> ie_dbnow sample_ienv)\<rparr>"
    by metis
  then have b: "db_Batches ?later = [completed_row sample_res (new_batch ''b1'' sample_client r
      (ie_sha sample_ienv ''body''))]"
    by (simp only: same) (simp add: empty_db_def sample_ienv_def)
  show ?thesis
    unfolding Let_def
    by (rule IngestRaw_replay [where t = ?lost and e = "''reset''" and db = empty_db and
          env = sample_ienv and now = 62135596801000000000 and bs = "[]" and raw' = "''body''",
          THEN conjunct1])
      (use e acc fresh b in \<open>simp_all add: completed_row_def new_batch_def sample_ienv_def\<close>)
qed


end
