(* ===== verification/CloudPull.thy ===== *)
theory CloudPull
  imports GatewayCommands GatewayHub Ingestion "HOL-Library.Countable"
begin

section \<open>internal/telemetrypull: moving the readings of a gateway to the platform\<close>

text \<open>
  \<open>pullOnce\<close> of \<open>platform-api/internal/telemetrypull/puller.go\<close>, with the gateway's handlers at the
  other end of the call: drain the queue, ingest the batch, acknowledge it. A call may not reach the
  gateway, or be handled with the reply not arriving in time; a transaction ends as in \<open>Ingestion\<close>; while
  the platform works the gateway goes on. \<open>encoding/json\<close> at both ends is a parameter (\<open>PullEnv\<close> here,
  \<open>GatewayEnv\<close> at the gateway).
\<close>

subsection \<open>Schedule\<close>

definition defaultPullInterval :: int where
  "defaultPullInterval = 60 * 1000000000"

definition drainBatchSize :: int where
  "drainBatchSize = 500"

text \<open>\<open>nextScheduledPull\<close> in nanoseconds since the epoch; \<open>Truncate\<close> rounds towards zero.\<close>

definition nextScheduledPull :: "int \<Rightarrow> int \<Rightarrow> int" where
  "nextScheduledPull now interval0 =
     (let interval = (if interval0 \<le> 0 then defaultPullInterval else interval0);
          rest = (if 0 \<le> now then now mod interval else - ((- now) mod interval))
      in (now - rest) + interval)"

text \<open>
  One turn of \<open>Run\<close>: the time to wait for, and whether a pull follows. The argument is what
  \<open>MiddlewareClientPullConfig\<close> returned: the values it has, and whether there was an error.
\<close>

definition pull_turn :: "int \<Rightarrow> int \<times> bool \<times> bool \<Rightarrow> int \<times> bool" where
  "pull_turn now cfg =
     (let (pollIntervalSeconds, apiPollingEnabled, failed) = cfg;
          interval = (if 0 < pollIntervalSeconds then pollIntervalSeconds * 1000000000 else defaultPullInterval)
      in if failed \<or> \<not> apiPollingEnabled then (now + interval, False)
         else (nextScheduledPull now interval, True))"

subsection \<open>What the platform reads of a drained batch\<close>

record PullEnv =
  pe_batchSize :: "int \<Rightarrow> string"
  pe_ids :: "int list \<Rightarrow> string"
  pe_drained :: "string \<Rightarrow> string + int list \<times> string list"
  pe_body :: "string list \<Rightarrow> string"
  pe_batch :: "string \<Rightarrow> string + RawBatch"
  pe_plant :: "string \<Rightarrow> (string \<times> string) option"
  pe_collectTime :: "string \<Rightarrow> int option"
  pe_fmt :: "int \<Rightarrow> string"

record plantLog =
  pg_Code :: string
  pg_Name :: string

definition plant_log_step :: "PullEnv \<Rightarrow> string \<Rightarrow> plantLog list \<Rightarrow> plantLog list" where
  "plant_log_step penv raw plants =
     (case pe_plant penv raw of
        None \<Rightarrow> plants
      | Some (code, name) \<Rightarrow>
          if code = [] \<or> code \<in> pg_Code ` set plants then plants
          else plants @ [\<lparr>pg_Code = code, pg_Name = name\<rparr>])"

definition plantLogs :: "PullEnv \<Rightarrow> string list \<Rightarrow> plantLog list" where
  "plantLogs penv readings = fold (plant_log_step penv) readings []"

definition window_step :: "PullEnv \<Rightarrow> string \<Rightarrow> (int \<times> int) option \<Rightarrow> (int \<times> int) option" where
  "window_step penv raw w =
     (case pe_collectTime penv raw of
        None \<Rightarrow> w
      | Some t \<Rightarrow>
          if t \<le> 0 then w
          else (case w of
                  None \<Rightarrow> Some (t, t)
                | Some (lo, hi) \<Rightarrow> Some (if t < lo then t else lo, if hi < t then t else hi)))"

definition observedWindow :: "PullEnv \<Rightarrow> string list \<Rightarrow> string \<times> string" where
  "observedWindow penv readings =
     (case fold (window_step penv) readings None of
        None \<Rightarrow> ([], [])
      | Some (lo, hi) \<Rightarrow> (pe_fmt penv lo, pe_fmt penv hi))"

subsection \<open>A call and its fate\<close>

datatype CallFate = Answered | Not_delivered string | Unanswered string

definition command_request :: "string \<Rightarrow> string \<Rightarrow> string \<Rightarrow> envelope" where
  "command_request i kind data =
     zero_envelope\<lparr>en_Type := ''command.request'', en_CommandID := i, en_Kind := kind, en_Data := data\<rparr>"

definition command_result :: "envelope \<Rightarrow> CommandResult" where
  "command_result r = \<lparr>cr_Ok = en_Ok r, cr_Data = en_Data r, cr_Error = en_Error r\<rparr>"

definition gateway_call ::
  "'w GatewayEnv \<Rightarrow> CallFate \<Rightarrow> int \<Rightarrow> string \<Rightarrow> string \<Rightarrow> string \<Rightarrow> 'w Gateway \<Rightarrow>
     'w Gateway \<times> (CallError + string)" where
  "gateway_call genv fate now i kind data g =
     (case fate of
        Not_delivered err \<Rightarrow> (g, Inl (Call_transport err))
      | Unanswered err \<Rightarrow> (fst (handleCommand genv now (command_request i kind data) g), Inl (Call_transport err))
      | Answered \<Rightarrow>
          let (g', out) = handleCommand genv now (command_request i kind data) g
          in (g', call_result (\<lambda>_. Inr (command_result (last out))) kind (Inr [])))"

subsection \<open>One pull\<close>

text \<open>The audit events; a field an event does not have is empty.\<close>

record PullEvent =
  pv_Action :: string
  pv_Stage :: string
  pv_Error :: string
  pv_Count :: nat
  pv_Result :: "Result option"
  pv_Window :: "string \<times> string"
  pv_Plants :: "plantLog list"

definition pull_event :: "string \<Rightarrow> string \<Rightarrow> string \<Rightarrow> nat \<Rightarrow> PullEvent" where
  "pull_event action stage err n =
     \<lparr>pv_Action = action, pv_Stage = stage, pv_Error = err, pv_Count = n, pv_Result = None,
      pv_Window = ([], []), pv_Plants = []\<rparr>"

text \<open>
  What one pull meets: how the two calls, the transaction and the two clocks behave, and the operations
  of the gateway's store between the drain and the acknowledgement.
\<close>

record PullRun =
  pu_drain :: CallFate
  pu_ack :: CallFate
  pu_tx :: TxEnd
  pu_ienv :: IngestEnv
  pu_now :: int
  pu_drainNow :: int
  pu_ackNow :: int
  pu_commands :: "string \<times> string"
  pu_between :: "(int \<times> string option \<times> StoreOp) list"

definition run_ops :: "StoreEnv \<Rightarrow> (int \<times> string option \<times> StoreOp) list \<Rightarrow> Store \<Rightarrow> Store" where
  "run_ops senv ops s = fold (\<lambda>(now, io, op) s. fst (store_step senv now io op s)) ops s"

definition gateway_ops ::
  "StoreEnv \<Rightarrow> (int \<times> string option \<times> StoreOp) list \<Rightarrow> 'w Gateway \<Rightarrow> 'w Gateway" where
  "gateway_ops senv ops g = g\<lparr>gw_Store := run_ops senv ops (gw_Store g)\<rparr>"

text \<open>
  \<open>pullOnce\<close>: the gateway and the database after it, the ids of the acknowledgement if it got there, and
  the audit events.
\<close>

definition pullOnce ::
  "'w GatewayEnv \<Rightarrow> PullEnv \<Rightarrow> StoreEnv \<Rightarrow> MiddlewareClient \<Rightarrow> PullRun \<Rightarrow> 'w Gateway \<times> Db \<Rightarrow>
     ('w Gateway \<times> Db) \<times> int list option \<times> PullEvent list" where
  "pullOnce genv penv senv client pu gd =
     (let (g, db) = gd;
          (g, r) = gateway_call genv (pu_drain pu) (pu_drainNow pu) (fst (pu_commands pu)) ''telemetry.drain''
                     (pe_batchSize penv drainBatchSize) g
      in case r of
           Inl err \<Rightarrow> ((g, db), None, [pull_event ''middleware.pull.failed'' ''drain'' (commandErrorText err) 0])
         | Inr data \<Rightarrow>
      (case pe_drained penv data of
         Inl err \<Rightarrow> ((g, db), None, [pull_event ''middleware.pull.failed'' ''batch_decode'' err 0])
       | Inr (ids, readings) \<Rightarrow>
           if ids = [] then ((g, db), None, [pull_event ''middleware.pull.empty'' [] [] 0])
           else
             let body = pe_body penv readings in
             (case pe_batch penv body of
                Inl err \<Rightarrow>
                  ((g, db), None, [pull_event ''middleware.pull.failed'' ''batch_decode'' err (length ids)])
              | Inr batch \<Rightarrow>
                  (case IngestRaw (pu_ienv pu) (pu_tx pu) client [] body batch (pu_now pu) db of
                     (db, Inl err) \<Rightarrow>
                       ((g, db), None, [pull_event ''middleware.pull.failed'' ''ingest'' err (length ids)])
                   | (db, Inr (res, _)) \<Rightarrow>
                       let details = (pull_event [] [] [] (length ids))\<lparr>pv_Result := Some res,
                             pv_Window := observedWindow penv readings, pv_Plants := plantLogs penv readings\<rparr>
                       in if rs_Accepted res = 0 \<and> rs_Duplicate res = 0
                          then ((g, db), None, [details\<lparr>pv_Action := ''middleware.pull.failed'', pv_Stage := ''ingest_result''\<rparr>])
                          else
                            let (g, a) = gateway_call genv (pu_ack pu) (pu_ackNow pu) (snd (pu_commands pu))
                                           ''telemetry.ack'' (pe_ids penv ids) (gateway_ops senv (pu_between pu) g)
                            in ((g, db), Some ids,
                                details\<lparr>pv_Action := ''middleware.pull.succeeded''\<rparr> #
                                (case a of
                                   Inr _ \<Rightarrow> []
                                 | Inl err \<Rightarrow>
                                     if commandErrorText err = [] then []
                                     else [pull_event ''middleware.pull.ack_failed'' ''ack'' (commandErrorText err)
                                             (length ids)]))))))"

subsection \<open>The schedule\<close>

text \<open>A pull is scheduled at a multiple of the interval, later than now and at most one interval later.\<close>

lemma nextScheduledPull_slot:
  assumes "0 \<le> now" and "0 < interval"
  shows "interval dvd nextScheduledPull now interval \<and> now < nextScheduledPull now interval
    \<and> nextScheduledPull now interval \<le> now + interval"
proof -
  have "now - now mod interval = interval * (now div interval)" by (simp add: minus_mod_eq_mult_div)
  moreover have "0 \<le> now mod interval" "now mod interval < interval" using assms by simp_all
  moreover from calculation have "nextScheduledPull now interval = interval * (now div interval) + interval"
    using assms by (simp add: nextScheduledPull_def Let_def)
  ultimately show ?thesis by simp
qed

subsection \<open>What an ingested batch leaves in the database\<close>

text \<open>
  The key of a stored reading depends on the formatting of times only, the key of a batch on the hash:
  they are the same for all transactions, while ids and clock are not.
\<close>

definition same_functions :: "IngestEnv \<Rightarrow> IngestEnv \<Rightarrow> bool" where
  "same_functions a b \<longleftrightarrow> ie_sha a = ie_sha b \<and> ie_fmt_time a = ie_fmt_time b"

text \<open>
  A reading is settled for a client: it is in the table of readings under its key, or a recorded batch
  of the client names it as rejected.
\<close>

definition reading_stored :: "IngestEnv \<Rightarrow> MiddlewareClient \<Rightarrow> Db \<Rightarrow> RawReading \<Rightarrow> bool" where
  "reading_stored env client db r \<longleftrightarrow>
     (\<exists>now nr. validateRawReading r (cl_Name client) now = Inr nr
        \<and> stored_key env client nr \<in> reading_key ` set (db_Readings db))"

definition reading_rejected ::
  "IngestEnv \<Rightarrow> (string \<Rightarrow> string + RawBatch) \<Rightarrow> MiddlewareClient \<Rightarrow> Db \<Rightarrow> RawReading \<Rightarrow> bool" where
  "reading_rejected env decode client db r \<longleftrightarrow>
     (\<exists>b \<in> set (db_Batches db). \<exists>raw batch k. bt_ClientID b = cl_ID client \<and> bt_PayloadHash b = ie_sha env raw
        \<and> decode raw = Inr batch \<and> k < length (rb_Data batch) \<and> rb_Data batch ! k = r
        \<and> k \<in> re_Index ` set (bt_Errors b))"

definition reading_done ::
  "IngestEnv \<Rightarrow> (string \<Rightarrow> string + RawBatch) \<Rightarrow> MiddlewareClient \<Rightarrow> Db \<Rightarrow> RawReading \<Rightarrow> bool" where
  "reading_done env decode client db r \<longleftrightarrow> reading_stored env client db r \<or> reading_rejected env decode client db r"

text \<open>Every recorded batch of the client has its readings settled.\<close>

definition batches_done ::
  "IngestEnv \<Rightarrow> (string \<Rightarrow> string + RawBatch) \<Rightarrow> MiddlewareClient \<Rightarrow> Db \<Rightarrow> bool" where
  "batches_done env decode client db \<longleftrightarrow>
     (\<forall>b \<in> set (db_Batches db). bt_ClientID b = cl_ID client \<longrightarrow>
        (\<exists>raw batch. bt_PayloadHash b = ie_sha env raw \<and> decode raw = Inr batch
           \<and> (\<forall>r \<in> set (rb_Data batch). reading_done env decode client db r)))"

lemma reading_stored_env:
  "same_functions a b \<Longrightarrow> reading_stored a client db r = reading_stored b client db r"
  by (simp add: same_functions_def reading_stored_def stored_key_def)

lemma reading_done_env:
  "same_functions a b \<Longrightarrow> reading_done a decode client db r = reading_done b decode client db r"
  unfolding reading_done_def reading_rejected_def by (simp add: reading_stored_env) (simp add: same_functions_def)

lemma reading_done_mono:
  assumes "reading_done env decode client a r" and "set (db_Readings a) \<subseteq> set (db_Readings b)"
    and "set (db_Batches a) \<subseteq> set (db_Batches b)"
  shows "reading_done env decode client b r"
  using assms unfolding reading_done_def reading_stored_def reading_rejected_def by blast

text \<open>The ways a call of \<open>IngestRaw\<close> leaves the database.\<close>

lemma IngestRaw_unchanged_or_new:
  assumes "ie_uuid env U_batch \<notin> bt_ID ` set (db_Batches db)"
  obtains (same) "fst (IngestRaw env t client key raw batch now db) = db"
      "\<And>res bs. snd (IngestRaw env t client key raw batch now db) = Inr (res, bs) \<Longrightarrow>
         \<exists>b \<in> set (db_Batches db). batch_key b = (cl_ID client, batch_idempotency_key env key raw)
           \<and> bt_PayloadHash b = ie_sha env raw \<and> res = (resultFromStored b)\<lparr>rs_Status := ''duplicate''\<rparr>"
  | (new) res bs where
      "IngestRaw env Tx_commit client key raw batch now db =
         (fst (IngestRaw env t client key raw batch now db), Inr (res, bs))" "rs_Status res = ''accepted''"
      "\<And>res' bs'. snd (IngestRaw env t client key raw batch now db) = Inr (res', bs') \<Longrightarrow> res' = res"
proof -
  let ?key = "batch_idempotency_key env key raw" and ?id = "ie_uuid env U_batch"
  let ?row = "new_batch ?id client ?key (ie_sha env raw)"
  let ?out = "IngestRaw env t client key raw batch now db"
  show thesis
  proof (cases "batch_guard client batch \<or> 200 < length ?key \<or> (\<exists>e. t = Tx_fails e)")
    case True
    then have "fst ?out = db" "\<not> is_ok (snd ?out)" by (auto simp: IngestRaw_def Let_def)
    then show thesis by (intro same) auto
  next
    case False
    then have g: "\<not> batch_guard client batch" "\<not> 200 < length ?key" and t: "\<And>e. t \<noteq> Tx_fails e" by auto
    show thesis
    proof (rule insert_or_get_cases [of "\<lambda>b. batch_key b = batch_key ?row" ?row "db_Batches db"])
      fix old
      assume i: "insert_or_get (\<lambda>b. batch_key b = batch_key ?row) ?row (db_Batches db) = (db_Batches db, old, False)"
        and old: "old \<in> set (db_Batches db)" "batch_key old = batch_key ?row"
      have "bt_ID old \<noteq> ?id" using assms old by (metis image_eqI)
      moreover have "batch_key ?row = (cl_ID client, ?key)" by (simp add: batch_key_def new_batch_def)
      ultimately show thesis
        using g t i old
        by (intro same; cases t) (auto simp: IngestRaw_def Let_def CreateOrGetIngestBatch_def split: if_splits)
    next
      assume i: "insert_or_get (\<lambda>b. batch_key b = batch_key ?row) ?row (db_Batches db) =
        (db_Batches db @ [?row], ?row, True)"
      let ?db0 = "db\<lparr>db_Batches := db_Batches db @ [?row]\<rparr>"
      have id: "bt_ID ?row = ?id" by (simp add: new_batch_def)
      show thesis
      proof (cases "ingest_batch env client now (rb_Data batch) ?db0")
        case (Inl e)
        with g t i id show thesis
          by (intro same; cases t) (auto simp: IngestRaw_def Let_def CreateOrGetIngestBatch_def)
      next
        case (Inr v)
        obtain db2 res bs where v: "v = (db2, res, bs)" by (cases v) auto
        have acc: "rs_Status res = ''accepted''"
          using Inr v ingest_loop_spec [of env client now ?id 0 "rb_Data batch" ?db0 "empty_result ?id" "[]"]
          by (auto simp: ingest_batch_def Let_def loop_ok_def empty_result_def split: sum.splits)
        from g t i id Inr v acc show thesis
          by (intro new [of res bs]; cases t) (auto simp: IngestRaw_def Let_def CreateOrGetIngestBatch_def)
      qed
    qed
  qed
qed

text \<open>Ingesting a batch, however the call ends, keeps what was settled; if it succeeds its readings are.\<close>

lemma IngestRaw_new_done:
  assumes e: "IngestRaw env Tx_commit client key raw batch now db = (db', Inr (res, bs))"
    and acc: "rs_Status res = ''accepted''" and fresh: "ie_uuid env U_batch \<notin> bt_ID ` set (db_Batches db)"
    and dec: "decode raw = Inr batch"
  obtains row where "db_Batches db' = db_Batches db @ [row]" "bt_ClientID row = cl_ID client"
    "bt_PayloadHash row = ie_sha env raw" "prefix (db_Readings db) (db_Readings db')"
    "tables_ok db \<Longrightarrow> tables_ok db'" "\<forall>r \<in> set (rb_Data batch). reading_done env decode client db' r"
    "batch_key row = (cl_ID client, batch_idempotency_key env key raw)"
    "\<forall>b \<in> set (db_Batches db). batch_key b \<noteq> batch_key row"
    "bt_Accepted row = rs_Accepted res" "bt_Duplicate row = rs_Duplicate res"
proof -
  let ?key = "batch_idempotency_key env key raw"
  let ?row = "completed_row res (new_batch (ie_uuid env U_batch) client ?key (ie_sha env raw))"
  obtain db1 where lo: "loop_ok db (empty_result (ie_uuid env U_batch)) db1 res (length (rb_Data batch))"
    and se: "\<forall>j < length (rb_Data batch). reading_settled env client now j (rb_Data batch ! j) db1 res"
    and nk: "\<forall>b \<in> set (db_Batches db). batch_key b \<noteq> (cl_ID client, ?key)"
    and db': "db' = db1\<lparr>db_Batches := db_Batches db @ [?row],
       db_LastSeen := (db_LastSeen db1)(cl_ID client \<mapsto> ie_dbnow env)\<rparr>"
    by (rule IngestRaw_accepted [OF e acc fresh])
  have row: "bt_ClientID ?row = cl_ID client" "bt_PayloadHash ?row = ie_sha env raw"
    "bt_Errors ?row = rs_Errors res" "batch_key ?row = (cl_ID client, ?key)"
    "bt_Accepted ?row = rs_Accepted res" "bt_Duplicate ?row = rs_Duplicate res"
    by (simp_all add: completed_row_def new_batch_def batch_key_def)
  have grow: "tables_grow db db1" using lo by (simp add: loop_ok_def)
  have "reading_done env decode client db' (rb_Data batch ! j)" if j: "j < length (rb_Data batch)" for j
  proof (cases "j \<in> re_Index ` set (rs_Errors res)")
    case True
    with j dec row have "reading_rejected env decode client db' (rb_Data batch ! j)"
      unfolding reading_rejected_def db' by (intro bexI [of _ ?row] exI [of _ raw] exI [of _ batch] exI [of _ j]) auto
    then show ?thesis by (simp add: reading_done_def)
  next
    case False
    with se j have "reading_stored env client db' (rb_Data batch ! j)"
      unfolding reading_settled_def reading_stored_def db' by fastforce
    then show ?thesis by (simp add: reading_done_def)
  qed
  then have "\<forall>r \<in> set (rb_Data batch). reading_done env decode client db' r" by (metis in_set_conv_nth)
  then show thesis
    using that [of ?row] row nk grow by (simp add: db' tables_grow_def)
qed

definition db_ok :: "IngestEnv \<Rightarrow> (string \<Rightarrow> string + RawBatch) \<Rightarrow> MiddlewareClient \<Rightarrow> Db \<Rightarrow> bool" where
  "db_ok env decode client db \<longleftrightarrow> batches_done env decode client db \<and> tables_ok db"

lemma IngestRaw_keeps:
  assumes "db_ok env decode client db" and fresh: "ie_uuid ienv U_batch \<notin> bt_ID ` set (db_Batches db)"
    and fn: "same_functions ienv env" and dec: "decode raw = Inr batch"
    and cl: "c' = client \<or> cl_ID c' \<noteq> cl_ID client"
  shows "db_ok env decode client (fst (IngestRaw ienv t c' key raw batch now db))"
    and "set (db_Readings db) \<subseteq> set (db_Readings (fst (IngestRaw ienv t c' key raw batch now db)))"
    and "set (db_Batches db) \<subseteq> set (db_Batches (fst (IngestRaw ienv t c' key raw batch now db)))"
proof -
  let ?db' = "fst (IngestRaw ienv t c' key raw batch now db)"
  have "db_ok env decode client ?db' \<and> set (db_Readings db) \<subseteq> set (db_Readings ?db')
    \<and> set (db_Batches db) \<subseteq> set (db_Batches ?db')"
    using fresh
  proof (cases rule: IngestRaw_unchanged_or_new
      [where t = t and client = c' and key = key and raw = raw and batch = batch and now = now])
    case same
    then show ?thesis using assms(1) by simp
  next
    case (new res bs)
    from IngestRaw_new_done [where decode = decode and raw = raw, OF new(1,2) fresh dec] obtain row where
      row: "db_Batches ?db' = db_Batches db @ [row]" "bt_ClientID row = cl_ID c'"
        "bt_PayloadHash row = ie_sha ienv raw" "prefix (db_Readings db) (db_Readings ?db')"
      and ok: "tables_ok db \<Longrightarrow> tables_ok ?db'"
      and settled: "\<forall>r \<in> set (rb_Data batch). reading_done ienv decode c' ?db' r" by metis
    have sub: "set (db_Readings db) \<subseteq> set (db_Readings ?db')" "set (db_Batches db) \<subseteq> set (db_Batches ?db')"
      using row(1,4) by (auto dest: set_mono_prefix)
    have "\<exists>raw batch. bt_PayloadHash b = ie_sha env raw \<and> decode raw = Inr batch
        \<and> (\<forall>r \<in> set (rb_Data batch). reading_done env decode client ?db' r)"
      if b: "b \<in> set (db_Batches ?db')" "bt_ClientID b = cl_ID client" for b
    proof (cases "b \<in> set (db_Batches db)")
      case True
      with assms(1) b(2) show ?thesis
        unfolding db_ok_def batches_done_def using reading_done_mono [OF _ sub] by blast
    next
      case False
      with b row(1,2) cl have "b = row" "c' = client" by auto
      with row(3) dec settled reading_done_env [OF fn] fn show ?thesis
        by (auto simp: same_functions_def)
    qed
    then show ?thesis using sub ok assms(1) by (simp add: db_ok_def batches_done_def)
  qed
  then show "db_ok env decode client ?db'" "set (db_Readings db) \<subseteq> set (db_Readings ?db')"
    "set (db_Batches db) \<subseteq> set (db_Batches ?db')" by blast+
qed

lemma IngestRaw_settles:
  assumes "db_ok env decode client db" and fresh: "ie_uuid ienv U_batch \<notin> bt_ID ` set (db_Batches db)"
    and fn: "same_functions ienv env" and dec: "decode raw = Inr batch" and inj: "inj (ie_sha env)"
    and ok: "snd (IngestRaw ienv t client key raw batch now db) = Inr (res, bs)" and r: "r \<in> set (rb_Data batch)"
  shows "reading_done env decode client (fst (IngestRaw ienv t client key raw batch now db)) r"
  using fresh
proof (cases rule: IngestRaw_unchanged_or_new
    [where t = t and client = client and key = key and raw = raw and batch = batch and now = now])
  case same
  from same(2) [OF ok] obtain b where b: "b \<in> set (db_Batches db)" "bt_ClientID b = cl_ID client"
    "bt_PayloadHash b = ie_sha ienv raw" by (auto simp: batch_key_def)
  with assms(1) obtain raw' batch' where
    "bt_PayloadHash b = ie_sha env raw'" "decode raw' = Inr batch'"
    and all: "\<forall>r \<in> set (rb_Data batch'). reading_done env decode client db r"
    unfolding db_ok_def batches_done_def by blast
  moreover from this b fn inj have "raw' = raw" by (auto simp: same_functions_def dest: injD)
  ultimately have "reading_done env decode client db r" using dec r by simp
  then show ?thesis using same(1) by simp
next
  case (new res bs)
  from IngestRaw_new_done [where decode = decode and raw = raw, OF new(1,2) fresh dec]
  have "\<forall>r \<in> set (rb_Data batch). reading_done ienv decode client (fst (IngestRaw ienv t client key raw batch now db)) r"
    by metis
  then show ?thesis using r reading_done_env [OF fn] by blast
qed

subsection \<open>What is known of a row under an id\<close>

text \<open>
  \<open>P\<close> holds for the payload of the row of each of the ids that is still in the queue, and no later row
  gets one of the ids; \<open>P\<close> holds for the payload of each delivered row.
\<close>

definition ids_safe :: "(string \<Rightarrow> bool) \<Rightarrow> int list \<Rightarrow> fileState \<Rightarrow> bool" where
  "ids_safe P ids f \<longleftrightarrow>
     (\<forall>i \<in> set ids. i < fs_NextID f) \<and> (\<forall>v \<in> set (fs_Outbox f). o_ID v \<in> set ids \<longrightarrow> P (o_Payload v))"

definition delivered_safe :: "(string \<Rightarrow> bool) \<Rightarrow> fileState \<Rightarrow> bool" where
  "delivered_safe P f \<longleftrightarrow> (\<forall>v \<in> set (fs_Outbox f). o_Status v = ''DELIVERED'' \<longrightarrow> P (o_Payload v))"

lemma safe_mono:
  assumes "\<And>p. P p \<Longrightarrow> Q p"
  shows "ids_safe P ids f \<Longrightarrow> ids_safe Q ids f" "delivered_safe P f \<Longrightarrow> delivered_safe Q f"
  using assms by (auto simp: ids_safe_def delivered_safe_def)

lemma queue_move_unmarked:
  assumes "queue_move [] f g"
  shows "fs_NextID f \<le> fs_NextID g"
    and "v \<in> set (fs_Outbox g) \<Longrightarrow> v \<in> set (fs_Outbox f) \<or> o_ID v = fs_NextID f \<and> o_Status v = ''PENDING''"
proof -
  have nil: "for_ids [] m rows = rows" for m rows by (simp add: for_ids_def)
  have "fs_NextID f \<le> fs_NextID g \<and>
      (v \<in> set (fs_Outbox g) \<longrightarrow> v \<in> set (fs_Outbox f) \<or> o_ID v = fs_NextID f \<and> o_Status v = ''PENDING'')"
    using assms
  proof cases
    case (append key hash b now)
    then show ?thesis by (auto simp: new_row_def)
  qed (simp_all add: nil)
  then show "fs_NextID f \<le> fs_NextID g"
    "v \<in> set (fs_Outbox g) \<Longrightarrow> v \<in> set (fs_Outbox f) \<or> o_ID v = fs_NextID f \<and> o_Status v = ''PENDING''" by blast+
qed

lemma unmarked_safe:
  assumes "queue_move [] f g"
  shows "ids_safe P ids f \<Longrightarrow> ids_safe P ids g" "delivered_safe P f \<Longrightarrow> delivered_safe P g"
  using queue_move_unmarked [OF assms] unfolding ids_safe_def delivered_safe_def by fastforce+

definition unmarked :: "(int \<times> string option \<times> StoreOp) list \<Rightarrow> bool" where
  "unmarked ops \<longleftrightarrow> list_all (\<lambda>(now, io, op). marked_ids op = []) ops"

lemma run_ops_Cons: "run_ops senv ((now, io, op) # ops) s = run_ops senv ops (fst (store_step senv now io op s))"
  by (simp add: run_ops_def)

lemma store_step_unmarked:
  "marked_ids op = [] \<Longrightarrow> queue_move [] (st_mem s) (st_mem (fst (store_step senv now io op s)))"
  using store_step_queue [of op s senv now io] by simp

lemma run_ops_safe:
  assumes "unmarked ops"
  shows "outbox_ok (st_mem s) \<Longrightarrow> outbox_ok (st_mem (run_ops senv ops s))"
    and "ids_safe P ids (st_mem s) \<Longrightarrow> ids_safe P ids (st_mem (run_ops senv ops s))"
    and "delivered_safe P (st_mem s) \<Longrightarrow> delivered_safe P (st_mem (run_ops senv ops s))"
  using assms
proof (induction ops arbitrary: s)
  case Nil
  {
    case 1 then show ?case by (simp add: run_ops_def)
  next
    case 2 then show ?case by (simp add: run_ops_def)
  next
    case 3 then show ?case by (simp add: run_ops_def)
  }
next
  case (Cons o' ops)
  obtain now io op where o': "o' = (now, io, op)" by (cases o') auto
  {
    case 1
    then show ?case
      using Cons.IH(1) queue_move_ok [OF store_step_unmarked] by (simp add: o' run_ops_Cons unmarked_def)
  next
    case 2
    then show ?case
      using Cons.IH(2) unmarked_safe(1) [OF store_step_unmarked] by (simp add: o' run_ops_Cons unmarked_def)
  next
    case 3
    then show ?case
      using Cons.IH(3) unmarked_safe(2) [OF store_step_unmarked] by (simp add: o' run_ops_Cons unmarked_def)
  }
qed

text \<open>Marking ids of which \<open>P\<close> is known.\<close>

lemma outbox_Delivered:
  "fs_Outbox (st_mem (fst (Delivered now io ids s))) =
     map (\<lambda>v. if o_ID v \<in> set ids then deliver_row now 0 [] v else v) (fs_Outbox (st_mem s))"
  "fs_NextID (st_mem (fst (Delivered now io ids s))) = fs_NextID (st_mem s)"
  by (simp_all add: Delivered_def outbox_mem_Delivered for_ids_deliver)

lemma Delivered_safe:
  assumes "ids_safe P ids (st_mem s)"
  shows "outbox_ok (st_mem s) \<Longrightarrow> outbox_ok (st_mem (fst (Delivered now io ids s)))"
    and "ids_safe P ids' (st_mem s) \<Longrightarrow> ids_safe P ids' (st_mem (fst (Delivered now io ids s)))"
    and "delivered_safe P (st_mem s) \<Longrightarrow> delivered_safe P (st_mem (fst (Delivered now io ids s)))"
proof -
  show "outbox_ok (st_mem s) \<Longrightarrow> outbox_ok (st_mem (fst (Delivered now io ids s)))"
    using outbox_ok_for_ids [of "st_mem s" "deliver_row now 0 []" ids]
    by (simp add: Delivered_def outbox_mem_Delivered deliver_row_good)
  show "ids_safe P ids' (st_mem s) \<Longrightarrow> ids_safe P ids' (st_mem (fst (Delivered now io ids s)))"
    by (auto simp: ids_safe_def outbox_Delivered deliver_row_def)
  show "delivered_safe P (st_mem s) \<Longrightarrow> delivered_safe P (st_mem (fst (Delivered now io ids s)))"
    using assms by (auto simp: ids_safe_def delivered_safe_def outbox_Delivered deliver_row_def)
qed

text \<open>What \<open>Ready\<close> hands out are rows of the queue, one per id.\<close>

lemma Ready_rows:
  assumes "e \<in> set (Ready now limit s)"
  obtains v where "v \<in> set (fs_Outbox (st_mem s))" "row_due now v" "ev_ID e = o_ID v" "ev_Payload e = o_Payload v"
  using assms by (auto simp: Ready_take event_of_def dest!: in_set_takeD)

lemma Ready_ids_safe:
  assumes ok: "outbox_ok (st_mem s)" and P: "\<forall>e \<in> set (Ready now limit s). P (ev_Payload e)"
  shows "ids_safe P (map ev_ID (Ready now limit s)) (st_mem s)"
  unfolding ids_safe_def
proof (intro conjI ballI impI)
  fix i assume "i \<in> set (map ev_ID (Ready now limit s))"
  then show "i < fs_NextID (st_mem s)" using ok by (auto simp: outbox_ok_def elim!: Ready_rows)
next
  fix v assume v: "v \<in> set (fs_Outbox (st_mem s))" "o_ID v \<in> set (map ev_ID (Ready now limit s))"
  then obtain e where e: "e \<in> set (Ready now limit s)" "ev_ID e = o_ID v" by auto
  from e(1) obtain w where w: "w \<in> set (fs_Outbox (st_mem s))" "ev_ID e = o_ID w" "ev_Payload e = o_Payload w"
    by (rule Ready_rows)
  have "w = v" using ok v(1) w(1,2) e(2) by (auto simp: outbox_ok_def distinct_map inj_on_def)
  then show "P (o_Payload v)" using P e(1) w(3) by auto
qed

subsection \<open>The three ways a pull ends\<close>

text \<open>
  What the theorems rely on of \<open>encoding/json\<close>: what one side encoded and the other side can decode is
  what it was, an empty text is not a batch, and the readings of a body are decoded one by one.
\<close>

definition codec_ok :: "'w GatewayEnv \<Rightarrow> PullEnv \<Rightarrow> (string \<Rightarrow> RawReading) \<Rightarrow> bool" where
  "codec_ok genv penv rd \<longleftrightarrow>
     (\<forall>ids rs d x. ge_json genv (P_batch ids rs) = Inr d \<and> pe_drained penv d = Inr x \<longrightarrow> x = (ids, rs))
     \<and> (\<forall>x. pe_drained penv [] \<noteq> Inr x)
     \<and> (\<forall>ids ids'. ge_ids genv (pe_ids penv ids) = Inr ids' \<longrightarrow> ids' = ids)
     \<and> (\<forall>rs b. pe_batch penv (pe_body penv rs) = Inr b \<longrightarrow> rb_Data b = map rd rs)"

definition drain_events :: "'w GatewayEnv \<Rightarrow> PullEnv \<Rightarrow> PullRun \<Rightarrow> 'w Gateway \<Rightarrow> OutboxEvent list" where
  "drain_events genv penv pu g =
     Ready (pu_drainNow pu) (drain_size genv (pe_batchSize penv drainBatchSize)) (gw_Store g)"

definition pull_body :: "PullEnv \<Rightarrow> OutboxEvent list \<Rightarrow> string" where
  "pull_body penv events = pe_body penv (map ev_Payload events)"

definition pull_ingest ::
  "PullEnv \<Rightarrow> MiddlewareClient \<Rightarrow> PullRun \<Rightarrow> OutboxEvent list \<Rightarrow> RawBatch \<Rightarrow> Db \<Rightarrow> Db \<times> (string + Result \<times> alarmBreach list)" where
  "pull_ingest penv client pu events batch db =
     IngestRaw (pu_ienv pu) (pu_tx pu) client [] (pull_body penv events) batch (pu_now pu) db"

definition ack_call ::
  "'w GatewayEnv \<Rightarrow> PullEnv \<Rightarrow> StoreEnv \<Rightarrow> PullRun \<Rightarrow> OutboxEvent list \<Rightarrow> 'w Gateway \<Rightarrow> 'w Gateway \<times> (CallError + string)" where
  "ack_call genv penv senv pu events g =
     gateway_call genv (pu_ack pu) (pu_ackNow pu) (snd (pu_commands pu)) ''telemetry.ack''
       (pe_ids penv (map ev_ID events)) (gateway_ops senv (pu_between pu) g)"

lemma gateway_call_drain:
  assumes "gateway_call genv fate now i ''telemetry.drain'' data g = (g', r)"
  shows "g' = g"
    and "r = Inr d \<Longrightarrow> d = (let events = Ready now (drain_size genv data) (gw_Store g) in
           case ge_json genv (P_batch (map ev_ID events) (map ev_Payload events)) of Inl _ \<Rightarrow> [] | Inr d \<Rightarrow> d)"
  using assms
  by (auto simp: gateway_call_def handleCommand_drain command_request_def call_result_def command_result_def
      command_data_def Let_def split: CallFate.splits)

lemma pullOnce_cases:
  assumes codec: "codec_ok genv penv rd"
    and p: "pullOnce genv penv senv client pu (g, db) = ((g', db'), acked, evs)"
  obtains (nothing) "g' = g" "db' = db" "acked = None"
  | (ingested) batch where "drain_events genv penv pu g \<noteq> []"
      "pe_batch penv (pull_body penv (drain_events genv penv pu g)) = Inr batch"
      "g' = g" "db' = fst (pull_ingest penv client pu (drain_events genv penv pu g) batch db)" "acked = None"
  | (answered) batch res bs where "drain_events genv penv pu g \<noteq> []"
      "pe_batch penv (pull_body penv (drain_events genv penv pu g)) = Inr batch"
      "pull_ingest penv client pu (drain_events genv penv pu g) batch db = (db', Inr (res, bs))"
      "rs_Accepted res \<noteq> 0 \<or> rs_Duplicate res \<noteq> 0"
      "g' = fst (ack_call genv penv senv pu (drain_events genv penv pu g) g)"
      "acked = Some (map ev_ID (drain_events genv penv pu g))"
proof -
  let ?ev = "drain_events genv penv pu g"
  obtain g1 r where d: "gateway_call genv (pu_drain pu) (pu_drainNow pu) (fst (pu_commands pu)) ''telemetry.drain''
      (pe_batchSize penv drainBatchSize) g = (g1, r)" by fastforce
  have g1: "g1 = g" using d by (rule gateway_call_drain)
  show thesis
  proof (cases r)
    case (Inl err)
    show thesis by (rule nothing) (use p d g1 Inl in \<open>auto simp: pullOnce_def\<close>)
  next
    case (Inr data)
    note data = gateway_call_drain(2) [OF d Inr, folded drain_events_def, unfolded Let_def]
    show thesis
    proof (cases "pe_drained penv data")
      case (Inl err)
      show thesis by (rule nothing) (use p d g1 Inl \<open>r = Inr data\<close> in \<open>auto simp: pullOnce_def\<close>)
    next
      case (Inr x)
      have "data = [] \<or> ge_json genv (P_batch (map ev_ID ?ev) (map ev_Payload ?ev)) = Inr data"
        using data by (auto simp: drain_events_def split: sum.splits)
      with Inr codec have x: "x = (map ev_ID ?ev, map ev_Payload ?ev)" unfolding codec_ok_def by blast
      show thesis
      proof (cases "?ev = []")
        case True
        show thesis by (rule nothing) (use p d g1 \<open>r = Inr data\<close> Inr x True in \<open>auto simp: pullOnce_def\<close>)
      next
        case False
        note ne = False
        show thesis
        proof (cases "pe_batch penv (pull_body penv ?ev)")
          case (Inl err)
          show thesis
            by (rule nothing) (use p d g1 \<open>r = Inr data\<close> Inr x ne Inl in \<open>auto simp: pullOnce_def pull_body_def\<close>)
        next
          case b: (Inr batch)
          obtain db1 q where q: "pull_ingest penv client pu ?ev batch db = (db1, q)" by fastforce
          have q': "IngestRaw (pu_ienv pu) (pu_tx pu) client [] (pe_body penv (map ev_Payload ?ev)) batch (pu_now pu) db
              = (db1, q)"
            using q by (simp add: pull_ingest_def pull_body_def)
          have b': "pe_batch penv (pe_body penv (map ev_Payload ?ev)) = Inr batch" using b by (simp add: pull_body_def)
          show thesis
          proof (cases q)
            case (Inl err)
            show thesis
              by (rule ingested [OF ne b]) (use p d g1 \<open>r = Inr data\<close> Inr x ne b' q q' Inl in \<open>auto simp: pullOnce_def\<close>)
          next
            case q2: (Inr rb)
            obtain res bs where rb: "rb = (res, bs)" by fastforce
            show thesis
            proof (cases "rs_Accepted res = 0 \<and> rs_Duplicate res = 0")
              case True
              show thesis
                by (rule ingested [OF ne b])
                  (use p d g1 \<open>r = Inr data\<close> Inr x ne b' q q' q2 rb True in \<open>auto simp: pullOnce_def\<close>)
            next
              case False
              show thesis
                by (rule answered [OF ne b, of res bs])
                  (use p d g1 \<open>r = Inr data\<close> Inr x ne b' q q' q2 rb False in
                    \<open>auto simp: pullOnce_def ack_call_def split: prod.splits\<close>)
            qed
          qed
        qed
      qed
    qed
  qed
qed

subsection \<open>Gateway and platform together\<close>

text \<open>
  The two databases and what is on the wire: the gateway with its queue, the platform's tables, and the
  acknowledgements that were sent but not handled in time and may still be.
\<close>

record 'w System =
  sy_Gateway :: "'w Gateway"
  sy_Db :: Db
  sy_Acks :: "int list list"

definition sys_file :: "'w System \<Rightarrow> fileState" where
  "sys_file sy = st_mem (gw_Store (sy_Gateway sy))"

text \<open>
  The steps, in any order, within one run of the gateway's process: an operation of the gateway's store
  other than acknowledging or failing rows (enqueueing a reading, poll logs, clean-up, local and pushed
  configuration); a pull, with every fate of its calls and its transaction; an acknowledgement that
  arrives late; a batch of any client by another way. A transaction's batch id is a new UUID.
\<close>

inductive pull_system ::
  "'w GatewayEnv \<Rightarrow> PullEnv \<Rightarrow> StoreEnv \<Rightarrow> IngestEnv \<Rightarrow> MiddlewareClient \<Rightarrow> 'w System \<Rightarrow> bool"
  for genv penv senv env client where
  start: "outbox_ok (sys_file sy) \<Longrightarrow> \<forall>v \<in> set (fs_Outbox (sys_file sy)). o_Status v \<noteq> ''DELIVERED'' \<Longrightarrow>
     db_Batches (sy_Db sy) = [] \<Longrightarrow> tables_ok (sy_Db sy) \<Longrightarrow> sy_Acks sy = [] \<Longrightarrow>
     pull_system genv penv senv env client sy"
| gateway: "pull_system genv penv senv env client sy \<Longrightarrow> unmarked ops \<Longrightarrow>
     pull_system genv penv senv env client (sy\<lparr>sy_Gateway := gateway_ops senv ops (sy_Gateway sy)\<rparr>)"
| pull: "pull_system genv penv senv env client sy \<Longrightarrow> same_functions (pu_ienv pu) env \<Longrightarrow>
     ie_uuid (pu_ienv pu) U_batch \<notin> bt_ID ` set (db_Batches (sy_Db sy)) \<Longrightarrow> unmarked (pu_between pu) \<Longrightarrow>
     pullOnce genv penv senv client pu (sy_Gateway sy, sy_Db sy) = ((g, db), acked, evs) \<Longrightarrow>
     pull_system genv penv senv env client
       \<lparr>sy_Gateway = g, sy_Db = db,
        sy_Acks = (case acked of None \<Rightarrow> sy_Acks sy | Some ids \<Rightarrow> ids # sy_Acks sy)\<rparr>"
| late_ack: "pull_system genv penv senv env client sy \<Longrightarrow> ids \<in> set (sy_Acks sy) \<Longrightarrow>
     pull_system genv penv senv env client
       (sy\<lparr>sy_Gateway := (sy_Gateway sy)\<lparr>gw_Store := fst (Delivered now io ids (gw_Store (sy_Gateway sy)))\<rparr>\<rparr>)"
| upload: "pull_system genv penv senv env client sy \<Longrightarrow> same_functions ienv env \<Longrightarrow>
     ie_uuid ienv U_batch \<notin> bt_ID ` set (db_Batches (sy_Db sy)) \<Longrightarrow> pe_batch penv raw = Inr batch \<Longrightarrow>
     c' = client \<or> cl_ID c' \<noteq> cl_ID client \<Longrightarrow>
     pull_system genv penv senv env client
       (sy\<lparr>sy_Db := fst (IngestRaw ienv t c' key raw batch now (sy_Db sy))\<rparr>)"

definition payload_done ::
  "IngestEnv \<Rightarrow> PullEnv \<Rightarrow> (string \<Rightarrow> RawReading) \<Rightarrow> MiddlewareClient \<Rightarrow> Db \<Rightarrow> string \<Rightarrow> bool" where
  "payload_done env penv rd client db p \<longleftrightarrow> reading_done env (pe_batch penv) client db (rd p)"

definition system_ok ::
  "PullEnv \<Rightarrow> (string \<Rightarrow> RawReading) \<Rightarrow> IngestEnv \<Rightarrow> MiddlewareClient \<Rightarrow> 'w System \<Rightarrow> bool" where
  "system_ok penv rd env client sy \<longleftrightarrow>
     outbox_ok (sys_file sy) \<and> db_ok env (pe_batch penv) client (sy_Db sy)
     \<and> delivered_safe (payload_done env penv rd client (sy_Db sy)) (sys_file sy)
     \<and> (\<forall>ids \<in> set (sy_Acks sy). ids_safe (payload_done env penv rd client (sy_Db sy)) ids (sys_file sy))"

lemma payload_done_mono:
  assumes "set (db_Readings a) \<subseteq> set (db_Readings b)" and "set (db_Batches a) \<subseteq> set (db_Batches b)"
  shows "payload_done env penv rd client a p \<Longrightarrow> payload_done env penv rd client b p"
  using reading_done_mono [OF _ assms] by (simp add: payload_done_def)

lemma system_ok_db:
  assumes ok: "system_ok penv rd env client sy" and "db_ok env (pe_batch penv) client db"
    and sub: "set (db_Readings (sy_Db sy)) \<subseteq> set (db_Readings db)" "set (db_Batches (sy_Db sy)) \<subseteq> set (db_Batches db)"
  shows "system_ok penv rd env client (sy\<lparr>sy_Db := db\<rparr>)"
  using assms safe_mono [OF payload_done_mono [OF sub]] by (auto simp: system_ok_def sys_file_def)

lemma system_ok_ops:
  assumes "system_ok penv rd env client sy" and "unmarked ops"
  shows "system_ok penv rd env client (sy\<lparr>sy_Gateway := gateway_ops senv ops (sy_Gateway sy)\<rparr>)"
  using assms(1) run_ops_safe [OF assms(2), where s = "gw_Store (sy_Gateway sy)"]
  by (auto simp: system_ok_def sys_file_def gateway_ops_def)

lemma system_ok_Delivered:
  assumes "system_ok penv rd env client sy"
    and "ids_safe (payload_done env penv rd client (sy_Db sy)) ids (sys_file sy)"
  shows "system_ok penv rd env client
    (sy\<lparr>sy_Gateway := (sy_Gateway sy)\<lparr>gw_Store := fst (Delivered now io ids (gw_Store (sy_Gateway sy)))\<rparr>\<rparr>)"
  using assms(1) Delivered_safe [OF assms(2) [unfolded sys_file_def], where now = now and io = io]
  by (auto simp: system_ok_def sys_file_def)

text \<open>Reaching the gateway or not, an acknowledgement call leaves it as it was or marks its ids.\<close>

lemma gateway_call_ack:
  assumes "codec_ok genv penv rd"
  shows "fst (gateway_call genv fate now i ''telemetry.ack'' (pe_ids penv ids) g) = g \<or>
    (\<exists>io. fst (gateway_call genv fate now i ''telemetry.ack'' (pe_ids penv ids) g) =
       g\<lparr>gw_Store := fst (Delivered now io ids (gw_Store g))\<rparr>)"
proof -
  have "ids' = ids" if "ge_ids genv (pe_ids penv ids) = Inr ids'" for ids'
    using assms that unfolding codec_ok_def by blast
  then show ?thesis
    by (cases fate; cases "ge_ids genv (pe_ids penv ids)")
      (auto simp: gateway_call_def handleCommand_ack command_request_def split: prod.splits)
qed

lemma pull_system_pull:
  assumes ok: "system_ok penv rd env client sy" and codec: "codec_ok genv penv rd" and inj: "inj (ie_sha env)"
    and fn: "same_functions (pu_ienv pu) env"
    and fresh: "ie_uuid (pu_ienv pu) U_batch \<notin> bt_ID ` set (db_Batches (sy_Db sy))" and un: "unmarked (pu_between pu)"
    and p: "pullOnce genv penv senv client pu (sy_Gateway sy, sy_Db sy) = ((g, db), acked, evs)"
  shows "system_ok penv rd env client
    \<lparr>sy_Gateway = g, sy_Db = db, sy_Acks = (case acked of None \<Rightarrow> sy_Acks sy | Some ids \<Rightarrow> ids # sy_Acks sy)\<rparr>"
proof -
  have dbok: "db_ok env (pe_batch penv) client (sy_Db sy)" using ok by (simp add: system_ok_def)
  from codec p show ?thesis
  proof (cases rule: pullOnce_cases)
    case nothing
    then show ?thesis using ok by (simp add: system_ok_def sys_file_def)
  next
    let ?ev = "drain_events genv penv pu (sy_Gateway sy)"
    case (ingested batch)
    have "system_ok penv rd env client (sy\<lparr>sy_Db := db\<rparr>)"
      unfolding ingested(4) pull_ingest_def
      by (rule system_ok_db [OF ok]; rule IngestRaw_keeps [where decode = "pe_batch penv" and raw = "pull_body penv ?ev",
            OF dbok fresh fn ingested(2) disjI1 [OF refl]])
    then show ?thesis using ingested(3,5) by (simp add: system_ok_def sys_file_def)
  next
    let ?ev = "drain_events genv penv pu (sy_Gateway sy)"
    case (answered batch res bs)
    let ?ids = "map ev_ID ?ev" and ?P = "payload_done env penv rd client db"
    have ing: "IngestRaw (pu_ienv pu) (pu_tx pu) client [] (pull_body penv ?ev) batch (pu_now pu) (sy_Db sy)
        = (db, Inr (res, bs))"
      using answered(3) by (simp add: pull_ingest_def)
    have "system_ok penv rd env client (sy\<lparr>sy_Db := fst (IngestRaw (pu_ienv pu) (pu_tx pu) client []
        (pull_body penv ?ev) batch (pu_now pu) (sy_Db sy))\<rparr>)"
      by (rule system_ok_db [OF ok]; rule IngestRaw_keeps [where decode = "pe_batch penv" and raw = "pull_body penv ?ev",
            OF dbok fresh fn answered(2) disjI1 [OF refl]])
    then have s1: "system_ok penv rd env client (sy\<lparr>sy_Db := db\<rparr>)" by (simp add: ing)
    have rb: "rb_Data batch = map (rd \<circ> ev_Payload) ?ev"
      using codec answered(2) unfolding codec_ok_def pull_body_def by (metis map_map)
    have "reading_done env (pe_batch penv) client db r" if "r \<in> set (rb_Data batch)" for r
      using IngestRaw_settles [where decode = "pe_batch penv" and raw = "pull_body penv ?ev", OF dbok fresh fn answered(2) inj, where t = "pu_tx pu" and key = "[]"
          and now = "pu_now pu" and res = res and bs = bs and r = r] ing that by simp
    then have "\<forall>e \<in> set ?ev. ?P (ev_Payload e)" unfolding rb payload_done_def by simp
    then have safe: "ids_safe ?P ?ids (sys_file sy)"
      using ok Ready_ids_safe [of "gw_Store (sy_Gateway sy)"] by (simp add: drain_events_def system_ok_def sys_file_def)
    let ?sy2 = "sy\<lparr>sy_Db := db, sy_Gateway := gateway_ops senv (pu_between pu) (sy_Gateway sy)\<rparr>"
    have s2: "system_ok penv rd env client ?sy2" using system_ok_ops [OF s1 un, of senv] by simp
    have safe2: "ids_safe ?P ?ids (sys_file ?sy2)"
      using run_ops_safe(2) [OF un] safe by (simp add: sys_file_def gateway_ops_def)
    from gateway_call_ack [OF codec, of "pu_ack pu" "pu_ackNow pu" "snd (pu_commands pu)" ?ids
        "gateway_ops senv (pu_between pu) (sy_Gateway sy)"]
    obtain io where g: "g = gateway_ops senv (pu_between pu) (sy_Gateway sy) \<or>
        g = (gateway_ops senv (pu_between pu) (sy_Gateway sy))\<lparr>gw_Store :=
              fst (Delivered (pu_ackNow pu) io ?ids (gw_Store (gateway_ops senv (pu_between pu) (sy_Gateway sy))))\<rparr>"
      using answered(5) by (auto simp: ack_call_def)
    have s3: "system_ok penv rd env client (?sy2\<lparr>sy_Gateway := g\<rparr>)"
      using g s2 system_ok_Delivered [OF s2, of ?ids "pu_ackNow pu" io] safe2 by auto
    have safe3: "ids_safe ?P ?ids (sys_file (?sy2\<lparr>sy_Gateway := g\<rparr>))"
      using g safe2 Delivered_safe(2) [OF safe2 [unfolded sys_file_def] safe2 [unfolded sys_file_def]]
      by (auto simp: sys_file_def)
    show ?thesis using s3 safe3 answered(6) by (simp add: system_ok_def sys_file_def)
  qed
qed

lemma pull_system_ok:
  assumes "pull_system genv penv senv env client sy" and codec: "codec_ok genv penv rd" and inj: "inj (ie_sha env)"
  shows "system_ok penv rd env client sy"
  using assms(1)
proof (induction rule: pull_system.induct)
  case (start sy)
  then show ?case
    by (simp add: system_ok_def db_ok_def batches_done_def delivered_safe_def)
next
  case (gateway sy ops)
  then show ?case by (blast intro: system_ok_ops)
next
  case (pull sy pu g db acked evs)
  then show ?case by (intro pull_system_pull [OF _ codec inj])
next
  case (late_ack sy ids now io)
  then show ?case by (intro system_ok_Delivered) (simp_all add: system_ok_def)
next
  case (upload sy ienv raw batch c' t key now)
  then have "db_ok env (pe_batch penv) client (sy_Db sy)" by (simp add: system_ok_def)
  note keeps = IngestRaw_keeps [where decode = "pe_batch penv" and raw = raw, OF this upload.hyps(3,2,4,5)]
  show ?case by (rule system_ok_db [OF upload.IH]; rule keeps)
qed

text \<open>A key that occurs in a table with a unique index occurs once.\<close>

lemma length_filter_key:
  assumes "distinct (map f ws)" and "k \<in> f ` set ws"
  shows "length (filter (\<lambda>w. f w = k) ws) = 1"
proof -
  obtain w where w: "w \<in> set ws" "f w = k" using assms(2) by auto
  have "distinct (filter (\<lambda>w. f w = k) ws)" using assms(1) by (simp add: distinct_map)
  then have "length (filter (\<lambda>w. f w = k) ws) = card (set (filter (\<lambda>w. f w = k) ws))"
    by (rule distinct_card [symmetric])
  also have "set (filter (\<lambda>w. f w = k) ws) = {w}"
    using assms(1) w by (auto simp: distinct_map inj_on_def)
  finally show ?thesis by simp
qed

subsection \<open>A batch that was rejected as a whole\<close>

text \<open>
  Once a batch was recorded with every reading rejected, a pull that drains the same rows again is
  answered from the record: nothing is stored or acknowledged, whatever was repaired in between.
\<close>

lemma rejected_batch_never_acknowledged:
  assumes codec: "codec_ok genv penv rd"
    and first: "pull_ingest penv client pu (drain_events genv penv pu' g) batch db = (db1, Inr (res, bs))"
      "rs_Status res = ''accepted''" "rs_Accepted res = 0" "rs_Duplicate res = 0"
      "pe_batch penv (pull_body penv (drain_events genv penv pu' g)) = Inr batch"
    and fresh: "ie_uuid (pu_ienv pu) U_batch \<notin> bt_ID ` set (db_Batches db)"
    and later: "set (db_Batches db1) \<subseteq> set (db_Batches db2)" "distinct (map batch_key (db_Batches db2))"
    and fresh': "ie_uuid (pu_ienv pu') U_batch \<notin> bt_ID ` set (db_Batches db2)"
    and fn: "same_functions (pu_ienv pu) (pu_ienv pu')"
    and p: "pullOnce genv penv senv client pu' (g, db2) = ((g', db'), acked, evs)"
  shows "acked = None \<and> g' = g \<and> db' = db2"
proof -
  let ?raw = "pull_body penv (drain_events genv penv pu' g)"
  let ?key = "batch_idempotency_key (pu_ienv pu) [] ?raw"
  have "pu_tx pu = Tx_commit"
    using first(1,2) by (cases "pu_tx pu") (auto simp: pull_ingest_def IngestRaw_def Let_def resultFromStored_def
        split: if_splits sum.splits prod.splits)
  then have "IngestRaw (pu_ienv pu) Tx_commit client [] ?raw batch (pu_now pu) db = (db1, Inr (res, bs))"
    using first(1) by (simp add: pull_ingest_def)
  from IngestRaw_new_done [where decode = "pe_batch penv" and raw = ?raw, OF this first(2) fresh first(5)] obtain row where
    row: "db_Batches db1 = db_Batches db @ [row]" "batch_key row = (cl_ID client, ?key)"
      "bt_Accepted row = 0" "bt_Duplicate row = 0" using first(3,4) by metis
  have in2: "row \<in> set (db_Batches db2)" using row(1) later(1) by simp
  have key: "batch_idempotency_key (pu_ienv pu') [] ?raw = ?key"
    using fn by (simp add: same_functions_def batch_idempotency_key_def Let_def)
  let ?out = "pull_ingest penv client pu' (drain_events genv penv pu' g) batch db2"
  have out: "fst ?out = db2 \<and> (\<forall>r bs. snd ?out = Inr (r, bs) \<longrightarrow> rs_Accepted r = 0 \<and> rs_Duplicate r = 0)"
    using fresh'
  proof (cases rule: IngestRaw_unchanged_or_new [where t = "pu_tx pu'" and client = client and key = "[]"
        and raw = ?raw and batch = batch and now = "pu_now pu'"])
    case same
    have "rs_Accepted r = 0 \<and> rs_Duplicate r = 0" if "snd ?out = Inr (r, bs)" for r bs
    proof -
      from same(2) [of r bs] that obtain b where b: "b \<in> set (db_Batches db2)" "batch_key b = batch_key row"
        "r = (resultFromStored b)\<lparr>rs_Status := ''duplicate''\<rparr>"
        using key row(2) by (auto simp: pull_ingest_def)
      have "b = row" using later(2) b(1,2) in2 by (auto simp: distinct_map dest: inj_onD)
      then show ?thesis using b(3) row(3,4) by (simp add: resultFromStored_def)
    qed
    then show ?thesis using same(1) by (simp add: pull_ingest_def)
  next
    case (new r bs')
    from IngestRaw_new_done [where decode = "pe_batch penv" and raw = ?raw, OF new(1,2) fresh' first(5)]
    obtain row' where "batch_key row' = (cl_ID client, ?key)" "\<forall>b \<in> set (db_Batches db2). batch_key b \<noteq> batch_key row'"
      unfolding key by metis
    with in2 row(2) show ?thesis by auto
  qed
  from codec p show ?thesis
  proof (cases rule: pullOnce_cases)
    case nothing
    then show ?thesis by simp
  next
    case (ingested batch')
    then show ?thesis using out first(5) by auto
  next
    case (answered batch' r bs')
    then show ?thesis using out first(5) by auto
  qed
qed

subsection \<open>Progress\<close>

text \<open>Pulls one after the other, with the ids each acknowledged.\<close>

fun pull_rounds ::
  "'w GatewayEnv \<Rightarrow> PullEnv \<Rightarrow> StoreEnv \<Rightarrow> MiddlewareClient \<Rightarrow> PullRun list \<Rightarrow> 'w Gateway \<times> Db \<Rightarrow>
     ('w Gateway \<times> Db) \<times> int list option list" where
  "pull_rounds genv penv senv client [] gd = (gd, [])"
| "pull_rounds genv penv senv client (pu # pus) gd =
     (let (gd, acked, _) = pullOnce genv penv senv client pu gd;
          (gd, rest) = pull_rounds genv penv senv client pus gd
      in (gd, acked # rest))"

text \<open>The platform asks for 500 rows and the gateway understands it; an acknowledgement is understood.\<close>

definition channel_ok :: "'w GatewayEnv \<Rightarrow> PullEnv \<Rightarrow> bool" where
  "channel_ok genv penv \<longleftrightarrow>
     pe_batchSize penv drainBatchSize \<noteq> [] \<and> ge_batchSize genv (pe_batchSize penv drainBatchSize) = drainBatchSize
     \<and> (\<forall>ids. ge_ids genv (pe_ids penv ids) = Inr ids) \<and> (\<forall>s. ge_io genv s = None)"

definition quiet :: "int \<Rightarrow> PullRun \<Rightarrow> bool" where
  "quiet now pu \<longleftrightarrow> pu_drainNow pu = now \<and> pu_ack pu = Answered \<and> pu_between pu = []"

lemma card_due_ids:
  "outbox_ok (st_mem s) \<Longrightarrow> card (due_ids now s) = length (filter (row_due now) (fs_Outbox (st_mem s)))"
  unfolding due_ids_filter outbox_ok_def
  by (metis distinct_card distinct_map_filter length_map)

lemma pull_progress:
  assumes codec: "codec_ok genv penv rd" and ch: "channel_ok genv penv" and q: "quiet now pu"
    and ok: "outbox_ok (st_mem (gw_Store g))"
    and p: "pullOnce genv penv senv client pu (g, db) = ((g', db'), acked, evs)"
  shows "outbox_ok (st_mem (gw_Store g')) \<and> due_ids now (gw_Store g') \<subseteq> due_ids now (gw_Store g)
    \<and> (case acked of
         None \<Rightarrow> g' = g
       | Some ids \<Rightarrow> due_ids now (gw_Store g') = due_ids now (gw_Store g) - set ids
           \<and> card (due_ids now (gw_Store g')) = card (due_ids now (gw_Store g)) - 500)"
  using codec p
proof (cases rule: pullOnce_cases)
  case nothing
  then show ?thesis using ok by simp
next
  case (ingested batch)
  then show ?thesis using ok by simp
next
  case (answered batch res bs)
  let ?s = "gw_Store g" and ?ids = "drain_ids now 500 (gw_Store g)"
  have size: "drain_size genv (pe_batchSize penv drainBatchSize) = 500"
    using ch by (simp add: drain_size_def channel_ok_def drainBatchSize_def)
  then have ids: "map ev_ID (drain_events genv penv pu g) = ?ids"
    using q by (simp add: drain_events_def drain_ids_def quiet_def)
  have g': "gw_Store g' = ack_ids (pu_ackNow pu) ?ids ?s"
    using answered(5) ids ch q
    by (simp add: ack_call_def gateway_call_def handleCommand_ack command_request_def channel_ok_def
        quiet_def gateway_ops_def run_ops_def ack_ids_def split: prod.splits)
  have due: "due_ids now (gw_Store g') = due_ids now ?s - set ?ids"
    unfolding g' using ok by (rule queue.ack_due)
  have inv: "outbox_ok (st_mem (gw_Store g'))" unfolding g' using ok by (rule queue.ack_inv)
  have sub: "set ?ids \<subseteq> due_ids now ?s" using ok by (rule queue.drain_due)
  have "distinct ?ids" using ok by (rule queue.drain_distinct)
  then have "card (set ?ids) = length ?ids" by (rule distinct_card)
  also have "\<dots> = min 500 (card (due_ids now ?s))"
    using card_due_ids [OF ok, of now] by (simp add: drain_ids_take min.commute)
  finally have "card (due_ids now (gw_Store g')) = card (due_ids now ?s) - 500"
    unfolding due using sub queue.due_finite [OF ok, of now] by (simp add: card_Diff_subset finite_subset)
  then show ?thesis using inv due answered(6) ids by auto
qed

lemma pull_rounds_progress:
  assumes "codec_ok genv penv rd" and "channel_ok genv penv"
    and "list_all (quiet now) pus" and "outbox_ok (st_mem (gw_Store (fst gd)))"
    and "pull_rounds genv penv senv client pus gd = (gd', acked)"
  shows "outbox_ok (st_mem (gw_Store (fst gd')))
    \<and> due_ids now (gw_Store (fst gd')) \<subseteq> due_ids now (gw_Store (fst gd))
    \<and> card (due_ids now (gw_Store (fst gd'))) =
        card (due_ids now (gw_Store (fst gd))) - 500 * length (filter (\<lambda>a. a \<noteq> None) acked)"
  using assms(3-5)
proof (induction pus arbitrary: gd gd' acked)
  case Nil
  then show ?case by auto
next
  case (Cons pu pus)
  obtain g db where gd: "gd = (g, db)" by fastforce
  obtain g1 db1 a evs where p: "pullOnce genv penv senv client pu (g, db) = ((g1, db1), a, evs)"
    by (metis prod.collapse)
  obtain gd2 rest where r: "pull_rounds genv penv senv client pus (g1, db1) = (gd2, rest)" by fastforce
  have out: "gd' = gd2" "acked = a # rest" using Cons.prems(3) by (simp_all add: gd p r)
  have q: "quiet now pu" and o1: "outbox_ok (st_mem (gw_Store g))" using Cons.prems(1,2) by (simp_all add: gd)
  note one = pull_progress [OF assms(1,2) q o1 p]
  have rest': "list_all (quiet now) pus" "outbox_ok (st_mem (gw_Store (fst (g1, db1))))"
    using Cons.prems(1) one by simp_all
  note ih = Cons.IH [OF rest' r]
  show ?case
    using one ih by (cases a) (auto simp: out gd)
qed

subsection \<open>Properties\<close>

text \<open>
  C4: No reading is lost between gateway and platform. Whatever the order of enqueueing, clean-up,
  configuration, pulls, late acknowledgements and other uploads, and however the calls and transactions
  of the pulls fail, a row the gateway has marked as delivered is settled at the platform: its reading is
  in the table of readings exactly once under its key, or a recorded batch names it as rejected.
\<close>

theorem delivered_reading_is_settled:
  assumes "pull_system genv penv senv env client sy" and "codec_ok genv penv rd" and "inj (ie_sha env)"
    and "v \<in> set (fs_Outbox (st_mem (gw_Store (sy_Gateway sy))))" and "o_Status v = ''DELIVERED''"
  shows "reading_rejected env (pe_batch penv) client (sy_Db sy) (rd (o_Payload v)) \<or>
    (\<exists>now nr. validateRawReading (rd (o_Payload v)) (cl_Name client) now = Inr nr \<and>
       length (filter (\<lambda>w. reading_key w = stored_key env client nr) (db_Readings (sy_Db sy))) = 1)"
proof -
  from pull_system_ok [OF assms(1-3)] assms(4,5)
  have "reading_done env (pe_batch penv) client (sy_Db sy) (rd (o_Payload v))"
    and dist: "distinct (map reading_key (db_Readings (sy_Db sy)))"
    by (auto simp: system_ok_def delivered_safe_def payload_done_def sys_file_def db_ok_def tables_ok_def)
  moreover note length_filter_key [OF dist]
  ultimately show ?thesis unfolding reading_done_def reading_stored_def by blast
qed


subsection \<open>A pull of two readings\<close>

definition sample_json :: "Payload \<Rightarrow> string + string" where
  "sample_json p = (if p = P_batch [1, 2] [''r1'', ''r2''] then Inr ''batch'' else Inl ''unsupported'')"

definition pull_genv :: "unit GatewayEnv" where
  "pull_genv = sample_genv\<lparr>ge_json := sample_json, ge_ids := (\<lambda>s. Inr (from_nat (length s)))\<rparr>"

definition pull_penv :: PullEnv where
  "pull_penv =
     \<lparr>pe_batchSize = (\<lambda>_. ''500''), pe_ids = (\<lambda>ids. replicate (to_nat ids) CHR ''1''),
      pe_drained = (\<lambda>d. if d = ''batch'' then Inr ([1, 2], [''r1'', ''r2'']) else Inl ''bad batch''),
      pe_body = (\<lambda>rs. if rs = [''r1'', ''r2''] then ''body'' else ''other''),
      pe_batch = (\<lambda>s. if s = ''body'' then Inr sample_batch else Inl ''bad body''),
      pe_plant = (\<lambda>_. Some (''P1'', ''Plant'')), pe_collectTime = (\<lambda>_. Some 5), pe_fmt = itoa\<rparr>"

definition pull_gateway :: "unit Gateway" where
  "pull_gateway = sample_gateway\<lparr>gw_Store :=
     \<lparr>st_mem = zero_fileState\<lparr>fs_NextID := 3, fs_Outbox := [new_row 1 ''a'' [] ''r1'' 0, new_row 2 ''b'' [] ''r2'' 0]\<rparr>,
      st_disk = None\<rparr>\<rparr>"

definition pull_senv :: StoreEnv where
  "pull_senv = \<lparr>env_url = (\<lambda>_. None), env_reading = (\<lambda>_. Inr ''r''), env_snapshot = (\<lambda>_. ''{}'')\<rparr>"

definition sample_pull :: PullRun where
  "sample_pull =
     \<lparr>pu_drain = Answered, pu_ack = Answered, pu_tx = Tx_commit, pu_ienv = sample_ienv,
      pu_now = 62135596801000000000, pu_drainNow = 9, pu_ackNow = 10, pu_commands = (''c1'', ''c2''), pu_between = []\<rparr>"

lemma pull_sample_codec: "codec_ok pull_genv pull_penv (\<lambda>_. sample_raw)" "channel_ok pull_genv pull_penv"
  by (auto simp: codec_ok_def channel_ok_def pull_genv_def pull_penv_def sample_json_def sample_batch_def
      sample_genv_def drainBatchSize_def split: if_splits)

lemma pull_sample_ready:
  "Ready 9 500 (gw_Store pull_gateway) =
     [\<lparr>ev_ID = 1, ev_Payload = ''r1'', ev_Attempts = 0\<rparr>, \<lparr>ev_ID = 2, ev_Payload = ''r2'', ev_Attempts = 0\<rparr>]"
  by (simp add: Ready_take pull_gateway_def new_row_def row_due_def event_of_def)

definition pulled_gateway :: "unit Gateway" where
  "pulled_gateway = pull_gateway\<lparr>gw_Store := fst (Delivered 10 None [1, 2] (gw_Store pull_gateway))\<rparr>"

lemma pull_sample_run:
  "\<exists>db evs. pullOnce pull_genv pull_penv pull_senv Ingestion.sample_client sample_pull (pull_gateway, empty_db) =
     ((pulled_gateway, db), Some [1, 2], evs)"
proof -
  obtain db where i: "IngestRaw sample_ienv Tx_commit Ingestion.sample_client [] ''body'' sample_batch 62135596801000000000
      empty_db = (db, Inr (sample_res, []))"
    using sample_ingest by blast
  have size: "drain_size pull_genv (pe_batchSize pull_penv drainBatchSize) = 500"
    by (simp add: drain_size_def pull_genv_def pull_penv_def sample_genv_def)
  have d: "gateway_call pull_genv Answered 9 ''c1'' ''telemetry.drain'' (pe_batchSize pull_penv drainBatchSize) pull_gateway
      = (pull_gateway, Inr ''batch'')"
    by (simp add: gateway_call_def handleCommand_drain command_request_def size pull_sample_ready)
      (simp add: command_data_def command_result_def call_result_def pull_genv_def sample_json_def)
  have a: "fst (gateway_call pull_genv Answered 10 ''c2'' ''telemetry.ack'' (pe_ids pull_penv [1, 2]) pull_gateway)
      = pulled_gateway"
    by (simp add: gateway_call_def handleCommand_ack command_request_def pull_genv_def pull_penv_def
        sample_genv_def pulled_gateway_def split: prod.splits)
  have drained: "pe_drained pull_penv ''batch'' = Inr ([1, 2], [''r1'', ''r2''])"
    "pe_body pull_penv [''r1'', ''r2''] = ''body''" "pe_batch pull_penv ''body'' = Inr sample_batch"
    by (simp_all add: pull_penv_def)
  have ops: "gateway_ops pull_senv [] pull_gateway = pull_gateway"
    by (simp add: gateway_ops_def run_ops_def)
  have res: "rs_Accepted sample_res = 1" by (simp add: sample_res_def)
  show ?thesis
    using a
    by (auto simp: pullOnce_def sample_pull_def d drained i ops res split: prod.splits)
qed

lemma pull_sample_start: "outbox_ok (st_mem (gw_Store pull_gateway))"
  by (simp add: pull_gateway_def outbox_ok_def new_row_def row_statuses_def)

theorem delivered_reading_is_settled_witness:
  "\<exists>db. o_Status (deliver_row 10 0 [] (new_row 1 ''a'' [] ''r1'' 0)) = ''DELIVERED''
    \<and> deliver_row 10 0 [] (new_row 1 ''a'' [] ''r1'' 0) \<in> set (fs_Outbox (st_mem (gw_Store pulled_gateway)))
    \<and> (reading_rejected sample_ienv (pe_batch pull_penv) Ingestion.sample_client db sample_raw
       \<or> (\<exists>now nr. validateRawReading sample_raw (cl_Name Ingestion.sample_client) now = Inr nr \<and>
            length (filter (\<lambda>w. reading_key w = stored_key sample_ienv Ingestion.sample_client nr) (db_Readings db)) = 1))"
proof -
  let ?v = "deliver_row 10 0 [] (new_row 1 ''a'' [] ''r1'' 0)"
  obtain db evs where p: "pullOnce pull_genv pull_penv pull_senv Ingestion.sample_client sample_pull
      (pull_gateway, empty_db) = ((pulled_gateway, db), Some [1, 2], evs)"
    using pull_sample_run by blast
  have "pull_system pull_genv pull_penv pull_senv sample_ienv Ingestion.sample_client
      \<lparr>sy_Gateway = pull_gateway, sy_Db = empty_db, sy_Acks = []\<rparr>"
    using pull_sample_start empty_db_ok
    by (intro pull_system.start) (auto simp: sys_file_def pull_gateway_def new_row_def empty_db_def)
  from pull_system.pull [OF this, of sample_pull pulled_gateway db "Some [1, 2]" evs] p
  have sy: "pull_system pull_genv pull_penv pull_senv sample_ienv Ingestion.sample_client
      \<lparr>sy_Gateway = pulled_gateway, sy_Db = db, sy_Acks = [[1, 2]]\<rparr>"
    by (simp add: sample_pull_def same_functions_def empty_db_def unmarked_def)
  have inj: "inj (ie_sha sample_ienv)" by (simp add: sample_ienv_def inj_def)
  have v: "?v \<in> set (fs_Outbox (st_mem (gw_Store pulled_gateway)))" "o_Status ?v = ''DELIVERED''"
    "o_Payload ?v = ''r1''"
    by (simp_all add: pulled_gateway_def outbox_Delivered) (simp_all add: pull_gateway_def new_row_def deliver_row_def)
  have v': "?v \<in> set (fs_Outbox (st_mem (gw_Store (sy_Gateway
      \<lparr>sy_Gateway = pulled_gateway, sy_Db = db, sy_Acks = [[1, 2]]\<rparr>))))"
    using v(1) by simp
  from delivered_reading_is_settled [OF sy pull_sample_codec(1) inj v' v(2)] v show ?thesis by auto
qed


end
