(* ===== verification/Registry.thy ===== *)
theory Registry
  imports GoFloat GoText
begin

section \<open>platform-api core: the registry of device models, registers and devices\<close>

text \<open>
  \<open>core/devices.go\<close> and \<open>core/register_profiles.go\<close>: what the platform accepts as a register, a device
  model, a device and a plant, and the operations that write them. A table is the list of its rows, a
  transaction a function on the tables that either commits or returns an error and the tables it found.
  A statement fails where a constraint of its table (\<open>database/migrations\<close>) is violated. Parameters, in
  \<open>CoreEnv\<close>: \<open>auth.has_permission\<close> for the caller, the random ids, and the orders of \<open>ORDER BY\<close>. Ids are
  the texts of parsed UUIDs; an \<open>int32\<close> is an \<open>int\<close> that came out of \<open>int32_of\<close>. Times and the JSON of
  audit events are not modelled.
\<close>

datatype CoreError = ErrForbidden | ErrNotFound | ErrInvalid | ErrConflict | ErrMiddlewareOffline | ErrStatement

text \<open>\<open>int32(i)\<close>.\<close>

definition int32_of :: "int \<Rightarrow> int" where
  "int32_of i = sint (word_of_int i :: 32 word)"

text \<open>PostgreSQL's \<open>length\<close> counts code points: the bytes that do not continue one. \<open>btrim\<close> removes spaces.\<close>

definition char_length :: "string \<Rightarrow> nat" where
  "char_length s = length (filter (\<lambda>c. (of_char c :: nat) div 64 \<noteq> 2) s)"

definition btrim :: "string \<Rightarrow> string" where
  "btrim s = rev (dropWhile (\<lambda>c. c = CHR '' '') (rev (dropWhile (\<lambda>c. c = CHR '' '') s)))"

definition text_length_ok :: "string \<Rightarrow> bool" where
  "text_length_ok s \<longleftrightarrow> 1 \<le> char_length (btrim s) \<and> char_length (btrim s) \<le> 200"

subsection \<open>Inputs\<close>

record RegisterValueMapping =
  rm_MatchValue :: "int option"
  rm_BitIndex :: "int option"
  rm_DisplayValue :: string
  rm_AlarmState :: string
  rm_Severity :: string

record UpdateDeviceRegisterMetadataInput =
  ui_AddressKey :: string
  ui_DisplayName :: string
  ui_Unit :: string
  ui_DataType :: string
  ui_Scale :: f64
  ui_Offset :: f64
  ui_Decimals :: int
  ui_IsEnabled :: bool
  ui_Notes :: string

text \<open>The embedding of the Go struct is a record extension; \<open>RegisterProfileAddressInput\<close> has the same fields.\<close>

record UpdateDeviceModelRegisterMetadataInput = UpdateDeviceRegisterMetadataInput +
  um_FunctionCode :: "int option"
  um_Register :: "int option"
  um_WordOrder :: string
  um_DataType :: string
  um_IsAlarm :: bool
  um_MappingMode :: string
  um_BitInterpretation :: string
  um_Mappings :: "RegisterValueMapping list"

type_synonym RegisterProfileAddressInput = UpdateDeviceModelRegisterMetadataInput

record DeviceModelInput =
  dmi_Manufacturer :: string
  dmi_Model :: string
  dmi_DeviceType :: string
  dmi_SourceTypeID :: "int option"
  dmi_IsActive :: bool

record UpdateDeviceInput =
  udi_Name :: string
  udi_DeviceModelID :: string
  udi_ModbusHost :: string
  udi_ModbusPort :: "int option"
  udi_ModbusUnitID :: int
  udi_IsActive :: bool

record CreateDeviceInput = UpdateDeviceInput +
  cdi_ExternalID :: string

subsection \<open>Validation\<close>

text \<open>What the validations first do to their input.\<close>

definition clean_metadata_input ::
  "'a UpdateDeviceRegisterMetadataInput_scheme \<Rightarrow> 'a UpdateDeviceRegisterMetadataInput_scheme" where
  "clean_metadata_input input =
     (let i = input\<lparr>ui_AddressKey := trim_space (ui_AddressKey input),
                    ui_DisplayName := trim_space (ui_DisplayName input), ui_Unit := trim_space (ui_Unit input),
                    ui_DataType := trim_space (ui_DataType input), ui_Notes := trim_space (ui_Notes input)\<rparr>;
          i = i\<lparr>ui_DisplayName := if ui_DisplayName i = [] then ui_AddressKey i else ui_DisplayName i\<rparr>;
          i = i\<lparr>ui_DataType := if ui_DataType i = [] then ''number'' else ui_DataType i\<rparr>
      in i\<lparr>ui_Scale := if f_eq (ui_Scale i) f_zero then f_one else ui_Scale i\<rparr>)"

definition validateRegisterMetadata ::
  "'a UpdateDeviceRegisterMetadataInput_scheme \<Rightarrow> CoreError + 'a UpdateDeviceRegisterMetadataInput_scheme" where
  "validateRegisterMetadata input =
     (let i = clean_metadata_input input
      in if ui_AddressKey i = [] \<or> 200 < length (ui_AddressKey i) \<or> ui_DisplayName i = []
            \<or> 200 < length (ui_DisplayName i) \<or> 40 < length (ui_Unit i) \<or> 500 < length (ui_Notes i)
            \<or> ui_Decimals i < 0 \<or> 9 < ui_Decimals i \<or> \<not> is_finite (ui_Scale i) \<or> \<not> is_finite (ui_Offset i)
         then Inl ErrInvalid
         else if ui_DataType i \<in> set [''number'', ''boolean'', ''text'', ''enum''] then Inr i
         else Inl ErrInvalid)"

definition validateModbusRegisterFields ::
  "int option \<Rightarrow> int option \<Rightarrow> string \<Rightarrow> string \<Rightarrow> CoreError + unit" where
  "validateModbusRegisterFields functionCode register wordOrder dataType =
     (if functionCode = None \<and> register = None \<and> wordOrder = [] \<and> dataType = [] then Inr ()
      else (case (functionCode, register) of
              (Some fc, Some r) \<Rightarrow>
                if dataType = [] then Inl ErrInvalid
                else if fc \<noteq> 3 \<and> fc \<noteq> 4 then Inl ErrInvalid
                else if r < 0 \<or> 65535 < r then Inl ErrInvalid
                else if wordOrder \<noteq> [] \<and> wordOrder \<noteq> ''HIGH_LOW'' \<and> wordOrder \<noteq> ''LOW_HIGH'' then Inl ErrInvalid
                else if dataType \<in> set [''U16'', ''I16'', ''U32'', ''I32'', ''U64'', ''FLOAT32''] then Inr ()
                else Inl ErrInvalid
            | _ \<Rightarrow> Inl ErrInvalid))"

text \<open>The loop over the value mappings; the sets hold what was seen.\<close>

fun mappings_valid :: "bool \<Rightarrow> int set \<Rightarrow> int set \<Rightarrow> RegisterValueMapping list \<Rightarrow> bool" where
  "mappings_valid isAlarm seenExact seenBit [] = True"
| "mappings_valid isAlarm seenExact seenBit (m # ms) =
     (if rm_DisplayValue m = [] \<or> (rm_AlarmState m \<noteq> [] \<and> \<not> isAlarm) \<or> (rm_Severity m \<noteq> [] \<and> \<not> isAlarm)
         \<or> (rm_MatchValue m = None) = (rm_BitIndex m = None)
      then False
      else if (case rm_MatchValue m of Some v \<Rightarrow> v \<in> seenExact | None \<Rightarrow> False) then False
      else if (case rm_BitIndex m of Some b \<Rightarrow> b < 0 \<or> 63 < b \<or> b \<in> seenBit | None \<Rightarrow> False) then False
      else mappings_valid isAlarm (set_option (rm_MatchValue m) \<union> seenExact)
             (set_option (rm_BitIndex m) \<union> seenBit) ms)"

definition clean_address_input :: "RegisterProfileAddressInput \<Rightarrow> RegisterProfileAddressInput" where
  "clean_address_input input =
     (let i = clean_metadata_input input;
          i = i\<lparr>um_WordOrder := trim_space (um_WordOrder i), um_DataType := trim_space (um_DataType i),
                um_MappingMode := to_upper (trim_space (um_MappingMode i))\<rparr>;
          i = i\<lparr>um_MappingMode := if um_MappingMode i = [] then ''EXACT'' else um_MappingMode i\<rparr>
      in i\<lparr>um_BitInterpretation := if um_BitInterpretation i = [] then ''INDEPENDENT_FLAGS''
                                   else um_BitInterpretation i\<rparr>)"

definition validateRegisterProfileAddress ::
  "RegisterProfileAddressInput \<Rightarrow> CoreError + RegisterProfileAddressInput" where
  "validateRegisterProfileAddress input =
     (let i = clean_address_input input
      in if ui_AddressKey i = [] \<or> 200 < length (ui_AddressKey i) \<or> 200 < length (ui_DisplayName i)
            \<or> 40 < length (ui_Unit i) \<or> 500 < length (ui_Notes i) \<or> ui_Decimals i < 0 \<or> 9 < ui_Decimals i
            \<or> \<not> is_finite (ui_Scale i) \<or> \<not> is_finite (ui_Offset i)
         then Inl ErrInvalid
         else if um_MappingMode i \<noteq> ''EXACT'' \<and> um_MappingMode i \<noteq> ''BITMASK''
                 \<or> um_MappingMode i = ''BITMASK'' \<and> um_BitInterpretation i \<noteq> ''ONE_HOT''
                   \<and> um_BitInterpretation i \<noteq> ''INDEPENDENT_FLAGS''
         then Inl ErrInvalid
         else if ui_DataType i \<notin> set [''number'', ''boolean'', ''text'', ''enum''] then Inl ErrInvalid
         else (case validateModbusRegisterFields (um_FunctionCode i) (um_Register i) (um_WordOrder i) (um_DataType i) of
                 Inl err \<Rightarrow> Inl err
               | Inr _ \<Rightarrow> if mappings_valid (um_IsAlarm i) {} {} (um_Mappings i) then Inr i else Inl ErrInvalid))"

definition validateDeviceModelInput :: "DeviceModelInput \<Rightarrow> CoreError + DeviceModelInput" where
  "validateDeviceModelInput input0 =
     (let i = input0\<lparr>dmi_Manufacturer := trim_space (dmi_Manufacturer input0),
                     dmi_Model := trim_space (dmi_Model input0),
                     dmi_DeviceType := trim_space (dmi_DeviceType input0)\<rparr>
      in if dmi_Manufacturer i = [] \<or> dmi_Model i = [] \<or> dmi_DeviceType i = [] \<or> 200 < length (dmi_Manufacturer i)
            \<or> 200 < length (dmi_Model i) \<or> 100 < length (dmi_DeviceType i)
         then Inl ErrInvalid
         else if (case dmi_SourceTypeID i of Some t \<Rightarrow> t < 0 | None \<Rightarrow> False) then Inl ErrInvalid
         else Inr i)"

definition validateDeviceModbusFields :: "string \<Rightarrow> int option \<Rightarrow> int \<Rightarrow> CoreError + unit" where
  "validateDeviceModbusFields host port unitID =
     (if 255 < length host then Inl ErrInvalid
      else if (host = []) \<noteq> (port = None) then Inl ErrInvalid
      else if (case port of Some p \<Rightarrow> p < 1 \<or> 65535 < p | None \<Rightarrow> False) then Inl ErrInvalid
      else if unitID < 0 \<or> 255 < unitID then Inl ErrInvalid
      else Inr ())"


text \<open>\<open>^[A-Z0-9][A-Z0-9 ._()/+=-]*$\<close> of \<open>plants.go\<close>, which is not the expression of the ingestion.\<close>

definition core_plantCodeRE :: "string \<Rightarrow> bool" where
  "core_plantCodeRE s \<longleftrightarrow>
     s \<noteq> [] \<and> upper_alnum (hd s) \<and> list_all (\<lambda>c. upper_alnum c \<or> c \<in> set '' ._()/+=-'') (tl s)"

definition max_float64 :: f64 where
  "max_float64 = F_Fin False ((2 ^ 53 - 1) * 2 ^ 971)"

definition invalidNumber :: "f64 option \<Rightarrow> f64 \<Rightarrow> f64 \<Rightarrow> bool" where
  "invalidNumber value minimum maximum =
     (case value of
        None \<Rightarrow> False
      | Some v \<Rightarrow> is_nan v \<or> \<not> is_finite v \<or> f_less v minimum \<or> f_less maximum v)"

text \<open>\<open>loadLocation\<close> tells whether \<open>time.LoadLocation\<close> knows the time zone.\<close>

definition validatePlant ::
  "(string \<Rightarrow> bool) \<Rightarrow> string \<Rightarrow> string \<Rightarrow> string \<Rightarrow> f64 option \<Rightarrow> f64 option \<Rightarrow> f64 option \<Rightarrow> f64 option \<Rightarrow>
     (string \<times> string \<times> string) \<times> CoreError option" where
  "validatePlant loadLocation code name timezone latitude longitude installedDcKW installedAcKW =
     (let code = to_upper (trim_space code); name = trim_space name; timezone = trim_space timezone;
          timezone = (if timezone = [] then ''Asia/Bangkok'' else timezone)
      in ((code, name, timezone),
          if length code = 0 \<or> 100 < length code \<or> \<not> core_plantCodeRE code \<or> length name = 0 \<or> 200 < length name
             \<or> 100 < length timezone then Some ErrInvalid
          else if \<not> loadLocation timezone then Some ErrInvalid
          else if invalidNumber latitude (F_Fin True 90) (F_Fin False 90)
                  \<or> invalidNumber longitude (F_Fin True 180) (F_Fin False 180)
                  \<or> invalidNumber installedDcKW f_zero max_float64 \<or> invalidNumber installedAcKW f_zero max_float64
          then Some ErrInvalid
          else None))"

subsection \<open>Tables\<close>

text \<open>The columns a register has both in \<open>device_model_register_metadata\<close> and in \<open>register_profile_address\<close>.\<close>

record RegisterValues =
  rv_DisplayName :: string
  rv_Unit :: string
  rv_DataType :: string
  rv_Scale :: f64
  rv_Offset :: f64
  rv_Decimals :: int
  rv_IsEnabled :: bool
  rv_Notes :: string
  rv_FunctionCode :: "int option"
  rv_Register :: "int option"
  rv_WordOrder :: "string option"
  rv_ModbusDataType :: "string option"

record MetadataRow =
  me_ID :: string
  me_OrganizationID :: string
  me_DeviceModelID :: string
  me_AddressKey :: string
  me_Values :: RegisterValues

record AddressInfo =
  ai_ID :: string
  ai_OrganizationID :: string
  ai_ProfileID :: string
  ai_AddressKey :: string
  ai_Values :: RegisterValues
  ai_IsAlarm :: bool
  ai_MappingMode :: string
  ai_BitInterpretation :: string
  ai_Mappings :: "RegisterValueMapping list"

record ProfileInfo =
  pf_ID :: string
  pf_OrganizationID :: string
  pf_Name :: string
  pf_Manufacturer :: string

text \<open>\<open>plant.device_model\<close>; the last four columns are written by no statement, so they keep their defaults.\<close>

record ModelInfo =
  mi_ID :: string
  mi_OrganizationID :: string
  mi_ProfileID :: string
  mi_Manufacturer :: string
  mi_Model :: string
  mi_DeviceType :: string
  mi_SourceTypeID :: "int option"
  mi_IsActive :: bool
  mi_AddressMode :: string
  mi_ByteOrder :: string
  mi_WordOrder :: string
  mi_MaxBlockSize :: int

record DeviceInfo =
  di_ID :: string
  di_OrganizationID :: string
  di_PlantID :: string
  di_ModelID :: string
  di_ExternalID :: string
  di_Name :: string
  di_Host :: "string option"
  di_Port :: "int option"
  di_UnitID :: int
  di_Active :: bool

record PlantInfo =
  pn_ID :: string
  pn_OrganizationID :: string
  pn_Code :: string
  pn_Name :: string
  pn_Timezone :: string
  pn_Latitude :: "f64 option"
  pn_Longitude :: "f64 option"
  pn_InstalledDcKW :: "f64 option"
  pn_InstalledAcKW :: "f64 option"
  pn_LifecycleStatus :: string
  pn_IsActive :: bool
  pn_AlarmEmail :: bool
  pn_AlarmRole :: "string option"

record AuditRow =
  au_OrganizationID :: string
  au_Action :: string
  au_TargetType :: string
  au_TargetID :: string

record Registry =
  rg_Profiles :: "ProfileInfo list"
  rg_Addresses :: "AddressInfo list"
  rg_Models :: "ModelInfo list"
  rg_Metadata :: "MetadataRow list"
  rg_Devices :: "DeviceInfo list"
  rg_Plants :: "PlantInfo list"
  rg_Assigned :: "(string \<times> string) list"
  rg_Audit :: "AuditRow list"

text \<open>
  \<open>ce_perm action resource organization plant\<close> is \<open>auth.has_permission\<close> for the principal, \<open>ce_global\<close> the same
  without an organization, \<open>ce_location\<close> whether \<open>time.LoadLocation\<close> knows a time zone, \<open>ce_notify_role\<close>
  \<open>ValidateAlarmNotifyRole\<close> of a role and an organization, \<open>ce_numeric\<close> what a \<open>numeric(18,3)\<close> column keeps of a
  number, \<open>None\<close> where it overflows (\<open>22003\<close>, which \<open>mapWriteError\<close> does not know: \<open>ErrStatement\<close>).
\<close>

record CoreEnv =
  ce_perm :: "string \<Rightarrow> string \<Rightarrow> string \<Rightarrow> string option \<Rightarrow> bool"
  ce_any :: "string \<Rightarrow> string \<Rightarrow> bool"
  ce_global :: "string \<Rightarrow> string \<Rightarrow> bool"
  ce_organization :: "string option"
  ce_uuid :: "Registry \<Rightarrow> string"
  ce_models :: "ModelInfo list \<Rightarrow> ModelInfo list"
  ce_plants :: "PlantInfo list \<Rightarrow> PlantInfo list"
  ce_devices :: "DeviceInfo list \<Rightarrow> DeviceInfo list"
  ce_location :: "string \<Rightarrow> bool"
  ce_notify_role :: "string \<Rightarrow> string \<Rightarrow> bool"
  ce_numeric :: "f64 \<Rightarrow> f64 option"

definition audit :: "string \<Rightarrow> string \<Rightarrow> string \<Rightarrow> string \<Rightarrow> Registry \<Rightarrow> Registry" where
  "audit org action targetType target db =
     db\<lparr>rg_Audit := rg_Audit db @
         [\<lparr>au_OrganizationID = org, au_Action = action, au_TargetType = targetType, au_TargetID = target\<rparr>]\<rparr>"

definition nullableText :: "string \<Rightarrow> string option" where
  "nullableText value = (if value = [] then None else Some value)"

definition find_model :: "string \<Rightarrow> Registry \<Rightarrow> ModelInfo option" where
  "find_model i db = find (\<lambda>m. mi_ID m = i) (rg_Models db)"

definition find_profile :: "string \<Rightarrow> Registry \<Rightarrow> ProfileInfo option" where
  "find_profile i db = find (\<lambda>p. pf_ID p = i) (rg_Profiles db)"

definition find_plant_info :: "string \<Rightarrow> Registry \<Rightarrow> PlantInfo option" where
  "find_plant_info i db = find (\<lambda>p. pn_ID p = i) (rg_Plants db)"

subsection \<open>Lists\<close>

definition Service_DeviceModels :: "CoreEnv \<Rightarrow> Registry \<Rightarrow> CoreError + ModelInfo list" where
  "Service_DeviceModels env db =
     (if \<not> ce_any env ''read'' ''device_model'' then Inl ErrForbidden
      else Inr (take 500 (ce_models env
             (filter (\<lambda>m. ce_perm env ''read'' ''device_model'' (mi_OrganizationID m) None) (rg_Models db)))))"

definition Service_Plants :: "CoreEnv \<Rightarrow> Registry \<Rightarrow> CoreError + PlantInfo list" where
  "Service_Plants env db =
     (if \<not> ce_any env ''read'' ''plant'' then Inl ErrForbidden
      else Inr (take 200 (ce_plants env
             (filter (\<lambda>p. ce_perm env ''read'' ''plant'' (pn_OrganizationID p) (Some (pn_ID p))) (rg_Plants db)))))"

text \<open>\<open>GetAuthorizedPlantResource\<close>.\<close>

definition authorized_plant :: "CoreEnv \<Rightarrow> string \<Rightarrow> string \<Rightarrow> string \<Rightarrow> Registry \<Rightarrow> PlantInfo option" where
  "authorized_plant env action resource plantID db =
     (case find_plant_info plantID db of
        None \<Rightarrow> None
      | Some p \<Rightarrow> if ce_perm env action resource (pn_OrganizationID p) (Some (pn_ID p)) then Some p else None)"

definition Service_Devices :: "CoreEnv \<Rightarrow> string \<Rightarrow> Registry \<Rightarrow> CoreError + DeviceInfo list" where
  "Service_Devices env plantID db =
     (case authorized_plant env ''read'' ''device'' plantID db of
        None \<Rightarrow> Inl ErrNotFound
      | Some p \<Rightarrow>
          Inr (take 500 (ce_devices env
             (filter (\<lambda>d. di_OrganizationID d = pn_OrganizationID p \<and> di_PlantID d = pn_ID p) (rg_Devices db)))))"


subsection \<open>Device models\<close>

definition deviceModelInputOrganization :: "CoreEnv \<Rightarrow> string \<Rightarrow> CoreError + string" where
  "deviceModelInputOrganization env organizationID =
     (if trim_space organizationID \<noteq> [] then Inr organizationID
      else (case ce_organization env of None \<Rightarrow> Inl ErrInvalid | Some org \<Rightarrow> Inr org))"

text \<open>The row \<open>upsertDeviceModelRow\<close> inserts; the Modbus columns get their defaults.\<close>

definition new_model :: "string \<Rightarrow> string \<Rightarrow> DeviceModelInput \<Rightarrow> ModelInfo" where
  "new_model i org input =
     \<lparr>mi_ID = i, mi_OrganizationID = org, mi_ProfileID = i, mi_Manufacturer = dmi_Manufacturer input,
      mi_Model = dmi_Model input, mi_DeviceType = dmi_DeviceType input, mi_SourceTypeID = dmi_SourceTypeID input,
      mi_IsActive = dmi_IsActive input, mi_AddressMode = ''VENDOR_RAW'', mi_ByteOrder = ''BIG_ENDIAN'',
      mi_WordOrder = ''HIGH_LOW'', mi_MaxBlockSize = 30\<rparr>"

text \<open>
  The constraints a statement can violate: the unique names of a profile and of a model
  (\<open>23505\<close>, \<open>ErrConflict\<close>) and the length of the profile's name (\<open>23514\<close>, \<open>ErrInvalid\<close>).
\<close>

definition CreateDeviceModel ::
  "CoreEnv \<Rightarrow> string \<Rightarrow> DeviceModelInput \<Rightarrow> Registry \<Rightarrow> Registry \<times> (CoreError + ModelInfo)" where
  "CreateDeviceModel env organizationID input db =
     (case deviceModelInputOrganization env organizationID of
        Inl err \<Rightarrow> (db, Inl err)
      | Inr org \<Rightarrow>
     (case validateDeviceModelInput input of
        Inl err \<Rightarrow> (db, Inl err)
      | Inr input \<Rightarrow>
          let i = ce_uuid env db; name = dmi_Manufacturer input @ '' '' @ dmi_Model input in
          if \<not> ce_perm env ''create'' ''device_model'' org None then (db, Inl ErrForbidden)
          else if \<not> text_length_ok name then (db, Inl ErrInvalid)
          else if list_ex (\<lambda>p. pf_OrganizationID p = org \<and> pf_Name p = name) (rg_Profiles db)
          then (db, Inl ErrConflict)
          else if list_ex (\<lambda>m. mi_OrganizationID m = org \<and> mi_Manufacturer m = dmi_Manufacturer input
                             \<and> mi_Model m = dmi_Model input) (rg_Models db)
          then (db, Inl ErrConflict)
          else
            let db = db\<lparr>rg_Profiles := rg_Profiles db @
                         [\<lparr>pf_ID = i, pf_OrganizationID = org, pf_Name = name, pf_Manufacturer = dmi_Manufacturer input\<rparr>]\<rparr>;
                model = new_model i org input;
                db = db\<lparr>rg_Models := rg_Models db @ [model]\<rparr>
            in (audit org ''device_model.created'' ''device_model'' i db, Inr model)))"

definition UpdateDeviceModel ::
  "CoreEnv \<Rightarrow> string \<Rightarrow> DeviceModelInput \<Rightarrow> Registry \<Rightarrow> Registry \<times> (CoreError + ModelInfo)" where
  "UpdateDeviceModel env modelID input db =
     (case validateDeviceModelInput input of
        Inl err \<Rightarrow> (db, Inl err)
      | Inr input \<Rightarrow>
          (case find_model modelID db of
             None \<Rightarrow> (db, Inl ErrNotFound)
           | Some before \<Rightarrow>
               if \<not> ce_perm env ''update'' ''device_model'' (mi_OrganizationID before) None then (db, Inl ErrForbidden)
               else if list_ex (\<lambda>m. mi_OrganizationID m = mi_OrganizationID before \<and> mi_ID m \<noteq> modelID
                                  \<and> mi_Manufacturer m = dmi_Manufacturer input \<and> mi_Model m = dmi_Model input) (rg_Models db)
               then (db, Inl ErrConflict)
               else
                 let change = (\<lambda>m. m\<lparr>mi_Manufacturer := dmi_Manufacturer input, mi_Model := dmi_Model input,
                                     mi_DeviceType := dmi_DeviceType input, mi_SourceTypeID := dmi_SourceTypeID input,
                                     mi_IsActive := dmi_IsActive input\<rparr>);
                     db = db\<lparr>rg_Models := update_where (\<lambda>m. mi_ID m = modelID) change (rg_Models db)\<rparr>
                 in (audit (mi_OrganizationID before) ''device_model.updated'' ''device_model'' modelID db,
                     Inr (change before))))"

text \<open>\<open>authorizedDeviceModelScopeQuery\<close>: the organization of a model the principal may act on.\<close>

definition authorizedDeviceModelScope :: "CoreEnv \<Rightarrow> string \<Rightarrow> string \<Rightarrow> Registry \<Rightarrow> CoreError + string" where
  "authorizedDeviceModelScope env modelID action db =
     (case find_model modelID db of
        None \<Rightarrow> Inl ErrNotFound
      | Some m \<Rightarrow> if ce_perm env action ''device_model'' (mi_OrganizationID m) None then Inr (mi_OrganizationID m)
                  else Inl ErrNotFound)"

subsection \<open>Registers of a profile\<close>

definition input_values :: "RegisterProfileAddressInput \<Rightarrow> RegisterValues" where
  "input_values i =
     \<lparr>rv_DisplayName = ui_DisplayName i, rv_Unit = ui_Unit i, rv_DataType = ui_DataType i, rv_Scale = ui_Scale i,
      rv_Offset = ui_Offset i, rv_Decimals = ui_Decimals i, rv_IsEnabled = ui_IsEnabled i, rv_Notes = ui_Notes i,
      rv_FunctionCode = um_FunctionCode i, rv_Register = um_Register i, rv_WordOrder = nullableText (um_WordOrder i),
      rv_ModbusDataType = nullableText (um_DataType i)\<rparr>"

text \<open>The constraints of \<open>register_value_mapping\<close> that validation does not imply.\<close>

definition mapping_row_ok :: "RegisterValueMapping \<Rightarrow> bool" where
  "mapping_row_ok m \<longleftrightarrow> text_length_ok (rm_DisplayValue m) \<and> (rm_AlarmState m \<noteq> [] \<longrightarrow> rm_Severity m \<noteq> [])"

text \<open>\<open>INSERT .. ON CONFLICT (organization_id, profile_id, address_key) DO UPDATE\<close>.\<close>

definition upsert_address :: "AddressInfo \<Rightarrow> AddressInfo list \<Rightarrow> AddressInfo list" where
  "upsert_address a as =
     (let same = (\<lambda>b. ai_OrganizationID b = ai_OrganizationID a \<and> ai_ProfileID b = ai_ProfileID a
                      \<and> ai_AddressKey b = ai_AddressKey a)
      in if list_ex same as then update_where same (\<lambda>b. a\<lparr>ai_ID := ai_ID b\<rparr>) as else as @ [a])"

definition stored_address :: "AddressInfo \<Rightarrow> AddressInfo list \<Rightarrow> AddressInfo" where
  "stored_address a as =
     (case find (\<lambda>b. ai_OrganizationID b = ai_OrganizationID a \<and> ai_ProfileID b = ai_ProfileID a
                   \<and> ai_AddressKey b = ai_AddressKey a) as of
        None \<Rightarrow> a
      | Some b \<Rightarrow> a\<lparr>ai_ID := ai_ID b\<rparr>)"

definition UpsertRegisterProfileAddress ::
  "CoreEnv \<Rightarrow> string \<Rightarrow> RegisterProfileAddressInput \<Rightarrow> Registry \<Rightarrow> Registry \<times> (CoreError + AddressInfo)" where
  "UpsertRegisterProfileAddress env profileID input db =
     (case validateRegisterProfileAddress input of
        Inl err \<Rightarrow> (db, Inl err)
      | Inr input \<Rightarrow>
          (case find_profile profileID db of
             None \<Rightarrow> (db, Inl ErrNotFound)
           | Some p \<Rightarrow>
               let org = pf_OrganizationID p in
               if \<not> ce_perm env ''update'' ''device_model'' org None then (db, Inl ErrForbidden)
               else if \<not> (um_IsAlarm input \<or> um_MappingMode input = ''EXACT'')
                       \<or> um_BitInterpretation input \<notin> set [''ONE_HOT'', ''INDEPENDENT_FLAGS'']
               then (db, Inl ErrInvalid)
               else if \<not> list_all mapping_row_ok (um_Mappings input) then (db, Inl ErrInvalid)
               else
                 let a = \<lparr>ai_ID = ce_uuid env db, ai_OrganizationID = org, ai_ProfileID = profileID,
                          ai_AddressKey = ui_AddressKey input, ai_Values = input_values input,
                          ai_IsAlarm = um_IsAlarm input, ai_MappingMode = um_MappingMode input,
                          ai_BitInterpretation = um_BitInterpretation input, ai_Mappings = um_Mappings input\<rparr>;
                     db' = db\<lparr>rg_Addresses := upsert_address a (rg_Addresses db)\<rparr>
                 in (audit org ''register_profile_address.updated'' ''register_profile'' profileID db',
                     Inr (stored_address a (rg_Addresses db)))))"

text \<open>\<open>INSERT .. ON CONFLICT (organization_id, device_model_id, address_key) DO UPDATE\<close>.\<close>

definition upsert_metadata :: "MetadataRow \<Rightarrow> MetadataRow list \<Rightarrow> MetadataRow list" where
  "upsert_metadata r rows =
     (let same = (\<lambda>b. me_OrganizationID b = me_OrganizationID r \<and> me_DeviceModelID b = me_DeviceModelID r
                      \<and> me_AddressKey b = me_AddressKey r)
      in if list_ex same rows then update_where same (\<lambda>b. b\<lparr>me_Values := me_Values r\<rparr>) rows else rows @ [r])"

text \<open>
  \<open>SetDeviceModelRegisterMetadata\<close>: one transaction on the metadata of the model, and after its commit
  another one on the profile the model has.
\<close>

definition SetDeviceModelRegisterMetadata ::
  "CoreEnv \<Rightarrow> string \<Rightarrow> UpdateDeviceModelRegisterMetadataInput \<Rightarrow> Registry \<Rightarrow> Registry \<times> (CoreError + AddressInfo)" where
  "SetDeviceModelRegisterMetadata env modelID input db =
     (case validateRegisterMetadata input of
        Inl err \<Rightarrow> (db, Inl err)
      | Inr input \<Rightarrow>
          let input = input\<lparr>um_WordOrder := trim_space (um_WordOrder input), um_DataType := trim_space (um_DataType input)\<rparr> in
          (case validateModbusRegisterFields (um_FunctionCode input) (um_Register input) (um_WordOrder input)
                  (um_DataType input) of
             Inl err \<Rightarrow> (db, Inl err)
           | Inr _ \<Rightarrow>
               (case authorizedDeviceModelScope env modelID ''update'' db of
                  Inl err \<Rightarrow> (db, Inl err)
                | Inr org \<Rightarrow>
                    let row = \<lparr>me_ID = ce_uuid env db, me_OrganizationID = org, me_DeviceModelID = modelID,
                               me_AddressKey = ui_AddressKey input, me_Values = input_values input\<rparr>;
                        db = db\<lparr>rg_Metadata := upsert_metadata row (rg_Metadata db)\<rparr>;
                        db = audit org ''device_model_register_metadata.updated'' ''device_model'' modelID db
                    in (case find_model modelID db of
                          None \<Rightarrow> (db, Inl ErrNotFound)
                        | Some m \<Rightarrow> UpsertRegisterProfileAddress env (mi_ProfileID m) input db))))"


definition DeleteDeviceModelRegisterMetadata ::
  "CoreEnv \<Rightarrow> string \<Rightarrow> string \<Rightarrow> Registry \<Rightarrow> Registry \<times> CoreError option" where
  "DeleteDeviceModelRegisterMetadata env modelID addressKey0 db =
     (let addressKey = trim_space addressKey0 in
      if addressKey = [] \<or> 200 < length addressKey then (db, Some ErrInvalid)
      else (case authorizedDeviceModelScope env modelID ''update'' db of
              Inl err \<Rightarrow> (db, Some err)
            | Inr org \<Rightarrow>
                let here = (\<lambda>r. me_OrganizationID r = org \<and> me_DeviceModelID r = modelID \<and> me_AddressKey r = addressKey)
                in if \<not> list_ex here (rg_Metadata db) then (db, Some ErrNotFound)
                   else
                     let profile = (case find_model modelID db of Some m \<Rightarrow> mi_ProfileID m | None \<Rightarrow> []);
                         db = db\<lparr>rg_Metadata := filter (\<lambda>r. \<not> here r) (rg_Metadata db)\<rparr>;
                         db = db\<lparr>rg_Addresses := filter (\<lambda>a. \<not> (ai_OrganizationID a = org \<and> ai_ProfileID a = profile
                                                             \<and> ai_AddressKey a = addressKey)) (rg_Addresses db)\<rparr>
                     in (audit org ''device_model_register_metadata.deleted'' ''device_model'' modelID db, None)))"

definition pruneModbusRegisterMetadata ::
  "CoreEnv \<Rightarrow> string \<Rightarrow> string set \<Rightarrow> Registry \<Rightarrow> Registry \<times> (CoreError + nat)" where
  "pruneModbusRegisterMetadata env modelID keepKeys db =
     (case authorizedDeviceModelScope env modelID ''update'' db of
        Inl err \<Rightarrow> (db, Inl err)
      | Inr org \<Rightarrow>
          let stale = (\<lambda>r. me_OrganizationID r = org \<and> me_DeviceModelID r = modelID
                        \<and> rv_FunctionCode (me_Values r) \<noteq> None \<and> me_AddressKey r \<notin> keepKeys);
              n = length (filter stale (rg_Metadata db))
          in if n = 0 then (db, Inr 0)
             else
               let db = db\<lparr>rg_Metadata := filter (\<lambda>r. \<not> stale r) (rg_Metadata db)\<rparr>
               in (audit org ''device_model_register_metadata.pruned'' ''device_model'' modelID db, Inr n))"

definition CreateRegisterProfile ::
  "CoreEnv \<Rightarrow> string \<Rightarrow> string \<Rightarrow> string \<Rightarrow> string \<Rightarrow> Registry \<Rightarrow> Registry \<times> (CoreError + ProfileInfo)" where
  "CreateRegisterProfile env organizationID name0 manufacturer0 description0 db =
     (let organization = (if trim_space organizationID \<noteq> [] then Some organizationID else ce_organization env);
          name = trim_space name0; manufacturer = trim_space manufacturer0; description = trim_space description0
      in (case organization of
            None \<Rightarrow> (db, Inl ErrInvalid)
          | Some org \<Rightarrow>
              if name = [] \<or> 200 < length name \<or> 500 < length description then (db, Inl ErrInvalid)
              else if \<not> ce_perm env ''create'' ''device_model'' org None then (db, Inl ErrForbidden)
              else if list_ex (\<lambda>p. pf_OrganizationID p = org \<and> pf_Name p = name) (rg_Profiles db)
              then (db, Inl ErrConflict)
              else
                let p = \<lparr>pf_ID = ce_uuid env db, pf_OrganizationID = org, pf_Name = name, pf_Manufacturer = manufacturer\<rparr>;
                    db = db\<lparr>rg_Profiles := rg_Profiles db @ [p]\<rparr>
                in (audit org ''register_profile.created'' ''register_profile'' (pf_ID p) db, Inr p)))"

definition AssignRegisterProfile :: "CoreEnv \<Rightarrow> string \<Rightarrow> string \<Rightarrow> Registry \<Rightarrow> Registry \<times> CoreError option" where
  "AssignRegisterProfile env modelID profileID db =
     (case find_model modelID db of
        None \<Rightarrow> (db, Some ErrNotFound)
      | Some m \<Rightarrow>
          let org = mi_OrganizationID m in
          if \<not> ce_perm env ''update'' ''device_model'' org None then (db, Some ErrForbidden)
          else (case find_profile profileID db of
                  None \<Rightarrow> (db, Some ErrNotFound)
                | Some p \<Rightarrow>
                    if pf_OrganizationID p \<noteq> org then (db, Some ErrInvalid)
                    else
                      let db = db\<lparr>rg_Models := update_where (\<lambda>m. mi_OrganizationID m = org \<and> mi_ID m = modelID)
                                   (\<lambda>m. m\<lparr>mi_ProfileID := profileID\<rparr>) (rg_Models db)\<rparr>
                      in (audit org ''device_model.register_profile_assigned'' ''device_model'' modelID db, None)))"

subsection \<open>Devices\<close>

definition CreateDevice ::
  "CoreEnv \<Rightarrow> string \<Rightarrow> CreateDeviceInput \<Rightarrow> Registry \<Rightarrow> Registry \<times> (CoreError + DeviceInfo)" where
  "CreateDevice env plantID input0 db =
     (let input = input0\<lparr>cdi_ExternalID := trim_space (cdi_ExternalID input0), udi_Name := trim_space (udi_Name input0),
                         udi_ModbusHost := trim_space (udi_ModbusHost input0)\<rparr>
      in if cdi_ExternalID input = [] \<or> udi_Name input = [] \<or> 200 < length (cdi_ExternalID input)
            \<or> 200 < length (udi_Name input)
         then (db, Inl ErrInvalid)
         else (case validateDeviceModbusFields (udi_ModbusHost input) (udi_ModbusPort input) (udi_ModbusUnitID input) of
                 Inl err \<Rightarrow> (db, Inl err)
               | Inr _ \<Rightarrow>
                   (case authorized_plant env ''create'' ''device'' plantID db of
                      None \<Rightarrow> (db, Inl ErrNotFound)
                    | Some plant \<Rightarrow>
                        (case find_model (udi_DeviceModelID input) db of
                           None \<Rightarrow> (db, Inl ErrInvalid)
                         | Some model \<Rightarrow>
                             if mi_OrganizationID model \<noteq> pn_OrganizationID plant then (db, Inl ErrInvalid)
                             else if list_ex (\<lambda>d. di_OrganizationID d = pn_OrganizationID plant \<and> di_PlantID d = pn_ID plant
                                              \<and> di_ExternalID d = cdi_ExternalID input) (rg_Devices db)
                             then (db, Inl ErrConflict)
                             else
                               let d = \<lparr>di_ID = ce_uuid env db, di_OrganizationID = pn_OrganizationID plant,
                                        di_PlantID = pn_ID plant, di_ModelID = udi_DeviceModelID input,
                                        di_ExternalID = cdi_ExternalID input, di_Name = udi_Name input,
                                        di_Host = nullableText (udi_ModbusHost input), di_Port = udi_ModbusPort input,
                                        di_UnitID = udi_ModbusUnitID input, di_Active = udi_IsActive input\<rparr>;
                                   db = db\<lparr>rg_Devices := rg_Devices db @ [d]\<rparr>
                               in (audit (pn_OrganizationID plant) ''device.created'' ''device'' (di_ID d) db, Inr d)))))"

text \<open>\<open>getDeviceForUpdate\<close>.\<close>

definition getDeviceForUpdate :: "CoreEnv \<Rightarrow> string \<Rightarrow> string \<Rightarrow> Registry \<Rightarrow> DeviceInfo option" where
  "getDeviceForUpdate env plantID deviceID db =
     find (\<lambda>d. di_ID d = deviceID \<and> di_PlantID d = plantID
             \<and> ce_perm env ''update'' ''device'' (di_OrganizationID d) (Some (di_PlantID d))) (rg_Devices db)"

definition UpdateDevice ::
  "CoreEnv \<Rightarrow> string \<Rightarrow> string \<Rightarrow> UpdateDeviceInput \<Rightarrow> Registry \<Rightarrow> Registry \<times> (CoreError + DeviceInfo)" where
  "UpdateDevice env plantID deviceID input0 db =
     (let input = input0\<lparr>udi_Name := trim_space (udi_Name input0), udi_ModbusHost := trim_space (udi_ModbusHost input0)\<rparr>
      in if udi_Name input = [] \<or> 200 < length (udi_Name input) then (db, Inl ErrInvalid)
         else (case validateDeviceModbusFields (udi_ModbusHost input) (udi_ModbusPort input) (udi_ModbusUnitID input) of
                 Inl err \<Rightarrow> (db, Inl err)
               | Inr _ \<Rightarrow>
                   (case getDeviceForUpdate env plantID deviceID db of
                      None \<Rightarrow> (db, Inl ErrNotFound)
                    | Some current \<Rightarrow>
                        (case find_model (udi_DeviceModelID input) db of
                           None \<Rightarrow> (db, Inl ErrInvalid)
                         | Some model \<Rightarrow>
                             if mi_OrganizationID model \<noteq> di_OrganizationID current then (db, Inl ErrInvalid)
                             else
                               let change = (\<lambda>d. d\<lparr>di_Name := udi_Name input, di_ModelID := udi_DeviceModelID input,
                                                   di_Host := nullableText (udi_ModbusHost input),
                                                   di_Port := udi_ModbusPort input, di_UnitID := udi_ModbusUnitID input,
                                                   di_Active := udi_IsActive input\<rparr>);
                                   db = db\<lparr>rg_Devices := update_where (\<lambda>d. di_ID d = deviceID) change (rg_Devices db)\<rparr>
                               in (audit (di_OrganizationID current) ''device.updated'' ''device'' deviceID db,
                                   Inr (change current))))))"


subsection \<open>Tables with a unique key\<close>

text \<open>
  What an \<open>ON CONFLICT (key) DO UPDATE\<close> promises of a table whose rows have distinct keys: the keys stay
  distinct, the row of the key is the new one merged into the old, every other row stays.
\<close>

definition upsert_by :: "('a \<Rightarrow> 'k) \<Rightarrow> ('a \<Rightarrow> 'a \<Rightarrow> 'a) \<Rightarrow> 'a \<Rightarrow> 'a list \<Rightarrow> 'a list" where
  "upsert_by key merge r rows =
     (if list_ex (\<lambda>b. key b = key r) rows then update_where (\<lambda>b. key b = key r) (merge r) rows else rows @ [r])"

locale upsert_table =
  fixes key :: "'a \<Rightarrow> 'k" and merge :: "'a \<Rightarrow> 'a \<Rightarrow> 'a"
  assumes key_merge: "key b = key r \<Longrightarrow> key (merge r b) = key r"
begin

lemma distinct_upsert:
  assumes "distinct (map key rows)" shows "distinct (map key (upsert_by key merge r rows))"
proof (cases "list_ex (\<lambda>b. key b = key r) rows")
  case True
  have "map key (update_where (\<lambda>b. key b = key r) (merge r) rows) = map key rows"
    by (rule update_where_map) (use key_merge in auto)
  with True assms show ?thesis by (simp add: upsert_by_def)
next
  case False
  with assms show ?thesis by (auto simp: upsert_by_def list_ex_iff)
qed

lemma set_upsert:
  assumes "x \<in> set (upsert_by key merge r rows)"
  obtains "x \<in> set rows" "key x \<noteq> key r" | b where "b \<in> set rows" "key b = key r" "x = merge r b" | "x = r"
  using assms that by (auto simp: upsert_by_def set_update_where list_ex_iff split: if_splits)

lemma upsert_keeps: "x \<in> set rows \<Longrightarrow> key x \<noteq> key r \<Longrightarrow> x \<in> set (upsert_by key merge r rows)"
  by (auto simp: upsert_by_def set_update_where)

lemma keys_upsert: "key ` set (upsert_by key merge r rows) = insert (key r) (key ` set rows)"
proof (cases "list_ex (\<lambda>b. key b = key r) rows")
  case True
  have "map key (update_where (\<lambda>b. key b = key r) (merge r) rows) = map key rows"
    by (rule update_where_map) (use key_merge in auto)
  then have "key ` set (update_where (\<lambda>b. key b = key r) (merge r) rows) = key ` set rows"
    by (metis set_map)
  moreover have "key r \<in> key ` set rows" using True by (auto simp: list_ex_iff intro: rev_image_eqI)
  ultimately show ?thesis using True by (auto simp: upsert_by_def)
next
  case False
  then show ?thesis by (auto simp: upsert_by_def)
qed

end

definition address_key :: "AddressInfo \<Rightarrow> string \<times> string \<times> string" where
  "address_key a = (ai_OrganizationID a, ai_ProfileID a, ai_AddressKey a)"

definition metadata_key :: "MetadataRow \<Rightarrow> string \<times> string \<times> string" where
  "metadata_key r = (me_OrganizationID r, me_DeviceModelID r, me_AddressKey r)"

interpretation addresses: upsert_table address_key "\<lambda>a b. a\<lparr>ai_ID := ai_ID b\<rparr>"
  by unfold_locales (simp add: address_key_def)

interpretation metadata: upsert_table metadata_key "\<lambda>r b. b\<lparr>me_Values := me_Values r\<rparr>"
  by unfold_locales (simp add: metadata_key_def)

lemma upsert_address_by: "upsert_address a as = upsert_by address_key (\<lambda>a b. a\<lparr>ai_ID := ai_ID b\<rparr>) a as"
  by (simp add: upsert_address_def upsert_by_def address_key_def Let_def)

lemma upsert_metadata_by: "upsert_metadata r rows = upsert_by metadata_key (\<lambda>r b. b\<lparr>me_Values := me_Values r\<rparr>) r rows"
  by (simp add: upsert_metadata_def upsert_by_def metadata_key_def Let_def)

subsection \<open>A registry in order\<close>

definition modbus_data_types :: "string list" where
  "modbus_data_types = [''U16'', ''I16'', ''U32'', ''I32'', ''U64'', ''FLOAT32'']"

text \<open>A register that is named, and that the gateway can be told to read if it has a function code.\<close>

definition values_ok :: "RegisterValues \<Rightarrow> bool" where
  "values_ok v \<longleftrightarrow>
     rv_DisplayName v \<noteq> [] \<and> trim_space (rv_DisplayName v) = rv_DisplayName v \<and> is_finite (rv_Scale v)
     \<and> (case rv_FunctionCode v of
          None \<Rightarrow> rv_Register v = None \<and> rv_ModbusDataType v = None
        | Some fc \<Rightarrow> fc \<in> {3, 4}
            \<and> (case rv_Register v of None \<Rightarrow> False | Some r \<Rightarrow> 0 \<le> r \<and> r \<le> 65535)
            \<and> (case rv_ModbusDataType v of None \<Rightarrow> False | Some t \<Rightarrow> t \<in> set modbus_data_types)
            \<and> rv_WordOrder v \<in> {None, Some ''HIGH_LOW'', Some ''LOW_HIGH''})"

definition clean_text :: "string \<Rightarrow> bool" where
  "clean_text s \<longleftrightarrow> s \<noteq> [] \<and> trim_space s = s"

definition model_ok :: "ModelInfo \<Rightarrow> bool" where
  "model_ok m \<longleftrightarrow>
     clean_text (mi_Manufacturer m) \<and> clean_text (mi_Model m) \<and> clean_text (mi_DeviceType m)
     \<and> mi_AddressMode m = ''VENDOR_RAW'' \<and> mi_ByteOrder m = ''BIG_ENDIAN'' \<and> mi_WordOrder m = ''HIGH_LOW''
     \<and> mi_MaxBlockSize m = 30"

definition device_ok :: "DeviceInfo \<Rightarrow> bool" where
  "device_ok d \<longleftrightarrow>
     clean_text (di_ExternalID d) \<and> clean_text (di_Name d) \<and> 0 \<le> di_UnitID d \<and> di_UnitID d \<le> 255
     \<and> (case (di_Host d, di_Port d) of
          (None, None) \<Rightarrow> True
        | (Some h, Some p) \<Rightarrow> clean_text h \<and> 1 \<le> p \<and> p \<le> 65535
        | _ \<Rightarrow> False)"

definition plant_ok :: "PlantInfo \<Rightarrow> bool" where
  "plant_ok p \<longleftrightarrow> clean_text (pn_Code p) \<and> clean_text (pn_Name p)"

definition model_key :: "ModelInfo \<Rightarrow> string \<times> string \<times> string" where
  "model_key m = (mi_OrganizationID m, mi_Manufacturer m, mi_Model m)"

definition device_key :: "DeviceInfo \<Rightarrow> string \<times> string \<times> string" where
  "device_key d = (di_OrganizationID d, di_PlantID d, di_ExternalID d)"

definition plant_key :: "PlantInfo \<Rightarrow> string \<times> string" where
  "plant_key p = (pn_OrganizationID p, pn_Code p)"

definition profile_key :: "ProfileInfo \<Rightarrow> string \<times> string" where
  "profile_key p = (pf_OrganizationID p, pf_Name p)"

text \<open>The ids and keys are unique, and the rows are what the operations validate.\<close>

definition keys_ok :: "Registry \<Rightarrow> bool" where
  "keys_ok db \<longleftrightarrow>
     distinct (map pf_ID (rg_Profiles db)) \<and> distinct (map profile_key (rg_Profiles db))
     \<and> distinct (map mi_ID (rg_Models db)) \<and> distinct (map model_key (rg_Models db))
     \<and> distinct (map di_ID (rg_Devices db)) \<and> distinct (map device_key (rg_Devices db))
     \<and> distinct (map address_key (rg_Addresses db)) \<and> distinct (map metadata_key (rg_Metadata db))
     \<and> distinct (map pn_ID (rg_Plants db)) \<and> distinct (map plant_key (rg_Plants db))"

definition rows_ok :: "Registry \<Rightarrow> bool" where
  "rows_ok db \<longleftrightarrow>
     list_all (\<lambda>a. values_ok (ai_Values a)) (rg_Addresses db) \<and> list_all (\<lambda>r. values_ok (me_Values r)) (rg_Metadata db)
     \<and> list_all model_ok (rg_Models db) \<and> list_all device_ok (rg_Devices db) \<and> list_all plant_ok (rg_Plants db)"

text \<open>The foreign keys, with the organization in each of them.\<close>

definition references_ok :: "Registry \<Rightarrow> bool" where
  "references_ok db \<longleftrightarrow>
     (\<forall>m \<in> set (rg_Models db). (mi_OrganizationID m, mi_ProfileID m) \<in> (\<lambda>p. (pf_OrganizationID p, pf_ID p)) ` set (rg_Profiles db))
     \<and> (\<forall>a \<in> set (rg_Addresses db). (ai_OrganizationID a, ai_ProfileID a) \<in> (\<lambda>p. (pf_OrganizationID p, pf_ID p)) ` set (rg_Profiles db))
     \<and> (\<forall>r \<in> set (rg_Metadata db). (me_OrganizationID r, me_DeviceModelID r) \<in> (\<lambda>m. (mi_OrganizationID m, mi_ID m)) ` set (rg_Models db))
     \<and> (\<forall>d \<in> set (rg_Devices db). (di_OrganizationID d, di_ModelID d) \<in> (\<lambda>m. (mi_OrganizationID m, mi_ID m)) ` set (rg_Models db)
          \<and> (di_OrganizationID d, di_PlantID d) \<in> (\<lambda>p. (pn_OrganizationID p, pn_ID p)) ` set (rg_Plants db))"

definition registry_ok :: "Registry \<Rightarrow> bool" where
  "registry_ok db \<longleftrightarrow> keys_ok db \<and> rows_ok db \<and> references_ok db"

definition used_ids :: "Registry \<Rightarrow> string list" where
  "used_ids db = map pf_ID (rg_Profiles db) @ map ai_ID (rg_Addresses db) @ map mi_ID (rg_Models db)
     @ map me_ID (rg_Metadata db) @ map di_ID (rg_Devices db) @ map pn_ID (rg_Plants db)"

text \<open>The ids drawn from \<open>crypto/rand\<close> are not drawn twice.\<close>

definition fresh_ids :: "CoreEnv \<Rightarrow> bool" where
  "fresh_ids env \<longleftrightarrow> (\<forall>db. ce_uuid env db \<notin> set (used_ids db))"


subsection \<open>Every operation keeps the registry in order\<close>

lemma audit_ok [simp]: "registry_ok (audit org action t i db) = registry_ok db"
  by (simp add: registry_ok_def keys_ok_def rows_ok_def references_ok_def audit_def)

lemma find_model_Some:
  assumes "find_model i db = Some m" shows "m \<in> set (rg_Models db)" and "mi_ID m = i"
  using assms by (auto simp: find_model_def find_Some_iff)

lemma find_profile_Some:
  assumes "find_profile i db = Some p" shows "p \<in> set (rg_Profiles db)" and "pf_ID p = i"
  using assms by (auto simp: find_profile_def find_Some_iff)

lemma authorized_plant_Some:
  assumes "authorized_plant env action resource i db = Some p"
  shows "p \<in> set (rg_Plants db)" and "pn_ID p = i"
  using assms by (auto simp: authorized_plant_def find_plant_info_def find_Some_iff split: option.splits if_splits)

lemma validateModbusRegisterFields_ok:
  assumes "validateModbusRegisterFields fc r wo t = Inr ()" and "fc \<noteq> None"
  shows "\<exists>f a. fc = Some f \<and> r = Some a \<and> f \<in> {3, 4} \<and> 0 \<le> a \<and> a \<le> 65535 \<and> t \<in> set modbus_data_types
    \<and> wo \<in> {[], ''HIGH_LOW'', ''LOW_HIGH''}"
  using assms
  by (auto simp: validateModbusRegisterFields_def modbus_data_types_def split: if_splits option.splits)

lemma validateModbusRegisterFields_none:
  assumes "validateModbusRegisterFields None r wo t = Inr ()" shows "r = None \<and> t = []"
  using assms by (auto simp: validateModbusRegisterFields_def split: if_splits option.splits)

lemma input_values_ok:
  assumes "clean_text (ui_DisplayName i)" and "is_finite (ui_Scale i)"
    and m: "validateModbusRegisterFields (um_FunctionCode i) (um_Register i) (um_WordOrder i) (um_DataType i) = Inr ()"
  shows "values_ok (input_values i)"
proof (cases "um_FunctionCode i")
  case None
  with validateModbusRegisterFields_none [of "um_Register i" "um_WordOrder i" "um_DataType i"] m assms(1,2)
  show ?thesis by (simp add: values_ok_def input_values_def clean_text_def nullableText_def)
next
  case (Some fc)
  with validateModbusRegisterFields_ok [OF m] assms(1,2)
  show ?thesis by (auto simp: values_ok_def input_values_def clean_text_def nullableText_def modbus_data_types_def)
qed

lemma clean_metadata_input_sel:
  "ui_AddressKey (clean_metadata_input i) = trim_space (ui_AddressKey i)"
  "ui_DisplayName (clean_metadata_input i) =
     (if trim_space (ui_DisplayName i) = [] then trim_space (ui_AddressKey i) else trim_space (ui_DisplayName i))"
  by (simp_all add: clean_metadata_input_def Let_def)

lemma clean_address_input_sel:
  "ui_AddressKey (clean_address_input i) = trim_space (ui_AddressKey i)"
  "ui_DisplayName (clean_address_input i) =
     (if trim_space (ui_DisplayName i) = [] then trim_space (ui_AddressKey i) else trim_space (ui_DisplayName i))"
  by (simp_all add: clean_address_input_def clean_metadata_input_sel Let_def)

lemma validateRegisterMetadata_Inr:
  assumes "validateRegisterMetadata input = Inr i"
  shows "i = clean_metadata_input input" and "ui_DisplayName i \<noteq> []" and "ui_AddressKey i \<noteq> []"
    and "is_finite (ui_Scale i)"
  using assms by (auto simp: validateRegisterMetadata_def Let_def split: if_splits)

lemma validateRegisterMetadata_ok:
  assumes "validateRegisterMetadata input = Inr i"
  shows "clean_text (ui_DisplayName i)" and "is_finite (ui_Scale i)" and "clean_text (ui_AddressKey i)"
  using validateRegisterMetadata_Inr [OF assms] by (auto simp: clean_text_def clean_metadata_input_sel)

lemma validateRegisterProfileAddress_Inr:
  assumes "validateRegisterProfileAddress input = Inr i"
  shows "i = clean_address_input input" and "ui_AddressKey i \<noteq> []" and "is_finite (ui_Scale i)"
    and "validateModbusRegisterFields (um_FunctionCode i) (um_Register i) (um_WordOrder i) (um_DataType i) = Inr ()"
  using assms by (auto simp: validateRegisterProfileAddress_def Let_def split: if_splits sum.splits)

lemma validateRegisterProfileAddress_ok:
  assumes "validateRegisterProfileAddress input = Inr i"
  shows "clean_text (ui_DisplayName i)" and "is_finite (ui_Scale i)"
    and "validateModbusRegisterFields (um_FunctionCode i) (um_Register i) (um_WordOrder i) (um_DataType i) = Inr ()"
  using validateRegisterProfileAddress_Inr [OF assms] by (auto simp: clean_text_def clean_address_input_sel)

lemma validateDeviceModelInput_ok:
  assumes "validateDeviceModelInput input = Inr i"
  shows "clean_text (dmi_Manufacturer i)" "clean_text (dmi_Model i)" "clean_text (dmi_DeviceType i)"
  using assms by (auto simp: validateDeviceModelInput_def Let_def clean_text_def split: if_splits)


lemma unused_id:
  assumes "fresh_ids env"
  shows "ce_uuid env db \<notin> pf_ID ` set (rg_Profiles db)" "ce_uuid env db \<notin> mi_ID ` set (rg_Models db)"
    "ce_uuid env db \<notin> di_ID ` set (rg_Devices db)" "ce_uuid env db \<notin> pn_ID ` set (rg_Plants db)"
  using assms by (auto simp: fresh_ids_def used_ids_def)

lemma add_model_ok:
  assumes ok: "registry_ok db" and i: "i \<notin> pf_ID ` set (rg_Profiles db)" "i \<notin> mi_ID ` set (rg_Models db)"
    and p: "(org, name) \<notin> profile_key ` set (rg_Profiles db)"
    and m: "(org, dmi_Manufacturer input, dmi_Model input) \<notin> model_key ` set (rg_Models db)"
    and c: "clean_text (dmi_Manufacturer input)" "clean_text (dmi_Model input)" "clean_text (dmi_DeviceType input)"
  shows "registry_ok (db\<lparr>rg_Profiles := rg_Profiles db @
      [\<lparr>pf_ID = i, pf_OrganizationID = org, pf_Name = name, pf_Manufacturer = man\<rparr>],
      rg_Models := rg_Models db @ [new_model i org input]\<rparr>)"
proof -
  have "model_ok (new_model i org input)" using c by (simp add: model_ok_def new_model_def)
  moreover have "model_key (new_model i org input) = (org, dmi_Manufacturer input, dmi_Model input)"
    by (simp add: model_key_def new_model_def)
  moreover have "mi_ID (new_model i org input) = i" "mi_ProfileID (new_model i org input) = i"
    "mi_OrganizationID (new_model i org input) = org" by (simp_all add: new_model_def)
  ultimately show ?thesis
    using ok i p m
    by (auto simp: registry_ok_def keys_ok_def rows_ok_def references_ok_def profile_key_def)
qed

lemma CreateDeviceModel_ok:
  assumes "registry_ok db" and "fresh_ids env"
  shows "registry_ok (fst (CreateDeviceModel env org input db))"
proof -
  note u = unused_id [OF assms(2), of db]
  have "registry_ok (db\<lparr>rg_Profiles := rg_Profiles db @ [\<lparr>pf_ID = ce_uuid env db, pf_OrganizationID = og,
          pf_Name = name, pf_Manufacturer = dmi_Manufacturer i\<rparr>],
        rg_Models := rg_Models db @ [new_model (ce_uuid env db) og i]\<rparr>)"
    if "validateDeviceModelInput input = Inr i"
      "\<not> list_ex (\<lambda>p. pf_OrganizationID p = og \<and> pf_Name p = name) (rg_Profiles db)"
      "\<not> list_ex (\<lambda>m. mi_OrganizationID m = og \<and> mi_Manufacturer m = dmi_Manufacturer i \<and> mi_Model m = dmi_Model i) (rg_Models db)"
    for og i name
    using that(2,3) by (intro add_model_ok assms u validateDeviceModelInput_ok [OF that(1)])
      (auto simp: profile_key_def model_key_def list_ex_iff)
  then show ?thesis
    using assms(1) by (auto simp: CreateDeviceModel_def Let_def split: sum.splits)
qed

lemma update_models_ok:
  assumes ok: "registry_ok db" and i: "\<And>m. mi_ID (f m) = mi_ID m" "\<And>m. mi_OrganizationID (f m) = mi_OrganizationID m"
    and m: "\<And>m. m \<in> set (rg_Models db) \<Longrightarrow> P m \<Longrightarrow> model_ok (f m)"
    and p: "\<And>m. m \<in> set (rg_Models db) \<Longrightarrow> P m \<Longrightarrow>
      (mi_OrganizationID m, mi_ProfileID (f m)) \<in> (\<lambda>p. (pf_OrganizationID p, pf_ID p)) ` set (rg_Profiles db)"
    and k: "distinct (map model_key (update_where P f (rg_Models db)))"
  shows "registry_ok (db\<lparr>rg_Models := update_where P f (rg_Models db)\<rparr>)"
proof -
  have "map mi_ID (update_where P f (rg_Models db)) = map mi_ID (rg_Models db)"
    by (rule update_where_map) (use i in auto)
  moreover have s: "map (\<lambda>m. (mi_OrganizationID m, mi_ID m)) (update_where P f (rg_Models db))
      = map (\<lambda>m. (mi_OrganizationID m, mi_ID m)) (rg_Models db)"
    by (rule update_where_map) (use i in auto)
  have "(\<lambda>m. (mi_OrganizationID m, mi_ID m)) ` set (update_where P f (rg_Models db))
      = (\<lambda>m. (mi_OrganizationID m, mi_ID m)) ` set (rg_Models db)"
    using arg_cong [OF s, of set] by simp
  moreover have "list_all model_ok (update_where P f (rg_Models db))"
    using ok m by (auto simp: registry_ok_def rows_ok_def list_all_iff set_update_where)
  moreover have "\<forall>m \<in> set (update_where P f (rg_Models db)).
      (mi_OrganizationID m, mi_ProfileID m) \<in> (\<lambda>p. (pf_OrganizationID p, pf_ID p)) ` set (rg_Profiles db)"
  proof
    fix x assume "x \<in> set (update_where P f (rg_Models db))"
    then consider "x \<in> set (rg_Models db)" | m where "m \<in> set (rg_Models db)" "P m" "x = f m"
      by (auto simp: set_update_where)
    then show "(mi_OrganizationID x, mi_ProfileID x) \<in> (\<lambda>p. (pf_OrganizationID p, pf_ID p)) ` set (rg_Profiles db)"
      by cases (use ok p i in \<open>auto simp: registry_ok_def references_ok_def\<close>)
  qed
  ultimately show ?thesis
    using ok k by (simp add: registry_ok_def keys_ok_def rows_ok_def references_ok_def)
qed


text \<open>The row of one id may change its key to one that no other row has.\<close>

lemma distinct_update_key:
  assumes "distinct (map g xs)" and "distinct (map key xs)"
    and "\<And>x. x \<in> set xs \<Longrightarrow> g x = k \<Longrightarrow> \<forall>y \<in> set xs. g y \<noteq> k \<longrightarrow> key y \<noteq> key (f x)"
  shows "distinct (map key (update_where (\<lambda>x. g x = k) f xs))"
proof -
  have "inj_on g (set xs)" using assms(1) by (simp add: distinct_map)
  have "inj_on (\<lambda>x. key (if g x = k then f x else x)) (set xs)"
  proof (rule inj_onI)
    fix x y assume xy: "x \<in> set xs" "y \<in> set xs" "key (if g x = k then f x else x) = key (if g y = k then f y else y)"
    consider "g x = k" "g y = k" | "g x = k" "g y \<noteq> k" | "g x \<noteq> k" "g y = k" | "g x \<noteq> k" "g y \<noteq> k" by blast
    then show "x = y"
    proof cases
      case 1
      then show ?thesis using xy(1,2) \<open>inj_on g (set xs)\<close> by (simp add: inj_on_def)
    next
      case 2
      then have "key y \<noteq> key (f x)" using assms(3) [OF xy(1)] xy(2) by blast
      with 2 show ?thesis using xy(3) by simp
    next
      case 3
      then have "key x \<noteq> key (f y)" using assms(3) [OF xy(2)] xy(1) by blast
      with 3 show ?thesis using xy(3) by simp
    next
      case 4
      then show ?thesis using xy assms(2) by (simp add: distinct_map inj_on_def)
    qed
  qed
  moreover have "distinct xs" using assms(1) by (simp add: distinct_map)
  ultimately show ?thesis by (simp add: update_where_def distinct_map o_def)
qed

lemma UpdateDeviceModel_ok:
  assumes "registry_ok db" shows "registry_ok (fst (UpdateDeviceModel env modelID input db))"
proof -
  let ?f = "\<lambda>i m. m\<lparr>mi_Manufacturer := dmi_Manufacturer i, mi_Model := dmi_Model i,
      mi_DeviceType := dmi_DeviceType i, mi_SourceTypeID := dmi_SourceTypeID i, mi_IsActive := dmi_IsActive i\<rparr>"
  have "registry_ok (db\<lparr>rg_Models := update_where (\<lambda>m. mi_ID m = modelID) (?f i) (rg_Models db)\<rparr>)"
    if v: "validateDeviceModelInput input = Inr i" and b: "find_model modelID db = Some before"
      and n: "\<not> list_ex (\<lambda>m. mi_OrganizationID m = mi_OrganizationID before \<and> mi_ID m \<noteq> modelID
          \<and> mi_Manufacturer m = dmi_Manufacturer i \<and> mi_Model m = dmi_Model i) (rg_Models db)" for i before
  proof (rule update_models_ok [OF assms])
    have d: "distinct (map mi_ID (rg_Models db))" using assms by (simp add: registry_ok_def keys_ok_def)
    have "m = before" if "m \<in> set (rg_Models db)" "mi_ID m = modelID" for m
      using d that find_model_Some [OF b] by (auto simp: distinct_map inj_on_def)
    then show "distinct (map model_key (update_where (\<lambda>m. mi_ID m = modelID) (?f i) (rg_Models db)))"
      using assms n d by (intro distinct_update_key)
        (auto simp: registry_ok_def keys_ok_def model_key_def list_ex_iff)
    show "model_ok (?f i m)" if "m \<in> set (rg_Models db)" for m
      using that assms validateDeviceModelInput_ok [OF v]
      by (auto simp: registry_ok_def rows_ok_def list_all_iff model_ok_def)
    show "(mi_OrganizationID m, mi_ProfileID (?f i m)) \<in> (\<lambda>p. (pf_OrganizationID p, pf_ID p)) ` set (rg_Profiles db)"
      if "m \<in> set (rg_Models db)" for m
      using that assms by (simp add: registry_ok_def references_ok_def)
  qed simp_all
  then show ?thesis
    using assms by (auto simp: UpdateDeviceModel_def Let_def split: sum.splits option.splits)
qed

lemma AssignRegisterProfile_ok:
  assumes "registry_ok db" shows "registry_ok (fst (AssignRegisterProfile env modelID profileID db))"
proof -
  have "registry_ok (db\<lparr>rg_Models := update_where (\<lambda>m. mi_OrganizationID m = mi_OrganizationID m0 \<and> mi_ID m = modelID)
      (\<lambda>m. m\<lparr>mi_ProfileID := profileID\<rparr>) (rg_Models db)\<rparr>)"
    if "find_model modelID db = Some m0" "find_profile profileID db = Some p"
      "pf_OrganizationID p = mi_OrganizationID m0" for m0 p
  proof (rule update_models_ok [OF assms])
    have "map model_key (update_where (\<lambda>m. mi_OrganizationID m = mi_OrganizationID m0 \<and> mi_ID m = modelID)
        (\<lambda>m. m\<lparr>mi_ProfileID := profileID\<rparr>) (rg_Models db)) = map model_key (rg_Models db)"
      by (rule update_where_map) (simp add: model_key_def)
    then show "distinct (map model_key (update_where (\<lambda>m. mi_OrganizationID m = mi_OrganizationID m0 \<and> mi_ID m = modelID)
        (\<lambda>m. m\<lparr>mi_ProfileID := profileID\<rparr>) (rg_Models db)))"
      using assms by (simp add: registry_ok_def keys_ok_def)
    show "model_ok (m\<lparr>mi_ProfileID := profileID\<rparr>)" if "m \<in> set (rg_Models db)" for m
      using that assms by (auto simp: registry_ok_def rows_ok_def list_all_iff model_ok_def)
    show "(mi_OrganizationID m, mi_ProfileID (m\<lparr>mi_ProfileID := profileID\<rparr>))
        \<in> (\<lambda>p. (pf_OrganizationID p, pf_ID p)) ` set (rg_Profiles db)"
      if "mi_OrganizationID m = mi_OrganizationID m0 \<and> mi_ID m = modelID" for m
      using that find_profile_Some [of profileID db p] \<open>find_profile profileID db = Some p\<close>
        \<open>pf_OrganizationID p = mi_OrganizationID m0\<close> by (auto intro: rev_image_eqI)
  qed simp_all
  then show ?thesis
    using assms by (auto simp: AssignRegisterProfile_def Let_def split: option.splits)
qed

lemma CreateRegisterProfile_ok:
  assumes "registry_ok db" and "fresh_ids env"
  shows "registry_ok (fst (CreateRegisterProfile env org name man desc db))"
proof -
  have "registry_ok (db\<lparr>rg_Profiles := rg_Profiles db @ [\<lparr>pf_ID = ce_uuid env db, pf_OrganizationID = og,
      pf_Name = n, pf_Manufacturer = m\<rparr>]\<rparr>)"
    if "\<not> list_ex (\<lambda>p. pf_OrganizationID p = og \<and> pf_Name p = n) (rg_Profiles db)" for og n m
    using that assms(1) unused_id [OF assms(2), of db]
    by (auto simp: registry_ok_def keys_ok_def rows_ok_def references_ok_def profile_key_def list_ex_iff)
  then show ?thesis
    using assms(1) by (auto simp: CreateRegisterProfile_def Let_def split: option.splits)
qed


lemma upsert_address_ok:
  assumes ok: "registry_ok db" and v: "values_ok (ai_Values a)"
    and p: "(ai_OrganizationID a, ai_ProfileID a) \<in> (\<lambda>p. (pf_OrganizationID p, pf_ID p)) ` set (rg_Profiles db)"
  shows "registry_ok (db\<lparr>rg_Addresses := upsert_address a (rg_Addresses db)\<rparr>)"
proof -
  let ?as = "upsert_address a (rg_Addresses db)"
  have "distinct (map address_key ?as)"
    using ok unfolding upsert_address_by by (intro addresses.distinct_upsert) (simp add: registry_ok_def keys_ok_def)
  moreover have "values_ok (ai_Values x)
      \<and> (ai_OrganizationID x, ai_ProfileID x) \<in> (\<lambda>p. (pf_OrganizationID p, pf_ID p)) ` set (rg_Profiles db)"
    if "x \<in> set ?as" for x
    using that unfolding upsert_address_by
    by (rule addresses.set_upsert)
      (use ok v p in \<open>auto simp: registry_ok_def rows_ok_def references_ok_def list_all_iff\<close>)
  ultimately show ?thesis
    using ok by (simp add: registry_ok_def keys_ok_def rows_ok_def references_ok_def list_all_iff)
qed

lemma upsert_metadata_ok:
  assumes ok: "registry_ok db" and v: "values_ok (me_Values r)"
    and m: "(me_OrganizationID r, me_DeviceModelID r) \<in> (\<lambda>m. (mi_OrganizationID m, mi_ID m)) ` set (rg_Models db)"
  shows "registry_ok (db\<lparr>rg_Metadata := upsert_metadata r (rg_Metadata db)\<rparr>)"
proof -
  let ?rs = "upsert_metadata r (rg_Metadata db)"
  have "distinct (map metadata_key ?rs)"
    using ok unfolding upsert_metadata_by by (intro metadata.distinct_upsert) (simp add: registry_ok_def keys_ok_def)
  moreover have "values_ok (me_Values x)
      \<and> (me_OrganizationID x, me_DeviceModelID x) \<in> (\<lambda>m. (mi_OrganizationID m, mi_ID m)) ` set (rg_Models db)"
    if "x \<in> set ?rs" for x
    using that unfolding upsert_metadata_by
    by (rule metadata.set_upsert)
      (use ok v m in \<open>auto simp: registry_ok_def rows_ok_def references_ok_def list_all_iff\<close>)
  ultimately show ?thesis
    using ok by (simp add: registry_ok_def keys_ok_def rows_ok_def references_ok_def list_all_iff)
qed

lemma UpsertRegisterProfileAddress_ok:
  assumes "registry_ok db" shows "registry_ok (fst (UpsertRegisterProfileAddress env profileID input db))"
proof -
  have "registry_ok (db\<lparr>rg_Addresses := upsert_address a (rg_Addresses db)\<rparr>)"
    if "validateRegisterProfileAddress input = Inr i" "find_profile profileID db = Some p"
      "ai_Values a = input_values i" "ai_OrganizationID a = pf_OrganizationID p" "ai_ProfileID a = profileID" for i p a
    using that find_profile_Some [OF that(2)] input_values_ok [OF validateRegisterProfileAddress_ok [OF that(1)]]
    by (intro upsert_address_ok [OF assms]) (auto intro: rev_image_eqI)
  then show ?thesis
    using assms by (auto simp: UpsertRegisterProfileAddress_def Let_def split: sum.splits option.splits)
qed

lemma find_model_audit [simp]: "find_model i (audit org action t j db) = find_model i db"
  by (simp add: find_model_def audit_def)

lemma find_model_metadata [simp]: "find_model i (db\<lparr>rg_Metadata := x\<rparr>) = find_model i db"
  by (simp add: find_model_def)

lemma SetDeviceModelRegisterMetadata_ok:
  assumes "registry_ok db" shows "registry_ok (fst (SetDeviceModelRegisterMetadata env modelID input db))"
proof -
  let ?i = "\<lambda>i. i\<lparr>um_WordOrder := trim_space (um_WordOrder i), um_DataType := trim_space (um_DataType i)\<rparr>"
  have "registry_ok (db\<lparr>rg_Metadata := upsert_metadata r (rg_Metadata db)\<rparr>)"
    if v: "validateRegisterMetadata input = Inr i"
      and m: "validateModbusRegisterFields (um_FunctionCode i) (um_Register i) (trim_space (um_WordOrder i))
        (trim_space (um_DataType i)) = Inr ()"
      and a: "authorizedDeviceModelScope env modelID ''update'' db = Inr org"
      and r: "me_Values r = input_values (?i i)" "me_OrganizationID r = org" "me_DeviceModelID r = modelID" for i org r
  proof (rule upsert_metadata_ok [OF assms])
    show "values_ok (me_Values r)"
      unfolding r using validateRegisterMetadata_ok [OF v] m by (intro input_values_ok) simp_all
    from a obtain x where x: "find_model modelID db = Some x" "mi_OrganizationID x = org"
      by (auto simp: authorizedDeviceModelScope_def split: option.splits if_splits)
    then have "(org, modelID) = (mi_OrganizationID x, mi_ID x)" "x \<in> set (rg_Models db)"
      using find_model_Some [OF x(1)] by auto
    then show "(me_OrganizationID r, me_DeviceModelID r) \<in> (\<lambda>m. (mi_OrganizationID m, mi_ID m)) ` set (rg_Models db)"
      unfolding r by (rule rev_image_eqI [rotated])
  qed
  then show ?thesis
    using assms
    by (auto simp: SetDeviceModelRegisterMetadata_def Let_def UpsertRegisterProfileAddress_ok split: sum.splits option.splits)
qed

lemma delete_registers_ok:
  assumes "registry_ok db"
  shows "registry_ok (db\<lparr>rg_Metadata := filter P (rg_Metadata db), rg_Addresses := filter Q (rg_Addresses db)\<rparr>)"
  using assms
  by (auto simp: registry_ok_def keys_ok_def rows_ok_def references_ok_def list_all_iff distinct_map_filter)

lemma DeleteDeviceModelRegisterMetadata_ok:
  assumes "registry_ok db" shows "registry_ok (fst (DeleteDeviceModelRegisterMetadata env modelID key db))"
  using assms
  by (auto simp: DeleteDeviceModelRegisterMetadata_def Let_def delete_registers_ok split: sum.splits)

lemma pruneModbusRegisterMetadata_ok:
  assumes "registry_ok db" shows "registry_ok (fst (pruneModbusRegisterMetadata env modelID keep db))"
proof -
  have "registry_ok (db\<lparr>rg_Metadata := filter P (rg_Metadata db)\<rparr>)" for P
    using delete_registers_ok [OF assms, where P = P and Q = "\<lambda>_. True"] by simp
  then show ?thesis
    using assms by (auto simp: pruneModbusRegisterMetadata_def Let_def split: sum.splits)
qed


lemma nullableText_simps [simp]: "nullableText [] = None" "s \<noteq> [] \<Longrightarrow> nullableText s = Some s"
  by (simp_all add: nullableText_def)

lemma device_fields_ok:
  assumes "validateDeviceModbusFields host port unit = Inr ()" and "trim_space host = host"
    and "clean_text name" and "clean_text ext"
    and "di_Host d = nullableText host" and "di_Port d = port" and "di_UnitID d = unit" and "di_Name d = name"
    and "di_ExternalID d = ext"
  shows "device_ok d"
  using assms
  by (cases port; cases "host = []")
    (auto simp: validateDeviceModbusFields_def device_ok_def clean_text_def split: if_splits)

lemma CreateDevice_ok:
  assumes "registry_ok db" and "fresh_ids env"
  shows "registry_ok (fst (CreateDevice env plantID input db))"
proof -
  have "registry_ok (db\<lparr>rg_Devices := rg_Devices db @ [d]\<rparr>)"
    if v: "validateDeviceModbusFields (trim_space (udi_ModbusHost input)) (udi_ModbusPort input) (udi_ModbusUnitID input) = Inr ()"
      and p: "authorized_plant env ''create'' ''device'' plantID db = Some plant"
      and m: "find_model (udi_DeviceModelID input) db = Some model" "mi_OrganizationID model = pn_OrganizationID plant"
      and n: "\<not> list_ex (\<lambda>x. di_OrganizationID x = pn_OrganizationID plant \<and> di_PlantID x = pn_ID plant
          \<and> di_ExternalID x = di_ExternalID d) (rg_Devices db)"
      and d: "di_ID d = ce_uuid env db" "di_OrganizationID d = pn_OrganizationID plant" "di_PlantID d = pn_ID plant"
        "di_ModelID d = udi_DeviceModelID input" "device_ok d" for plant model d
  proof -
    have "(di_OrganizationID d, di_ModelID d) \<in> (\<lambda>m. (mi_OrganizationID m, mi_ID m)) ` set (rg_Models db)"
      using find_model_Some [OF m(1)] m(2) d by (auto intro: rev_image_eqI)
    moreover have "(di_OrganizationID d, di_PlantID d) \<in> (\<lambda>p. (pn_OrganizationID p, pn_ID p)) ` set (rg_Plants db)"
      using authorized_plant_Some [OF p] d by (auto intro: rev_image_eqI)
    moreover have "device_key d \<notin> device_key ` set (rg_Devices db)" "di_ID d \<notin> di_ID ` set (rg_Devices db)"
      using unused_id(3) [OF assms(2), of db] n d by (auto simp: device_key_def list_ex_iff)
    ultimately show ?thesis
      using assms(1) d(5) by (auto simp: registry_ok_def keys_ok_def rows_ok_def references_ok_def)
  qed
  moreover have "device_ok d"
    if "validateDeviceModbusFields (trim_space (udi_ModbusHost input)) (udi_ModbusPort input) (udi_ModbusUnitID input) = Inr ()"
      "trim_space (cdi_ExternalID input) \<noteq> []" "trim_space (udi_Name input) \<noteq> []"
      "di_Host d = nullableText (trim_space (udi_ModbusHost input))" "di_Port d = udi_ModbusPort input"
      "di_UnitID d = udi_ModbusUnitID input" "di_Name d = trim_space (udi_Name input)"
      "di_ExternalID d = trim_space (cdi_ExternalID input)" for d
    using that by (intro device_fields_ok [OF that(1)]) (simp_all add: clean_text_def)
  ultimately show ?thesis
    using assms(1) by (auto simp: CreateDevice_def Let_def split: sum.splits option.splits)
qed

lemma update_devices_ok:
  assumes ok: "registry_ok db"
    and i: "\<And>d. di_ID (f d) = di_ID d" "\<And>d. device_key (f d) = device_key d"
    and m: "\<And>d. d \<in> set (rg_Devices db) \<Longrightarrow> P d \<Longrightarrow> device_ok (f d)
      \<and> (di_OrganizationID d, di_ModelID (f d)) \<in> (\<lambda>m. (mi_OrganizationID m, mi_ID m)) ` set (rg_Models db)"
  shows "registry_ok (db\<lparr>rg_Devices := update_where P f (rg_Devices db)\<rparr>)"
proof -
  have "map di_ID (update_where P f (rg_Devices db)) = map di_ID (rg_Devices db)"
    "map device_key (update_where P f (rg_Devices db)) = map device_key (rg_Devices db)"
    by (rule update_where_map; use i in simp)+
  moreover have "device_ok x \<and> (di_OrganizationID x, di_ModelID x) \<in> (\<lambda>m. (mi_OrganizationID m, mi_ID m)) ` set (rg_Models db)
      \<and> (di_OrganizationID x, di_PlantID x) \<in> (\<lambda>p. (pn_OrganizationID p, pn_ID p)) ` set (rg_Plants db)"
    if "x \<in> set (update_where P f (rg_Devices db))" for x
  proof -
    from that consider "x \<in> set (rg_Devices db)" | d where "d \<in> set (rg_Devices db)" "P d" "x = f d"
      by (auto simp: set_update_where)
    then show ?thesis
    proof cases
      case 1
      then show ?thesis using ok by (auto simp: registry_ok_def rows_ok_def references_ok_def list_all_iff)
    next
      case 2
      moreover have "di_OrganizationID x = di_OrganizationID d" "di_PlantID x = di_PlantID d"
        using i(2) [of d] 2 by (simp_all add: device_key_def)
      ultimately show ?thesis using ok m [of d] by (auto simp: registry_ok_def references_ok_def)
    qed
  qed
  ultimately show ?thesis
    using ok by (simp add: registry_ok_def keys_ok_def rows_ok_def references_ok_def list_all_iff)
qed

lemma UpdateDevice_ok:
  assumes "registry_ok db" shows "registry_ok (fst (UpdateDevice env plantID deviceID input db))"
proof -
  let ?f = "\<lambda>d. d\<lparr>di_Name := trim_space (udi_Name input), di_ModelID := udi_DeviceModelID input,
      di_Host := nullableText (trim_space (udi_ModbusHost input)), di_Port := udi_ModbusPort input,
      di_UnitID := udi_ModbusUnitID input, di_Active := udi_IsActive input\<rparr>"
  have "registry_ok (db\<lparr>rg_Devices := update_where (\<lambda>d. di_ID d = deviceID) ?f (rg_Devices db)\<rparr>)"
    if v: "validateDeviceModbusFields (trim_space (udi_ModbusHost input)) (udi_ModbusPort input) (udi_ModbusUnitID input) = Inr ()"
      and n: "trim_space (udi_Name input) \<noteq> []"
      and c: "getDeviceForUpdate env plantID deviceID db = Some current"
      and m: "find_model (udi_DeviceModelID input) db = Some model" "mi_OrganizationID model = di_OrganizationID current"
    for current model
  proof (rule update_devices_ok [OF assms])
    fix d assume d: "d \<in> set (rg_Devices db)" "di_ID d = deviceID"
    have "distinct (map di_ID (rg_Devices db))" using assms by (simp add: registry_ok_def keys_ok_def)
    moreover have "current \<in> set (rg_Devices db)" "di_ID current = deviceID"
      using c by (auto simp: getDeviceForUpdate_def find_Some_iff)
    ultimately have "d = current" using d by (auto simp: distinct_map inj_on_def)
    then have "(di_OrganizationID d, di_ModelID (?f d)) = (mi_OrganizationID model, mi_ID model)"
      using find_model_Some [OF m(1)] m(2) by simp
    moreover have "device_ok d" using d assms by (auto simp: registry_ok_def rows_ok_def list_all_iff)
    then have "clean_text (di_ExternalID d)" by (simp add: device_ok_def)
    then have "device_ok (?f d)" by (intro device_fields_ok [OF v]) (simp_all add: clean_text_def n)
    ultimately show "device_ok (?f d)
        \<and> (di_OrganizationID d, di_ModelID (?f d)) \<in> (\<lambda>m. (mi_OrganizationID m, mi_ID m)) ` set (rg_Models db)"
      using find_model_Some(1) [OF m(1)] by (auto intro: rev_image_eqI)
  qed (simp_all add: device_key_def)
  then show ?thesis
    using assms by (auto simp: UpdateDevice_def Let_def split: sum.splits option.splits)
qed

lemmas registry_operations_ok =
  CreateDeviceModel_ok UpdateDeviceModel_ok SetDeviceModelRegisterMetadata_ok DeleteDeviceModelRegisterMetadata_ok
  pruneModbusRegisterMetadata_ok CreateRegisterProfile_ok AssignRegisterProfile_ok UpsertRegisterProfileAddress_ok
  CreateDevice_ok UpdateDevice_ok

end
