(* ===== verification/ConfigPush.thy ===== *)
theory ConfigPush
  imports GatewayCommands Registry
begin

section \<open>platform-api core: building, pushing and acknowledging a gateway's configuration\<close>

text \<open>
  The configuration half of \<open>core/middleware_config.go\<close> and the message loop of
  \<open>httpapi/gateway_realtime.go\<close>: \<open>buildConfigSnapshot\<close> from the tables, \<open>doRecomputeAndPushMiddleware\<close>
  with its version and history row, \<open>HandleGatewayHello\<close> and \<open>RecordConfigAck\<close>. A query without
  \<open>ORDER BY\<close> returns the rows in the order of the table; \<open>sha\<close> is the first eight bytes of SHA-256.
  The JSON the platform sends is what the gateway decodes: \<open>wire_snapshot\<close> reads the platform's structs as
  the gateway's. Failing statements are not modelled.
\<close>

subsection \<open>The structs of a pushed configuration\<close>

record MiddlewareAddress =
  ma_AddressID :: int
  ma_DeviceSetID :: int
  ma_FunctionCode :: int
  ma_Register :: int
  ma_Description :: string
  ma_CanonicalKey :: string
  ma_SourceTag :: string
  ma_Factor :: f64
  ma_Offset :: f64
  ma_DataType :: string
  ma_Length :: int
  ma_WordOrder :: string
  ma_SourceUnit :: string
  ma_Remark :: string
  ma_Enabled :: bool

record MiddlewareDeviceSet =
  ms_DeviceSetID :: int
  ms_BrandID :: int
  ms_BrandName :: string
  ms_DevTypeID :: int
  ms_DevType :: string
  ms_DevModel :: string
  ms_AddressMode :: string
  ms_ByteOrder :: string
  ms_WordOrder :: string
  ms_MaxBlockSize :: int
  ms_Addresses :: "MiddlewareAddress list"

record MiddlewareBrand =
  mb_BrandID :: int
  mb_BrandName :: string
  mb_BrandDescription :: string

record MiddlewareConnection =
  mc_ConnectionID :: int
  mc_ConnectionName :: string
  mc_Host :: string
  mc_Port :: int
  mc_UnitID :: int
  mc_SlaveID :: int
  mc_DeviceSetID :: int
  mc_DevDn :: string
  mc_DeviceName :: string
  mc_PlantCode :: string
  mc_PlantName :: string
  mc_Enabled :: bool

record MiddlewarePlant =
  mp_PlantCode :: string
  mp_PlantName :: string

record MiddlewareConfigSnapshot =
  mg_Version :: int
  mg_Brands :: "MiddlewareBrand list"
  mg_DeviceSets :: "MiddlewareDeviceSet list"
  mg_Connections :: "MiddlewareConnection list"
  mg_Plants :: "MiddlewarePlant list"
  mg_SendIntervalSeconds :: int
  mg_APIPollingEnabled :: bool
  mg_IdleHeartbeatSeconds :: int

subsection \<open>What the gateway decodes\<close>

definition wire_address :: "MiddlewareAddress \<Rightarrow> Address" where
  "wire_address m =
     \<lparr>a_AddressID = ma_AddressID m, a_DeviceSetID = ma_DeviceSetID m, a_FunctionCode = ma_FunctionCode m,
      a_Register = ma_Register m, a_Description = ma_Description m, a_CanonicalKey = ma_CanonicalKey m,
      a_SourceTag = ma_SourceTag m, a_Factor = ma_Factor m, a_Offset = ma_Offset m, a_DataType = ma_DataType m,
      a_Length = ma_Length m, a_WordOrder = ma_WordOrder m, a_SourceUnit = ma_SourceUnit m,
      a_CanonicalUnit = [], a_Remark = ma_Remark m, a_Enabled = ma_Enabled m, a_EnabledSet = True\<rparr>"

definition wire_device_set :: "MiddlewareDeviceSet \<Rightarrow> DeviceSet" where
  "wire_device_set m =
     \<lparr>ds_DeviceSetID = ms_DeviceSetID m, ds_BrandID = ms_BrandID m, ds_BrandName = ms_BrandName m,
      ds_DevTypeID = ms_DevTypeID m, ds_DevType = ms_DevType m, ds_DevModel = ms_DevModel m,
      ds_AddressIDList = [], ds_AddressMode = ms_AddressMode m, ds_ByteOrder = ms_ByteOrder m,
      ds_WordOrder = ms_WordOrder m, ds_MaxBlockSize = ms_MaxBlockSize m,
      ds_Addresses = map wire_address (ms_Addresses m)\<rparr>"

definition wire_brand :: "MiddlewareBrand \<Rightarrow> Brand" where
  "wire_brand m =
     \<lparr>b_BrandID = mb_BrandID m, b_BrandName = mb_BrandName m, b_BrandDescription = mb_BrandDescription m,
      b_BrandDevSetIDList = []\<rparr>"

definition wire_connection :: "MiddlewareConnection \<Rightarrow> ConnectionConfig" where
  "wire_connection m =
     \<lparr>c_ConnectionID = mc_ConnectionID m, c_ConnectionName = mc_ConnectionName m, c_Host = mc_Host m,
      c_Port = mc_Port m, c_UnitID = mc_UnitID m, c_SlaveID = mc_SlaveID m, c_DeviceSetID = mc_DeviceSetID m,
      c_DeviceSetName = [], c_DevTypeID = 0, c_DevDn = mc_DevDn m, c_DeviceName = mc_DeviceName m,
      c_PlantCode = mc_PlantCode m, c_PlantName = mc_PlantName m, c_Enabled = mc_Enabled m\<rparr>"

definition wire_plant :: "MiddlewarePlant \<Rightarrow> Plant" where
  "wire_plant m = \<lparr>p_PlantID = 0, p_PlantCode = mp_PlantCode m, p_PlantName = mp_PlantName m\<rparr>"

definition wire_snapshot :: "MiddlewareConfigSnapshot \<Rightarrow> ConfigSnapshot" where
  "wire_snapshot m =
     \<lparr>cs_Version = mg_Version m, cs_Brands = map wire_brand (mg_Brands m),
      cs_DeviceSets = map wire_device_set (mg_DeviceSets m),
      cs_Connections = map wire_connection (mg_Connections m), cs_Plants = map wire_plant (mg_Plants m),
      cs_SendIntervalSeconds = mg_SendIntervalSeconds m, cs_APIPollingEnabled = mg_APIPollingEnabled m,
      cs_IdleHeartbeatSeconds = mg_IdleHeartbeatSeconds m\<rparr>"

text \<open>\<open>pushEnvelope\<close> of \<open>config.snapshot\<close>, as the gateway's envelope.\<close>

definition pushEnvelope :: "string \<Rightarrow> MiddlewareConfigSnapshot \<Rightarrow> envelope" where
  "pushEnvelope msgType snapshot =
     zero_envelope\<lparr>en_Type := msgType, en_ConfigSnapshot := wire_snapshot snapshot\<rparr>"

subsection \<open>Tables\<close>

record GatewayRow =
  gr_ID :: string
  gr_OrganizationID :: string
  gr_PollInterval :: int
  gr_APIPolling :: bool
  gr_IdleHeartbeat :: int
  gr_ConfigVersion :: int
  gr_AppliedVersion :: int
  gr_Snapshot :: "MiddlewareConfigSnapshot option"
  gr_SoftwareVersion :: string
  gr_LastSeen :: int
  gr_Name :: string
  gr_SiteName :: string
  gr_KeyPrefix :: string
  gr_KeyHash :: string
  gr_AutoOnboard :: bool
  gr_IsActive :: bool
  gr_CommandTimeout :: int

record HistoryRow =
  hi_ClientID :: string
  hi_Version :: int
  hi_Snapshot :: MiddlewareConfigSnapshot
  hi_Status :: string
  hi_Reason :: string
  hi_AckedAt :: "int option"

record PushDb =
  pd_Gateways :: "GatewayRow list"
  pd_History :: "HistoryRow list"
  pd_Registry :: Registry

subsection \<open>buildConfigSnapshot\<close>

definition wireID :: "(string \<Rightarrow> 64 word) \<Rightarrow> string \<Rightarrow> int" where
  "wireID sha i = uint (and (sha i) 0x7fffffffffffffff)"

definition brandWireID :: "(string \<Rightarrow> 64 word) \<Rightarrow> string \<Rightarrow> int" where
  "brandWireID sha manufacturer = uint (and (sha (''brand:'' @ manufacturer)) 0x7fffffffffffffff)"

text \<open>The joined rows: assigned plants, pollable devices of plants, models of devices, addresses of a model.\<close>

definition assigned_plants :: "Registry \<Rightarrow> string \<Rightarrow> PlantInfo list" where
  "assigned_plants db middlewareID =
     concat (map (\<lambda>(client, plant). if client = middlewareID then filter (\<lambda>p. pn_ID p = plant) (rg_Plants db) else [])
               (rg_Assigned db))"

definition pollable_devices :: "Registry \<Rightarrow> PlantInfo list \<Rightarrow> DeviceInfo list" where
  "pollable_devices db plants =
     filter (\<lambda>d. di_PlantID d \<in> pn_ID ` set plants \<and> di_Host d \<noteq> None \<and> di_Port d \<noteq> None \<and> di_Active d)
       (rg_Devices db)"

definition device_models :: "Registry \<Rightarrow> DeviceInfo list \<Rightarrow> ModelInfo list" where
  "device_models db devices = filter (\<lambda>m. mi_ID m \<in> di_ModelID ` set devices) (rg_Models db)"

definition brand_step :: "(string \<Rightarrow> 64 word) \<Rightarrow> ModelInfo \<Rightarrow> MiddlewareBrand list \<Rightarrow> MiddlewareBrand list" where
  "brand_step sha m brands =
     (if mi_Manufacturer m \<in> mb_BrandName ` set brands then brands
      else brands @ [\<lparr>mb_BrandID = brandWireID sha (mi_Manufacturer m), mb_BrandName = mi_Manufacturer m,
                      mb_BrandDescription = []\<rparr>])"

text \<open>A row whose register or data type is \<open>NULL\<close> cannot be scanned.\<close>

definition address_of :: "(string \<Rightarrow> 64 word) \<Rightarrow> ModelInfo \<Rightarrow> AddressInfo \<Rightarrow> string + MiddlewareAddress" where
  "address_of sha m a =
     (case (rv_FunctionCode (ai_Values a), rv_Register (ai_Values a), rv_ModbusDataType (ai_Values a)) of
        (Some fc, Some register, Some dataType) \<Rightarrow>
          Inr \<lparr>ma_AddressID = wireID sha (ai_ID a), ma_DeviceSetID = wireID sha (mi_ID m), ma_FunctionCode = fc,
               ma_Register = register, ma_Description = rv_DisplayName (ai_Values a), ma_CanonicalKey = ai_AddressKey a,
               ma_SourceTag = [], ma_Factor = rv_Scale (ai_Values a), ma_Offset = rv_Offset (ai_Values a),
               ma_DataType = dataType, ma_Length = 0,
               ma_WordOrder = (case rv_WordOrder (ai_Values a) of None \<Rightarrow> [] | Some w \<Rightarrow> w), ma_SourceUnit = [],
               ma_Remark = [], ma_Enabled = True\<rparr>
      | _ \<Rightarrow> Inl ''scan model register'')"

definition model_registers :: "Registry \<Rightarrow> ModelInfo \<Rightarrow> AddressInfo list" where
  "model_registers db m =
     filter (\<lambda>a. ai_OrganizationID a = mi_OrganizationID m \<and> ai_ProfileID a = mi_ProfileID m
               \<and> rv_FunctionCode (ai_Values a) \<noteq> None) (rg_Addresses db)"

definition model_addresses ::
  "(string \<Rightarrow> 64 word) \<Rightarrow> Registry \<Rightarrow> ModelInfo \<Rightarrow> string + string \<times> MiddlewareAddress list" where
  "model_addresses sha db m = map_sum id (Pair (mi_ID m)) (traverse (address_of sha m) (model_registers db m))"

text \<open>Go maps by model id; one read for a missing key gives the zero value.\<close>

definition model_row :: "ModelInfo list \<Rightarrow> string \<Rightarrow> ModelInfo option" where
  "model_row models i = find (\<lambda>m. mi_ID m = i) (rev models)"

definition addresses_of :: "(string \<times> MiddlewareAddress list) list \<Rightarrow> string \<Rightarrow> MiddlewareAddress list" where
  "addresses_of byModel i = (case map_of byModel i of None \<Rightarrow> [] | Some as \<Rightarrow> as)"

definition plant_of :: "PlantInfo list \<Rightarrow> string \<Rightarrow> string \<times> string" where
  "plant_of plants i =
     (case find (\<lambda>p. pn_ID p = i) (rev plants) of None \<Rightarrow> ([], []) | Some p \<Rightarrow> (pn_Code p, pn_Name p))"

definition device_set_of ::
  "(string \<Rightarrow> 64 word) \<Rightarrow> (string \<times> MiddlewareAddress list) list \<Rightarrow> ModelInfo \<Rightarrow> MiddlewareDeviceSet" where
  "device_set_of sha byModel m =
     \<lparr>ms_DeviceSetID = wireID sha (mi_ID m), ms_BrandID = brandWireID sha (mi_Manufacturer m),
      ms_BrandName = mi_Manufacturer m, ms_DevTypeID = 0, ms_DevType = mi_DeviceType m, ms_DevModel = mi_Model m,
      ms_AddressMode = mi_AddressMode m, ms_ByteOrder = mi_ByteOrder m, ms_WordOrder = mi_WordOrder m,
      ms_MaxBlockSize = mi_MaxBlockSize m, ms_Addresses = addresses_of byModel (mi_ID m)\<rparr>"

definition connection_of :: "(string \<Rightarrow> 64 word) \<Rightarrow> PlantInfo list \<Rightarrow> DeviceInfo \<Rightarrow> MiddlewareConnection" where
  "connection_of sha plants d =
     \<lparr>mc_ConnectionID = wireID sha (di_ID d), mc_ConnectionName = di_Name d,
      mc_Host = (case di_Host d of None \<Rightarrow> [] | Some h \<Rightarrow> h), mc_Port = (case di_Port d of None \<Rightarrow> 0 | Some p \<Rightarrow> p),
      mc_UnitID = di_UnitID d, mc_SlaveID = 0, mc_DeviceSetID = wireID sha (di_ModelID d),
      mc_DevDn = di_ExternalID d, mc_DeviceName = di_Name d, mc_PlantCode = fst (plant_of plants (di_PlantID d)),
      mc_PlantName = snd (plant_of plants (di_PlantID d)), mc_Enabled = True\<rparr>"

text \<open>One turn of the last loop; \<open>seen\<close> are the models whose device set was added.\<close>

definition device_step ::
  "(string \<Rightarrow> 64 word) \<Rightarrow> (string \<times> MiddlewareAddress list) list \<Rightarrow> ModelInfo list \<Rightarrow> PlantInfo list \<Rightarrow> DeviceInfo \<Rightarrow>
     MiddlewareConfigSnapshot \<times> string list \<Rightarrow> MiddlewareConfigSnapshot \<times> string list" where
  "device_step sha byModel models plants d acc =
     (case model_row models (di_ModelID d) of
        None \<Rightarrow> acc
      | Some m \<Rightarrow>
          if addresses_of byModel (di_ModelID d) = [] then acc
          else
            let (s, seen) = acc;
                (s, seen) = (if di_ModelID d \<in> set seen then (s, seen)
                             else (s\<lparr>mg_DeviceSets := mg_DeviceSets s @ [device_set_of sha byModel m]\<rparr>, di_ModelID d # seen))
            in (s\<lparr>mg_Connections := mg_Connections s @ [connection_of sha plants d]\<rparr>, seen))"

definition empty_snapshot :: "GatewayRow \<Rightarrow> MiddlewareConfigSnapshot" where
  "empty_snapshot g =
     \<lparr>mg_Version = 0, mg_Brands = [], mg_DeviceSets = [], mg_Connections = [], mg_Plants = [],
      mg_SendIntervalSeconds = gr_PollInterval g, mg_APIPollingEnabled = gr_APIPolling g,
      mg_IdleHeartbeatSeconds = gr_IdleHeartbeat g\<rparr>"

definition buildConfigSnapshot ::
  "(string \<Rightarrow> 64 word) \<Rightarrow> Registry \<Rightarrow> GatewayRow \<Rightarrow> string + MiddlewareConfigSnapshot" where
  "buildConfigSnapshot sha db g =
     (let plants = assigned_plants db (gr_ID g);
          snapshot = (empty_snapshot g)\<lparr>mg_Plants := map (\<lambda>p. \<lparr>mp_PlantCode = pn_Code p, mp_PlantName = pn_Name p\<rparr>) plants\<rparr>
      in if plants = [] then Inr snapshot
         else
           let devices = pollable_devices db plants in
           if devices = [] then Inr snapshot
           else
             let models = device_models db devices;
                 snapshot = snapshot\<lparr>mg_Brands := fold (brand_step sha) models []\<rparr>
             in (case traverse (model_addresses sha db) models of
                   Inl err \<Rightarrow> Inl err
                 | Inr byModel \<Rightarrow> Inr (fst (fold (device_step sha byModel models plants) devices (snapshot, [])))))"

subsection \<open>Pushing\<close>

record PushConfigResult =
  pc_PlantCount :: nat
  pc_DeviceCount :: nat
  pc_DeviceSetCount :: nat
  pc_Delivered :: bool

definition gateway_row :: "PushDb \<Rightarrow> string \<Rightarrow> GatewayRow option" where
  "gateway_row db i = find (\<lambda>g. gr_ID g = i) (pd_Gateways db)"

definition zero_PushConfigResult :: PushConfigResult where
  "zero_PushConfigResult = \<lparr>pc_PlantCount = 0, pc_DeviceCount = 0, pc_DeviceSetCount = 0, pc_Delivered = False\<rparr>"

text \<open>
  \<open>doRecomputeAndPushMiddleware\<close>; \<open>deliver\<close> is the hub's \<open>PushConfig\<close> for this gateway. The results are
  the database, the message for the gateway if the hub took it, and the counts or the error.
\<close>

definition doRecomputeAndPushMiddleware ::
  "(string \<Rightarrow> 64 word) \<Rightarrow> bool \<Rightarrow> string \<Rightarrow> PushDb \<Rightarrow> PushDb \<times> envelope option \<times> (string + PushConfigResult)" where
  "doRecomputeAndPushMiddleware sha deliver middlewareID db =
     (case gateway_row db middlewareID of
        None \<Rightarrow> (db, None, Inr zero_PushConfigResult)
      | Some g \<Rightarrow>
     (case buildConfigSnapshot sha (pd_Registry db) g of
        Inl err \<Rightarrow> (db, None, Inl (''build config snapshot: '' @ err))
      | Inr snapshot \<Rightarrow>
          let result = \<lparr>pc_PlantCount = length (mg_Plants snapshot), pc_DeviceCount = length (mg_Connections snapshot),
                        pc_DeviceSetCount = length (mg_DeviceSets snapshot), pc_Delivered = False\<rparr>;
              version = gr_ConfigVersion g + 1;
              db = db\<lparr>pd_Gateways := update_where (\<lambda>r. gr_ID r = middlewareID)
                       (\<lambda>r. r\<lparr>gr_ConfigVersion := gr_ConfigVersion r + 1, gr_Snapshot := Some snapshot\<rparr>) (pd_Gateways db)\<rparr>;
              snapshot = snapshot\<lparr>mg_Version := version\<rparr>;
              db = db\<lparr>pd_History := pd_History db @
                       [\<lparr>hi_ClientID = middlewareID, hi_Version = version, hi_Snapshot = snapshot,
                         hi_Status = ''PENDING'', hi_Reason = [], hi_AckedAt = None\<rparr>]\<rparr>
          in if deliver
             then (db\<lparr>pd_History := update_where (\<lambda>h. hi_ClientID h = middlewareID \<and> hi_Version h = version)
                        (\<lambda>h. h\<lparr>hi_Status := ''SENT''\<rparr>) (pd_History db)\<rparr>,
                   Some (pushEnvelope ''config.snapshot'' snapshot), Inr (result\<lparr>pc_Delivered := True\<rparr>))
             else (db, None, Inr result)))"

subsection \<open>What the gateway reports\<close>

text \<open>
  \<open>gatewayEnvelope\<close>: what the platform decodes of a gateway's message. The gateway's envelope embeds a
  \<open>ConfigSnapshot\<close>, whose \<open>version\<close> is the \<open>version\<close> of the message.
\<close>

record gatewayEnvelope =
  gv_Type :: string
  gv_AppliedVersion :: int
  gv_SoftwareVersion :: string
  gv_Version :: int
  gv_Status :: string
  gv_Reason :: string
  gv_CommandID :: string

definition decode_envelope :: "envelope \<Rightarrow> gatewayEnvelope" where
  "decode_envelope m =
     \<lparr>gv_Type = en_Type m, gv_AppliedVersion = en_AppliedVersion m, gv_SoftwareVersion = en_SoftwareVersion m,
      gv_Version = cs_Version (en_ConfigSnapshot m), gv_Status = en_Status m, gv_Reason = en_Reason m,
      gv_CommandID = en_CommandID m\<rparr>"

definition HandleGatewayHello :: "int \<Rightarrow> string \<Rightarrow> int \<Rightarrow> string \<Rightarrow> PushDb \<Rightarrow> PushDb \<times> envelope option" where
  "HandleGatewayHello now clientID appliedVersion softwareVersion db =
     (let v = trim_space softwareVersion in
      (db\<lparr>pd_Gateways := update_where (\<lambda>r. gr_ID r = clientID)
           (\<lambda>r. r\<lparr>gr_LastSeen := now,
                  gr_SoftwareVersion := if v = [] then gr_SoftwareVersion r else v\<rparr>) (pd_Gateways db)\<rparr>,
       None))"

definition RecordConfigAck :: "int \<Rightarrow> string \<Rightarrow> int \<Rightarrow> string \<Rightarrow> string \<Rightarrow> PushDb \<Rightarrow> PushDb" where
  "RecordConfigAck now clientID version status reason db =
     (let db = db\<lparr>pd_History := update_where (\<lambda>h. hi_ClientID h = clientID \<and> hi_Version h = version)
                   (\<lambda>h. h\<lparr>hi_Status := status, hi_Reason := reason, hi_AckedAt := Some now\<rparr>) (pd_History db)\<rparr>
      in if status = ''APPLIED''
         then db\<lparr>pd_Gateways := update_where (\<lambda>r. gr_ID r = clientID \<and> gr_AppliedVersion r < version)
                   (\<lambda>r. r\<lparr>gr_AppliedVersion := version, gr_LastSeen := now\<rparr>) (pd_Gateways db)\<rparr>
         else db\<lparr>pd_Gateways := update_where (\<lambda>r. gr_ID r = clientID)
                   (\<lambda>r. r\<lparr>gr_LastSeen := now\<rparr>) (pd_Gateways db)\<rparr>)"

text \<open>The cases of the handler's loop that change the database.\<close>

definition gateway_message :: "int \<Rightarrow> string \<Rightarrow> gatewayEnvelope \<Rightarrow> PushDb \<Rightarrow> PushDb" where
  "gateway_message now clientID m db =
     (if gv_Type m = ''hello''
      then fst (HandleGatewayHello now clientID (gv_AppliedVersion m) (gv_SoftwareVersion m) db)
      else if gv_Type m = ''config.ack''
      then RecordConfigAck now clientID (gv_Version m) (gv_Status m) (gv_Reason m) db
      else db)"

definition shouldStartTelemetryPull :: "string list \<Rightarrow> bool" where
  "shouldStartTelemetryPull capabilities \<longleftrightarrow> ''update-bridge'' \<notin> set capabilities"


subsection \<open>What the gateway makes of a pushed configuration\<close>

text \<open>A register that does not run past the end of the register space.\<close>

definition register_fits :: "RegisterValues \<Rightarrow> bool" where
  "register_fits v \<longleftrightarrow>
     (case (rv_Register v, rv_ModbusDataType v) of
        (Some r, Some t) \<Rightarrow> r + RegisterCount t \<le> 65536
      | _ \<Rightarrow> True)"

lemma modbus_data_types_plain:
  assumes "t \<in> set modbus_data_types"
  shows "trim_space t = t" and "to_upper t = t" and "t \<noteq> []" and "1 \<le> RegisterCount t" and "RegisterCount t \<le> 4"
  using assms
  by (auto simp: modbus_data_types_def text_eval RegisterCount_def NormalizeDataType_def)

lemma vendor_raw: "CanonicalAddressMode ''VENDOR_RAW'' = Inr ''VENDOR_RAW''"
  by (simp add: CanonicalAddressMode_def text_eval)

lemma address_of_Inr:
  assumes "values_ok (ai_Values a)" and "rv_FunctionCode (ai_Values a) \<noteq> None"
  shows "\<exists>x. address_of sha m a = Inr x"
  using assms by (auto simp: values_ok_def address_of_def split: option.splits)

lemma pushed_address_ok:
  assumes v: "values_ok (ai_Values a)" and f: "register_fits (ai_Values a)" and x: "address_of sha m a = Inr x"
  shows "address_ok ''VENDOR_RAW'' (normalizeAddress (wire_address x) ''VENDOR_RAW'')"
proof -
  from x obtain fc r t where s: "rv_FunctionCode (ai_Values a) = Some fc" "rv_Register (ai_Values a) = Some r"
    "rv_ModbusDataType (ai_Values a) = Some t"
    by (auto simp: address_of_def split: option.splits)
  let ?w = "case rv_WordOrder (ai_Values a) of None \<Rightarrow> [] | Some w \<Rightarrow> w"
  have b: "fc \<in> {3, 4}" "0 \<le> r" "r \<le> 65535" "t \<in> set modbus_data_types"
    "?w \<in> {[], ''HIGH_LOW'', ''LOW_HIGH''}" "rv_DisplayName (ai_Values a) \<noteq> []"
    "trim_space (rv_DisplayName (ai_Values a)) = rv_DisplayName (ai_Values a)"
    using v s by (auto simp: values_ok_def)
  note t = modbus_data_types_plain [OF b(4)]
  have w: "to_upper (trim_space ?w) = ?w" using b(5) by (auto simp: text_eval)
  have e: "r + RegisterCount t \<le> 65536" using f s by (simp add: register_fits_def)
  let ?n = "normalizeAddress (wire_address x) ''VENDOR_RAW''"
  have n: "a_FunctionCode ?n = fc" "a_Register ?n = r" "a_DataType ?n = t" "a_Length ?n = RegisterCount t"
    "a_WordOrder ?n = ?w" "a_Description ?n = rv_DisplayName (ai_Values a)"
    using x s t(1,2) w b(7)
    by (auto simp: normalizeAddress_sel normalizeAddress_register wire_address_def address_of_def)
  have "is_ok (ResolveModbusAddress ''VENDOR_RAW'' (address_definition ?n))"
    using b(1-3) t(4,5) e
    by (auto simp: ResolveModbusAddress_def vendor_raw mode_start_def address_definition_def n)
  then show ?thesis
    unfolding address_ok_def n using b t(3-5) by auto
qed

lemma pushed_device_set_accepted:
  assumes b: "ms_BrandID s \<in> set brandIDs" and t: "clean_text (ms_DevType s)" "clean_text (ms_DevModel s)"
    and m: "ms_AddressMode s = ''VENDOR_RAW''" "ms_ByteOrder s = ''BIG_ENDIAN''" "ms_WordOrder s = ''HIGH_LOW''"
      "ms_MaxBlockSize s = 30"
    and ne: "ms_Addresses s \<noteq> []"
    and a: "\<And>x. x \<in> set (ms_Addresses s) \<Longrightarrow> address_ok ''VENDOR_RAW'' (normalizeAddress (wire_address x) ''VENDOR_RAW'')"
  shows "\<exists>out. snapshot_device_set brandIDs (wire_device_set s) = Inr out"
proof -
  let ?n = "normalizeDeviceSet (wire_device_set s)"
  have n: "ds_AddressMode ?n = ''VENDOR_RAW''" "ds_ByteOrder ?n = ''BIG_ENDIAN''" "ds_WordOrder ?n = ''HIGH_LOW''"
    "ds_MaxBlockSize ?n = 30" "ds_DevModel ?n = ms_DevModel s" "ds_DevType ?n = ms_DevType s"
    using t by (simp_all add: normalizeDeviceSet_sel wire_device_set_def m vendor_raw canonical_or_cleaned_def
        clean_text_def clean_upper_def text_eval)
  have "\<exists>y. snapshot_address ?n k ix = Inr y" if "ix \<in> set (indexed (ds_Addresses (wire_device_set s)))" for k ix
  proof -
    obtain i x where ix: "ix = (i, x)" by (cases ix)
    with that have "x \<in> set (ds_Addresses (wire_device_set s))" using in_indexed by metis
    then obtain y where "x = wire_address y" "y \<in> set (ms_Addresses s)" by (auto simp: wire_device_set_def)
    then show ?thesis using a by (simp add: ix snapshot_address_result n)
  qed
  then obtain as where "traverse (snapshot_address ?n (ds_DeviceSetID (wire_device_set s)))
      (indexed (ds_Addresses (wire_device_set s))) = Inr as"
    using traverse_ok_iff by metis
  moreover have "ds_BrandID (wire_device_set s) \<in> set brandIDs" "ds_Addresses (wire_device_set s) \<noteq> []"
    using b ne by (simp_all add: wire_device_set_def)
  ultimately show ?thesis
    using t by (simp add: snapshot_device_set_def Let_def n oneOf_def clean_text_def)
qed


lemma pushed_connection_accepted:
  assumes d: "device_ok d" and h: "di_Host d \<noteq> None" and i: "wireID sha (di_ModelID d) \<in> set dsIDs"
  shows "\<exists>out. snapshot_connection dsIDs (wire_connection (connection_of sha plants d)) = Inr out"
proof -
  from d h obtain host port where "di_Host d = Some host" "di_Port d = Some port" "clean_text host" "1 \<le> port"
    "port \<le> 65535" "clean_text (di_Name d)"
    by (auto simp: device_ok_def split: option.splits)
  with i show ?thesis
    by (simp add: snapshot_connection_def Let_def normalizeConnection_sel wire_connection_def connection_of_def
        clean_text_def)
qed

subsection \<open>The snapshot that is built\<close>

text \<open>A pollable device is sent when its model is known and has registers to read.\<close>

definition readable :: "(string \<times> MiddlewareAddress list) list \<Rightarrow> ModelInfo list \<Rightarrow> DeviceInfo \<Rightarrow> bool" where
  "readable byModel models d \<longleftrightarrow> model_row models (di_ModelID d) \<noteq> None \<and> addresses_of byModel (di_ModelID d) \<noteq> []"

lemma device_step_cases:
  "device_step sha byModel models plants d (s, seen) =
     (if \<not> readable byModel models d then (s, seen)
      else
        (s\<lparr>mg_DeviceSets := mg_DeviceSets s @
             (if di_ModelID d \<in> set seen then [] else [device_set_of sha byModel (the (model_row models (di_ModelID d)))]),
           mg_Connections := mg_Connections s @ [connection_of sha plants d]\<rparr>,
         if di_ModelID d \<in> set seen then seen else di_ModelID d # seen))"
  by (auto simp: device_step_def readable_def split: option.splits)

lemma model_row_Some:
  assumes "model_row models i = Some m" shows "m \<in> set models" and "mi_ID m = i"
  using assms by (auto simp: model_row_def find_Some_iff rev_nth)

lemma device_steps:
  assumes "fold (device_step sha byModel models plants) devices (s, seen) = (s', seen')"
    and "\<forall>i \<in> set seen. wireID sha i \<in> ms_DeviceSetID ` set (mg_DeviceSets s)"
  shows "mg_Connections s' = mg_Connections s @ map (connection_of sha plants) (filter (readable byModel models) devices)
    \<and> set (mg_DeviceSets s) \<subseteq> set (mg_DeviceSets s')
    \<and> (\<forall>x \<in> set (mg_DeviceSets s'). x \<in> set (mg_DeviceSets s) \<or>
         (\<exists>d m. d \<in> set devices \<and> readable byModel models d \<and> model_row models (di_ModelID d) = Some m
            \<and> x = device_set_of sha byModel m))
    \<and> (\<forall>d \<in> set devices. readable byModel models d \<longrightarrow>
         wireID sha (di_ModelID d) \<in> ms_DeviceSetID ` set (mg_DeviceSets s'))
    \<and> mg_Brands s' = mg_Brands s \<and> mg_Plants s' = mg_Plants s \<and> mg_Version s' = mg_Version s"
  using assms
proof (induction devices arbitrary: s seen)
  case Nil
  then show ?case by simp
next
  case (Cons d devices)
  let ?m = "the (model_row models (di_ModelID d))"
  obtain t seen1 where t: "device_step sha byModel models plants d (s, seen) = (t, seen1)" by fastforce
  have some: "model_row models (di_ModelID d) = Some ?m" if "readable byModel models d"
    using that by (auto simp: readable_def)
  then have id: "mi_ID ?m = di_ModelID d" if "readable byModel models d"
    using that model_row_Some(2) by blast
  have tt: "mg_Connections t = mg_Connections s @ (if readable byModel models d then [connection_of sha plants d] else [])"
    "mg_Brands t = mg_Brands s" "mg_Plants t = mg_Plants s" "mg_Version t = mg_Version s"
    "set (mg_DeviceSets s) \<subseteq> set (mg_DeviceSets t)"
    and new: "\<And>x. x \<in> set (mg_DeviceSets t) \<Longrightarrow> x \<in> set (mg_DeviceSets s) \<or>
      (readable byModel models d \<and> x = device_set_of sha byModel ?m)"
    and ds: "readable byModel models d \<Longrightarrow> wireID sha (di_ModelID d) \<in> ms_DeviceSetID ` set (mg_DeviceSets t)"
    and seen1: "\<forall>i \<in> set seen1. wireID sha i \<in> ms_DeviceSetID ` set (mg_DeviceSets t)"
    using t Cons.prems(2) id by (auto simp: device_step_cases device_set_of_def split: if_splits)
  have "fold (device_step sha byModel models plants) devices (t, seen1) = (s', seen')"
    using Cons.prems(1) t by simp
  note ih = Cons.IH [OF this seen1]
  then have "\<forall>x \<in> set (mg_DeviceSets s'). x \<in> set (mg_DeviceSets s) \<or>
         (\<exists>e m. e \<in> set (d # devices) \<and> readable byModel models e \<and> model_row models (di_ModelID e) = Some m
            \<and> x = device_set_of sha byModel m)"
    using new some by (metis list.set_intros)
  moreover have "\<forall>e \<in> set (d # devices). readable byModel models e \<longrightarrow>
         wireID sha (di_ModelID e) \<in> ms_DeviceSetID ` set (mg_DeviceSets s')"
    using ih ds by auto
  moreover have "set (mg_DeviceSets s) \<subseteq> set (mg_DeviceSets s')" using ih tt(5) by blast
  ultimately show ?case using ih tt(1-4) by simp
qed

lemma brand_step_brands:
  "set brands \<subseteq> set (brand_step sha m brands) \<and> mi_Manufacturer m \<in> mb_BrandName ` set (brand_step sha m brands)"
  by (auto simp: brand_step_def)

lemma brand_steps_keep: "set brands \<subseteq> set (fold (brand_step sha) models brands)"
proof (induction models arbitrary: brands)
  case (Cons m models)
  then show ?case using brand_step_brands [of brands sha m] by (metis fold_simps(2) order_trans)
qed simp

lemma brand_steps_names: "m \<in> set models \<Longrightarrow> mi_Manufacturer m \<in> mb_BrandName ` set (fold (brand_step sha) models brands)"
proof (induction models arbitrary: brands)
  case (Cons x models)
  show ?case
  proof (cases "m = x")
    case True
    then show ?thesis
      using brand_step_brands [of brands sha m] brand_steps_keep [of "brand_step sha m brands" sha models] by auto
  next
    case False
    with Cons show ?thesis by simp
  qed
qed simp

lemma brand_steps_only:
  assumes "b \<in> set (fold (brand_step sha) models brands)"
  shows "b \<in> set brands \<or> (\<exists>m \<in> set models. b = \<lparr>mb_BrandID = brandWireID sha (mi_Manufacturer m),
           mb_BrandName = mi_Manufacturer m, mb_BrandDescription = []\<rparr>)"
  using assms
proof (induction models arbitrary: brands)
  case (Cons x models)
  from Cons.prems have "b \<in> set (fold (brand_step sha) models (brand_step sha x brands))" by simp
  from Cons.IH [OF this] show ?case by (auto simp: brand_step_def split: if_splits)
qed simp

text \<open>A fitting registry gives a snapshot that the gateway's rules accept, with the readable devices as connections.\<close>

definition registers_fit :: "Registry \<Rightarrow> bool" where
  "registers_fit db \<longleftrightarrow> list_all (\<lambda>a. register_fits (ai_Values a)) (rg_Addresses db)"

definition polled_devices :: "Registry \<Rightarrow> string \<Rightarrow> DeviceInfo list" where
  "polled_devices db middlewareID =
     filter (\<lambda>d. \<exists>m \<in> set (rg_Models db). mi_ID m = di_ModelID d \<and> model_registers db m \<noteq> [])
       (pollable_devices db (assigned_plants db middlewareID))"

lemma model_addresses_rows:
  assumes ok: "registry_ok db" and t: "traverse (model_addresses sha db) models = Inr byModel"
    and s: "set models \<subseteq> set (rg_Models db)"
  shows "m \<in> set models \<Longrightarrow> traverse (address_of sha m) (model_registers db m) = Inr (addresses_of byModel (mi_ID m))"
proof -
  assume m: "m \<in> set models"
  have l: "list_all2 (\<lambda>m x. model_addresses sha db m = Inr x) models byModel" using t by (simp add: traverse_Inr_iff)
  have fst: "map fst byModel = map mi_ID models"
    using l by (induction rule: list_all2_induct) (auto simp: model_addresses_def map_sum_def split: sum.splits)
  have inj: "inj_on mi_ID (set (rg_Models db))" using ok by (simp add: registry_ok_def keys_ok_def distinct_map)
  from l m have "\<exists>x \<in> set byModel. model_addresses sha db m = Inr x"
    by (induction rule: list_all2_induct) auto
  then obtain x where x: "x \<in> set byModel" "model_addresses sha db m = Inr x" by blast
  then obtain as where as: "x = (mi_ID m, as)" "traverse (address_of sha m) (model_registers db m) = Inr as"
    by (cases "traverse (address_of sha m) (model_registers db m)") (auto simp: model_addresses_def)
  have "as' = as" if "(mi_ID m, as') \<in> set byModel" for as'
  proof -
    from l that have "\<exists>m' \<in> set models. model_addresses sha db m' = Inr (mi_ID m, as')"
      by (induction rule: list_all2_induct) auto
    then obtain m' where "m' \<in> set models" "model_addresses sha db m' = Inr (mi_ID m, as')" by blast
    moreover from this have "mi_ID m' = mi_ID m"
      by (cases "traverse (address_of sha m') (model_registers db m')") (auto simp: model_addresses_def)
    ultimately show ?thesis using inj s m x(2) as(1) by (auto dest: inj_onD)
  qed
  moreover from x(1) as(1) obtain as'' where "map_of byModel (mi_ID m) = Some as''"
    by (metis domD domIff map_of_eq_None_iff fst_conv image_eqI)
  ultimately have "addresses_of byModel (mi_ID m) = as"
    using map_of_SomeD by (fastforce simp: addresses_of_def)
  with as(2) show ?thesis by simp
qed

lemma model_addresses_ok:
  assumes "registry_ok db" shows "\<exists>as. traverse (address_of sha m) (model_registers db m) = Inr as"
  unfolding traverse_ok_iff
  using assms by (auto simp: model_registers_def registry_ok_def rows_ok_def list_all_iff intro!: address_of_Inr)

lemma registers_accepted:
  assumes "registry_ok db" and "registers_fit db" and "traverse (address_of sha m) (model_registers db m) = Inr as"
    and "x \<in> set as"
  shows "address_ok ''VENDOR_RAW'' (normalizeAddress (wire_address x) ''VENDOR_RAW'')"
proof -
  from traverse_member [OF assms(3,4)] obtain a where "a \<in> set (model_registers db m)" "address_of sha m a = Inr x" by blast
  with assms(1,2) show ?thesis
    by (intro pushed_address_ok)
      (auto simp: model_registers_def registry_ok_def rows_ok_def registers_fit_def list_all_iff)
qed


lemma readable_iff:
  assumes ok: "registry_ok db" and models: "models = device_models db devices"
    and t: "traverse (model_addresses sha db) models = Inr byModel" and d: "d \<in> set devices"
  shows "readable byModel models d \<longleftrightarrow> (\<exists>m \<in> set (rg_Models db). mi_ID m = di_ModelID d \<and> model_registers db m \<noteq> [])"
proof -
  have sub: "set models \<subseteq> set (rg_Models db)" by (auto simp: models device_models_def)
  have inj: "inj_on mi_ID (set (rg_Models db))" using ok by (simp add: registry_ok_def keys_ok_def distinct_map)
  have len: "addresses_of byModel (mi_ID m) = [] \<longleftrightarrow> model_registers db m = []" if "m \<in> set models" for m
    using traverse_length [OF model_addresses_rows [OF ok t sub that]] by (metis length_0_conv)
  show ?thesis
  proof
    assume "readable byModel models d"
    then obtain m where "model_row models (di_ModelID d) = Some m" "addresses_of byModel (di_ModelID d) \<noteq> []"
      by (auto simp: readable_def)
    moreover from this have "m \<in> set models" "mi_ID m = di_ModelID d" by (auto dest: model_row_Some)
    ultimately have "m \<in> set (rg_Models db)" "mi_ID m = di_ModelID d" "model_registers db m \<noteq> []"
      using len [of m] sub by auto
    then show "\<exists>m \<in> set (rg_Models db). mi_ID m = di_ModelID d \<and> model_registers db m \<noteq> []" by blast
  next
    assume "\<exists>m \<in> set (rg_Models db). mi_ID m = di_ModelID d \<and> model_registers db m \<noteq> []"
    then obtain m where m: "m \<in> set (rg_Models db)" "mi_ID m = di_ModelID d" "model_registers db m \<noteq> []" by blast
    then have "m \<in> set models" using d by (auto simp: models device_models_def)
    then have "model_row models (di_ModelID d) \<noteq> None"
      using m(2) by (auto simp: model_row_def find_None_iff)
    moreover have "addresses_of byModel (di_ModelID d) \<noteq> []" using len [OF \<open>m \<in> set models\<close>] m by simp
    ultimately show "readable byModel models d" by (simp add: readable_def)
  qed
qed

lemma wire_brand_accepted:
  assumes "clean_text (mb_BrandName b)" shows "\<exists>x. snapshot_brand (wire_brand b) = Inr x"
  using assms by (simp add: snapshot_brand_def Let_def wire_brand_def clean_text_def)

lemma wire_plant_accepted:
  assumes "clean_text (mp_PlantCode p)" and "clean_text (mp_PlantName p)"
  shows "\<exists>x. snapshot_plant (wire_plant p) = Inr x"
  using assms by (simp add: snapshot_plant_def Let_def wire_plant_def clean_text_def)

lemma wire_snapshot_accepted:
  assumes "\<forall>b \<in> set (mg_Brands s). clean_text (mb_BrandName b)"
    and "\<forall>p \<in> set (mg_Plants s). clean_text (mp_PlantCode p) \<and> clean_text (mp_PlantName p)"
    and "\<forall>x \<in> set (mg_DeviceSets s). \<exists>y. snapshot_device_set (map mb_BrandID (mg_Brands s)) (wire_device_set x) = Inr y"
    and "\<forall>c \<in> set (mg_Connections s). \<exists>y. snapshot_connection (map ms_DeviceSetID (mg_DeviceSets s)) (wire_connection c) = Inr y"
  shows "\<exists>n. normalizeConfigSnapshot (wire_snapshot s) = Inr n"
proof -
  have i: "map b_BrandID (cs_Brands (wire_snapshot s)) = map mb_BrandID (mg_Brands s)"
    "map ds_DeviceSetID (cs_DeviceSets (wire_snapshot s)) = map ms_DeviceSetID (mg_DeviceSets s)"
    by (simp_all add: wire_snapshot_def wire_brand_def wire_device_set_def o_def)
  have "\<exists>bs. traverse snapshot_brand (cs_Brands (wire_snapshot s)) = Inr bs"
    using assms(1) wire_brand_accepted by (auto simp: traverse_ok_iff wire_snapshot_def)
  moreover have "\<exists>ds. traverse (snapshot_device_set (map b_BrandID (cs_Brands (wire_snapshot s))))
      (cs_DeviceSets (wire_snapshot s)) = Inr ds"
    unfolding i using assms(3) by (auto simp: traverse_ok_iff wire_snapshot_def)
  moreover have "\<exists>ps. traverse snapshot_plant (cs_Plants (wire_snapshot s)) = Inr ps"
    using assms(2) wire_plant_accepted by (auto simp: traverse_ok_iff wire_snapshot_def)
  moreover have "\<exists>cs. traverse (snapshot_connection (map ds_DeviceSetID (cs_DeviceSets (wire_snapshot s))))
      (cs_Connections (wire_snapshot s)) = Inr cs"
    unfolding i using assms(4) by (auto simp: traverse_ok_iff wire_snapshot_def)
  ultimately show ?thesis by (auto simp: normalizeConfigSnapshot_def)
qed

text \<open>What a built snapshot holds, and that the gateway accepts each part of it.\<close>

lemma build_result:
  assumes ok: "registry_ok db" and plants: "plants = assigned_plants db (gr_ID g)" and ne: "plants \<noteq> []"
    and devices: "devices = pollable_devices db plants" "devices \<noteq> []" and models: "models = device_models db devices"
  obtains s byModel where "buildConfigSnapshot sha db g = Inr s"
    and "traverse (model_addresses sha db) models = Inr byModel"
    and "mg_Connections s = map (connection_of sha plants) (polled_devices db (gr_ID g))"
    and "\<And>d. d \<in> set (polled_devices db (gr_ID g)) \<longleftrightarrow> d \<in> set devices \<and> readable byModel models d"
    and "\<And>x. x \<in> set (mg_DeviceSets s) \<Longrightarrow> \<exists>d m. readable byModel models d
       \<and> model_row models (di_ModelID d) = Some m \<and> x = device_set_of sha byModel m"
    and "\<And>d. d \<in> set (polled_devices db (gr_ID g)) \<Longrightarrow>
       wireID sha (di_ModelID d) \<in> ms_DeviceSetID ` set (mg_DeviceSets s)"
    and "mg_Brands s = fold (brand_step sha) models []"
    and "mg_Plants s = map (\<lambda>p. \<lparr>mp_PlantCode = pn_Code p, mp_PlantName = pn_Name p\<rparr>) plants"
proof -
  define s0 where "s0 = (empty_snapshot g)\<lparr>mg_Plants := map (\<lambda>p. \<lparr>mp_PlantCode = pn_Code p, mp_PlantName = pn_Name p\<rparr>) plants,
    mg_Brands := fold (brand_step sha) models []\<rparr>"
  have "\<forall>m \<in> set models. \<exists>x. model_addresses sha db m = Inr x"
    using model_addresses_ok [OF ok] by (auto simp: model_addresses_def) (metis map_sum.simps(2))
  then obtain byModel where t: "traverse (model_addresses sha db) models = Inr byModel"
    using traverse_ok_iff by metis
  obtain s seen where s: "fold (device_step sha byModel models plants) devices (s0, []) = (s, seen)" by fastforce
  have b: "buildConfigSnapshot sha db g = Inr s"
    using ne devices t s by (simp add: buildConfigSnapshot_def Let_def models s0_def flip: plants devices(1))
  have r: "polled_devices db (gr_ID g) = filter (readable byModel models) devices"
    unfolding polled_devices_def plants [symmetric] devices(1) [symmetric]
    using readable_iff [OF ok models t] by (intro filter_cong) simp_all
  have e: "mg_Connections s0 = []" "mg_DeviceSets s0 = []" "mg_Brands s0 = fold (brand_step sha) models []"
    "mg_Plants s0 = map (\<lambda>p. \<lparr>mp_PlantCode = pn_Code p, mp_PlantName = pn_Name p\<rparr>) plants"
    by (simp_all add: s0_def empty_snapshot_def)
  note f = device_steps [OF s]
  have "\<forall>x \<in> set (mg_DeviceSets s). \<exists>d m. readable byModel models d \<and> model_row models (di_ModelID d) = Some m
       \<and> x = device_set_of sha byModel m"
    using f e(2) by (metis empty_iff list.set(1))
  moreover have "mg_Connections s = map (connection_of sha plants) (polled_devices db (gr_ID g))"
    "\<forall>d \<in> set (polled_devices db (gr_ID g)). wireID sha (di_ModelID d) \<in> ms_DeviceSetID ` set (mg_DeviceSets s)"
    "mg_Brands s = fold (brand_step sha) models []" "mg_Plants s = mg_Plants s0"
    using f e(1,3) r by simp_all
  ultimately show ?thesis
    by (intro that [OF b t]) (simp_all add: e(4) r)
qed

lemma build_nonempty:
  assumes ok: "registry_ok db" and fit: "registers_fit db"
    and plants: "plants = assigned_plants db (gr_ID g)" and ne: "plants \<noteq> []"
    and devices: "devices = pollable_devices db plants" "devices \<noteq> []"
  shows "\<exists>s. buildConfigSnapshot sha db g = Inr s
    \<and> mg_Connections s = map (connection_of sha plants) (polled_devices db (gr_ID g))
    \<and> (\<exists>n. normalizeConfigSnapshot (wire_snapshot s) = Inr n)"
proof -
  define models where "models = device_models db devices"
  obtain s byModel where b: "buildConfigSnapshot sha db g = Inr s"
    and t: "traverse (model_addresses sha db) models = Inr byModel"
    and conns: "mg_Connections s = map (connection_of sha plants) (polled_devices db (gr_ID g))"
    and polled: "\<And>d. d \<in> set (polled_devices db (gr_ID g)) \<longleftrightarrow> d \<in> set devices \<and> readable byModel models d"
    and sets: "\<And>x. x \<in> set (mg_DeviceSets s) \<Longrightarrow> \<exists>d m. readable byModel models d
       \<and> model_row models (di_ModelID d) = Some m \<and> x = device_set_of sha byModel m"
    and ids: "\<And>d. d \<in> set (polled_devices db (gr_ID g)) \<Longrightarrow>
       wireID sha (di_ModelID d) \<in> ms_DeviceSetID ` set (mg_DeviceSets s)"
    and brands: "mg_Brands s = fold (brand_step sha) models []"
    and pl: "mg_Plants s = map (\<lambda>p. \<lparr>mp_PlantCode = pn_Code p, mp_PlantName = pn_Name p\<rparr>) plants"
    using ok plants ne devices models_def by (rule build_result [where sha = sha]) blast
  have sub: "set models \<subseteq> set (rg_Models db)" by (auto simp: models_def device_models_def)
  have rows: "list_all model_ok (rg_Models db)" "list_all device_ok (rg_Devices db)" "list_all plant_ok (rg_Plants db)"
    using ok by (simp_all add: registry_ok_def rows_ok_def)
  have "\<exists>n. normalizeConfigSnapshot (wire_snapshot s) = Inr n"
  proof (rule wire_snapshot_accepted)
    show "\<forall>b \<in> set (mg_Brands s). clean_text (mb_BrandName b)"
      using brand_steps_only [of _ sha models "[]"] rows(1) sub by (fastforce simp: brands list_all_iff model_ok_def)
    show "\<forall>p \<in> set (mg_Plants s). clean_text (mp_PlantCode p) \<and> clean_text (mp_PlantName p)"
      using rows(3) by (auto simp: pl plants assigned_plants_def list_all_iff plant_ok_def split: if_splits prod.splits)
    show "\<forall>x \<in> set (mg_DeviceSets s). \<exists>y. snapshot_device_set (map mb_BrandID (mg_Brands s)) (wire_device_set x) = Inr y"
    proof
      fix x assume "x \<in> set (mg_DeviceSets s)"
      from sets [OF this] obtain d m where d: "readable byModel models d" "model_row models (di_ModelID d) = Some m"
        and x: "x = device_set_of sha byModel m" by blast
      from model_row_Some [OF d(2)] have m: "m \<in> set models" "mi_ID m = di_ModelID d" by simp_all
      then have mo: "model_ok m" using rows(1) sub by (auto simp: list_all_iff)
      from brand_steps_names [OF m(1), of sha "[]"] obtain b where "b \<in> set (mg_Brands s)" "mb_BrandName b = mi_Manufacturer m"
        by (auto simp: brands)
      moreover from this(1) have "mb_BrandID b = brandWireID sha (mb_BrandName b)"
        using brand_steps_only [of b sha models "[]"] by (auto simp: brands)
      ultimately have "ms_BrandID x \<in> set (map mb_BrandID (mg_Brands s))"
        by (auto simp: x device_set_of_def intro: rev_image_eqI)
      moreover have "ms_Addresses x \<noteq> []" using d(1) m(2) by (simp add: x device_set_of_def readable_def)
      ultimately show "\<exists>y. snapshot_device_set (map mb_BrandID (mg_Brands s)) (wire_device_set x) = Inr y"
        using mo registers_accepted [OF ok fit model_addresses_rows [OF ok t sub m(1)]]
        by (intro pushed_device_set_accepted) (simp_all add: x device_set_of_def model_ok_def)
    qed
    have "device_ok d \<and> di_Host d \<noteq> None" if "d \<in> set devices" for d
      using that rows(2) by (auto simp: devices pollable_devices_def list_all_iff)
    then show "\<forall>c \<in> set (mg_Connections s). \<exists>y. snapshot_connection (map ms_DeviceSetID (mg_DeviceSets s)) (wire_connection c) = Inr y"
      using polled ids by (auto simp: conns intro!: pushed_connection_accepted)
  qed
  with b conns show ?thesis by blast
qed


text \<open>The snapshot in every case; without plants or devices it is empty.\<close>

lemma buildConfigSnapshot_accepted:
  assumes "registry_ok db" and "registers_fit db"
  shows "\<exists>s. buildConfigSnapshot sha db g = Inr s
    \<and> mg_Connections s = map (connection_of sha (assigned_plants db (gr_ID g))) (polled_devices db (gr_ID g))
    \<and> (\<exists>n. normalizeConfigSnapshot (wire_snapshot s) = Inr n)"
proof (cases "assigned_plants db (gr_ID g) = [] \<or> pollable_devices db (assigned_plants db (gr_ID g)) = []")
  case True
  let ?s = "(empty_snapshot g)\<lparr>mg_Plants := map (\<lambda>p. \<lparr>mp_PlantCode = pn_Code p, mp_PlantName = pn_Name p\<rparr>)
    (assigned_plants db (gr_ID g))\<rparr>"
  have "buildConfigSnapshot sha db g = Inr ?s"
    using True by (auto simp: buildConfigSnapshot_def Let_def)
  moreover have "pollable_devices db (assigned_plants db (gr_ID g)) = []"
    using True by (auto simp: pollable_devices_def)
  then have "polled_devices db (gr_ID g) = []" by (simp add: polled_devices_def)
  moreover have "\<exists>n. normalizeConfigSnapshot (wire_snapshot ?s) = Inr n"
    using assms(1)
    by (intro wire_snapshot_accepted)
      (auto simp: empty_snapshot_def registry_ok_def rows_ok_def assigned_plants_def list_all_iff plant_ok_def
        split: if_splits prod.splits)
  ultimately show ?thesis by (simp add: empty_snapshot_def)
next
  case False
  with build_nonempty [OF assms refl, of g] show ?thesis by simp
qed

lemma wire_snapshot_Version: "wire_snapshot (s\<lparr>mg_Version := v\<rparr>) = (wire_snapshot s)\<lparr>cs_Version := v\<rparr>"
  by (simp add: wire_snapshot_def)

lemma normalizeConfigSnapshot_Version:
  "normalizeConfigSnapshot (s\<lparr>cs_Version := v\<rparr>) = map_sum id (\<lambda>n. n\<lparr>cs_Version := v\<rparr>) (normalizeConfigSnapshot s)"
  by (simp add: normalizeConfigSnapshot_def split: sum.splits)

text \<open>The gateway's configuration after a push it accepts.\<close>

lemma SaveGatewayConfig_connections:
  "fs_Connections (st_mem (fst (SaveGatewayConfig url io v s))) = fs_Connections (st_mem s)"
  by (simp add: SaveGatewayConfig_def Let_def)

lemma handleConfigSnapshot_connections:
  assumes n: "normalizeConfigSnapshot (en_ConfigSnapshot msg) = Inr n" and io: "ge_io env (gw_Store g) = None"
    and h: "handleConfigSnapshot env now msg g = (g', ack)"
  shows "fs_Connections (st_mem (gw_Store g')) = cs_Connections n \<and> en_Status ack = ''APPLIED''"
  using h
proof (cases rule: handleConfigSnapshot_cases)
  case (failed s err)
  then show ?thesis
    by (simp add: ApplyConfigSnapshot_def Let_def n io save_result_cases)
next
  case (applied s cfg changed)
  then have "fs_Connections (st_mem s) = cs_Connections n"
    by (auto simp: ApplyConfigSnapshot_def Let_def n io save_result_cases)
  with applied show ?thesis by (simp add: SaveGatewayConfig_connections)
qed


lemma normalized_connections:
  assumes "normalizeConfigSnapshot s = Inr n" shows "cs_Connections n = map normalizeConnection (cs_Connections s)"
proof -
  from assms have "traverse (snapshot_connection (map ds_DeviceSetID (cs_DeviceSets s))) (cs_Connections s) = Inr (cs_Connections n)"
    by (auto simp: normalizeConfigSnapshot_steps)
  then have "map id (cs_Connections n) = map normalizeConnection (cs_Connections s)"
    by (rule traverse_proj) (auto simp: snapshot_connection_def Let_def split: if_splits)
  then show ?thesis by simp
qed

lemma polled_device_ok:
  assumes "registry_ok db" and "d \<in> set (polled_devices db i)"
  shows "device_ok d" and "\<exists>h. di_Host d = Some h" and "\<exists>p. di_Port d = Some p"
  using assms by (auto simp: polled_devices_def pollable_devices_def registry_ok_def rows_ok_def list_all_iff)

text \<open>The connection the gateway keeps of a device; a unit id 0 has become 1.\<close>

lemma connection_kept:
  assumes "registry_ok db" and "d \<in> set (polled_devices db i)"
  shows "(let c = normalizeConnection (wire_connection (connection_of sha plants d)) in
      (c_ConnectionID c, c_DeviceSetID c, c_DevDn c, Some (c_Host c), Some (c_Port c), c_UnitID c, c_Enabled c))
    = (wireID sha (di_ID d), wireID sha (di_ModelID d), di_ExternalID d, di_Host d, di_Port d,
       if di_UnitID d = 0 then 1 else di_UnitID d, True)"
  using polled_device_ok [OF assms]
  by (auto simp: Let_def normalizeConnection_sel wire_connection_def connection_of_def device_ok_def clean_text_def)



subsection \<open>A plant with one inverter\<close>

definition sample_values :: RegisterValues where
  "sample_values =
     \<lparr>rv_DisplayName = ''Active power'', rv_Unit = ''kW'', rv_DataType = ''number'', rv_Scale = f_one, rv_Offset = f_zero,
      rv_Decimals = 2, rv_IsEnabled = True, rv_Notes = [], rv_FunctionCode = Some 3, rv_Register = Some 32080,
      rv_WordOrder = None, rv_ModbusDataType = Some ''I32''\<rparr>"

definition sample_registry :: Registry where
  "sample_registry =
     \<lparr>rg_Profiles = [\<lparr>pf_ID = ''p'', pf_OrganizationID = ''o'', pf_Name = ''Huawei SUN'', pf_Manufacturer = ''Huawei''\<rparr>],
      rg_Addresses = [\<lparr>ai_ID = ''a'', ai_OrganizationID = ''o'', ai_ProfileID = ''p'', ai_AddressKey = ''reg32080'',
         ai_Values = sample_values, ai_IsAlarm = False, ai_MappingMode = ''EXACT'',
         ai_BitInterpretation = ''INDEPENDENT_FLAGS'', ai_Mappings = []\<rparr>],
      rg_Models = [\<lparr>mi_ID = ''m'', mi_OrganizationID = ''o'', mi_ProfileID = ''p'', mi_Manufacturer = ''Huawei'',
         mi_Model = ''SUN'', mi_DeviceType = ''Inverter'', mi_SourceTypeID = None, mi_IsActive = True,
         mi_AddressMode = ''VENDOR_RAW'', mi_ByteOrder = ''BIG_ENDIAN'', mi_WordOrder = ''HIGH_LOW'', mi_MaxBlockSize = 30\<rparr>],
      rg_Metadata = [],
      rg_Devices = [\<lparr>di_ID = ''d'', di_OrganizationID = ''o'', di_PlantID = ''q'', di_ModelID = ''m'', di_ExternalID = ''INV1'',
         di_Name = ''Inverter 1'', di_Host = Some ''10.0.0.2'', di_Port = Some 502, di_UnitID = 1, di_Active = True\<rparr>],
      rg_Plants = [\<lparr>pn_ID = ''q'', pn_OrganizationID = ''o'', pn_Code = ''BKK'', pn_Name = ''Bangkok'',
         pn_Timezone = ''Asia/Bangkok'', pn_Latitude = None, pn_Longitude = None, pn_InstalledDcKW = None,
         pn_InstalledAcKW = None, pn_LifecycleStatus = ''OPERATIONAL'', pn_IsActive = True, pn_AlarmEmail = False,
         pn_AlarmRole = None\<rparr>],
      rg_Assigned = [(''g'', ''q'')], rg_Audit = []\<rparr>"

definition sample_push_db :: PushDb where
  "sample_push_db =
     \<lparr>pd_Gateways = [\<lparr>gr_ID = ''g'', gr_OrganizationID = ''o'', gr_PollInterval = 60, gr_APIPolling = True,
         gr_IdleHeartbeat = 1800, gr_ConfigVersion = 0, gr_AppliedVersion = 0, gr_Snapshot = None,
         gr_SoftwareVersion = [], gr_LastSeen = 0, gr_Name = ''Bangkok'', gr_SiteName = [], gr_KeyPrefix = ''ygm_12345678'',
         gr_KeyHash = [], gr_AutoOnboard = False, gr_IsActive = True, gr_CommandTimeout = 60\<rparr>],
      pd_History = [], pd_Registry = sample_registry\<rparr>"

lemma sample_registry_ok: "registry_ok sample_registry"
  by (simp add: registry_ok_def keys_ok_def rows_ok_def references_ok_def sample_registry_def sample_values_def
      values_ok_def model_ok_def device_ok_def plant_ok_def clean_text_def modbus_data_types_def text_eval)

lemma sample_registers_fit: "registers_fit sample_registry"
  by (simp add: registers_fit_def register_fits_def sample_registry_def sample_values_def RegisterCount_def
      NormalizeDataType_def text_eval)

lemma sample_polled: "map di_ID (polled_devices sample_registry ''g'') = [''d'']"
  by (simp add: polled_devices_def pollable_devices_def assigned_plants_def model_registers_def sample_registry_def
      sample_values_def)



subsection \<open>Versions, and what an acknowledgement changes\<close>

text \<open>Every push has a version of its own, above the versions of the gateway's history.\<close>

definition versions_ok :: "PushDb \<Rightarrow> bool" where
  "versions_ok db \<longleftrightarrow>
     distinct (map gr_ID (pd_Gateways db))
     \<and> distinct (map (\<lambda>h. (hi_ClientID h, hi_Version h)) (pd_History db))
     \<and> (\<forall>g \<in> set (pd_Gateways db). 0 \<le> gr_AppliedVersion g \<and> 0 \<le> gr_ConfigVersion g)
     \<and> (\<forall>h \<in> set (pd_History db). 1 \<le> hi_Version h
          \<and> (\<forall>g \<in> set (pd_Gateways db). gr_ID g = hi_ClientID h \<longrightarrow> hi_Version h \<le> gr_ConfigVersion g))"

text \<open>
  What the gateway acknowledges a push with carries the version under \<open>appliedVersion\<close>; the platform
  reads \<open>version\<close>, which the embedded snapshot sends as 0.
\<close>

lemma acknowledged_version_is_zero:
  "gv_Type (decode_envelope (snd (handleConfigSnapshot env now msg gw))) = ''config.ack''
   \<and> gv_Version (decode_envelope (snd (handleConfigSnapshot env now msg gw))) = 0
   \<and> en_AppliedVersion (snd (handleConfigSnapshot env now msg gw)) = cs_Version (en_ConfigSnapshot msg)"
  by (simp add: decode_envelope_def handleConfigSnapshot_def zero_envelope_def zero_ConfigSnapshot_def Let_def
      split: prod.splits sum.splits)

text \<open>So the acknowledgement of a push changes no history row and no applied version.\<close>

lemma acknowledgement_is_lost:
  assumes "versions_ok db"
  shows "let db' = gateway_message t i (decode_envelope (snd (handleConfigSnapshot env now msg gw))) db in
    pd_History db' = pd_History db \<and> map gr_AppliedVersion (pd_Gateways db') = map gr_AppliedVersion (pd_Gateways db)"
proof -
  let ?m = "decode_envelope (snd (handleConfigSnapshot env now msg gw))"
  have "\<forall>h \<in> set (pd_History db). \<not> (hi_ClientID h = i \<and> hi_Version h = 0)"
    using assms by (auto simp: versions_ok_def)
  then have "update_where (\<lambda>h. hi_ClientID h = i \<and> hi_Version h = 0) f (pd_History db) = pd_History db" for f
    by (rule update_where_none)
  moreover have "\<forall>r \<in> set (pd_Gateways db). \<not> (gr_ID r = i \<and> gr_AppliedVersion r < 0)"
    using assms by (auto simp: versions_ok_def)
  then have "update_where (\<lambda>r. gr_ID r = i \<and> gr_AppliedVersion r < 0) f (pd_Gateways db) = pd_Gateways db" for f
    by (rule update_where_none)
  moreover have "map gr_AppliedVersion (update_where (\<lambda>r. gr_ID r = i) (\<lambda>r. r\<lparr>gr_LastSeen := t\<rparr>) (pd_Gateways db))
      = map gr_AppliedVersion (pd_Gateways db)"
    by (rule update_where_map) simp
  ultimately show ?thesis
    using acknowledged_version_is_zero [of env now msg gw]
    by (simp add: gateway_message_def RecordConfigAck_def Let_def)
qed

text \<open>A register that passes the platform's validation and runs past the register space is refused by the gateway.\<close>

definition last_register :: MiddlewareAddress where
  "last_register =
     \<lparr>ma_AddressID = 1, ma_DeviceSetID = 1, ma_FunctionCode = 3, ma_Register = 65535, ma_Description = ''Energy'',
      ma_CanonicalKey = ''energy'', ma_SourceTag = [], ma_Factor = f_one, ma_Offset = f_zero, ma_DataType = ''U32'',
      ma_Length = 0, ma_WordOrder = [], ma_SourceUnit = [], ma_Remark = [], ma_Enabled = True\<rparr>"

lemma last_register_accepted: "validateModbusRegisterFields (Some 3) (Some 65535) [] ''U32'' = Inr ()"
  by (simp add: validateModbusRegisterFields_def)

lemma last_register_refused:
  "\<not> address_ok ''VENDOR_RAW'' (normalizeAddress (wire_address last_register) ''VENDOR_RAW'')"
proof -
  let ?n = "normalizeAddress (wire_address last_register) ''VENDOR_RAW''"
  have u: "''U32'' \<in> set modbus_data_types" by (simp add: modbus_data_types_def)
  note t = modbus_data_types_plain [OF u]
  have c: "RegisterCount ''U32'' = 2" by (simp add: RegisterCount_def NormalizeDataType_def text_eval)
  have n: "a_FunctionCode ?n = 3" "a_Register ?n = 65535" "a_DataType ?n = ''U32''" "a_Length ?n = 2"
    using t(1,2) c by (simp_all add: normalizeAddress_sel normalizeAddress_register wire_address_def last_register_def)
  have "\<not> is_ok (ResolveModbusAddress ''VENDOR_RAW'' (address_definition ?n))"
    by (simp add: ResolveModbusAddress_def vendor_raw mode_start_def address_definition_def n)
  then show ?thesis by (simp add: address_ok_def)
qed

end
