(* ===== verification/ConfigImport.thy ===== *)
theory ConfigImport
  imports ConfigPush
begin

section \<open>platform-api core: importing a gateway's own configuration\<close>

text \<open>
  \<open>importFromSnapshot\<close> of \<open>core/middleware_config.go\<close> and what it is reached by, over the operations of
  \<open>Registry\<close>. Each of those is a transaction of its own: an import that ends with an error keeps what the
  steps before it committed, which is the registry returned beside the error. The Go maps are partial
  functions and reading a missing key of a \<open>map[int64]string\<close> gives the empty string. The gateway's id is
  \<open>None\<close> where \<open>parseUUID\<close> refuses it. \<open>log.Printf\<close> is not modelled.
\<close>

record ImportMiddlewareConfigResult =
  ir_ModelsCreated :: nat
  ir_ModelsReused :: nat
  ir_Upserted :: nat
  ir_Skipped :: nat
  ir_Pruned :: nat
  ir_DevicesCreated :: nat
  ir_DevicesUpdated :: nat
  ir_DevicesSkipped :: nat
  ir_Connections :: "(string \<times> int \<times> int \<times> string) list"

definition zero_import :: ImportMiddlewareConfigResult where
  "zero_import =
     \<lparr>ir_ModelsCreated = 0, ir_ModelsReused = 0, ir_Upserted = 0, ir_Skipped = 0, ir_Pruned = 0,
      ir_DevicesCreated = 0, ir_DevicesUpdated = 0, ir_DevicesSkipped = 0, ir_Connections = []\<rparr>"

definition normalizeModbusDataType :: "string \<Rightarrow> string" where
  "normalizeModbusDataType dataType =
     (let t = to_upper (trim_space dataType)
      in if t \<in> set [''SHORT'', ''INT16''] then ''I16''
         else if t \<in> set [''USHORT'', ''UINT16''] then ''U16''
         else if t \<in> set [''LONG'', ''SLONG'', ''INT32'', ''S32'', ''SW_INT'', ''SMA_INT32''] then ''I32''
         else if t \<in> set [''ULONG'', ''DWORD'', ''UINT32'', ''SW_UINT'', ''SMA_UINT32''] then ''U32''
         else if t \<in> set [''UINT64'', ''SMA_UINT64''] then ''U64''
         else if t \<in> set [''FLOAT'', ''SW_FLOAT''] then ''FLOAT32''
         else t)"

text \<open>\<open>m[k]\<close> of a \<open>map[int64]string\<close>.\<close>

definition map_text :: "(int \<Rightarrow> string option) \<Rightarrow> int \<Rightarrow> string" where
  "map_text m k = (case m k of Some v \<Rightarrow> v | None \<Rightarrow> [])"

text \<open>A Go map filled in a loop: the last entry of a key stays.\<close>

definition filled :: "('k \<times> 'v) list \<Rightarrow> 'k \<Rightarrow> 'v option" where
  "filled kvs = map_of (rev kvs)"

type_synonym modelKey = "string \<times> string \<times> string"

definition models_by_key :: "string \<Rightarrow> ModelInfo list \<Rightarrow> modelKey \<Rightarrow> string option" where
  "models_by_key org existing =
     filled (map (\<lambda>m. ((mi_Manufacturer m, mi_DeviceType m, mi_Model m), mi_ID m))
               (filter (\<lambda>m. mi_OrganizationID m = org) existing))"

definition plants_by_code :: "string \<Rightarrow> PlantInfo list \<Rightarrow> string \<Rightarrow> string option" where
  "plants_by_code org plants =
     filled (map (\<lambda>p. (to_upper (trim_space (pn_Code p)), pn_ID p)) (filter (\<lambda>p. pn_OrganizationID p = org) plants))"

text \<open>The single plant assigned to the gateway, if there is exactly one.\<close>

definition fallback_plant :: "string option \<Rightarrow> Registry \<Rightarrow> string option" where
  "fallback_plant gateway db =
     (case gateway of
        None \<Rightarrow> None
      | Some i \<Rightarrow>
          (case map snd (filter (\<lambda>a. fst a = i) (rg_Assigned db)) of [p] \<Rightarrow> if p = [] then None else Some p | _ \<Rightarrow> None))"

subsection \<open>Device sets\<close>

definition set_key :: "(int \<Rightarrow> string option) \<Rightarrow> MiddlewareDeviceSet \<Rightarrow> modelKey" where
  "set_key brandNames d =
     (let manufacturer = trim_space (map_text brandNames (ms_BrandID d));
          manufacturer = (if manufacturer = [] then trim_space (ms_BrandName d) else manufacturer)
      in (manufacturer, trim_space (ms_DevType d), trim_space (ms_DevModel d)))"

text \<open>The address key of a register: its number, and the function code too if the number is taken.\<close>

definition import_key :: "string set \<Rightarrow> MiddlewareAddress \<Rightarrow> string" where
  "import_key used a =
     (let k = ''reg'' @ itoa (ma_Register a)
      in if k \<in> used then k @ ''_fc'' @ itoa (ma_FunctionCode a) else k)"

definition import_input :: "string \<Rightarrow> MiddlewareAddress \<Rightarrow> UpdateDeviceModelRegisterMetadataInput" where
  "import_input k a =
     \<lparr>ui_AddressKey = k, ui_DisplayName = ma_Description a, ui_Unit = ma_SourceUnit a, ui_DataType = ''number'',
      ui_Scale = ma_Factor a, ui_Offset = ma_Offset a, ui_Decimals = 2, ui_IsEnabled = ma_Enabled a, ui_Notes = [],
      um_FunctionCode = Some (int32_of (ma_FunctionCode a)), um_Register = Some (int32_of (ma_Register a)),
      um_WordOrder = ma_WordOrder a, um_DataType = normalizeModbusDataType (ma_DataType a), um_IsAlarm = False,
      um_MappingMode = [], um_BitInterpretation = [], um_Mappings = []\<rparr>"

fun import_addresses ::
  "CoreEnv \<Rightarrow> string \<Rightarrow> string set \<Rightarrow> MiddlewareAddress list \<Rightarrow> Registry \<times> ImportMiddlewareConfigResult
     \<Rightarrow> Registry \<times> ImportMiddlewareConfigResult \<times> string set" where
  "import_addresses env modelID used [] (db, res) = (db, res, used)"
| "import_addresses env modelID used (a # as) (db, res) =
     (let k = import_key used a in
      case SetDeviceModelRegisterMetadata env modelID (import_input k a) db of
        (db', Inl err) \<Rightarrow> import_addresses env modelID (insert k used) as (db', res\<lparr>ir_Skipped := ir_Skipped res + 1\<rparr>)
      | (db', Inr _) \<Rightarrow> import_addresses env modelID (insert k used) as (db', res\<lparr>ir_Upserted := ir_Upserted res + 1\<rparr>))"

record ImportSets =
  is_Result :: ImportMiddlewareConfigResult
  is_ByKey :: "modelKey \<Rightarrow> string option"
  is_ModelName :: "int \<Rightarrow> string option"
  is_ModelID :: "int \<Rightarrow> string option"

text \<open>The model of a device set: an existing one with its key, or a new one.\<close>

definition import_model ::
  "CoreEnv \<Rightarrow> string \<Rightarrow> modelKey \<Rightarrow> Registry \<times> ImportSets \<Rightarrow> Registry \<times> (CoreError + string \<times> ImportSets)" where
  "import_model env org key s =
     (case s of (db, st) \<Rightarrow>
      (case is_ByKey st key of
         Some i \<Rightarrow> (db, Inr (i, st\<lparr>is_Result := (is_Result st)\<lparr>ir_ModelsReused := ir_ModelsReused (is_Result st) + 1\<rparr>\<rparr>))
       | None \<Rightarrow>
           (case key of (manufacturer, devType, devModel) \<Rightarrow>
            (case CreateDeviceModel env org \<lparr>dmi_Manufacturer = manufacturer, dmi_Model = devModel, dmi_DeviceType = devType,
                     dmi_SourceTypeID = None, dmi_IsActive = True\<rparr> db of
               (db', Inl err) \<Rightarrow> (db', Inl err)
             | (db', Inr m) \<Rightarrow>
                 (db', Inr (mi_ID m, st\<lparr>is_ByKey := (is_ByKey st)(key \<mapsto> mi_ID m),
                   is_Result := (is_Result st)\<lparr>ir_ModelsCreated := ir_ModelsCreated (is_Result st) + 1\<rparr>\<rparr>))))))"

definition import_device_set ::
  "CoreEnv \<Rightarrow> string \<Rightarrow> (int \<Rightarrow> string option) \<Rightarrow> MiddlewareDeviceSet \<Rightarrow> Registry \<times> ImportSets
     \<Rightarrow> Registry \<times> ImportSets \<times> CoreError option" where
  "import_device_set env org brandNames d s =
     (let key = set_key brandNames d in
      case import_model env org key s of
        (db, Inl err) \<Rightarrow> (db, snd s, Some err)
      | (db, Inr (i, st)) \<Rightarrow>
          let name = fst key @ '' / '' @ fst (snd key) @ '' / '' @ snd (snd key);
              st = st\<lparr>is_ModelName := (is_ModelName st)(ms_DeviceSetID d \<mapsto> name),
                      is_ModelID := (is_ModelID st)(ms_DeviceSetID d \<mapsto> i)\<rparr>
          in case import_addresses env i {} (ms_Addresses d) (db, is_Result st) of
               (db, res, used) \<Rightarrow>
                 (case pruneModbusRegisterMetadata env i used db of
                    (db, Inl err) \<Rightarrow> (db, st\<lparr>is_Result := res\<rparr>, Some err)
                  | (db, Inr n) \<Rightarrow> (db, st\<lparr>is_Result := res\<lparr>ir_Pruned := ir_Pruned res + n\<rparr>\<rparr>, None)))"

fun import_device_sets ::
  "CoreEnv \<Rightarrow> string \<Rightarrow> (int \<Rightarrow> string option) \<Rightarrow> MiddlewareDeviceSet list \<Rightarrow> Registry \<times> ImportSets
     \<Rightarrow> Registry \<times> ImportSets \<times> CoreError option" where
  "import_device_sets env org brandNames [] (db, st) = (db, st, None)"
| "import_device_sets env org brandNames (d # ds) (db, st) =
     (case import_device_set env org brandNames d (db, st) of
        (db, st, Some err) \<Rightarrow> (db, st, Some err)
      | (db, st, None) \<Rightarrow> import_device_sets env org brandNames ds (db, st))"

subsection \<open>Connections\<close>

record ImportConnections =
  ic_Result :: ImportMiddlewareConfigResult
  ic_Devices :: "string \<Rightarrow> (string \<Rightarrow> string option) option"

definition connection_unit :: "MiddlewareConnection \<Rightarrow> int" where
  "connection_unit c = (if mc_UnitID c \<le> 0 then mc_SlaveID c else mc_UnitID c)"

definition external_id :: "MiddlewareConnection \<Rightarrow> string" where
  "external_id c =
     (let e = trim_space (mc_DevDn c) in if e = [] then trim_space (mc_ConnectionName c) else e)"

definition connection_plant :: "(string \<Rightarrow> string option) \<Rightarrow> string option \<Rightarrow> MiddlewareConnection \<Rightarrow> string option" where
  "connection_plant plantIDByCode fallback c =
     (case plantIDByCode (to_upper (trim_space (mc_PlantCode c))) of Some p \<Rightarrow> Some p | None \<Rightarrow> fallback)"

text \<open>The devices of a plant by external id, loaded on the plant's first connection.\<close>

definition plant_devices ::
  "CoreEnv \<Rightarrow> string \<Rightarrow> Registry \<Rightarrow> (string \<Rightarrow> (string \<Rightarrow> string option) option)
     \<Rightarrow> CoreError + (string \<Rightarrow> string option)" where
  "plant_devices env plantID db loaded =
     (case loaded plantID of
        Some byExternalID \<Rightarrow> Inr byExternalID
      | None \<Rightarrow>
          (case Service_Devices env plantID db of
             Inl err \<Rightarrow> Inl err
           | Inr devices \<Rightarrow> Inr (filled (map (\<lambda>d. (di_ExternalID d, di_ID d)) devices))))"

definition import_name :: "MiddlewareConnection \<Rightarrow> string" where
  "import_name c = (let n = trim_space (mc_DeviceName c) in if n = [] then external_id c else n)"

definition import_port :: "MiddlewareConnection \<Rightarrow> int option" where
  "import_port c = (if 0 < mc_Port c then Some (int32_of (mc_Port c)) else None)"

definition update_input :: "string \<Rightarrow> MiddlewareConnection \<Rightarrow> UpdateDeviceInput" where
  "update_input modelID c =
     \<lparr>udi_Name = import_name c, udi_DeviceModelID = modelID, udi_ModbusHost = mc_Host c, udi_ModbusPort = import_port c,
      udi_ModbusUnitID = int32_of (connection_unit c), udi_IsActive = mc_Enabled c\<rparr>"

text \<open>The input of \<open>CreateDevice\<close> leaves \<open>IsActive\<close> out, so it is \<open>false\<close>.\<close>

definition create_input :: "string \<Rightarrow> MiddlewareConnection \<Rightarrow> CreateDeviceInput" where
  "create_input modelID c =
     \<lparr>udi_Name = import_name c, udi_DeviceModelID = modelID, udi_ModbusHost = mc_Host c, udi_ModbusPort = import_port c,
      udi_ModbusUnitID = int32_of (connection_unit c), udi_IsActive = False, cdi_ExternalID = external_id c\<rparr>"

definition import_device ::
  "CoreEnv \<Rightarrow> string \<Rightarrow> (string \<Rightarrow> string option) \<Rightarrow> string \<Rightarrow> MiddlewareConnection \<Rightarrow> Registry \<times> ImportConnections
     \<Rightarrow> Registry \<times> ImportConnections" where
  "import_device env plantID byExternalID modelID c s =
     (case s of (db, st) \<Rightarrow>
      let res = ic_Result st in
      (case byExternalID (external_id c) of
         Some deviceID \<Rightarrow>
           (case UpdateDevice env plantID deviceID (update_input modelID c) db of
              (db, Inl err) \<Rightarrow> (db, st\<lparr>ic_Result := res\<lparr>ir_DevicesSkipped := ir_DevicesSkipped res + 1\<rparr>\<rparr>)
            | (db, Inr _) \<Rightarrow> (db, st\<lparr>ic_Result := res\<lparr>ir_DevicesUpdated := ir_DevicesUpdated res + 1\<rparr>\<rparr>))
       | None \<Rightarrow>
           (case CreateDevice env plantID (create_input modelID c) db of
              (db, Inl err) \<Rightarrow> (db, st\<lparr>ic_Result := res\<lparr>ir_DevicesSkipped := ir_DevicesSkipped res + 1\<rparr>\<rparr>)
            | (db, Inr d) \<Rightarrow>
                (db, st\<lparr>ic_Result := res\<lparr>ir_DevicesCreated := ir_DevicesCreated res + 1\<rparr>,
                        ic_Devices := (ic_Devices st)(plantID \<mapsto> byExternalID(external_id c \<mapsto> di_ID d))\<rparr>))))"

text \<open>The maps a connection is looked up in.\<close>

record ImportMaps =
  im_ModelName :: "int \<Rightarrow> string option"
  im_ModelID :: "int \<Rightarrow> string option"
  im_Plants :: "string \<Rightarrow> string option"
  im_Fallback :: "string option"

definition import_connection ::
  "CoreEnv \<Rightarrow> ImportMaps \<Rightarrow> MiddlewareConnection \<Rightarrow> Registry \<times> ImportConnections
     \<Rightarrow> Registry \<times> ImportConnections \<times> CoreError option" where
  "import_connection env maps c s =
     (case s of (db, st) \<Rightarrow>
      let found = (mc_Host c, mc_Port c, connection_unit c, map_text (im_ModelName maps) (mc_DeviceSetID c));
          res = (ic_Result st)\<lparr>ir_Connections := ir_Connections (ic_Result st) @ [found]\<rparr>;
          st = st\<lparr>ic_Result := res\<rparr>
      in (case (im_ModelID maps (mc_DeviceSetID c), connection_plant (im_Plants maps) (im_Fallback maps) c) of
            (Some modelID, Some plantID) \<Rightarrow>
              if external_id c = []
              then (db, st\<lparr>ic_Result := res\<lparr>ir_DevicesSkipped := ir_DevicesSkipped res + 1\<rparr>\<rparr>, None)
              else (case plant_devices env plantID db (ic_Devices st) of
                      Inl err \<Rightarrow> (db, st, Some err)
                    | Inr byExternalID \<Rightarrow>
                        (case import_device env plantID byExternalID modelID c
                                (db, st\<lparr>ic_Devices := (ic_Devices st)(plantID \<mapsto> byExternalID)\<rparr>) of
                           (db, st) \<Rightarrow> (db, st, None)))
          | _ \<Rightarrow> (db, st\<lparr>ic_Result := res\<lparr>ir_DevicesSkipped := ir_DevicesSkipped res + 1\<rparr>\<rparr>, None)))"

fun import_connections ::
  "CoreEnv \<Rightarrow> ImportMaps \<Rightarrow> MiddlewareConnection list \<Rightarrow> Registry \<times> ImportConnections
     \<Rightarrow> Registry \<times> ImportConnections \<times> CoreError option" where
  "import_connections env maps [] (db, st) = (db, st, None)"
| "import_connections env maps (c # cs) (db, st) =
     (case import_connection env maps c (db, st) of
        (db, st, Some err) \<Rightarrow> (db, st, Some err)
      | (db, st, None) \<Rightarrow> import_connections env maps cs (db, st))"

text \<open>What the loops start from.\<close>

definition brand_names :: "MiddlewareConfigSnapshot \<Rightarrow> int \<Rightarrow> string option" where
  "brand_names snapshot = filled (map (\<lambda>b. (mb_BrandID b, mb_BrandName b)) (mg_Brands snapshot))"

definition start_sets :: "string \<Rightarrow> ModelInfo list \<Rightarrow> ImportSets" where
  "start_sets org existing =
     \<lparr>is_Result = zero_import, is_ByKey = models_by_key org existing, is_ModelName = (\<lambda>_. None), is_ModelID = (\<lambda>_. None)\<rparr>"

definition import_maps :: "string \<Rightarrow> PlantInfo list \<Rightarrow> string option \<Rightarrow> Registry \<Rightarrow> ImportSets \<Rightarrow> ImportMaps" where
  "import_maps org plants gateway db st =
     \<lparr>im_ModelName = is_ModelName st, im_ModelID = is_ModelID st, im_Plants = plants_by_code org plants,
      im_Fallback = fallback_plant gateway db\<rparr>"

definition start_connections :: "ImportSets \<Rightarrow> ImportConnections" where
  "start_connections st = \<lparr>ic_Result = is_Result st, ic_Devices = (\<lambda>_. None)\<rparr>"

definition importFromSnapshot ::
  "CoreEnv \<Rightarrow> string \<Rightarrow> string option \<Rightarrow> MiddlewareConfigSnapshot \<Rightarrow> Registry
     \<Rightarrow> Registry \<times> ImportMiddlewareConfigResult \<times> CoreError option" where
  "importFromSnapshot env org gateway snapshot db =
     (case Service_DeviceModels env db of
        Inl err \<Rightarrow> (db, zero_import, Some err)
      | Inr existing \<Rightarrow>
     (case Service_Plants env db of
        Inl err \<Rightarrow> (db, zero_import, Some err)
      | Inr plants \<Rightarrow>
          (case import_device_sets env org (brand_names snapshot) (mg_DeviceSets snapshot) (db, start_sets org existing) of
             (db', st, Some err) \<Rightarrow> (db', is_Result st, Some err)
           | (db', st, None) \<Rightarrow>
               (case import_connections env (import_maps org plants gateway db st) (mg_Connections snapshot)
                       (db', start_connections st) of
                  (db', st, err) \<Rightarrow> (db', ic_Result st, err)))))"

text \<open>A completed import went through both loops.\<close>

lemma importFromSnapshot_split:
  assumes "importFromSnapshot env org gw s db = (db', res, None)"
  obtains existing plants mid st1 st2 where
    "Service_DeviceModels env db = Inr existing" and "Service_Plants env db = Inr plants"
    and "import_device_sets env org (brand_names s) (mg_DeviceSets s) (db, start_sets org existing) = (mid, st1, None)"
    and "import_connections env (import_maps org plants gw db st1) (mg_Connections s) (mid, start_connections st1)
      = (db', st2, None)"
    and "res = ic_Result st2"
  using assms by (auto simp: importFromSnapshot_def split: sum.splits prod.splits option.splits)

lemma importFromSnapshot_join:
  assumes "Service_DeviceModels env db = Inr existing" and "Service_Plants env db = Inr plants"
    and "import_device_sets env org (brand_names s) (mg_DeviceSets s) (db, start_sets org existing) = (mid, st1, None)"
    and "import_connections env (import_maps org plants gw db st1) (mg_Connections s) (mid, start_connections st1)
      = (db', st2, None)"
  shows "importFromSnapshot env org gw s db = (db', ic_Result st2, None)"
  using assms by (simp add: importFromSnapshot_def)

subsection \<open>What every step of an import keeps\<close>

text \<open>An import is made of five operations: what each of them keeps of the registry, the whole import keeps.\<close>

locale import_kept =
  fixes env :: CoreEnv and P :: "Registry \<Rightarrow> bool"
  assumes create_model: "P db \<Longrightarrow> P (fst (CreateDeviceModel env org input db))"
    and set_metadata: "P db \<Longrightarrow> P (fst (SetDeviceModelRegisterMetadata env modelID meta db))"
    and prune_metadata: "P db \<Longrightarrow> P (fst (pruneModbusRegisterMetadata env modelID keep db))"
    and create_device: "P db \<Longrightarrow> P (fst (CreateDevice env plantID dev db))"
    and update_device: "P db \<Longrightarrow> P (fst (UpdateDevice env plantID deviceID upd db))"
begin

lemma create_model_eq: "CreateDeviceModel env org input db = (db', r) \<Longrightarrow> P db \<Longrightarrow> P db'"
  using create_model [of db org input] by simp

lemma set_metadata_eq: "SetDeviceModelRegisterMetadata env modelID meta db = (db', r) \<Longrightarrow> P db \<Longrightarrow> P db'"
  using set_metadata [of db modelID meta] by simp

lemma prune_metadata_eq: "pruneModbusRegisterMetadata env modelID keep db = (db', r) \<Longrightarrow> P db \<Longrightarrow> P db'"
  using prune_metadata [of db modelID keep] by simp

lemma create_device_eq: "CreateDevice env plantID dev db = (db', r) \<Longrightarrow> P db \<Longrightarrow> P db'"
  using create_device [of db plantID dev] by simp

lemma update_device_eq: "UpdateDevice env plantID deviceID upd db = (db', r) \<Longrightarrow> P db \<Longrightarrow> P db'"
  using update_device [of db plantID deviceID upd] by simp

lemma import_model_kept: "import_model env org key (db, st) = (db', r) \<Longrightarrow> P db \<Longrightarrow> P db'"
  by (cases key) (auto simp: import_model_def dest: create_model_eq split: option.splits prod.splits sum.splits)

lemma import_addresses_kept:
  "import_addresses env modelID used as (db, res) = (db', r) \<Longrightarrow> P db \<Longrightarrow> P db'"
proof (induction as arbitrary: db res used)
  case (Cons a as)
  obtain db1 x where s: "SetDeviceModelRegisterMetadata env modelID (import_input (import_key used a) a) db = (db1, x)"
    by (rule prod.exhaust)
  from Cons.IH [OF _ set_metadata_eq [OF s Cons.prems(2)]] Cons.prems(1) show ?case
    by (cases x) (auto simp: Let_def s)
qed simp

lemma import_device_set_kept:
  assumes "import_device_set env org brands d (db, st) = (db', r)" and "P db" shows "P db'"
proof -
  obtain db1 x where m: "import_model env org (set_key brands d) (db, st) = (db1, x)" by (rule prod.exhaust)
  have p: "P db1" by (rule import_model_kept [OF m assms(2)])
  show ?thesis
  proof (cases x)
    case Inl
    with assms m p show ?thesis by (simp add: import_device_set_def Let_def)
  next
    case (Inr y)
    obtain i st1 where y: "y = (i, st1)" by (rule prod.exhaust)
    obtain db2 res used where a: "import_addresses env i {} (ms_Addresses d) (db1, is_Result st1) = (db2, res, used)"
      by (rule prod_cases3)
    obtain db3 z where n: "pruneModbusRegisterMetadata env i used db2 = (db3, z)" by (rule prod.exhaust)
    have "P db3" by (rule prune_metadata_eq [OF n import_addresses_kept [OF a p]])
    then show ?thesis
      using assms(1) by (cases z) (simp_all add: import_device_set_def Let_def m Inr y a n)
  qed
qed

lemma import_device_sets_kept: "import_device_sets env org brands ds (db, st) = (db', r) \<Longrightarrow> P db \<Longrightarrow> P db'"
proof (induction ds arbitrary: db st)
  case (Cons d ds)
  obtain db1 st1 e where d: "import_device_set env org brands d (db, st) = (db1, st1, e)" by (rule prod_cases3)
  have "P db1" by (rule import_device_set_kept [OF d Cons.prems(2)])
  with Cons d show ?case by (cases e) auto
qed simp

lemma import_device_kept: "import_device env plantID ext modelID c (db, st) = (db', r) \<Longrightarrow> P db \<Longrightarrow> P db'"
  by (auto simp: import_device_def Let_def dest: update_device_eq create_device_eq
      split: option.splits prod.splits sum.splits)

lemma import_connection_kept: "import_connection env maps c (db, st) = (db', r) \<Longrightarrow> P db \<Longrightarrow> P db'"
  by (auto simp: import_connection_def Let_def dest: import_device_kept
      split: option.splits prod.splits sum.splits if_splits)

lemma import_connections_kept: "import_connections env maps cs (db, st) = (db', r) \<Longrightarrow> P db \<Longrightarrow> P db'"
proof (induction cs arbitrary: db st)
  case (Cons c cs)
  obtain db1 st1 e where c: "import_connection env maps c (db, st) = (db1, st1, e)" by (rule prod_cases3)
  have "P db1" by (rule import_connection_kept [OF c Cons.prems(2)])
  with Cons c show ?case by (cases e) auto
qed simp

lemma import_kept: "importFromSnapshot env org gateway snapshot db = (db', r) \<Longrightarrow> P db \<Longrightarrow> P db'"
  by (auto simp: importFromSnapshot_def Let_def dest!: import_device_sets_kept import_connections_kept
      split: sum.splits prod.splits option.splits)

end

interpretation registry: import_kept env "\<lambda>db. fresh_ids env \<longrightarrow> registry_ok db" for env
  by unfold_locales (auto intro: registry_operations_ok)

subsection \<open>What an operation of an import changes\<close>

lemma CreateDeviceModel_effect:
  assumes "CreateDeviceModel env org input db = (db', r)"
  shows "case r of Inl err \<Rightarrow> db' = db
    | Inr m \<Rightarrow> rg_Models db' = rg_Models db @ [m] \<and> rg_Devices db' = rg_Devices db \<and> rg_Plants db' = rg_Plants db"
  using assms by (auto simp: CreateDeviceModel_def Let_def audit_def split: sum.splits if_splits)

lemma UpsertRegisterProfileAddress_effect:
  "rg_Models (fst (UpsertRegisterProfileAddress env i input db)) = rg_Models db
   \<and> rg_Devices (fst (UpsertRegisterProfileAddress env i input db)) = rg_Devices db
   \<and> rg_Plants (fst (UpsertRegisterProfileAddress env i input db)) = rg_Plants db"
  by (auto simp: UpsertRegisterProfileAddress_def Let_def audit_def split: sum.splits option.splits)

lemma SetDeviceModelRegisterMetadata_effect:
  assumes "SetDeviceModelRegisterMetadata env i input db = (db', r)"
  shows "rg_Models db' = rg_Models db \<and> rg_Devices db' = rg_Devices db \<and> rg_Plants db' = rg_Plants db"
proof -
  have "let s = fst (SetDeviceModelRegisterMetadata env i input db) in
      rg_Models s = rg_Models db \<and> rg_Devices s = rg_Devices db \<and> rg_Plants s = rg_Plants db"
    by (simp add: SetDeviceModelRegisterMetadata_def Let_def UpsertRegisterProfileAddress_effect audit_def
        split: sum.split option.split)
  with assms show ?thesis by simp
qed

lemma pruneModbusRegisterMetadata_effect:
  assumes "pruneModbusRegisterMetadata env i keep db = (db', r)"
  shows "rg_Models db' = rg_Models db \<and> rg_Devices db' = rg_Devices db \<and> rg_Plants db' = rg_Plants db
    \<and> rg_Addresses db' = rg_Addresses db"
  using assms by (auto simp: pruneModbusRegisterMetadata_def Let_def audit_def split: sum.splits if_splits)

lemma CreateDevice_effect:
  assumes "CreateDevice env p input db = (db', r)"
  shows "case r of Inl err \<Rightarrow> db' = db
    | Inr d \<Rightarrow> rg_Devices db' = rg_Devices db @ [d] \<and> rg_Models db' = rg_Models db \<and> rg_Plants db' = rg_Plants db
        \<and> di_PlantID d = p \<and> di_ExternalID d = trim_space (cdi_ExternalID input) \<and> di_Active d = udi_IsActive input"
  using assms
  by (auto simp: CreateDevice_def Let_def audit_def dest: authorized_plant_Some split: sum.splits option.splits if_splits)

lemma UpdateDevice_effect:
  assumes "UpdateDevice env p i input db = (db', r)"
  shows "map di_ID (rg_Devices db') = map di_ID (rg_Devices db)
    \<and> map device_key (rg_Devices db') = map device_key (rg_Devices db)
    \<and> rg_Models db' = rg_Models db \<and> rg_Plants db' = rg_Plants db"
proof -
  have "map di_ID (update_where P f ds) = map di_ID ds \<and> map device_key (update_where P f ds) = map device_key ds"
    if "\<And>d. di_ID (f d) = di_ID d" "\<And>d. device_key (f d) = device_key d" for P f ds
    using that by (simp add: update_where_map)
  then show ?thesis
    using assms
    by (auto simp: UpdateDevice_def Let_def audit_def device_key_def split: sum.splits option.splits if_splits)
qed

subsection \<open>What an import reports\<close>

lemma import_addresses_report:
  assumes "import_addresses env i used as (db, res) = (db', res', used')"
  shows "rg_Models db' = rg_Models db \<and> rg_Devices db' = rg_Devices db \<and> rg_Plants db' = rg_Plants db
    \<and> (\<exists>u k. u + k = length as \<and> res' = res\<lparr>ir_Upserted := ir_Upserted res + u, ir_Skipped := ir_Skipped res + k\<rparr>)"
  using assms
proof (induction as arbitrary: db res used)
  case Nil
  then show ?case by (auto intro!: exI [of _ "0::nat"])
next
  case (Cons a as)
  let ?k = "import_key used a"
  obtain db1 r where s: "SetDeviceModelRegisterMetadata env i (import_input ?k a) db = (db1, r)" by (rule prod.exhaust)
  note e = SetDeviceModelRegisterMetadata_effect [OF s]
  show ?case
  proof (cases r)
    case Inl
    with Cons.prems s have "import_addresses env i (insert ?k used) as (db1, res\<lparr>ir_Skipped := ir_Skipped res + 1\<rparr>)
        = (db', res', used')"
      by (simp add: Let_def)
    from Cons.IH [OF this] obtain u k where "u + k = length as"
      "res' = res\<lparr>ir_Upserted := ir_Upserted res + u, ir_Skipped := ir_Skipped res + Suc k\<rparr>"
      "rg_Models db' = rg_Models db1 \<and> rg_Devices db' = rg_Devices db1 \<and> rg_Plants db' = rg_Plants db1" by auto
    with e show ?thesis by (intro conjI exI [of _ u] exI [of _ "Suc k"]) simp_all
  next
    case Inr
    with Cons.prems s have "import_addresses env i (insert ?k used) as (db1, res\<lparr>ir_Upserted := ir_Upserted res + 1\<rparr>)
        = (db', res', used')"
      by (simp add: Let_def)
    from Cons.IH [OF this] obtain u k where "u + k = length as"
      "res' = res\<lparr>ir_Upserted := ir_Upserted res + Suc u, ir_Skipped := ir_Skipped res + k\<rparr>"
      "rg_Models db' = rg_Models db1 \<and> rg_Devices db' = rg_Devices db1 \<and> rg_Plants db' = rg_Plants db1" by auto
    with e show ?thesis by (intro conjI exI [of _ "Suc u"] exI [of _ k]) simp_all
  qed
qed

text \<open>What the device sets add to a report, and the models to the registry.\<close>

definition sets_report :: "nat \<Rightarrow> nat \<Rightarrow> Registry \<Rightarrow> ImportMiddlewareConfigResult \<Rightarrow> Registry \<Rightarrow> ImportMiddlewareConfigResult \<Rightarrow> bool" where
  "sets_report sets addresses db res db' res' \<longleftrightarrow>
     ir_ModelsCreated res' + ir_ModelsReused res' = ir_ModelsCreated res + ir_ModelsReused res + sets
     \<and> ir_Upserted res' + ir_Skipped res' = ir_Upserted res + ir_Skipped res + addresses
     \<and> length (rg_Models db') + ir_ModelsCreated res = length (rg_Models db) + ir_ModelsCreated res'
     \<and> rg_Devices db' = rg_Devices db \<and> rg_Plants db' = rg_Plants db
     \<and> ir_DevicesCreated res' = ir_DevicesCreated res \<and> ir_DevicesUpdated res' = ir_DevicesUpdated res
     \<and> ir_DevicesSkipped res' = ir_DevicesSkipped res \<and> ir_Connections res' = ir_Connections res"

lemma import_model_report:
  assumes "import_model env org key (db, st) = (db', Inr (i, st'))"
  shows "sets_report 1 0 db (is_Result st) db' (is_Result st')"
  using assms
  by (cases key) (auto simp: import_model_def sets_report_def dest: CreateDeviceModel_effect
      split: option.splits prod.splits sum.splits)

lemma import_device_set_report:
  assumes "import_device_set env org brands d (db, st) = (db', st', None)"
  shows "sets_report 1 (length (ms_Addresses d)) db (is_Result st) db' (is_Result st')"
proof -
  obtain db1 x where m: "import_model env org (set_key brands d) (db, st) = (db1, x)" by (rule prod.exhaust)
  from assms m obtain y where x: "x = Inr y" by (cases x) (auto simp: import_device_set_def Let_def)
  obtain i st1 where y: "y = (i, st1)" by (rule prod.exhaust)
  obtain db2 res used where a: "import_addresses env i {} (ms_Addresses d) (db1, is_Result st1) = (db2, res, used)"
    by (rule prod_cases3)
  obtain db3 z where n: "pruneModbusRegisterMetadata env i used db2 = (db3, z)" by (rule prod.exhaust)
  from assms obtain p where "db' = db3" "is_Result st' = res\<lparr>ir_Pruned := ir_Pruned res + p\<rparr>"
    by (cases z) (auto simp: import_device_set_def Let_def m x y a n)
  then show ?thesis
    using import_model_report [OF m [unfolded x y]] import_addresses_report [OF a] pruneModbusRegisterMetadata_effect [OF n]
    by (auto simp: sets_report_def)
qed

lemma import_device_sets_report:
  assumes "import_device_sets env org brands ds (db, st) = (db', st', None)"
  shows "sets_report (length ds) (sum_list (map (\<lambda>d. length (ms_Addresses d)) ds)) db (is_Result st) db' (is_Result st')"
  using assms
proof (induction ds arbitrary: db st)
  case Nil
  then show ?case by (simp add: sets_report_def)
next
  case (Cons d ds)
  obtain db1 st1 e where d: "import_device_set env org brands d (db, st) = (db1, st1, e)" by (rule prod_cases3)
  with Cons.prems have "e = None" "import_device_sets env org brands ds (db1, st1) = (db', st', None)"
    by (cases e; simp)+
  with import_device_set_report [of env org brands d db st db1 st1] d Cons.IH [of db1 st1]
  show ?case by (simp add: sets_report_def)
qed

text \<open>What the connections add, and the devices to the registry.\<close>

definition connections_report ::
  "nat \<Rightarrow> nat \<Rightarrow> Registry \<Rightarrow> ImportMiddlewareConfigResult \<Rightarrow> Registry \<Rightarrow> ImportMiddlewareConfigResult \<Rightarrow> bool" where
  "connections_report found n db res db' res' \<longleftrightarrow>
     ir_DevicesCreated res' + ir_DevicesUpdated res' + ir_DevicesSkipped res'
       = ir_DevicesCreated res + ir_DevicesUpdated res + ir_DevicesSkipped res + n
     \<and> length (ir_Connections res') = length (ir_Connections res) + found
     \<and> length (rg_Devices db') + ir_DevicesCreated res = length (rg_Devices db) + ir_DevicesCreated res'
     \<and> rg_Models db' = rg_Models db \<and> rg_Plants db' = rg_Plants db
     \<and> ir_ModelsCreated res' = ir_ModelsCreated res \<and> ir_ModelsReused res' = ir_ModelsReused res
     \<and> ir_Upserted res' = ir_Upserted res \<and> ir_Skipped res' = ir_Skipped res"

lemma import_device_report:
  assumes "import_device env p ext m c (db, st) = (db', st')"
  shows "connections_report 0 1 db (ic_Result st) db' (ic_Result st')"
proof (cases "ext (external_id c)")
  case None
  obtain db1 r where "CreateDevice env p (create_input m c) db = (db1, r)" by (rule prod.exhaust)
  with assms None CreateDevice_effect [OF this] show ?thesis
    by (cases r) (auto simp: import_device_def Let_def connections_report_def)
next
  case (Some i)
  obtain db1 r where u: "UpdateDevice env p i (update_input m c) db = (db1, r)" by (rule prod.exhaust)
  note e = UpdateDevice_effect [OF u]
  have "length (rg_Devices db1) = length (rg_Devices db)" using e by (metis length_map)
  with assms Some u e show ?thesis
    by (cases r) (auto simp: import_device_def Let_def connections_report_def)
qed

lemma import_connection_report:
  assumes "import_connection env maps c (db, st) = (db', st', None)"
  shows "connections_report 1 1 db (ic_Result st) db' (ic_Result st')"
  using assms
  by (auto simp: import_connection_def Let_def connections_report_def
      dest!: import_device_report split: option.splits prod.splits sum.splits if_splits)

lemma import_connections_report:
  assumes "import_connections env maps cs (db, st) = (db', st', None)"
  shows "connections_report (length cs) (length cs) db (ic_Result st) db' (ic_Result st')"
  using assms
proof (induction cs arbitrary: db st)
  case Nil
  then show ?case by (simp add: connections_report_def)
next
  case (Cons c cs)
  obtain db1 st1 e where c: "import_connection env maps c (db, st) = (db1, st1, e)" by (rule prod_cases3)
  with Cons.prems have "e = None" "import_connections env maps cs (db1, st1) = (db', st', None)"
    by (cases e; simp)+
  with import_connection_report [of env maps c db st db1 st1] c Cons.IH [of db1 st1]
  show ?case by (simp add: connections_report_def)
qed

text \<open>
  C18: a completed import keeps the registry in order and accounts for everything in the snapshot: each
  device set is one model created or reused, each register is stored or skipped, each connection is a
  device created, updated or skipped, and the tables grew by exactly the models and devices reported.
\<close>

theorem importFromSnapshot_accounts:
  assumes "registry_ok db" and "fresh_ids env" and "importFromSnapshot env org gw s db = (db', res, None)"
  shows "registry_ok db'
    \<and> ir_ModelsCreated res + ir_ModelsReused res = length (mg_DeviceSets s)
    \<and> ir_Upserted res + ir_Skipped res = sum_list (map (\<lambda>d. length (ms_Addresses d)) (mg_DeviceSets s))
    \<and> ir_DevicesCreated res + ir_DevicesUpdated res + ir_DevicesSkipped res = length (mg_Connections s)
    \<and> length (ir_Connections res) = length (mg_Connections s)
    \<and> length (rg_Models db') = length (rg_Models db) + ir_ModelsCreated res
    \<and> length (rg_Devices db') = length (rg_Devices db) + ir_DevicesCreated res
    \<and> rg_Plants db' = rg_Plants db"
proof -
  have "registry_ok db'" using registry.import_kept [OF assms(3)] assms(1,2) by simp
  with assms(3) show ?thesis
  proof (elim importFromSnapshot_split)
    fix existing plants mid st1 st2
    assume "import_device_sets env org (brand_names s) (mg_DeviceSets s) (db, start_sets org existing) = (mid, st1, None)"
      and "import_connections env (import_maps org plants gw db st1) (mg_Connections s) (mid, start_connections st1)
        = (db', st2, None)" and "res = ic_Result st2"
    with \<open>registry_ok db'\<close> import_device_sets_report [of env org "brand_names s" "mg_DeviceSets s"]
      import_connections_report [of env "import_maps org plants gw db st1" "mg_Connections s" mid "start_connections st1" db' st2]
    show ?thesis
      by (fastforce simp: sets_report_def connections_report_def start_sets_def start_connections_def zero_import_def)
  qed
qed

subsection \<open>A gateway with one inverter\<close>

definition sample_core :: CoreEnv where
  "sample_core =
     \<lparr>ce_perm = (\<lambda>_ _ _ _. True), ce_any = (\<lambda>_ _. True), ce_global = (\<lambda>_ _. True), ce_organization = Some ''o'',
      ce_uuid = (\<lambda>db. CHR ''i'' # concat (used_ids db)), ce_models = (\<lambda>ms. ms), ce_plants = (\<lambda>ps. ps),
      ce_devices = (\<lambda>ds. ds), ce_location = (\<lambda>_. True), ce_notify_role = (\<lambda>_ _. True), ce_numeric = Some\<rparr>"

definition sample_import :: MiddlewareConfigSnapshot where
  "sample_import =
     \<lparr>mg_Version = 0, mg_Brands = [\<lparr>mb_BrandID = 1, mb_BrandName = ''Huawei'', mb_BrandDescription = []\<rparr>],
      mg_DeviceSets = [\<lparr>ms_DeviceSetID = 4, ms_BrandID = 1, ms_BrandName = [], ms_DevTypeID = 0, ms_DevType = ''Inverter'',
         ms_DevModel = ''SUN2'', ms_AddressMode = [], ms_ByteOrder = [], ms_WordOrder = [], ms_MaxBlockSize = 0,
         ms_Addresses = [\<lparr>ma_AddressID = 1, ma_DeviceSetID = 4, ma_FunctionCode = 3, ma_Register = 32080,
            ma_Description = ''Power'', ma_CanonicalKey = [], ma_SourceTag = [], ma_Factor = f_one, ma_Offset = f_zero,
            ma_DataType = ''I32'', ma_Length = 2, ma_WordOrder = [], ma_SourceUnit = ''kW'', ma_Remark = [],
            ma_Enabled = True\<rparr>]\<rparr>],
      mg_Connections = [\<lparr>mc_ConnectionID = 1, mc_ConnectionName = ''BKK-INV2'', mc_Host = ''10.0.0.3'', mc_Port = 502,
         mc_UnitID = 0, mc_SlaveID = 7, mc_DeviceSetID = 4, mc_DevDn = ''INV2'', mc_DeviceName = [], mc_PlantCode = ''bkk'',
         mc_PlantName = [], mc_Enabled = True\<rparr>],
      mg_Plants = [], mg_SendIntervalSeconds = 60, mg_APIPollingEnabled = True, mg_IdleHeartbeatSeconds = 0\<rparr>"

lemma sample_core_fresh: "fresh_ids sample_core"
proof -
  have "CHR ''i'' # concat is \<notin> set is" for "is" :: "string list"
  proof
    assume "CHR ''i'' # concat is \<in> set is"
    then obtain a b where "is = a @ (CHR ''i'' # concat is) # b" by (auto dest: split_list)
    then have "length (concat is) = length (concat (a @ (CHR ''i'' # concat is) # b))" by simp
    then show False by simp
  qed
  then show ?thesis by (simp add: fresh_ids_def sample_core_def)
qed

lemma sample_set_key: "set_key (brand_names sample_import) (hd (mg_DeviceSets sample_import)) = (''Huawei'', ''Inverter'', ''SUN2'')"
  by (simp add: set_key_def brand_names_def sample_import_def filled_def map_text_def text_eval)

lemma sample_import_model:
  "\<exists>db st. import_model sample_core ''o'' (''Huawei'', ''Inverter'', ''SUN2'') (sample_registry, start_sets ''o'' (rg_Models sample_registry))
     = (db, Inr (ce_uuid sample_core sample_registry, st))
     \<and> find_model (ce_uuid sample_core sample_registry) db \<noteq> None \<and> rg_Plants db = rg_Plants sample_registry"
  by (simp add: import_model_def start_sets_def models_by_key_def filled_def sample_registry_def CreateDeviceModel_def
      deviceModelInputOrganization_def validateDeviceModelInput_def sample_core_def text_eval text_length_ok_def btrim_def
      char_length_def Let_def new_model_def find_model_def audit_def)

lemma sample_device_sets:
  "\<exists>db st. import_device_sets sample_core ''o'' (brand_names sample_import) (mg_DeviceSets sample_import)
       (sample_registry, start_sets ''o'' (rg_Models sample_registry)) = (db, st, None)
     \<and> rg_Plants db = rg_Plants sample_registry"
proof -
  let ?i = "ce_uuid sample_core sample_registry"
  obtain d where d: "mg_DeviceSets sample_import = [d]" by (simp add: sample_import_def)
  from sample_import_model obtain db st where
    m: "import_model sample_core ''o'' (set_key (brand_names sample_import) d)
        (sample_registry, start_sets ''o'' (rg_Models sample_registry)) = (db, Inr (?i, st))"
    and f: "find_model ?i db \<noteq> None" and p: "rg_Plants db = rg_Plants sample_registry"
    using sample_set_key unfolding d list.sel(1) by metis
  obtain db2 res used where a: "import_addresses sample_core ?i {} (ms_Addresses d) (db, is_Result st) = (db2, res, used)"
    by (rule prod_cases3)
  have "find_model ?i db2 \<noteq> None" using f import_addresses_report [OF a] by (simp add: find_model_def)
  then have "is_ok (snd (pruneModbusRegisterMetadata sample_core ?i used db2))"
    by (auto simp: pruneModbusRegisterMetadata_def authorizedDeviceModelScope_def sample_core_def Let_def)
  then obtain db3 n where q: "pruneModbusRegisterMetadata sample_core ?i used db2 = (db3, Inr n)"
    by (cases "pruneModbusRegisterMetadata sample_core ?i used db2") (auto simp: is_ok_iff)
  have "rg_Plants db3 = rg_Plants sample_registry"
    using p import_addresses_report [OF a] pruneModbusRegisterMetadata_effect [OF q] by simp
  then show ?thesis by (simp add: d import_device_set_def Let_def m a q)
qed

lemma import_connection_completes:
  assumes "\<And>p. connection_plant (im_Plants maps) (im_Fallback maps) c = Some p \<Longrightarrow> authorized_plant env ''read'' ''device'' p db \<noteq> None"
  shows "\<exists>db' st'. import_connection env maps c (db, st) = (db', st', None)"
  using assms
  by (auto simp: import_connection_def plant_devices_def Service_Devices_def Let_def split: option.splits sum.splits prod.splits)

lemma sample_import_completes:
  "\<exists>db res. importFromSnapshot sample_core ''o'' (Some ''g'') sample_import sample_registry = (db, res, None)"
proof -
  obtain c where c: "mg_Connections sample_import = [c]" by (simp add: sample_import_def)
  have l: "Service_Plants sample_core sample_registry = Inr (rg_Plants sample_registry)"
    "Service_DeviceModels sample_core sample_registry = Inr (rg_Models sample_registry)"
    by (simp_all add: Service_Plants_def Service_DeviceModels_def sample_core_def sample_registry_def)
  obtain db st where d: "import_device_sets sample_core ''o'' (brand_names sample_import) (mg_DeviceSets sample_import)
       (sample_registry, start_sets ''o'' (rg_Models sample_registry)) = (db, st, None)"
    and p: "rg_Plants db = rg_Plants sample_registry"
    using sample_device_sets by blast
  let ?maps = "import_maps ''o'' (rg_Plants sample_registry) (Some ''g'') sample_registry st"
  have "i = ''q''" if "connection_plant (im_Plants ?maps) (im_Fallback ?maps) c = Some i" for i
    using that by (auto simp: connection_plant_def import_maps_def plants_by_code_def filled_def fallback_plant_def
        sample_registry_def split: if_splits)
  moreover have "authorized_plant sample_core ''read'' ''device'' ''q'' db \<noteq> None"
    by (simp add: authorized_plant_def find_plant_info_def p sample_registry_def sample_core_def)
  ultimately have "\<exists>db' st'. import_connection sample_core ?maps c (db, start_connections st) = (db', st', None)"
    by (intro import_connection_completes) auto
  then obtain db' st' where "import_connections sample_core ?maps (mg_Connections sample_import) (db, start_connections st)
      = (db', st', None)" by (auto simp: c)
  with l(2,1) d have "importFromSnapshot sample_core ''o'' (Some ''g'') sample_import sample_registry = (db', ic_Result st', None)"
    by (rule importFromSnapshot_join)
  then show ?thesis by blast
qed

theorem importFromSnapshot_accounts_witness:
  "\<exists>db res. importFromSnapshot sample_core ''o'' (Some ''g'') sample_import sample_registry = (db, res, None)
    \<and> registry_ok db \<and> ir_ModelsCreated res + ir_ModelsReused res = 1"
proof -
  obtain db res where i: "importFromSnapshot sample_core ''o'' (Some ''g'') sample_import sample_registry = (db, res, None)"
    using sample_import_completes by blast
  have "length (mg_DeviceSets sample_import) = 1" by (simp add: sample_import_def)
  with importFromSnapshot_accounts [OF sample_registry_ok sample_core_fresh i] i show ?thesis by auto
qed

subsection \<open>What an import does not do\<close>

text \<open>A device that an import creates is inactive whatever its connection says, so the next push leaves it out.\<close>

lemma imported_device_not_pushed:
  assumes "CreateDevice env p (create_input m c) db = (db', Inr d)"
  shows "d \<in> set (rg_Devices db')" and "d \<notin> set (polled_devices db' gateway)"
  using CreateDevice_effect [OF assms] by (auto simp: create_input_def polled_devices_def pollable_devices_def)

text \<open>Pruning takes the stale registers from the metadata, while a push reads the addresses of the profile.\<close>

lemma pruned_registers_still_pushed:
  assumes "pruneModbusRegisterMetadata env i keep db = (db', Inr n)"
  shows "model_registers db' m = model_registers db m"
  using pruneModbusRegisterMetadata_effect [OF assms] by (simp add: model_registers_def)

text \<open>A model that differs from a known one only in its device type is looked for, not found and not created.\<close>

lemma other_device_type_aborts:
  assumes "is_ByKey st (a, t, b) = None" and "trim_space org \<noteq> []"
    and "trim_space a = a" and "trim_space b = b"
    and "\<exists>m \<in> set (rg_Models db). mi_OrganizationID m = org \<and> mi_Manufacturer m = a \<and> mi_Model m = b"
  shows "\<not> is_ok (snd (import_model env org (a, t, b) (db, st)))"
proof -
  have "\<not> is_ok (snd (CreateDeviceModel env org \<lparr>dmi_Manufacturer = a, dmi_Model = b, dmi_DeviceType = t,
      dmi_SourceTypeID = None, dmi_IsActive = True\<rparr> db))"
    using assms(2-5)
    by (auto simp: CreateDeviceModel_def deviceModelInputOrganization_def validateDeviceModelInput_def Let_def list_ex_iff)
  then show ?thesis
    using assms(1)
    by (cases "CreateDeviceModel env org \<lparr>dmi_Manufacturer = a, dmi_Model = b, dmi_DeviceType = t,
        dmi_SourceTypeID = None, dmi_IsActive = True\<rparr> db") (auto simp: import_model_def is_ok_iff split: sum.splits)
qed

text \<open>The swapped word order of an \<open>SW_\<close> type is lost, and the word order of the address is all that is kept.\<close>

lemma import_drops_word_swap:
  "normalizeModbusDataType ''SW_FLOAT'' = normalizeModbusDataType ''FLOAT''"
  "um_WordOrder (import_input k (a\<lparr>ma_DataType := ''SW_FLOAT''\<rparr>)) = ma_WordOrder a"
  by (simp_all add: normalizeModbusDataType_def import_input_def text_eval)

end
