(* ===== verification/Reimport.thy ===== *)
theory Reimport
  imports ConfigImport
begin

section \<open>platform-api core: importing the same configuration again\<close>

text \<open>
  The comment of \<open>importFromSnapshot\<close> promises an idempotent import: a model is matched by manufacturer, device
  type and model and never duplicated, a device by plant and external id. Here that is proved of the code:
  what a completed import leaves is such that the same import completes again and adds neither a model nor a
  device, as long as the lists it starts from are not cut at their limit of 500 rows.
\<close>

definition org_model :: "string \<Rightarrow> Registry \<Rightarrow> modelKey \<Rightarrow> string \<Rightarrow> bool" where
  "org_model org db k i \<longleftrightarrow>
     (\<exists>m \<in> set (rg_Models db). mi_OrganizationID m = org \<and> (mi_Manufacturer m, mi_DeviceType m, mi_Model m) = k
        \<and> mi_ID m = i)"

text \<open>The lists the caller reads show every row he may read, in some order.\<close>

definition lists_complete :: "CoreEnv \<Rightarrow> string \<Rightarrow> Registry \<Rightarrow> bool" where
  "lists_complete env org db \<longleftrightarrow>
     ce_perm env ''read'' ''device_model'' org None
     \<and> length (rg_Models db) \<le> 500 \<and> length (rg_Devices db) \<le> 500"

definition orders_permute :: "CoreEnv \<Rightarrow> bool" where
  "orders_permute env \<longleftrightarrow>
     (\<forall>ms. mset (ce_models env ms) = mset ms) \<and> (\<forall>ds. mset (ce_devices env ds) = mset ds)"

lemma orders_permute_simps:
  assumes "orders_permute env"
  shows "set (ce_models env ms) = set ms" and "length (ce_models env ms) = length ms"
    and "set (ce_devices env ds) = set ds" and "length (ce_devices env ds) = length ds"
  using assms by (auto simp: orders_permute_def dest: mset_eq_setD mset_eq_length)

lemma filled_Some: "filled kvs k = Some v \<Longrightarrow> (k, v) \<in> set kvs"
  unfolding filled_def by (drule map_of_SomeD) simp

lemma filled_None: "filled kvs k = None \<longleftrightarrow> k \<notin> fst ` set kvs"
  by (simp add: filled_def map_of_eq_None_iff)

subsection \<open>Models\<close>

lemma org_model_mono: "org_model org db k i \<Longrightarrow> set (rg_Models db) \<subseteq> set (rg_Models db') \<Longrightarrow> org_model org db' k i"
  by (auto simp: org_model_def)

lemma org_model_found:
  assumes "org_model org db k i" and "registry_ok db"
  obtains m where "find_model i db = Some m" and "mi_OrganizationID m = org"
proof -
  from assms(1) obtain m where m: "m \<in> set (rg_Models db)" "mi_OrganizationID m = org" "mi_ID m = i"
    by (auto simp: org_model_def)
  then obtain m' where f: "find_model i db = Some m'"
    by (cases "find_model i db") (auto simp: find_model_def find_None_iff)
  with m assms(2) find_model_Some [OF f] have "m' = m"
    by (auto simp: registry_ok_def keys_ok_def distinct_map inj_on_def)
  with f m(2) show ?thesis by (intro that) simp_all
qed

definition keys_sound :: "string \<Rightarrow> Registry \<Rightarrow> (modelKey \<Rightarrow> string option) \<Rightarrow> bool" where
  "keys_sound org db f \<longleftrightarrow> (\<forall>k i. f k = Some i \<longrightarrow> org_model org db k i)"

lemma keys_sound_mono: "keys_sound org db f \<Longrightarrow> set (rg_Models db) \<subseteq> set (rg_Models db') \<Longrightarrow> keys_sound org db' f"
  unfolding keys_sound_def by (meson org_model_mono)

lemma keys_soundD: "keys_sound org db f \<Longrightarrow> f k = Some i \<Longrightarrow> org_model org db k i"
  by (simp only: keys_sound_def)

lemma org_model_cong: "rg_Models db' = rg_Models db \<Longrightarrow> org_model org db' k i \<longleftrightarrow> org_model org db k i"
  by (simp add: org_model_def)

lemma keys_sound_cong: "rg_Models db' = rg_Models db \<Longrightarrow> keys_sound org db' f \<longleftrightarrow> keys_sound org db f"
  by (simp add: keys_sound_def org_model_def)

lemma models_by_key_sound:
  assumes "Service_DeviceModels env db = Inr existing" and "orders_permute env"
  shows "keys_sound org db (models_by_key org existing)"
  using assms(1)
  by (auto simp: keys_sound_def models_by_key_def org_model_def Service_DeviceModels_def orders_permute_simps [OF assms(2)]
      dest!: filled_Some in_set_takeD split: if_splits) blast

lemma models_by_key_complete:
  assumes "Service_DeviceModels env db = Inr existing" and "orders_permute env" and "lists_complete env org db"
    and "org_model org db k i"
  shows "models_by_key org existing k \<noteq> None"
proof -
  let ?ms = "filter (\<lambda>m. ce_perm env ''read'' ''device_model'' (mi_OrganizationID m) None) (rg_Models db)"
  have "length ?ms \<le> 500" using assms(3) by (auto simp: lists_complete_def intro: le_trans [OF length_filter_le])
  then have "set existing = set ?ms"
    using assms(1) by (auto simp: Service_DeviceModels_def orders_permute_simps [OF assms(2)] split: if_splits)
  moreover obtain m where "m \<in> set (rg_Models db)" "mi_OrganizationID m = org"
    "k = (mi_Manufacturer m, mi_DeviceType m, mi_Model m)"
    using assms(4) by (auto simp: org_model_def)
  ultimately have "k \<in> fst ` set (map (\<lambda>m. ((mi_Manufacturer m, mi_DeviceType m, mi_Model m), mi_ID m))
      (filter (\<lambda>m. mi_OrganizationID m = org) existing))"
    using assms(3) by (auto simp: lists_complete_def image_iff)
  then show ?thesis by (simp add: models_by_key_def filled_None)
qed

lemma CreateDeviceModel_model:
  assumes "CreateDeviceModel env org \<lparr>dmi_Manufacturer = a, dmi_Model = b, dmi_DeviceType = t, dmi_SourceTypeID = s,
      dmi_IsActive = x\<rparr> db = (db', Inr m)" and "trim_space org \<noteq> []"
    and "trim_space a = a" and "trim_space b = b" and "trim_space t = t"
  shows "mi_OrganizationID m = org \<and> (mi_Manufacturer m, mi_DeviceType m, mi_Model m) = (a, t, b)"
  using assms
  by (auto simp: CreateDeviceModel_def deviceModelInputOrganization_def validateDeviceModelInput_def new_model_def Let_def
      split: if_splits)

lemma set_key_trimmed:
  "set_key brands d = (a, t, b) \<Longrightarrow> trim_space a = a \<and> trim_space t = t \<and> trim_space b = b"
  by (auto simp: set_key_def Let_def)

lemma import_model_org:
  assumes "import_model env org (set_key brands d) (db, st) = (db', Inr (i, st'))" and "keys_sound org db (is_ByKey st)"
    and "trim_space org \<noteq> []"
  shows "org_model org db' (set_key brands d) i" and "keys_sound org db' (is_ByKey st')"
    and "set (rg_Models db) \<subseteq> set (rg_Models db')"
    and "is_ModelID st' = is_ModelID st"
proof -
  obtain a t b where k: "set_key brands d = (a, t, b)" by (rule prod_cases3)
  note tr = set_key_trimmed [OF k]
  have "org_model org db' (a, t, b) i \<and> keys_sound org db' (is_ByKey st') \<and> set (rg_Models db) \<subseteq> set (rg_Models db')
      \<and> is_ModelID st' = is_ModelID st"
  proof (cases "is_ByKey st (a, t, b)")
    case None
    obtain db1 r where c: "CreateDeviceModel env org \<lparr>dmi_Manufacturer = a, dmi_Model = b, dmi_DeviceType = t,
        dmi_SourceTypeID = None, dmi_IsActive = True\<rparr> db = (db1, r)" by (rule prod.exhaust)
    with assms(1) k None obtain m where r: "r = Inr m" "db1 = db'" "i = mi_ID m"
      "is_ByKey st' = (is_ByKey st)((a, t, b) \<mapsto> mi_ID m)" "is_ModelID st' = is_ModelID st"
      by (cases r) (auto simp: import_model_def)
    from CreateDeviceModel_effect [OF c] r have e: "rg_Models db' = rg_Models db @ [m]" by simp
    with CreateDeviceModel_model [OF c [unfolded r(1)] assms(3)] tr have o: "org_model org db' (a, t, b) (mi_ID m)"
      by (auto simp: org_model_def)
    from e have s: "set (rg_Models db) \<subseteq> set (rg_Models db')" by auto
    show ?thesis using o s keys_sound_mono [OF assms(2) s] r by (auto simp: keys_sound_def)
  qed (use assms(1,2) k in \<open>auto simp: import_model_def keys_sound_def\<close>)
  then show "org_model org db' (set_key brands d) i" and "keys_sound org db' (is_ByKey st')"
    and "set (rg_Models db) \<subseteq> set (rg_Models db')" and "is_ModelID st' = is_ModelID st"
    by (simp_all add: k)
qed

text \<open>Whether a model's stale registers may be pruned depends on the permission alone.\<close>

lemma prune_iff:
  assumes "org_model org db k i" and "registry_ok db"
  shows "is_ok (snd (pruneModbusRegisterMetadata env i keep db)) \<longleftrightarrow> ce_perm env ''update'' ''device_model'' org None"
proof -
  from assms obtain m where "find_model i db = Some m" "mi_OrganizationID m = org" by (rule org_model_found)
  then show ?thesis
    by (simp add: pruneModbusRegisterMetadata_def authorizedDeviceModelScope_def Let_def)
qed

subsection \<open>Device sets, the first time\<close>

definition ids_sound :: "string \<Rightarrow> Registry \<Rightarrow> (int \<Rightarrow> string option) \<Rightarrow> bool" where
  "ids_sound org db f \<longleftrightarrow> (\<forall>x i. f x = Some i \<longrightarrow> (\<exists>k. org_model org db k i))"

lemma ids_sound_mono: "ids_sound org db f \<Longrightarrow> set (rg_Models db) \<subseteq> set (rg_Models db') \<Longrightarrow> ids_sound org db' f"
  unfolding ids_sound_def by (meson org_model_mono)

text \<open>What a loop over device sets leaves: every key has a model of the organization, and so has every set.\<close>

definition sets_ready :: "CoreEnv \<Rightarrow> string \<Rightarrow> (int \<Rightarrow> string option) \<Rightarrow> MiddlewareDeviceSet list \<Rightarrow> Registry \<Rightarrow> bool" where
  "sets_ready env org brands ds db \<longleftrightarrow>
     (\<forall>d \<in> set ds. (\<exists>i. org_model org db (set_key brands d) i) \<and> ce_perm env ''update'' ''device_model'' org None)"

lemma import_device_set_split:
  assumes "import_device_set env org brands d (db, st) = (db', st', None)"
  obtains db1 st1 i db2 res used n where
    "import_model env org (set_key brands d) (db, st) = (db1, Inr (i, st1))"
    and "import_addresses env i {} (ms_Addresses d) (db1, is_Result st1) = (db2, res, used)"
    and "pruneModbusRegisterMetadata env i used db2 = (db', Inr n)"
    and "is_ByKey st' = is_ByKey st1"
    and "is_ModelID st' = (is_ModelID st1)(ms_DeviceSetID d \<mapsto> i)"
proof -
  obtain db1 x where m: "import_model env org (set_key brands d) (db, st) = (db1, x)" by (rule prod.exhaust)
  from assms m obtain y where x: "x = Inr y" by (cases x) (auto simp: import_device_set_def Let_def)
  obtain i st1 where y: "y = (i, st1)" by (rule prod.exhaust)
  obtain db2 res used where a: "import_addresses env i {} (ms_Addresses d) (db1, is_Result st1) = (db2, res, used)"
    by (rule prod_cases3)
  obtain db3 z where n: "pruneModbusRegisterMetadata env i used db2 = (db3, z)" by (rule prod.exhaust)
  from assms obtain k where "z = Inr k" "db' = db3" "is_ByKey st' = is_ByKey st1"
    "is_ModelID st' = (is_ModelID st1)(ms_DeviceSetID d \<mapsto> i)"
    by (cases z) (auto simp: import_device_set_def Let_def m x y a n)
  with m x y a n show ?thesis by (intro that) auto
qed

lemma import_device_set_ready:
  assumes d: "import_device_set env org brands d (db, st) = (db', st', None)"
    and "registry_ok db" and "fresh_ids env" and "trim_space org \<noteq> []"
    and s: "keys_sound org db (is_ByKey st)" "ids_sound org db (is_ModelID st)"
  shows "sets_ready env org brands [d] db'" and "set (rg_Models db) \<subseteq> set (rg_Models db')"
    and "keys_sound org db' (is_ByKey st')" and "ids_sound org db' (is_ModelID st')"
    and "dom (is_ModelID st') = insert (ms_DeviceSetID d) (dom (is_ModelID st))"
proof -
  from d obtain db1 st1 i db2 res used n where
    m: "import_model env org (set_key brands d) (db, st) = (db1, Inr (i, st1))"
    and a: "import_addresses env i {} (ms_Addresses d) (db1, is_Result st1) = (db2, res, used)"
    and p: "pruneModbusRegisterMetadata env i used db2 = (db', Inr n)"
    and st': "is_ByKey st' = is_ByKey st1" "is_ModelID st' = (is_ModelID st1)(ms_DeviceSetID d \<mapsto> i)"
    by (rule import_device_set_split)
  note o = import_model_org [OF m s(1) assms(4)]
  have r2: "registry_ok db2"
    using registry.import_addresses_kept [OF a] registry.import_model_kept [OF m] assms(2,3) by simp
  have e: "rg_Models db2 = rg_Models db1" "rg_Models db' = rg_Models db1"
    using import_addresses_report [OF a] pruneModbusRegisterMetadata_effect [OF p] by simp_all
  have o2: "org_model org db2 (set_key brands d) i" "org_model org db' (set_key brands d) i"
    using o(1) e by (simp_all add: org_model_def)
  have "ce_perm env ''update'' ''device_model'' org None"
    using prune_iff [OF o2(1) r2, of env used] p by simp
  with o2(2) show "sets_ready env org brands [d] db'" by (auto simp: sets_ready_def)
  show s': "set (rg_Models db) \<subseteq> set (rg_Models db')" using o(3) e by simp
  show "keys_sound org db' (is_ByKey st')" using o(2) e st' by (simp add: keys_sound_def org_model_def)
  show "ids_sound org db' (is_ModelID st')"
    using ids_sound_mono [OF s(2) s'] o2(2) unfolding st' o(4) ids_sound_def by (metis fun_upd_apply option.inject)
  show "dom (is_ModelID st') = insert (ms_DeviceSetID d) (dom (is_ModelID st))" by (simp add: st' o(4))
qed

lemma sets_ready_mono:
  "sets_ready env org brands ds db \<Longrightarrow> set (rg_Models db) \<subseteq> set (rg_Models db') \<Longrightarrow> sets_ready env org brands ds db'"
  unfolding sets_ready_def by (meson org_model_mono)

lemma import_device_sets_ready:
  assumes "import_device_sets env org brands ds (db, st) = (db', st', None)"
    and "registry_ok db" and "fresh_ids env" and "trim_space org \<noteq> []"
    and "keys_sound org db (is_ByKey st)" and "ids_sound org db (is_ModelID st)"
  shows "sets_ready env org brands ds db' \<and> set (rg_Models db) \<subseteq> set (rg_Models db') \<and> ids_sound org db' (is_ModelID st')
    \<and> dom (is_ModelID st') = ms_DeviceSetID ` set ds \<union> dom (is_ModelID st)"
  using assms(1,2,5,6)
proof (induction ds arbitrary: db st)
  case Nil
  then show ?case by (simp add: sets_ready_def)
next
  case (Cons d ds)
  obtain db1 st1 e where d: "import_device_set env org brands d (db, st) = (db1, st1, e)" by (rule prod_cases3)
  with Cons.prems(1) have e: "e = None" "import_device_sets env org brands ds (db1, st1) = (db', st', None)"
    by (cases e; simp)+
  note r = import_device_set_ready [OF d [unfolded e(1)] Cons.prems(2) assms(3,4) Cons.prems(3,4)]
  have "registry_ok db1" using registry.import_device_set_kept [OF d] Cons.prems(2) assms(3) by simp
  from Cons.IH [OF e(2) this r(3,4)] r show ?case
    using sets_ready_mono [OF r(1), of db'] by (auto simp: sets_ready_def)
qed

subsection \<open>Device sets, the second time\<close>

lemma import_device_set_again:
  assumes "sets_ready env org brands [d] db" and "registry_ok db" and "fresh_ids env"
    and s: "keys_sound org db (is_ByKey st)" and k: "is_ByKey st (set_key brands d) \<noteq> None"
  shows "\<exists>db' st'. import_device_set env org brands d (db, st) = (db', st', None)
    \<and> rg_Models db' = rg_Models db \<and> is_ByKey st' = is_ByKey st
    \<and> ir_ModelsCreated (is_Result st') = ir_ModelsCreated (is_Result st)"
proof -
  from k obtain i where i: "is_ByKey st (set_key brands d) = Some i" by blast
  then obtain st1 where m: "import_model env org (set_key brands d) (db, st) = (db, Inr (i, st1))"
    and st1: "is_ByKey st1 = is_ByKey st" "ir_ModelsCreated (is_Result st1) = ir_ModelsCreated (is_Result st)"
    by (simp add: import_model_def)
  obtain db2 res used where a: "import_addresses env i {} (ms_Addresses d) (db, is_Result st1) = (db2, res, used)"
    by (rule prod_cases3)
  note r = import_addresses_report [OF a]
  have "registry_ok db2" using registry.import_addresses_kept [OF a] assms(2,3) by simp
  moreover have "org_model org db2 (set_key brands d) i" 
    using keys_soundD [OF s i] r org_model_cong [of db2 db] by simp
  ultimately have "is_ok (snd (pruneModbusRegisterMetadata env i used db2))"
    using prune_iff assms(1) by (simp add: sets_ready_def)
  then obtain db3 n where p: "pruneModbusRegisterMetadata env i used db2 = (db3, Inr n)"
    by (cases "pruneModbusRegisterMetadata env i used db2") (auto simp: is_ok_iff)
  show ?thesis
    using r pruneModbusRegisterMetadata_effect [OF p] st1
    by (auto simp: import_device_set_def Let_def m a p)
qed

lemma import_device_sets_again:
  assumes "sets_ready env org brands ds db" and "registry_ok db" and "fresh_ids env"
    and "keys_sound org db (is_ByKey st)" and "\<forall>d \<in> set ds. is_ByKey st (set_key brands d) \<noteq> None"
  shows "\<exists>db' st'. import_device_sets env org brands ds (db, st) = (db', st', None)
    \<and> rg_Models db' = rg_Models db \<and> ir_ModelsCreated (is_Result st') = ir_ModelsCreated (is_Result st)"
  using assms(1,2,4,5)
proof (induction ds arbitrary: db st)
  case (Cons d ds)
  have "sets_ready env org brands [d] db" using Cons.prems(1) by (simp add: sets_ready_def)
  from import_device_set_again [OF this Cons.prems(2) assms(3) Cons.prems(3)] Cons.prems(4)
  obtain db1 st1 where d: "import_device_set env org brands d (db, st) = (db1, st1, None)"
    and e: "rg_Models db1 = rg_Models db" "is_ByKey st1 = is_ByKey st"
      "ir_ModelsCreated (is_Result st1) = ir_ModelsCreated (is_Result st)" by auto
  have "registry_ok db1" using registry.import_device_set_kept [OF d] Cons.prems(2) assms(3) by simp
  then have "\<exists>db' st'. import_device_sets env org brands ds (db1, st1) = (db', st', None)
    \<and> rg_Models db' = rg_Models db1 \<and> ir_ModelsCreated (is_Result st') = ir_ModelsCreated (is_Result st1)"
    using Cons.prems(1,3,4) e keys_sound_cong [OF e(1)]
    by (intro Cons.IH) (simp_all add: sets_ready_def org_model_cong [OF e(1)])
  with d e show ?case by auto
qed auto

subsection \<open>Connections, the first time\<close>

definition devices_at :: "Registry \<Rightarrow> (string \<times> string) set" where
  "devices_at db = (\<lambda>d. (di_PlantID d, di_ExternalID d)) ` set (rg_Devices db)"

lemma devices_at_iff: "(p, e) \<in> devices_at db \<longleftrightarrow> (\<exists>d \<in> set (rg_Devices db). di_PlantID d = p \<and> di_ExternalID d = e)"
  by (auto simp: devices_at_def)

text \<open>The reasons to refuse a device that do not depend on the devices there are.\<close>

definition create_refused :: "CoreEnv \<Rightarrow> string \<Rightarrow> string \<Rightarrow> MiddlewareConnection \<Rightarrow> Registry \<Rightarrow> bool" where
  "create_refused env org p c db \<longleftrightarrow>
     trim_space (import_name c) = [] \<or> 200 < length (external_id c) \<or> 200 < length (trim_space (import_name c))
     \<or> \<not> is_ok (validateDeviceModbusFields (trim_space (mc_Host c)) (import_port c) (int32_of (connection_unit c)))
     \<or> (case authorized_plant env ''create'' ''device'' p db of
          None \<Rightarrow> True | Some plant \<Rightarrow> pn_OrganizationID plant \<noteq> org)"

lemma trim_external_id [simp]: "trim_space (external_id c) = external_id c"
  by (simp add: external_id_def Let_def)

lemma CreateDevice_refused:
  assumes "org_model org db k m" and "registry_ok db" and "CreateDevice env p (create_input m c) db = (db', r)"
  shows "create_refused env org p c db \<Longrightarrow> \<not> is_ok r"
    and "\<not> is_ok r \<Longrightarrow> external_id c \<noteq> [] \<Longrightarrow> create_refused env org p c db \<or> (p, external_id c) \<in> devices_at db"
proof -
  from assms(1,2) obtain x where x: "find_model m db = Some x" "mi_OrganizationID x = org" by (rule org_model_found)
  note defs = CreateDevice_def create_refused_def create_input_def x Let_def is_ok_iff
  show "\<not> is_ok r" if "create_refused env org p c db"
    using that assms(3)
    by (auto simp: defs split: if_splits sum.splits option.splits)
  show "create_refused env org p c db \<or> (p, external_id c) \<in> devices_at db" if "\<not> is_ok r" "external_id c \<noteq> []"
    using that assms(3) authorized_plant_Some(2) [of env "''create''" "''device''" p db]
    by (auto simp: defs devices_at_iff list_ex_iff split: if_splits sum.splits option.splits)
qed

lemma devices_at_key: "devices_at db = snd ` device_key ` set (rg_Devices db)"
  by (auto simp: devices_at_def device_key_def image_iff)

lemma UpdateDevice_at:
  assumes "UpdateDevice env p i input db = (db', r)" shows "devices_at db' = devices_at db"
proof -
  have "device_key ` set (rg_Devices db') = device_key ` set (rg_Devices db)"
    using UpdateDevice_effect [OF assms] by (metis set_map)
  then show ?thesis by (simp add: devices_at_key)
qed

text \<open>
  A connection is settled when there is nothing left to create for it: its device is there, or the platform
  refuses to create one.
\<close>

definition settled :: "CoreEnv \<Rightarrow> string \<Rightarrow> ImportMaps \<Rightarrow> Registry \<Rightarrow> MiddlewareConnection \<Rightarrow> bool" where
  "settled env org maps db c \<longleftrightarrow>
     (im_ModelID maps (mc_DeviceSetID c) \<noteq> None \<and> external_id c \<noteq> [] \<longrightarrow>
       (\<forall>p. connection_plant (im_Plants maps) (im_Fallback maps) c = Some p \<longrightarrow>
          authorized_plant env ''read'' ''device'' p db \<noteq> None
          \<and> (create_refused env org p c db \<or> (p, external_id c) \<in> devices_at db)))"

definition loaded_sound :: "CoreEnv \<Rightarrow> Registry \<Rightarrow> (string \<Rightarrow> (string \<Rightarrow> string option) option) \<Rightarrow> bool" where
  "loaded_sound env db loaded \<longleftrightarrow>
     (\<forall>p f. loaded p = Some f \<longrightarrow> authorized_plant env ''read'' ''device'' p db \<noteq> None
        \<and> (\<forall>e. f e \<noteq> None \<longrightarrow> (p, e) \<in> devices_at db))"

lemma authorized_plant_cong: "rg_Plants db' = rg_Plants db \<Longrightarrow> authorized_plant env a r p db' = authorized_plant env a r p db"
  by (simp add: authorized_plant_def find_plant_info_def)

lemma create_refused_cong: "rg_Plants db' = rg_Plants db \<Longrightarrow> create_refused env org p c db' = create_refused env org p c db"
  by (simp add: create_refused_def authorized_plant_cong [of db' db])

lemma settled_kept:
  assumes "settled env org maps db c" and "rg_Plants db' = rg_Plants db" and "devices_at db \<subseteq> devices_at db'"
  shows "settled env org maps db' c"
  using assms(1,3) unfolding settled_def create_refused_cong [OF assms(2)] authorized_plant_cong [OF assms(2)] by blast

lemma plant_devices_sound:
  assumes "plant_devices env p db loaded = Inr f" and "loaded_sound env db loaded" and "orders_permute env"
  shows "loaded_sound env db (loaded(p \<mapsto> f))"
proof (cases "loaded p")
  case None
  then have "authorized_plant env ''read'' ''device'' p db \<noteq> None \<and> (\<forall>e. f e \<noteq> None \<longrightarrow> (p, e) \<in> devices_at db)"
    using assms(1) authorized_plant_Some(2) [of env "''read''" "''device''" p db]
    by (auto simp: plant_devices_def Service_Devices_def devices_at_iff orders_permute_simps [OF assms(3)]
        dest!: filled_Some in_set_takeD split: option.splits sum.splits) blast
  with assms(2) show ?thesis by (simp add: loaded_sound_def)
qed (use assms(1,2) in \<open>auto simp: plant_devices_def loaded_sound_def\<close>)

lemma import_device_settles:
  assumes "import_device env p f m c (db, st) = (db', st')" and "ic_Devices st p = Some f"
    and "loaded_sound env db (ic_Devices st)" and "org_model org db k m" and "registry_ok db" and "external_id c \<noteq> []"
  shows "create_refused env org p c db \<or> (p, external_id c) \<in> devices_at db'"
    and "devices_at db \<subseteq> devices_at db'" and "rg_Plants db' = rg_Plants db" and "rg_Models db' = rg_Models db"
    and "loaded_sound env db' (ic_Devices st')"
proof -
  have "(create_refused env org p c db \<or> (p, external_id c) \<in> devices_at db') \<and> devices_at db \<subseteq> devices_at db'
      \<and> rg_Plants db' = rg_Plants db \<and> rg_Models db' = rg_Models db \<and> loaded_sound env db' (ic_Devices st')"
  proof (cases "f (external_id c)")
    case (Some i)
    obtain db1 r where u: "UpdateDevice env p i (update_input m c) db = (db1, r)" by (rule prod.exhaust)
    have db1: "db1 = db'" "ic_Devices st' = ic_Devices st"
      using assms(1) Some u by (auto simp: import_device_def Let_def split: sum.splits)
    have "(p, external_id c) \<in> devices_at db" using assms(2,3) Some by (simp add: loaded_sound_def)
    then show ?thesis
      using UpdateDevice_effect [OF u] UpdateDevice_at [OF u] assms(3) authorized_plant_cong [of db1 db]
      by (simp add: db1 loaded_sound_def)
  next
    case None
    obtain db1 r where u: "CreateDevice env p (create_input m c) db = (db1, r)" by (rule prod.exhaust)
    show ?thesis
    proof (cases r)
      case (Inl err)
      with assms(1) None have "db' = db1" "ic_Devices st' = ic_Devices st" by (auto simp: import_device_def Let_def u)
      with CreateDevice_effect [OF u] Inl CreateDevice_refused(2) [OF assms(4,5) u] assms(3,6)
      show ?thesis by simp
    next
      case (Inr d)
      with assms(1) None have e: "db' = db1" "ic_Devices st' = (ic_Devices st)(p \<mapsto> f(external_id c \<mapsto> di_ID d))"
        by (auto simp: import_device_def Let_def u)
      note x = CreateDevice_effect [OF u [unfolded Inr], simplified]
      then have at: "devices_at db' = insert (p, external_id c) (devices_at db)"
        by (auto simp: e devices_at_def create_input_def)
      then show ?thesis
        using x assms(2,3) authorized_plant_cong [of db1 db] by (auto simp: e loaded_sound_def)
    qed
  qed
  then show "create_refused env org p c db \<or> (p, external_id c) \<in> devices_at db'"
    and "devices_at db \<subseteq> devices_at db'" and "rg_Plants db' = rg_Plants db" and "rg_Models db' = rg_Models db"
    and "loaded_sound env db' (ic_Devices st')"
    by blast+
qed

lemma import_connection_settles:
  assumes s: "import_connection env maps c (db, st) = (db', st', None)"
    and l: "loaded_sound env db (ic_Devices st)" and i: "ids_sound org db (im_ModelID maps)"
    and ok: "registry_ok db" and o: "orders_permute env"
  shows "settled env org maps db' c" and "devices_at db \<subseteq> devices_at db'" and "rg_Plants db' = rg_Plants db"
    and "rg_Models db' = rg_Models db" and "loaded_sound env db' (ic_Devices st')"
proof -
  let ?cp = "connection_plant (im_Plants maps) (im_Fallback maps) c"
  have "settled env org maps db' c \<and> devices_at db \<subseteq> devices_at db' \<and> rg_Plants db' = rg_Plants db
    \<and> rg_Models db' = rg_Models db \<and> loaded_sound env db' (ic_Devices st')"
  proof (cases "im_ModelID maps (mc_DeviceSetID c) = None \<or> ?cp = None \<or> external_id c = []")
    case True
    then have "db' = db" "ic_Devices st' = ic_Devices st"
      using s by (auto simp: import_connection_def Let_def split: option.splits)
    with l True show ?thesis by (auto simp: settled_def)
  next
    case False
    then obtain m p where m: "im_ModelID maps (mc_DeviceSetID c) = Some m" "?cp = Some p" "external_id c \<noteq> []" by auto
    from i m(1) obtain k where k: "org_model org db k m" unfolding ids_sound_def by blast
    obtain f where f: "plant_devices env p db (ic_Devices st) = Inr f"
      using s m by (auto simp: import_connection_def Let_def split: sum.splits)
    have l': "loaded_sound env db ((ic_Devices st)(p \<mapsto> f))" by (rule plant_devices_sound [OF f l o])
    obtain st0 where d: "import_device env p f m c (db, st0) = (db', st')" "ic_Devices st0 = (ic_Devices st)(p \<mapsto> f)"
      using s m f by (force simp: import_connection_def Let_def split: prod.splits)
    note r = import_device_settles [OF d(1) _ _ k ok m(3)]
    have "authorized_plant env ''read'' ''device'' p db \<noteq> None" using l' by (simp add: loaded_sound_def)
    then show ?thesis
      using r d(2) l' m create_refused_cong [of db' db] authorized_plant_cong [of db' db]
      by (simp add: settled_def)
  qed
  then show "settled env org maps db' c" and "devices_at db \<subseteq> devices_at db'" and "rg_Plants db' = rg_Plants db"
    and "rg_Models db' = rg_Models db" and "loaded_sound env db' (ic_Devices st')"
    by blast+
qed

lemma import_connections_settle:
  assumes "import_connections env maps cs (db, st) = (db', st', None)" and "loaded_sound env db (ic_Devices st)"
    and "ids_sound org db (im_ModelID maps)" and "registry_ok db" and "fresh_ids env" and "orders_permute env"
  shows "(\<forall>c \<in> set cs. settled env org maps db' c) \<and> devices_at db \<subseteq> devices_at db' \<and> rg_Plants db' = rg_Plants db
    \<and> rg_Models db' = rg_Models db"
  using assms(1-4)
proof (induction cs arbitrary: db st)
  case (Cons c cs)
  obtain db1 st1 e where c: "import_connection env maps c (db, st) = (db1, st1, e)" by (rule prod_cases3)
  with Cons.prems(1) have e: "e = None" "import_connections env maps cs (db1, st1) = (db', st', None)"
    by (cases e; simp)+
  note r = import_connection_settles [OF c [unfolded e(1)] Cons.prems(2,3,4) assms(6)]
  have "ids_sound org db1 (im_ModelID maps)"
    using Cons.prems(3) unfolding ids_sound_def org_model_cong [OF r(4)] .
  moreover have "registry_ok db1" using registry.import_connection_kept [OF c] Cons.prems(4) assms(5) by simp
  ultimately have "(\<forall>c \<in> set cs. settled env org maps db' c) \<and> devices_at db1 \<subseteq> devices_at db'
      \<and> rg_Plants db' = rg_Plants db1 \<and> rg_Models db' = rg_Models db1"
    by (rule Cons.IH [OF e(2) r(5)])
  with r show ?case using settled_kept [OF r(1), of db'] by auto
qed simp

subsection \<open>Connections, the second time\<close>

definition loaded_complete :: "Registry \<Rightarrow> (string \<Rightarrow> (string \<Rightarrow> string option) option) \<Rightarrow> bool" where
  "loaded_complete db loaded \<longleftrightarrow> (\<forall>p f. loaded p = Some f \<longrightarrow> (\<forall>e. (p, e) \<in> devices_at db \<longrightarrow> f e \<noteq> None))"

lemma plant_devices_complete:
  assumes "authorized_plant env ''read'' ''device'' p db \<noteq> None" and "loaded_complete db loaded"
    and o: "orders_permute env" and ok: "registry_ok db" and n: "length (rg_Devices db) \<le> 500"
  shows "\<exists>f. plant_devices env p db loaded = Inr f \<and> loaded_complete db (loaded(p \<mapsto> f))"
proof (cases "loaded p")
  case None
  from assms(1) obtain pl where pl: "authorized_plant env ''read'' ''device'' p db = Some pl" by blast
  let ?ds = "filter (\<lambda>d. di_OrganizationID d = pn_OrganizationID pl \<and> di_PlantID d = pn_ID pl) (rg_Devices db)"
  let ?f = "filled (map (\<lambda>d. (di_ExternalID d, di_ID d)) (take 500 (ce_devices env ?ds)))"
  have r: "plant_devices env p db loaded = Inr ?f" by (simp add: plant_devices_def None Service_Devices_def pl)
  have "length ?ds \<le> 500" using n by (rule order_trans [OF length_filter_le])
  then have all: "set (take 500 (ce_devices env ?ds)) = set ?ds"
    by (simp add: orders_permute_simps [OF o])
  have "?f e \<noteq> None" if "(p, e) \<in> devices_at db" for e
  proof -
    from that obtain d where d: "d \<in> set (rg_Devices db)" "di_PlantID d = p" "di_ExternalID d = e"
      by (auto simp: devices_at_iff)
    then obtain q where q: "q \<in> set (rg_Plants db)" "di_OrganizationID d = pn_OrganizationID q" "di_PlantID d = pn_ID q"
      using ok by (auto simp: registry_ok_def references_ok_def)
    have "q = pl"
      using q d(2) ok authorized_plant_Some [OF pl] by (auto simp: registry_ok_def keys_ok_def distinct_map inj_on_def)
    with d q have "d \<in> set ?ds" by simp
    then show ?thesis using d(3) by (auto simp: filled_None all image_iff)
  qed
  with assms(2) r show ?thesis by (simp add: loaded_complete_def)
qed (use assms(2) in \<open>auto simp: plant_devices_def loaded_complete_def\<close>)

lemma import_device_again:
  assumes "import_device env p f m c (db, st) = (db', st')" and "org_model org db k m" and "registry_ok db"
    and "create_refused env org p c db \<or> f (external_id c) \<noteq> None"
  shows "map di_ID (rg_Devices db') = map di_ID (rg_Devices db)" and "devices_at db' = devices_at db"
    and "rg_Plants db' = rg_Plants db" and "rg_Models db' = rg_Models db" and "ic_Devices st' = ic_Devices st"
    and "ir_DevicesCreated (ic_Result st') = ir_DevicesCreated (ic_Result st)"
    and "ir_ModelsCreated (ic_Result st') = ir_ModelsCreated (ic_Result st)"
proof -
  have "map di_ID (rg_Devices db') = map di_ID (rg_Devices db) \<and> devices_at db' = devices_at db
    \<and> rg_Plants db' = rg_Plants db \<and> rg_Models db' = rg_Models db \<and> ic_Devices st' = ic_Devices st
    \<and> ir_DevicesCreated (ic_Result st') = ir_DevicesCreated (ic_Result st)
    \<and> ir_ModelsCreated (ic_Result st') = ir_ModelsCreated (ic_Result st)"
  proof (cases "f (external_id c)")
    case (Some i)
    obtain db1 r where u: "UpdateDevice env p i (update_input m c) db = (db1, r)" by (rule prod.exhaust)
    with assms(1) Some UpdateDevice_effect [OF u] UpdateDevice_at [OF u]
    show ?thesis by (auto simp: import_device_def Let_def split: sum.splits)
  next
    case None
    obtain db1 r where u: "CreateDevice env p (create_input m c) db = (db1, r)" by (rule prod.exhaust)
    have "\<not> is_ok r" using CreateDevice_refused(1) [OF assms(2,3) u] assms(4) None by simp
    with assms(1) None CreateDevice_effect [OF u] u
    show ?thesis by (cases r) (auto simp: import_device_def Let_def)
  qed
  then show "map di_ID (rg_Devices db') = map di_ID (rg_Devices db)" and "devices_at db' = devices_at db"
    and "rg_Plants db' = rg_Plants db" and "rg_Models db' = rg_Models db" and "ic_Devices st' = ic_Devices st"
    and "ir_DevicesCreated (ic_Result st') = ir_DevicesCreated (ic_Result st)"
    and "ir_ModelsCreated (ic_Result st') = ir_ModelsCreated (ic_Result st)"
    by blast+
qed

lemma import_connection_again:
  assumes "settled env org maps db c" and "loaded_complete db (ic_Devices st)" and "ids_sound org db (im_ModelID maps)"
    and "registry_ok db" and "orders_permute env" and "length (rg_Devices db) \<le> 500"
  shows "\<exists>db' st'. import_connection env maps c (db, st) = (db', st', None)
    \<and> map di_ID (rg_Devices db') = map di_ID (rg_Devices db) \<and> devices_at db' = devices_at db
    \<and> rg_Plants db' = rg_Plants db \<and> rg_Models db' = rg_Models db \<and> loaded_complete db' (ic_Devices st')
    \<and> ir_DevicesCreated (ic_Result st') = ir_DevicesCreated (ic_Result st)
    \<and> ir_ModelsCreated (ic_Result st') = ir_ModelsCreated (ic_Result st)"
proof -
  let ?cp = "connection_plant (im_Plants maps) (im_Fallback maps) c"
  show ?thesis
  proof (cases "im_ModelID maps (mc_DeviceSetID c) = None \<or> ?cp = None \<or> external_id c = []")
    case True
    with assms(2) show ?thesis by (auto simp: import_connection_def Let_def split: option.splits)
  next
    case False
    then obtain m p where m: "im_ModelID maps (mc_DeviceSetID c) = Some m" "?cp = Some p" "external_id c \<noteq> []" by auto
    from assms(3) m(1) obtain k where k: "org_model org db k m" unfolding ids_sound_def by blast
    have a: "authorized_plant env ''read'' ''device'' p db \<noteq> None"
      and r: "create_refused env org p c db \<or> (p, external_id c) \<in> devices_at db"
      using assms(1) m by (auto simp: settled_def)
    from plant_devices_complete [OF a assms(2,5,4,6)] obtain f where
      f: "plant_devices env p db (ic_Devices st) = Inr f" and l: "loaded_complete db ((ic_Devices st)(p \<mapsto> f))" by blast
    have r': "create_refused env org p c db \<or> f (external_id c) \<noteq> None"
      using r l [unfolded loaded_complete_def, rule_format, of p f "external_id c"] by auto
    let ?found = "(mc_Host c, mc_Port c, connection_unit c, map_text (im_ModelName maps) (mc_DeviceSetID c))"
    let ?st = "st\<lparr>ic_Result := (ic_Result st)\<lparr>ir_Connections := ir_Connections (ic_Result st) @ [?found]\<rparr>,
        ic_Devices := (ic_Devices st)(p \<mapsto> f)\<rparr>"
    obtain db' st' where d: "import_device env p f m c (db, ?st) = (db', st')" by (rule prod.exhaust)
    then have "import_connection env maps c (db, st) = (db', st', None)"
      using m f by (simp add: import_connection_def Let_def)
    with import_device_again [OF d k assms(4) r'] l show ?thesis by (auto simp: loaded_complete_def)
  qed
qed

lemma import_connections_again:
  assumes "\<forall>c \<in> set cs. settled env org maps db c" and "loaded_complete db (ic_Devices st)"
    and "ids_sound org db (im_ModelID maps)" and "registry_ok db" and "fresh_ids env" and "orders_permute env"
    and "length (rg_Devices db) \<le> 500"
  shows "\<exists>db' st'. import_connections env maps cs (db, st) = (db', st', None)
    \<and> map di_ID (rg_Devices db') = map di_ID (rg_Devices db) \<and> rg_Models db' = rg_Models db
    \<and> ir_DevicesCreated (ic_Result st') = ir_DevicesCreated (ic_Result st)
    \<and> ir_ModelsCreated (ic_Result st') = ir_ModelsCreated (ic_Result st)"
  using assms(1-4,7)
proof (induction cs arbitrary: db st)
  case (Cons c cs)
  have "settled env org maps db c" using Cons.prems(1) by simp
  from import_connection_again [OF this Cons.prems(2-4) assms(6) Cons.prems(5)]
  obtain db1 st1 where c: "import_connection env maps c (db, st) = (db1, st1, None)"
    and e: "map di_ID (rg_Devices db1) = map di_ID (rg_Devices db)" "devices_at db1 = devices_at db"
      "rg_Plants db1 = rg_Plants db" "rg_Models db1 = rg_Models db" "loaded_complete db1 (ic_Devices st1)"
      "ir_DevicesCreated (ic_Result st1) = ir_DevicesCreated (ic_Result st)"
      "ir_ModelsCreated (ic_Result st1) = ir_ModelsCreated (ic_Result st)" by auto
  have "\<exists>db' st'. import_connections env maps cs (db1, st1) = (db', st', None)
    \<and> map di_ID (rg_Devices db') = map di_ID (rg_Devices db1) \<and> rg_Models db' = rg_Models db1
    \<and> ir_DevicesCreated (ic_Result st') = ir_DevicesCreated (ic_Result st1)
    \<and> ir_ModelsCreated (ic_Result st') = ir_ModelsCreated (ic_Result st1)"
  proof (rule Cons.IH [OF _ e(5)])
    show "\<forall>c \<in> set cs. settled env org maps db1 c"
      using Cons.prems(1) settled_kept [of env org maps db _ db1] e(2,3) by auto
    show "ids_sound org db1 (im_ModelID maps)"
      using Cons.prems(3) unfolding ids_sound_def org_model_cong [OF e(4)] .
    show "registry_ok db1" using registry.import_connection_kept [OF c] Cons.prems(4) assms(5) by simp
    show "length (rg_Devices db1) \<le> 500" using Cons.prems(5) e(1) by (metis length_map)
  qed
  with c e show ?case by auto
qed auto

text \<open>The lists the second import starts from are there if the first one could read them.\<close>

lemma lists_again:
  assumes "Service_DeviceModels env db = Inr a" and "Service_Plants env db = Inr b" and "rg_Plants db' = rg_Plants db"
  obtains a' where "Service_DeviceModels env db' = Inr a'" and "Service_Plants env db' = Inr b"
  using assms by (auto simp: Service_DeviceModels_def Service_Plants_def split: if_splits)

interpretation assigned: import_kept env "\<lambda>db. rg_Assigned db = as" for env as
proof unfold_locales
  fix db :: Registry
  assume a: "rg_Assigned db = as"
  show "rg_Assigned (fst (CreateDeviceModel env org input db)) = as" for org input
    using a by (simp add: CreateDeviceModel_def Let_def audit_def split: sum.split)
  have "rg_Assigned (fst (UpsertRegisterProfileAddress env i input db)) = rg_Assigned db" for i input db
    by (simp add: UpsertRegisterProfileAddress_def Let_def audit_def split: sum.split option.split)
  then show "rg_Assigned (fst (SetDeviceModelRegisterMetadata env i meta db)) = as" for i meta
    using a by (simp add: SetDeviceModelRegisterMetadata_def Let_def audit_def split: sum.split option.split)
  show "rg_Assigned (fst (pruneModbusRegisterMetadata env i keep db)) = as" for i keep
    using a by (simp add: pruneModbusRegisterMetadata_def Let_def audit_def split: sum.split)
  show "rg_Assigned (fst (CreateDevice env p dev db)) = as" for p dev
    using a by (simp add: CreateDevice_def Let_def audit_def split: sum.split option.split)
  show "rg_Assigned (fst (UpdateDevice env p i upd db)) = as" for p i upd
    using a by (simp add: UpdateDevice_def Let_def audit_def split: sum.split option.split)
qed


lemma import_grows:
  assumes "importFromSnapshot env org gw s db = (db', res, None)"
  shows "length (rg_Models db') \<le> length (rg_Models db) + length (mg_DeviceSets s)"
    and "length (rg_Devices db') \<le> length (rg_Devices db) + length (mg_Connections s)"
proof -
  have "length (rg_Models db') \<le> length (rg_Models db) + length (mg_DeviceSets s)
      \<and> length (rg_Devices db') \<le> length (rg_Devices db) + length (mg_Connections s)"
    using assms
  proof (elim importFromSnapshot_split)
    fix existing plants mid st1 st2
    assume d: "import_device_sets env org (brand_names s) (mg_DeviceSets s) (db, start_sets org existing) = (mid, st1, None)"
      and c: "import_connections env (import_maps org plants gw db st1) (mg_Connections s) (mid, start_connections st1)
        = (db', st2, None)"
    from import_device_sets_report [OF d] import_connections_report [OF c] show ?thesis
      by (auto simp: sets_report_def connections_report_def start_sets_def start_connections_def zero_import_def)
  qed
  then show "length (rg_Models db') \<le> length (rg_Models db) + length (mg_DeviceSets s)"
    and "length (rg_Devices db') \<le> length (rg_Devices db) + length (mg_Connections s)" by blast+
qed


end
