(* ===== verification/AccountTables.thy ===== *)
theory AccountTables
  imports GoText
begin

section \<open>auth-service: the account tables and their statements\<close>

text \<open>
  The tables of the schema \<open>auth\<close> the account service works on, and the statements of
  \<open>auth-service/internal/database/dbgen\<close> as functions on them. A UUID is its text, a time a number of
  nanoseconds, \<open>now\<close> the time of the transaction and of \<open>time.Now()\<close> around it, NULL is \<open>None\<close>. A statement
  that violates a constraint of its table (\<open>platform-api/internal/database/migrations\<close>) is \<open>None\<close>, or names the
  error the code turns it into. Columns nothing reads (\<open>created_at\<close>, \<open>updated_at\<close>, \<open>password_changed_at\<close>) are left
  out.
\<close>

datatype AccountError =
    ErrInvalidCredentials | ErrEmailUnverified | ErrAccessPending | ErrAccountDisabled | ErrRateLimited
  | ErrUnauthenticated | ErrInvalidCurrentPassword | ErrWeakPassword | ErrInvalidResetToken
  | ErrRegistrationInvalid | ErrRegistrationUnavailable | ErrEmailVerificationToken | ErrRegistrationConflict
  | ErrSessionNotFound | ErrSessionConfirmation
  | ErrForbidden | ErrUserNotFound | ErrUserInvalid | ErrUserConflict
  | ErrRoleNotFound | ErrRoleInvalid | ErrRoleConflict | ErrRoleInUse
  | ErrOrganizationNotFound | ErrOrganizationInvalid | ErrOrganizationConflict
  | ErrStatement

subsection \<open>Rows\<close>

record UserRow =
  su_ID :: string
  su_OrganizationID :: "string option"
  su_Email :: string
  su_Username :: "string option"
  su_DisplayName :: string
  su_PasswordHash :: string
  su_Status :: string
  su_VerifiedAt :: "int option"
  su_Failed :: int
  su_LockedUntil :: "int option"

record SessionRow =
  se_ID :: string
  se_OrganizationID :: "string option"
  se_UserID :: string
  se_TokenHash :: string
  se_CsrfHash :: string
  se_ExpiresAt :: int
  se_IdleExpiresAt :: int
  se_LastSeenAt :: int
  se_RevokedAt :: "int option"
  se_ClientIP :: "string option"
  se_UserAgent :: string

text \<open>A row of \<open>password_reset_token\<close> or \<open>email_verification_token\<close>.\<close>

record TokenRow =
  tk_ID :: string
  tk_OrganizationID :: "string option"
  tk_UserID :: string
  tk_Hash :: string
  tk_ExpiresAt :: int
  tk_UsedAt :: "int option"
  tk_RequestedIP :: "string option"

record AttemptRow =
  at_Identifier :: string
  at_SourceIP :: "string option"
  at_Success :: bool
  at_CreatedAt :: int

record RecoveryRow = AttemptRow +
  at_Operation :: string

record RoleRow =
  ro_ID :: string
  ro_OrganizationID :: "string option"
  ro_Name :: string
  ro_Description :: string
  ro_IsSystem :: bool

record GrantRow =
  gt_OrganizationID :: "string option"
  gt_RoleID :: string
  gt_PermissionID :: string

record Permission =
  pm_ID :: string
  pm_Action :: string
  pm_ResourceType :: string

text \<open>A row of \<open>user_role\<close>.\<close>

record AssignmentRow =
  ur_ID :: string
  ur_OrganizationID :: "string option"
  ur_UserID :: string
  ur_RoleID :: string
  ur_PlantID :: "string option"

record Organization =
  og_ID :: string
  og_Code :: string
  og_Name :: string
  og_IsActive :: bool

record AuditEvent =
  ev_OrganizationID :: "string option"
  ev_ActorUserID :: "string option"
  ev_Action :: string
  ev_TargetType :: string
  ev_TargetID :: "string option"

text \<open>\<open>ad_Authors\<close> are the users \<open>event_logbook.created_by\<close> names, which may not be deleted.\<close>

record AccountDb =
  ad_Users :: "UserRow list"
  ad_Sessions :: "SessionRow list"
  ad_ResetTokens :: "TokenRow list"
  ad_VerifyTokens :: "TokenRow list"
  ad_Attempts :: "AttemptRow list"
  ad_Recovery :: "RecoveryRow list"
  ad_Roles :: "RoleRow list"
  ad_Grants :: "GrantRow list"
  ad_Permissions :: "Permission list"
  ad_Assignments :: "AssignmentRow list"
  ad_Organizations :: "Organization list"
  ad_Authors :: "string list"
  ad_Audit :: "AuditEvent list"

definition find_user :: "string \<Rightarrow> AccountDb \<Rightarrow> UserRow option" where
  "find_user i db = find (\<lambda>u. su_ID u = i) (ad_Users db)"

definition find_role :: "string \<Rightarrow> AccountDb \<Rightarrow> RoleRow option" where
  "find_role i db = find (\<lambda>r. ro_ID r = i) (ad_Roles db)"

definition find_organization :: "string \<Rightarrow> AccountDb \<Rightarrow> Organization option" where
  "find_organization i db = find (\<lambda>o'. og_ID o' = i) (ad_Organizations db)"

definition on_user :: "string \<Rightarrow> (UserRow \<Rightarrow> UserRow) \<Rightarrow> AccountDb \<Rightarrow> AccountDb" where
  "on_user i f db = db\<lparr>ad_Users := update_where (\<lambda>u. su_ID u = i) f (ad_Users db)\<rparr>"

definition second :: int where
  "second = 1000000000"

text \<open>\<open>interval '15 minutes'\<close>.\<close>

definition window :: int where
  "window = 900 * second"

subsection \<open>Audit events and attempts\<close>

definition CreateAuditEvent ::
  "string option \<Rightarrow> string option \<Rightarrow> string \<Rightarrow> string \<Rightarrow> string option \<Rightarrow> AccountDb \<Rightarrow> AccountDb" where
  "CreateAuditEvent org actor action targetType target db =
     db\<lparr>ad_Audit := ad_Audit db @
         [\<lparr>ev_OrganizationID = org, ev_ActorUserID = actor, ev_Action = action, ev_TargetType = targetType,
           ev_TargetID = target\<rparr>]\<rparr>"

text \<open>A comparison with a NULL address is not true.\<close>

definition same_ip :: "string option \<Rightarrow> string option \<Rightarrow> bool" where
  "same_ip a b \<longleftrightarrow> a \<noteq> None \<and> a = b"

definition CountRecentFailedAuthAttempts :: "int \<Rightarrow> string \<Rightarrow> string option \<Rightarrow> AccountDb \<Rightarrow> nat" where
  "CountRecentFailedAuthAttempts now identifier ip db =
     length (filter (\<lambda>a. \<not> at_Success a \<and> now - window \<le> at_CreatedAt a
         \<and> (at_Identifier a = to_lower identifier \<or> same_ip (at_SourceIP a) ip)) (ad_Attempts db))"

definition RecordAuthAttempt :: "int \<Rightarrow> string \<Rightarrow> string option \<Rightarrow> bool \<Rightarrow> AccountDb \<Rightarrow> AccountDb" where
  "RecordAuthAttempt now identifier ip success db =
     db\<lparr>ad_Attempts := ad_Attempts db @
         [\<lparr>at_Identifier = to_lower identifier, at_SourceIP = ip, at_Success = success, at_CreatedAt = now\<rparr>]\<rparr>"

definition CountRecentPasswordRecoveryAttempts ::
  "int \<Rightarrow> string \<Rightarrow> string \<Rightarrow> string option \<Rightarrow> AccountDb \<Rightarrow> nat" where
  "CountRecentPasswordRecoveryAttempts now operation identifier ip db =
     length (filter (\<lambda>a. at_Operation a = operation \<and> now - window \<le> at_CreatedAt a
         \<and> (identifier \<noteq> [] \<and> at_Identifier a = to_lower identifier \<or> same_ip (at_SourceIP a) ip)) (ad_Recovery db))"

text \<open>The constraint \<open>password_recovery_operation_valid\<close> knows two operations.\<close>

definition RecordPasswordRecoveryAttempt ::
  "int \<Rightarrow> string \<Rightarrow> string \<Rightarrow> string option \<Rightarrow> bool \<Rightarrow> AccountDb \<Rightarrow> AccountDb option" where
  "RecordPasswordRecoveryAttempt now operation identifier ip success db =
     (if operation \<in> {''REQUEST'', ''RESET''}
      then Some (db\<lparr>ad_Recovery := ad_Recovery db @
             [\<lparr>at_Identifier = to_lower identifier, at_SourceIP = ip, at_Success = success, at_CreatedAt = now,
               at_Operation = operation\<rparr>]\<rparr>)
      else None)"

subsection \<open>Users\<close>

text \<open>\<open>LIMIT 1\<close> without an order returns some match: \<open>pick\<close> chooses it.\<close>

definition GetLoginUser :: "(UserRow list \<Rightarrow> UserRow) \<Rightarrow> string \<Rightarrow> AccountDb \<Rightarrow> UserRow option" where
  "GetLoginUser pick identifier db =
     (let matches = filter (\<lambda>u. su_Email u = to_lower identifier \<or> su_Username u = Some (to_lower identifier)) (ad_Users db)
      in if matches = [] then None else Some (pick matches))"

definition GetPasswordResetUser :: "string \<Rightarrow> AccountDb \<Rightarrow> UserRow option" where
  "GetPasswordResetUser email db = find (\<lambda>u. su_Email u = to_lower email) (ad_Users db)"

definition RecordLoginFailure :: "int \<Rightarrow> string \<Rightarrow> AccountDb \<Rightarrow> AccountDb option" where
  "RecordLoginFailure now i db =
     (if find_user i db = None then None
      else Some (on_user i (\<lambda>u. u\<lparr>su_Failed := su_Failed u + 1,
             su_LockedUntil := (if 5 \<le> su_Failed u + 1 then Some (now + window) else su_LockedUntil u)\<rparr>) db))"

definition RecordLoginSuccess :: "string \<Rightarrow> AccountDb \<Rightarrow> AccountDb" where
  "RecordLoginSuccess i db = on_user i (\<lambda>u. u\<lparr>su_Failed := 0, su_LockedUntil := None\<rparr>) db"

definition UpdateUserPassword :: "string \<Rightarrow> string \<Rightarrow> AccountDb \<Rightarrow> AccountDb" where
  "UpdateUserPassword hash i db =
     on_user i (\<lambda>u. u\<lparr>su_PasswordHash := hash, su_Failed := 0, su_LockedUntil := None\<rparr>) db"

subsection \<open>Sessions\<close>

definition revoke_where :: "int \<Rightarrow> (SessionRow \<Rightarrow> bool) \<Rightarrow> AccountDb \<Rightarrow> AccountDb" where
  "revoke_where now p db =
     db\<lparr>ad_Sessions := update_where (\<lambda>s. p s \<and> se_RevokedAt s = None) (\<lambda>s. s\<lparr>se_RevokedAt := Some now\<rparr>) (ad_Sessions db)\<rparr>"

definition CreateUserSession :: "SessionRow \<Rightarrow> AccountDb \<Rightarrow> AccountDb option" where
  "CreateUserSession s db =
     (if list_ex (\<lambda>t. se_ID t = se_ID s \<or> se_TokenHash t = se_TokenHash s) (ad_Sessions db)
         \<or> find_user (se_UserID s) db = None \<or> se_ExpiresAt s < se_IdleExpiresAt s
      then None else Some (db\<lparr>ad_Sessions := ad_Sessions db @ [s]\<rparr>))"

definition session_live :: "int \<Rightarrow> SessionRow \<Rightarrow> bool" where
  "session_live now s \<longleftrightarrow> se_RevokedAt s = None \<and> now < se_ExpiresAt s \<and> now < se_IdleExpiresAt s"

definition active_user :: "string \<Rightarrow> AccountDb \<Rightarrow> UserRow option" where
  "active_user i db =
     (case find_user i db of None \<Rightarrow> None | Some u \<Rightarrow> if su_Status u = ''ACTIVE'' then Some u else None)"

definition GetActiveSession :: "int \<Rightarrow> string \<Rightarrow> AccountDb \<Rightarrow> (SessionRow \<times> UserRow) option" where
  "GetActiveSession now hash db =
     (case find (\<lambda>s. se_TokenHash s = hash \<and> session_live now s) (ad_Sessions db) of
        None \<Rightarrow> None
      | Some s \<Rightarrow> map_option (\<lambda>u. (s, u)) (active_user (se_UserID s) db))"

text \<open>\<open>LEAST(expires_at, now() + idle)\<close>, at most once a minute.\<close>

definition TouchSession :: "int \<Rightarrow> int \<Rightarrow> string \<Rightarrow> AccountDb \<Rightarrow> AccountDb" where
  "TouchSession now idleSeconds i db =
     db\<lparr>ad_Sessions := update_where (\<lambda>s. se_ID s = i \<and> se_LastSeenAt s < now - 60 * second)
         (\<lambda>s. s\<lparr>se_LastSeenAt := now, se_IdleExpiresAt := min (se_ExpiresAt s) (now + idleSeconds * second)\<rparr>)
         (ad_Sessions db)\<rparr>"

definition RevokeSession :: "int \<Rightarrow> string \<Rightarrow> AccountDb \<Rightarrow> AccountDb" where
  "RevokeSession now i = revoke_where now (\<lambda>s. se_ID s = i)"

definition RevokeAllUserSessions :: "int \<Rightarrow> string \<Rightarrow> AccountDb \<Rightarrow> AccountDb" where
  "RevokeAllUserSessions now user = revoke_where now (\<lambda>s. se_UserID s = user)"

definition RevokeOwnedSession :: "int \<Rightarrow> string \<Rightarrow> string \<Rightarrow> AccountDb \<Rightarrow> AccountDb option" where
  "RevokeOwnedSession now i user db =
     (if list_ex (\<lambda>s. se_ID s = i \<and> se_UserID s = user) (ad_Sessions db)
      then Some (revoke_where now (\<lambda>s. se_ID s = i \<and> se_UserID s = user) db) else None)"

definition UpdatePasswordAndRevokeOtherSessions :: "int \<Rightarrow> string \<Rightarrow> string \<Rightarrow> string \<Rightarrow> AccountDb \<Rightarrow> AccountDb" where
  "UpdatePasswordAndRevokeOtherSessions now user current hash db =
     revoke_where now (\<lambda>s. se_UserID s = user \<and> se_ID s \<noteq> current) (on_user user (\<lambda>u. u\<lparr>su_PasswordHash := hash\<rparr>) db)"

subsection \<open>Tokens\<close>

definition spend :: "int \<Rightarrow> (TokenRow \<Rightarrow> bool) \<Rightarrow> TokenRow list \<Rightarrow> TokenRow list" where
  "spend now p = update_where (\<lambda>t. p t \<and> tk_UsedAt t = None) (\<lambda>t. t\<lparr>tk_UsedAt := Some now\<rparr>)"

definition InvalidatePasswordResetTokens :: "int \<Rightarrow> string \<Rightarrow> AccountDb \<Rightarrow> AccountDb" where
  "InvalidatePasswordResetTokens now user db =
     db\<lparr>ad_ResetTokens := spend now (\<lambda>t. tk_UserID t = user) (ad_ResetTokens db)\<rparr>"

definition insert_token :: "TokenRow \<Rightarrow> TokenRow list \<Rightarrow> TokenRow list option" where
  "insert_token t rows =
     (if list_ex (\<lambda>r. tk_ID r = tk_ID t \<or> tk_Hash r = tk_Hash t) rows then None else Some (rows @ [t]))"

definition CreatePasswordResetToken :: "TokenRow \<Rightarrow> AccountDb \<Rightarrow> AccountDb option" where
  "CreatePasswordResetToken t db =
     (if find_user (tk_UserID t) db = None then None
      else map_option (\<lambda>rows. db\<lparr>ad_ResetTokens := rows\<rparr>) (insert_token t (ad_ResetTokens db)))"

definition token_open :: "int \<Rightarrow> TokenRow \<Rightarrow> bool" where
  "token_open now t \<longleftrightarrow> tk_UsedAt t = None \<and> now < tk_ExpiresAt t"

definition GetActivePasswordResetToken :: "int \<Rightarrow> string \<Rightarrow> AccountDb \<Rightarrow> (TokenRow \<times> UserRow) option" where
  "GetActivePasswordResetToken now hash db =
     (case find (\<lambda>t. tk_Hash t = hash \<and> token_open now t) (ad_ResetTokens db) of
        None \<Rightarrow> None
      | Some t \<Rightarrow> map_option (\<lambda>u. (t, u)) (active_user (tk_UserID t) db))"

definition MarkPasswordResetTokenUsed :: "int \<Rightarrow> string \<Rightarrow> AccountDb \<Rightarrow> AccountDb" where
  "MarkPasswordResetTokenUsed now i db = db\<lparr>ad_ResetTokens := spend now (\<lambda>t. tk_ID t = i) (ad_ResetTokens db)\<rparr>"

subsection \<open>Permissions\<close>

text \<open>The joins of the permission queries: an assignment, its role, a grant of the role and its permission.\<close>

definition granted ::
  "(AssignmentRow \<Rightarrow> RoleRow \<Rightarrow> GrantRow \<Rightarrow> bool) \<Rightarrow> string \<Rightarrow> string \<Rightarrow> string \<Rightarrow> AccountDb \<Rightarrow> bool" where
  "granted scope user action resource db \<longleftrightarrow>
     list_ex (\<lambda>ur. ur_UserID ur = user \<and>
       list_ex (\<lambda>r. ro_ID r = ur_RoleID ur \<and>
         list_ex (\<lambda>g. gt_RoleID g = ur_RoleID ur \<and> scope ur r g \<and>
           list_ex (\<lambda>p. pm_ID p = gt_PermissionID g \<and> pm_Action p = action \<and> pm_ResourceType p = resource)
             (ad_Permissions db)) (ad_Grants db)) (ad_Roles db)) (ad_Assignments db)"

definition in_org :: "string option \<Rightarrow> string option \<Rightarrow> bool" where
  "in_org org scope \<longleftrightarrow> org = None \<or> org = scope"

definition own_scope :: "AssignmentRow \<Rightarrow> RoleRow \<Rightarrow> GrantRow \<Rightarrow> bool" where
  "own_scope ur r g \<longleftrightarrow> in_org (ro_OrganizationID r) (ur_OrganizationID ur) \<and> in_org (gt_OrganizationID g) (ur_OrganizationID ur)"

definition HasUserPermission :: "string \<Rightarrow> string \<Rightarrow> string \<Rightarrow> AccountDb \<Rightarrow> bool" where
  "HasUserPermission = granted own_scope"

definition HasOrganizationPermission :: "string \<Rightarrow> string \<Rightarrow> string \<Rightarrow> string \<Rightarrow> AccountDb \<Rightarrow> bool" where
  "HasOrganizationPermission user action resource org =
     granted (\<lambda>ur r g. own_scope ur r g \<and> ur_PlantID ur = None \<and> in_org (ur_OrganizationID ur) (Some org))
       user action resource"

definition hasGlobalPermissionQuery :: "string \<Rightarrow> string \<Rightarrow> string \<Rightarrow> AccountDb \<Rightarrow> bool" where
  "hasGlobalPermissionQuery =
     granted (\<lambda>ur r g. ur_OrganizationID ur = None \<and> ro_OrganizationID r = None \<and> gt_OrganizationID g = None)"

definition requireOrganizationPermission :: "string \<Rightarrow> string \<Rightarrow> string \<Rightarrow> string \<Rightarrow> AccountDb \<Rightarrow> AccountError option" where
  "requireOrganizationPermission user action resource org db =
     (if HasOrganizationPermission user action resource org db then None else Some ErrForbidden)"

text \<open>\<open>SELECT DISTINCT resource_type, action\<close>, in the order of the permission table.\<close>

definition ListUserPermissions :: "string \<Rightarrow> AccountDb \<Rightarrow> (string \<times> string) list" where
  "ListUserPermissions user db =
     remdups (map (\<lambda>p. (pm_ResourceType p, pm_Action p))
       (filter (\<lambda>p. HasUserPermission user (pm_Action p) (pm_ResourceType p) db) (ad_Permissions db)))"

definition Permissions :: "string \<Rightarrow> AccountDb \<Rightarrow> string list" where
  "Permissions user db = map (\<lambda>(resource, action). resource @ '':'' @ action) (ListUserPermissions user db)"

lemma granted_iff:
  "granted scope user action resource db \<longleftrightarrow>
     (\<exists>ur \<in> set (ad_Assignments db). \<exists>r \<in> set (ad_Roles db). \<exists>g \<in> set (ad_Grants db). \<exists>p \<in> set (ad_Permissions db).
        ur_UserID ur = user \<and> ro_ID r = ur_RoleID ur \<and> gt_RoleID g = ur_RoleID ur \<and> scope ur r g
        \<and> pm_ID p = gt_PermissionID g \<and> pm_Action p = action \<and> pm_ResourceType p = resource)"
  unfolding granted_def list_ex_iff by blast

lemma granted_cong:
  assumes "ad_Assignments db' = ad_Assignments db" "ad_Roles db' = ad_Roles db" "ad_Grants db' = ad_Grants db"
    "ad_Permissions db' = ad_Permissions db"
  shows "granted scope user action resource db' = granted scope user action resource db"
  using assms by (simp add: granted_def)

end
