(* ===== verification/Accounts.thy ===== *)
theory Accounts
  imports AccountTables
begin

section \<open>auth-service: signing in, sessions, password recovery and registration\<close>

text \<open>
  \<open>auth-service/internal/auth\<close> (service.go, security.go, sessions.go, recovery.go, registration.go) and the session
  check of \<open>httpapi/server.go\<close>. Parameters, in \<open>AccountEnv\<close>: bcrypt (\<open>an_verify\<close>, \<open>an_hash\<close>),
  \<open>hashPresentedToken\<close> (base64 and SHA-256), \<open>mail.ParseAddress\<close>, the row a query without an order returns,
  the timeouts, and the notifiers: \<open>None\<close> is a nil notifier, else whether sending succeeds. What a call draws
  from \<open>crypto/rand\<close> is its \<open>Drawn\<close>. An operation returns the tables and its error; a transaction that fails
  returns the tables it found.
\<close>

record AccountEnv =
  an_verify :: "string \<Rightarrow> string \<Rightarrow> bool"
  an_hash :: "string \<Rightarrow> string"
  an_token :: "string \<Rightarrow> string option"
  an_mail :: "string \<Rightarrow> string option"
  an_pick :: "UserRow list \<Rightarrow> UserRow"
  an_idle :: int
  an_absolute :: int
  an_resetTTL :: int
  an_resetNotifier :: "(string \<Rightarrow> string \<Rightarrow> bool) option"
  an_verificationNotifier :: "(string \<Rightarrow> string \<Rightarrow> bool) option"

record Drawn =
  dr_Token :: string
  dr_Csrf :: string
  dr_ID :: string
  dr_ID2 :: string

definition VerifyPassword :: "AccountEnv \<Rightarrow> string \<Rightarrow> string \<Rightarrow> bool" where
  "VerifyPassword env hash password = an_verify env hash password"

definition HashPassword :: "AccountEnv \<Rightarrow> string \<Rightarrow> string" where
  "HashPassword env password = an_hash env password"

definition ValidateNewPassword :: "string \<Rightarrow> bool" where
  "ValidateNewPassword password \<longleftrightarrow> 12 \<le> length password \<and> length password \<le> 72"

text \<open>The hash \<open>newToken\<close> returns beside a drawn token is the one its presentation is looked up by.\<close>

definition newToken :: "AccountEnv \<Rightarrow> string \<Rightarrow> string \<times> string" where
  "newToken env tok = (tok, case an_token env tok of None \<Rightarrow> [] | Some h \<Rightarrow> h)"

definition hashesEqual :: "AccountEnv \<Rightarrow> string \<Rightarrow> string \<Rightarrow> bool" where
  "hashesEqual env expected token \<longleftrightarrow> an_token env token = Some expected"

text \<open>A transaction that ends with a failed statement is rolled back.\<close>

definition tx_end :: "AccountDb \<Rightarrow> AccountDb option \<Rightarrow> AccountDb \<times> AccountError option" where
  "tx_end db r = (case r of None \<Rightarrow> (db, Some ErrStatement) | Some db' \<Rightarrow> (db', None))"

subsection \<open>Signing in\<close>

record LoginInput =
  li_Identifier :: string
  li_Password :: string
  li_UserAgent :: string
  li_SourceIP :: "string option"

record LoginResult =
  lr_Token :: string
  lr_CSRFToken :: string
  lr_ExpiresAt :: int
  lr_UserID :: string
  lr_OrganizationID :: "string option"
  lr_Email :: string
  lr_DisplayName :: string
  lr_Permissions :: "string list"

text \<open>
  \<open>Login\<close> reads outside of a transaction and then writes in one; what it has decided to write is its plan.
  Between the two, other calls may run.
\<close>

datatype LoginPlan =
    Refuse AccountError
  | LoginFailed "UserRow option" bool
  | LoginPassed UserRow

definition maxRecentFailures :: nat where
  "maxRecentFailures = 10"

definition classifyLoginStatus :: "string \<Rightarrow> int option \<Rightarrow> AccountError option" where
  "classifyLoginStatus status verifiedAt =
     (if verifiedAt = None then Some ErrEmailUnverified
      else if status = ''PENDING_ACCESS'' then Some ErrAccessPending
      else if status = ''DISABLED'' then Some ErrAccountDisabled
      else if status = ''ACTIVE'' then None
      else Some ErrAccountDisabled)"

definition login_identifier :: "LoginInput \<Rightarrow> string" where
  "login_identifier input = to_lower (trim_space (li_Identifier input))"

definition locked :: "int \<Rightarrow> UserRow \<Rightarrow> bool" where
  "locked now u = (case su_LockedUntil u of None \<Rightarrow> False | Some t \<Rightarrow> now < t)"

definition login_read :: "AccountEnv \<Rightarrow> int \<Rightarrow> LoginInput \<Rightarrow> AccountDb \<Rightarrow> LoginPlan" where
  "login_read env now input db =
     (let identifier = login_identifier input in
      if identifier = [] \<or> li_Password input = [] then Refuse ErrInvalidCredentials
      else if maxRecentFailures \<le> CountRecentFailedAuthAttempts now identifier (li_SourceIP input) db
      then Refuse ErrRateLimited
      else
        (case GetLoginUser (an_pick env) identifier db of
           None \<Rightarrow> LoginFailed None False
         | Some u \<Rightarrow>
             if locked now u then LoginFailed (Some u) False
             else if \<not> VerifyPassword env (su_PasswordHash u) (li_Password input) then LoginFailed (Some u) True
             else (case classifyLoginStatus (su_Status u) (su_VerifiedAt u) of
                     Some err \<Rightarrow> Refuse err
                   | None \<Rightarrow> LoginPassed u)))"

definition recordFailure ::
  "int \<Rightarrow> UserRow option \<Rightarrow> LoginInput \<Rightarrow> bool \<Rightarrow> AccountDb \<Rightarrow> AccountDb \<times> AccountError" where
  "recordFailure now user input increment db =
     (let db1 = RecordAuthAttempt now (login_identifier input) (li_SourceIP input) False db in
      case user of
        None \<Rightarrow> (CreateAuditEvent None None ''auth.login.failed'' ''app_user'' None db1, ErrInvalidCredentials)
      | Some u \<Rightarrow>
          (case (if increment then RecordLoginFailure now (su_ID u) db1 else Some db1) of
             None \<Rightarrow> (db, ErrStatement)
           | Some db2 \<Rightarrow>
               (CreateAuditEvent (su_OrganizationID u) None ''auth.login.failed'' ''app_user'' (Some (su_ID u)) db2,
                ErrInvalidCredentials)))"

definition new_session :: "AccountEnv \<Rightarrow> int \<Rightarrow> Drawn \<Rightarrow> UserRow \<Rightarrow> LoginInput \<Rightarrow> SessionRow" where
  "new_session env now draw u input =
     \<lparr>se_ID = dr_ID draw, se_OrganizationID = su_OrganizationID u, se_UserID = su_ID u,
      se_TokenHash = snd (newToken env (dr_Token draw)), se_CsrfHash = snd (newToken env (dr_Csrf draw)),
      se_ExpiresAt = now + an_absolute env, se_IdleExpiresAt = min (now + an_absolute env) (now + an_idle env),
      se_LastSeenAt = now, se_RevokedAt = None, se_ClientIP = li_SourceIP input, se_UserAgent = li_UserAgent input\<rparr>"

definition recordSuccess ::
  "AccountEnv \<Rightarrow> int \<Rightarrow> Drawn \<Rightarrow> UserRow \<Rightarrow> LoginInput \<Rightarrow> AccountDb \<Rightarrow> AccountDb \<times> (AccountError + LoginResult)" where
  "recordSuccess env now draw u input db =
     (case CreateUserSession (new_session env now draw u input)
             (RecordAuthAttempt now (su_Email u) (li_SourceIP input) True (RecordLoginSuccess (su_ID u) db)) of
        None \<Rightarrow> (db, Inl ErrStatement)
      | Some db1 \<Rightarrow>
          let db2 = CreateAuditEvent (su_OrganizationID u) (Some (su_ID u)) ''auth.login.succeeded'' ''app_user''
                      (Some (su_ID u)) db1
          in (db2, Inr \<lparr>lr_Token = dr_Token draw, lr_CSRFToken = dr_Csrf draw, lr_ExpiresAt = now + an_absolute env,
                 lr_UserID = su_ID u, lr_OrganizationID = su_OrganizationID u, lr_Email = su_Email u,
                 lr_DisplayName = su_DisplayName u, lr_Permissions = Permissions (su_ID u) db2\<rparr>))"

definition login_write ::
  "AccountEnv \<Rightarrow> int \<Rightarrow> Drawn \<Rightarrow> LoginInput \<Rightarrow> LoginPlan \<Rightarrow> AccountDb \<Rightarrow> AccountDb \<times> (AccountError + LoginResult)" where
  "login_write env now draw input plan db =
     (case plan of
        Refuse err \<Rightarrow> (db, Inl err)
      | LoginFailed user increment \<Rightarrow> map_prod id Inl (recordFailure now user input increment db)
      | LoginPassed u \<Rightarrow> recordSuccess env now draw u input db)"

definition Login ::
  "AccountEnv \<Rightarrow> int \<Rightarrow> Drawn \<Rightarrow> LoginInput \<Rightarrow> AccountDb \<Rightarrow> AccountDb \<times> (AccountError + LoginResult)" where
  "Login env now draw input db = login_write env now draw input (login_read env now input db) db"

subsection \<open>Authenticated requests\<close>

record Principal =
  pr_SessionID :: string
  pr_OrganizationID :: "string option"
  pr_UserID :: string
  pr_Email :: string
  pr_DisplayName :: string
  pr_PasswordHash :: string
  pr_CsrfHash :: string

definition Authenticate :: "AccountEnv \<Rightarrow> int \<Rightarrow> string \<Rightarrow> AccountDb \<Rightarrow> AccountDb \<times> (AccountError + Principal)" where
  "Authenticate env now token db =
     (case an_token env token of
        None \<Rightarrow> (db, Inl ErrUnauthenticated)
      | Some hash \<Rightarrow>
          (case GetActiveSession now hash db of
             None \<Rightarrow> (db, Inl ErrUnauthenticated)
           | Some (s, u) \<Rightarrow>
               (TouchSession now (an_idle env div second) (se_ID s) db,
                Inr \<lparr>pr_SessionID = se_ID s, pr_OrganizationID = se_OrganizationID s, pr_UserID = se_UserID s,
                  pr_Email = su_Email u, pr_DisplayName = su_DisplayName u, pr_PasswordHash = su_PasswordHash u,
                  pr_CsrfHash = se_CsrfHash s\<rparr>)))"

definition ValidCSRF :: "AccountEnv \<Rightarrow> Principal \<Rightarrow> string \<Rightarrow> bool" where
  "ValidCSRF env p token = hashesEqual env (pr_CsrfHash p) token"

text \<open>The wrapper of every handler that acts for a user; a refusal is its HTTP status.\<close>

definition authenticated ::
  "AccountEnv \<Rightarrow> int \<Rightarrow> bool \<Rightarrow> string option \<Rightarrow> string \<Rightarrow> AccountDb \<Rightarrow> AccountDb \<times> (nat + Principal)" where
  "authenticated env now csrfRequired cookie header db =
     (case cookie of
        None \<Rightarrow> (db, Inl 401)
      | Some token \<Rightarrow>
          (case Authenticate env now token db of
             (db', Inl err) \<Rightarrow> (db', Inl (if err = ErrUnauthenticated then 401 else 500))
           | (db', Inr p) \<Rightarrow>
               if csrfRequired \<and> \<not> ValidCSRF env p header then (db', Inl 403) else (db', Inr p)))"

definition createPrincipalAudit :: "Principal \<Rightarrow> string \<Rightarrow> AccountDb \<Rightarrow> AccountDb" where
  "createPrincipalAudit p action =
     CreateAuditEvent (pr_OrganizationID p) (Some (pr_UserID p)) action ''app_user'' (Some (pr_UserID p))"

definition sessionAction :: "Principal \<Rightarrow> string \<Rightarrow> (AccountDb \<Rightarrow> AccountDb) \<Rightarrow> AccountDb \<Rightarrow> AccountDb \<times> AccountError option" where
  "sessionAction p action apply_it db = (createPrincipalAudit p action (apply_it db), None)"

definition Logout :: "int \<Rightarrow> Principal \<Rightarrow> AccountDb \<Rightarrow> AccountDb \<times> AccountError option" where
  "Logout now p = sessionAction p ''auth.logout'' (RevokeSession now (pr_SessionID p))"

definition LogoutAll :: "int \<Rightarrow> Principal \<Rightarrow> AccountDb \<Rightarrow> AccountDb \<times> AccountError option" where
  "LogoutAll now p = sessionAction p ''auth.logout_all'' (RevokeAllUserSessions now (pr_UserID p))"

definition ChangePassword ::
  "AccountEnv \<Rightarrow> int \<Rightarrow> Principal \<Rightarrow> string \<Rightarrow> string \<Rightarrow> AccountDb \<Rightarrow> AccountDb \<times> AccountError option" where
  "ChangePassword env now p currentPassword newPassword db =
     (if \<not> VerifyPassword env (pr_PasswordHash p) currentPassword then (db, Some ErrInvalidCurrentPassword)
      else if \<not> ValidateNewPassword newPassword then (db, Some ErrWeakPassword)
      else (createPrincipalAudit p ''auth.password.changed''
              (UpdatePasswordAndRevokeOtherSessions now (pr_UserID p) (pr_SessionID p) (HashPassword env newPassword) db),
            None))"

definition RevokeOwnSession ::
  "int \<Rightarrow> Principal \<Rightarrow> string \<Rightarrow> AccountDb \<Rightarrow> AccountDb \<times> (AccountError + bool)" where
  "RevokeOwnSession now p sessionID db =
     (case RevokeOwnedSession now sessionID (pr_UserID p) db of
        None \<Rightarrow> (db, Inl ErrSessionNotFound)
      | Some db1 \<Rightarrow>
          (CreateAuditEvent (pr_OrganizationID p) (Some (pr_UserID p)) ''auth.session.revoked'' ''user_session''
             (Some sessionID) db1, Inr (sessionID = pr_SessionID p)))"

definition ClearOwnSessions :: "Principal \<Rightarrow> string \<Rightarrow> AccountDb \<Rightarrow> AccountDb \<times> AccountError option" where
  "ClearOwnSessions p confirmation db =
     (if confirmation \<noteq> ''DELETE'' \<and> confirmation \<noteq> ''DELETE ALL SESSIONS'' then (db, Some ErrSessionConfirmation)
      else
        let db1 = createPrincipalAudit p ''auth.sessions.cleared'' db
        in (db1\<lparr>ad_Sessions := filter (\<lambda>s. se_UserID s \<noteq> pr_UserID p) (ad_Sessions db1)\<rparr>, None))"

subsection \<open>Password recovery\<close>

definition maxResetRequests :: nat where
  "maxResetRequests = 5"

definition maxResetAttempts :: nat where
  "maxResetAttempts = 10"

definition new_reset_token :: "AccountEnv \<Rightarrow> int \<Rightarrow> Drawn \<Rightarrow> UserRow \<Rightarrow> string option \<Rightarrow> TokenRow" where
  "new_reset_token env now draw u ip =
     \<lparr>tk_ID = dr_ID draw, tk_OrganizationID = su_OrganizationID u, tk_UserID = su_ID u,
      tk_Hash = snd (newToken env (dr_Token draw)), tk_ExpiresAt = now + an_resetTTL env, tk_UsedAt = None,
      tk_RequestedIP = ip\<rparr>"

definition request_tx ::
  "AccountEnv \<Rightarrow> int \<Rightarrow> Drawn \<Rightarrow> UserRow \<Rightarrow> string \<Rightarrow> string option \<Rightarrow> AccountDb \<Rightarrow> AccountDb option" where
  "request_tx env now draw u email ip db =
     (case CreatePasswordResetToken (new_reset_token env now draw u ip) (InvalidatePasswordResetTokens now (su_ID u) db) of
        None \<Rightarrow> None
      | Some db1 \<Rightarrow>
          map_option (CreateAuditEvent (su_OrganizationID u) None ''auth.password_reset.requested'' ''app_user'' (Some (su_ID u)))
            (RecordPasswordRecoveryAttempt now ''REQUEST'' email ip True db1))"

definition RequestPasswordReset ::
  "AccountEnv \<Rightarrow> int \<Rightarrow> Drawn \<Rightarrow> string \<Rightarrow> string option \<Rightarrow> AccountDb \<Rightarrow> AccountDb \<times> AccountError option" where
  "RequestPasswordReset env now draw email ip db =
     (let email = to_lower (trim_space email); unknown = tx_end db (RecordPasswordRecoveryAttempt now ''REQUEST'' email ip False db)
      in if email = [] \<or> 320 < length email then (db, None)
         else if maxResetRequests \<le> CountRecentPasswordRecoveryAttempts now ''REQUEST'' email ip db then (db, None)
         else
           (case GetPasswordResetUser email db of
              None \<Rightarrow> unknown
            | Some u \<Rightarrow>
                if su_Status u \<noteq> ''ACTIVE'' then unknown
                else (case an_resetNotifier env of
                        None \<Rightarrow> unknown
                      | Some notify \<Rightarrow>
                          (case request_tx env now draw u email ip db of
                             None \<Rightarrow> (db, Some ErrStatement)
                           | Some db1 \<Rightarrow>
                               (db1, if notify (su_Email u) (dr_Token draw) then None else Some ErrStatement)))))"

definition recordResetAttempt :: "int \<Rightarrow> string option \<Rightarrow> bool \<Rightarrow> AccountDb \<Rightarrow> AccountDb option" where
  "recordResetAttempt now ip success = RecordPasswordRecoveryAttempt now ''RESET'' [] ip success"

definition reset_tx ::
  "int \<Rightarrow> TokenRow \<Rightarrow> UserRow \<Rightarrow> string \<Rightarrow> string option \<Rightarrow> AccountDb \<Rightarrow> AccountDb option" where
  "reset_tx now t u hash ip db =
     (let db1 = MarkPasswordResetTokenUsed now (tk_ID t) db;
          db1 = UpdateUserPassword hash (tk_UserID t) db1;
          db1 = RevokeAllUserSessions now (tk_UserID t) db1
      in map_option (CreateAuditEvent (tk_OrganizationID t) None ''auth.password_reset.completed'' ''app_user'' (Some (tk_UserID t)))
           (RecordPasswordRecoveryAttempt now ''RESET'' (su_Email u) ip True db1))"

definition ResetPassword ::
  "AccountEnv \<Rightarrow> int \<Rightarrow> string \<Rightarrow> string \<Rightarrow> string option \<Rightarrow> AccountDb \<Rightarrow> AccountDb \<times> AccountError option" where
  "ResetPassword env now token newPassword ip db =
     (if \<not> ValidateNewPassword newPassword then (db, Some ErrWeakPassword)
      else if maxResetAttempts \<le> CountRecentPasswordRecoveryAttempts now ''RESET'' [] ip db then (db, Some ErrRateLimited)
      else
        (case an_token env token of
           None \<Rightarrow>
             (case recordResetAttempt now ip False db of
                None \<Rightarrow> (db, Some ErrInvalidResetToken)
              | Some db1 \<Rightarrow> (db1, Some ErrInvalidResetToken))
         | Some hash \<Rightarrow>
             (case GetActivePasswordResetToken now hash db of
                None \<Rightarrow>
                  (case recordResetAttempt now ip False db of
                     None \<Rightarrow> (db, Some ErrStatement)
                   | Some db1 \<Rightarrow> (db1, Some ErrInvalidResetToken))
              | Some (t, u) \<Rightarrow>
                  if maxResetAttempts \<le> CountRecentPasswordRecoveryAttempts now ''RESET'' (su_Email u) ip db
                  then (db, Some ErrRateLimited)
                  else tx_end db (reset_tx now t u (HashPassword env newPassword) ip db))))"

subsection \<open>Registration\<close>

record RegisterInput =
  ri_Email :: string
  ri_Username :: string
  ri_DisplayName :: string
  ri_Password :: string

definition validEmail :: "AccountEnv \<Rightarrow> string \<Rightarrow> bool" where
  "validEmail env value \<longleftrightarrow> an_mail env value = Some value \<and> CHR ''@'' \<in> set value \<and> length value \<le> 320"

definition validRegistrationInput :: "AccountEnv \<Rightarrow> string \<Rightarrow> string \<Rightarrow> string \<Rightarrow> string \<Rightarrow> bool" where
  "validRegistrationInput env email username displayName password \<longleftrightarrow>
     validEmail env email \<and> length username \<le> 100 \<and> 0 < length displayName \<and> length displayName \<le> 200
     \<and> ValidateNewPassword password"

text \<open>The unique keys of \<open>app_user\<close>, without the row of the user itself on an update.\<close>

definition user_taken :: "UserRow \<Rightarrow> UserRow list \<Rightarrow> bool" where
  "user_taken u rows \<longleftrightarrow>
     list_ex (\<lambda>v. su_Email v = su_Email u \<or> su_Username u \<noteq> None \<and> su_Username v = su_Username u) rows"

definition organization_known :: "string option \<Rightarrow> AccountDb \<Rightarrow> bool" where
  "organization_known org db = (case org of None \<Rightarrow> True | Some i \<Rightarrow> find_organization i db \<noteq> None)"

definition insert_user :: "UserRow \<Rightarrow> AccountDb \<Rightarrow> AccountError + AccountDb" where
  "insert_user u db =
     (if user_taken u (ad_Users db) \<or> find_user (su_ID u) db \<noteq> None then Inl ErrUserConflict
      else if \<not> organization_known (su_OrganizationID u) db then Inl ErrUserInvalid
      else Inr (db\<lparr>ad_Users := ad_Users db @ [u]\<rparr>))"

definition optional_text :: "string \<Rightarrow> string option" where
  "optional_text value = (if value = [] then None else Some value)"

definition registered_user :: "AccountEnv \<Rightarrow> Drawn \<Rightarrow> string \<Rightarrow> string \<Rightarrow> string \<Rightarrow> string \<Rightarrow> UserRow" where
  "registered_user env draw email username displayName password =
     \<lparr>su_ID = dr_ID draw, su_OrganizationID = None, su_Email = email, su_Username = optional_text username,
      su_DisplayName = displayName, su_PasswordHash = HashPassword env password, su_Status = ''PENDING_ACCESS'',
      su_VerifiedAt = None, su_Failed = 0, su_LockedUntil = None\<rparr>"

definition verification_token :: "AccountEnv \<Rightarrow> int \<Rightarrow> Drawn \<Rightarrow> string \<Rightarrow> string option \<Rightarrow> string option \<Rightarrow> TokenRow" where
  "verification_token env now draw user org ip =
     \<lparr>tk_ID = dr_ID2 draw, tk_OrganizationID = org, tk_UserID = user, tk_Hash = snd (newToken env (dr_Token draw)),
      tk_ExpiresAt = now + an_resetTTL env, tk_UsedAt = None, tk_RequestedIP = ip\<rparr>"

definition Register ::
  "AccountEnv \<Rightarrow> int \<Rightarrow> Drawn \<Rightarrow> RegisterInput \<Rightarrow> string option \<Rightarrow> AccountDb \<Rightarrow> AccountDb \<times> AccountError option" where
  "Register env now draw input ip db =
     (case an_verificationNotifier env of
        None \<Rightarrow> (db, Some ErrRegistrationUnavailable)
      | Some notify \<Rightarrow>
          let email = to_lower (trim_space (ri_Email input)); username = to_lower (trim_space (ri_Username input));
              displayName = trim_space (ri_DisplayName input)
          in if \<not> validRegistrationInput env email username displayName (ri_Password input)
             then (db, Some ErrRegistrationInvalid)
             else
               (case insert_user (registered_user env draw email username displayName (ri_Password input)) db of
                  Inl err \<Rightarrow> (db, Some (if err = ErrUserConflict then ErrRegistrationConflict else ErrStatement))
                | Inr db1 \<Rightarrow>
                    (case insert_token (verification_token env now draw (dr_ID draw) None ip) (ad_VerifyTokens db1) of
                       None \<Rightarrow> (db, Some ErrStatement)
                     | Some tokens \<Rightarrow>
                         (db1\<lparr>ad_VerifyTokens := tokens\<rparr>, if notify email (dr_Token draw) then None else Some ErrStatement))))"

definition VerifyEmail :: "AccountEnv \<Rightarrow> int \<Rightarrow> string \<Rightarrow> AccountDb \<Rightarrow> AccountDb \<times> AccountError option" where
  "VerifyEmail env now token db =
     (case an_token env token of
        None \<Rightarrow> (db, Some ErrEmailVerificationToken)
      | Some hash \<Rightarrow>
          (case find (\<lambda>t. tk_Hash t = hash \<and> token_open now t) (ad_VerifyTokens db) of
             None \<Rightarrow> (db, Some ErrEmailVerificationToken)
           | Some t \<Rightarrow>
               (on_user (tk_UserID t) (\<lambda>u. u\<lparr>su_VerifiedAt := Some now\<rparr>)
                  (db\<lparr>ad_VerifyTokens := spend now (\<lambda>r. tk_ID r = tk_ID t) (ad_VerifyTokens db)\<rparr>), None)))"

definition normalizeVerificationIdentifier :: "string \<Rightarrow> string" where
  "normalizeVerificationIdentifier value = to_lower (trim_space value)"

text \<open>Every statement of \<open>ResendVerification\<close> commits on its own.\<close>

definition resend_token ::
  "AccountEnv \<Rightarrow> int \<Rightarrow> Drawn \<Rightarrow> (string \<Rightarrow> string \<Rightarrow> bool) \<Rightarrow> UserRow \<Rightarrow> AccountDb \<Rightarrow> AccountDb \<times> AccountError option" where
  "resend_token env now draw notify u db =
     (let db1 = db\<lparr>ad_VerifyTokens := spend now (\<lambda>t. tk_UserID t = su_ID u) (ad_VerifyTokens db)\<rparr> in
      case insert_token (verification_token env now draw (su_ID u) (su_OrganizationID u) None) (ad_VerifyTokens db1) of
        None \<Rightarrow> (db1, Some ErrStatement)
      | Some tokens \<Rightarrow>
          (db1\<lparr>ad_VerifyTokens := tokens\<rparr>, if notify (su_Email u) (dr_Token draw) then None else Some ErrStatement))"

definition ResendVerification ::
  "AccountEnv \<Rightarrow> int \<Rightarrow> Drawn \<Rightarrow> string \<Rightarrow> string option \<Rightarrow> AccountDb \<Rightarrow> AccountDb \<times> AccountError option" where
  "ResendVerification env now draw identifier ip db =
     (case an_verificationNotifier env of
        None \<Rightarrow> (db, Some ErrRegistrationUnavailable)
      | Some notify \<Rightarrow>
          let identifier = normalizeVerificationIdentifier identifier in
          if identifier = [] then (db, None)
          else if maxRecentFailures \<le> CountRecentPasswordRecoveryAttempts now ''VERIFY'' identifier ip db
          then (db, Some ErrRateLimited)
          else
            (case RecordPasswordRecoveryAttempt now ''VERIFY'' identifier ip False db of
               None \<Rightarrow> (db, Some ErrStatement)
             | Some db1 \<Rightarrow>
                 let waiting = filter (\<lambda>u. (su_Email u = identifier \<or> su_Username u = Some identifier)
                                   \<and> su_Status u = ''PENDING_ACCESS'') (ad_Users db1)
                 in if waiting = [] then (db1, None)
                    else
                      let u = an_pick env waiting
                      in if su_VerifiedAt u \<noteq> None then (db1, None) else resend_token env now draw notify u db1))"

end
