(* ===== verification/AccountAdmin.thy ===== *)
theory AccountAdmin
  imports Accounts
begin

section \<open>auth-service: administration of users, roles and organizations\<close>

text \<open>
  \<open>auth-service/internal/core\<close> (users.go, roles.go, organizations.go, profile.go, helpers.go) and the first
  administrator of \<open>platform-api/internal/bootstrap\<close>. Every operation acts for a principal and is one
  transaction. An id argument is the text of a parsed UUID, an optional one \<open>None\<close> where it is blank.
\<close>

definition systemAdminRoleName :: string where
  "systemAdminRoleName = ''System Admin''"

definition audit_admin :: "Principal \<Rightarrow> string option \<Rightarrow> string \<Rightarrow> string \<Rightarrow> string \<Rightarrow> AccountDb \<Rightarrow> AccountDb" where
  "audit_admin p org action targetType target =
     CreateAuditEvent org (Some (pr_UserID p)) action targetType (Some target)"

subsection \<open>Inputs\<close>

record UpdateUserInput =
  uu_OrganizationID :: "string option"
  uu_Email :: string
  uu_Username :: string
  uu_DisplayName :: string
  uu_RoleID :: string
  uu_IsActive :: bool

record CreateUserInput =
  cu_OrganizationID :: "string option"
  cu_Email :: string
  cu_Username :: string
  cu_DisplayName :: string
  cu_Password :: string
  cu_RoleID :: string

text \<open>\<open>strings.ContainsAny(username, " \t\r\n")\<close>.\<close>

definition has_blank :: "string \<Rightarrow> bool" where
  "has_blank s \<longleftrightarrow> list_ex (\<lambda>c. c \<in> {CHR '' '', CHR 0x09, CHR 0x0D, CHR 0x0A}) s"

definition validateUserProfile ::
  "AccountEnv \<Rightarrow> string \<Rightarrow> string \<Rightarrow> string \<Rightarrow> AccountError + string \<times> string \<times> string" where
  "validateUserProfile env email username displayName =
     (let email = to_lower (trim_space email) in
      if an_mail env email \<noteq> Some email \<or> 320 < length email then Inl ErrUserInvalid
      else
        let username = to_lower (trim_space username) in
        if has_blank username \<or> 100 < length username then Inl ErrUserInvalid
        else
          let displayName = trim_space displayName in
          if displayName = [] \<or> 200 < length displayName then Inl ErrUserInvalid
          else Inr (email, username, displayName))"

definition validateUserInput ::
  "AccountEnv \<Rightarrow> string \<Rightarrow> string \<Rightarrow> string \<Rightarrow> string \<Rightarrow> AccountError + string \<times> string \<times> string" where
  "validateUserInput env email username displayName password =
     (case validateUserProfile env email username displayName of
        Inl err \<Rightarrow> Inl ErrUserInvalid
      | Inr r \<Rightarrow> if ValidateNewPassword password then Inr r else Inl ErrUserInvalid)"

subsection \<open>Roles of a user\<close>

text \<open>The role names of a user, in the order of the assignments; the code sorts them.\<close>

definition userRoles :: "string \<Rightarrow> AccountDb \<Rightarrow> string list" where
  "userRoles i db =
     concat (map (\<lambda>a. if ur_UserID a = i then map ro_Name (filter (\<lambda>r. ro_ID r = ur_RoleID a) (ad_Roles db)) else [])
       (ad_Assignments db))"

definition hasRole :: "string list \<Rightarrow> string \<Rightarrow> bool" where
  "hasRole roles name = list_ex (\<lambda>r. r = name) roles"

definition canResetUserPassword :: "string list \<Rightarrow> bool \<Rightarrow> bool" where
  "canResetUserPassword targetRoles actorHasGlobalPermission \<longleftrightarrow>
     \<not> hasRole targetRoles systemAdminRoleName \<or> actorHasGlobalPermission"

definition system_admin :: "string \<Rightarrow> AccountDb \<Rightarrow> bool" where
  "system_admin i db \<longleftrightarrow>
     list_ex (\<lambda>a. ur_UserID a = i \<and> ur_OrganizationID a = None \<and>
       list_ex (\<lambda>r. ro_ID r = ur_RoleID a \<and> ro_OrganizationID r = None \<and> ro_Name r = systemAdminRoleName) (ad_Roles db))
       (ad_Assignments db)"

definition isLastActivePlatformAdmin :: "string \<Rightarrow> AccountDb \<Rightarrow> bool" where
  "isLastActivePlatformAdmin excluded db \<longleftrightarrow>
     \<not> list_ex (\<lambda>u. su_Status u = ''ACTIVE'' \<and> su_ID u \<noteq> excluded \<and> system_admin (su_ID u) db) (ad_Users db)"

definition authorizedRoleName :: "Principal \<Rightarrow> string \<Rightarrow> string \<Rightarrow> AccountDb \<Rightarrow> AccountError + string" where
  "authorizedRoleName p org roleID db =
     (case find_role roleID db of
        None \<Rightarrow> Inl ErrUserInvalid
      | Some r \<Rightarrow>
          if \<not> in_org (ro_OrganizationID r) (Some org) then Inl ErrUserInvalid
          else if ro_Name r = systemAdminRoleName \<and> \<not> hasGlobalPermissionQuery (pr_UserID p) ''assign'' ''role'' db
          then Inl ErrForbidden
          else Inr (ro_Name r))"

text \<open>
  The unique index of unscoped assignments, and the foreign keys, of which one ties the organization of an
  assignment to that of its user.
\<close>

definition insert_assignment :: "AssignmentRow \<Rightarrow> AccountDb \<Rightarrow> AccountError + AccountDb" where
  "insert_assignment a db =
     (if list_ex (\<lambda>b. ur_ID b = ur_ID a
           \<or> ur_UserID b = ur_UserID a \<and> ur_RoleID b = ur_RoleID a \<and> ur_PlantID b = None) (ad_Assignments db)
      then Inl ErrUserConflict
      else
        (case find_user (ur_UserID a) db of
           None \<Rightarrow> Inl ErrUserInvalid
         | Some u \<Rightarrow>
             if find_role (ur_RoleID a) db = None \<or> \<not> organization_known (ur_OrganizationID a) db
                \<or> \<not> in_org (ur_OrganizationID a) (su_OrganizationID u)
             then Inl ErrUserInvalid
             else Inr (db\<lparr>ad_Assignments := ad_Assignments db @ [a]\<rparr>)))"

definition baseline_role :: "string \<Rightarrow> string \<Rightarrow> string \<Rightarrow> string \<Rightarrow> string \<Rightarrow> AssignmentRow" where
  "baseline_role i org user roleID roleName =
     \<lparr>ur_ID = i, ur_OrganizationID = (if roleName = systemAdminRoleName then None else Some org), ur_UserID = user,
      ur_RoleID = roleID, ur_PlantID = None\<rparr>"

subsection \<open>Users\<close>

definition created_user :: "AccountEnv \<Rightarrow> int \<Rightarrow> Drawn \<Rightarrow> string \<Rightarrow> string \<times> string \<times> string \<Rightarrow> string \<Rightarrow> UserRow" where
  "created_user env now draw org profile password =
     (case profile of (email, username, displayName) \<Rightarrow>
        \<lparr>su_ID = dr_ID draw, su_OrganizationID = Some org, su_Email = email, su_Username = optional_text username,
         su_DisplayName = displayName, su_PasswordHash = HashPassword env password, su_Status = ''ACTIVE'',
         su_VerifiedAt = Some now, su_Failed = 0, su_LockedUntil = None\<rparr>)"

definition require_all :: "Principal \<Rightarrow> (string \<times> string) list \<Rightarrow> string \<Rightarrow> AccountDb \<Rightarrow> bool" where
  "require_all p needed org db \<longleftrightarrow>
     list_all (\<lambda>(action, resource). requireOrganizationPermission (pr_UserID p) action resource org db = None) needed"

definition CreateUser ::
  "AccountEnv \<Rightarrow> int \<Rightarrow> Drawn \<Rightarrow> Principal \<Rightarrow> CreateUserInput \<Rightarrow> AccountDb \<Rightarrow> AccountDb \<times> AccountError option" where
  "CreateUser env now draw p input db =
     (case (validateUserInput env (cu_Email input) (cu_Username input) (cu_DisplayName input) (cu_Password input),
            if cu_OrganizationID input = None then pr_OrganizationID p else cu_OrganizationID input) of
        (Inr profile, Some org) \<Rightarrow>
          if \<not> require_all p [(''create'', ''user''), (''assign'', ''role'')] org db then (db, Some ErrForbidden)
          else
            (case authorizedRoleName p org (cu_RoleID input) db of
               Inl err \<Rightarrow> (db, Some err)
             | Inr roleName \<Rightarrow>
                 (case insert_user (created_user env now draw org profile (cu_Password input)) db of
                    Inl err \<Rightarrow> (db, Some err)
                  | Inr db1 \<Rightarrow>
                      (case insert_assignment (baseline_role (dr_ID2 draw) org (dr_ID draw) (cu_RoleID input) roleName) db1 of
                         Inl err \<Rightarrow> (db, Some err)
                       | Inr db2 \<Rightarrow> (audit_admin p (Some org) ''user.created'' ''app_user'' (dr_ID draw) db2, None))))
      | _ \<Rightarrow> (db, Some ErrUserInvalid))"

text \<open>
  \<open>UPDATE auth.app_user\<close> with a new organization fails while an assignment of the user still names the old
  one.
\<close>

definition update_user :: "string \<Rightarrow> (UserRow \<Rightarrow> UserRow) \<Rightarrow> UserRow \<Rightarrow> AccountDb \<Rightarrow> AccountError + AccountDb" where
  "update_user i f before db =
     (if user_taken (f before) (filter (\<lambda>v. su_ID v \<noteq> i) (ad_Users db)) then Inl ErrUserConflict
      else if \<not> organization_known (su_OrganizationID (f before)) db
         \<or> list_ex (\<lambda>a. ur_UserID a = i \<and> \<not> in_org (ur_OrganizationID a) (su_OrganizationID (f before))) (ad_Assignments db)
      then Inl ErrUserInvalid
      else Inr (on_user i f db))"

definition changed_user :: "UpdateUserInput \<Rightarrow> string \<Rightarrow> string \<times> string \<times> string \<Rightarrow> UserRow \<Rightarrow> UserRow" where
  "changed_user input org profile u =
     (case profile of (email, username, displayName) \<Rightarrow>
        u\<lparr>su_OrganizationID := Some org, su_Email := email, su_Username := optional_text username,
          su_DisplayName := displayName, su_Status := (if uu_IsActive input then ''ACTIVE'' else ''DISABLED'')\<rparr>)"

text \<open>Moving a user between organizations, or out of none, is for callers with the global permission.\<close>

definition update_allowed :: "Principal \<Rightarrow> UserRow \<Rightarrow> string \<Rightarrow> AccountDb \<Rightarrow> bool" where
  "update_allowed p before org db \<longleftrightarrow>
     (if su_OrganizationID before = Some org
      then requireOrganizationPermission (pr_UserID p) ''update'' ''user'' org db = None
      else hasGlobalPermissionQuery (pr_UserID p) ''update'' ''user'' db)"

definition replace_role ::
  "int \<Rightarrow> Drawn \<Rightarrow> UpdateUserInput \<Rightarrow> string \<Rightarrow> string \<Rightarrow> string \<times> string \<times> string \<Rightarrow> UserRow \<Rightarrow> AccountDb \<Rightarrow>
     AccountError + AccountDb" where
  "replace_role now draw input org roleName profile before db =
     (let i = su_ID before;
          db1 = db\<lparr>ad_Assignments := filter (\<lambda>a. \<not> (ur_UserID a = i \<and> ur_PlantID a = None)) (ad_Assignments db)\<rparr> in
      case update_user i (changed_user input org profile) before db1 of
        Inl err \<Rightarrow> Inl err
      | Inr db2 \<Rightarrow>
          (case insert_assignment (baseline_role (dr_ID2 draw) org i (uu_RoleID input) roleName) db2 of
             Inl err \<Rightarrow> Inl err
           | Inr db3 \<Rightarrow> Inr (if uu_IsActive input then db3 else RevokeAllUserSessions now i db3)))"

definition UpdateUser ::
  "AccountEnv \<Rightarrow> int \<Rightarrow> Drawn \<Rightarrow> Principal \<Rightarrow> string \<Rightarrow> UpdateUserInput \<Rightarrow> AccountDb \<Rightarrow> AccountDb \<times> AccountError option" where
  "UpdateUser env now draw p i input db =
     (if i = pr_UserID p then (db, Some ErrUserInvalid)
      else
     (case validateUserProfile env (uu_Email input) (uu_Username input) (uu_DisplayName input) of
        Inl err \<Rightarrow> (db, Some err)
      | Inr profile \<Rightarrow>
     (case find_user i db of
        None \<Rightarrow> (db, Some ErrUserNotFound)
      | Some before \<Rightarrow>
          if uu_IsActive input \<and> su_VerifiedAt before = None then (db, Some ErrUserInvalid)
          else
     (case uu_OrganizationID input of
        None \<Rightarrow> (db, Some ErrUserInvalid)
      | Some org \<Rightarrow>
          if \<not> update_allowed p before org db
             \<or> \<not> uu_IsActive input \<and> \<not> require_all p [(''disable'', ''user'')] org db
             \<or> \<not> require_all p [(''assign'', ''role'')] org db
          then (db, Some ErrForbidden)
          else
     (case authorizedRoleName p org (uu_RoleID input) db of
        Inl err \<Rightarrow> (db, Some err)
      | Inr roleName \<Rightarrow>
          if hasRole (userRoles i db) systemAdminRoleName \<and> roleName \<noteq> systemAdminRoleName
             \<and> isLastActivePlatformAdmin i db
          then (db, Some ErrUserInvalid)
          else
            (case replace_role now draw input org roleName profile before db of
               Inl err \<Rightarrow> (db, Some err)
             | Inr db1 \<Rightarrow> (audit_admin p (Some org) ''user.updated'' ''app_user'' i db1, None)))))))"

definition ResetUserPassword ::
  "AccountEnv \<Rightarrow> int \<Rightarrow> Principal \<Rightarrow> string \<Rightarrow> string \<Rightarrow> AccountDb \<Rightarrow> AccountDb \<times> AccountError option" where
  "ResetUserPassword env now p i newPassword db =
     (if \<not> ValidateNewPassword newPassword then (db, Some ErrUserInvalid)
      else
        (case find_user i db of
           None \<Rightarrow> (db, Some ErrUserNotFound)
         | Some before \<Rightarrow>
             (case su_OrganizationID before of
                None \<Rightarrow> (db, Some ErrUserNotFound)
              | Some org \<Rightarrow>
                  if \<not> require_all p [(''reset_password'', ''user'')] org db
                     \<or> \<not> canResetUserPassword (userRoles i db)
                            (hasGlobalPermissionQuery (pr_UserID p) ''reset_password'' ''user'' db)
                  then (db, Some ErrForbidden)
                  else
                    (audit_admin p (Some org) ''user.password_admin_reset'' ''app_user'' i
                       (InvalidatePasswordResetTokens now i
                         (RevokeAllUserSessions now i
                           (UpdateUserPassword (HashPassword env newPassword) i db))), None))))"

text \<open>The cascades of \<open>DELETE FROM auth.app_user\<close>; a verification token without an organization references
  nothing, and a logbook entry of the user refuses the deletion.\<close>

definition delete_user :: "string \<Rightarrow> AccountDb \<Rightarrow> AccountDb option" where
  "delete_user i db =
     (if i \<in> set (ad_Authors db) then None
      else Some (db\<lparr>ad_Users := filter (\<lambda>u. su_ID u \<noteq> i) (ad_Users db),
                    ad_Sessions := filter (\<lambda>s. se_UserID s \<noteq> i) (ad_Sessions db),
                    ad_ResetTokens := filter (\<lambda>t. tk_UserID t \<noteq> i) (ad_ResetTokens db),
                    ad_VerifyTokens := filter (\<lambda>t. tk_UserID t \<noteq> i \<or> tk_OrganizationID t = None) (ad_VerifyTokens db),
                    ad_Assignments := filter (\<lambda>a. ur_UserID a \<noteq> i) (ad_Assignments db)\<rparr>))"

definition HardDeleteUser :: "Principal \<Rightarrow> string \<Rightarrow> string \<Rightarrow> AccountDb \<Rightarrow> AccountDb \<times> AccountError option" where
  "HardDeleteUser p i confirmation db =
     (if i = pr_UserID p then (db, Some ErrUserInvalid)
      else
        (case find_user i db of
           None \<Rightarrow> (db, Some ErrUserNotFound)
         | Some before \<Rightarrow>
             if \<not> hasGlobalPermissionQuery (pr_UserID p) ''hard_delete'' ''user'' db then (db, Some ErrForbidden)
             else if confirmation \<noteq> ''DELETE'' \<and> confirmation \<noteq> ''DELETE '' @ su_Email before then (db, Some ErrUserInvalid)
             else if hasRole (userRoles i db) systemAdminRoleName \<and> isLastActivePlatformAdmin i db
             then (db, Some ErrUserInvalid)
             else tx_end db (delete_user i (audit_admin p (su_OrganizationID before) ''user.hard_deleted'' ''app_user'' i db))))"

definition SetUserActive ::
  "int \<Rightarrow> Principal \<Rightarrow> string \<Rightarrow> bool \<Rightarrow> AccountDb \<Rightarrow> AccountDb \<times> AccountError option" where
  "SetUserActive now p i active db =
     (if \<not> active \<and> i = pr_UserID p then (db, Some ErrUserInvalid)
      else
        (case find_user i db of
           None \<Rightarrow> (db, Some ErrUserNotFound)
         | Some before \<Rightarrow>
             if active \<and> (su_VerifiedAt before = None
                  \<or> \<not> list_ex (\<lambda>a. ur_UserID a = i \<and> ur_PlantID a = None) (ad_Assignments db))
             then (db, Some ErrUserInvalid)
             else
               (case su_OrganizationID before of
                  None \<Rightarrow> (db, Some ErrUserNotFound)
                | Some org \<Rightarrow>
                    if \<not> require_all p [(if active then ''update'' else ''disable'', ''user'')] org db
                    then (db, Some ErrForbidden)
                    else
                      let db1 = on_user i (\<lambda>u. u\<lparr>su_Status := (if active then ''ACTIVE'' else ''DISABLED'')\<rparr>) db
                      in (audit_admin p (Some org) ''user.status_updated'' ''app_user'' i
                            (if active then db1 else RevokeAllUserSessions now i db1), None))))"

definition UnlockUser :: "Principal \<Rightarrow> string \<Rightarrow> AccountDb \<Rightarrow> AccountDb \<times> AccountError option" where
  "UnlockUser p i db =
     (case find_user i db of
        None \<Rightarrow> (db, Some ErrUserNotFound)
      | Some before \<Rightarrow>
          (case su_OrganizationID before of
             None \<Rightarrow> (db, Some ErrUserNotFound)
           | Some org \<Rightarrow>
               if \<not> require_all p [(''unlock'', ''user'')] org db then (db, Some ErrForbidden)
               else (audit_admin p (Some org) ''user.unlocked'' ''app_user'' i (RecordLoginSuccess i db), None)))"

record UpdateSelfProfileInput =
  sp_Email :: string
  sp_Username :: string
  sp_DisplayName :: string

definition UpdateOwnProfile ::
  "AccountEnv \<Rightarrow> Principal \<Rightarrow> UpdateSelfProfileInput \<Rightarrow> AccountDb \<Rightarrow> AccountDb \<times> AccountError option" where
  "UpdateOwnProfile env p input db =
     (case validateUserProfile env (sp_Email input) (sp_Username input) (sp_DisplayName input) of
        Inl err \<Rightarrow> (db, Some err)
      | Inr (email, username, displayName) \<Rightarrow>
          (case find_user (pr_UserID p) db of
             None \<Rightarrow> (db, Some ErrUserNotFound)
           | Some before \<Rightarrow>
               (case update_user (pr_UserID p)
                       (\<lambda>u. u\<lparr>su_Email := email, su_Username := optional_text username, su_DisplayName := displayName\<rparr>) before db of
                  Inl err \<Rightarrow> (db, Some err)
                | Inr db1 \<Rightarrow>
                    (case su_OrganizationID before of
                       None \<Rightarrow> (db, Some ErrUserNotFound)
                     | Some org \<Rightarrow>
                         (audit_admin p (Some org) ''user.profile_updated'' ''app_user'' (pr_UserID p) db1, None)))))"

subsection \<open>Roles\<close>

record UpdateRoleInput =
  rr_Name :: string
  rr_Description :: string
  rr_PermissionIDs :: "string list"

record CreateRoleInput = UpdateRoleInput +
  rr_Global :: bool
  rr_OrganizationID :: "string option"

text \<open>The first of equal ids is kept.\<close>

definition distinct_ids :: "string list \<Rightarrow> string list" where
  "distinct_ids ids = rev (remdups (rev ids))"

definition validateRoleInput :: "string \<Rightarrow> string \<Rightarrow> string list \<Rightarrow> AccountError + string \<times> string \<times> string list" where
  "validateRoleInput name description permissionIDs =
     (let name = trim_space name; description = trim_space description in
      if length name = 0 \<or> 100 < length name \<or> 500 < length description then Inl ErrRoleInvalid
      else Inr (name, description, distinct_ids permissionIDs))"

definition requireRoleWritePermission :: "Principal \<Rightarrow> string \<Rightarrow> string option \<Rightarrow> AccountDb \<Rightarrow> bool" where
  "requireRoleWritePermission p action org db \<longleftrightarrow>
     (case org of
        Some o' \<Rightarrow> HasOrganizationPermission (pr_UserID p) action ''role'' o' db
      | None \<Rightarrow> hasGlobalPermissionQuery (pr_UserID p) action ''role'' db)"

text \<open>The last subquery of \<open>requireGrantablePermissions\<close>: the caller's permissions, of any scope.\<close>

definition holds_anywhere :: "string \<Rightarrow> string \<Rightarrow> string \<Rightarrow> AccountDb \<Rightarrow> bool" where
  "holds_anywhere user action resource db \<longleftrightarrow>
     list_ex (\<lambda>ur. ur_UserID ur = user \<and>
       list_ex (\<lambda>g. gt_RoleID g = ur_RoleID ur \<and>
         list_ex (\<lambda>m. pm_ID m = gt_PermissionID g \<and> pm_ResourceType m = resource \<and> pm_Action m = action)
           (ad_Permissions db)) (ad_Grants db)) (ad_Assignments db)"

definition requireGrantablePermissions :: "Principal \<Rightarrow> string \<Rightarrow> string list \<Rightarrow> AccountDb \<Rightarrow> bool" where
  "requireGrantablePermissions p roleID permissionIDs db \<longleftrightarrow>
     list_all (\<lambda>wanted. pm_ID wanted \<in> set permissionIDs \<longrightarrow>
         list_ex (\<lambda>g. gt_RoleID g = roleID \<and> gt_PermissionID g = pm_ID wanted) (ad_Grants db)
         \<or> holds_anywhere (pr_UserID p) (pm_Action wanted) (pm_ResourceType wanted) db)
       (ad_Permissions db)"

definition replaceRolePermissions ::
  "Principal \<Rightarrow> string option \<Rightarrow> string \<Rightarrow> string list \<Rightarrow> AccountDb \<Rightarrow> AccountError + AccountDb" where
  "replaceRolePermissions p org roleID permissionIDs db =
     (if \<not> requireGrantablePermissions p roleID permissionIDs db then Inl ErrForbidden
      else if \<not> list_all (\<lambda>i. list_ex (\<lambda>m. pm_ID m = i) (ad_Permissions db)) permissionIDs then Inl ErrRoleInvalid
      else Inr (db\<lparr>ad_Grants := filter (\<lambda>g. gt_RoleID g \<noteq> roleID) (ad_Grants db)
             @ map (\<lambda>i. \<lparr>gt_OrganizationID = org, gt_RoleID = roleID, gt_PermissionID = i\<rparr>) permissionIDs\<rparr>))"

definition role_name_taken :: "string option \<Rightarrow> string \<Rightarrow> RoleRow list \<Rightarrow> bool" where
  "role_name_taken org name rows \<longleftrightarrow> list_ex (\<lambda>r. ro_OrganizationID r = org \<and> to_lower (ro_Name r) = to_lower name) rows"

definition CreateRole ::
  "Drawn \<Rightarrow> Principal \<Rightarrow> CreateRoleInput \<Rightarrow> AccountDb \<Rightarrow> AccountDb \<times> AccountError option" where
  "CreateRole draw p input db =
     (case validateRoleInput (rr_Name input) (rr_Description input) (rr_PermissionIDs input) of
        Inl err \<Rightarrow> (db, Some err)
      | Inr (name, description, permissionIDs) \<Rightarrow>
          let org = (if rr_Global input then None
                     else if rr_OrganizationID input = None then pr_OrganizationID p else rr_OrganizationID input)
          in if \<not> rr_Global input \<and> org = None then (db, Some ErrRoleInvalid)
             else if \<not> requireRoleWritePermission p ''create'' org db then (db, Some ErrForbidden)
             else if role_name_taken org name (ad_Roles db) \<or> find_role (dr_ID draw) db \<noteq> None
             then (db, Some ErrRoleConflict)
             else if \<not> organization_known org db then (db, Some ErrRoleInvalid)
             else
               (case replaceRolePermissions p org (dr_ID draw) permissionIDs
                       (db\<lparr>ad_Roles := ad_Roles db @ [\<lparr>ro_ID = dr_ID draw, ro_OrganizationID = org, ro_Name = name,
                              ro_Description = description, ro_IsSystem = False\<rparr>]\<rparr>) of
                  Inl err \<Rightarrow> (db, Some err)
                | Inr db1 \<Rightarrow> (audit_admin p org ''role.created'' ''role'' (dr_ID draw) db1, None)))"

definition UpdateRole ::
  "Principal \<Rightarrow> string \<Rightarrow> UpdateRoleInput \<Rightarrow> AccountDb \<Rightarrow> AccountDb \<times> AccountError option" where
  "UpdateRole p i input db =
     (case validateRoleInput (rr_Name input) (rr_Description input) (rr_PermissionIDs input) of
        Inl err \<Rightarrow> (db, Some err)
      | Inr (name, description, permissionIDs) \<Rightarrow>
          (case find_role i db of
             None \<Rightarrow> (db, Some ErrRoleNotFound)
           | Some r \<Rightarrow>
               let org = ro_OrganizationID r in
               if ro_IsSystem r \<or> \<not> requireRoleWritePermission p ''update'' org db then (db, Some ErrForbidden)
               else if role_name_taken org name (filter (\<lambda>q. ro_ID q \<noteq> i) (ad_Roles db)) then (db, Some ErrRoleConflict)
               else
                 (case replaceRolePermissions p org i permissionIDs
                         (db\<lparr>ad_Roles := update_where (\<lambda>q. ro_ID q = i)
                                (\<lambda>q. q\<lparr>ro_Name := name, ro_Description := description\<rparr>) (ad_Roles db)\<rparr>) of
                    Inl err \<Rightarrow> (db, Some err)
                  | Inr db1 \<Rightarrow> (audit_admin p org ''role.updated'' ''role'' i db1, None))))"

definition DeleteRole :: "Principal \<Rightarrow> string \<Rightarrow> AccountDb \<Rightarrow> AccountDb \<times> AccountError option" where
  "DeleteRole p i db =
     (case find_role i db of
        None \<Rightarrow> (db, Some ErrRoleNotFound)
      | Some r \<Rightarrow>
          if ro_IsSystem r \<or> \<not> requireRoleWritePermission p ''delete'' (ro_OrganizationID r) db
          then (db, Some ErrForbidden)
          else if list_ex (\<lambda>a. ur_RoleID a = i) (ad_Assignments db) then (db, Some ErrRoleInUse)
          else
            (audit_admin p (ro_OrganizationID r) ''role.deleted'' ''role'' i
               (db\<lparr>ad_Roles := filter (\<lambda>q. ro_ID q \<noteq> i) (ad_Roles db),
                   ad_Grants := filter (\<lambda>g. gt_RoleID g \<noteq> i) (ad_Grants db)\<rparr>), None))"

subsection \<open>Organizations\<close>

record UpdateOrganizationInput =
  oi_Code :: string
  oi_Name :: string
  oi_IsActive :: bool

definition validateOrganizationInput :: "string \<Rightarrow> string \<Rightarrow> AccountError + string \<times> string" where
  "validateOrganizationInput code name =
     (let code = trim_space code; name = trim_space name in
      if length code = 0 \<or> 50 < length code \<or> length name = 0 \<or> 200 < length name then Inl ErrOrganizationInvalid
      else Inr (code, name))"

definition CreateOrganization ::
  "Drawn \<Rightarrow> Principal \<Rightarrow> string \<Rightarrow> string \<Rightarrow> AccountDb \<Rightarrow> AccountDb \<times> AccountError option" where
  "CreateOrganization draw p code name db =
     (case validateOrganizationInput code name of
        Inl err \<Rightarrow> (db, Some err)
      | Inr (code, name) \<Rightarrow>
          if \<not> hasGlobalPermissionQuery (pr_UserID p) ''create'' ''organization'' db then (db, Some ErrForbidden)
          else if list_ex (\<lambda>o'. og_Code o' = code \<or> og_ID o' = dr_ID draw) (ad_Organizations db)
          then (db, Some ErrOrganizationConflict)
          else
            (audit_admin p (Some (dr_ID draw)) ''organization.created'' ''organization'' (dr_ID draw)
               (db\<lparr>ad_Organizations := ad_Organizations db @
                    [\<lparr>og_ID = dr_ID draw, og_Code = code, og_Name = name, og_IsActive = True\<rparr>]\<rparr>), None))"

definition UpdateOrganization ::
  "Principal \<Rightarrow> string \<Rightarrow> UpdateOrganizationInput \<Rightarrow> AccountDb \<Rightarrow> AccountDb \<times> AccountError option" where
  "UpdateOrganization p i input db =
     (case validateOrganizationInput (oi_Code input) (oi_Name input) of
        Inl err \<Rightarrow> (db, Some err)
      | Inr (code, name) \<Rightarrow>
          if find_organization i db = None then (db, Some ErrOrganizationNotFound)
          else if \<not> require_all p [(''update'', ''organization'')] i db then (db, Some ErrForbidden)
          else if list_ex (\<lambda>o'. og_ID o' \<noteq> i \<and> og_Code o' = code) (ad_Organizations db)
          then (db, Some ErrOrganizationConflict)
          else
            (audit_admin p (Some i) ''organization.updated'' ''organization'' i
               (db\<lparr>ad_Organizations := update_where (\<lambda>o'. og_ID o' = i)
                    (\<lambda>o'. o'\<lparr>og_Code := code, og_Name := name, og_IsActive := oi_IsActive input\<rparr>)
                    (ad_Organizations db)\<rparr>), None))"

end
