(* ===== verification/AccountRun.thy ===== *)
theory AccountRun
  imports AccountAdmin
begin

section \<open>auth-service: the account tables as a machine\<close>

text \<open>
  The first administrator of \<open>platform-api/internal/bootstrap/bootstrap.go\<close>, every operation of \<open>Accounts\<close> and
  \<open>AccountAdmin\<close> as a step, and what holds in every state these steps reach.
\<close>

subsection \<open>The first administrator\<close>

record UserInput =
  bi_Email :: string
  bi_Username :: string
  bi_DisplayName :: string
  bi_Password :: string
  bi_OrganizationCode :: string
  bi_OrganizationName :: string
  bi_Role :: string

text \<open>The environment variables \<open>PLATFORM_BOOTSTRAP_*\<close> are the fields of the argument.\<close>

definition UserInputFromEnvironment :: "AccountEnv \<Rightarrow> UserInput \<Rightarrow> UserInput option" where
  "UserInputFromEnvironment env getenv =
     (let role = trim_space (bi_Role getenv);
          input = \<lparr>bi_Email = to_lower (trim_space (bi_Email getenv)), bi_Username = to_lower (trim_space (bi_Username getenv)),
            bi_DisplayName = trim_space (bi_DisplayName getenv), bi_Password = bi_Password getenv,
            bi_OrganizationCode = trim_space (bi_OrganizationCode getenv),
            bi_OrganizationName = trim_space (bi_OrganizationName getenv),
            bi_Role = (if role = [] then ''System Admin'' else role)\<rparr>
      in if an_mail env (bi_Email input) \<noteq> Some (bi_Email input)
            \<or> bi_DisplayName input = [] \<or> 200 < length (bi_DisplayName input)
            \<or> \<not> ValidateNewPassword (bi_Password input)
            \<or> bi_OrganizationCode input = [] \<or> 100 < length (bi_OrganizationCode input)
            \<or> bi_OrganizationName input = [] \<or> 200 < length (bi_OrganizationName input)
            \<or> 100 < length (bi_Username input)
            \<or> bi_Role input \<notin> {''System Admin'', ''Organization Admin'', ''Plant Manager'', ''Engineer'', ''Operator'',
                                 ''Viewer'', ''Auditor''}
         then None else Some input)"

definition bootstrap_organization :: "string \<Rightarrow> UserInput \<Rightarrow> AccountDb \<Rightarrow> AccountDb option" where
  "bootstrap_organization orgID input db =
     (if list_ex (\<lambda>o'. og_Code o' = bi_OrganizationCode input) (ad_Organizations db) then Some db
      else if list_ex (\<lambda>o'. og_ID o' = orgID) (ad_Organizations db) then None
      else Some (db\<lparr>ad_Organizations := ad_Organizations db @
             [\<lparr>og_ID = orgID, og_Code = bi_OrganizationCode input, og_Name = bi_OrganizationName input, og_IsActive = True\<rparr>]\<rparr>))"

definition bootstrap_user :: "AccountEnv \<Rightarrow> Drawn \<Rightarrow> string \<Rightarrow> UserInput \<Rightarrow> UserRow" where
  "bootstrap_user env draw org input =
     \<lparr>su_ID = dr_ID draw, su_OrganizationID = Some org, su_Email = bi_Email input, su_Username = optional_text (bi_Username input),
      su_DisplayName = bi_DisplayName input, su_PasswordHash = HashPassword env (bi_Password input), su_Status = ''ACTIVE'',
      su_VerifiedAt = None, su_Failed = 0, su_LockedUntil = None\<rparr>"

definition bootstrap_CreateUser ::
  "AccountEnv \<Rightarrow> Drawn \<Rightarrow> string \<Rightarrow> UserInput \<Rightarrow> AccountDb \<Rightarrow> AccountDb \<times> AccountError option" where
  "bootstrap_CreateUser env draw orgID input db =
     (case bootstrap_organization orgID input db of
        None \<Rightarrow> (db, Some ErrStatement)
      | Some db1 \<Rightarrow>
     (case find (\<lambda>o'. og_Code o' = bi_OrganizationCode input) (ad_Organizations db1) of
        None \<Rightarrow> (db, Some ErrStatement)
      | Some o' \<Rightarrow>
     (case insert_user (bootstrap_user env draw (og_ID o') input) db1 of
        Inl err \<Rightarrow> (db, Some ErrStatement)
      | Inr db2 \<Rightarrow>
     (case find (\<lambda>r. ro_OrganizationID r = None \<and> ro_Name r = bi_Role input) (ad_Roles db2) of
        None \<Rightarrow> (db, Some ErrStatement)
      | Some r \<Rightarrow>
     (case insert_assignment (baseline_role (dr_ID2 draw) (og_ID o') (dr_ID draw) (ro_ID r) (bi_Role input)) db2 of
        Inl err \<Rightarrow> (db, Some ErrStatement)
      | Inr db3 \<Rightarrow>
          (CreateAuditEvent (Some (og_ID o')) (Some (dr_ID draw)) ''auth.user.bootstrap'' ''app_user''
             (Some (dr_ID draw)) db3, None))))))"

definition admin_exists :: "AccountDb \<Rightarrow> bool" where
  "admin_exists db \<longleftrightarrow>
     list_ex (\<lambda>a. list_ex (\<lambda>r. ro_ID r = ur_RoleID a \<and> ro_OrganizationID r = None \<and> ro_Name r = ''System Admin'') (ad_Roles db)
         \<and> list_ex (\<lambda>u. su_ID u = ur_UserID a \<and> su_Status u = ''ACTIVE'') (ad_Users db)) (ad_Assignments db)"

definition EnsureAdmin ::
  "AccountEnv \<Rightarrow> Drawn \<Rightarrow> string \<Rightarrow> UserInput \<Rightarrow> AccountDb \<Rightarrow> AccountDb \<times> AccountError option" where
  "EnsureAdmin env draw orgID getenv db =
     (if admin_exists db then (db, None)
      else
        (case UserInputFromEnvironment env getenv of
           None \<Rightarrow> (db, Some ErrStatement)
         | Some input \<Rightarrow> bootstrap_CreateUser env draw orgID input db))"

subsection \<open>What a successful operation has done\<close>

lemmas split_changed = sum.split_asm option.split_asm prod.split_asm if_split_asm

lemma CreateUser_changed:
  assumes "fst (CreateUser env now draw p input db) = db'" and "db' \<noteq> db"
  shows "\<exists>profile org roleName db1 db2.
      require_all p [(''create'', ''user''), (''assign'', ''role'')] org db
      \<and> authorizedRoleName p org (cu_RoleID input) db = Inr roleName
      \<and> insert_user (created_user env now draw org profile (cu_Password input)) db = Inr db1
      \<and> insert_assignment (baseline_role (dr_ID2 draw) org (dr_ID draw) (cu_RoleID input) roleName) db1 = Inr db2
      \<and> db' = audit_admin p (Some org) ''user.created'' ''app_user'' (dr_ID draw) db2"
  using assms unfolding CreateUser_def
  by (simp split: split_changed del: split_paired_Ex; blast)

lemma UpdateUser_changed:
  assumes "fst (UpdateUser env now draw p i input db) = db'" and "db' \<noteq> db"
  shows "\<exists>profile before org roleName db1.
      i \<noteq> pr_UserID p \<and> find_user i db = Some before \<and> update_allowed p before org db
      \<and> require_all p [(''assign'', ''role'')] org db \<and> (uu_IsActive input \<longrightarrow> su_VerifiedAt before \<noteq> None)
      \<and> authorizedRoleName p org (uu_RoleID input) db = Inr roleName
      \<and> replace_role now draw input org roleName profile before db = Inr db1
      \<and> db' = audit_admin p (Some org) ''user.updated'' ''app_user'' i db1"
  using assms unfolding UpdateUser_def
  by (simp split: split_changed del: split_paired_Ex; blast)


lemma ResetUserPassword_changed:
  assumes "fst (ResetUserPassword env now p i newPassword db) = db'" and "db' \<noteq> db"
  shows "\<exists>before org. find_user i db = Some before \<and> su_OrganizationID before = Some org
      \<and> require_all p [(''reset_password'', ''user'')] org db
      \<and> db' =
          audit_admin p (Some org) ''user.password_admin_reset'' ''app_user'' i
            (InvalidatePasswordResetTokens now i (RevokeAllUserSessions now i (UpdateUserPassword (HashPassword env newPassword) i db)))"
  using assms unfolding ResetUserPassword_def
  by (simp split: split_changed)

lemma HardDeleteUser_changed:
  assumes "fst (HardDeleteUser p i confirmation db) = db'" and "db' \<noteq> db"
  shows "\<exists>before. i \<noteq> pr_UserID p \<and> find_user i db = Some before
      \<and> hasGlobalPermissionQuery (pr_UserID p) ''hard_delete'' ''user'' db
      \<and> delete_user i (audit_admin p (su_OrganizationID before) ''user.hard_deleted'' ''app_user'' i db)
          = Some (db')"
  using assms unfolding HardDeleteUser_def tx_end_def
  by (simp split: split_changed)

lemma SetUserActive_changed:
  assumes "fst (SetUserActive now p i active db) = db'" and "db' \<noteq> db"
  shows "\<exists>before org. find_user i db = Some before \<and> su_OrganizationID before = Some org
      \<and> require_all p [(if active then ''update'' else ''disable'', ''user'')] org db
      \<and> (active \<longrightarrow> su_VerifiedAt before \<noteq> None)
      \<and> db' =
          (let db1 = on_user i (\<lambda>u. u\<lparr>su_Status := (if active then ''ACTIVE'' else ''DISABLED'')\<rparr>) db
           in audit_admin p (Some org) ''user.status_updated'' ''app_user'' i
                (if active then db1 else RevokeAllUserSessions now i db1))"
  using assms unfolding SetUserActive_def
  by (simp add: Let_def split: split_changed)

lemma UnlockUser_changed:
  assumes "fst (UnlockUser p i db) = db'" and "db' \<noteq> db"
  shows "\<exists>before org. find_user i db = Some before \<and> su_OrganizationID before = Some org
      \<and> require_all p [(''unlock'', ''user'')] org db
      \<and> db' = audit_admin p (Some org) ''user.unlocked'' ''app_user'' i (RecordLoginSuccess i db)"
  using assms unfolding UnlockUser_def
  by (simp split: split_changed)

lemma UpdateOwnProfile_changed:
  assumes "fst (UpdateOwnProfile env p input db) = db'" and "db' \<noteq> db"
  shows "\<exists>email username displayName before org db1. find_user (pr_UserID p) db = Some before
      \<and> su_OrganizationID before = Some org
      \<and> update_user (pr_UserID p)
          (\<lambda>u. u\<lparr>su_Email := email, su_Username := optional_text username, su_DisplayName := displayName\<rparr>) before db = Inr db1
      \<and> db' =
          audit_admin p (Some org) ''user.profile_updated'' ''app_user'' (pr_UserID p) db1"
  using assms unfolding UpdateOwnProfile_def
  by (auto split: split_changed)

definition new_role :: "Drawn \<Rightarrow> string option \<Rightarrow> string \<Rightarrow> string \<Rightarrow> RoleRow" where
  "new_role draw org name description =
     \<lparr>ro_ID = dr_ID draw, ro_OrganizationID = org, ro_Name = name, ro_Description = description, ro_IsSystem = False\<rparr>"

lemma CreateRole_changed:
  assumes "fst (CreateRole draw p input db) = db'" and "db' \<noteq> db"
  defines "org \<equiv> if rr_Global input then None
             else if rr_OrganizationID input = None then pr_OrganizationID p else rr_OrganizationID input"
  shows "\<exists>name description ids db1.
      validateRoleInput (rr_Name input) (rr_Description input) (rr_PermissionIDs input) = Inr (name, description, ids)
      \<and> requireRoleWritePermission p ''create'' org db
      \<and> \<not> role_name_taken org name (ad_Roles db) \<and> find_role (dr_ID draw) db = None \<and> organization_known org db
      \<and> replaceRolePermissions p org (dr_ID draw) ids (db\<lparr>ad_Roles := ad_Roles db @ [new_role draw org name description]\<rparr>)
          = Inr db1
      \<and> db' = audit_admin p org ''role.created'' ''role'' (dr_ID draw) db1"
  using assms(1, 2) unfolding CreateRole_def new_role_def Let_def org_def [symmetric]
  by (auto split: sum.split_asm prod.split_asm if_split_asm)

lemma UpdateRole_changed:
  assumes "fst (UpdateRole p i input db) = db'" and "db' \<noteq> db"
  shows "\<exists>r name description ids db1. find_role i db = Some r \<and> \<not> ro_IsSystem r
      \<and> requireRoleWritePermission p ''update'' (ro_OrganizationID r) db
      \<and> \<not> role_name_taken (ro_OrganizationID r) name (filter (\<lambda>q. ro_ID q \<noteq> i) (ad_Roles db))
      \<and> validateRoleInput (rr_Name input) (rr_Description input) (rr_PermissionIDs input) = Inr (name, description, ids)
      \<and> replaceRolePermissions p (ro_OrganizationID r) i ids
          (db\<lparr>ad_Roles := update_where (\<lambda>q. ro_ID q = i) (\<lambda>q. q\<lparr>ro_Name := name, ro_Description := description\<rparr>) (ad_Roles db)\<rparr>)
          = Inr db1
      \<and> db' = audit_admin p (ro_OrganizationID r) ''role.updated'' ''role'' i db1"
  using assms unfolding UpdateRole_def
  by (simp add: Let_def split: split_changed; blast)

lemma DeleteRole_changed:
  assumes "fst (DeleteRole p i db) = db'" and "db' \<noteq> db"
  shows "\<exists>r. find_role i db = Some r \<and> \<not> ro_IsSystem r \<and> requireRoleWritePermission p ''delete'' (ro_OrganizationID r) db
      \<and> \<not> list_ex (\<lambda>a. ur_RoleID a = i) (ad_Assignments db)
      \<and> db' = audit_admin p (ro_OrganizationID r) ''role.deleted'' ''role'' i
          (db\<lparr>ad_Roles := filter (\<lambda>q. ro_ID q \<noteq> i) (ad_Roles db), ad_Grants := filter (\<lambda>g. gt_RoleID g \<noteq> i) (ad_Grants db)\<rparr>)"
  using assms unfolding DeleteRole_def
  by (simp split: split_changed)

lemma CreateOrganization_changed:
  assumes "fst (CreateOrganization draw p code name db) = db'" and "db' \<noteq> db"
  shows "\<exists>c n. hasGlobalPermissionQuery (pr_UserID p) ''create'' ''organization'' db
      \<and> \<not> list_ex (\<lambda>q. og_Code q = c \<or> og_ID q = dr_ID draw) (ad_Organizations db)
      \<and> db' =
          audit_admin p (Some (dr_ID draw)) ''organization.created'' ''organization'' (dr_ID draw)
            (db\<lparr>ad_Organizations := ad_Organizations db @
                 [\<lparr>og_ID = dr_ID draw, og_Code = c, og_Name = n, og_IsActive = True\<rparr>]\<rparr>)"
  using assms unfolding CreateOrganization_def
  by (simp split: split_changed; blast)

lemma UpdateOrganization_changed:
  assumes "fst (UpdateOrganization p i input db) = db'" and "db' \<noteq> db"
  shows "\<exists>c n. require_all p [(''update'', ''organization'')] i db
      \<and> \<not> list_ex (\<lambda>q. og_ID q \<noteq> i \<and> og_Code q = c) (ad_Organizations db)
      \<and> db' =
          audit_admin p (Some i) ''organization.updated'' ''organization'' i
            (db\<lparr>ad_Organizations := update_where (\<lambda>q. og_ID q = i)
                 (\<lambda>q. q\<lparr>og_Code := c, og_Name := n, og_IsActive := oi_IsActive input\<rparr>) (ad_Organizations db)\<rparr>)"
  using assms unfolding UpdateOrganization_def
  by (simp split: split_changed; blast)

lemma bootstrap_changed:
  assumes "fst (EnsureAdmin env draw orgID getenv db) = db'" and "db' \<noteq> db"
  shows "\<exists>input db1 o' db2 r db3. \<not> admin_exists db \<and> UserInputFromEnvironment env getenv = Some input
      \<and> bootstrap_organization orgID input db = Some db1
      \<and> find (\<lambda>o'. og_Code o' = bi_OrganizationCode input) (ad_Organizations db1) = Some o'
      \<and> insert_user (bootstrap_user env draw (og_ID o') input) db1 = Inr db2
      \<and> find (\<lambda>r. ro_OrganizationID r = None \<and> ro_Name r = bi_Role input) (ad_Roles db2) = Some r
      \<and> insert_assignment (baseline_role (dr_ID2 draw) (og_ID o') (dr_ID draw) (ro_ID r) (bi_Role input)) db2 = Inr db3
      \<and> db' = CreateAuditEvent (Some (og_ID o')) (Some (dr_ID draw)) ''auth.user.bootstrap'' ''app_user'' (Some (dr_ID draw)) db3"
  using assms unfolding EnsureAdmin_def bootstrap_CreateUser_def
  by (auto split: split_changed)

lemma Register_changed:
  assumes "fst (Register env now draw input ip db) = db'" and "db' \<noteq> db"
  shows "\<exists>db1 tokens.
      insert_user (registered_user env draw (to_lower (trim_space (ri_Email input))) (to_lower (trim_space (ri_Username input)))
        (trim_space (ri_DisplayName input)) (ri_Password input)) db = Inr db1
      \<and> insert_token (verification_token env now draw (dr_ID draw) None ip) (ad_VerifyTokens db1) = Some tokens
      \<and> db' = db1\<lparr>ad_VerifyTokens := tokens\<rparr>"
  using assms unfolding Register_def Let_def
  by (auto split: split_changed)

lemma VerifyEmail_changed:
  assumes "fst (VerifyEmail env now token db) = db'" and "db' \<noteq> db"
  shows "\<exists>hash t. an_token env token = Some hash
      \<and> find (\<lambda>t. tk_Hash t = hash \<and> token_open now t) (ad_VerifyTokens db) = Some t
      \<and> db' = on_user (tk_UserID t) (\<lambda>u. u\<lparr>su_VerifiedAt := Some now\<rparr>)
                (db\<lparr>ad_VerifyTokens := spend now (\<lambda>r. tk_ID r = tk_ID t) (ad_VerifyTokens db)\<rparr>)"
  using assms unfolding VerifyEmail_def
  by (auto split: split_changed)

text \<open>The attempt of a resent verification violates the constraint of its table: nothing is ever resent.\<close>

lemma resend_never_happens: "fst (ResendVerification env now draw identifier ip db) = db"
  by (simp add: ResendVerification_def RecordPasswordRecoveryAttempt_def Let_def split: option.split)

lemma resend_always_fails:
  assumes "an_verificationNotifier env \<noteq> None" and "normalizeVerificationIdentifier identifier \<noteq> []"
  shows "snd (ResendVerification env now draw identifier ip db) \<in> {Some ErrStatement, Some ErrRateLimited}"
  using assms by (auto simp: ResendVerification_def RecordPasswordRecoveryAttempt_def Let_def)

lemma recovery_recorded:
  "RecordPasswordRecoveryAttempt now operation identifier ip success db = Some db' \<Longrightarrow>
     \<exists>rows. db' = db\<lparr>ad_Recovery := rows\<rparr>"
  by (auto simp: RecordPasswordRecoveryAttempt_def split: if_splits)

lemma request_tx_done:
  "request_tx env now draw u email ip db = Some db' \<Longrightarrow>
     \<exists>tokens rows events.
       insert_token (new_reset_token env now draw u ip) (spend now (\<lambda>t. tk_UserID t = su_ID u) (ad_ResetTokens db)) = Some tokens
       \<and> db' = db\<lparr>ad_ResetTokens := tokens, ad_Recovery := rows, ad_Audit := events\<rparr>"
  unfolding request_tx_def CreatePasswordResetToken_def InvalidatePasswordResetTokens_def CreateAuditEvent_def
    RecordPasswordRecoveryAttempt_def
  by (auto simp: Let_def split: split_changed; intro exI; rule refl)

lemma reset_user_in: "GetPasswordResetUser email db = Some u \<Longrightarrow> u \<in> set (ad_Users db)"
  by (auto simp: GetPasswordResetUser_def find_Some_iff)

lemma RequestPasswordReset_changed:
  assumes "fst (RequestPasswordReset env now draw email ip db) = db'" and "db' \<noteq> db"
  shows "RecordPasswordRecoveryAttempt now ''REQUEST'' (to_lower (trim_space email)) ip False db = Some db'
     \<or> (\<exists>u. GetPasswordResetUser (to_lower (trim_space email)) db = Some u \<and> su_Status u = ''ACTIVE''
          \<and> request_tx env now draw u (to_lower (trim_space email)) ip db = Some db')"
  using assms unfolding RequestPasswordReset_def tx_end_def Let_def
  by (auto split: split_changed)

lemma ResetPassword_changed:
  assumes "fst (ResetPassword env now token newPassword ip db) = db'" and "db' \<noteq> db"
  shows "(\<exists>rows. db' = db\<lparr>ad_Recovery := rows\<rparr>
            \<and> snd (ResetPassword env now token newPassword ip db) \<noteq> None)
     \<or> (\<exists>hash t u rows events. an_token env token = Some hash \<and> GetActivePasswordResetToken now hash db = Some (t, u)
          \<and> db' =
              (RevokeAllUserSessions now (tk_UserID t) (UpdateUserPassword (HashPassword env newPassword) (tk_UserID t)
                 (MarkPasswordResetTokenUsed now (tk_ID t) db)))\<lparr>ad_Recovery := rows, ad_Audit := events\<rparr>)"
  using assms
  unfolding ResetPassword_def reset_tx_def tx_end_def recordResetAttempt_def CreateAuditEvent_def RecordPasswordRecoveryAttempt_def
  by (simp add: Let_def split: split_changed; blast)

subsection \<open>The machine\<close>

text \<open>The operations a signed in user calls, as \<open>httpapi/server.go\<close> and \<open>core_handlers.go\<close> route them.\<close>

datatype AccountOp =
    OpCreateUser CreateUserInput | OpUpdateUser string UpdateUserInput | OpResetUserPassword string string
  | OpHardDeleteUser string string | OpSetUserActive string bool | OpUnlockUser string
  | OpUpdateOwnProfile UpdateSelfProfileInput
  | OpCreateRole CreateRoleInput | OpUpdateRole string UpdateRoleInput | OpDeleteRole string
  | OpCreateOrganization string string | OpUpdateOrganization string UpdateOrganizationInput
  | OpLogout | OpLogoutAll | OpChangePassword string string | OpRevokeOwnSession string | OpClearOwnSessions string

fun perform :: "AccountEnv \<Rightarrow> int \<Rightarrow> Drawn \<Rightarrow> Principal \<Rightarrow> AccountOp \<Rightarrow> AccountDb \<Rightarrow> AccountDb" where
  "perform env now draw p (OpCreateUser input) db = fst (CreateUser env now draw p input db)"
| "perform env now draw p (OpUpdateUser i input) db = fst (UpdateUser env now draw p i input db)"
| "perform env now draw p (OpResetUserPassword i new) db = fst (ResetUserPassword env now p i new db)"
| "perform env now draw p (OpHardDeleteUser i confirmation) db = fst (HardDeleteUser p i confirmation db)"
| "perform env now draw p (OpSetUserActive i active) db = fst (SetUserActive now p i active db)"
| "perform env now draw p (OpUnlockUser i) db = fst (UnlockUser p i db)"
| "perform env now draw p (OpUpdateOwnProfile input) db = fst (UpdateOwnProfile env p input db)"
| "perform env now draw p (OpCreateRole input) db = fst (CreateRole draw p input db)"
| "perform env now draw p (OpUpdateRole i input) db = fst (UpdateRole p i input db)"
| "perform env now draw p (OpDeleteRole i) db = fst (DeleteRole p i db)"
| "perform env now draw p (OpCreateOrganization code name) db = fst (CreateOrganization draw p code name db)"
| "perform env now draw p (OpUpdateOrganization i input) db = fst (UpdateOrganization p i input db)"
| "perform env now draw p OpLogout db = fst (Logout now p db)"
| "perform env now draw p OpLogoutAll db = fst (LogoutAll now p db)"
| "perform env now draw p (OpChangePassword current new) db = fst (ChangePassword env now p current new db)"
| "perform env now draw p (OpRevokeOwnSession i) db = fst (RevokeOwnSession now p i db)"
| "perform env now draw p (OpClearOwnSessions confirmation) db = fst (ClearOwnSessions p confirmation db)"

text \<open>
  A state: the tables, the logins that have been read and not yet written, and every token hash drawn so
  far. A transaction is a step, in any order, by any caller: an operation may act for any principal, which
  covers every way a session is checked before it. Drawing a token never repeats a hash.
\<close>

record AccountState =
  as_Db :: AccountDb
  as_Pending :: "(LoginInput \<times> LoginPlan) list"
  as_Drawn :: "string set"

definition drawn_hash :: "AccountEnv \<Rightarrow> Drawn \<Rightarrow> string" where
  "drawn_hash env draw = snd (newToken env (dr_Token draw))"

inductive account_step :: "AccountEnv \<Rightarrow> AccountState \<Rightarrow> AccountState \<Rightarrow> bool" for env where
  start: "account_step env s (s\<lparr>as_Db := fst (EnsureAdmin env draw orgID getenv (as_Db s))\<rparr>)"
| login_begin: "account_step env s (s\<lparr>as_Pending := as_Pending s @ [(input, login_read env now input (as_Db s))]\<rparr>)"
| login_end: "(input, plan) \<in> set (as_Pending s) \<Longrightarrow> drawn_hash env draw \<notin> as_Drawn s \<Longrightarrow>
    account_step env s (s\<lparr>as_Db := fst (login_write env now draw input plan (as_Db s)),
      as_Pending := remove1 (input, plan) (as_Pending s), as_Drawn := insert (drawn_hash env draw) (as_Drawn s)\<rparr>)"
| check: "account_step env s (s\<lparr>as_Db := fst (authenticated env now csrfRequired cookie header (as_Db s))\<rparr>)"
| act: "account_step env s (s\<lparr>as_Db := perform env now draw p op (as_Db s)\<rparr>)"
| request: "drawn_hash env draw \<notin> as_Drawn s \<Longrightarrow>
    account_step env s (s\<lparr>as_Db := fst (RequestPasswordReset env now draw email ip (as_Db s)),
      as_Drawn := insert (drawn_hash env draw) (as_Drawn s)\<rparr>)"
| reset: "account_step env s (s\<lparr>as_Db := fst (ResetPassword env now token newPassword ip (as_Db s))\<rparr>)"
| register: "drawn_hash env draw \<notin> as_Drawn s \<Longrightarrow>
    account_step env s (s\<lparr>as_Db := fst (Register env now draw registration ip (as_Db s)),
      as_Drawn := insert (drawn_hash env draw) (as_Drawn s)\<rparr>)"
| verify: "account_step env s (s\<lparr>as_Db := fst (VerifyEmail env now token (as_Db s))\<rparr>)"
| resend: "account_step env s (s\<lparr>as_Db := fst (ResendVerification env now draw email ip (as_Db s))\<rparr>)"
| logbook: "find_user i (as_Db s) \<noteq> None \<Longrightarrow>
    account_step env s (s\<lparr>as_Db := (as_Db s)\<lparr>ad_Authors := i # ad_Authors (as_Db s)\<rparr>\<rparr>)"

inductive_cases account_stepE: "account_step env s t"

inductive accounts_reach :: "AccountEnv \<Rightarrow> AccountState \<Rightarrow> AccountState \<Rightarrow> bool" for env where
  reach_start: "accounts_reach env s s"
| reach_step: "accounts_reach env s t \<Longrightarrow> account_step env t u \<Longrightarrow> accounts_reach env s u"

text \<open>What holds of the tables after every step: one lemma for all that follow.\<close>

lemma account_step_db:
  assumes "account_step env s t"
    and "\<And>draw orgID getenv. P (fst (EnsureAdmin env draw orgID getenv (as_Db s)))"
    and "P (as_Db s)"
    and "\<And>now draw input plan. drawn_hash env draw \<notin> as_Drawn s \<Longrightarrow>
           (input, plan) \<in> set (as_Pending s) \<Longrightarrow> P (fst (login_write env now draw input plan (as_Db s)))"
    and "\<And>now token. P (fst (Authenticate env now token (as_Db s)))"
    and "\<And>now draw p op. P (perform env now draw p op (as_Db s))"
    and "\<And>now draw email ip. drawn_hash env draw \<notin> as_Drawn s \<Longrightarrow>
           P (fst (RequestPasswordReset env now draw email ip (as_Db s)))"
    and "\<And>now token new ip. P (fst (ResetPassword env now token new ip (as_Db s)))"
    and "\<And>now draw input ip. drawn_hash env draw \<notin> as_Drawn s \<Longrightarrow> P (fst (Register env now draw input ip (as_Db s)))"
    and "\<And>now token. P (fst (VerifyEmail env now token (as_Db s)))"
    and "\<And>i. P ((as_Db s)\<lparr>ad_Authors := i # ad_Authors (as_Db s)\<rparr>)"
  shows "P (as_Db t)"
proof -
  have check: "P (fst (authenticated env now csrfRequired cookie header (as_Db s)))" for now csrfRequired cookie header
  proof (cases cookie)
    case None
    then show ?thesis using assms(3) by (simp add: authenticated_def)
  next
    case (Some token)
    then show ?thesis using assms(5) [of now token]
      by (cases "Authenticate env now token (as_Db s)") (auto simp: authenticated_def split: sum.split)
  qed
  show ?thesis
    using assms(1) by cases (use assms(2-) check in \<open>simp_all add: resend_never_happens\<close>)
qed

end
