(* ===== verification/AccountSafety.thy ===== *)
theory AccountSafety
  imports AccountRun
begin

section \<open>auth-service: the account tables stay in order\<close>

text \<open>
  The invariant of the tables, table by table, and its preservation by every statement and every operation.
  Part of it are the constraints of the schema, part what only the code ensures: an account without an
  organization is pending, a user has at most one open reset token, a grant lies in the organization of its
  role, and the only role held in every organization is the built-in \<open>System Admin\<close>.
\<close>

subsection \<open>The invariant\<close>

definition org_ids :: "AccountDb \<Rightarrow> string set" where
  "org_ids db = og_ID ` set (ad_Organizations db)"

definition user_ids :: "AccountDb \<Rightarrow> string set" where
  "user_ids db = su_ID ` set (ad_Users db)"

definition user_ok :: "string set \<Rightarrow> UserRow \<Rightarrow> bool" where
  "user_ok orgs u \<longleftrightarrow>
     su_Status u \<in> {''ACTIVE'', ''PENDING_ACCESS'', ''DISABLED''} \<and> (su_OrganizationID u = None \<longleftrightarrow> su_Status u = ''PENDING_ACCESS'')
     \<and> 0 \<le> su_Failed u \<and> set_option (su_OrganizationID u) \<subseteq> orgs"

definition users_ok :: "string set \<Rightarrow> UserRow list \<Rightarrow> bool" where
  "users_ok orgs us \<longleftrightarrow>
     distinct (map su_ID us) \<and> distinct (map su_Email us) \<and> distinct (filter (\<lambda>n. n \<noteq> None) (map su_Username us))
     \<and> (\<forall>u \<in> set us. user_ok orgs u)"

definition sessions_ok :: "string set \<Rightarrow> SessionRow list \<Rightarrow> bool" where
  "sessions_ok users ss \<longleftrightarrow>
     distinct (map se_ID ss) \<and> distinct (map se_TokenHash ss)
     \<and> (\<forall>s \<in> set ss. se_UserID s \<in> users \<and> se_IdleExpiresAt s \<le> se_ExpiresAt s)"

definition resets_ok :: "string set \<Rightarrow> TokenRow list \<Rightarrow> bool" where
  "resets_ok users ts \<longleftrightarrow>
     distinct (map tk_ID ts) \<and> distinct (map tk_Hash ts) \<and> (\<forall>t \<in> set ts. tk_UserID t \<in> users)
     \<and> distinct (map tk_UserID (filter (\<lambda>t. tk_UsedAt t = None) ts))"

definition role_key :: "RoleRow \<Rightarrow> string option \<times> string" where
  "role_key r = (ro_OrganizationID r, to_lower (ro_Name r))"

definition system_role :: "RoleRow \<Rightarrow> bool" where
  "system_role r \<longleftrightarrow> ro_OrganizationID r = None \<and> ro_Name r = systemAdminRoleName \<and> ro_IsSystem r"

definition roles_ok :: "string set \<Rightarrow> RoleRow list \<Rightarrow> bool" where
  "roles_ok orgs rs \<longleftrightarrow>
     distinct (map ro_ID rs) \<and> distinct (map role_key rs) \<and> (\<exists>r \<in> set rs. system_role r)
     \<and> (\<forall>r \<in> set rs. set_option (ro_OrganizationID r) \<subseteq> orgs)"

definition grants_ok :: "RoleRow list \<Rightarrow> Permission list \<Rightarrow> GrantRow list \<Rightarrow> bool" where
  "grants_ok rs ps gs \<longleftrightarrow>
     distinct (map (\<lambda>g. (gt_RoleID g, gt_PermissionID g)) gs)
     \<and> (\<forall>g \<in> set gs. gt_PermissionID g \<in> pm_ID ` set ps
          \<and> (gt_RoleID g, gt_OrganizationID g) \<in> (\<lambda>r. (ro_ID r, ro_OrganizationID r)) ` set rs)"

text \<open>An assignment: its user, in the organization it names, its role, and no plant without an organization.\<close>

definition assignment_ok :: "UserRow list \<Rightarrow> RoleRow list \<Rightarrow> AssignmentRow \<Rightarrow> bool" where
  "assignment_ok us rs a \<longleftrightarrow>
     (\<exists>u \<in> set us. su_ID u = ur_UserID a \<and> in_org (ur_OrganizationID a) (su_OrganizationID u))
     \<and> ur_RoleID a \<in> ro_ID ` set rs \<and> (ur_OrganizationID a = None \<longrightarrow> ur_PlantID a = None)
     \<and> (\<forall>r \<in> set rs. ro_ID r = ur_RoleID a \<and> ur_OrganizationID a = None \<and> ro_OrganizationID r = None \<longrightarrow> system_role r)"

definition assigned_ok :: "UserRow list \<Rightarrow> RoleRow list \<Rightarrow> AssignmentRow list \<Rightarrow> bool" where
  "assigned_ok us rs as \<longleftrightarrow>
     distinct (map ur_ID as) \<and> distinct (map (\<lambda>a. (ur_UserID a, ur_RoleID a, ur_PlantID a)) as)
     \<and> (\<forall>a \<in> set as. assignment_ok us rs a)"

definition accounts_ok :: "AccountDb \<Rightarrow> bool" where
  "accounts_ok db \<longleftrightarrow>
     users_ok (org_ids db) (ad_Users db) \<and> sessions_ok (user_ids db) (ad_Sessions db)
     \<and> resets_ok (user_ids db) (ad_ResetTokens db) \<and> roles_ok (org_ids db) (ad_Roles db)
     \<and> grants_ok (ad_Roles db) (ad_Permissions db) (ad_Grants db)
     \<and> assigned_ok (ad_Users db) (ad_Roles db) (ad_Assignments db)
     \<and> distinct (map og_ID (ad_Organizations db)) \<and> distinct (map og_Code (ad_Organizations db))"

lemmas accounts_defs = accounts_ok_def org_ids_def user_ids_def

text \<open>Of the columns of a user the other tables see the id and the organization.\<close>

lemma assigned_users:
  assumes "assigned_ok us rs as"
    and "\<And>u. u \<in> set us \<Longrightarrow> \<exists>v \<in> set us'. su_ID v = su_ID u \<and> su_OrganizationID v = su_OrganizationID u"
  shows "assigned_ok us' rs as"
proof -
  have "assignment_ok us' rs a" if a: "assignment_ok us rs a" for a
  proof -
    obtain u where "u \<in> set us" "su_ID u = ur_UserID a" "in_org (ur_OrganizationID a) (su_OrganizationID u)"
      using a by (auto simp: assignment_ok_def)
    then have "\<exists>v \<in> set us'. su_ID v = ur_UserID a \<and> in_org (ur_OrganizationID a) (su_OrganizationID v)"
      using assms(2) [of u] by auto
    with a show ?thesis by (simp add: assignment_ok_def)
  qed
  then show ?thesis using assms(1) by (simp add: assigned_ok_def)
qed

lemma sessions_users: "sessions_ok users ss \<Longrightarrow> users \<subseteq> users' \<Longrightarrow> sessions_ok users' ss"
  by (auto simp: sessions_ok_def)

lemma resets_users: "resets_ok users ts \<Longrightarrow> users \<subseteq> users' \<Longrightarrow> resets_ok users' ts"
  by (auto simp: resets_ok_def)

lemma users_orgs: "users_ok orgs us \<Longrightarrow> orgs \<subseteq> orgs' \<Longrightarrow> users_ok orgs' us"
  by (auto simp: users_ok_def user_ok_def)

lemma roles_orgs: "roles_ok orgs rs \<Longrightarrow> orgs \<subseteq> orgs' \<Longrightarrow> roles_ok orgs' rs"
  unfolding roles_ok_def by blast

subsection \<open>Statements keep it\<close>

named_theorems kept \<open>statements that keep the account tables in order\<close>

lemma unseen_columns [simp]:
  "accounts_ok (db\<lparr>ad_Audit := x\<rparr>) = accounts_ok db" "accounts_ok (db\<lparr>ad_Attempts := y\<rparr>) = accounts_ok db"
  "accounts_ok (db\<lparr>ad_Recovery := z\<rparr>) = accounts_ok db" "accounts_ok (db\<lparr>ad_VerifyTokens := v\<rparr>) = accounts_ok db"
  "accounts_ok (db\<lparr>ad_Authors := w\<rparr>) = accounts_ok db"
  by (simp_all add: accounts_defs)

lemma audited [simp]:
  "accounts_ok (CreateAuditEvent org actor action tt target db) = accounts_ok db"
  "accounts_ok (audit_admin p org action tt target' db) = accounts_ok db"
  "accounts_ok (createPrincipalAudit p action db) = accounts_ok db"
  "accounts_ok (RecordAuthAttempt now identifier ip success db) = accounts_ok db"
  by (simp_all add: CreateAuditEvent_def audit_admin_def createPrincipalAudit_def RecordAuthAttempt_def)

lemma update_where_in: "x \<in> set xs \<Longrightarrow> (if p x then f x else x) \<in> set (update_where p f xs)"
  by (simp add: update_where_def)

text \<open>An update of a user that leaves the columns other tables see.\<close>

lemma on_user_ok [kept]:
  assumes "accounts_ok db"
    and "\<And>u. su_ID (f u) = su_ID u \<and> su_Email (f u) = su_Email u \<and> su_Username (f u) = su_Username u
      \<and> su_OrganizationID (f u) = su_OrganizationID u"
    and "\<And>u. u \<in> set (ad_Users db) \<Longrightarrow> user_ok (org_ids db) u \<Longrightarrow> su_ID u = i \<Longrightarrow> user_ok (org_ids db) (f u)"
  shows "accounts_ok (on_user i f db)"
proof -
  let ?us = "update_where (\<lambda>u. su_ID u = i) f (ad_Users db)"
  have same: "map su_ID ?us = map su_ID (ad_Users db)" "map su_Email ?us = map su_Email (ad_Users db)"
    "map su_Username ?us = map su_Username (ad_Users db)"
    using assms(2) by (simp_all add: update_where_map)
  have ids: "su_ID ` set ?us = su_ID ` set (ad_Users db)" using same(1) by (metis set_map)
  have "users_ok (org_ids db) ?us"
    using assms(1,3) same by (auto simp: accounts_ok_def users_ok_def set_update_where)
  moreover have "assigned_ok ?us (ad_Roles db) (ad_Assignments db)"
  proof (rule assigned_users)
    show "assigned_ok (ad_Users db) (ad_Roles db) (ad_Assignments db)" using assms(1) by (simp add: accounts_ok_def)
    show "\<exists>v \<in> set ?us. su_ID v = su_ID u \<and> su_OrganizationID v = su_OrganizationID u" if "u \<in> set (ad_Users db)" for u
      using update_where_in [OF that, of "\<lambda>u. su_ID u = i" f] assms(2) [of u] by (auto split: if_splits)
  qed
  ultimately show ?thesis using assms(1) ids by (simp add: accounts_defs on_user_def)
qed

lemma revoked_ok [kept]: "accounts_ok db \<Longrightarrow> accounts_ok (revoke_where now p db)"
  by (auto simp: accounts_defs revoke_where_def sessions_ok_def update_where_map set_update_where)

lemma touched_ok [kept]: "accounts_ok db \<Longrightarrow> accounts_ok (TouchSession now idle i db)"
  by (auto simp: accounts_defs TouchSession_def sessions_ok_def update_where_map set_update_where)

lemma spent_ok: "resets_ok users ts \<Longrightarrow> resets_ok users (spend now p ts)"
proof -
  have "filter (\<lambda>t. tk_UsedAt t = None) (spend now p ts) = filter (\<lambda>t. \<not> p t) (filter (\<lambda>t. tk_UsedAt t = None) ts)"
    by (induction ts) (auto simp: spend_def update_where_def)
  then show "resets_ok users ts \<Longrightarrow> resets_ok users (spend now p ts)"
    by (auto simp: resets_ok_def spend_def update_where_map set_update_where distinct_map inj_on_def)
qed

lemma reset_token_rows_ok: "accounts_ok db \<Longrightarrow> accounts_ok (db\<lparr>ad_ResetTokens := spend now p (ad_ResetTokens db)\<rparr>)"
  by (simp add: accounts_defs spent_ok)

lemma tokens_marked_ok [kept]:
  "accounts_ok db \<Longrightarrow> accounts_ok (MarkPasswordResetTokenUsed now i db)"
  "accounts_ok db \<Longrightarrow> accounts_ok (InvalidatePasswordResetTokens now user db)"
  by (simp_all add: MarkPasswordResetTokenUsed_def InvalidatePasswordResetTokens_def reset_token_rows_ok)

lemma find_user_in: "find_user i db = Some u \<Longrightarrow> u \<in> set (ad_Users db) \<and> su_ID u = i"
  by (auto simp: find_user_def find_Some_iff)

lemma find_role_in: "find_role i db = Some r \<Longrightarrow> r \<in> set (ad_Roles db) \<and> ro_ID r = i"
  by (auto simp: find_role_def find_Some_iff)

lemma organization_known_iff: "organization_known org db \<longleftrightarrow> set_option org \<subseteq> org_ids db"
  by (cases org) (auto simp: organization_known_def find_organization_def org_ids_def find_None_iff image_iff)

lemma find_user_None: "find_user i db = None \<longleftrightarrow> i \<notin> user_ids db"
  by (auto simp: find_user_def user_ids_def find_None_iff image_iff)

lemma session_created_ok:
  assumes "accounts_ok db" and "CreateUserSession s db = Some db'"
  shows "accounts_ok db'"
proof -
  have "\<forall>t \<in> set (ad_Sessions db). se_ID t \<noteq> se_ID s \<and> se_TokenHash t \<noteq> se_TokenHash s"
    and "se_UserID s \<in> user_ids db" "se_IdleExpiresAt s \<le> se_ExpiresAt s"
    and db': "db' = db\<lparr>ad_Sessions := ad_Sessions db @ [s]\<rparr>"
    using assms(2) by (auto simp: CreateUserSession_def find_user_None list_ex_iff split: if_splits)
  then have "sessions_ok (user_ids db) (ad_Sessions db @ [s])"
    using assms(1) by (force simp: accounts_ok_def sessions_ok_def)
  then show ?thesis using assms(1) by (simp add: db' accounts_defs)
qed

lemma user_taken_map:
  "\<not> user_taken u us \<longleftrightarrow> su_Email u \<notin> set (map su_Email us) \<and> (su_Username u = None \<or> su_Username u \<notin> set (map su_Username us))"
  by (auto simp: user_taken_def list_ex_iff image_iff)

lemma user_added_ok: "users_ok orgs us \<Longrightarrow> \<not> user_taken u us \<Longrightarrow> su_ID u \<notin> su_ID ` set us \<Longrightarrow> user_ok orgs u \<Longrightarrow>
    users_ok orgs (us @ [u])"
  unfolding user_taken_map users_ok_def by auto

lemma user_inserted_ok:
  assumes "accounts_ok db" and "insert_user u db = Inr db'" and "user_ok (set_option (su_OrganizationID u)) u"
  shows "accounts_ok db'"
proof -
  have new: "\<not> user_taken u (ad_Users db)" "su_ID u \<notin> user_ids db" "set_option (su_OrganizationID u) \<subseteq> org_ids db"
    and db': "db' = db\<lparr>ad_Users := ad_Users db @ [u]\<rparr>"
    using assms(2) by (auto simp: insert_user_def find_user_None organization_known_iff split: if_splits)
  have "users_ok (org_ids db) (ad_Users db @ [u])"
    using assms(1,3) new by (intro user_added_ok) (auto simp: accounts_ok_def user_ids_def user_ok_def)
  moreover have "assigned_ok (ad_Users db @ [u]) (ad_Roles db) (ad_Assignments db)"
    by (rule assigned_users [of "ad_Users db"]) (use assms(1) in \<open>auto simp: accounts_ok_def\<close>)
  moreover have "sessions_ok (user_ids db') (ad_Sessions db)" "resets_ok (user_ids db') (ad_ResetTokens db)"
    using assms(1) by (auto simp: accounts_ok_def db' user_ids_def intro: sessions_users resets_users)
  ultimately show ?thesis using assms(1) by (simp add: db' accounts_defs)
qed

lemma in_orgE: "in_org a (Some b) \<Longrightarrow> a = None \<or> a = Some b"
  by (auto simp: in_org_def)

text \<open>An assignment to every organization is one of the built-in role.\<close>

lemma assignment_inserted_ok:
  assumes "accounts_ok db" and "insert_assignment a db = Inr db'" and "ur_PlantID a = None"
    and "\<And>r. r \<in> set (ad_Roles db) \<Longrightarrow> ro_ID r = ur_RoleID a \<Longrightarrow> ur_OrganizationID a = None \<Longrightarrow>
           ro_OrganizationID r = None \<Longrightarrow> system_role r"
  shows "accounts_ok db'"
proof -
  obtain u where u: "find_user (ur_UserID a) db = Some u" "in_org (ur_OrganizationID a) (su_OrganizationID u)"
    and r: "find_role (ur_RoleID a) db \<noteq> None"
    and new: "\<forall>b \<in> set (ad_Assignments db). ur_ID b \<noteq> ur_ID a
                \<and> (ur_UserID b, ur_RoleID b, ur_PlantID b) \<noteq> (ur_UserID a, ur_RoleID a, ur_PlantID a)"
    and db': "db' = db\<lparr>ad_Assignments := ad_Assignments db @ [a]\<rparr>"
    using assms(2,3) by (auto simp: insert_assignment_def list_ex_iff split: if_splits option.splits)
  have "assignment_ok (ad_Users db) (ad_Roles db) a"
    using u r assms(3,4) by (force simp: assignment_ok_def dest!: find_user_in find_role_in)
  then have "assigned_ok (ad_Users db) (ad_Roles db) (ad_Assignments db @ [a])"
    using assms(1) new by (force simp: accounts_ok_def assigned_ok_def)
  then show ?thesis using assms(1) by (simp add: db' accounts_defs)
qed

lemma assignments_dropped_ok: "accounts_ok db \<Longrightarrow> accounts_ok (db\<lparr>ad_Assignments := filter q (ad_Assignments db)\<rparr>)"
  by (auto simp: accounts_defs assigned_ok_def distinct_map_filter)

lemma system_role_unique:
  assumes "roles_ok orgs rs" and "r \<in> set rs" and "role_key r = (None, to_lower systemAdminRoleName)"
  shows "system_role r"
proof -
  obtain r' where r': "r' \<in> set rs" "system_role r'" using assms(1) by (auto simp: roles_ok_def)
  then have "role_key r' = role_key r" using assms(3) by (simp add: role_key_def system_role_def)
  then have "r' = r" using assms(1,2) r'(1) by (auto simp: roles_ok_def distinct_map dest: inj_onD)
  with r'(2) show ?thesis by simp
qed

text \<open>What \<open>CreateUser\<close>, \<open>UpdateUser\<close> and the bootstrap insert.\<close>

lemma baseline_ok:
  assumes "accounts_ok db" and "insert_assignment (baseline_role i org user roleID roleName) db = Inr db'"
    and "\<And>r. r \<in> set (ad_Roles db) \<Longrightarrow> ro_ID r = roleID \<Longrightarrow> ro_Name r = roleName"
  shows "accounts_ok db'"
proof (rule assignment_inserted_ok [OF assms(1,2)])
  show "ur_PlantID (baseline_role i org user roleID roleName) = None" by (simp add: baseline_role_def)
  fix r assume r: "r \<in> set (ad_Roles db)" "ro_ID r = ur_RoleID (baseline_role i org user roleID roleName)"
    "ur_OrganizationID (baseline_role i org user roleID roleName) = None" "ro_OrganizationID r = None"
  then have "role_key r = (None, to_lower systemAdminRoleName)"
    using assms(3) [of r] by (auto simp: baseline_role_def role_key_def split: if_splits)
  then show "system_role r" using assms(1) r(1) system_role_unique by (auto simp: accounts_ok_def)
qed

lemma role_found_unique: "accounts_ok db \<Longrightarrow> find_role i db = Some r \<Longrightarrow> q \<in> set (ad_Roles db) \<Longrightarrow> ro_ID q = i \<Longrightarrow> q = r"
  by (drule find_role_in) (auto simp: accounts_ok_def roles_ok_def distinct_map dest: inj_onD)

lemma authorized_role_name:
  "authorizedRoleName p org roleID db = Inr name \<Longrightarrow>
     \<exists>r. find_role roleID db = Some r \<and> ro_Name r = name \<and> in_org (ro_OrganizationID r) (Some org)
       \<and> (name = systemAdminRoleName \<longrightarrow> hasGlobalPermissionQuery (pr_UserID p) ''assign'' ''role'' db)"
  by (auto simp: authorizedRoleName_def split: option.splits if_splits)

lemma user_found_unique: "users_ok orgs us \<Longrightarrow> u \<in> set us \<Longrightarrow> v \<in> set us \<Longrightarrow> su_ID u = su_ID v \<Longrightarrow> u = v"
  by (auto simp: users_ok_def distinct_map dest: inj_onD)

lemma found_unique: "accounts_ok db \<Longrightarrow> find_user i db = Some b \<Longrightarrow> u \<in> set (ad_Users db) \<Longrightarrow> su_ID u = i \<Longrightarrow> u = b"
  unfolding accounts_ok_def by (metis find_user_in user_found_unique)

lemma user_updated_ok:
  assumes "accounts_ok db" and "find_user i db = Some before" and "update_user i f before db = Inr db'"
    and "\<And>u. su_ID (f u) = su_ID u" and "user_ok (org_ids db) (f before)"
  shows "accounts_ok db'"
proof -
  let ?us = "ad_Users db" and ?new = "update_where (\<lambda>u. su_ID u = i) f (ad_Users db)"
  have b: "before \<in> set ?us" "su_ID before = i" using assms(2) by (auto dest: find_user_in)
  have uok: "users_ok (org_ids db) ?us" using assms(1) by (simp add: accounts_ok_def)
  have only: "u = before" if "u \<in> set ?us" "su_ID u = i" for u
    using user_found_unique [OF uok that(1) b(1)] that(2) b(2) by simp
  have free: "\<not> user_taken (f before) (filter (\<lambda>v. su_ID v \<noteq> i) ?us)"
    and kept: "\<forall>a \<in> set (ad_Assignments db). ur_UserID a = i \<longrightarrow> in_org (ur_OrganizationID a) (su_OrganizationID (f before))"
    and db': "db' = db\<lparr>ad_Users := ?new\<rparr>"
    using assms(3) by (auto simp: update_user_def on_user_def list_ex_iff split: if_splits)
  have ids: "map su_ID ?new = map su_ID ?us" using assms(4) by (simp add: update_where_map)
  have other: "su_Email y \<noteq> su_Email (f x)" "su_Username (f x) \<noteq> None \<longrightarrow> su_Username y \<noteq> su_Username (f x)"
    if "x \<in> set ?us" "su_ID x = i" "y \<in> set ?us" "su_ID y \<noteq> i" for x y
  proof -
    have "y \<in> set (filter (\<lambda>v. su_ID v \<noteq> i) ?us)" using that by simp
    then show "su_Email y \<noteq> su_Email (f x)" "su_Username (f x) \<noteq> None \<longrightarrow> su_Username y \<noteq> su_Username (f x)"
      using free only [OF that(1,2)] by (auto simp: user_taken_def list_ex_iff)
  qed
  have "distinct (filter (\<lambda>_. True) (map su_Email ?new))"
  proof (rule update_where_key_distinct)
    show "\<forall>x \<in> set ?us. su_ID x = i \<longrightarrow> True \<longrightarrow>
        (\<forall>y \<in> set ?us. su_ID y \<noteq> i \<longrightarrow> su_Email y \<noteq> su_Email (f x))"
      using other by blast
  qed (use uok assms(4) in \<open>auto simp: users_ok_def\<close>)
  then have emails: "distinct (map su_Email ?new)" by simp
  have names: "distinct (filter (\<lambda>n. n \<noteq> None) (map su_Username ?new))"
  proof (rule update_where_key_distinct)
    show "\<forall>x \<in> set ?us. su_ID x = i \<longrightarrow> su_Username (f x) \<noteq> None \<longrightarrow>
        (\<forall>y \<in> set ?us. su_ID y \<noteq> i \<longrightarrow> su_Username y \<noteq> su_Username (f x))"
      using other by blast
  qed (use uok assms(4) in \<open>auto simp: users_ok_def\<close>)
  have users: "users_ok (org_ids db) ?new"
    using uok ids emails names only assms(5) by (auto simp: users_ok_def set_update_where)
  have "assignment_ok ?new (ad_Roles db) a" if a: "a \<in> set (ad_Assignments db)" for a
  proof -
    have aok: "assignment_ok ?us (ad_Roles db) a" using assms(1) a by (auto simp: accounts_ok_def assigned_ok_def)
    then obtain u where u: "u \<in> set ?us" "su_ID u = ur_UserID a" "in_org (ur_OrganizationID a) (su_OrganizationID u)"
      by (auto simp: assignment_ok_def)
    then have "\<exists>v \<in> set ?new. su_ID v = ur_UserID a \<and> in_org (ur_OrganizationID a) (su_OrganizationID v)"
      using update_where_in [OF u(1), of "\<lambda>u. su_ID u = i" f] assms(4) [of u] kept a only [of u]
      by (cases "su_ID u = i") auto
    with aok show ?thesis by (simp add: assignment_ok_def)
  qed
  then have "assigned_ok ?new (ad_Roles db) (ad_Assignments db)"
    using assms(1) by (simp add: accounts_ok_def assigned_ok_def)
  moreover have "user_ids db' = user_ids db" using ids by (simp add: db' user_ids_def flip: set_map)
  ultimately show ?thesis using assms(1) users by (simp add: db' accounts_ok_def org_ids_def)
qed

subsection \<open>Roles, grants and organizations\<close>

text \<open>Roles change only by adding one, renaming one that is not built in, or removing an unused one.\<close>

lemma grants_roles:
  assumes "grants_ok rs ps gs" and "(\<lambda>r. (ro_ID r, ro_OrganizationID r)) ` set rs \<subseteq> (\<lambda>r. (ro_ID r, ro_OrganizationID r)) ` set rs'"
  shows "grants_ok rs' ps gs"
  using assms unfolding grants_ok_def by blast

lemma distinct_ids_same: "distinct (distinct_ids ids)" "set (distinct_ids ids) = set ids"
  by (simp_all add: distinct_ids_def)

lemma validated_ids: "validateRoleInput name description ids = Inr (n, d, ids') \<Longrightarrow> distinct ids' \<and> set ids' = set ids"
  by (auto simp: validateRoleInput_def Let_def distinct_ids_same split: if_splits)

lemma grants_replaced_ok:
  assumes "accounts_ok db" and "replaceRolePermissions p org i ids db = Inr db'" and "distinct ids"
    and "find_role i db = Some r" and "ro_OrganizationID r = org"
  shows "accounts_ok db'"
proof -
  have known: "\<forall>x \<in> set ids. x \<in> pm_ID ` set (ad_Permissions db)"
    and db': "db' = db\<lparr>ad_Grants := filter (\<lambda>g. gt_RoleID g \<noteq> i) (ad_Grants db)
             @ map (\<lambda>x. \<lparr>gt_OrganizationID = org, gt_RoleID = i, gt_PermissionID = x\<rparr>) ids\<rparr>"
    using assms(2) by (auto simp: replaceRolePermissions_def list_all_iff list_ex_iff split: if_splits)
  have r: "(i, org) \<in> (\<lambda>r. (ro_ID r, ro_OrganizationID r)) ` set (ad_Roles db)"
    using assms(4,5) by (auto dest!: find_role_in simp: image_iff)
  have "distinct (map (\<lambda>x. (i, x)) ids)" using assms(3) by (simp add: distinct_map inj_on_def)
  then have "grants_ok (ad_Roles db) (ad_Permissions db) (ad_Grants db')"
    using assms(1) known r by (auto simp: accounts_ok_def grants_ok_def db' distinct_map_filter o_def)
  then show ?thesis using assms(1) by (simp add: db' accounts_defs)
qed

lemma role_added_ok:
  assumes "accounts_ok db" and "\<not> role_name_taken (ro_OrganizationID r) (ro_Name r) (ad_Roles db)"
    and "find_role (ro_ID r) db = None" and "organization_known (ro_OrganizationID r) db"
  shows "accounts_ok (db\<lparr>ad_Roles := ad_Roles db @ [r]\<rparr>)"
proof -
  have new: "ro_ID r \<notin> ro_ID ` set (ad_Roles db)" "role_key r \<notin> role_key ` set (ad_Roles db)"
    using assms(2,3) by (auto simp: find_role_def find_None_iff role_name_taken_def list_ex_iff role_key_def)
  have "assignment_ok (ad_Users db) (ad_Roles db @ [r]) a" if "assignment_ok (ad_Users db) (ad_Roles db) a" for a
    using that new(1) by (auto simp: assignment_ok_def)
  then have "assigned_ok (ad_Users db) (ad_Roles db @ [r]) (ad_Assignments db)"
    using assms(1) by (simp add: accounts_ok_def assigned_ok_def)
  moreover have "roles_ok (org_ids db) (ad_Roles db @ [r])"
    using assms(1,4) new by (auto simp: accounts_ok_def roles_ok_def organization_known_iff)
  moreover have "grants_ok (ad_Roles db @ [r]) (ad_Permissions db) (ad_Grants db)"
    by (rule grants_roles [of "ad_Roles db"]) (use assms(1) in \<open>auto simp: accounts_ok_def\<close>)
  ultimately show ?thesis using assms(1) by (simp add: accounts_defs)
qed

lemma role_renamed_ok:
  assumes "accounts_ok db" and "find_role i db = Some r" and "\<not> ro_IsSystem r"
    and "\<not> role_name_taken (ro_OrganizationID r) name (filter (\<lambda>q. ro_ID q \<noteq> i) (ad_Roles db))"
  shows "accounts_ok (db\<lparr>ad_Roles := update_where (\<lambda>q. ro_ID q = i) (\<lambda>q. q\<lparr>ro_Name := name, ro_Description := description\<rparr>) (ad_Roles db)\<rparr>)"
proof -
  let ?f = "\<lambda>q. q\<lparr>ro_Name := name, ro_Description := description\<rparr>" and ?rs = "ad_Roles db"
  let ?new = "update_where (\<lambda>q. ro_ID q = i) ?f ?rs"
  have rok: "roles_ok (org_ids db) ?rs" using assms(1) by (simp add: accounts_ok_def)
  have only: "q = r" if "q \<in> set ?rs" "ro_ID q = i" for q using role_found_unique [OF assms(1,2) that] .
  have other: "role_key y \<noteq> role_key (?f x)" if "x \<in> set ?rs" "ro_ID x = i" "y \<in> set ?rs" "ro_ID y \<noteq> i" for x y
  proof -
    have "y \<in> set (filter (\<lambda>q. ro_ID q \<noteq> i) ?rs)" using that by simp
    then show ?thesis using assms(4) only [OF that(1,2)] by (auto simp: role_name_taken_def list_ex_iff role_key_def)
  qed
  have "distinct (filter (\<lambda>_. True) (map role_key ?new))"
    by (rule update_where_key_distinct) (use rok other in \<open>auto simp: roles_ok_def\<close>)
  then have keys: "distinct (map role_key ?new)" by simp
  have same: "map ro_ID ?new = map ro_ID ?rs" "map (\<lambda>r. (ro_ID r, ro_OrganizationID r)) ?new = map (\<lambda>r. (ro_ID r, ro_OrganizationID r)) ?rs"
    by (simp_all add: update_where_map)
  have sets: "ro_ID ` set ?new = ro_ID ` set ?rs"
    "(\<lambda>r. (ro_ID r, ro_OrganizationID r)) ` set ?new = (\<lambda>r. (ro_ID r, ro_OrganizationID r)) ` set ?rs"
    using arg_cong [OF same(1), of set] arg_cong [OF same(2), of set] by (simp_all only: set_map)
  obtain q where q: "q \<in> set ?rs" "system_role q" using rok by (auto simp: roles_ok_def)
  then have "ro_ID q \<noteq> i" using only assms(3) by (auto simp: system_role_def)
  then have system: "q \<in> set ?new" using q(1) by (auto simp: set_update_where)
  have "assignment_ok (ad_Users db) ?new a" if a: "assignment_ok (ad_Users db) ?rs a" for a
  proof -
    have sys: "system_role x" if "x \<in> set ?rs" "ro_ID x = ur_RoleID a" "ur_OrganizationID a = None" "ro_OrganizationID x = None" for x
      using a that by (simp add: assignment_ok_def)
    have "system_role x" if x: "x \<in> set ?new" "ro_ID x = ur_RoleID a" "ur_OrganizationID a = None" "ro_OrganizationID x = None" for x
    proof (cases "x \<in> set ?rs")
      case False
      then obtain y where y: "y \<in> set ?rs" "ro_ID y = i" "x = ?f y" using x(1) by (auto simp: set_update_where)
      have "system_role y" using sys [OF y(1)] x y(3) by simp
      then show ?thesis using only [OF y(1,2)] assms(3) by (simp add: system_role_def)
    qed (use sys x in blast)
    then show ?thesis using a sets(1) by (simp add: assignment_ok_def)
  qed
  then have "assigned_ok (ad_Users db) ?new (ad_Assignments db)"
    using assms(1) by (simp add: accounts_ok_def assigned_ok_def)
  moreover have "roles_ok (org_ids db) ?new"
    using rok keys same(1) system q(2) by (auto simp: roles_ok_def set_update_where)
  moreover have "grants_ok ?new (ad_Permissions db) (ad_Grants db)"
    by (rule grants_roles [of ?rs]) (use assms(1) sets(2) in \<open>auto simp: accounts_ok_def\<close>)
  ultimately show ?thesis using assms(1) by (simp add: accounts_defs)
qed

lemma role_deleted_ok:
  assumes "accounts_ok db" and "\<not> list_ex (\<lambda>a. ur_RoleID a = i) (ad_Assignments db)"
    and "find_role i db = Some r" and "\<not> ro_IsSystem r"
  shows "accounts_ok (db\<lparr>ad_Roles := filter (\<lambda>q. ro_ID q \<noteq> i) (ad_Roles db), ad_Grants := filter (\<lambda>g. gt_RoleID g \<noteq> i) (ad_Grants db)\<rparr>)"
proof -
  let ?rs = "filter (\<lambda>q. ro_ID q \<noteq> i) (ad_Roles db)"
  have rok: "roles_ok (org_ids db) (ad_Roles db)" using assms(1) by (simp add: accounts_ok_def)
  obtain q where q: "q \<in> set (ad_Roles db)" "system_role q" using rok by (auto simp: roles_ok_def)
  then have "ro_ID q \<noteq> i" using role_found_unique [OF assms(1,3) q(1)] assms(4) by (auto simp: system_role_def)
  then have "roles_ok (org_ids db) ?rs" using rok q by (auto simp: roles_ok_def distinct_map_filter)
  moreover have "assignment_ok (ad_Users db) ?rs a"
    if "a \<in> set (ad_Assignments db)" "assignment_ok (ad_Users db) (ad_Roles db) a" for a
  proof -
    have "ur_RoleID a \<noteq> i" using that(1) assms(2) by (auto simp: list_ex_iff)
    then show ?thesis using that(2) by (auto simp: assignment_ok_def image_iff)
  qed
  then have "assigned_ok (ad_Users db) ?rs (ad_Assignments db)"
    using assms(1) by (simp add: accounts_ok_def assigned_ok_def)
  moreover have "grants_ok ?rs (ad_Permissions db) (filter (\<lambda>g. gt_RoleID g \<noteq> i) (ad_Grants db))"
    using assms(1) by (force simp: accounts_ok_def grants_ok_def distinct_map_filter)
  ultimately show ?thesis using assms(1) by (simp add: accounts_defs)
qed

lemma organizations_ok:
  assumes "accounts_ok db" and "distinct (map og_ID os)" "distinct (map og_Code os)" and "org_ids db \<subseteq> og_ID ` set os"
  shows "accounts_ok (db\<lparr>ad_Organizations := os\<rparr>)"
  using assms by (auto simp: accounts_ok_def org_ids_def user_ids_def intro: users_orgs roles_orgs)

lemma user_deleted_ok:
  assumes "accounts_ok db" and "delete_user i db = Some db'"
  shows "accounts_ok db'"
proof -
  have db': "db' = db\<lparr>ad_Users := filter (\<lambda>u. su_ID u \<noteq> i) (ad_Users db),
      ad_Sessions := filter (\<lambda>s. se_UserID s \<noteq> i) (ad_Sessions db),
      ad_ResetTokens := filter (\<lambda>t. tk_UserID t \<noteq> i) (ad_ResetTokens db),
      ad_VerifyTokens := filter (\<lambda>t. tk_UserID t \<noteq> i \<or> tk_OrganizationID t = None) (ad_VerifyTokens db),
      ad_Assignments := filter (\<lambda>a. ur_UserID a \<noteq> i) (ad_Assignments db)\<rparr>"
    using assms(2) by (auto simp: delete_user_def split: if_splits)
  have names: "filter (\<lambda>n. n \<noteq> None) (map su_Username us) = map su_Username (filter (\<lambda>u. su_Username u \<noteq> None) us)" for us
    by (simp add: filter_map o_def)
  have users: "users_ok (org_ids db) (filter (\<lambda>u. su_ID u \<noteq> i) (ad_Users db))"
    using assms(1) unfolding accounts_ok_def users_ok_def names
    by (auto simp: distinct_map_filter filter_filter conj_commute distinct_map intro: inj_on_subset)
  have resets: "resets_ok (user_ids db') (filter (\<lambda>t. tk_UserID t \<noteq> i) (ad_ResetTokens db))"
    using assms(1) unfolding accounts_ok_def resets_ok_def
    by (auto simp: db' user_ids_def distinct_map_filter distinct_map intro: inj_on_subset)
  have "assignment_ok (filter (\<lambda>u. su_ID u \<noteq> i) (ad_Users db)) (ad_Roles db) a"
    if "assignment_ok (ad_Users db) (ad_Roles db) a" "ur_UserID a \<noteq> i" for a
    using that by (auto simp: assignment_ok_def)
  then have "assigned_ok (filter (\<lambda>u. su_ID u \<noteq> i) (ad_Users db)) (ad_Roles db) (filter (\<lambda>a. ur_UserID a \<noteq> i) (ad_Assignments db))"
    using assms(1) by (auto simp: accounts_ok_def assigned_ok_def distinct_map_filter)
  with users resets assms(1) show ?thesis
    by (auto simp: db' accounts_defs sessions_ok_def distinct_map_filter)
qed

subsection \<open>Operations keep it\<close>

lemma name_of_role: "accounts_ok db \<Longrightarrow> authorizedRoleName p org i db = Inr name \<Longrightarrow>
    r \<in> set (ad_Roles db) \<Longrightarrow> ro_ID r = i \<Longrightarrow> ro_Name r = name"
  by (auto dest!: authorized_role_name role_found_unique)

lemma roles_kept:
  "insert_user u db = Inr db' \<Longrightarrow> ad_Roles db' = ad_Roles db \<and> ad_Organizations db' = ad_Organizations db"
  "update_user i f before db = Inr db' \<Longrightarrow> ad_Roles db' = ad_Roles db"
  by (auto simp: insert_user_def update_user_def on_user_def split: if_splits)

lemma CreateUser_ok: "accounts_ok db \<Longrightarrow> accounts_ok (fst (CreateUser env now draw p input db))"
proof (cases "fst (CreateUser env now draw p input db) = db")
  case False
  assume ok: "accounts_ok db"
  obtain profile org roleName db1 db2 where
    n: "authorizedRoleName p org (cu_RoleID input) db = Inr roleName"
    and u: "insert_user (created_user env now draw org profile (cu_Password input)) db = Inr db1"
    and a: "insert_assignment (baseline_role (dr_ID2 draw) org (dr_ID draw) (cu_RoleID input) roleName) db1 = Inr db2"
    and r: "fst (CreateUser env now draw p input db) = audit_admin p (Some org) ''user.created'' ''app_user'' (dr_ID draw) db2"
    using CreateUser_changed [OF refl False] by blast
  have ok1: "accounts_ok db1"
    by (rule user_inserted_ok [OF ok u]) (auto simp: created_user_def user_ok_def split: prod.split)
  have "accounts_ok db2"
    by (rule baseline_ok [OF ok1 a]) (use name_of_role [OF ok n] roles_kept(1) [OF u] in auto)
  then show ?thesis by (simp add: r)
qed simp

lemma UpdateUser_ok: "accounts_ok db \<Longrightarrow> accounts_ok (fst (UpdateUser env now draw p i input db))"
proof (cases "fst (UpdateUser env now draw p i input db) = db")
  case False
  assume ok: "accounts_ok db"
  obtain profile before org roleName db1 where
    b: "find_user i db = Some before" and n: "authorizedRoleName p org (uu_RoleID input) db = Inr roleName"
    and r: "replace_role now draw input org roleName profile before db = Inr db1"
    and d: "fst (UpdateUser env now draw p i input db) = audit_admin p (Some org) ''user.updated'' ''app_user'' i db1"
    using UpdateUser_changed [OF refl False] by blast
  have i: "su_ID before = i" "before \<in> set (ad_Users db)" using b by (auto dest: find_user_in)
  define db0 where "db0 = db\<lparr>ad_Assignments := filter (\<lambda>a. \<not> (ur_UserID a = i \<and> ur_PlantID a = None)) (ad_Assignments db)\<rparr>"
  obtain db2 db3 where u: "update_user i (changed_user input org profile) before db0 = Inr db2"
    and a: "insert_assignment (baseline_role (dr_ID2 draw) org i (uu_RoleID input) roleName) db2 = Inr db3"
    and db1: "db1 = (if uu_IsActive input then db3 else RevokeAllUserSessions now i db3)"
    using r by (auto simp: replace_role_def Let_def i db0_def split: sum.splits)
  have ok0: "accounts_ok db0" using ok by (simp add: db0_def assignments_dropped_ok)
  have "organization_known (Some org) db0"
    using u by (auto simp: update_user_def changed_user_def split: if_splits prod.splits)
  then have org: "org \<in> org_ids db0" by (simp add: organization_known_iff)
  have fu: "find_user i db0 = Some before" using b by (simp add: db0_def find_user_def)
  have "user_ok (org_ids db0) before" using ok0 i by (auto simp: accounts_ok_def users_ok_def db0_def)
  then have uok: "user_ok (org_ids db0) (changed_user input org profile before)"
    using org by (auto simp: user_ok_def changed_user_def split: prod.split)
  have ok2: "accounts_ok db2"
    by (rule user_updated_ok [OF ok0 fu u _ uok]) (auto simp: changed_user_def split: prod.split)
  have "accounts_ok db3"
    by (rule baseline_ok [OF ok2 a]) (use name_of_role [OF ok n] roles_kept(2) [OF u] in \<open>auto simp: db0_def\<close>)
  then show ?thesis by (simp add: d db1 RevokeAllUserSessions_def revoked_ok)
qed simp

lemma same_user_ok [simp]:
  "user_ok orgs (u\<lparr>su_PasswordHash := h\<rparr>) = user_ok orgs u" "user_ok orgs (u\<lparr>su_VerifiedAt := v\<rparr>) = user_ok orgs u"
  "user_ok orgs (u\<lparr>su_LockedUntil := l\<rparr>) = user_ok orgs u" "user_ok orgs (u\<lparr>su_Email := e\<rparr>) = user_ok orgs u"
  "user_ok orgs (u\<lparr>su_Username := n\<rparr>) = user_ok orgs u" "user_ok orgs (u\<lparr>su_DisplayName := d\<rparr>) = user_ok orgs u"
  by (simp_all add: user_ok_def)

lemma counter_ok [simp]: "user_ok orgs u \<Longrightarrow> user_ok orgs (u\<lparr>su_Failed := 0\<rparr>)"
  "user_ok orgs u \<Longrightarrow> user_ok orgs (u\<lparr>su_Failed := su_Failed u + 1\<rparr>)"
  by (simp_all add: user_ok_def)

lemma user_statements_ok [kept]:
  assumes "accounts_ok db"
  shows "accounts_ok (RecordLoginSuccess i db)" "accounts_ok (UpdateUserPassword hash i db)"
    "accounts_ok (on_user i (\<lambda>u. u\<lparr>su_PasswordHash := hash\<rparr>) db)"
    "accounts_ok (on_user i (\<lambda>u. u\<lparr>su_VerifiedAt := v\<rparr>) db)"
    "RecordLoginFailure now i db = Some db' \<Longrightarrow> accounts_ok db'"
  using assms by (auto simp: RecordLoginSuccess_def UpdateUserPassword_def RecordLoginFailure_def intro!: on_user_ok split: if_splits)

lemma sessions_ended_ok [kept]:
  "accounts_ok db \<Longrightarrow> accounts_ok (RevokeAllUserSessions now i db)" "accounts_ok db \<Longrightarrow> accounts_ok (RevokeSession now j db)"
  by (simp_all add: RevokeAllUserSessions_def RevokeSession_def revoked_ok)

lemma ResetUserPassword_ok: "accounts_ok db \<Longrightarrow> accounts_ok (fst (ResetUserPassword env now p i new db))"
  by (cases "fst (ResetUserPassword env now p i new db) = db")
    (auto dest!: ResetUserPassword_changed [OF refl] simp: kept)

lemma HardDeleteUser_ok: "accounts_ok db \<Longrightarrow> accounts_ok (fst (HardDeleteUser p i confirmation db))"
  by (cases "fst (HardDeleteUser p i confirmation db) = db")
    (auto dest!: HardDeleteUser_changed [OF refl] elim!: user_deleted_ok [rotated])

lemma SetUserActive_ok: "accounts_ok db \<Longrightarrow> accounts_ok (fst (SetUserActive now p i active db))"
proof (cases "fst (SetUserActive now p i active db) = db")
  case False
  assume ok: "accounts_ok db"
  obtain before org where b: "find_user i db = Some before" "su_OrganizationID before = Some org"
    and r: "fst (SetUserActive now p i active db) =
       (let db1 = on_user i (\<lambda>u. u\<lparr>su_Status := (if active then ''ACTIVE'' else ''DISABLED'')\<rparr>) db
        in audit_admin p (Some org) ''user.status_updated'' ''app_user'' i
             (if active then db1 else RevokeAllUserSessions now i db1))"
    using SetUserActive_changed [OF refl False] by blast
  have only: "u = before" if "u \<in> set (ad_Users db)" "su_ID u = i" for u
    using found_unique [OF ok b(1) that] .
  have "accounts_ok (on_user i (\<lambda>u. u\<lparr>su_Status := (if active then ''ACTIVE'' else ''DISABLED'')\<rparr>) db)"
  proof (rule on_user_ok [OF ok])
    fix u assume u: "u \<in> set (ad_Users db)" "user_ok (org_ids db) u" "su_ID u = i"
    then show "user_ok (org_ids db) (u\<lparr>su_Status := (if active then ''ACTIVE'' else ''DISABLED'')\<rparr>)"
      using only [OF u(1,3)] b(2) by (simp add: user_ok_def)
  qed simp
  then show ?thesis by (auto simp: r Let_def kept)
qed simp

lemma UnlockUser_ok: "accounts_ok db \<Longrightarrow> accounts_ok (fst (UnlockUser p i db))"
  by (cases "fst (UnlockUser p i db) = db") (auto dest!: UnlockUser_changed [OF refl] simp: kept)

lemma UpdateOwnProfile_ok: "accounts_ok db \<Longrightarrow> accounts_ok (fst (UpdateOwnProfile env p input db))"
proof (cases "fst (UpdateOwnProfile env p input db) = db")
  case False
  assume ok: "accounts_ok db"
  obtain email username displayName before org db1 where b: "find_user (pr_UserID p) db = Some before"
    and u: "update_user (pr_UserID p) (\<lambda>u. u\<lparr>su_Email := email, su_Username := optional_text username, su_DisplayName := displayName\<rparr>)
            before db = Inr db1"
    and r: "fst (UpdateOwnProfile env p input db) = audit_admin p (Some org) ''user.profile_updated'' ''app_user'' (pr_UserID p) db1"
    using UpdateOwnProfile_changed [OF refl False] by blast
  have "user_ok (org_ids db) before" using ok b by (auto simp: accounts_ok_def users_ok_def dest: find_user_in)
  then have "accounts_ok db1" by (intro user_updated_ok [OF ok b u]) auto
  then show ?thesis by (simp add: r)
qed simp

lemma find_snoc: "find P xs = None \<Longrightarrow> P x \<Longrightarrow> find P (xs @ [x]) = Some x"
  by (induction xs) (auto split: if_splits)

lemma CreateRole_ok: "accounts_ok db \<Longrightarrow> accounts_ok (fst (CreateRole draw p input db))"
proof (cases "fst (CreateRole draw p input db) = db")
  case False
  assume ok: "accounts_ok db"
  define org where "org = (if rr_Global input then None
             else if rr_OrganizationID input = None then pr_OrganizationID p else rr_OrganizationID input)"
  obtain name description ids db1 where
    v: "validateRoleInput (rr_Name input) (rr_Description input) (rr_PermissionIDs input) = Inr (name, description, ids)"
    and free: "\<not> role_name_taken org name (ad_Roles db)" "find_role (dr_ID draw) db = None" "organization_known org db"
    and g: "replaceRolePermissions p org (dr_ID draw) ids (db\<lparr>ad_Roles := ad_Roles db @ [new_role draw org name description]\<rparr>)
            = Inr db1"
    and r: "fst (CreateRole draw p input db) = audit_admin p org ''role.created'' ''role'' (dr_ID draw) db1"
    using CreateRole_changed [OF refl False] unfolding org_def by blast
  have "accounts_ok (db\<lparr>ad_Roles := ad_Roles db @ [new_role draw org name description]\<rparr>)"
    by (rule role_added_ok [OF ok]) (use free in \<open>auto simp: new_role_def\<close>)
  then have "accounts_ok db1"
  proof (rule grants_replaced_ok [OF _ g])
    show "distinct ids" using validated_ids [OF v] by simp
    show "find_role (dr_ID draw) (db\<lparr>ad_Roles := ad_Roles db @ [new_role draw org name description]\<rparr>)
        = Some (new_role draw org name description)"
      using free(2) by (auto simp: find_role_def new_role_def intro: find_snoc)
  qed (simp add: new_role_def)
  then show ?thesis by (simp add: r)
qed simp

lemma UpdateRole_ok: "accounts_ok db \<Longrightarrow> accounts_ok (fst (UpdateRole p i input db))"
proof (cases "fst (UpdateRole p i input db) = db")
  case False
  assume ok: "accounts_ok db"
  obtain r name description ids db1 where b: "find_role i db = Some r" "\<not> ro_IsSystem r"
    and free: "\<not> role_name_taken (ro_OrganizationID r) name (filter (\<lambda>q. ro_ID q \<noteq> i) (ad_Roles db))"
    and v: "validateRoleInput (rr_Name input) (rr_Description input) (rr_PermissionIDs input) = Inr (name, description, ids)"
    and g: "replaceRolePermissions p (ro_OrganizationID r) i ids
          (db\<lparr>ad_Roles := update_where (\<lambda>q. ro_ID q = i) (\<lambda>q. q\<lparr>ro_Name := name, ro_Description := description\<rparr>) (ad_Roles db)\<rparr>)
          = Inr db1"
    and d: "fst (UpdateRole p i input db) = audit_admin p (ro_OrganizationID r) ''role.updated'' ''role'' i db1"
    using UpdateRole_changed [OF refl False] by blast
  have "accounts_ok db1"
  proof (rule grants_replaced_ok [OF role_renamed_ok [OF ok b free] g])
    show "distinct ids" using validated_ids [OF v] by simp
    show "find_role i (db\<lparr>ad_Roles := update_where (\<lambda>q. ro_ID q = i) (\<lambda>q. q\<lparr>ro_Name := name, ro_Description := description\<rparr>) (ad_Roles db)\<rparr>)
        = Some (r\<lparr>ro_Name := name, ro_Description := description\<rparr>)"
      using b(1) by (auto simp: find_role_def intro: find_update_where)
  qed simp
  then show ?thesis by (simp add: d)
qed simp

lemma DeleteRole_ok: "accounts_ok db \<Longrightarrow> accounts_ok (fst (DeleteRole p i db))"
  by (cases "fst (DeleteRole p i db) = db")
    (auto dest!: DeleteRole_changed [OF refl] dest: role_deleted_ok)

lemma organization_added_ok:
  "accounts_ok db \<Longrightarrow> \<not> list_ex (\<lambda>q. og_Code q = og_Code o' \<or> og_ID q = og_ID o') (ad_Organizations db) \<Longrightarrow>
     accounts_ok (db\<lparr>ad_Organizations := ad_Organizations db @ [o']\<rparr>)"
  by (rule organizations_ok) (auto simp: accounts_ok_def org_ids_def list_ex_iff)

lemma CreateOrganization_ok: "accounts_ok db \<Longrightarrow> accounts_ok (fst (CreateOrganization draw p code name db))"
proof (cases "fst (CreateOrganization draw p code name db) = db")
  case False
  assume ok: "accounts_ok db"
  obtain c n where free: "\<not> list_ex (\<lambda>q. og_Code q = c \<or> og_ID q = dr_ID draw) (ad_Organizations db)"
    and d: "fst (CreateOrganization draw p code name db) =
          audit_admin p (Some (dr_ID draw)) ''organization.created'' ''organization'' (dr_ID draw)
            (db\<lparr>ad_Organizations := ad_Organizations db @
                 [\<lparr>og_ID = dr_ID draw, og_Code = c, og_Name = n, og_IsActive = True\<rparr>]\<rparr>)"
    using CreateOrganization_changed [OF refl False] by blast
  show ?thesis unfolding d audited by (rule organization_added_ok [OF ok]) (use free in simp)
qed simp

lemma UpdateOrganization_ok: "accounts_ok db \<Longrightarrow> accounts_ok (fst (UpdateOrganization p i input db))"
proof (cases "fst (UpdateOrganization p i input db) = db")
  case False
  assume ok: "accounts_ok db"
  let ?os = "ad_Organizations db"
  obtain c n where free: "\<not> list_ex (\<lambda>q. og_ID q \<noteq> i \<and> og_Code q = c) ?os"
    and d: "fst (UpdateOrganization p i input db) =
          audit_admin p (Some i) ''organization.updated'' ''organization'' i
            (db\<lparr>ad_Organizations := update_where (\<lambda>q. og_ID q = i)
                 (\<lambda>q. q\<lparr>og_Code := c, og_Name := n, og_IsActive := oi_IsActive input\<rparr>) ?os\<rparr>)"
    using UpdateOrganization_changed [OF refl False] by blast
  let ?new = "update_where (\<lambda>q. og_ID q = i) (\<lambda>q. q\<lparr>og_Code := c, og_Name := n, og_IsActive := oi_IsActive input\<rparr>) ?os"
  have ids: "map og_ID ?new = map og_ID ?os" by (simp add: update_where_map)
  have sets: "og_ID ` set ?new = og_ID ` set ?os" using arg_cong [OF ids, of set] by (simp only: set_map)
  have "distinct (filter (\<lambda>_. True) (map og_Code ?new))"
    by (rule update_where_key_distinct) (use ok free in \<open>auto simp: accounts_ok_def list_ex_iff\<close>)
  then have "accounts_ok (db\<lparr>ad_Organizations := ?new\<rparr>)"
    using ok ids sets by (intro organizations_ok) (auto simp: accounts_ok_def org_ids_def)
  then show ?thesis by (simp add: d)
qed simp

lemma session_operations_ok:
  assumes "accounts_ok db"
  shows "accounts_ok (fst (Logout now p db))" "accounts_ok (fst (LogoutAll now p db))"
    "accounts_ok (fst (ChangePassword env now p current new db))" "accounts_ok (fst (RevokeOwnSession now p i db))"
    "accounts_ok (fst (ClearOwnSessions p confirmation db))"
proof -
  have "accounts_ok (db\<lparr>ad_Sessions := filter q (ad_Sessions db)\<rparr>)" for q
    using assms by (auto simp: accounts_defs sessions_ok_def distinct_map_filter)
  moreover have "ad_Sessions (createPrincipalAudit p action db) = ad_Sessions db"
    "createPrincipalAudit p action db\<lparr>ad_Sessions := ss\<rparr> = createPrincipalAudit p action (db\<lparr>ad_Sessions := ss\<rparr>)" for action ss
    by (simp_all add: createPrincipalAudit_def CreateAuditEvent_def)
  ultimately show "accounts_ok (fst (ClearOwnSessions p confirmation db))"
    using assms by (simp add: ClearOwnSessions_def Let_def)
qed (use assms in \<open>simp_all add: Logout_def LogoutAll_def ChangePassword_def sessionAction_def RevokeOwnSession_def
  RevokeOwnedSession_def UpdatePasswordAndRevokeOtherSessions_def kept\<close>)

theorem perform_ok: "accounts_ok db \<Longrightarrow> accounts_ok (perform env now draw p op db)"
  by (cases op) (simp_all add: CreateUser_ok UpdateUser_ok ResetUserPassword_ok HardDeleteUser_ok SetUserActive_ok
    UnlockUser_ok UpdateOwnProfile_ok CreateRole_ok UpdateRole_ok DeleteRole_ok CreateOrganization_ok
    UpdateOrganization_ok session_operations_ok)

subsection \<open>The public operations\<close>

lemma EnsureAdmin_ok: "accounts_ok db \<Longrightarrow> accounts_ok (fst (EnsureAdmin env draw orgID getenv db))"
proof (cases "fst (EnsureAdmin env draw orgID getenv db) = db")
  case False
  assume ok: "accounts_ok db"
  obtain input db1 o' db2 r db3 where o1: "bootstrap_organization orgID input db = Some db1"
    and "find (\<lambda>o'. og_Code o' = bi_OrganizationCode input) (ad_Organizations db1) = Some o'"
    and u: "insert_user (bootstrap_user env draw (og_ID o') input) db1 = Inr db2"
    and r: "find (\<lambda>r. ro_OrganizationID r = None \<and> ro_Name r = bi_Role input) (ad_Roles db2) = Some r"
    and a: "insert_assignment (baseline_role (dr_ID2 draw) (og_ID o') (dr_ID draw) (ro_ID r) (bi_Role input)) db2 = Inr db3"
    and d: "fst (EnsureAdmin env draw orgID getenv db) =
       CreateAuditEvent (Some (og_ID o')) (Some (dr_ID draw)) ''auth.user.bootstrap'' ''app_user'' (Some (dr_ID draw)) db3"
    using bootstrap_changed [OF refl False] by blast
  have "accounts_ok db1"
    using o1 ok by (auto simp: bootstrap_organization_def list_ex_iff intro!: organization_added_ok split: if_splits)
  then have ok2: "accounts_ok db2"
    by (rule user_inserted_ok [OF _ u]) (simp add: bootstrap_user_def user_ok_def)
  have "r \<in> set (ad_Roles db2)" "ro_Name r = bi_Role input" using r by (auto simp: find_Some_iff)
  moreover have "distinct (map ro_ID (ad_Roles db2))" using ok2 by (simp add: accounts_ok_def roles_ok_def)
  ultimately have "ro_Name q = bi_Role input" if "q \<in> set (ad_Roles db2)" "ro_ID q = ro_ID r" for q
    using that by (metis distinct_map inj_onD)
  then have "accounts_ok db3" by (rule baseline_ok [OF ok2 a])
  then show ?thesis by (simp add: d)
qed simp

lemma login_write_ok: "accounts_ok db \<Longrightarrow> accounts_ok (fst (login_write env now draw input plan db))"
proof (cases plan)
  case (LoginFailed user increment)
  assume "accounts_ok db"
  then show ?thesis unfolding LoginFailed
    by (auto simp: login_write_def recordFailure_def Let_def dest!: user_statements_ok(5) [rotated] split: option.split if_split_asm)
next
  case (LoginPassed u)
  assume ok: "accounts_ok db"
  have "accounts_ok (RecordAuthAttempt now (su_Email u) (li_SourceIP input) True (RecordLoginSuccess (su_ID u) db))"
    using ok by (simp add: kept)
  then show ?thesis using ok unfolding LoginPassed
    by (auto simp: login_write_def recordSuccess_def Let_def dest!: session_created_ok [rotated] split: option.split)
qed (simp add: login_write_def)

lemma Authenticate_ok: "accounts_ok db \<Longrightarrow> accounts_ok (fst (Authenticate env now token db))"
  by (simp add: Authenticate_def touched_ok split: option.split)

lemma spent_closed: "user \<notin> tk_UserID ` {t \<in> set (spend now (\<lambda>t. tk_UserID t = user) ts). tk_UsedAt t = None}"
proof
  assume "user \<in> tk_UserID ` {t \<in> set (spend now (\<lambda>t. tk_UserID t = user) ts). tk_UsedAt t = None}"
  then obtain t where "t \<in> set (spend now (\<lambda>t. tk_UserID t = user) ts)" "tk_UsedAt t = None" "tk_UserID t = user"
    by (elim imageE CollectE conjE) simp
  moreover from this obtain x where "t = (if tk_UserID x = user \<and> tk_UsedAt x = None then x\<lparr>tk_UsedAt := Some now\<rparr> else x)"
    unfolding spend_def update_where_def set_map by (elim imageE)
  ultimately show False by (cases "tk_UserID x = user \<and> tk_UsedAt x = None") simp_all
qed

lemma RequestPasswordReset_ok: "accounts_ok db \<Longrightarrow> accounts_ok (fst (RequestPasswordReset env now draw email ip db))"
proof (cases "fst (RequestPasswordReset env now draw email ip db) = db")
  case False
  assume ok: "accounts_ok db"
  show ?thesis using RequestPasswordReset_changed [OF refl False]
  proof (elim disjE exE conjE)
    assume "RecordPasswordRecoveryAttempt now ''REQUEST'' (to_lower (trim_space email)) ip False db
      = Some (fst (RequestPasswordReset env now draw email ip db))"
    then show ?thesis using ok by (auto dest!: recovery_recorded)
  next
    fix u
    assume u: "GetPasswordResetUser (to_lower (trim_space email)) db = Some u"
      and tx: "request_tx env now draw u (to_lower (trim_space email)) ip db = Some (fst (RequestPasswordReset env now draw email ip db))"
    let ?spent = "spend now (\<lambda>t. tk_UserID t = su_ID u) (ad_ResetTokens db)"
    obtain tokens rows events where t: "insert_token (new_reset_token env now draw u ip) ?spent = Some tokens"
      and d: "fst (RequestPasswordReset env now draw email ip db)
        = db\<lparr>ad_ResetTokens := tokens, ad_Recovery := rows, ad_Audit := events\<rparr>"
      using request_tx_done [OF tx] by blast
    have "resets_ok (user_ids db) ?spent" using ok by (simp add: accounts_ok_def spent_ok)
    moreover have "su_ID u \<in> user_ids db" using reset_user_in [OF u] by (simp add: user_ids_def)
    moreover have "tk_ID (new_reset_token env now draw u ip) \<notin> tk_ID ` set ?spent"
      "tk_Hash (new_reset_token env now draw u ip) \<notin> tk_Hash ` set ?spent"
      "tokens = ?spent @ [new_reset_token env now draw u ip]"
      using t by (force simp: insert_token_def list_ex_iff split: if_splits)+
    moreover have "su_ID u \<notin> tk_UserID ` {t \<in> set ?spent. tk_UsedAt t = None}" by (rule spent_closed)
    ultimately have "resets_ok (user_ids db) tokens"
      by (simp add: resets_ok_def new_reset_token_def)
    then show ?thesis using ok by (simp add: d accounts_defs)
  qed
qed simp

lemma ResetPassword_ok: "accounts_ok db \<Longrightarrow> accounts_ok (fst (ResetPassword env now token new ip db))"
  by (cases "fst (ResetPassword env now token new ip db) = db")
    (auto dest!: ResetPassword_changed [OF refl] simp: kept)

lemma Register_ok: "accounts_ok db \<Longrightarrow> accounts_ok (fst (Register env now draw input ip db))"
proof (cases "fst (Register env now draw input ip db) = db")
  case False
  assume ok: "accounts_ok db"
  obtain db1 tokens where u: "insert_user (registered_user env draw (to_lower (trim_space (ri_Email input)))
      (to_lower (trim_space (ri_Username input))) (trim_space (ri_DisplayName input)) (ri_Password input)) db = Inr db1"
    and d: "fst (Register env now draw input ip db) = db1\<lparr>ad_VerifyTokens := tokens\<rparr>"
    using Register_changed [OF refl False] by blast
  have "accounts_ok db1" by (rule user_inserted_ok [OF ok u]) (simp add: registered_user_def user_ok_def)
  then show ?thesis by (simp add: d)
qed simp

lemma VerifyEmail_ok: "accounts_ok db \<Longrightarrow> accounts_ok (fst (VerifyEmail env now token db))"
  by (cases "fst (VerifyEmail env now token db) = db")
    (auto dest!: VerifyEmail_changed [OF refl] intro!: user_statements_ok(4))

lemma account_step_ok: "account_step env s t \<Longrightarrow> accounts_ok (as_Db s) \<Longrightarrow> accounts_ok (as_Db t)"
  by (erule account_step_db) (simp_all add: EnsureAdmin_ok login_write_ok Authenticate_ok perform_ok RequestPasswordReset_ok
    ResetPassword_ok Register_ok VerifyEmail_ok)

lemma reach_ok: "accounts_reach env s t \<Longrightarrow> accounts_ok (as_Db s) \<Longrightarrow> accounts_ok (as_Db t)"
  by (induction rule: accounts_reach.induct) (auto intro: account_step_ok)

end
