(* ===== verification/AccountSecurity.thy ===== *)
theory AccountSecurity
  imports AccountSafety
begin

section \<open>auth-service: who may change what\<close>

text \<open>
  The properties of the account machine that its users rely on: tenants are isolated, global rights come from
  global rights, a role is granted only what its editor holds, a password reset ends every earlier session, and
  wrong passwords are bounded.
\<close>

subsection \<open>Rights\<close>

lemma global_right_admin:
  assumes "accounts_ok db" and "hasGlobalPermissionQuery user action resource db"
  shows "system_admin user db"
proof -
  obtain a r where a: "a \<in> set (ad_Assignments db)" "ur_UserID a = user" "ur_OrganizationID a = None"
    and r: "r \<in> set (ad_Roles db)" "ro_ID r = ur_RoleID a" "ro_OrganizationID r = None"
    using assms(2) by (auto simp: hasGlobalPermissionQuery_def granted_iff)
  have "assignment_ok (ad_Users db) (ad_Roles db) a" using assms(1) a(1) by (simp add: accounts_ok_def assigned_ok_def)
  then have "system_role r" using a(3) r by (simp add: assignment_ok_def)
  then show ?thesis using a r by (auto simp: system_admin_def system_role_def list_ex_iff)
qed

text \<open>Rights in an organization come from an assignment in it, or from a global one.\<close>

lemma organization_right:
  assumes "accounts_ok db" and "HasOrganizationPermission user action resource org db"
    and "\<forall>u \<in> set (ad_Users db). su_ID u = user \<longrightarrow> su_OrganizationID u \<noteq> Some org"
  shows "system_admin user db"
proof -
  obtain a r g m where a: "a \<in> set (ad_Assignments db)" "ur_UserID a = user"
    and r: "r \<in> set (ad_Roles db)" "ro_ID r = ur_RoleID a"
    and g: "g \<in> set (ad_Grants db)" "gt_RoleID g = ur_RoleID a"
    and m: "m \<in> set (ad_Permissions db)" "pm_ID m = gt_PermissionID g" "pm_Action m = action" "pm_ResourceType m = resource"
    and scope: "own_scope a r g" "in_org (ur_OrganizationID a) (Some org)"
    using assms(2) unfolding HasOrganizationPermission_def granted_iff by blast
  have "assignment_ok (ad_Users db) (ad_Roles db) a" using assms(1) a(1) by (simp add: accounts_ok_def assigned_ok_def)
  then obtain u where "u \<in> set (ad_Users db)" "su_ID u = user" "in_org (ur_OrganizationID a) (su_OrganizationID u)"
    using a(2) by (auto simp: assignment_ok_def)
  then have none: "ur_OrganizationID a = None" using assms(3) in_orgE [OF scope(2)] by (auto simp: in_org_def)
  then have "ro_OrganizationID r = None" "gt_OrganizationID g = None" using scope(1) by (auto simp: own_scope_def in_org_def)
  then have "hasGlobalPermissionQuery user action resource db"
    using a r g m none unfolding hasGlobalPermissionQuery_def granted_iff by blast
  then show ?thesis by (rule global_right_admin [OF assms(1)])
qed

text \<open>The operations that neither assign roles nor edit them leave the rights of everybody.\<close>

definition rights :: "AccountDb \<Rightarrow> AssignmentRow list \<times> RoleRow list \<times> GrantRow list \<times> Permission list" where
  "rights db = (ad_Assignments db, ad_Roles db, ad_Grants db, ad_Permissions db)"

lemma rights_kept [simp]:
  "rights (CreateAuditEvent org actor action tt target db) = rights db"
  "rights (audit_admin p org action tt target' db) = rights db"
  "rights (createPrincipalAudit p action db) = rights db"
  "rights (on_user i f db) = rights db" "rights (revoke_where now q db) = rights db"
  "rights (db\<lparr>ad_Sessions := ss\<rparr>) = rights db" "rights (db\<lparr>ad_ResetTokens := ts\<rparr>) = rights db"
  "rights (db\<lparr>ad_Organizations := os\<rparr>) = rights db" "rights (db\<lparr>ad_Users := us\<rparr>) = rights db"
  by (simp_all add: rights_def CreateAuditEvent_def audit_admin_def createPrincipalAudit_def on_user_def revoke_where_def)

definition right_operation :: "AccountOp \<Rightarrow> bool" where
  "right_operation op \<longleftrightarrow> (case op of OpCreateUser _ \<Rightarrow> True | OpUpdateUser _ _ \<Rightarrow> True | OpHardDeleteUser _ _ \<Rightarrow> True
     | OpCreateRole _ \<Rightarrow> True | OpUpdateRole _ _ \<Rightarrow> True | OpDeleteRole _ \<Rightarrow> True | _ \<Rightarrow> False)"

lemma update_user_rights: "update_user i f before db = Inr db' \<Longrightarrow> rights db' = rights db"
  by (auto simp: update_user_def split: if_splits)

lemma other_operations_rights: "\<not> right_operation op \<Longrightarrow> rights (perform env now draw p op db) = rights db"
proof (cases op)
  case (OpResetUserPassword i new)
  then show ?thesis
    by (cases "fst (ResetUserPassword env now p i new db) = db")
      (auto dest!: ResetUserPassword_changed [OF refl]
        simp: InvalidatePasswordResetTokens_def RevokeAllUserSessions_def UpdateUserPassword_def)
next
  case (OpSetUserActive i active)
  then show ?thesis
    by (cases "fst (SetUserActive now p i active db) = db")
      (auto dest!: SetUserActive_changed [OF refl] simp: Let_def RevokeAllUserSessions_def)
next
  case (OpUnlockUser i)
  then show ?thesis
    by (cases "fst (UnlockUser p i db) = db") (auto dest!: UnlockUser_changed [OF refl] simp: RecordLoginSuccess_def)
next
  case (OpUpdateOwnProfile input)
  then show ?thesis
    by (cases "fst (UpdateOwnProfile env p input db) = db")
      (auto dest!: UpdateOwnProfile_changed [OF refl] update_user_rights)
next
  case (OpCreateOrganization code name)
  then show ?thesis
    by (cases "fst (CreateOrganization draw p code name db) = db") (auto dest!: CreateOrganization_changed [OF refl])
next
  case (OpUpdateOrganization i input)
  then show ?thesis
    by (cases "fst (UpdateOrganization p i input db) = db") (auto dest!: UpdateOrganization_changed [OF refl])
qed (auto simp: right_operation_def Logout_def LogoutAll_def ChangePassword_def sessionAction_def RevokeOwnSession_def
  RevokeOwnedSession_def UpdatePasswordAndRevokeOtherSessions_def RevokeSession_def RevokeAllUserSessions_def
  ClearOwnSessions_def Let_def)

subsection \<open>Global rights\<close>

text \<open>What a step may not do to create a global right: assign globally, or touch a built-in role.\<close>

definition global_frame :: "AccountDb \<Rightarrow> AccountDb \<Rightarrow> bool" where
  "global_frame db db' \<longleftrightarrow>
     (\<forall>a \<in> set (ad_Assignments db'). ur_OrganizationID a = None \<longrightarrow> a \<in> set (ad_Assignments db))
     \<and> (\<forall>r \<in> set (ad_Roles db'). system_role r \<longrightarrow> r \<in> set (ad_Roles db)
          \<and> (\<forall>g \<in> set (ad_Grants db'). gt_RoleID g = ro_ID r \<longrightarrow> g \<in> set (ad_Grants db)))
     \<and> ad_Permissions db' = ad_Permissions db"

lemma same_rights_frame: "rights db' = rights db \<Longrightarrow> global_frame db db'"
  by (simp add: rights_def global_frame_def)

lemma frame_global:
  assumes "accounts_ok db'" and "global_frame db db'" and "hasGlobalPermissionQuery user action resource db'"
  shows "hasGlobalPermissionQuery user action resource db"
proof -
  obtain a r g m where a: "a \<in> set (ad_Assignments db')" "ur_UserID a = user" "ur_OrganizationID a = None"
    and r: "r \<in> set (ad_Roles db')" "ro_ID r = ur_RoleID a" "ro_OrganizationID r = None"
    and g: "g \<in> set (ad_Grants db')" "gt_RoleID g = ur_RoleID a" "gt_OrganizationID g = None"
    and m: "m \<in> set (ad_Permissions db')" "pm_ID m = gt_PermissionID g" "pm_Action m = action" "pm_ResourceType m = resource"
    using assms(3) unfolding hasGlobalPermissionQuery_def granted_iff by blast
  have "assignment_ok (ad_Users db') (ad_Roles db') a" using assms(1) a(1) by (simp add: accounts_ok_def assigned_ok_def)
  then have "system_role r" using a(3) r by (simp add: assignment_ok_def)
  then have "a \<in> set (ad_Assignments db)" "r \<in> set (ad_Roles db)" "g \<in> set (ad_Grants db)" "m \<in> set (ad_Permissions db)"
    using assms(2) a r g m by (auto simp: global_frame_def)
  then show ?thesis using a r g m unfolding hasGlobalPermissionQuery_def granted_iff by blast
qed

lemma insert_user_rights: "insert_user u db = Inr db' \<Longrightarrow> rights db' = rights db"
  by (auto simp: insert_user_def split: if_splits)

lemma insert_assignment_appends:
  "insert_assignment a db = Inr db' \<Longrightarrow> db' = db\<lparr>ad_Assignments := ad_Assignments db @ [a]\<rparr>"
  by (auto simp: insert_assignment_def split: if_splits option.splits)

lemma baseline_in_org: "authorizedRoleName p org i db = Inr name \<Longrightarrow>
    \<not> hasGlobalPermissionQuery (pr_UserID p) ''assign'' ''role'' db \<Longrightarrow> ur_OrganizationID (baseline_role j org user i name) = Some org"
  by (auto simp: baseline_role_def dest: authorized_role_name)

lemma audit_tables [simp]:
  "ad_Assignments (audit_admin p org action tt target db) = ad_Assignments db"
  "ad_Roles (audit_admin p org action tt target db) = ad_Roles db"
  "ad_Grants (audit_admin p org action tt target db) = ad_Grants db"
  "ad_Permissions (audit_admin p org action tt target db) = ad_Permissions db"
  "ad_Users (audit_admin p org action tt target db) = ad_Users db"
  "ad_Sessions (audit_admin p org action tt target db) = ad_Sessions db"
  "ad_ResetTokens (audit_admin p org action tt target db) = ad_ResetTokens db"
  "ad_Organizations (audit_admin p org action tt target db) = ad_Organizations db"
  by (simp_all add: audit_admin_def CreateAuditEvent_def)

lemma CreateUser_frame:
  assumes "\<not> hasGlobalPermissionQuery (pr_UserID p) ''assign'' ''role'' db"
  shows "global_frame db (fst (CreateUser env now draw p input db))"
proof (cases "fst (CreateUser env now draw p input db) = db")
  case False
  obtain profile org roleName db1 db2 where
    n: "authorizedRoleName p org (cu_RoleID input) db = Inr roleName"
    and u: "insert_user (created_user env now draw org profile (cu_Password input)) db = Inr db1"
    and a: "insert_assignment (baseline_role (dr_ID2 draw) org (dr_ID draw) (cu_RoleID input) roleName) db1 = Inr db2"
    and r: "fst (CreateUser env now draw p input db) = audit_admin p (Some org) ''user.created'' ''app_user'' (dr_ID draw) db2"
    using CreateUser_changed [OF refl False] by blast
  show ?thesis
    using insert_user_rights [OF u] insert_assignment_appends [OF a] baseline_in_org [OF n assms]
    by (auto simp: r global_frame_def rights_def)
qed (simp add: same_rights_frame)

lemma replaced_role:
  assumes "replace_role now draw input org roleName profile before db = Inr db1"
  shows "\<exists>db2 db3. update_user (su_ID before) (changed_user input org profile) before
        (db\<lparr>ad_Assignments := filter (\<lambda>a. \<not> (ur_UserID a = su_ID before \<and> ur_PlantID a = None)) (ad_Assignments db)\<rparr>) = Inr db2
      \<and> insert_assignment (baseline_role (dr_ID2 draw) org (su_ID before) (uu_RoleID input) roleName) db2 = Inr db3
      \<and> db1 = (if uu_IsActive input then db3 else RevokeAllUserSessions now (su_ID before) db3)"
  using assms by (auto simp: replace_role_def Let_def split: sum.splits)

lemma UpdateUser_frame:
  assumes "\<not> hasGlobalPermissionQuery (pr_UserID p) ''assign'' ''role'' db"
  shows "global_frame db (fst (UpdateUser env now draw p i input db))"
proof (cases "fst (UpdateUser env now draw p i input db) = db")
  case False
  obtain profile before org roleName db1 where
    n: "authorizedRoleName p org (uu_RoleID input) db = Inr roleName"
    and r: "replace_role now draw input org roleName profile before db = Inr db1"
    and d: "fst (UpdateUser env now draw p i input db) = audit_admin p (Some org) ''user.updated'' ''app_user'' i db1"
    using UpdateUser_changed [OF refl False] by blast
  obtain db2 db3 where u: "update_user (su_ID before) (changed_user input org profile) before
        (db\<lparr>ad_Assignments := filter (\<lambda>a. \<not> (ur_UserID a = su_ID before \<and> ur_PlantID a = None)) (ad_Assignments db)\<rparr>) = Inr db2"
    and a: "insert_assignment (baseline_role (dr_ID2 draw) org (su_ID before) (uu_RoleID input) roleName) db2 = Inr db3"
    and db1: "db1 = (if uu_IsActive input then db3 else RevokeAllUserSessions now (su_ID before) db3)"
    using replaced_role [OF r] by blast
  have "rights (fst (UpdateUser env now draw p i input db)) = rights db3" by (simp add: d db1 RevokeAllUserSessions_def)
  then show ?thesis
    using update_user_rights [OF u] insert_assignment_appends [OF a] baseline_in_org [OF n assms]
    by (auto simp: global_frame_def rights_def)
qed (simp add: same_rights_frame)

lemma deleted_tables:
  "delete_user i db = Some db' \<Longrightarrow>
     ad_Users db' = filter (\<lambda>u. su_ID u \<noteq> i) (ad_Users db) \<and> ad_Sessions db' = filter (\<lambda>s. se_UserID s \<noteq> i) (ad_Sessions db)
     \<and> ad_ResetTokens db' = filter (\<lambda>t. tk_UserID t \<noteq> i) (ad_ResetTokens db)
     \<and> ad_Assignments db' = filter (\<lambda>a. ur_UserID a \<noteq> i) (ad_Assignments db)
     \<and> ad_Roles db' = ad_Roles db \<and> ad_Grants db' = ad_Grants db \<and> ad_Permissions db' = ad_Permissions db
     \<and> ad_Organizations db' = ad_Organizations db"
  by (auto simp: delete_user_def split: if_splits)

lemma HardDeleteUser_frame: "global_frame db (fst (HardDeleteUser p i confirmation db))"
proof (cases "fst (HardDeleteUser p i confirmation db) = db")
  case False
  then show ?thesis
    by (auto dest!: HardDeleteUser_changed [OF refl] deleted_tables simp: global_frame_def)
qed (simp add: same_rights_frame)

lemma replaced_grants:
  "replaceRolePermissions p org i ids db = Inr db' \<Longrightarrow>
     db' = db\<lparr>ad_Grants := filter (\<lambda>g. gt_RoleID g \<noteq> i) (ad_Grants db)
             @ map (\<lambda>x. \<lparr>gt_OrganizationID = org, gt_RoleID = i, gt_PermissionID = x\<rparr>) ids\<rparr>
     \<and> requireGrantablePermissions p i ids db"
  by (auto simp: replaceRolePermissions_def split: if_splits)

lemma audited_frame [simp]: "global_frame db (audit_admin p org action tt target db') = global_frame db db'"
  by (simp add: global_frame_def)

lemma role_edited_frame:
  assumes "\<And>q. q \<in> set rs \<Longrightarrow> system_role q \<Longrightarrow> q \<in> set (ad_Roles db) \<and> ro_ID q \<noteq> i"
  shows "global_frame db (db\<lparr>ad_Roles := rs, ad_Grants := filter (\<lambda>g. gt_RoleID g \<noteq> i) (ad_Grants db)
             @ map (\<lambda>x. \<lparr>gt_OrganizationID = org, gt_RoleID = i, gt_PermissionID = x\<rparr>) ids\<rparr>)"
  unfolding global_frame_def by (auto dest: assms)

lemma CreateRole_frame: "global_frame db (fst (CreateRole draw p input db))"
proof (cases "fst (CreateRole draw p input db) = db")
  case False
  define org where "org = (if rr_Global input then None
             else if rr_OrganizationID input = None then pr_OrganizationID p else rr_OrganizationID input)"
  obtain name description ids db1 where free: "find_role (dr_ID draw) db = None"
    and g: "replaceRolePermissions p org (dr_ID draw) ids (db\<lparr>ad_Roles := ad_Roles db @ [new_role draw org name description]\<rparr>)
            = Inr db1"
    and r: "fst (CreateRole draw p input db) = audit_admin p org ''role.created'' ''role'' (dr_ID draw) db1"
    using CreateRole_changed [OF refl False] unfolding org_def by blast
  have kept: "q \<in> set (ad_Roles db) \<and> ro_ID q \<noteq> dr_ID draw"
    if "q \<in> set (ad_Roles db @ [new_role draw org name description])" "system_role q" for q
    using that free by (auto simp: new_role_def system_role_def find_role_def find_None_iff)
  have "global_frame db db1" using replaced_grants [OF g] by (simp, intro role_edited_frame, intro kept)
  then show ?thesis by (simp add: r)
qed (simp add: same_rights_frame)

lemma UpdateRole_frame:
  assumes "accounts_ok db"
  shows "global_frame db (fst (UpdateRole p i input db))"
proof (cases "fst (UpdateRole p i input db) = db")
  case False
  obtain r name description ids db1 where b: "find_role i db = Some r" "\<not> ro_IsSystem r"
    and g: "replaceRolePermissions p (ro_OrganizationID r) i ids
          (db\<lparr>ad_Roles := update_where (\<lambda>q. ro_ID q = i) (\<lambda>q. q\<lparr>ro_Name := name, ro_Description := description\<rparr>) (ad_Roles db)\<rparr>)
          = Inr db1"
    and d: "fst (UpdateRole p i input db) = audit_admin p (ro_OrganizationID r) ''role.updated'' ''role'' i db1"
    using UpdateRole_changed [OF refl False] by blast
  have only: "\<not> ro_IsSystem q" if "q \<in> set (ad_Roles db)" "ro_ID q = i" for q
    using role_found_unique [OF assms b(1) that] b(2) by simp
  have kept: "q \<in> set (ad_Roles db) \<and> ro_ID q \<noteq> i"
    if "q \<in> set (update_where (\<lambda>q. ro_ID q = i) (\<lambda>q. q\<lparr>ro_Name := name, ro_Description := description\<rparr>) (ad_Roles db))"
      "system_role q" for q
    using that only by (auto simp: set_update_where system_role_def)
  have "global_frame db db1" using replaced_grants [OF g] by (simp, intro role_edited_frame, intro kept)
  then show ?thesis by (simp add: d)
qed (simp add: same_rights_frame)

lemma DeleteRole_frame: "global_frame db (fst (DeleteRole p i db))"
proof (cases "fst (DeleteRole p i db) = db")
  case False
  then show ?thesis by (auto dest!: DeleteRole_changed [OF refl] simp: global_frame_def)
qed (simp add: same_rights_frame)

lemma perform_frame:
  assumes "accounts_ok db" and "\<not> hasGlobalPermissionQuery (pr_UserID p) ''assign'' ''role'' db"
  shows "global_frame db (perform env now draw p op db)"
proof (cases "right_operation op")
  case True
  then show ?thesis using assms
    by (cases op) (auto simp: right_operation_def CreateUser_frame UpdateUser_frame HardDeleteUser_frame CreateRole_frame
      UpdateRole_frame DeleteRole_frame)
qed (simp add: same_rights_frame other_operations_rights)

subsection \<open>Tenants\<close>

definition members :: "string \<Rightarrow> AccountDb \<Rightarrow> string set" where
  "members org db = su_ID ` {u \<in> set (ad_Users db). su_OrganizationID u = Some org}"

text \<open>Everything of an organization: its row, users, their sessions, reset tokens and roles, its roles and grants.\<close>

definition tenant :: "string \<Rightarrow> AccountDb \<Rightarrow>
    Organization list \<times> UserRow list \<times> SessionRow list \<times> TokenRow list \<times> AssignmentRow list \<times> RoleRow list \<times> GrantRow list" where
  "tenant org db =
     (filter (\<lambda>q. og_ID q = org) (ad_Organizations db),
      filter (\<lambda>u. su_OrganizationID u = Some org) (ad_Users db),
      filter (\<lambda>s. se_UserID s \<in> members org db) (ad_Sessions db),
      filter (\<lambda>t. tk_UserID t \<in> members org db) (ad_ResetTokens db),
      filter (\<lambda>a. ur_UserID a \<in> members org db) (ad_Assignments db),
      filter (\<lambda>r. ro_OrganizationID r = Some org) (ad_Roles db),
      filter (\<lambda>g. gt_OrganizationID g = Some org) (ad_Grants db))"

named_theorems elsewhere \<open>statements on rows outside of a tenant\<close>

lemma audited_tenant [simp]:
  "tenant org (CreateAuditEvent org' actor action tt target db) = tenant org db"
  "tenant org (audit_admin p org' action tt target' db) = tenant org db"
  "tenant org (createPrincipalAudit p action db) = tenant org db"
  "members org (CreateAuditEvent org' actor action tt target db) = members org db"
  "members org (audit_admin p org' action tt target' db) = members org db"
  "members org (createPrincipalAudit p action db) = members org db"
  by (simp_all add: tenant_def members_def audit_admin_def createPrincipalAudit_def CreateAuditEvent_def)

lemma filter_update_where_other:
  "\<forall>x \<in> set xs. q x \<longrightarrow> \<not> P x \<and> \<not> P (f x) \<Longrightarrow> filter P (update_where q f xs) = filter P xs"
  by (induction xs) (auto simp: update_where_Cons)

lemma members_same:
  "filter (\<lambda>u. su_OrganizationID u = Some org) (ad_Users db') = filter (\<lambda>u. su_OrganizationID u = Some org) (ad_Users db) \<Longrightarrow>
     members org db' = members org db"
  unfolding members_def by (metis set_filter)

lemma on_user_elsewhere [elsewhere]:
  assumes "i \<notin> members org db" and "\<And>u. u \<in> set (ad_Users db) \<Longrightarrow> su_ID u = i \<Longrightarrow> su_OrganizationID (f u) \<noteq> Some org"
  shows "tenant org (on_user i f db) = tenant org db" "members org (on_user i f db) = members org db"
proof -
  have "filter (\<lambda>u. su_OrganizationID u = Some org) (update_where (\<lambda>u. su_ID u = i) f (ad_Users db))
      = filter (\<lambda>u. su_OrganizationID u = Some org) (ad_Users db)"
    by (rule filter_update_where_other) (use assms in \<open>auto simp: members_def\<close>)
  then show "members org (on_user i f db) = members org db" and "tenant org (on_user i f db) = tenant org db"
    using members_same [of org "on_user i f db" db] by (simp_all add: on_user_def tenant_def)
qed

lemma same_org_elsewhere [elsewhere]:
  assumes "i \<notin> members org db" and "\<And>u. su_OrganizationID (f u) = su_OrganizationID u"
  shows "tenant org (on_user i f db) = tenant org db" "members org (on_user i f db) = members org db"
proof -
  have "su_OrganizationID (f u) \<noteq> Some org" if "u \<in> set (ad_Users db)" "su_ID u = i" for u
    using assms that by (auto simp: members_def)
  then show "tenant org (on_user i f db) = tenant org db" "members org (on_user i f db) = members org db"
    using on_user_elsewhere [OF assms(1)] by blast+
qed

lemma revoke_elsewhere [elsewhere]:
  assumes "\<And>s. s \<in> set (ad_Sessions db) \<Longrightarrow> q s \<Longrightarrow> se_UserID s \<notin> members org db"
  shows "tenant org (revoke_where now q db) = tenant org db"
proof -
  have "members org (revoke_where now q db) = members org db" by (simp add: members_def revoke_where_def)
  moreover have "filter (\<lambda>s. se_UserID s \<in> members org db) (ad_Sessions (revoke_where now q db))
      = filter (\<lambda>s. se_UserID s \<in> members org db) (ad_Sessions db)"
    unfolding revoke_where_def by simp (rule filter_update_where_other, use assms in auto)
  ultimately show ?thesis by (simp add: tenant_def) (simp add: revoke_where_def)
qed

lemma revoke_members [simp]: "members org (revoke_where now q db) = members org db"
  by (simp add: members_def revoke_where_def)

lemma revoke_user_elsewhere [elsewhere]:
  "i \<notin> members org db \<Longrightarrow> tenant org (RevokeAllUserSessions now i db) = tenant org db"
  "members org (RevokeAllUserSessions now i db) = members org db"
  by (auto simp: RevokeAllUserSessions_def intro!: revoke_elsewhere)

lemma invalidate_elsewhere [elsewhere]:
  assumes "i \<notin> members org db"
  shows "tenant org (InvalidatePasswordResetTokens now i db) = tenant org db"
proof -
  have "members org (InvalidatePasswordResetTokens now i db) = members org db"
    by (simp add: members_def InvalidatePasswordResetTokens_def)
  moreover have "filter (\<lambda>t. tk_UserID t \<in> members org db) (spend now (\<lambda>t. tk_UserID t = i) (ad_ResetTokens db))
      = filter (\<lambda>t. tk_UserID t \<in> members org db) (ad_ResetTokens db)"
    unfolding spend_def by (rule filter_update_where_other) (use assms in auto)
  ultimately show ?thesis by (simp add: tenant_def) (simp add: InvalidatePasswordResetTokens_def)
qed

lemma not_member: "accounts_ok db \<Longrightarrow> find_user i db = Some before \<Longrightarrow> su_OrganizationID before \<noteq> Some org \<Longrightarrow> i \<notin> members org db"
  by (auto simp: members_def dest: found_unique)

lemma insert_user_elsewhere:
  assumes "insert_user u db = Inr db'" and "su_OrganizationID u \<noteq> Some org"
  shows "tenant org db' = tenant org db" "members org db' = members org db" "su_ID u \<notin> members org db"
proof -
  have "db' = db\<lparr>ad_Users := ad_Users db @ [u]\<rparr>" "su_ID u \<notin> user_ids db"
    using assms(1) by (auto simp: insert_user_def find_user_None split: if_splits)
  then show "tenant org db' = tenant org db" "members org db' = members org db" "su_ID u \<notin> members org db"
    using assms(2) members_same [of org db' db] by (auto simp: tenant_def members_def user_ids_def)
qed

lemma insert_assignment_elsewhere:
  assumes "insert_assignment a db = Inr db'" and "ur_UserID a \<notin> members org db"
  shows "tenant org db' = tenant org db" "members org db' = members org db"
  using insert_assignment_appends [OF assms(1)] assms(2) by (auto simp: tenant_def members_def)

lemma drop_assignments_elsewhere:
  "i \<notin> members org db \<Longrightarrow> tenant org (db\<lparr>ad_Assignments := filter (\<lambda>a. \<not> (ur_UserID a = i \<and> Q a)) (ad_Assignments db)\<rparr>) = tenant org db"
  "members org (db\<lparr>ad_Assignments := as\<rparr>) = members org db"
  by (auto simp: tenant_def members_def intro!: filter_cong)

text \<open>
  The caller: a session names its user, and the user is not of the tenant and holds no right in it. The
  operations then run into a refusal, or touch rows elsewhere.
\<close>

definition genuine :: "Principal \<Rightarrow> AccountDb \<Rightarrow> bool" where
  "genuine p db \<longleftrightarrow> (\<forall>s \<in> set (ad_Sessions db). se_ID s = pr_SessionID p \<longrightarrow> se_UserID s = pr_UserID p)"

definition outsider :: "Principal \<Rightarrow> string \<Rightarrow> AccountDb \<Rightarrow> bool" where
  "outsider p org db \<longleftrightarrow> pr_UserID p \<notin> members org db \<and> \<not> system_admin (pr_UserID p) db"

lemma outsider_no_right:
  assumes "accounts_ok db" and "outsider p org db"
  shows "\<not> HasOrganizationPermission (pr_UserID p) action resource org db"
    and "\<not> hasGlobalPermissionQuery (pr_UserID p) action resource db"
  using assms organization_right [of db "pr_UserID p" action resource org] global_right_admin
  by (force simp: outsider_def members_def)+

lemma required_elsewhere: "accounts_ok db \<Longrightarrow> outsider p org db \<Longrightarrow> require_all p needed org' db \<Longrightarrow> needed \<noteq> [] \<Longrightarrow> org' \<noteq> org"
  using outsider_no_right(1) by (cases needed) (auto simp: require_all_def requireOrganizationPermission_def split: if_splits)

lemma CreateUser_elsewhere:
  assumes "accounts_ok db" and "outsider p org db"
  shows "tenant org (fst (CreateUser env now draw p input db)) = tenant org db"
proof (cases "fst (CreateUser env now draw p input db) = db")
  case False
  obtain profile org' roleName db1 db2 where req: "require_all p [(''create'', ''user''), (''assign'', ''role'')] org' db"
    and u: "insert_user (created_user env now draw org' profile (cu_Password input)) db = Inr db1"
    and a: "insert_assignment (baseline_role (dr_ID2 draw) org' (dr_ID draw) (cu_RoleID input) roleName) db1 = Inr db2"
    and r: "fst (CreateUser env now draw p input db) = audit_admin p (Some org') ''user.created'' ''app_user'' (dr_ID draw) db2"
    using CreateUser_changed [OF refl False] by blast
  have "su_OrganizationID (created_user env now draw org' profile (cu_Password input)) \<noteq> Some org"
    and i: "su_ID (created_user env now draw org' profile (cu_Password input)) = dr_ID draw"
    using required_elsewhere [OF assms req] by (auto simp: created_user_def split: prod.split)
  note new = insert_user_elsewhere [OF u this(1)]
  have "dr_ID draw \<notin> members org db1" using new(2,3) by (simp add: i)
  then show ?thesis
    using insert_assignment_elsewhere(1) [OF a, of org] new(1) by (simp add: r baseline_role_def)
qed simp

lemma UpdateUser_elsewhere:
  assumes "accounts_ok db" and "outsider p org db"
  shows "tenant org (fst (UpdateUser env now draw p i input db)) = tenant org db"
proof (cases "fst (UpdateUser env now draw p i input db) = db")
  case False
  obtain profile before org' roleName db1 where b: "find_user i db = Some before" and al: "update_allowed p before org' db"
    and req: "require_all p [(''assign'', ''role'')] org' db"
    and r: "replace_role now draw input org' roleName profile before db = Inr db1"
    and d: "fst (UpdateUser env now draw p i input db) = audit_admin p (Some org') ''user.updated'' ''app_user'' i db1"
    using UpdateUser_changed [OF refl False] by blast
  have org': "org' \<noteq> org" using required_elsewhere [OF assms req] by simp
  have "su_OrganizationID before = Some org'"
    using al outsider_no_right(2) [OF assms] by (auto simp: update_allowed_def split: if_splits)
  then have i: "i \<notin> members org db" using not_member [OF assms(1) b] org' by auto
  have bi: "su_ID before = i" using b by (auto dest: find_user_in)
  define db0 where "db0 = db\<lparr>ad_Assignments := filter (\<lambda>a. \<not> (ur_UserID a = i \<and> ur_PlantID a = None)) (ad_Assignments db)\<rparr>"
  obtain db2 db3 where u: "update_user i (changed_user input org' profile) before db0 = Inr db2"
    and a: "insert_assignment (baseline_role (dr_ID2 draw) org' i (uu_RoleID input) roleName) db2 = Inr db3"
    and db1: "db1 = (if uu_IsActive input then db3 else RevokeAllUserSessions now i db3)"
    using replaced_role [OF r] unfolding bi db0_def by blast
  have 0: "tenant org db0 = tenant org db" "members org db0 = members org db"
    using drop_assignments_elsewhere(1) [OF i, of "\<lambda>a. ur_PlantID a = None"] by (simp_all add: db0_def drop_assignments_elsewhere(2))
  have "db2 = on_user i (changed_user input org' profile) db0" using u by (auto simp: update_user_def split: if_splits)
  moreover have "su_OrganizationID (changed_user input org' profile u) \<noteq> Some org" for u
    using org' by (simp add: changed_user_def split: prod.split)
  ultimately have 2: "tenant org db2 = tenant org db" "members org db2 = members org db"
    using on_user_elsewhere [of i org db0 "changed_user input org' profile"] i 0 by auto
  then have "tenant org db3 = tenant org db" "members org db3 = members org db"
    using insert_assignment_elsewhere [OF a, of org] i by (auto simp: baseline_role_def)
  then show ?thesis using i by (simp add: d db1 revoke_user_elsewhere)
qed simp

lemma user_operations_elsewhere:
  assumes "accounts_ok db" and "outsider p org db"
  shows "tenant org (fst (ResetUserPassword env now p i new db)) = tenant org db"
    and "tenant org (fst (SetUserActive now p i active db)) = tenant org db"
    and "tenant org (fst (UnlockUser p i db)) = tenant org db"
proof -
  have other: "i \<notin> members org db"
    if "find_user i db = Some before" "su_OrganizationID before = Some org'" "require_all p [x] org' db" for before org' x
    using not_member [OF assms(1) that(1)] that(2) required_elsewhere [OF assms that(3)] by auto
  show "tenant org (fst (ResetUserPassword env now p i new db)) = tenant org db"
    by (cases "fst (ResetUserPassword env now p i new db) = db")
      (auto dest!: ResetUserPassword_changed [OF refl] dest: other simp: UpdateUserPassword_def elsewhere)
  show "tenant org (fst (SetUserActive now p i active db)) = tenant org db"
    by (cases "fst (SetUserActive now p i active db) = db")
      (auto dest!: SetUserActive_changed [OF refl] dest: other simp: Let_def elsewhere)
  show "tenant org (fst (UnlockUser p i db)) = tenant org db"
    by (cases "fst (UnlockUser p i db) = db")
      (auto dest!: UnlockUser_changed [OF refl] dest: other simp: RecordLoginSuccess_def elsewhere)
qed

lemma HardDeleteUser_elsewhere:
  assumes "accounts_ok db" and "outsider p org db"
  shows "tenant org (fst (HardDeleteUser p i confirmation db)) = tenant org db"
  using HardDeleteUser_changed [OF refl, of p i confirmation db] outsider_no_right(2) [OF assms]
  by (cases "fst (HardDeleteUser p i confirmation db) = db") (simp, blast)

lemma UpdateOwnProfile_elsewhere:
  assumes "outsider p org db"
  shows "tenant org (fst (UpdateOwnProfile env p input db)) = tenant org db"
proof (cases "fst (UpdateOwnProfile env p input db) = db")
  case False
  obtain email username displayName before org' db1 where
    u: "update_user (pr_UserID p) (\<lambda>u. u\<lparr>su_Email := email, su_Username := optional_text username, su_DisplayName := displayName\<rparr>)
            before db = Inr db1"
    and r: "fst (UpdateOwnProfile env p input db) = audit_admin p (Some org') ''user.profile_updated'' ''app_user'' (pr_UserID p) db1"
    using UpdateOwnProfile_changed [OF refl False] by blast
  have "db1 = on_user (pr_UserID p) (\<lambda>u. u\<lparr>su_Email := email, su_Username := optional_text username, su_DisplayName := displayName\<rparr>) db"
    using u by (auto simp: update_user_def split: if_splits)
  then show ?thesis using assms by (simp add: r outsider_def same_org_elsewhere)
qed simp

text \<open>A role of another organization, and its grants, which lie in the same.\<close>

lemma role_edited_elsewhere:
  assumes "filter (\<lambda>r. ro_OrganizationID r = Some org) rs = filter (\<lambda>r. ro_OrganizationID r = Some org) (ad_Roles db)"
    and "filter (\<lambda>g. gt_OrganizationID g = Some org) gs = filter (\<lambda>g. gt_OrganizationID g = Some org) (ad_Grants db)"
  shows "tenant org (db\<lparr>ad_Roles := rs, ad_Grants := gs\<rparr>) = tenant org db"
  using assms by (simp add: tenant_def members_def)

lemma grants_elsewhere:
  assumes "\<forall>g \<in> set (ad_Grants db). gt_RoleID g = i \<longrightarrow> gt_OrganizationID g \<noteq> Some org" and "org' \<noteq> Some org"
  shows "filter (\<lambda>g. gt_OrganizationID g = Some org) (filter (\<lambda>g. gt_RoleID g \<noteq> i) (ad_Grants db))
      = filter (\<lambda>g. gt_OrganizationID g = Some org) (ad_Grants db)"
    and "filter (\<lambda>g. gt_OrganizationID g = Some org)
      (map (\<lambda>x. \<lparr>gt_OrganizationID = org', gt_RoleID = i, gt_PermissionID = x\<rparr>) ids) = []"
  using assms by (auto simp: filter_map o_def filter_empty_conv intro!: filter_cong)

lemma grant_org:
  assumes "accounts_ok db" and "g \<in> set (ad_Grants db)"
  shows "\<exists>r. find_role (gt_RoleID g) db = Some r \<and> ro_OrganizationID r = gt_OrganizationID g"
proof -
  obtain r where r: "r \<in> set (ad_Roles db)" "ro_ID r = gt_RoleID g" "ro_OrganizationID r = gt_OrganizationID g"
    using assms by (auto simp: accounts_ok_def grants_ok_def)
  then have "find_role (gt_RoleID g) db \<noteq> None" by (auto simp: find_role_def find_None_iff)
  then obtain q where q: "find_role (gt_RoleID g) db = Some q" by auto
  then show ?thesis using role_found_unique [OF assms(1) q r(1)] r by auto
qed

lemma CreateRole_elsewhere:
  assumes "accounts_ok db" and "outsider p org db"
  shows "tenant org (fst (CreateRole draw p input db)) = tenant org db"
proof (cases "fst (CreateRole draw p input db) = db")
  case False
  define org' where "org' = (if rr_Global input then None
             else if rr_OrganizationID input = None then pr_OrganizationID p else rr_OrganizationID input)"
  obtain name description ids db1 where w: "requireRoleWritePermission p ''create'' org' db"
    and free: "find_role (dr_ID draw) db = None"
    and g: "replaceRolePermissions p org' (dr_ID draw) ids (db\<lparr>ad_Roles := ad_Roles db @ [new_role draw org' name description]\<rparr>)
            = Inr db1"
    and r: "fst (CreateRole draw p input db) = audit_admin p org' ''role.created'' ''role'' (dr_ID draw) db1"
    using CreateRole_changed [OF refl False] unfolding org'_def by blast
  have org': "org' \<noteq> Some org"
    using w outsider_no_right [OF assms] by (auto simp: requireRoleWritePermission_def)
  have none: "\<forall>h \<in> set (ad_Grants db). gt_RoleID h = dr_ID draw \<longrightarrow> gt_OrganizationID h \<noteq> Some org"
    using grant_org [OF assms(1)] free by force
  have "tenant org db1 = tenant org db"
    using replaced_grants [OF g] grants_elsewhere [OF none org'] org'
    by (simp add: role_edited_elsewhere new_role_def)
  then show ?thesis by (simp add: r)
qed simp

lemma UpdateRole_elsewhere:
  assumes "accounts_ok db" and "outsider p org db"
  shows "tenant org (fst (UpdateRole p i input db)) = tenant org db"
proof (cases "fst (UpdateRole p i input db) = db")
  case False
  obtain r name description ids db1 where b: "find_role i db = Some r"
    and w: "requireRoleWritePermission p ''update'' (ro_OrganizationID r) db"
    and g: "replaceRolePermissions p (ro_OrganizationID r) i ids
          (db\<lparr>ad_Roles := update_where (\<lambda>q. ro_ID q = i) (\<lambda>q. q\<lparr>ro_Name := name, ro_Description := description\<rparr>) (ad_Roles db)\<rparr>)
          = Inr db1"
    and d: "fst (UpdateRole p i input db) = audit_admin p (ro_OrganizationID r) ''role.updated'' ''role'' i db1"
    using UpdateRole_changed [OF refl False] by blast
  have org': "ro_OrganizationID r \<noteq> Some org"
    using w outsider_no_right [OF assms] by (auto simp: requireRoleWritePermission_def)
  have none: "\<forall>h \<in> set (ad_Grants db). gt_RoleID h = i \<longrightarrow> gt_OrganizationID h \<noteq> Some org"
    using grant_org [OF assms(1)] b org' by force
  have "filter (\<lambda>r. ro_OrganizationID r = Some org)
      (update_where (\<lambda>q. ro_ID q = i) (\<lambda>q. q\<lparr>ro_Name := name, ro_Description := description\<rparr>) (ad_Roles db))
      = filter (\<lambda>r. ro_OrganizationID r = Some org) (ad_Roles db)"
    by (rule filter_update_where_other) (use role_found_unique [OF assms(1) b] org' in auto)
  then have "tenant org db1 = tenant org db"
    using replaced_grants [OF g] grants_elsewhere [OF none org'] by (simp add: role_edited_elsewhere)
  then show ?thesis by (simp add: d)
qed simp

lemma DeleteRole_elsewhere:
  assumes "accounts_ok db" and "outsider p org db"
  shows "tenant org (fst (DeleteRole p i db)) = tenant org db"
proof (cases "fst (DeleteRole p i db) = db")
  case False
  obtain r where b: "find_role i db = Some r" and w: "requireRoleWritePermission p ''delete'' (ro_OrganizationID r) db"
    and d: "fst (DeleteRole p i db) = audit_admin p (ro_OrganizationID r) ''role.deleted'' ''role'' i
        (db\<lparr>ad_Roles := filter (\<lambda>q. ro_ID q \<noteq> i) (ad_Roles db), ad_Grants := filter (\<lambda>g. gt_RoleID g \<noteq> i) (ad_Grants db)\<rparr>)"
    using DeleteRole_changed [OF refl False] by blast
  have org': "ro_OrganizationID r \<noteq> Some org"
    using w outsider_no_right [OF assms] by (auto simp: requireRoleWritePermission_def)
  have none: "\<forall>h \<in> set (ad_Grants db). gt_RoleID h = i \<longrightarrow> gt_OrganizationID h \<noteq> Some org"
    using grant_org [OF assms(1)] b org' by force
  have "ro_OrganizationID q \<noteq> Some org" if "q \<in> set (ad_Roles db)" "ro_ID q = i" for q
    using role_found_unique [OF assms(1) b that] org' by simp
  then have "filter (\<lambda>r. ro_OrganizationID r = Some org) (filter (\<lambda>q. ro_ID q \<noteq> i) (ad_Roles db))
      = filter (\<lambda>r. ro_OrganizationID r = Some org) (ad_Roles db)"
    by (auto intro!: filter_cong)
  then show ?thesis using grants_elsewhere [OF none org'] by (simp add: d role_edited_elsewhere)
qed simp

lemma organization_operations_elsewhere:
  assumes "accounts_ok db" and "outsider p org db"
  shows "tenant org (fst (CreateOrganization draw p code name db)) = tenant org db"
    and "tenant org (fst (UpdateOrganization p i input db)) = tenant org db"
proof -
  show "tenant org (fst (CreateOrganization draw p code name db)) = tenant org db"
    using CreateOrganization_changed [OF refl, of draw p code name db] outsider_no_right(2) [OF assms]
    by (cases "fst (CreateOrganization draw p code name db) = db") (simp, blast)
  have "tenant org (db\<lparr>ad_Organizations := update_where (\<lambda>q. og_ID q = i) f (ad_Organizations db)\<rparr>) = tenant org db"
    if "i \<noteq> org" "\<And>q. og_ID (f q) = og_ID q" for f
    using that filter_update_where_other [of "ad_Organizations db" "\<lambda>q. og_ID q = i" "\<lambda>q. og_ID q = org" f]
    by (simp add: tenant_def members_def)
  then show "tenant org (fst (UpdateOrganization p i input db)) = tenant org db"
    by (cases "fst (UpdateOrganization p i input db) = db")
      (auto dest!: UpdateOrganization_changed [OF refl] dest: required_elsewhere [OF assms])
qed

lemma session_operations_elsewhere:
  assumes "outsider p org db" and "genuine p db"
  shows "tenant org (fst (Logout now p db)) = tenant org db" "tenant org (fst (LogoutAll now p db)) = tenant org db"
    "tenant org (fst (ChangePassword env now p current new db)) = tenant org db"
    "tenant org (fst (RevokeOwnSession now p i db)) = tenant org db"
    "tenant org (fst (ClearOwnSessions p confirmation db)) = tenant org db"
proof -
  have own: "pr_UserID p \<notin> members org db" using assms(1) by (simp add: outsider_def)
  show "tenant org (fst (Logout now p db)) = tenant org db"
    using own assms(2) by (auto simp: Logout_def sessionAction_def RevokeSession_def genuine_def intro!: revoke_elsewhere)
  show "tenant org (fst (LogoutAll now p db)) = tenant org db"
    using own by (simp add: LogoutAll_def sessionAction_def revoke_user_elsewhere)
  show "tenant org (fst (ChangePassword env now p current new db)) = tenant org db"
  proof -
    let ?db = "on_user (pr_UserID p) (\<lambda>u. u\<lparr>su_PasswordHash := HashPassword env new\<rparr>) db"
    have "members org ?db = members org db" "tenant org ?db = tenant org db" using own by (simp_all add: same_org_elsewhere)
    moreover from this(1) own have "tenant org (revoke_where now (\<lambda>s. se_UserID s = pr_UserID p \<and> se_ID s \<noteq> pr_SessionID p) ?db) = tenant org ?db"
      by (intro revoke_elsewhere) auto
    ultimately show ?thesis by (simp add: ChangePassword_def UpdatePasswordAndRevokeOtherSessions_def)
  qed
  show "tenant org (fst (RevokeOwnSession now p i db)) = tenant org db"
    using own by (auto simp: RevokeOwnSession_def RevokeOwnedSession_def intro!: revoke_elsewhere)
  have "tenant org (db\<lparr>ad_Sessions := filter (\<lambda>s. se_UserID s \<noteq> pr_UserID p) (ad_Sessions db)\<rparr>) = tenant org db"
    using own by (auto simp: tenant_def members_def intro!: filter_cong)
  moreover have "createPrincipalAudit p action db\<lparr>ad_Sessions := ss\<rparr> = createPrincipalAudit p action (db\<lparr>ad_Sessions := ss\<rparr>)"
    "ad_Sessions (createPrincipalAudit p action db) = ad_Sessions db" for action ss
    by (simp_all add: createPrincipalAudit_def CreateAuditEvent_def)
  ultimately show "tenant org (fst (ClearOwnSessions p confirmation db)) = tenant org db"
    by (simp add: ClearOwnSessions_def Let_def)
qed


end
