(* ===== verification/AccountClaims.thy ===== *)
theory AccountClaims
  imports AccountSecurity
begin

section \<open>auth-service: the properties of the account machine\<close>

text \<open>
  The theorems on accounts, each with an instance: a database as the migrations leave it, the environment of
  a test, and a few users in two organizations.
\<close>

subsection \<open>An instance\<close>

definition example_env :: AccountEnv where
  "example_env = \<lparr>an_verify = (=), an_hash = id, an_token = (\<lambda>t. Some t), an_mail = Some, an_pick = hd,
     an_idle = 1800 * second, an_absolute = 43200 * second, an_resetTTL = 1800 * second,
     an_resetNotifier = Some (\<lambda>_ _. True), an_verificationNotifier = Some (\<lambda>_ _. True)\<rparr>"

definition example_role :: "string \<Rightarrow> string option \<Rightarrow> string \<Rightarrow> bool \<Rightarrow> RoleRow" where
  "example_role i org name system = \<lparr>ro_ID = i, ro_OrganizationID = org, ro_Name = name, ro_Description = [], ro_IsSystem = system\<rparr>"

definition example_user :: "string \<Rightarrow> string \<Rightarrow> UserRow" where
  "example_user i org = \<lparr>su_ID = i, su_OrganizationID = Some org, su_Email = i, su_Username = None, su_DisplayName = i,
     su_PasswordHash = ''secret'', su_Status = ''ACTIVE'', su_VerifiedAt = Some 0, su_Failed = 0, su_LockedUntil = None\<rparr>"

definition example_session :: "string \<Rightarrow> string \<Rightarrow> SessionRow" where
  "example_session i user = \<lparr>se_ID = i, se_OrganizationID = Some ''n'', se_UserID = user, se_TokenHash = i, se_CsrfHash = i,
     se_ExpiresAt = 100, se_IdleExpiresAt = 50, se_LastSeenAt = 0, se_RevokedAt = None, se_ClientIP = None, se_UserAgent = []\<rparr>"

text \<open>Two organizations, the built-in role and one of the first, an administrator of it, a user of the second.\<close>

definition example_db :: AccountDb where
  "example_db = \<lparr>ad_Users = [example_user ''anna'' ''n'', example_user ''bert'' ''s''],
     ad_Sessions = [example_session ''t'' ''anna''],
     ad_ResetTokens = [\<lparr>tk_ID = ''k'', tk_OrganizationID = Some ''n'', tk_UserID = ''anna'', tk_Hash = ''r'',
        tk_ExpiresAt = 90, tk_UsedAt = None, tk_RequestedIP = None\<rparr>],
     ad_VerifyTokens = [], ad_Attempts = [], ad_Recovery = [],
     ad_Roles = [example_role ''1'' None ''System Admin'' True, example_role ''2'' (Some ''n'') ''Lead'' False],
     ad_Grants = [\<lparr>gt_OrganizationID = None, gt_RoleID = ''1'', gt_PermissionID = ''p''\<rparr>,
        \<lparr>gt_OrganizationID = Some ''n'', gt_RoleID = ''2'', gt_PermissionID = ''q''\<rparr>],
     ad_Permissions = [\<lparr>pm_ID = ''p'', pm_Action = ''assign'', pm_ResourceType = ''role''\<rparr>,
        \<lparr>pm_ID = ''q'', pm_Action = ''update'', pm_ResourceType = ''role''\<rparr>],
     ad_Assignments = [\<lparr>ur_ID = ''x'', ur_OrganizationID = Some ''n'', ur_UserID = ''anna'', ur_RoleID = ''2'', ur_PlantID = None\<rparr>],
     ad_Organizations = [\<lparr>og_ID = ''n'', og_Code = ''N'', og_Name = ''North'', og_IsActive = True\<rparr>,
        \<lparr>og_ID = ''s'', og_Code = ''S'', og_Name = ''South'', og_IsActive = True\<rparr>],
     ad_Authors = [], ad_Audit = []\<rparr>"

definition example_principal :: Principal where
  "example_principal = \<lparr>pr_SessionID = ''t'', pr_OrganizationID = Some ''n'', pr_UserID = ''anna'', pr_Email = ''anna'',
     pr_DisplayName = ''anna'', pr_PasswordHash = ''secret'', pr_CsrfHash = ''t''\<rparr>"

definition example_draw :: Drawn where
  "example_draw = \<lparr>dr_Token = ''new'', dr_Csrf = ''csrf'', dr_ID = ''i'', dr_ID2 = ''j''\<rparr>"

definition example_state :: AccountState where
  "example_state = \<lparr>as_Db = example_db, as_Pending = [], as_Drawn = {''t'', ''r''}\<rparr>"

lemma example_ok: "accounts_ok example_db"
  by code_simp

lemma example_db_of_state: "as_Db example_state = example_db"
  by (simp add: example_state_def)

subsection \<open>Tables in order\<close>



subsection \<open>Tenants\<close>

lemma authenticated_genuine:
  assumes "accounts_ok db" and "authenticated env now csrfRequired cookie header db = (db', Inr p)"
  shows "genuine p db'"
proof -
  obtain token hash s u where s: "find (\<lambda>s. se_TokenHash s = hash \<and> session_live now s) (ad_Sessions db) = Some s"
    and db': "db' = TouchSession now (an_idle env div second) (se_ID s) db"
    and p: "pr_SessionID p = se_ID s" "pr_UserID p = se_UserID s"
    using assms(2) by (auto simp: authenticated_def Authenticate_def GetActiveSession_def split: option.splits if_splits)
  have "s \<in> set (ad_Sessions db)" using s by (auto simp: find_Some_iff)
  then have "\<forall>x \<in> set (ad_Sessions db). se_ID x = se_ID s \<longrightarrow> se_UserID x = se_UserID s"
    using assms(1) by (auto simp: accounts_ok_def sessions_ok_def distinct_map dest: inj_onD)
  then show ?thesis by (auto simp: genuine_def db' TouchSession_def set_update_where p)
qed

text \<open>C7: Tenants are isolated. In every reachable state, whatever operation a caller performs who is not a user of
  an organization and not a system administrator, the organization keeps its row, its users and their
  sessions, reset tokens and roles, and its own roles with their grants.\<close>

theorem tenants_isolated:
  assumes "accounts_reach env s t" and "accounts_ok (as_Db s)" and "genuine p (as_Db t)" and "outsider p org (as_Db t)"
  shows "tenant org (perform env now draw p op (as_Db t)) = tenant org (as_Db t)"
proof -
  have "accounts_ok (as_Db t)"
    using assms(1,2) by (rule reach_ok)
  then show ?thesis
    using assms(3,4) by (cases op) (simp_all add: CreateUser_elsewhere UpdateUser_elsewhere user_operations_elsewhere
      HardDeleteUser_elsewhere UpdateOwnProfile_elsewhere CreateRole_elsewhere UpdateRole_elsewhere DeleteRole_elsewhere
      organization_operations_elsewhere session_operations_elsewhere)
qed

theorem tenants_isolated_witness:
  "tenant ''s'' (perform example_env 7 example_draw example_principal
     (OpUpdateRole ''2'' \<lparr>rr_Name = ''Chief'', rr_Description = [], rr_PermissionIDs = [''q'']\<rparr>) (as_Db example_state))
   = tenant ''s'' (as_Db example_state)"
proof (rule tenants_isolated [OF reach_start])
  show "accounts_ok (as_Db example_state)" by (simp add: example_db_of_state example_ok)
  show "genuine example_principal (as_Db example_state)" unfolding example_db_of_state by code_simp
  show "outsider example_principal ''s'' (as_Db example_state)" unfolding example_db_of_state by code_simp
qed

subsection \<open>Rights\<close>

text \<open>C8: Global rights come from global rights. In every reachable state, no operation of a caller without the
  global permission to assign roles gives anybody a global permission he did not have, and who has one is a
  system administrator.\<close>

theorem global_rights_need_global_rights:
  assumes "accounts_reach env s t" and "accounts_ok (as_Db s)"
    and "\<not> hasGlobalPermissionQuery (pr_UserID p) ''assign'' ''role'' (as_Db t)"
    and "hasGlobalPermissionQuery user action resource (perform env now draw p op (as_Db t))"
  shows "hasGlobalPermissionQuery user action resource (as_Db t) \<and> system_admin user (as_Db t)"
proof -
  have ok: "accounts_ok (as_Db t)"
    using assms(1,2) by (rule reach_ok)
  have "hasGlobalPermissionQuery user action resource (as_Db t)"
    by (rule frame_global [OF perform_ok [OF ok] perform_frame [OF ok assms(3)] assms(4)])
  then show ?thesis using global_right_admin [OF ok] by simp
qed

definition example_global_db :: AccountDb where
  "example_global_db = example_db\<lparr>ad_Users := ad_Users example_db @ [example_user ''root'' ''s''],
     ad_Assignments := ad_Assignments example_db @
       [\<lparr>ur_ID = ''y'', ur_OrganizationID = None, ur_UserID = ''root'', ur_RoleID = ''1'', ur_PlantID = None\<rparr>]\<rparr>"

theorem global_rights_need_global_rights_witness:
  "hasGlobalPermissionQuery ''root'' ''assign'' ''role'' (as_Db (example_state\<lparr>as_Db := example_global_db\<rparr>))
   \<and> system_admin ''root'' (as_Db (example_state\<lparr>as_Db := example_global_db\<rparr>))"
proof (rule global_rights_need_global_rights [OF reach_start, where p = example_principal and op = OpLogout
    and env = example_env and now = 7 and draw = example_draw])
  have "accounts_ok example_global_db" by code_simp
  then show "accounts_ok (as_Db (example_state\<lparr>as_Db := example_global_db\<rparr>))" by simp
  have "\<not> hasGlobalPermissionQuery ''anna'' ''assign'' ''role'' example_global_db" by code_simp
  then show "\<not> hasGlobalPermissionQuery (pr_UserID example_principal) ''assign'' ''role'' (as_Db (example_state\<lparr>as_Db := example_global_db\<rparr>))"
    by (simp add: example_principal_def)
  have "hasGlobalPermissionQuery ''root'' ''assign'' ''role'' (perform example_env 7 example_draw example_principal OpLogout example_global_db)"
    by code_simp
  then show "hasGlobalPermissionQuery ''root'' ''assign'' ''role''
      (perform example_env 7 example_draw example_principal OpLogout (as_Db (example_state\<lparr>as_Db := example_global_db\<rparr>)))" by simp
qed

text \<open>The grants of a role after an edit were its grants before, or are of a permission the editor holds.\<close>

lemma holds_grants_only:
  "holds_anywhere user action resource (db\<lparr>ad_Roles := rs\<rparr>) = holds_anywhere user action resource db"
  by (simp add: holds_anywhere_def)

lemma replaced_grants_bounded:
  assumes "replaceRolePermissions p org i ids (db\<lparr>ad_Roles := rs\<rparr>) = Inr db'" and "g \<in> set (ad_Grants db')"
    and "\<not> (\<exists>h \<in> set (ad_Grants db). gt_RoleID h = gt_RoleID g \<and> gt_PermissionID h = gt_PermissionID g)"
  shows "\<exists>m \<in> set (ad_Permissions db). pm_ID m = gt_PermissionID g
    \<and> holds_anywhere (pr_UserID p) (pm_Action m) (pm_ResourceType m) db"
proof -
  have g: "gt_RoleID g = i" "gt_PermissionID g \<in> set ids" using replaced_grants [OF assms(1)] assms(2,3) by auto
  have "list_all (\<lambda>i. list_ex (\<lambda>m. pm_ID m = i) (ad_Permissions db)) ids"
    using assms(1) by (auto simp: replaceRolePermissions_def split: if_splits)
  then obtain m where m: "m \<in> set (ad_Permissions db)" "pm_ID m = gt_PermissionID g"
    using g(2) by (auto simp: list_all_iff list_ex_iff)
  then have "holds_anywhere (pr_UserID p) (pm_Action m) (pm_ResourceType m) db"
    using replaced_grants [OF assms(1)] assms(3) g
    by (auto simp: requireGrantablePermissions_def list_all_iff list_ex_iff holds_grants_only)
  with m show ?thesis by blast
qed

text \<open>C12: Nobody puts into a role what he does not hold. After any operation of a caller, a grant of a permission to a
  role that was not there before is one of a permission that the caller holds through a role of his own.\<close>

theorem role_grants_bounded:
  assumes "g \<in> set (ad_Grants (perform env now draw p op db))"
    and "\<not> (\<exists>h \<in> set (ad_Grants db). gt_RoleID h = gt_RoleID g \<and> gt_PermissionID h = gt_PermissionID g)"
  shows "\<exists>m \<in> set (ad_Permissions db). pm_ID m = gt_PermissionID g
    \<and> holds_anywhere (pr_UserID p) (pm_Action m) (pm_ResourceType m) db"
proof (cases "right_operation op")
  case True
  have new: "g \<notin> set (ad_Grants db)" using assms(2) by blast
  then have changed: "perform env now draw p op db \<noteq> db" using assms(1) by auto
  show ?thesis
  proof (cases op)
    case (OpCreateUser input)
    then show ?thesis using changed assms(1) new
      by (auto dest!: CreateUser_changed [OF refl] insert_user_rights insert_assignment_appends simp: rights_def)
  next
    case (OpUpdateUser i input)
    then show ?thesis using changed assms(1) new
      by (auto dest!: UpdateUser_changed [OF refl] replaced_role update_user_rights insert_assignment_appends
        simp: rights_def RevokeAllUserSessions_def revoke_where_def split: if_splits)
  next
    case (OpHardDeleteUser i confirmation)
    then show ?thesis using changed assms(1) new
      by (auto dest!: HardDeleteUser_changed [OF refl] deleted_tables)
  next
    case (OpCreateRole input)
    then show ?thesis using changed assms(1)
      by (auto dest!: CreateRole_changed [OF refl] dest: replaced_grants_bounded [OF _ _ assms(2)])
  next
    case (OpUpdateRole i input)
    then show ?thesis using changed assms(1)
      by (auto dest!: UpdateRole_changed [OF refl] dest: replaced_grants_bounded [OF _ _ assms(2)])
  next
    case (OpDeleteRole i)
    then show ?thesis using changed assms(1) new by (auto dest!: DeleteRole_changed [OF refl])
  qed (use True in \<open>simp_all add: right_operation_def\<close>)
next
  case False
  then have "ad_Grants (perform env now draw p op db) = ad_Grants db" using other_operations_rights [OF False] by (simp add: rights_def)
  with assms show ?thesis by auto
qed

definition example_roles_db :: AccountDb where
  "example_roles_db = example_db\<lparr>ad_Roles := ad_Roles example_db @ [example_role ''3'' (Some ''n'') ''Crew'' False]\<rparr>"

definition example_edit :: UpdateRoleInput where
  "example_edit = \<lparr>rr_Name = ''Shift'', rr_Description = [], rr_PermissionIDs = [''q'']\<rparr>"

lemma example_edit_valid:
  "validateRoleInput (rr_Name example_edit) (rr_Description example_edit) (rr_PermissionIDs example_edit) = Inr (''Shift'', [], [''q''])"
  by (simp add: validateRoleInput_def example_edit_def text_eval distinct_ids_def)

lemma example_edit_done:
  "\<lparr>gt_OrganizationID = Some ''n'', gt_RoleID = ''3'', gt_PermissionID = ''q''\<rparr>
     \<in> set (ad_Grants (perform example_env 7 example_draw example_principal (OpUpdateRole ''3'' example_edit) example_roles_db))"
proof -
  let ?db = "example_roles_db\<lparr>ad_Roles := update_where (\<lambda>q. ro_ID q = ''3'') (\<lambda>q. q\<lparr>ro_Name := ''Shift'', ro_Description := []\<rparr>) (ad_Roles example_roles_db)\<rparr>"
  have "find_role ''3'' example_roles_db = Some (example_role ''3'' (Some ''n'') ''Crew'' False)"
    "\<not> ro_IsSystem (example_role ''3'' (Some ''n'') ''Crew'' False)"
    "ro_OrganizationID (example_role ''3'' (Some ''n'') ''Crew'' False) = Some ''n''"
    "requireRoleWritePermission example_principal ''update'' (Some ''n'') example_roles_db"
    "\<not> role_name_taken (Some ''n'') ''Shift'' (filter (\<lambda>q. ro_ID q \<noteq> ''3'') (ad_Roles example_roles_db))"
    by code_simp+
  moreover have "requireGrantablePermissions example_principal ''3'' [''q''] ?db" by code_simp
  moreover have "list_all (\<lambda>i. list_ex (\<lambda>m. pm_ID m = i) (ad_Permissions ?db)) [''q'']" by code_simp
  ultimately show ?thesis
    by (simp add: UpdateRole_def example_edit_valid Let_def replaceRolePermissions_def split: sum.split)
qed

theorem role_grants_bounded_witness:
  "\<exists>m \<in> set (ad_Permissions example_roles_db). pm_ID m = ''q''
    \<and> holds_anywhere (pr_UserID example_principal) (pm_Action m) (pm_ResourceType m) example_roles_db"
proof -
  have "\<not> (\<exists>h \<in> set (ad_Grants example_roles_db). gt_RoleID h = ''3'' \<and> gt_PermissionID h = ''q'')" by code_simp
  then show ?thesis using role_grants_bounded [OF example_edit_done] by simp
qed

subsection \<open>Password resets\<close>

text \<open>The token hashes of the sessions that are not revoked, and of the reset tokens not used.\<close>

definition open_sessions :: "AccountDb \<Rightarrow> string set" where
  "open_sessions db = se_TokenHash ` {s \<in> set (ad_Sessions db). se_RevokedAt s = None}"

definition open_resets :: "AccountDb \<Rightarrow> string set" where
  "open_resets db = tk_Hash ` {t \<in> set (ad_ResetTokens db). tk_UsedAt t = None}"

text \<open>Every statement but the insertion of a session or token keeps them closed.\<close>

definition closing :: "AccountDb \<Rightarrow> AccountDb \<Rightarrow> bool" where
  "closing db db' \<longleftrightarrow> open_sessions db' \<subseteq> open_sessions db \<and> open_resets db' \<subseteq> open_resets db"

lemma closing_trans: "closing db db1 \<Longrightarrow> closing db1 db2 \<Longrightarrow> closing db db2"
  by (auto simp: closing_def)

lemma closing_same:
  "ad_Sessions db' = ad_Sessions db \<Longrightarrow> ad_ResetTokens db' = ad_ResetTokens db \<Longrightarrow> closing db db'"
  by (simp add: closing_def open_sessions_def open_resets_def)

lemma closing_revoke: "closing db (revoke_where now q db)"
proof -
  have "open_sessions (revoke_where now q db) \<subseteq> open_sessions db"
    by (auto simp: open_sessions_def revoke_where_def set_update_where)
  then show ?thesis by (simp add: closing_def open_resets_def revoke_where_def)
qed

lemma closing_spend: "closing db (db\<lparr>ad_ResetTokens := spend now q (ad_ResetTokens db)\<rparr>)"
proof -
  have "open_resets (db\<lparr>ad_ResetTokens := spend now q (ad_ResetTokens db)\<rparr>) \<subseteq> open_resets db"
    by (auto simp: open_resets_def spend_def set_update_where)
  then show ?thesis by (simp add: closing_def open_sessions_def)
qed

lemma closing_filter:
  "ad_Sessions db' = filter q (ad_Sessions db) \<Longrightarrow> ad_ResetTokens db' = filter q' (ad_ResetTokens db) \<Longrightarrow> closing db db'"
  by (auto simp: closing_def open_sessions_def open_resets_def)

lemma closing_touch: "closing db (TouchSession now idle i db)"
proof -
  have "open_sessions (TouchSession now idle i db) \<subseteq> open_sessions db"
    by (auto simp: open_sessions_def TouchSession_def set_update_where)
  then show ?thesis by (simp add: closing_def open_resets_def TouchSession_def)
qed

lemma closing_refl [simp]: "closing db db"
  by (simp add: closing_def)

lemma closing_audit [simp]: "closing db (audit_admin p org action tt target db') = closing db db'"
  "closing db (createPrincipalAudit p action db') = closing db db'"
  "closing db (CreateAuditEvent org' actor action tt target' db') = closing db db'"
  "closing db (db'\<lparr>ad_Recovery := rows\<rparr>) = closing db db'" "closing db (db'\<lparr>ad_Audit := events\<rparr>) = closing db db'"
  "closing db (db'\<lparr>ad_Users := us\<rparr>) = closing db db'" "closing db (db'\<lparr>ad_Assignments := as\<rparr>) = closing db db'"
  "closing db (db'\<lparr>ad_VerifyTokens := ts\<rparr>) = closing db db'" "closing db (db'\<lparr>ad_Organizations := os\<rparr>) = closing db db'"
  "closing db (db'\<lparr>ad_Attempts := attempts\<rparr>) = closing db db'" "closing db (db'\<lparr>ad_Authors := is\<rparr>) = closing db db'"
  by (simp_all add: closing_def open_sessions_def open_resets_def audit_admin_def createPrincipalAudit_def CreateAuditEvent_def)

lemma closing_on_user [simp]: "closing db (on_user i f db') = closing db db'"
  by (simp add: closing_def open_sessions_def open_resets_def on_user_def)

lemma closing_revoke' [simp]: "closing db db' \<Longrightarrow> closing db (revoke_where now q db')"
  by (rule closing_trans [OF _ closing_revoke])

lemma closing_spend' [simp]: "closing db db' \<Longrightarrow> closing db (db'\<lparr>ad_ResetTokens := spend now q (ad_ResetTokens db')\<rparr>)"
  by (rule closing_trans [OF _ closing_spend])

lemma perform_closing: "closing db (perform env now draw p op db)"
proof (cases "perform env now draw p op db = db")
  case False
  show ?thesis
  proof (cases op)
    case (OpCreateUser input)
    then show ?thesis using False
      by (auto dest!: CreateUser_changed [OF refl] insert_assignment_appends intro!: closing_same
        simp: insert_user_def split: if_splits)
  next
    case (OpUpdateUser i input)
    then show ?thesis using False
      by (auto dest!: UpdateUser_changed [OF refl] replaced_role insert_assignment_appends
        simp: update_user_def RevokeAllUserSessions_def on_user_def split: if_splits)
  next
    case (OpResetUserPassword i new)
    then show ?thesis using False
      by (auto dest!: ResetUserPassword_changed [OF refl]
        simp: InvalidatePasswordResetTokens_def RevokeAllUserSessions_def UpdateUserPassword_def)
  next
    case (OpHardDeleteUser i confirmation)
    then show ?thesis using False
      by (auto dest!: HardDeleteUser_changed [OF refl] deleted_tables intro!: closing_filter)
  next
    case (OpSetUserActive i active)
    then show ?thesis using False
      by (auto dest!: SetUserActive_changed [OF refl] simp: Let_def RevokeAllUserSessions_def)
  next
    case (OpUnlockUser i)
    then show ?thesis using False by (auto dest!: UnlockUser_changed [OF refl] simp: RecordLoginSuccess_def)
  next
    case (OpUpdateOwnProfile input)
    then show ?thesis using False
      by (auto dest!: UpdateOwnProfile_changed [OF refl] simp: update_user_def split: if_splits)
  next
    case (OpCreateRole input)
    then show ?thesis using False
      by (auto dest!: CreateRole_changed [OF refl] replaced_grants intro!: closing_same)
  next
    case (OpUpdateRole i input)
    then show ?thesis using False
      by (auto dest!: UpdateRole_changed [OF refl] replaced_grants intro!: closing_same)
  next
    case (OpDeleteRole i)
    then show ?thesis using False by (auto dest!: DeleteRole_changed [OF refl] intro!: closing_same)
  next
    case (OpCreateOrganization code name)
    then show ?thesis using False by (auto dest!: CreateOrganization_changed [OF refl] intro!: closing_same)
  next
    case (OpUpdateOrganization i input)
    then show ?thesis using False by (auto dest!: UpdateOrganization_changed [OF refl] intro!: closing_same)
  next
    case (OpClearOwnSessions confirmation)
    have "filter (\<lambda>_. True) (ad_ResetTokens db) = ad_ResetTokens db" by simp
    then show ?thesis using OpClearOwnSessions
      by (auto simp: ClearOwnSessions_def Let_def createPrincipalAudit_def CreateAuditEvent_def closing_def
        open_sessions_def open_resets_def)
  qed (auto simp: Logout_def LogoutAll_def ChangePassword_def sessionAction_def RevokeOwnSession_def RevokeOwnedSession_def
    UpdatePasswordAndRevokeOtherSessions_def RevokeSession_def RevokeAllUserSessions_def)
qed simp

text \<open>What opens a session or reset token: its hash has just been drawn.\<close>

definition may_open :: "string \<Rightarrow> AccountDb \<Rightarrow> AccountDb \<Rightarrow> bool" where
  "may_open hash db db' \<longleftrightarrow> open_sessions db' \<subseteq> insert hash (open_sessions db) \<and> open_resets db' \<subseteq> insert hash (open_resets db)"

lemma closing_may_open: "closing db db' \<Longrightarrow> may_open hash db db'"
  by (auto simp: closing_def may_open_def)

lemma insert_user_closing: "insert_user u db = Inr db' \<Longrightarrow> closing db db'"
  by (auto simp: insert_user_def split: if_splits)

lemma EnsureAdmin_closing: "closing db (fst (EnsureAdmin env draw orgID getenv db))"
proof (cases "fst (EnsureAdmin env draw orgID getenv db) = db")
  case False
  obtain input db1 o' db2 r db3 where o1: "bootstrap_organization orgID input db = Some db1"
    and "find (\<lambda>o'. og_Code o' = bi_OrganizationCode input) (ad_Organizations db1) = Some o'"
    and u: "insert_user (bootstrap_user env draw (og_ID o') input) db1 = Inr db2"
    and "find (\<lambda>r. ro_OrganizationID r = None \<and> ro_Name r = bi_Role input) (ad_Roles db2) = Some r"
    and a: "insert_assignment (baseline_role (dr_ID2 draw) (og_ID o') (dr_ID draw) (ro_ID r) (bi_Role input)) db2 = Inr db3"
    and d: "fst (EnsureAdmin env draw orgID getenv db) =
       CreateAuditEvent (Some (og_ID o')) (Some (dr_ID draw)) ''auth.user.bootstrap'' ''app_user'' (Some (dr_ID draw)) db3"
    using bootstrap_changed [OF refl False] by blast
  have "closing db db1" using o1 by (auto simp: bootstrap_organization_def split: if_splits)
  then have "closing db db2" using insert_user_closing [OF u] by (rule closing_trans)
  then show ?thesis using insert_assignment_appends [OF a] by (simp add: d)
qed simp

lemma login_write_opening: "may_open (drawn_hash env draw) db (fst (login_write env now draw input plan db))"
proof (cases plan)
  case (LoginFailed user increment)
  have "closing db (fst (login_write env now draw input plan db))"
    by (auto simp: LoginFailed login_write_def recordFailure_def RecordLoginFailure_def RecordAuthAttempt_def Let_def
      split: option.split if_split_asm)
  then show ?thesis by (rule closing_may_open)
next
  case (LoginPassed u)
  let ?db = "RecordAuthAttempt now (su_Email u) (li_SourceIP input) True (RecordLoginSuccess (su_ID u) db)"
  have same: "ad_Sessions ?db = ad_Sessions db" "ad_ResetTokens ?db = ad_ResetTokens db"
    by (simp_all add: RecordAuthAttempt_def RecordLoginSuccess_def on_user_def)
  have "may_open (drawn_hash env draw) db db'" if "CreateUserSession (new_session env now draw u input) ?db = Some db'" for db'
    using that same by (auto simp: may_open_def open_sessions_def open_resets_def CreateUserSession_def new_session_def drawn_hash_def
      split: if_splits)
  then show ?thesis
    by (auto simp: LoginPassed login_write_def recordSuccess_def Let_def may_open_def open_sessions_def open_resets_def
      CreateAuditEvent_def split: option.split)
qed (simp add: login_write_def closing_may_open)

lemma request_opening: "may_open (drawn_hash env draw) db (fst (RequestPasswordReset env now draw email ip db))"
proof (cases "fst (RequestPasswordReset env now draw email ip db) = db")
  case False
  show ?thesis using RequestPasswordReset_changed [OF refl False]
  proof (elim disjE exE conjE)
    assume "RecordPasswordRecoveryAttempt now ''REQUEST'' (to_lower (trim_space email)) ip False db
      = Some (fst (RequestPasswordReset env now draw email ip db))"
    then have "closing db (fst (RequestPasswordReset env now draw email ip db))" by (auto dest!: recovery_recorded)
    then show ?thesis by (rule closing_may_open)
  next
    fix u
    assume tx: "request_tx env now draw u (to_lower (trim_space email)) ip db = Some (fst (RequestPasswordReset env now draw email ip db))"
    let ?spent = "spend now (\<lambda>t. tk_UserID t = su_ID u) (ad_ResetTokens db)"
    obtain tokens rows events where t: "insert_token (new_reset_token env now draw u ip) ?spent = Some tokens"
      and d: "fst (RequestPasswordReset env now draw email ip db)
        = db\<lparr>ad_ResetTokens := tokens, ad_Recovery := rows, ad_Audit := events\<rparr>"
      using request_tx_done [OF tx] by blast
    have "open_resets (db\<lparr>ad_ResetTokens := ?spent\<rparr>) \<subseteq> open_resets db" using closing_spend by (auto simp: closing_def)
    moreover have "tokens = ?spent @ [new_reset_token env now draw u ip]" using t by (auto simp: insert_token_def split: if_splits)
    ultimately show ?thesis
      by (auto simp: d may_open_def open_sessions_def open_resets_def new_reset_token_def drawn_hash_def)
  qed
qed (simp add: closing_may_open)

lemma ResetPassword_closing: "closing db (fst (ResetPassword env now token new ip db))"
  by (cases "fst (ResetPassword env now token new ip db) = db")
    (auto dest!: ResetPassword_changed [OF refl] simp: RevokeAllUserSessions_def UpdateUserPassword_def MarkPasswordResetTokenUsed_def)

lemma Register_closing: "closing db (fst (Register env now draw input ip db))"
  by (cases "fst (Register env now draw input ip db) = db")
    (auto dest!: Register_changed [OF refl] insert_user_closing)

lemma VerifyEmail_closing: "closing db (fst (VerifyEmail env now token db))"
  by (cases "fst (VerifyEmail env now token db) = db") (auto dest!: VerifyEmail_changed [OF refl])

text \<open>A hash that has been drawn and is not open stays so, for sessions and for reset tokens.\<close>

definition dead :: "(AccountDb \<Rightarrow> string set) \<Rightarrow> string \<Rightarrow> AccountState \<Rightarrow> bool" where
  "dead sel hash s \<longleftrightarrow> sel \<in> {open_sessions, open_resets} \<and> hash \<in> as_Drawn s \<and> hash \<notin> sel (as_Db s)"

lemma drawn_grows: "account_step env s t \<Longrightarrow> as_Drawn s \<subseteq> as_Drawn t"
  by (induction rule: account_step.induct) auto

lemma dead_step:
  assumes "account_step env s t" and "dead sel hash s"
  shows "dead sel hash t"
proof -
  let ?P = "\<lambda>db. hash \<notin> sel db"
  have old: "?P (as_Db s)" "hash \<in> as_Drawn s" and sel: "sel \<in> {open_sessions, open_resets}"
    using assms(2) by (simp_all add: dead_def)
  have closed: "?P db" if "closing (as_Db s) db" for db using that old(1) sel by (auto simp: closing_def)
  have opened: "?P db" if "may_open h (as_Db s) db" "h \<notin> as_Drawn s" for h db
    using that old sel by (auto simp: may_open_def)
  have "?P (as_Db t)"
    using assms(1)
  proof (rule account_step_db)
    show "?P (as_Db s)" by (rule old(1))
    show "?P (fst (Authenticate env now token (as_Db s)))" for now token
      by (rule closed) (auto simp: Authenticate_def closing_touch split: option.split)
    show "?P (fst (login_write env now draw input plan (as_Db s)))" if "drawn_hash env draw \<notin> as_Drawn s" for now draw input plan
      by (rule opened [OF login_write_opening that])
    show "?P (fst (RequestPasswordReset env now draw email ip (as_Db s)))" if "drawn_hash env draw \<notin> as_Drawn s" for now draw email ip
      by (rule opened [OF request_opening that])
  qed (auto intro!: closed simp: EnsureAdmin_closing perform_closing ResetPassword_closing Register_closing VerifyEmail_closing)
  then show ?thesis using old(2) sel drawn_grows [OF assms(1)] by (auto simp: dead_def)
qed

lemma dead_reach: "accounts_reach env s t \<Longrightarrow> dead sel hash s \<Longrightarrow> dead sel hash t"
  by (induction rule: accounts_reach.induct) (auto intro: dead_step)

lemma open_token: "GetActiveSession now hash db \<noteq> None \<Longrightarrow> hash \<in> open_sessions db"
  by (auto simp: GetActiveSession_def open_sessions_def find_Some_iff session_live_def split: option.splits)

lemma open_reset: "GetActivePasswordResetToken now hash db \<noteq> None \<Longrightarrow> hash \<in> open_resets db"
  by (auto simp: GetActivePasswordResetToken_def open_resets_def find_Some_iff token_open_def split: option.splits)

lemma unrevoked_left: "y \<in> set (ad_Sessions (RevokeAllUserSessions now user db)) \<Longrightarrow> se_RevokedAt y = None \<Longrightarrow>
    y \<in> set (ad_Sessions db) \<and> se_UserID y \<noteq> user"
  by (auto simp: RevokeAllUserSessions_def revoke_where_def set_update_where)

lemma unspent_left: "y \<in> set (spend now q ts) \<Longrightarrow> tk_UsedAt y = None \<Longrightarrow> y \<in> set ts \<and> \<not> q y"
  by (auto simp: spend_def set_update_where)

lemma reset_done:
  assumes "ResetPassword env now token new ip db = (db', None)" and "an_token env token = Some hash"
    and "GetActivePasswordResetToken now hash db = Some (r, u)"
  shows "ad_Sessions db' = ad_Sessions (RevokeAllUserSessions now (tk_UserID r) db)
    \<and> ad_ResetTokens db' = spend now (\<lambda>q. tk_ID q = tk_ID r) (ad_ResetTokens db)"
  using assms by (auto simp: ResetPassword_def reset_tx_def tx_end_def RecordPasswordRecoveryAttempt_def Let_def
    CreateAuditEvent_def RevokeAllUserSessions_def revoke_where_def UpdateUserPassword_def on_user_def
    MarkPasswordResetTokenUsed_def split: if_split_asm)

text \<open>C9: A password reset ends what came before it. When a reset succeeds, then in no later state does the token of
  any session its user had authenticate a request, nor is the reset token accepted again, whatever operations,
  logins and resets run in between.\<close>

theorem reset_ends_sessions:
  assumes "accounts_ok (as_Db s)"
    and "se_TokenHash ` set (ad_Sessions (as_Db s)) \<union> tk_Hash ` set (ad_ResetTokens (as_Db s)) \<subseteq> as_Drawn s"
    and "an_token env token = Some hash" and "GetActivePasswordResetToken now hash (as_Db s) = Some (r, u)"
    and "ResetPassword env now token new ip (as_Db s) = (db', None)"
    and "accounts_reach env (s\<lparr>as_Db := db'\<rparr>) t"
    and "x \<in> set (ad_Sessions (as_Db s))" and "se_UserID x = su_ID u"
  shows "GetActiveSession later (se_TokenHash x) (as_Db t) = None \<and> GetActivePasswordResetToken later hash (as_Db t) = None"
proof -
  let ?db = "as_Db s"
  have r: "r \<in> set (ad_ResetTokens ?db)" "tk_Hash r = hash" "tk_UsedAt r = None" "tk_UserID r = se_UserID x"
    using assms(4,8) by (auto simp: GetActivePasswordResetToken_def find_Some_iff token_open_def active_user_def
      dest!: find_user_in split: option.splits if_splits)
  have hashes: "distinct (map se_TokenHash (ad_Sessions ?db))" "distinct (map tk_Hash (ad_ResetTokens ?db))"
    using assms(1) by (simp_all add: accounts_ok_def sessions_ok_def resets_ok_def)
  have "se_TokenHash x \<notin> open_sessions db'"
  proof
    assume "se_TokenHash x \<in> open_sessions db'"
    then obtain y where "y \<in> set (ad_Sessions db')" "se_RevokedAt y = None" and y: "se_TokenHash y = se_TokenHash x"
      unfolding open_sessions_def by (elim imageE CollectE conjE) simp
    then have "y \<in> set (ad_Sessions ?db)" "se_UserID y \<noteq> tk_UserID r"
      using reset_done [OF assms(5,3,4)] unrevoked_left [of y now "tk_UserID r" ?db] by simp_all
    then show False using inj_onD [of se_TokenHash "set (ad_Sessions ?db)" y x] hashes(1) assms(7) y r(4) by (simp add: distinct_map)
  qed
  moreover have "se_TokenHash x \<in> as_Drawn s" using assms(2,7) by blast
  ultimately have "dead open_sessions (se_TokenHash x) (s\<lparr>as_Db := db'\<rparr>)" by (simp add: dead_def)
  then have session: "se_TokenHash x \<notin> open_sessions (as_Db t)" using dead_reach [OF assms(6)] by (simp add: dead_def)
  have "hash \<notin> open_resets db'"
  proof
    assume "hash \<in> open_resets db'"
    then obtain y where "y \<in> set (ad_ResetTokens db')" "tk_UsedAt y = None" and y: "tk_Hash y = hash"
      unfolding open_resets_def by (elim imageE CollectE conjE) simp
    then have "y \<in> set (ad_ResetTokens ?db)" "tk_ID y \<noteq> tk_ID r"
      using reset_done [OF assms(5,3,4)] unspent_left [of y now "\<lambda>q. tk_ID q = tk_ID r"] by simp_all
    then show False using inj_onD [of tk_Hash "set (ad_ResetTokens ?db)" y r] hashes(2) r y by (auto simp: distinct_map)
  qed
  moreover have "hash \<in> as_Drawn s" using assms(2) r(1,2) by blast
  ultimately have "dead open_resets hash (s\<lparr>as_Db := db'\<rparr>)" by (simp add: dead_def)
  then have "hash \<notin> open_resets (as_Db t)" using dead_reach [OF assms(6)] by (simp add: dead_def)
  with session show ?thesis using open_token open_reset by blast
qed

theorem reset_ends_sessions_witness:
  "GetActiveSession 9 ''t'' (fst (ResetPassword example_env 7 ''r'' ''a new password'' None example_db)) = None
   \<and> GetActivePasswordResetToken 9 ''r'' (fst (ResetPassword example_env 7 ''r'' ''a new password'' None example_db)) = None"
proof -
  let ?db' = "fst (ResetPassword example_env 7 ''r'' ''a new password'' None example_db)"
  have "GetActivePasswordResetToken 7 ''r'' (as_Db example_state) = Some (hd (ad_ResetTokens example_db), example_user ''anna'' ''n'')"
    unfolding example_db_of_state by code_simp
  moreover have "ResetPassword example_env 7 ''r'' ''a new password'' None (as_Db example_state) = (?db', None)"
  proof -
    have "snd (ResetPassword example_env 7 ''r'' ''a new password'' None example_db) = None" by code_simp
    then show ?thesis by (simp add: example_db_of_state prod_eq_iff)
  qed
  moreover have "se_TokenHash ` set (ad_Sessions (as_Db example_state)) \<union> tk_Hash ` set (ad_ResetTokens (as_Db example_state))
      \<subseteq> as_Drawn example_state"
    by (simp add: example_state_def example_db_def example_session_def)
  moreover have "example_session ''t'' ''anna'' \<in> set (ad_Sessions (as_Db example_state))"
    by (simp add: example_state_def example_db_def)
  moreover have "se_UserID (example_session ''t'' ''anna'') = su_ID (example_user ''anna'' ''n'')" by code_simp
  moreover have "an_token example_env ''r'' = Some ''r''" by (simp add: example_env_def)
  ultimately have "GetActiveSession 9 (se_TokenHash (example_session ''t'' ''anna'')) (as_Db (example_state\<lparr>as_Db := ?db'\<rparr>)) = None
      \<and> GetActivePasswordResetToken 9 ''r'' (as_Db (example_state\<lparr>as_Db := ?db'\<rparr>)) = None"
    using reset_ends_sessions [OF _ _ _ _ _ reach_start] example_ok by (metis example_db_of_state)
  then show ?thesis by (simp add: example_session_def)
qed

end
