(* ===== verification/AccountGuesses.thy ===== *)
theory AccountGuesses
  imports AccountClaims
begin

section \<open>auth-service: guessing passwords\<close>

text \<open>
  How often a password can be tried by \<open>Login\<close>, one call after the other: five times, and then once in a
  quarter of an hour. Also the cases in which signing in, the last administrator and the roles of others are not
  protected as they should be.
\<close>

subsection \<open>A wrong password of a user\<close>

definition wrong_guess :: "AccountEnv \<Rightarrow> string \<Rightarrow> int \<Rightarrow> LoginInput \<Rightarrow> AccountDb \<Rightarrow> bool" where
  "wrong_guess env i now input db =
     (case login_read env now input db of LoginFailed (Some u) increment \<Rightarrow> increment \<and> su_ID u = i | _ \<Rightarrow> False)"

definition signs_in :: "AccountEnv \<Rightarrow> string \<Rightarrow> int \<Rightarrow> LoginInput \<Rightarrow> AccountDb \<Rightarrow> bool" where
  "signs_in env i now input db =
     (case login_read env now input db of LoginPassed u \<Rightarrow> su_ID u = i | _ \<Rightarrow> False)"

type_synonym login_call = "int \<times> Drawn \<times> LoginInput"

fun logins :: "AccountEnv \<Rightarrow> login_call list \<Rightarrow> AccountDb \<Rightarrow> AccountDb" where
  "logins env [] db = db"
| "logins env ((now, draw, input) # calls) db = logins env calls (fst (Login env now draw input db))"

fun guesses :: "AccountEnv \<Rightarrow> string \<Rightarrow> login_call list \<Rightarrow> AccountDb \<Rightarrow> int" where
  "guesses env i [] db = 0"
| "guesses env i ((now, draw, input) # calls) db =
     (if wrong_guess env i now input db then 1 else 0) + guesses env i calls (fst (Login env now draw input db))"

fun never_signs_in :: "AccountEnv \<Rightarrow> string \<Rightarrow> login_call list \<Rightarrow> AccountDb \<Rightarrow> bool" where
  "never_signs_in env i [] db = True"
| "never_signs_in env i ((now, draw, input) # calls) db =
     (\<not> signs_in env i now input db \<and> never_signs_in env i calls (fst (Login env now draw input db)))"

fun in_time :: "int \<Rightarrow> int \<Rightarrow> login_call list \<Rightarrow> bool" where
  "in_time t0 t1 [] = True"
| "in_time t0 t1 ((now, draw, input) # calls) = (t0 \<le> now \<and> now \<le> t1 \<and> in_time now t1 calls)"

definition picks :: "AccountEnv \<Rightarrow> bool" where
  "picks env \<longleftrightarrow> (\<forall>us. us \<noteq> [] \<longrightarrow> an_pick env us \<in> set us)"

lemma picked: "picks env \<Longrightarrow> (if us = [] then None else Some (an_pick env us)) = Some u \<Longrightarrow> u \<in> set us"
  by (auto simp: picks_def split: if_splits)

lemma login_user_in: "picks env \<Longrightarrow> GetLoginUser (an_pick env) identifier db = Some u \<Longrightarrow> u \<in> set (ad_Users db)"
  unfolding GetLoginUser_def Let_def by (drule picked, assumption) simp

lemma find_on_user: "(\<And>u. su_ID (f u) = su_ID u) \<Longrightarrow>
    find_user i (on_user j f db) = (if i = j then map_option f (find_user i db) else find_user i db)"
proof -
  assume same: "\<And>u. su_ID (f u) = su_ID u"
  have "find (\<lambda>u. su_ID u = i) (update_where (\<lambda>u. su_ID u = j) f us)
      = (if i = j then map_option f (find (\<lambda>u. su_ID u = i) us) else find (\<lambda>u. su_ID u = i) us)" for us
    by (induction us) (auto simp: update_where_Cons same)
  then show ?thesis by (simp add: find_user_def on_user_def)
qed

lemma find_user_audit [simp]:
  "find_user i (CreateAuditEvent org actor action tt target db) = find_user i db"
  "find_user i (RecordAuthAttempt now identifier ip success db) = find_user i db"
  by (simp_all add: find_user_def CreateAuditEvent_def RecordAuthAttempt_def)

text \<open>The row of the user after a call.\<close>

definition failed_once :: "int \<Rightarrow> UserRow \<Rightarrow> UserRow" where
  "failed_once now u = u\<lparr>su_Failed := su_Failed u + 1,
     su_LockedUntil := (if 5 \<le> su_Failed u + 1 then Some (now + window) else su_LockedUntil u)\<rparr>"

lemma login_failed_plan:
  assumes "picks env" and "accounts_ok db" and "login_read env now input db = LoginFailed (Some u) increment"
  shows "find_user (su_ID u) db = Some u \<and> (increment \<longrightarrow> \<not> locked now u)"
proof -
  have g: "GetLoginUser (an_pick env) (login_identifier input) db = Some u" and inc: "increment \<longrightarrow> \<not> locked now u"
    using assms(3) by (auto simp: login_read_def Let_def split: if_splits option.splits)
  have "find_user (su_ID u) db \<noteq> None" using login_user_in [OF assms(1) g] by (auto simp: find_user_None user_ids_def)
  then obtain v where v: "find_user (su_ID u) db = Some v" by auto
  then have "u = v" using found_unique [OF assms(2) v login_user_in [OF assms(1) g]] by simp
  with v inc show ?thesis by simp
qed

lemma login_row:
  assumes "picks env" and "accounts_ok db" and "\<not> signs_in env i now input db"
  shows "find_user i (fst (Login env now draw input db)) =
     (if wrong_guess env i now input db then map_option (failed_once now) (find_user i db) else find_user i db)"
proof (cases "login_read env now input db")
  case (LoginFailed user increment)
  show ?thesis
  proof (cases user)
    case (Some u)
    then have u: "find_user (su_ID u) db = Some u" using login_failed_plan [OF assms(1,2)] LoginFailed by blast
    then have "find_user (su_ID u) (RecordAuthAttempt now (login_identifier input) (li_SourceIP input) False db) = Some u" by simp
    then show ?thesis using u
      by (auto simp: Login_def login_write_def LoginFailed recordFailure_def Let_def wrong_guess_def Some RecordLoginFailure_def
        find_on_user failed_once_def)
  qed (simp add: Login_def login_write_def LoginFailed recordFailure_def Let_def wrong_guess_def)
next
  case (LoginPassed u)
  then have "su_ID u \<noteq> i" using assms(3) by (simp add: signs_in_def)
  moreover have "find_user i db' = find_user i db0" if "CreateUserSession x db0 = Some db'" for x db0 db'
    using that by (auto simp: CreateUserSession_def find_user_def split: if_splits)
  ultimately show ?thesis
    by (auto simp: Login_def login_write_def LoginPassed recordSuccess_def Let_def wrong_guess_def RecordLoginSuccess_def
      find_on_user split: option.split)
qed (simp add: Login_def login_write_def wrong_guess_def)

lemma Login_ok: "accounts_ok db \<Longrightarrow> accounts_ok (fst (Login env now draw input db))"
  by (simp add: Login_def login_write_ok)

lemma wrong_guess_row:
  assumes "picks env" and "accounts_ok db" and "wrong_guess env i now input db"
  shows "\<exists>u. find_user i db = Some u \<and> \<not> locked now u"
  using assms(3) login_failed_plan [OF assms(1,2)]
  by (auto simp: wrong_guess_def split: LoginPlan.splits option.splits)

subsection \<open>The bound\<close>

text \<open>What is left to a guesser at the time \<open>t0\<close>: the guesses up to the lock, and one for each window after it.\<close>

definition windows :: "int \<Rightarrow> int \<Rightarrow> int" where
  "windows t t1 = (if t \<le> t1 then 1 + (t1 - t) div window else 0)"

definition free_from :: "int \<Rightarrow> UserRow \<Rightarrow> int" where
  "free_from t0 u = (case su_LockedUntil u of None \<Rightarrow> t0 | Some l \<Rightarrow> max t0 l)"

definition allowance :: "int \<Rightarrow> int \<Rightarrow> UserRow option \<Rightarrow> int" where
  "allowance t0 t1 row = (case row of None \<Rightarrow> 0 | Some u \<Rightarrow> max 0 (4 - su_Failed u) + windows (free_from t0 u) t1)"

lemma window_pos: "0 < window"
  by (simp add: window_def second_def)

lemma windows_nonneg [simp]: "0 \<le> windows t t1"
  using window_pos by (simp add: windows_def pos_imp_zdiv_nonneg_iff)

lemma windows_mono: "t \<le> t' \<Longrightarrow> windows t' t1 \<le> windows t t1"
  using window_pos by (auto simp: windows_def pos_imp_zdiv_nonneg_iff intro: zdiv_mono1)

lemma windows_next: "t \<le> t1 \<Longrightarrow> windows (t + window) t1 \<le> windows t t1 - 1"
proof -
  assume t: "t \<le> t1"
  show ?thesis
  proof (cases "t + window \<le> t1")
    case True
    have "(t1 - t) div window = (t1 - (t + window)) div window + 1"
      using window_pos div_add_self2 [of window "t1 - (t + window)"] by (simp add: algebra_simps)
    then show ?thesis using True t window_pos by (simp add: windows_def)
  next
    case False
    then show ?thesis using t window_pos by (simp add: windows_def pos_imp_zdiv_nonneg_iff)
  qed
qed

lemma allowance_nonneg [simp]: "0 \<le> allowance t0 t1 row"
  by (auto simp: allowance_def split: option.split)

lemma allowance_later: "t0 \<le> now \<Longrightarrow> allowance now t1 row \<le> allowance t0 t1 row"
  by (auto simp: allowance_def free_from_def intro!: windows_mono split: option.split)

lemma allowance_spent:
  assumes "t0 \<le> now" and "now \<le> t1" and "\<not> locked now u"
  shows "1 + allowance now t1 (Some (failed_once now u)) \<le> allowance t0 t1 (Some u)"
proof -
  have free: "free_from t0 u \<le> now" using assms(1,3) by (auto simp: free_from_def locked_def split: option.splits)
  have "free_from t0 u \<le> free_from now u" using assms(1) by (auto simp: free_from_def split: option.split)
  show ?thesis
  proof (cases "5 \<le> su_Failed u + 1")
    case True
    then have "free_from now (failed_once now u) = now + window" using window_pos by (simp add: free_from_def failed_once_def)
    then show ?thesis
      using True windows_next [OF assms(2)] windows_mono [OF free, of t1] by (simp add: allowance_def failed_once_def)
  next
    case False
    then have "free_from now (failed_once now u) = now" using free assms(1,3)
      by (auto simp: free_from_def failed_once_def locked_def split: option.splits)
    then show ?thesis using False windows_mono [OF free, of t1] by (simp add: allowance_def failed_once_def)
  qed
qed

lemma guesses_allowed:
  assumes "picks env" and "accounts_ok db" and "in_time t0 t1 calls" and "never_signs_in env i calls db"
  shows "guesses env i calls db \<le> allowance t0 t1 (find_user i db)"
  using assms
proof (induction env i calls db arbitrary: t0 rule: guesses.induct)
  case (2 env i now draw input calls db)
  let ?db = "fst (Login env now draw input db)"
  have now: "t0 \<le> now" "now \<le> t1" "in_time now t1 calls" using "2.prems"(3) by auto
  have not: "\<not> signs_in env i now input db" and rest: "never_signs_in env i calls ?db" using "2.prems"(4) by auto
  have IH: "guesses env i calls ?db \<le> allowance now t1 (find_user i ?db)"
    using "2.IH" [OF "2.prems"(1) Login_ok [OF "2.prems"(2)] now(3) rest] .
  note row = login_row [OF "2.prems"(1,2) not, of draw]
  show ?case
  proof (cases "wrong_guess env i now input db")
    case True
    then obtain u where u: "find_user i db = Some u" "\<not> locked now u"
      using wrong_guess_row [OF "2.prems"(1,2)] by blast
    then show ?thesis using IH row True allowance_spent [OF now(1,2) u(2)] by simp
  next
    case False
    then show ?thesis using IH row allowance_later [OF now(1)] by (auto intro: order_trans)
  qed
qed simp


definition example_login :: LoginInput where
  "example_login = \<lparr>li_Identifier = ''Anna'', li_Password = ''guess'', li_UserAgent = [], li_SourceIP = None\<rparr>"

lemma example_picks: "picks example_env"
  by (simp add: picks_def example_env_def)

lemma example_login_read:
  "login_read example_env 7 example_login example_db = LoginFailed (Some (example_user ''anna'' ''n'')) True"
proof -
  have "login_identifier example_login = ''anna''" by (simp add: login_identifier_def example_login_def text_eval)
  moreover have "GetLoginUser (an_pick example_env) ''anna'' example_db = Some (example_user ''anna'' ''n'')" by code_simp
  ultimately show ?thesis
    by (simp add: login_read_def CountRecentFailedAuthAttempts_def example_db_def maxRecentFailures_def locked_def example_user_def
      VerifyPassword_def example_env_def example_login_def Let_def)
qed


subsection \<open>What is not protected\<close>

text \<open>The administrator a fresh installation gets has no verified address, and no login ever accepts him.\<close>

lemma passed_verified:
  "login_read env now input db = LoginPassed u \<Longrightarrow> su_VerifiedAt u \<noteq> None \<and> GetLoginUser (an_pick env) (login_identifier input) db = Some u"
  by (auto simp: login_read_def classifyLoginStatus_def Let_def split: if_splits option.splits)

lemma bootstrap_admin_cannot_login:
  assumes "picks env" and "accounts_ok db" and "fst (EnsureAdmin env draw orgID getenv db) = db'" and "db' \<noteq> db"
  shows "\<not> signs_in env (dr_ID draw) now input db'"
proof
  assume "signs_in env (dr_ID draw) now input db'"
  then obtain v where v: "login_read env now input db' = LoginPassed v" "su_ID v = dr_ID draw"
    by (auto simp: signs_in_def split: LoginPlan.splits)
  obtain inp db1 o' db2 r db3 where "bootstrap_organization orgID inp db = Some db1"
    and "find (\<lambda>o'. og_Code o' = bi_OrganizationCode inp) (ad_Organizations db1) = Some o'"
    and u: "insert_user (bootstrap_user env draw (og_ID o') inp) db1 = Inr db2"
    and "find (\<lambda>r. ro_OrganizationID r = None \<and> ro_Name r = bi_Role inp) (ad_Roles db2) = Some r"
    and a: "insert_assignment (baseline_role (dr_ID2 draw) (og_ID o') (dr_ID draw) (ro_ID r) (bi_Role inp)) db2 = Inr db3"
    and d: "db' = CreateAuditEvent (Some (og_ID o')) (Some (dr_ID draw)) ''auth.user.bootstrap'' ''app_user'' (Some (dr_ID draw)) db3"
    using bootstrap_changed [OF assms(3,4)] by blast
  have rows: "ad_Users db' = ad_Users db1 @ [bootstrap_user env draw (og_ID o') inp]"
    using u insert_assignment_appends [OF a] by (auto simp: d CreateAuditEvent_def insert_user_def split: if_splits)
  have ok: "accounts_ok db'" using EnsureAdmin_ok [OF assms(2), of env draw orgID getenv] assms(3) by simp
  have vin: "v \<in> set (ad_Users db')" using passed_verified [OF v(1)] login_user_in [OF assms(1)] by blast
  have users: "users_ok (org_ids db') (ad_Users db')" using ok by (simp add: accounts_ok_def)
  have "v = bootstrap_user env draw (og_ID o') inp"
    by (rule user_found_unique [OF users vin]) (use v(2) in \<open>simp_all add: rows bootstrap_user_def\<close>)
  then show False using passed_verified [OF v(1)] by (simp add: bootstrap_user_def)
qed

text \<open>
  An administrator of an organization disables the last system administrator, who happens to be a user of it;
  the guards of \<open>UpdateUser\<close> and \<open>HardDeleteUser\<close> are missing in \<open>SetUserActive\<close>.
\<close>

definition example_last_admin :: AccountDb where
  "example_last_admin = example_global_db\<lparr>
     ad_Permissions := \<lparr>pm_ID = ''d'', pm_Action = ''disable'', pm_ResourceType = ''user''\<rparr> # ad_Permissions example_db,
     ad_Roles := example_role ''4'' (Some ''s'') ''Admin'' False # example_role ''5'' None ''Organization Admin'' False # ad_Roles example_db,
     ad_Grants := \<lparr>gt_OrganizationID = Some ''s'', gt_RoleID = ''4'', gt_PermissionID = ''d''\<rparr>
       # \<lparr>gt_OrganizationID = None, gt_RoleID = ''5'', gt_PermissionID = ''q''\<rparr> # ad_Grants example_db,
     ad_Assignments := \<lparr>ur_ID = ''z'', ur_OrganizationID = Some ''s'', ur_UserID = ''bert'', ur_RoleID = ''4'', ur_PlantID = None\<rparr>
       # ad_Assignments example_global_db\<rparr>"

definition example_bert :: Principal where
  "example_bert = example_principal\<lparr>pr_UserID := ''bert'', pr_OrganizationID := Some ''s''\<rparr>"

lemma last_admin_can_be_disabled:
  "accounts_ok example_last_admin" "admin_exists example_last_admin" "isLastActivePlatformAdmin ''root'' example_last_admin"
  "snd (SetUserActive 7 example_bert ''root'' False example_last_admin) = None"
  "\<not> admin_exists (fst (SetUserActive 7 example_bert ''root'' False example_last_admin))"
  by code_simp+

text \<open>
  The role given to a user is only checked for its organization and its name: who may create users or assign
  roles gives them permissions he does not hold himself.
\<close>

lemma assign_escalates:
  "authorizedRoleName example_bert ''s'' ''5'' example_last_admin = Inr ''Organization Admin''"
  "list_ex (\<lambda>g. gt_RoleID g = ''5'' \<and> gt_PermissionID g = ''q'') (ad_Grants example_last_admin)"
  "\<not> holds_anywhere ''bert'' ''update'' ''role'' example_last_admin"
  by code_simp+

text \<open>A login that read its user before a reset is completed after it: the old password opens a new session.\<close>

lemma stale_login_opens_session:
  "let db = fst (ResetPassword example_env 7 ''r'' ''a new password'' None example_db);
       db' = fst (login_write example_env 8 example_draw example_login (LoginPassed (example_user ''anna'' ''n'')) db)
   in open_sessions db = {} \<and> open_sessions db' = {''new''}"
  by code_simp

text \<open>A changed password leaves the reset tokens that were requested before.\<close>

lemma change_keeps_resets: "ad_ResetTokens (fst (ChangePassword env now p current new db)) = ad_ResetTokens db"
  by (simp add: ChangePassword_def createPrincipalAudit_def CreateAuditEvent_def UpdatePasswordAndRevokeOtherSessions_def
    revoke_where_def on_user_def)

text \<open>The author of a logbook entry cannot be deleted, whatever the confirmation.\<close>

lemma author_not_deleted: "i \<in> set (ad_Authors db) \<Longrightarrow> snd (HardDeleteUser p i confirmation db) \<noteq> None"
  by (auto simp: HardDeleteUser_def tx_end_def delete_user_def audit_admin_def CreateAuditEvent_def split: option.split)

text \<open>A username may be the address of another account: then either of them answers to it.\<close>

lemma login_name_ambiguous:
  "(case insert_user ((example_user ''carl'' ''s'')\<lparr>su_Username := Some ''anna''\<rparr>) example_db of
      Inl _ \<Rightarrow> [] | Inr db \<Rightarrow> map su_ID (filter (\<lambda>u. su_Email u = ''anna'' \<or> su_Username u = Some ''anna'') (ad_Users db)))
   = [''anna'', ''carl'']"
  by code_simp


end
