(* ===== verification/Gateways.thy ===== *)
theory Gateways
  imports ConfigImport GatewayHub
begin

section \<open>platform-api core: administration of the gateways\<close>

text \<open>
  The rest of \<open>core/middleware_config.go\<close> and \<open>core/middleware_plants.go\<close>: creating and changing gateways,
  assigning plants to them, and the entry points that push, import and run commands with their permission
  checks. A gateway and a plant are in the table of \<open>parseUUID\<close>'s texts; an id that does not parse is an id no
  row has. What the hub's \<open>Call\<close> returns is a parameter. \<open>auth.has_permission\<close> is \<open>ce_perm\<close> of \<open>CoreEnv\<close>; the
  organization that a caller may create a gateway in exists. Times and failing statements are not modelled.
\<close>

datatype MiddlewareError =
    ErrMiddlewareNotFound
  | ErrMiddlewareInvalid
  | ErrMiddlewareConflict
  | ErrMiddlewareCommandNAK string
  | MiddlewareCore CoreError
  | MiddlewareOther string

record CreateMiddlewareInput =
  cm_Name :: string
  cm_SiteName :: string
  cm_AutoOnboard :: bool
  cm_PollInterval :: int
  cm_CommandTimeout :: int
  cm_IdleHeartbeat :: int
  cm_APIPolling :: bool

record UpdateMiddlewareInput = CreateMiddlewareInput +
  cm_IsActive :: bool

definition clean_middleware_input :: "'a CreateMiddlewareInput_scheme \<Rightarrow> 'a CreateMiddlewareInput_scheme" where
  "clean_middleware_input i =
     i\<lparr>cm_Name := trim_space (cm_Name i), cm_SiteName := trim_space (cm_SiteName i),
       cm_PollInterval := if cm_PollInterval i = 0 then 60 else cm_PollInterval i,
       cm_IdleHeartbeat := if cm_IdleHeartbeat i = 0 then 1800 else cm_IdleHeartbeat i,
       cm_CommandTimeout := if cm_CommandTimeout i = 0 then 60 else cm_CommandTimeout i\<rparr>"

definition middleware_input_valid :: "'a CreateMiddlewareInput_scheme \<Rightarrow> bool" where
  "middleware_input_valid i \<longleftrightarrow>
     \<not> (cm_Name i = [] \<or> 200 < length (cm_Name i) \<or> 200 < length (cm_SiteName i)
        \<or> cm_PollInterval i < 5 \<or> 3600 < cm_PollInterval i
        \<or> cm_CommandTimeout i < 5 \<or> 300 < cm_CommandTimeout i
        \<or> cm_IdleHeartbeat i < 60 \<or> 86400 < cm_IdleHeartbeat i)"

text \<open>\<open>secret\<close> is the unpadded base64 of 32 random bytes, \<open>sha256\<close> the digest stored instead of the key.\<close>

definition CreateMiddleware ::
  "CoreEnv \<Rightarrow> (string \<Rightarrow> string) \<Rightarrow> string \<Rightarrow> string \<Rightarrow> string \<Rightarrow> CreateMiddlewareInput \<Rightarrow> PushDb
     \<Rightarrow> PushDb \<times> (MiddlewareError + GatewayRow \<times> string)" where
  "CreateMiddleware env sha256 secret newID organizationID input db =
     (let i = clean_middleware_input input;
          organization = (if trim_space organizationID \<noteq> [] then Some organizationID else ce_organization env)
      in (case organization of
            None \<Rightarrow> (db, Inl ErrMiddlewareInvalid)
          | Some org \<Rightarrow>
              if \<not> middleware_input_valid i then (db, Inl ErrMiddlewareInvalid)
              else
                let apiKey = ''ygm_'' @ secret in
                if \<not> ce_perm env ''create'' ''middleware_client'' org None then (db, Inl (MiddlewareCore ErrForbidden))
                else if list_ex (\<lambda>g. gr_OrganizationID g = org \<and> gr_Name g = cm_Name i) (pd_Gateways db)
                then (db, Inl ErrMiddlewareConflict)
                else
                  let g = \<lparr>gr_ID = newID, gr_OrganizationID = org, gr_PollInterval = cm_PollInterval i,
                           gr_APIPolling = cm_APIPolling i, gr_IdleHeartbeat = cm_IdleHeartbeat i, gr_ConfigVersion = 0,
                           gr_AppliedVersion = 0, gr_Snapshot = None, gr_SoftwareVersion = [], gr_LastSeen = 0,
                           gr_Name = cm_Name i, gr_SiteName = cm_SiteName i, gr_KeyPrefix = take 12 apiKey,
                           gr_KeyHash = sha256 apiKey, gr_AutoOnboard = cm_AutoOnboard i, gr_IsActive = True,
                           gr_CommandTimeout = cm_CommandTimeout i\<rparr>
                  in (db\<lparr>pd_Gateways := pd_Gateways db @ [g],
                         pd_Registry := audit org ''middleware_client.created'' ''middleware_client'' newID (pd_Registry db)\<rparr>,
                      Inr (g, apiKey))))"

definition UpdateMiddleware ::
  "CoreEnv \<Rightarrow> string \<Rightarrow> UpdateMiddlewareInput \<Rightarrow> PushDb \<Rightarrow> PushDb \<times> (MiddlewareError + GatewayRow)" where
  "UpdateMiddleware env middlewareID input db =
     (let i = clean_middleware_input input in
      if \<not> middleware_input_valid i then (db, Inl ErrMiddlewareInvalid)
      else (case gateway_row db middlewareID of
              None \<Rightarrow> (db, Inl ErrMiddlewareNotFound)
            | Some before \<Rightarrow>
                let org = gr_OrganizationID before in
                if \<not> ce_perm env ''update'' ''middleware_client'' org None then (db, Inl (MiddlewareCore ErrForbidden))
                else if list_ex (\<lambda>g. gr_OrganizationID g = org \<and> gr_Name g = cm_Name i \<and> gr_ID g \<noteq> middlewareID)
                          (pd_Gateways db)
                then (db, Inl ErrMiddlewareConflict)
                else
                  let change = (\<lambda>g. g\<lparr>gr_Name := cm_Name i, gr_SiteName := cm_SiteName i, gr_IsActive := cm_IsActive i,
                                      gr_AutoOnboard := cm_AutoOnboard i, gr_PollInterval := cm_PollInterval i,
                                      gr_APIPolling := cm_APIPolling i, gr_IdleHeartbeat := cm_IdleHeartbeat i,
                                      gr_CommandTimeout := cm_CommandTimeout i\<rparr>)
                  in (db\<lparr>pd_Gateways := update_where (\<lambda>g. gr_ID g = middlewareID) change (pd_Gateways db),
                         pd_Registry := audit org ''middleware_client.updated'' ''middleware_client'' middlewareID
                           (pd_Registry db)\<rparr>,
                      Inr (change before))))"

subsection \<open>Plants of a gateway\<close>

text \<open>\<open>INSERT .. ON CONFLICT (plant_id) DO UPDATE\<close> on \<open>middleware_plant\<close>.\<close>

definition upsert_assignment :: "string \<times> string \<Rightarrow> (string \<times> string) list \<Rightarrow> (string \<times> string) list" where
  "upsert_assignment a rows =
     (if list_ex (\<lambda>b. snd b = snd a) rows then update_where (\<lambda>b. snd b = snd a) (\<lambda>_. a) rows else rows @ [a])"

definition AssignMiddlewarePlant :: "CoreEnv \<Rightarrow> string \<Rightarrow> string \<Rightarrow> PushDb \<Rightarrow> PushDb \<times> MiddlewareError option" where
  "AssignMiddlewarePlant env middlewareID plantID db =
     (case gateway_row db middlewareID of
        None \<Rightarrow> (db, Some ErrMiddlewareNotFound)
      | Some g \<Rightarrow>
          let org = gr_OrganizationID g; reg = pd_Registry db in
          if \<not> ce_perm env ''update'' ''middleware_plant'' org None then (db, Some (MiddlewareCore ErrForbidden))
          else (case find_plant_info plantID reg of
                  None \<Rightarrow> (db, Some (MiddlewareCore ErrInvalid))
                | Some p \<Rightarrow>
                    if pn_OrganizationID p \<noteq> org then (db, Some (MiddlewareCore ErrInvalid))
                    else
                      let reg = reg\<lparr>rg_Assigned := upsert_assignment (middlewareID, plantID) (rg_Assigned reg)\<rparr>
                      in (db\<lparr>pd_Registry := audit org ''middleware_plant.assigned'' ''middleware_client'' middlewareID reg\<rparr>,
                          None)))"

definition UnassignMiddlewarePlant :: "CoreEnv \<Rightarrow> string \<Rightarrow> string \<Rightarrow> PushDb \<Rightarrow> PushDb \<times> MiddlewareError option" where
  "UnassignMiddlewarePlant env middlewareID plantID db =
     (case gateway_row db middlewareID of
        None \<Rightarrow> (db, Some ErrMiddlewareNotFound)
      | Some g \<Rightarrow>
          let org = gr_OrganizationID g; reg = pd_Registry db in
          if \<not> ce_perm env ''update'' ''middleware_plant'' org None then (db, Some (MiddlewareCore ErrForbidden))
          else if (middlewareID, plantID) \<notin> set (rg_Assigned reg) then (db, Some (MiddlewareCore ErrNotFound))
          else
            let reg = reg\<lparr>rg_Assigned := filter (\<lambda>a. a \<noteq> (middlewareID, plantID)) (rg_Assigned reg)\<rparr>
            in (db\<lparr>pd_Registry := audit org ''middleware_plant.unassigned'' ''middleware_client'' middlewareID reg\<rparr>, None))"

subsection \<open>Calling a gateway\<close>

text \<open>\<open>errors.Is\<close> sees the deadline and \<open>ErrOffline\<close> by their values; the transport error of the hub carries their text.\<close>

definition middlewareCallError :: "string \<Rightarrow> CallError \<Rightarrow> MiddlewareError" where
  "middlewareCallError kind err =
     (case err of
        RejectedError _ reason \<Rightarrow> ErrMiddlewareCommandNAK (''middleware '' @ kind @ '' failed: '' @ reason)
      | Call_transport e \<Rightarrow>
          if e = ''context deadline exceeded'' then ErrMiddlewareCommandNAK (''middleware '' @ kind @ '' timed out'')
          else if e = ErrOffline then MiddlewareCore ErrMiddlewareOffline
          else MiddlewareOther e
      | Call_undecodable e \<Rightarrow> MiddlewareOther e)"

text \<open>The gateway that serves the plant of a device, and the result the browser shows: ok, and the data or the reason.\<close>

definition RunMiddlewareCommand ::
  "CoreEnv \<Rightarrow> (string \<Rightarrow> CallError + string) \<Rightarrow> string \<Rightarrow> string \<Rightarrow> string \<Rightarrow> PushDb
     \<Rightarrow> MiddlewareError + bool \<times> string" where
  "RunMiddlewareCommand env call plantID deviceID kind db =
     (case find (\<lambda>d. di_ID d = deviceID \<and> di_PlantID d = plantID) (rg_Devices (pd_Registry db)) of
        None \<Rightarrow> Inl (MiddlewareCore ErrNotFound)
      | Some d \<Rightarrow>
          if \<not> ce_perm env ''read'' ''middleware_config'' (di_OrganizationID d) (Some plantID)
          then Inl (MiddlewareCore ErrForbidden)
          else (case find (\<lambda>a. snd a = plantID) (rg_Assigned (pd_Registry db)) of
                  None \<Rightarrow> Inl (MiddlewareCore ErrMiddlewareOffline)
                | Some a \<Rightarrow>
                    (case call (fst a) of
                       Inr data \<Rightarrow> Inr (True, data)
                     | Inl (RejectedError _ reason) \<Rightarrow> Inr (False, reason)
                     | Inl err \<Rightarrow> Inl (middlewareCallError kind err))))"

definition PushMiddlewareConfig ::
  "CoreEnv \<Rightarrow> (string \<Rightarrow> 64 word) \<Rightarrow> bool \<Rightarrow> string \<Rightarrow> PushDb
     \<Rightarrow> PushDb \<times> envelope option \<times> (MiddlewareError + PushConfigResult)" where
  "PushMiddlewareConfig env sha deliver middlewareID db =
     (case gateway_row db middlewareID of
        None \<Rightarrow> (db, None, Inl ErrMiddlewareNotFound)
      | Some g \<Rightarrow>
          if \<not> ce_perm env ''update'' ''middleware_config'' (gr_OrganizationID g) None
          then (db, None, Inl (MiddlewareCore ErrForbidden))
          else (case doRecomputeAndPushMiddleware sha deliver middlewareID db of
                  (db, msg, Inl err) \<Rightarrow> (db, msg, Inl (MiddlewareOther err))
                | (db, msg, Inr result) \<Rightarrow>
                    (db\<lparr>pd_Registry := audit (gr_OrganizationID g) ''middleware_config.pushed'' ''middleware_client'' middlewareID
                          (pd_Registry db)\<rparr>, msg, Inr result)))"

text \<open>\<open>decode\<close> is \<open>json.Unmarshal\<close> of the reply to \<open>config-export\<close>.\<close>

definition ImportMiddlewareConfig ::
  "CoreEnv \<Rightarrow> (string \<Rightarrow> CallError + string) \<Rightarrow> (string \<Rightarrow> string + MiddlewareConfigSnapshot) \<Rightarrow> string \<Rightarrow> PushDb
     \<Rightarrow> PushDb \<times> (MiddlewareError + ImportMiddlewareConfigResult)" where
  "ImportMiddlewareConfig env call decode middlewareID db =
     (case gateway_row db middlewareID of
        None \<Rightarrow> (db, Inl ErrMiddlewareNotFound)
      | Some g \<Rightarrow>
          if \<not> ce_perm env ''update'' ''middleware_config'' (gr_OrganizationID g) None
          then (db, Inl (MiddlewareCore ErrForbidden))
          else (case call middlewareID of
                  Inl err \<Rightarrow> (db, Inl (middlewareCallError ''config-export'' err))
                | Inr raw \<Rightarrow>
                    (case decode raw of
                       Inl err \<Rightarrow> (db, Inl (MiddlewareOther (''decode config-export response: '' @ err)))
                     | Inr snapshot \<Rightarrow>
                         (case importFromSnapshot env (gr_OrganizationID g) (Some middlewareID) snapshot (pd_Registry db) of
                            (reg, res, None) \<Rightarrow> (db\<lparr>pd_Registry := reg\<rparr>, Inr res)
                          | (reg, res, Some err) \<Rightarrow> (db\<lparr>pd_Registry := reg\<rparr>, Inl (MiddlewareCore err))))))"

text \<open>The stored snapshot with the gateway's version; an empty one before the first push.\<close>

definition MiddlewareConfig :: "CoreEnv \<Rightarrow> string \<Rightarrow> PushDb \<Rightarrow> MiddlewareError + MiddlewareConfigSnapshot" where
  "MiddlewareConfig env middlewareID db =
     (case gateway_row db middlewareID of
        None \<Rightarrow> Inl ErrMiddlewareNotFound
      | Some g \<Rightarrow>
          if \<not> ce_perm env ''read'' ''middleware_config'' (gr_OrganizationID g) None
          then Inl (MiddlewareCore ErrForbidden)
          else
            let snapshot = (case gr_Snapshot g of
                              Some s \<Rightarrow> s
                            | None \<Rightarrow> \<lparr>mg_Version = 0, mg_Brands = [], mg_DeviceSets = [], mg_Connections = [], mg_Plants = [],
                                       mg_SendIntervalSeconds = 0, mg_APIPollingEnabled = False, mg_IdleHeartbeatSeconds = 0\<rparr>)
            in Inr (snapshot\<lparr>mg_Version := gr_ConfigVersion g\<rparr>))"

end
