(* ===== verification/Plants.thy ===== *)
theory Plants
  imports Gateways CloudTables
begin

section \<open>platform-api core: plants, the event logbook and hard deletion\<close>

text \<open>
  \<open>core/plants.go\<close>, \<open>core/event_logbook.go\<close> and \<open>core/hard_delete.go\<close>. A hard deletion is one transaction of
  several \<open>DELETE\<close> statements: what a statement cascades to is written out, and a row that another table
  refers to with \<open>ON DELETE RESTRICT\<close> makes its statement and with it the transaction fail (\<open>ErrStatement\<close>).
  The tables that only cascade from here and are modelled elsewhere or not at all (alarm rules and events, role
  assignments, register metadata of a device; the screens join in \<open>ScadaScreens\<close>) are left out. Times are integers.
\<close>

text \<open>A logbook row, and the tables the operations of this theory touch.\<close>

record LogbookRow =
  lb_ID :: string
  lb_OrganizationID :: string
  lb_PlantID :: string
  lb_DeviceID :: "string option"
  lb_EventType :: string
  lb_Category :: string
  lb_Title :: string
  lb_StartsAt :: int
  lb_EndsAt :: "int option"
  lb_Note :: string
  lb_Source :: string

record PlatformDb =
  pl_Push :: PushDb
  pl_Readings :: "RawReadingRow list"
  pl_Batches :: "BatchRow list"
  pl_Logbook :: "LogbookRow list"

abbreviation pl_Registry :: "PlatformDb \<Rightarrow> Registry" where
  "pl_Registry db \<equiv> pd_Registry (pl_Push db)"

definition with_registry :: "(Registry \<Rightarrow> Registry) \<Rightarrow> PlatformDb \<Rightarrow> PlatformDb" where
  "with_registry f db = db\<lparr>pl_Push := (pl_Push db)\<lparr>pd_Registry := f (pl_Registry db)\<rparr>\<rparr>"

subsection \<open>Plants\<close>

record UpdatePlantInput =
  up_Code :: string
  up_Name :: string
  up_Timezone :: string
  up_Latitude :: "f64 option"
  up_Longitude :: "f64 option"
  up_InstalledDcKW :: "f64 option"
  up_InstalledAcKW :: "f64 option"
  up_LifecycleStatus :: string
  up_AlarmEmail :: "bool option"
  up_AlarmRole :: "string option"
  up_IsActive :: bool

text \<open>\<open>CreatePlantInput\<close> has the same fields but \<open>IsActive\<close>, which is \<open>true\<close> for a new plant.\<close>

type_synonym CreatePlantInput = UpdatePlantInput

definition plant_lifecycles :: "string list" where
  "plant_lifecycles = [''IN_CONSTRUCTION'', ''OPERATIONAL'', ''OFFLINE'', ''RETIRED'']"

definition validatePlantLifecycle :: "string \<Rightarrow> bool" where
  "validatePlantLifecycle status \<longleftrightarrow> trim_space status \<in> set plant_lifecycles"

definition optionalRoleUUID :: "string option \<Rightarrow> string option" where
  "optionalRoleUUID value = (case value of None \<Rightarrow> None | Some v \<Rightarrow> if trim_space v = [] then None else Some v)"

definition Service_Plant :: "CoreEnv \<Rightarrow> string \<Rightarrow> Registry \<Rightarrow> CoreError + PlantInfo" where
  "Service_Plant env plantID db =
     (case authorized_plant env ''read'' ''plant'' plantID db of None \<Rightarrow> Inl ErrNotFound | Some p \<Rightarrow> Inr p)"

text \<open>A capacity as its column keeps it: none, the rounded number, or an overflow.\<close>

definition numeric_column :: "CoreEnv \<Rightarrow> f64 option \<Rightarrow> f64 option option" where
  "numeric_column env value = (case value of None \<Rightarrow> Some None | Some v \<Rightarrow> map_option Some (ce_numeric env v))"

text \<open>
  The statement that writes a plant row: the columns it is given, the check of the lifecycle, the
  capacities, and the unique code of the organization among the other rows.
\<close>

definition write_plant :: "CoreEnv \<Rightarrow> PlantInfo \<Rightarrow> PlantInfo list \<Rightarrow> CoreError + PlantInfo" where
  "write_plant env p others =
     (case (numeric_column env (pn_InstalledDcKW p), numeric_column env (pn_InstalledAcKW p)) of
        (Some dc, Some ac) \<Rightarrow>
          if pn_LifecycleStatus p \<notin> set plant_lifecycles then Inl ErrInvalid
          else if list_ex (\<lambda>q. pn_OrganizationID q = pn_OrganizationID p \<and> pn_Code q = pn_Code p) others
          then Inl ErrConflict
          else Inr (p\<lparr>pn_InstalledDcKW := dc, pn_InstalledAcKW := ac\<rparr>)
      | _ \<Rightarrow> Inl ErrStatement)"

text \<open>The rows the two writers hand to the statement.\<close>

definition new_plant ::
  "CoreEnv \<Rightarrow> string \<Rightarrow> CreatePlantInput \<Rightarrow> string \<times> string \<times> string \<Rightarrow> string \<Rightarrow> Registry \<Rightarrow> PlantInfo" where
  "new_plant env org input clean status db =
     \<lparr>pn_ID = ce_uuid env db, pn_OrganizationID = org, pn_Code = fst clean, pn_Name = fst (snd clean),
      pn_Timezone = snd (snd clean), pn_Latitude = up_Latitude input, pn_Longitude = up_Longitude input,
      pn_InstalledDcKW = up_InstalledDcKW input, pn_InstalledAcKW = up_InstalledAcKW input, pn_LifecycleStatus = status,
      pn_IsActive = True, pn_AlarmEmail = (up_AlarmEmail input = Some True),
      pn_AlarmRole = optionalRoleUUID (up_AlarmRole input)\<rparr>"

definition changed_plant :: "UpdatePlantInput \<Rightarrow> string \<times> string \<times> string \<Rightarrow> PlantInfo \<Rightarrow> PlantInfo" where
  "changed_plant input clean current =
     current\<lparr>pn_Code := fst clean, pn_Name := fst (snd clean), pn_Timezone := snd (snd clean),
             pn_Latitude := up_Latitude input, pn_Longitude := up_Longitude input,
             pn_InstalledDcKW := up_InstalledDcKW input, pn_InstalledAcKW := up_InstalledAcKW input,
             pn_LifecycleStatus := up_LifecycleStatus input, pn_IsActive := up_IsActive input,
             pn_AlarmEmail := (case up_AlarmEmail input of None \<Rightarrow> pn_AlarmEmail current | Some b \<Rightarrow> b),
             pn_AlarmRole := (case up_AlarmRole input of None \<Rightarrow> pn_AlarmRole current
                              | Some r \<Rightarrow> optionalRoleUUID (Some r))\<rparr>"

definition validate_plant_input ::
  "CoreEnv \<Rightarrow> UpdatePlantInput \<Rightarrow> (string \<times> string \<times> string) \<times> CoreError option" where
  "validate_plant_input env input =
     validatePlant (ce_location env) (up_Code input) (up_Name input) (up_Timezone input) (up_Latitude input)
       (up_Longitude input) (up_InstalledDcKW input) (up_InstalledAcKW input)"

definition role_refused :: "CoreEnv \<Rightarrow> PlantInfo \<Rightarrow> bool" where
  "role_refused env p =
     (case pn_AlarmRole p of None \<Rightarrow> False | Some r \<Rightarrow> \<not> ce_notify_role env r (pn_OrganizationID p))"

definition CreatePlant ::
  "CoreEnv \<Rightarrow> string \<Rightarrow> CreatePlantInput \<Rightarrow> Registry \<Rightarrow> Registry \<times> (CoreError + PlantInfo)" where
  "CreatePlant env organizationID input db =
     (let organization = (if trim_space organizationID \<noteq> [] then Some organizationID else ce_organization env);
          (clean, err) = validate_plant_input env input;
          status = (if up_LifecycleStatus input = [] then ''OPERATIONAL'' else up_LifecycleStatus input)
      in if err \<noteq> None \<or> \<not> validatePlantLifecycle status then (db, Inl ErrInvalid)
         else (case organization of
                 None \<Rightarrow> (db, Inl ErrInvalid)
               | Some org \<Rightarrow>
                   let row = new_plant env org input clean status db in
                   if \<not> ce_perm env ''create'' ''plant'' org None then (db, Inl ErrForbidden)
                   else if role_refused env row then (db, Inl ErrInvalid)
                   else (case write_plant env row (rg_Plants db) of
                           Inl err \<Rightarrow> (db, Inl err)
                         | Inr p \<Rightarrow>
                             (audit org ''plant.created'' ''plant'' (pn_ID p) (db\<lparr>rg_Plants := rg_Plants db @ [p]\<rparr>), Inr p))))"

definition UpdatePlant ::
  "CoreEnv \<Rightarrow> string \<Rightarrow> UpdatePlantInput \<Rightarrow> Registry \<Rightarrow> Registry \<times> (CoreError + PlantInfo)" where
  "UpdatePlant env plantID input db =
     (let (clean, err) = validate_plant_input env input
      in if err \<noteq> None \<or> \<not> validatePlantLifecycle (up_LifecycleStatus input) then (db, Inl ErrInvalid)
         else (case authorized_plant env ''update'' ''plant'' plantID db of
                 None \<Rightarrow> (db, Inl ErrNotFound)
               | Some current \<Rightarrow>
                   let row = changed_plant input clean current in
                   if role_refused env row then (db, Inl ErrInvalid)
                   else (case write_plant env row (filter (\<lambda>q. pn_ID q \<noteq> plantID) (rg_Plants db)) of
                           Inl err \<Rightarrow> (db, Inl err)
                         | Inr p \<Rightarrow>
                             (audit (pn_OrganizationID current) ''plant.updated'' ''plant'' plantID
                                (db\<lparr>rg_Plants := update_where (\<lambda>q. pn_ID q = plantID) (\<lambda>_. p) (rg_Plants db)\<rparr>), Inr p))))"

subsection \<open>The event logbook\<close>

text \<open>\<open>li_StartsAt\<close> is \<open>None\<close> for Go's zero time.\<close>

record CreateEventLogbookInput =
  li_DeviceID :: string
  li_EventType :: string
  li_Category :: string
  li_Title :: string
  li_StartsAt :: "int option"
  li_EndsAt :: "int option"
  li_Note :: string
  li_Source :: string

datatype LogbookError = ErrEventLogbookInvalid | LogbookCore CoreError

definition clean_logbook_input :: "CreateEventLogbookInput \<Rightarrow> CreateEventLogbookInput" where
  "clean_logbook_input i =
     (let source = to_upper (trim_space (li_Source i))
      in i\<lparr>li_DeviceID := trim_space (li_DeviceID i), li_EventType := to_upper (trim_space (li_EventType i)),
           li_Category := trim_space (li_Category i), li_Title := trim_space (li_Title i),
           li_Note := trim_space (li_Note i), li_Source := if source = [] then ''MANUAL'' else source\<rparr>)"

definition validateEventLogbookInput :: "CreateEventLogbookInput \<Rightarrow> LogbookError + CreateEventLogbookInput" where
  "validateEventLogbookInput input =
     (let i = clean_logbook_input input in
      (case li_StartsAt i of
         None \<Rightarrow> Inl ErrEventLogbookInvalid
       | Some startsAt \<Rightarrow>
           if li_Title i = [] \<or> 200 < length (li_Title i) \<or> 100 < length (li_Category i) \<or> 4000 < length (li_Note i)
           then Inl ErrEventLogbookInvalid
           else if li_EventType i \<notin> set [''FAULT'', ''MAINTENANCE'', ''CURTAILMENT'', ''NOTE'']
           then Inl ErrEventLogbookInvalid
           else if li_Source i \<noteq> ''MANUAL'' \<and> li_Source i \<noteq> ''SYSTEM'' then Inl ErrEventLogbookInvalid
           else if (case li_EndsAt i of Some e \<Rightarrow> e < startsAt | None \<Rightarrow> False) then Inl ErrEventLogbookInvalid
           else Inr i))"

text \<open>\<open>authorizedAlarmPlant\<close> of \<open>core/alarms.go\<close>.\<close>

definition authorizedAlarmPlant :: "CoreEnv \<Rightarrow> string \<Rightarrow> string \<Rightarrow> Registry \<Rightarrow> CoreError + PlantInfo" where
  "authorizedAlarmPlant env plantID action db =
     (case authorized_plant env action ''alarm'' plantID db of None \<Rightarrow> Inl ErrNotFound | Some p \<Rightarrow> Inr p)"

definition CreateEventLogbook ::
  "CoreEnv \<Rightarrow> string \<Rightarrow> string \<Rightarrow> CreateEventLogbookInput \<Rightarrow> PlatformDb \<Rightarrow> PlatformDb \<times> (LogbookError + LogbookRow)" where
  "CreateEventLogbook env newID plantID input db =
     (case validateEventLogbookInput input of
        Inl err \<Rightarrow> (db, Inl err)
      | Inr i \<Rightarrow>
          (case authorizedAlarmPlant env plantID ''create'' (pl_Registry db) of
             Inl err \<Rightarrow> (db, Inl (LogbookCore err))
           | Inr p \<Rightarrow>
               if li_DeviceID i \<noteq> []
                  \<and> \<not> list_ex (\<lambda>d. di_OrganizationID d = pn_OrganizationID p \<and> di_PlantID d = pn_ID p \<and> di_ID d = li_DeviceID i)
                        (rg_Devices (pl_Registry db))
               then (db, Inl ErrEventLogbookInvalid)
               else
                 let row = \<lparr>lb_ID = newID, lb_OrganizationID = pn_OrganizationID p, lb_PlantID = pn_ID p,
                            lb_DeviceID = (if li_DeviceID i = [] then None else Some (li_DeviceID i)),
                            lb_EventType = li_EventType i, lb_Category = li_Category i, lb_Title = li_Title i,
                            lb_StartsAt = the (li_StartsAt i), lb_EndsAt = li_EndsAt i, lb_Note = li_Note i,
                            lb_Source = li_Source i\<rparr>
                 in (with_registry (audit (pn_OrganizationID p) ''event_logbook.created'' ''event_logbook'' newID)
                       (db\<lparr>pl_Logbook := pl_Logbook db @ [row]\<rparr>), Inr row)))"

text \<open>\<open>latest\<close> is the \<open>ORDER BY\<close>: latest start first, then the largest id.\<close>

definition ListEventLogbook ::
  "CoreEnv \<Rightarrow> (LogbookRow list \<Rightarrow> LogbookRow list) \<Rightarrow> string \<Rightarrow> int \<Rightarrow> PlatformDb \<Rightarrow> CoreError + LogbookRow list" where
  "ListEventLogbook env latest plantID limit0 db =
     (let limit = (if limit0 \<le> 0 \<or> 200 < limit0 then 100 else limit0)
      in map_sum id (\<lambda>p. take (nat limit) (latest (filter (\<lambda>r. lb_OrganizationID r = pn_OrganizationID p \<and> lb_PlantID r = pn_ID p)
           (pl_Logbook db)))) (authorizedAlarmPlant env plantID ''read'' (pl_Registry db)))"

subsection \<open>Hard deletion\<close>

definition validHardDeleteConfirmation :: "string \<Rightarrow> string \<Rightarrow> bool" where
  "validHardDeleteConfirmation actual legacy \<longleftrightarrow> actual = ''DELETE'' \<or> actual = legacy"

definition requireGlobalHardDelete :: "CoreEnv \<Rightarrow> string \<Rightarrow> CoreError option" where
  "requireGlobalHardDelete env resource = (if ce_global env ''hard_delete'' resource then None else Some ErrForbidden)"

text \<open>\<open>DELETE FROM plant.device\<close>: refused while a reading or a logbook row names a device that would go.\<close>

definition delete_devices :: "(DeviceInfo \<Rightarrow> bool) \<Rightarrow> PlatformDb \<Rightarrow> PlatformDb option" where
  "delete_devices gone db =
     (let devices = filter gone (rg_Devices (pl_Registry db));
          held = (\<lambda>d. list_ex (\<lambda>r. rw_DeviceID r = di_ID d) (pl_Readings db)
                       \<or> list_ex (\<lambda>l. lb_DeviceID l = Some (di_ID d)) (pl_Logbook db))
      in if list_ex held devices then None
         else Some (with_registry (\<lambda>reg. reg\<lparr>rg_Devices := filter (\<lambda>d. \<not> gone d) (rg_Devices reg)\<rparr>) db))"

text \<open>\<open>DELETE FROM plant.plant\<close>: devices and readings hold it, the logbook and the assignments go with it.\<close>

definition delete_plant :: "string \<Rightarrow> PlatformDb \<Rightarrow> PlatformDb option" where
  "delete_plant plantID db =
     (if list_ex (\<lambda>d. di_PlantID d = plantID) (rg_Devices (pl_Registry db))
         \<or> list_ex (\<lambda>r. rw_PlantID r = plantID) (pl_Readings db)
      then None
      else Some (with_registry (\<lambda>reg. reg\<lparr>rg_Plants := filter (\<lambda>p. pn_ID p \<noteq> plantID) (rg_Plants reg),
                   rg_Assigned := filter (\<lambda>a. snd a \<noteq> plantID) (rg_Assigned reg)\<rparr>)
                 (db\<lparr>pl_Logbook := filter (\<lambda>l. lb_PlantID l \<noteq> plantID) (pl_Logbook db)\<rparr>)))"

text \<open>\<open>DELETE FROM plant.device_model\<close>: devices hold it, its register metadata goes with it, its profile stays.\<close>

definition delete_model :: "string \<Rightarrow> PlatformDb \<Rightarrow> PlatformDb option" where
  "delete_model modelID db =
     (if list_ex (\<lambda>d. di_ModelID d = modelID) (rg_Devices (pl_Registry db)) then None
      else Some (with_registry (\<lambda>reg. reg\<lparr>rg_Models := filter (\<lambda>m. mi_ID m \<noteq> modelID) (rg_Models reg),
                   rg_Metadata := filter (\<lambda>r. me_DeviceModelID r \<noteq> modelID) (rg_Metadata reg)\<rparr>) db))"

text \<open>\<open>DELETE FROM auth.middleware_client\<close>: readings and batches hold it, history and assignments go with it.\<close>

definition delete_client :: "string \<Rightarrow> PlatformDb \<Rightarrow> PlatformDb option" where
  "delete_client clientID db =
     (if list_ex (\<lambda>r. rw_ClientID r = clientID) (pl_Readings db) \<or> list_ex (\<lambda>b. bt_ClientID b = clientID) (pl_Batches db)
      then None
      else
        let push = pl_Push db; reg = pd_Registry push
        in Some (db\<lparr>pl_Push := push\<lparr>pd_Gateways := filter (\<lambda>g. gr_ID g \<noteq> clientID) (pd_Gateways push),
                     pd_History := filter (\<lambda>h. hi_ClientID h \<noteq> clientID) (pd_History push),
                     pd_Registry := reg\<lparr>rg_Assigned := filter (\<lambda>a. fst a \<noteq> clientID) (rg_Assigned reg)\<rparr>\<rparr>\<rparr>))"

text \<open>A statement that fails rolls everything back, the audit event included.\<close>

definition committed :: "PlatformDb \<Rightarrow> PlatformDb option \<Rightarrow> PlatformDb \<times> CoreError option" where
  "committed db r = (case r of None \<Rightarrow> (db, Some ErrStatement) | Some db' \<Rightarrow> (db', None))"

definition HardDeletePlant :: "CoreEnv \<Rightarrow> string \<Rightarrow> string \<Rightarrow> PlatformDb \<Rightarrow> PlatformDb \<times> CoreError option" where
  "HardDeletePlant env plantID confirmation db =
     (case requireGlobalHardDelete env ''plant'' of
        Some err \<Rightarrow> (db, Some err)
      | None \<Rightarrow>
     (case find_plant_info plantID (pl_Registry db) of
        None \<Rightarrow> (db, Some ErrNotFound)
      | Some p \<Rightarrow>
          if \<not> validHardDeleteConfirmation confirmation (''DELETE PLANT '' @ pn_Code p) then (db, Some ErrInvalid)
          else
            let org = pn_OrganizationID p;
                here = (\<lambda>d. di_OrganizationID d = org \<and> di_PlantID d = plantID);
                db1 = with_registry (audit org ''plant.hard_deleted'' ''plant'' plantID) db;
                db1 = db1\<lparr>pl_Readings := filter (\<lambda>r. \<not> (rw_OrganizationID r = org \<and> rw_PlantID r = plantID)) (pl_Readings db1)\<rparr>;
                db1 = db1\<lparr>pl_Logbook := update_where (\<lambda>l. lb_OrganizationID l = org \<and> lb_PlantID l = plantID \<and> lb_DeviceID l \<noteq> None)
                          (\<lambda>l. l\<lparr>lb_DeviceID := None\<rparr>) (pl_Logbook db1)\<rparr>
            in committed db (Option.bind (delete_devices here db1) (delete_plant plantID))))"

definition HardDeleteDevice ::
  "CoreEnv \<Rightarrow> string \<Rightarrow> string \<Rightarrow> string \<Rightarrow> PlatformDb \<Rightarrow> PlatformDb \<times> CoreError option" where
  "HardDeleteDevice env plantID deviceID confirmation db =
     (case requireGlobalHardDelete env ''device'' of
        Some err \<Rightarrow> (db, Some err)
      | None \<Rightarrow>
     (case find (\<lambda>d. di_ID d = deviceID \<and> di_PlantID d = plantID) (rg_Devices (pl_Registry db)) of
        None \<Rightarrow> (db, Some ErrNotFound)
      | Some d \<Rightarrow>
          if \<not> validHardDeleteConfirmation confirmation (''DELETE DEVICE '' @ di_ExternalID d) then (db, Some ErrInvalid)
          else
            let org = di_OrganizationID d;
                db1 = with_registry (audit org ''device.hard_deleted'' ''device'' deviceID) db;
                db1 = db1\<lparr>pl_Readings := filter (\<lambda>r. \<not> (rw_OrganizationID r = org \<and> rw_PlantID r = plantID
                                                     \<and> rw_DeviceID r = deviceID)) (pl_Readings db1)\<rparr>;
                db1 = db1\<lparr>pl_Logbook := update_where (\<lambda>l. lb_OrganizationID l = org \<and> lb_PlantID l = plantID
                                                  \<and> lb_DeviceID l = Some deviceID)
                          (\<lambda>l. l\<lparr>lb_DeviceID := None\<rparr>) (pl_Logbook db1)\<rparr>
            in committed db (delete_devices (\<lambda>d. di_OrganizationID d = org \<and> di_PlantID d = plantID \<and> di_ID d = deviceID) db1)))"

definition HardDeleteDeviceModel :: "CoreEnv \<Rightarrow> string \<Rightarrow> string \<Rightarrow> PlatformDb \<Rightarrow> PlatformDb \<times> CoreError option" where
  "HardDeleteDeviceModel env modelID confirmation db =
     (case requireGlobalHardDelete env ''device_model'' of
        Some err \<Rightarrow> (db, Some err)
      | None \<Rightarrow>
     (case find_model modelID (pl_Registry db) of
        None \<Rightarrow> (db, Some ErrNotFound)
      | Some m \<Rightarrow>
          if \<not> validHardDeleteConfirmation confirmation (''DELETE MODEL '' @ modelID) then (db, Some ErrInvalid)
          else
            let org = mi_OrganizationID m;
                here = (\<lambda>d. di_OrganizationID d = org \<and> di_ModelID d = modelID);
                gone = map di_ID (filter here (rg_Devices (pl_Registry db)));
                db1 = with_registry (audit org ''device_model.hard_deleted'' ''device_model'' modelID) db;
                db1 = db1\<lparr>pl_Readings := filter (\<lambda>r. \<not> (rw_OrganizationID r = org \<and> rw_DeviceID r \<in> set gone)) (pl_Readings db1)\<rparr>
            in committed db (Option.bind (delete_devices here db1) (delete_model modelID))))"

definition HardDeleteAPIKey :: "CoreEnv \<Rightarrow> string \<Rightarrow> string \<Rightarrow> PlatformDb \<Rightarrow> PlatformDb \<times> CoreError option" where
  "HardDeleteAPIKey env keyID confirmation db =
     (case requireGlobalHardDelete env ''middleware_client'' of
        Some err \<Rightarrow> (db, Some err)
      | None \<Rightarrow>
     (case gateway_row (pl_Push db) keyID of
        None \<Rightarrow> (db, Some ErrNotFound)
      | Some g \<Rightarrow>
          if \<not> validHardDeleteConfirmation confirmation (''DELETE API KEY '' @ gr_Name g) then (db, Some ErrInvalid)
          else
            let org = gr_OrganizationID g;
                db1 = with_registry (audit org ''middleware_client.hard_deleted'' ''middleware_client'' keyID) db;
                db1 = db1\<lparr>pl_Readings := filter (\<lambda>r. \<not> (rw_OrganizationID r = org \<and> rw_ClientID r = keyID)) (pl_Readings db1),
                          pl_Batches := filter (\<lambda>b. \<not> (bt_OrganizationID b = org \<and> bt_ClientID b = keyID)) (pl_Batches db1)\<rparr>
            in committed db (delete_client keyID db1)))"

subsection \<open>The registry stays in order\<close>

lemma validate_plant_input_ok:
  assumes "validate_plant_input env input = (clean, None)"
  shows "clean_text (fst clean)" and "clean_text (fst (snd clean))"
  using assms by (auto simp: validate_plant_input_def validatePlant_def Let_def clean_text_def split: if_splits)

lemma write_plant_Inr:
  assumes "write_plant env p others = Inr q"
  shows "pn_ID q = pn_ID p" and "pn_OrganizationID q = pn_OrganizationID p" and "pn_Code q = pn_Code p"
    and "pn_Name q = pn_Name p" and "plant_key q \<notin> plant_key ` set others"
  using assms by (auto simp: write_plant_def plant_key_def list_ex_iff split: option.splits if_splits)

lemma add_plant_ok:
  assumes "registry_ok db" and "pn_ID p \<notin> pn_ID ` set (rg_Plants db)" and "plant_key p \<notin> plant_key ` set (rg_Plants db)"
    and "plant_ok p"
  shows "registry_ok (db\<lparr>rg_Plants := rg_Plants db @ [p]\<rparr>)"
  using assms by (auto simp: registry_ok_def keys_ok_def rows_ok_def references_ok_def)

lemma CreatePlant_cases:
  obtains err where "CreatePlant env org input db = (db, Inl err)"
  | o' clean status p where "validate_plant_input env input = (clean, None)"
    and "write_plant env (new_plant env o' input clean status db) (rg_Plants db) = Inr p"
    and "CreatePlant env org input db
      = (audit o' ''plant.created'' ''plant'' (pn_ID p) (db\<lparr>rg_Plants := rg_Plants db @ [p]\<rparr>), Inr p)"
proof -
  let ?org = "if trim_space org \<noteq> [] then Some org else ce_organization env"
  let ?status = "if up_LifecycleStatus input = [] then ''OPERATIONAL'' else up_LifecycleStatus input"
  obtain clean err where v: "validate_plant_input env input = (clean, err)" by (rule prod.exhaust)
  let ?row = "\<lambda>o'. new_plant env o' input clean ?status db"
  note def = CreatePlant_def v Let_def prod.case
  consider "err \<noteq> None \<or> \<not> validatePlantLifecycle ?status" | "?org = None"
    | o' where "err = None" "validatePlantLifecycle ?status" "?org = Some o'" by blast
  then show thesis
  proof cases
    case 1
    then show ?thesis by (intro that(1) [of ErrInvalid]) (simp only: def if_True)
  next
    case 2
    then show ?thesis by (intro that(1) [of ErrInvalid]) (simp only: def option.case if_cancel)
  next
    case (3 o')
    consider "\<not> ce_perm env ''create'' ''plant'' o' None" | "ce_perm env ''create'' ''plant'' o' None" "role_refused env (?row o')"
      | "ce_perm env ''create'' ''plant'' o' None" "\<not> role_refused env (?row o')" by blast
    then show ?thesis
    proof cases
      case 1
      with 3 show ?thesis by (intro that(1) [of ErrForbidden]) (simp only: def option.case if_True if_False simp_thms)
    next
      case 2
      with 3 show ?thesis by (intro that(1) [of ErrInvalid]) (simp only: def option.case if_True if_False simp_thms)
    next
      case p: 3
      have e: "CreatePlant env org input db = (case write_plant env (?row o') (rg_Plants db) of Inl err \<Rightarrow> (db, Inl err)
          | Inr p \<Rightarrow> (audit o' ''plant.created'' ''plant'' (pn_ID p) (db\<lparr>rg_Plants := rg_Plants db @ [p]\<rparr>), Inr p))"
        using 3 p by (simp only: def option.case if_True if_False simp_thms)
      show ?thesis
      proof (cases "write_plant env (?row o') (rg_Plants db)")
        case (Inl err')
        with e show ?thesis by (intro that(1) [of err']) simp
      next
        case (Inr q)
        with e v 3 show ?thesis by (intro that(2) [of clean o' ?status q]) simp_all
      qed
    qed
  qed
qed

lemma UpdatePlant_cases:
  obtains err where "UpdatePlant env i input db = (db, Inl err)"
  | clean c p where "validate_plant_input env input = (clean, None)" and "authorized_plant env ''update'' ''plant'' i db = Some c"
    and "write_plant env (changed_plant input clean c) (filter (\<lambda>q. pn_ID q \<noteq> i) (rg_Plants db)) = Inr p"
    and "UpdatePlant env i input db = (audit (pn_OrganizationID c) ''plant.updated'' ''plant'' i
      (db\<lparr>rg_Plants := update_where (\<lambda>q. pn_ID q = i) (\<lambda>_. p) (rg_Plants db)\<rparr>), Inr p)"
proof -
  obtain clean err where v: "validate_plant_input env input = (clean, err)" by (rule prod.exhaust)
  note def = UpdatePlant_def v Let_def prod.case
  consider "err \<noteq> None \<or> \<not> validatePlantLifecycle (up_LifecycleStatus input)"
    | "err = None" "validatePlantLifecycle (up_LifecycleStatus input)" "authorized_plant env ''update'' ''plant'' i db = None"
    | c where "err = None" "validatePlantLifecycle (up_LifecycleStatus input)" "authorized_plant env ''update'' ''plant'' i db = Some c"
    by blast
  then show thesis
  proof cases
    case 1
    then show ?thesis by (intro that(1) [of ErrInvalid]) (simp only: def if_True)
  next
    case 2
    then show ?thesis by (intro that(1) [of ErrNotFound]) (simp only: def option.case if_False simp_thms)
  next
    case (3 c)
    let ?row = "changed_plant input clean c"
    show ?thesis
    proof (cases "role_refused env ?row")
      case True
      with 3 show ?thesis by (intro that(1) [of ErrInvalid]) (simp only: def option.case if_True if_False simp_thms)
    next
      case False
      have e: "UpdatePlant env i input db = (case write_plant env ?row (filter (\<lambda>q. pn_ID q \<noteq> i) (rg_Plants db)) of
          Inl err \<Rightarrow> (db, Inl err)
        | Inr p \<Rightarrow> (audit (pn_OrganizationID c) ''plant.updated'' ''plant'' i
            (db\<lparr>rg_Plants := update_where (\<lambda>q. pn_ID q = i) (\<lambda>_. p) (rg_Plants db)\<rparr>), Inr p))"
        using 3 False by (simp only: def option.case if_False simp_thms)
      show ?thesis
      proof (cases "write_plant env ?row (filter (\<lambda>q. pn_ID q \<noteq> i) (rg_Plants db))")
        case (Inl err')
        with e show ?thesis by (intro that(1) [of err']) simp
      next
        case (Inr q)
        with e v 3 show ?thesis by (intro that(2) [of clean c q]) simp_all
      qed
    qed
  qed
qed

lemma CreatePlant_ok:
  assumes "registry_ok db" and "fresh_ids env" shows "registry_ok (fst (CreatePlant env org input db))"
proof (cases rule: CreatePlant_cases [of env org input db])
  case (2 o' clean status p)
  note w = write_plant_Inr [OF 2(2)]
  have "registry_ok (db\<lparr>rg_Plants := rg_Plants db @ [p]\<rparr>)"
    using unused_id(4) [OF assms(2), of db] validate_plant_input_ok [OF 2(1)] w
    by (intro add_plant_ok assms(1)) (simp_all add: plant_ok_def new_plant_def)
  with 2(3) show ?thesis by simp
qed (use assms in simp)

lemma update_plants_ok:
  assumes ok: "registry_ok db" and c: "c \<in> set (rg_Plants db)" and q: "pn_ID q = pn_ID c" "pn_OrganizationID q = pn_OrganizationID c"
    and k: "plant_key q \<notin> plant_key ` set (filter (\<lambda>p. pn_ID p \<noteq> pn_ID c) (rg_Plants db))" and "plant_ok q"
  shows "registry_ok (db\<lparr>rg_Plants := update_where (\<lambda>p. pn_ID p = pn_ID c) (\<lambda>_. q) (rg_Plants db)\<rparr>)"
proof -
  let ?ps = "update_where (\<lambda>p. pn_ID p = pn_ID c) (\<lambda>_. q) (rg_Plants db)"
  have ids: "map pn_ID ?ps = map pn_ID (rg_Plants db)" by (rule update_where_map) (simp add: q)
  have one: "p = c" if "p \<in> set (rg_Plants db)" "pn_ID p = pn_ID c" for p
    using that c ok by (auto simp: registry_ok_def keys_ok_def distinct_map inj_on_def)
  have pairs: "map (\<lambda>p. (pn_OrganizationID p, pn_ID p)) ?ps = map (\<lambda>p. (pn_OrganizationID p, pn_ID p)) (rg_Plants db)"
    by (simp add: update_where_def) (use one q in auto)
  have "plant_key y \<noteq> plant_key q" if "y \<in> set (rg_Plants db)" "pn_ID y \<noteq> pn_ID c" for y
  proof
    assume "plant_key y = plant_key q"
    then have "plant_key q \<in> plant_key ` set (filter (\<lambda>p. pn_ID p \<noteq> pn_ID c) (rg_Plants db))"
      using that by (intro image_eqI [of _ _ y]) simp_all
    with k show False ..
  qed
  then have "distinct (map plant_key ?ps)"
    using ok by (intro distinct_update_key [where g = pn_ID]) (auto simp: registry_ok_def keys_ok_def)
  moreover have "plant_ok p" if "p \<in> set ?ps" for p
    using that ok assms(6) by (auto simp: set_update_where registry_ok_def rows_ok_def list_all_iff)
  ultimately show ?thesis
    using ok arg_cong [OF pairs, of set]
    by (simp add: registry_ok_def keys_ok_def rows_ok_def references_ok_def ids list_all_iff)
qed

lemma UpdatePlant_ok:
  assumes "registry_ok db" shows "registry_ok (fst (UpdatePlant env i input db))"
proof (cases rule: UpdatePlant_cases [of env i input db])
  case (2 clean c p)
  note w = write_plant_Inr [OF 2(3)]
  have c: "c \<in> set (rg_Plants db)" "pn_ID c = i" by (rule authorized_plant_Some [OF 2(2)])+
  have "registry_ok (db\<lparr>rg_Plants := update_where (\<lambda>q. pn_ID q = pn_ID c) (\<lambda>_. p) (rg_Plants db)\<rparr>)"
    using validate_plant_input_ok [OF 2(1)] w
    by (intro update_plants_ok assms c) (simp_all add: plant_ok_def changed_plant_def c(2))
  with 2(4) c(2) show ?thesis by simp
qed (use assms in simp)

text \<open>The deletions take whole rows, and no row that another one refers to.\<close>

lemma delete_devices_ok:
  assumes "registry_ok (pl_Registry db)" and "delete_devices P db = Some db'"
  shows "registry_ok (pl_Registry db')"
proof -
  have "pl_Registry db' = (pl_Registry db)\<lparr>rg_Devices := filter (\<lambda>d. \<not> P d) (rg_Devices (pl_Registry db))\<rparr>"
    using assms(2) by (auto simp: delete_devices_def with_registry_def Let_def split: if_splits)
  with assms(1) show ?thesis
    by (auto simp: registry_ok_def keys_ok_def rows_ok_def references_ok_def distinct_map_filter list_all_iff)
qed

text \<open>A row that is left refers to a row that is left.\<close>

lemma filtered_reference:
  assumes "(a, b) \<in> (\<lambda>x. (f x, g x)) ` S" and "b \<noteq> i"
  shows "(a, b) \<in> (\<lambda>x. (f x, g x)) ` {x \<in> S. g x \<noteq> i}"
  using assms by auto

lemma delete_plant_ok:
  assumes "registry_ok (pl_Registry db)" and "delete_plant i db = Some db'"
  shows "registry_ok (pl_Registry db')"
proof -
  let ?r = "pl_Registry db"
  have r: "pl_Registry db' = ?r\<lparr>rg_Plants := filter (\<lambda>p. pn_ID p \<noteq> i) (rg_Plants ?r),
      rg_Assigned := filter (\<lambda>a. snd a \<noteq> i) (rg_Assigned ?r)\<rparr>"
    and d: "\<And>d. d \<in> set (rg_Devices ?r) \<Longrightarrow> di_PlantID d \<noteq> i"
    using assms(2) by (auto simp: delete_plant_def with_registry_def list_ex_iff split: if_splits)
  have "references_ok (pl_Registry db')"
    using assms(1) d filtered_reference [of _ _ pn_OrganizationID pn_ID "set (rg_Plants ?r)" i]
    by (simp add: r registry_ok_def references_ok_def)
  with assms(1) show ?thesis
    by (simp add: r registry_ok_def keys_ok_def rows_ok_def distinct_map_filter list_all_iff)
qed

lemma delete_model_ok:
  assumes "registry_ok (pl_Registry db)" and "delete_model i db = Some db'"
  shows "registry_ok (pl_Registry db')"
proof -
  let ?r = "pl_Registry db"
  have r: "pl_Registry db' = ?r\<lparr>rg_Models := filter (\<lambda>m. mi_ID m \<noteq> i) (rg_Models ?r),
      rg_Metadata := filter (\<lambda>r. me_DeviceModelID r \<noteq> i) (rg_Metadata ?r)\<rparr>"
    and d: "\<And>d. d \<in> set (rg_Devices ?r) \<Longrightarrow> di_ModelID d \<noteq> i"
    using assms(2) by (auto simp: delete_model_def with_registry_def list_ex_iff split: if_splits)
  have "references_ok (pl_Registry db')"
    using assms(1) d filtered_reference [of _ _ mi_OrganizationID mi_ID "set (rg_Models ?r)" i]
    by (simp add: r registry_ok_def references_ok_def)
  with assms(1) show ?thesis
    by (simp add: r registry_ok_def keys_ok_def rows_ok_def distinct_map_filter list_all_iff)
qed

lemma delete_client_registry:
  assumes "delete_client i db = Some db'"
  shows "pl_Registry db' = (pl_Registry db)\<lparr>rg_Assigned := filter (\<lambda>a. fst a \<noteq> i) (rg_Assigned (pl_Registry db))\<rparr>"
  using assms by (auto simp: delete_client_def Let_def split: if_splits)

lemma committed_cases:
  obtains err where "committed db r = (db, Some err)" | db' where "committed db r = (db', None)" and "r = Some db'"
  by (cases r) (simp_all add: committed_def)

lemma with_registry_sel [simp]:
  "pl_Registry (with_registry f db) = f (pl_Registry db)" "pl_Readings (with_registry f db) = pl_Readings db"
  "pl_Logbook (with_registry f db) = pl_Logbook db" "pl_Batches (with_registry f db) = pl_Batches db"
  "pd_Gateways (pl_Push (with_registry f db)) = pd_Gateways (pl_Push db)"
  "pd_History (pl_Push (with_registry f db)) = pd_History (pl_Push db)"
  by (simp_all add: with_registry_def)

text \<open>What is recorded before the deletion: only the audit event is added to the registry.\<close>

lemma bind_Some: "Option.bind r f = Some y \<longleftrightarrow> (\<exists>x. r = Some x \<and> f x = Some y)"
  by (cases r) simp_all

text \<open>What the statements of a deletion start from: the registry with the audit event, fewer readings, a freer logbook.\<close>

definition prepared :: "PlatformDb \<Rightarrow> PlatformDb \<Rightarrow> bool" where
  "prepared db db1 \<longleftrightarrow>
     (\<exists>org action t i. pl_Push db1 = (pl_Push db)\<lparr>pd_Registry := audit org action t i (pl_Registry db)\<rparr>)"

lemma preparedI:
  "prepared db ((with_registry (audit org action t i) db)\<lparr>pl_Readings := rs, pl_Logbook := ls\<rparr>)"
  "prepared db ((with_registry (audit org action t i) db)\<lparr>pl_Readings := rs\<rparr>)"
  "prepared db ((with_registry (audit org action t i) db)\<lparr>pl_Readings := rs, pl_Batches := bs\<rparr>)"
  by (auto simp: prepared_def with_registry_def)

lemma HardDeletePlant_cases:
  obtains "fst (HardDeletePlant env i conf db) = db"
  | P db1 db2 where "prepared db db1" and "delete_devices P db1 = Some db2"
    and "delete_plant i db2 = Some (fst (HardDeletePlant env i conf db))"
proof (cases "requireGlobalHardDelete env ''plant''"; cases "find_plant_info i (pl_Registry db)")
  fix p assume g: "requireGlobalHardDelete env ''plant'' = None" "find_plant_info i (pl_Registry db) = Some p"
  show thesis
  proof (cases "validHardDeleteConfirmation conf (''DELETE PLANT '' @ pn_Code p)")
    case True
    let ?here = "\<lambda>d. di_OrganizationID d = pn_OrganizationID p \<and> di_PlantID d = i"
    obtain rs ls where r: "HardDeletePlant env i conf db = committed db (Option.bind (delete_devices ?here
        ((with_registry (audit (pn_OrganizationID p) ''plant.hard_deleted'' ''plant'' i) db)\<lparr>pl_Readings := rs, pl_Logbook := ls\<rparr>))
        (delete_plant i))"
      using g True by (simp add: HardDeletePlant_def Let_def)
    show ?thesis
      by (cases rule: committed_cases [of db "Option.bind (delete_devices ?here
        ((with_registry (audit (pn_OrganizationID p) ''plant.hard_deleted'' ''plant'' i) db)\<lparr>pl_Readings := rs, pl_Logbook := ls\<rparr>))
        (delete_plant i)"]) (auto simp: bind_Some r intro: that(1) that(2) [OF preparedI(1)])
  qed (use g that(1) in \<open>simp add: HardDeletePlant_def\<close>)
qed (use that(1) in \<open>simp_all add: HardDeletePlant_def\<close>)

lemma HardDeleteDevice_cases:
  obtains "fst (HardDeleteDevice env p i conf db) = db"
  | P db1 where "prepared db db1" and "delete_devices P db1 = Some (fst (HardDeleteDevice env p i conf db))"
proof (cases "requireGlobalHardDelete env ''device''";
    cases "find (\<lambda>d. di_ID d = i \<and> di_PlantID d = p) (rg_Devices (pl_Registry db))")
  fix d assume g: "requireGlobalHardDelete env ''device'' = None"
    "find (\<lambda>d. di_ID d = i \<and> di_PlantID d = p) (rg_Devices (pl_Registry db)) = Some d"
  show thesis
  proof (cases "validHardDeleteConfirmation conf (''DELETE DEVICE '' @ di_ExternalID d)")
    case True
    let ?here = "\<lambda>x. di_OrganizationID x = di_OrganizationID d \<and> di_PlantID x = p \<and> di_ID x = i"
    obtain rs ls where r: "HardDeleteDevice env p i conf db = committed db (delete_devices ?here
        ((with_registry (audit (di_OrganizationID d) ''device.hard_deleted'' ''device'' i) db)\<lparr>pl_Readings := rs, pl_Logbook := ls\<rparr>))"
      using g True by (simp add: HardDeleteDevice_def Let_def)
    show ?thesis
      by (cases rule: committed_cases [of db "delete_devices ?here
        ((with_registry (audit (di_OrganizationID d) ''device.hard_deleted'' ''device'' i) db)\<lparr>pl_Readings := rs, pl_Logbook := ls\<rparr>)"])
        (auto simp: r intro: that(1) that(2) [OF preparedI(1)])
  qed (use g that(1) in \<open>simp add: HardDeleteDevice_def\<close>)
qed (use that(1) in \<open>simp_all add: HardDeleteDevice_def\<close>)

lemma HardDeleteDeviceModel_cases:
  obtains "fst (HardDeleteDeviceModel env i conf db) = db"
  | P db1 db2 where "prepared db db1" and "delete_devices P db1 = Some db2"
    and "delete_model i db2 = Some (fst (HardDeleteDeviceModel env i conf db))"
proof (cases "requireGlobalHardDelete env ''device_model''"; cases "find_model i (pl_Registry db)")
  fix m assume g: "requireGlobalHardDelete env ''device_model'' = None" "find_model i (pl_Registry db) = Some m"
  show thesis
  proof (cases "validHardDeleteConfirmation conf (''DELETE MODEL '' @ i)")
    case True
    let ?here = "\<lambda>d. di_OrganizationID d = mi_OrganizationID m \<and> di_ModelID d = i"
    obtain rs where r: "HardDeleteDeviceModel env i conf db = committed db (Option.bind (delete_devices ?here
        ((with_registry (audit (mi_OrganizationID m) ''device_model.hard_deleted'' ''device_model'' i) db)\<lparr>pl_Readings := rs\<rparr>))
        (delete_model i))"
      using g True by (simp add: HardDeleteDeviceModel_def Let_def)
    show ?thesis
      by (cases rule: committed_cases [of db "Option.bind (delete_devices ?here
        ((with_registry (audit (mi_OrganizationID m) ''device_model.hard_deleted'' ''device_model'' i) db)\<lparr>pl_Readings := rs\<rparr>))
        (delete_model i)"]) (auto simp: bind_Some r intro: that(1) that(2) [OF preparedI(2)])
  qed (use g that(1) in \<open>simp add: HardDeleteDeviceModel_def\<close>)
qed (use that(1) in \<open>simp_all add: HardDeleteDeviceModel_def\<close>)

lemma HardDeleteAPIKey_cases:
  obtains "fst (HardDeleteAPIKey env i conf db) = db"
  | db1 where "prepared db db1" and "delete_client i db1 = Some (fst (HardDeleteAPIKey env i conf db))"
proof (cases "requireGlobalHardDelete env ''middleware_client''"; cases "gateway_row (pl_Push db) i")
  fix g assume g: "requireGlobalHardDelete env ''middleware_client'' = None" "gateway_row (pl_Push db) i = Some g"
  show thesis
  proof (cases "validHardDeleteConfirmation conf (''DELETE API KEY '' @ gr_Name g)")
    case True
    obtain rs bs where r: "HardDeleteAPIKey env i conf db = committed db (delete_client i
        ((with_registry (audit (gr_OrganizationID g) ''middleware_client.hard_deleted'' ''middleware_client'' i) db)
          \<lparr>pl_Readings := rs, pl_Batches := bs\<rparr>))"
      using g True by (simp add: HardDeleteAPIKey_def Let_def)
    show ?thesis
      by (cases rule: committed_cases [of db "delete_client i
        ((with_registry (audit (gr_OrganizationID g) ''middleware_client.hard_deleted'' ''middleware_client'' i) db)
          \<lparr>pl_Readings := rs, pl_Batches := bs\<rparr>)"]) (auto simp: r intro: that(1) that(2) [OF preparedI(3)])
  qed (use g that(1) in \<open>simp add: HardDeleteAPIKey_def\<close>)
qed (use that(1) in \<open>simp_all add: HardDeleteAPIKey_def\<close>)

lemma prepared_registry_ok: "prepared db db1 \<Longrightarrow> registry_ok (pl_Registry db1) = registry_ok (pl_Registry db)"
  by (auto simp: prepared_def)

lemma HardDeletePlant_ok:
  assumes "registry_ok (pl_Registry db)" shows "registry_ok (pl_Registry (fst (HardDeletePlant env i conf db)))"
  by (cases rule: HardDeletePlant_cases [of env i conf db])
    (use assms prepared_registry_ok delete_devices_ok delete_plant_ok in metis)+

lemma HardDeleteDevice_ok:
  assumes "registry_ok (pl_Registry db)" shows "registry_ok (pl_Registry (fst (HardDeleteDevice env p i conf db)))"
  by (cases rule: HardDeleteDevice_cases [of env p i conf db])
    (use assms prepared_registry_ok delete_devices_ok in metis)+

lemma HardDeleteDeviceModel_ok:
  assumes "registry_ok (pl_Registry db)" shows "registry_ok (pl_Registry (fst (HardDeleteDeviceModel env i conf db)))"
  by (cases rule: HardDeleteDeviceModel_cases [of env i conf db])
    (use assms prepared_registry_ok delete_devices_ok delete_model_ok in metis)+

lemma assigned_registry_ok: "registry_ok (db\<lparr>rg_Assigned := as\<rparr>) = registry_ok db"
  by (simp add: registry_ok_def keys_ok_def rows_ok_def references_ok_def)

lemma HardDeleteAPIKey_ok:
  assumes "registry_ok (pl_Registry db)" shows "registry_ok (pl_Registry (fst (HardDeleteAPIKey env i conf db)))"
  by (cases rule: HardDeleteAPIKey_cases [of env i conf db])
    (use assms in \<open>auto simp: prepared_registry_ok assigned_registry_ok delete_client_registry\<close>)

subsection \<open>What the deletions do not take\<close>

text \<open>
  A device that a logbook entry names cannot be deleted with its model: this deletion does not detach the
  logbook first, as those of a plant and of a device do.
\<close>

lemma logbook_blocks_model_deletion:
  assumes "ce_global env ''hard_delete'' ''device_model''" and "find_model i (pl_Registry db) = Some m"
    and "d \<in> set (rg_Devices (pl_Registry db))" and "di_ModelID d = i" and "di_OrganizationID d = mi_OrganizationID m"
    and "l \<in> set (pl_Logbook db)" and "lb_DeviceID l = Some (di_ID d)"
  shows "HardDeleteDeviceModel env i ''DELETE'' db = (db, Some ErrStatement)"
proof -
  have "delete_devices (\<lambda>d. di_OrganizationID d = mi_OrganizationID m \<and> di_ModelID d = i)
      ((with_registry (audit org a t j) db)\<lparr>pl_Readings := rs\<rparr>) = None" for org a t j rs
    using assms(3-7) by (auto simp: delete_devices_def Let_def list_ex_iff audit_def)
  then show ?thesis
    using assms(1,2)
    by (simp add: HardDeleteDeviceModel_def requireGlobalHardDelete_def validHardDeleteConfirmation_def Let_def committed_def)
qed

lemma deletion_profiles:
  "delete_devices P db = Some db' \<Longrightarrow> rg_Profiles (pl_Registry db') = rg_Profiles (pl_Registry db)"
  "delete_model i db = Some db' \<Longrightarrow> rg_Profiles (pl_Registry db') = rg_Profiles (pl_Registry db)"
  by (auto simp: delete_devices_def delete_model_def Let_def with_registry_def split: if_splits)

text \<open>The profile that came with a model outlives it, so its name stays taken and the model cannot be created again.\<close>

lemma deleted_model_not_recreated:
  assumes "\<exists>p \<in> set (rg_Profiles (pl_Registry db)). ProfileInfo.pf_OrganizationID p = org \<and> ProfileInfo.pf_Name p = dmi_Manufacturer inp @ '' '' @ dmi_Model inp"
    and "trim_space org \<noteq> []" and "validateDeviceModelInput inp = Inr inp"
  shows "\<not> is_ok (snd (CreateDeviceModel env' org inp (pl_Registry (fst (HardDeleteDeviceModel env i conf db)))))"
proof -
  have "rg_Profiles (pl_Registry (fst (HardDeleteDeviceModel env i conf db))) = rg_Profiles (pl_Registry db)"
  proof (cases rule: HardDeleteDeviceModel_cases [of env i conf db])
    case (2 P db1 db2)
    have "rg_Profiles (pl_Registry db1) = rg_Profiles (pl_Registry db)" using 2(1) by (auto simp: prepared_def audit_def)
    then show ?thesis using deletion_profiles(1) [OF 2(2)] deletion_profiles(2) [OF 2(3)] by simp
  qed simp
  then show ?thesis
    using assms by (auto simp: CreateDeviceModel_def deviceModelInputOrganization_def Let_def list_ex_iff)
qed

end
