(* ===== verification/Platform.thy ===== *)
theory Platform
  imports Plants
begin

section \<open>The platform's configuration, over all its operations\<close>

text \<open>
  The states the configuration tables of the platform can reach: any sequence of the operations of
  \<open>Registry\<close>, \<open>Plants\<close>, \<open>Gateways\<close> and \<open>ConfigImport\<close> by any callers, and of the messages of gateways, from
  empty tables. The invariant of these states is what the properties of a push start from.
\<close>

text \<open>One operation on the registry; every caller has an environment of his own.\<close>

inductive registry_step :: "Registry \<Rightarrow> Registry \<Rightarrow> bool" where
  create_model: "fresh_ids env \<Longrightarrow> registry_step db (fst (CreateDeviceModel env org input db))"
| update_model: "registry_step db (fst (UpdateDeviceModel env i input db))"
| set_metadata: "registry_step db (fst (SetDeviceModelRegisterMetadata env i meta db))"
| delete_metadata: "registry_step db (fst (DeleteDeviceModelRegisterMetadata env i key db))"
| create_profile: "fresh_ids env \<Longrightarrow> registry_step db (fst (CreateRegisterProfile env org name man desc db))"
| assign_profile: "registry_step db (fst (AssignRegisterProfile env i p db))"
| upsert_address: "registry_step db (fst (UpsertRegisterProfileAddress env p meta db))"
| create_device: "fresh_ids env \<Longrightarrow> registry_step db (fst (CreateDevice env p dev db))"
| update_device: "registry_step db (fst (UpdateDevice env p i upd db))"
| create_plant: "fresh_ids env \<Longrightarrow> registry_step db (fst (CreatePlant env org pl db))"
| update_plant: "registry_step db (fst (UpdatePlant env i upl db))"
| import_config: "fresh_ids env \<Longrightarrow> registry_step db (fst (importFromSnapshot env org gw s db))"

inductive_cases registry_stepE: "registry_step db db'"

text \<open>
  One operation on the platform. The id of a new gateway is not one in use or in the history; \<open>call\<close>, \<open>sha\<close>
  and \<open>deliver\<close> are what the gateway and the hub answer.
\<close>

inductive platform_step :: "PlatformDb \<Rightarrow> PlatformDb \<Rightarrow> bool" where
  registry: "registry_step (pl_Registry db) reg \<Longrightarrow> platform_step db (with_registry (\<lambda>_. reg) db)"
| create_gateway: "i \<notin> gr_ID ` set (pd_Gateways (pl_Push db)) \<union> hi_ClientID ` set (pd_History (pl_Push db)) \<Longrightarrow>
    platform_step db (db\<lparr>pl_Push := fst (CreateMiddleware env sha256 secret i org cinput (pl_Push db))\<rparr>)"
| update_gateway: "platform_step db (db\<lparr>pl_Push := fst (UpdateMiddleware env i uinput (pl_Push db))\<rparr>)"
| assign: "platform_step db (db\<lparr>pl_Push := fst (AssignMiddlewarePlant env i p (pl_Push db))\<rparr>)"
| unassign: "platform_step db (db\<lparr>pl_Push := fst (UnassignMiddlewarePlant env i p (pl_Push db))\<rparr>)"
| push: "platform_step db (db\<lparr>pl_Push := fst (PushMiddlewareConfig env sha deliver i (pl_Push db))\<rparr>)"
| import_gateway: "fresh_ids env \<Longrightarrow>
    platform_step db (db\<lparr>pl_Push := fst (ImportMiddlewareConfig env call decode i (pl_Push db))\<rparr>)"
| message: "platform_step db (db\<lparr>pl_Push := gateway_message now i m (pl_Push db)\<rparr>)"
| logbook: "platform_step db (fst (CreateEventLogbook env i p linput db))"
| delete_plant: "platform_step db (fst (HardDeletePlant env i conf db))"
| delete_device: "platform_step db (fst (HardDeleteDevice env p i conf db))"
| delete_model: "platform_step db (fst (HardDeleteDeviceModel env i conf db))"
| delete_gateway: "platform_step db (fst (HardDeleteAPIKey env i conf db))"

definition empty_platform :: PlatformDb where
  "empty_platform =
     \<lparr>pl_Push = \<lparr>pd_Gateways = [], pd_History = [],
        pd_Registry = \<lparr>rg_Profiles = [], rg_Addresses = [], rg_Models = [], rg_Metadata = [], rg_Devices = [],
          rg_Plants = [], rg_Assigned = [], rg_Audit = []\<rparr>\<rparr>,
      pl_Readings = [], pl_Batches = [], pl_Logbook = []\<rparr>"

text \<open>Readings and batches come and go with ingestion, which this relation leaves open.\<close>

inductive platform_reachable :: "PlatformDb \<Rightarrow> bool" where
  start: "platform_reachable empty_platform"
| step: "platform_reachable db \<Longrightarrow> platform_step db db' \<Longrightarrow> platform_reachable db'"
| ingestion: "platform_reachable db \<Longrightarrow> platform_reachable (db\<lparr>pl_Readings := rs, pl_Batches := bs\<rparr>)"

subsection \<open>The invariant\<close>

definition gateway_settings_ok :: "GatewayRow \<Rightarrow> bool" where
  "gateway_settings_ok g \<longleftrightarrow>
     clean_text (gr_Name g) \<and> 5 \<le> gr_PollInterval g \<and> gr_PollInterval g \<le> 3600
     \<and> 5 \<le> gr_CommandTimeout g \<and> gr_CommandTimeout g \<le> 300
     \<and> 60 \<le> gr_IdleHeartbeat g \<and> gr_IdleHeartbeat g \<le> 86400"

definition gateway_key :: "GatewayRow \<Rightarrow> string \<times> string" where
  "gateway_key g = (gr_OrganizationID g, gr_Name g)"

definition gateways_ok :: "PushDb \<Rightarrow> bool" where
  "gateways_ok db \<longleftrightarrow>
     distinct (map gateway_key (pd_Gateways db)) \<and> list_all gateway_settings_ok (pd_Gateways db) \<and> versions_ok db"

definition plant_ids :: "Registry \<Rightarrow> (string \<times> string) set" where
  "plant_ids reg = (\<lambda>p. (pn_OrganizationID p, pn_ID p)) ` set (rg_Plants reg)"

definition gateway_ids :: "GatewayRow list \<Rightarrow> (string \<times> string) set" where
  "gateway_ids gs = (\<lambda>g. (gr_OrganizationID g, gr_ID g)) ` set gs"

text \<open>A plant is assigned to at most one gateway, of its own organization.\<close>

definition assignments_ok :: "GatewayRow list \<Rightarrow> Registry \<Rightarrow> bool" where
  "assignments_ok gs reg \<longleftrightarrow>
     distinct (map snd (rg_Assigned reg))
     \<and> (\<forall>(g, p) \<in> set (rg_Assigned reg). \<exists>org. (org, g) \<in> gateway_ids gs \<and> (org, p) \<in> plant_ids reg)"

definition platform_ok :: "PlatformDb \<Rightarrow> bool" where
  "platform_ok db \<longleftrightarrow>
     registry_ok (pl_Registry db) \<and> gateways_ok (pl_Push db)
     \<and> assignments_ok (pd_Gateways (pl_Push db)) (pl_Registry db)"

lemma assignments_mono:
  assumes "assignments_ok gs reg" and "rg_Assigned reg' = rg_Assigned reg" and "plant_ids reg \<subseteq> plant_ids reg'"
    and "gateway_ids gs \<subseteq> gateway_ids gs'"
  shows "assignments_ok gs' reg'"
  using assms unfolding assignments_ok_def by fastforce

subsection \<open>Operations on the registry\<close>

lemma registry_step_ok: "registry_step db db' \<Longrightarrow> registry_ok db \<Longrightarrow> registry_ok db'"
proof (induction rule: registry_step.induct)
  case (import_config env db org gw s)
  obtain db' r where i: "importFromSnapshot env org gw s db = (db', r)" by (rule prod.exhaust)
  show ?case using registry.import_kept [OF i] import_config by (simp add: i)
qed (auto intro: registry_operations_ok CreatePlant_ok UpdatePlant_ok)

text \<open>The assignments and the ids of the plants: no operation on the registry takes one away.\<close>

definition plants_kept :: "Registry \<Rightarrow> Registry \<Rightarrow> bool" where
  "plants_kept db db' \<longleftrightarrow> rg_Assigned db' = rg_Assigned db \<and> plant_ids db \<subseteq> plant_ids db'"

lemma plants_kept_same: "rg_Assigned db' = rg_Assigned db \<Longrightarrow> rg_Plants db' = rg_Plants db \<Longrightarrow> plants_kept db db'"
  by (simp add: plants_kept_def plant_ids_def)

lemma UpsertRegisterProfileAddress_plants:
  "rg_Assigned (fst (UpsertRegisterProfileAddress env p meta db)) = rg_Assigned db
   \<and> rg_Plants (fst (UpsertRegisterProfileAddress env p meta db)) = rg_Plants db"
  by (simp add: UpsertRegisterProfileAddress_def Let_def audit_def split: sum.split option.split)

interpretation plants: import_kept env "\<lambda>db. rg_Assigned db = as \<and> rg_Plants db = ps" for env as ps
proof unfold_locales
  fix db :: Registry
  assume a: "rg_Assigned db = as \<and> rg_Plants db = ps"
  let ?P = "\<lambda>db. rg_Assigned db = as \<and> rg_Plants db = ps"
  show "?P (fst (CreateDeviceModel env org input db))" for org input
    using a by (simp add: CreateDeviceModel_def Let_def audit_def split: sum.split)
  show "?P (fst (SetDeviceModelRegisterMetadata env i meta db))" for i meta
    using a by (simp add: SetDeviceModelRegisterMetadata_def UpsertRegisterProfileAddress_plants Let_def audit_def
        split: sum.split option.split)
  show "?P (fst (pruneModbusRegisterMetadata env i keep db))" for i keep
    using a by (simp add: pruneModbusRegisterMetadata_def Let_def audit_def split: sum.split)
  show "?P (fst (CreateDevice env p dev db))" for p dev
    using a by (simp add: CreateDevice_def Let_def audit_def split: sum.split option.split)
  show "?P (fst (UpdateDevice env p i upd db))" for p i upd
    using a by (simp add: UpdateDevice_def Let_def audit_def split: sum.split option.split)
qed

lemma UpdatePlant_plants:
  assumes "registry_ok db" shows "plants_kept db (fst (UpdatePlant env i upl db))"
proof (cases rule: UpdatePlant_cases [of env i upl db])
  case (2 clean c p)
  note w = write_plant_Inr [OF 2(3)]
  have c: "c \<in> set (rg_Plants db)" "pn_ID c = i" by (rule authorized_plant_Some [OF 2(2)])+
  have one: "q = c" if "q \<in> set (rg_Plants db)" "pn_ID q = i" for q
    using that c assms by (auto simp: registry_ok_def keys_ok_def distinct_map inj_on_def)
  have same: "pn_OrganizationID p = pn_OrganizationID c" "pn_ID p = i" using w c by (simp_all add: changed_plant_def)
  have "map (\<lambda>p. (pn_OrganizationID p, pn_ID p)) (update_where (\<lambda>q. pn_ID q = i) (\<lambda>_. p) (rg_Plants db))
      = map (\<lambda>p. (pn_OrganizationID p, pn_ID p)) (rg_Plants db)"
    by (simp add: update_where_def same) (use one in blast)
  from arg_cong [OF this, of set] 2(4) show ?thesis by (simp add: plants_kept_def plant_ids_def audit_def)
qed (simp add: plants_kept_same)

lemma registry_step_plants: "registry_step db db' \<Longrightarrow> registry_ok db \<Longrightarrow> plants_kept db db'"
proof (induction rule: registry_step.induct)
  case (import_config env db org gw s)
  obtain db' r where i: "importFromSnapshot env org gw s db = (db', r)" by (rule prod.exhaust)
  show ?case using plants.import_kept [OF i] by (simp add: i plants_kept_same)
next
  case (create_plant env db org pl)
  show ?case
  proof (cases rule: CreatePlant_cases [of env org pl db])
    case (2 o' clean status p)
    show ?thesis by (simp add: 2(3) plants_kept_def plant_ids_def audit_def subset_insertI)
  qed (simp add: plants_kept_same)
next
  case (update_model db env i input)
  show ?case
    by (rule plants_kept_same) (simp_all add: UpdateDeviceModel_def Let_def audit_def split: sum.split option.split)
next
  case (delete_metadata db env i key)
  show ?case
    by (rule plants_kept_same) (simp_all add: DeleteDeviceModelRegisterMetadata_def Let_def audit_def split: sum.split option.split)
next
  case (create_profile env db org name man desc)
  show ?case by (rule plants_kept_same) (simp_all add: CreateRegisterProfile_def Let_def audit_def split: option.split)
next
  case (assign_profile db env i p)
  show ?case by (rule plants_kept_same) (simp_all add: AssignRegisterProfile_def Let_def audit_def split: option.split)
next
  case (upsert_address db env p meta)
  show ?case by (rule plants_kept_same) (simp_all add: UpsertRegisterProfileAddress_plants)
qed (use plants.create_model plants.set_metadata plants.create_device plants.update_device in
    \<open>auto intro: plants_kept_same UpdatePlant_plants\<close>)

subsection \<open>Operations on the gateways\<close>

lemma gateways_ok_cong:
  "pd_Gateways db' = pd_Gateways db \<Longrightarrow> pd_History db' = pd_History db \<Longrightarrow> gateways_ok db' = gateways_ok db"
  by (simp add: gateways_ok_def versions_ok_def)

lemma clean_middleware_ok:
  assumes "middleware_input_valid (clean_middleware_input i)"
  shows "clean_text (cm_Name (clean_middleware_input i))"
  using assms by (auto simp: middleware_input_valid_def clean_middleware_input_def clean_text_def)

lemma CreateMiddleware_cases:
  obtains err where "CreateMiddleware env sha256 secret i org input db = (db, Inl err)"
  | g where "fst (CreateMiddleware env sha256 secret i org input db)
      = db\<lparr>pd_Gateways := pd_Gateways db @ [g], pd_Registry := audit (gr_OrganizationID g) ''middleware_client.created''
          ''middleware_client'' i (pd_Registry db)\<rparr>"
    and "gr_ID g = i" and "gateway_settings_ok g" and "gateway_key g \<notin> gateway_key ` set (pd_Gateways db)"
    and "gr_ConfigVersion g = 0" and "gr_AppliedVersion g = 0"
proof -
  let ?i = "clean_middleware_input input"
  let ?org = "if trim_space org \<noteq> [] then Some org else ce_organization env"
  note def = CreateMiddleware_def Let_def
  consider "?org = None" | o' where "?org = Some o'" "\<not> middleware_input_valid ?i"
    | o' where "?org = Some o'" "middleware_input_valid ?i" "\<not> ce_perm env ''create'' ''middleware_client'' o' None"
    | o' where "?org = Some o'" "middleware_input_valid ?i" "ce_perm env ''create'' ''middleware_client'' o' None"
        "list_ex (\<lambda>g. gr_OrganizationID g = o' \<and> gr_Name g = cm_Name ?i) (pd_Gateways db)"
    | o' where "?org = Some o'" "middleware_input_valid ?i" "ce_perm env ''create'' ''middleware_client'' o' None"
        "\<not> list_ex (\<lambda>g. gr_OrganizationID g = o' \<and> gr_Name g = cm_Name ?i) (pd_Gateways db)"
    by blast
  then show thesis
  proof cases
    case 1
    then show ?thesis by (intro that(1) [of ErrMiddlewareInvalid]) (simp only: def option.case)
  next
    case (2 o')
    then show ?thesis
      by (intro that(1) [of ErrMiddlewareInvalid]) (simp only: def option.case if_True if_False simp_thms)
  next
    case (3 o')
    then show ?thesis
      by (intro that(1) [of "MiddlewareCore ErrForbidden"]) (simp only: def option.case if_True if_False simp_thms)
  next
    case (4 o')
    then show ?thesis
      by (intro that(1) [of ErrMiddlewareConflict]) (simp only: def option.case if_True if_False simp_thms)
  next
    case (5 o')
    let ?g = "\<lparr>gr_ID = i, gr_OrganizationID = o', gr_PollInterval = cm_PollInterval ?i,
        gr_APIPolling = cm_APIPolling ?i, gr_IdleHeartbeat = cm_IdleHeartbeat ?i, gr_ConfigVersion = 0,
        gr_AppliedVersion = 0, gr_Snapshot = None, gr_SoftwareVersion = [], gr_LastSeen = 0,
        gr_Name = cm_Name ?i, gr_SiteName = cm_SiteName ?i, gr_KeyPrefix = take 12 (''ygm_'' @ secret),
        gr_KeyHash = sha256 (''ygm_'' @ secret), gr_AutoOnboard = cm_AutoOnboard ?i, gr_IsActive = True,
        gr_CommandTimeout = cm_CommandTimeout ?i\<rparr>"
    show ?thesis
    proof (rule that(2) [of ?g])
      show "gateway_settings_ok ?g"
        using clean_middleware_ok [OF 5(2)] 5(2) by (simp add: gateway_settings_ok_def middleware_input_valid_def)
      show "gateway_key ?g \<notin> gateway_key ` set (pd_Gateways db)" using 5(4) by (auto simp: gateway_key_def list_ex_iff)
    qed (use 5 in \<open>simp_all only: def option.case if_True if_False simp_thms fst_conv GatewayRow.select_convs\<close>)
  qed
qed

lemma UpdateMiddleware_cases:
  obtains err where "UpdateMiddleware env i input db = (db, Inl err)"
  | f g where "fst (UpdateMiddleware env i input db)
      = db\<lparr>pd_Gateways := update_where (\<lambda>g. gr_ID g = i) f (pd_Gateways db),
           pd_Registry := audit (gr_OrganizationID g) ''middleware_client.updated'' ''middleware_client'' i (pd_Registry db)\<rparr>"
    and "gateway_row db i = Some g"
    and "\<And>x. gr_ID (f x) = gr_ID x \<and> gr_OrganizationID (f x) = gr_OrganizationID x
      \<and> gr_ConfigVersion (f x) = gr_ConfigVersion x \<and> gr_AppliedVersion (f x) = gr_AppliedVersion x"
    and "\<And>x. gateway_settings_ok (f x)"
    and "\<And>x y. y \<in> set (pd_Gateways db) \<Longrightarrow> gr_ID y \<noteq> i \<Longrightarrow> gr_OrganizationID x = gr_OrganizationID g \<Longrightarrow>
      gateway_key y \<noteq> gateway_key (f x)"
proof -
  let ?i = "clean_middleware_input input"
  let ?f = "\<lambda>g. g\<lparr>gr_Name := cm_Name ?i, gr_SiteName := cm_SiteName ?i, gr_IsActive := cm_IsActive ?i,
      gr_AutoOnboard := cm_AutoOnboard ?i, gr_PollInterval := cm_PollInterval ?i, gr_APIPolling := cm_APIPolling ?i,
      gr_IdleHeartbeat := cm_IdleHeartbeat ?i, gr_CommandTimeout := cm_CommandTimeout ?i\<rparr>"
  note def = UpdateMiddleware_def Let_def
  consider "\<not> middleware_input_valid ?i" | "middleware_input_valid ?i" "gateway_row db i = None"
    | g where "middleware_input_valid ?i" "gateway_row db i = Some g" "\<not> ce_perm env ''update'' ''middleware_client'' (gr_OrganizationID g) None"
    | g where "middleware_input_valid ?i" "gateway_row db i = Some g" "ce_perm env ''update'' ''middleware_client'' (gr_OrganizationID g) None"
        "list_ex (\<lambda>x. gr_OrganizationID x = gr_OrganizationID g \<and> gr_Name x = cm_Name ?i \<and> gr_ID x \<noteq> i) (pd_Gateways db)"
    | g where "middleware_input_valid ?i" "gateway_row db i = Some g" "ce_perm env ''update'' ''middleware_client'' (gr_OrganizationID g) None"
        "\<not> list_ex (\<lambda>x. gr_OrganizationID x = gr_OrganizationID g \<and> gr_Name x = cm_Name ?i \<and> gr_ID x \<noteq> i) (pd_Gateways db)"
    by blast
  then show thesis
  proof cases
    case 1
    then show ?thesis by (intro that(1) [of ErrMiddlewareInvalid]) (simp only: def if_True simp_thms)
  next
    case 2
    then show ?thesis by (intro that(1) [of ErrMiddlewareNotFound]) (simp only: def option.case if_False simp_thms)
  next
    case (3 g)
    then show ?thesis
      by (intro that(1) [of "MiddlewareCore ErrForbidden"]) (simp only: def option.case if_True if_False simp_thms)
  next
    case (4 g)
    then show ?thesis
      by (intro that(1) [of ErrMiddlewareConflict]) (simp only: def option.case if_True if_False simp_thms)
  next
    case (5 g)
    show ?thesis
    proof (rule that(2) [where f = ?f and g = g])
      show "gr_ID (?f x) = gr_ID x \<and> gr_OrganizationID (?f x) = gr_OrganizationID x
          \<and> gr_ConfigVersion (?f x) = gr_ConfigVersion x \<and> gr_AppliedVersion (?f x) = gr_AppliedVersion x" for x by simp
      show "gateway_settings_ok (?f x)" for x
        using clean_middleware_ok [OF 5(1)] 5(1) by (simp add: gateway_settings_ok_def middleware_input_valid_def)
      show "gateway_key y \<noteq> gateway_key (?f x)"
        if "y \<in> set (pd_Gateways db)" "gr_ID y \<noteq> i" "gr_OrganizationID x = gr_OrganizationID g" for x y
        using 5(4) that by (auto simp: gateway_key_def list_ex_iff)
    qed (use 5 in \<open>simp_all only: def option.case if_True if_False simp_thms fst_conv GatewayRow.simps\<close>)
  qed
qed

lemma versions_update:
  assumes "versions_ok db"
    and f: "\<And>x. gr_ID (f x) = gr_ID x \<and> gr_ConfigVersion x \<le> gr_ConfigVersion (f x)"
    and a: "\<And>x. x \<in> set (pd_Gateways db) \<Longrightarrow> P x \<Longrightarrow> 0 \<le> gr_AppliedVersion (f x)"
  shows "versions_ok (db\<lparr>pd_Gateways := update_where P f (pd_Gateways db), pd_Registry := r\<rparr>)"
proof -
  have "map gr_ID (update_where P f (pd_Gateways db)) = map gr_ID (pd_Gateways db)"
    by (rule update_where_map) (simp add: f)
  moreover have "0 \<le> gr_AppliedVersion g \<and> 0 \<le> gr_ConfigVersion g
      \<and> (\<forall>h \<in> set (pd_History db). gr_ID g = hi_ClientID h \<longrightarrow> hi_Version h \<le> gr_ConfigVersion g)"
    if "g \<in> set (update_where P f (pd_Gateways db))" for g
  proof -
    from that consider "g \<in> set (pd_Gateways db)" | x where "x \<in> set (pd_Gateways db)" "P x" "g = f x"
      by (auto simp: set_update_where)
    then show ?thesis
    proof cases
      case 1
      with assms(1) show ?thesis by (auto simp: versions_ok_def)
    next
      case 2
      have "0 \<le> gr_ConfigVersion x" using assms(1) 2(1) by (simp add: versions_ok_def)
      moreover have "\<forall>h \<in> set (pd_History db). gr_ID x = hi_ClientID h \<longrightarrow> hi_Version h \<le> gr_ConfigVersion x"
        using assms(1) 2(1) by (auto simp: versions_ok_def)
      ultimately show ?thesis using f [of x] a [OF 2(1,2)] 2(3) by force
    qed
  qed
  ultimately show ?thesis using assms(1) by (simp add: versions_ok_def)
qed

lemma versions_add_gateway:
  assumes "versions_ok db" and "gr_ID g \<notin> gr_ID ` set (pd_Gateways db) \<union> hi_ClientID ` set (pd_History db)"
    and "gr_ConfigVersion g = 0" and "gr_AppliedVersion g = 0"
  shows "versions_ok (db\<lparr>pd_Gateways := pd_Gateways db @ [g], pd_Registry := r\<rparr>)"
  using assms by (auto simp: versions_ok_def)

text \<open>The history rows of a push: one more, with the gateway's new version, and its status.\<close>

lemma versions_history_status:
  assumes "versions_ok db" and "\<And>h. hi_ClientID (f h) = hi_ClientID h \<and> hi_Version (f h) = hi_Version h"
  shows "versions_ok (db\<lparr>pd_History := update_where P f (pd_History db)\<rparr>)"
proof -
  have "map (\<lambda>h. (hi_ClientID h, hi_Version h)) (update_where P f (pd_History db))
      = map (\<lambda>h. (hi_ClientID h, hi_Version h)) (pd_History db)"
    by (rule update_where_map) (simp add: assms(2))
  with assms show ?thesis by (auto simp: versions_ok_def set_update_where)
qed

lemma versions_push:
  assumes v: "versions_ok db" and g: "g \<in> set (pd_Gateways db)" "gr_ID g = i"
    and f: "\<And>x. gr_ID (f x) = gr_ID x \<and> gr_ConfigVersion (f x) = gr_ConfigVersion x + 1 \<and> gr_AppliedVersion (f x) = gr_AppliedVersion x"
    and h: "hi_ClientID h = i" "hi_Version h = gr_ConfigVersion g + 1"
  shows "versions_ok (db\<lparr>pd_Gateways := update_where (\<lambda>r. gr_ID r = i) f (pd_Gateways db), pd_History := pd_History db @ [h]\<rparr>)"
proof -
  have one: "x = g" if "x \<in> set (pd_Gateways db)" "gr_ID x = i" for x
    using v g that by (auto simp: versions_ok_def distinct_map inj_on_def)
  let ?gs = "update_where (\<lambda>r. gr_ID r = i) f (pd_Gateways db)"
  have u: "versions_ok (db\<lparr>pd_Gateways := ?gs, pd_Registry := pd_Registry db\<rparr>)"
    using v f by (intro versions_update) (auto simp: versions_ok_def)
  have old: "\<forall>k \<in> set (pd_History db). hi_ClientID k = i \<longrightarrow> hi_Version k \<le> gr_ConfigVersion g"
    using v g by (auto simp: versions_ok_def)
  have "0 \<le> gr_ConfigVersion g" using v g by (simp add: versions_ok_def)
  moreover have "\<forall>x \<in> set ?gs. gr_ID x = i \<longrightarrow> hi_Version h \<le> gr_ConfigVersion x"
    using one f h by (auto simp: set_update_where)
  moreover have "(hi_ClientID h, hi_Version h) \<notin> (\<lambda>h. (hi_ClientID h, hi_Version h)) ` set (pd_History db)"
    using old h by fastforce
  ultimately show ?thesis
    using u h by (simp add: versions_ok_def)
qed

lemma gateways_update:
  assumes "gateways_ok db"
    and f: "\<And>x. gr_ID (f x) = gr_ID x \<and> gateway_key (f x) = gateway_key x \<and> gr_ConfigVersion x \<le> gr_ConfigVersion (f x)
      \<and> gateway_settings_ok (f x) = gateway_settings_ok x"
    and a: "\<And>x. x \<in> set (pd_Gateways db) \<Longrightarrow> P x \<Longrightarrow> 0 \<le> gr_AppliedVersion (f x)"
  shows "gateways_ok (db\<lparr>pd_Gateways := update_where P f (pd_Gateways db)\<rparr>)"
    and "gateway_ids (update_where P f (pd_Gateways db)) = gateway_ids (pd_Gateways db)"
proof -
  have "versions_ok (db\<lparr>pd_Gateways := update_where P f (pd_Gateways db), pd_Registry := pd_Registry db\<rparr>)"
    by (rule versions_update) (use assms in \<open>auto simp: gateways_ok_def\<close>)
  moreover have "map gateway_key (update_where P f (pd_Gateways db)) = map gateway_key (pd_Gateways db)"
    by (rule update_where_map) (simp add: f)
  ultimately show "gateways_ok (db\<lparr>pd_Gateways := update_where P f (pd_Gateways db)\<rparr>)"
    using assms(1) f by (auto simp: gateways_ok_def list_all_iff set_update_where)
  have "map (\<lambda>g. (gr_OrganizationID g, gr_ID g)) (update_where P f (pd_Gateways db))
      = map (\<lambda>g. (gr_OrganizationID g, gr_ID g)) (pd_Gateways db)"
    by (rule update_where_map) (use f in \<open>simp add: gateway_key_def\<close>)
  from arg_cong [OF this, of set] show "gateway_ids (update_where P f (pd_Gateways db)) = gateway_ids (pd_Gateways db)"
    by (simp add: gateway_ids_def)
qed

lemma gateways_history_status:
  assumes "gateways_ok db" and "\<And>h. hi_ClientID (f h) = hi_ClientID h \<and> hi_Version (f h) = hi_Version h"
  shows "gateways_ok (db\<lparr>pd_History := update_where P f (pd_History db)\<rparr>)"
  using assms versions_history_status by (simp add: gateways_ok_def)

text \<open>A message of a gateway.\<close>

lemma gateway_message_ok:
  assumes "gateways_ok db"
  shows "gateways_ok (gateway_message now i m db)"
    and "gateway_ids (pd_Gateways (gateway_message now i m db)) = gateway_ids (pd_Gateways db)"
    and "pd_Registry (gateway_message now i m db) = pd_Registry db"
proof -
  have v: "0 \<le> gr_AppliedVersion x" if "x \<in> set (pd_Gateways db)" for x
    using assms that by (simp add: gateways_ok_def versions_ok_def)
  have seen: "gateways_ok (d\<lparr>pd_Gateways := update_where P f (pd_Gateways d)\<rparr>)
      \<and> gateway_ids (update_where P f (pd_Gateways d)) = gateway_ids (pd_Gateways d)"
    if "gateways_ok d" "pd_Gateways d = pd_Gateways db"
      "\<And>x. gr_ID (f x) = gr_ID x \<and> gateway_key (f x) = gateway_key x \<and> gr_ConfigVersion (f x) = gr_ConfigVersion x
        \<and> gateway_settings_ok (f x) = gateway_settings_ok x"
      "\<And>x. x \<in> set (pd_Gateways db) \<Longrightarrow> P x \<Longrightarrow> 0 \<le> gr_AppliedVersion (f x)" for d P f
    using gateways_update [of d f P] that by simp
  let ?h = "db\<lparr>pd_History := update_where (\<lambda>h. hi_ClientID h = i \<and> hi_Version h = gv_Version m)
      (\<lambda>h. h\<lparr>hi_Status := gv_Status m, hi_Reason := gv_Reason m, hi_AckedAt := Some now\<rparr>) (pd_History db)\<rparr>"
  have h: "gateways_ok ?h" by (rule gateways_history_status [OF assms]) simp
  have "gateways_ok (gateway_message now i m db)
      \<and> gateway_ids (pd_Gateways (gateway_message now i m db)) = gateway_ids (pd_Gateways db)"
  proof -
    have 1: "gateways_ok (fst (HandleGatewayHello now i a sv db))
        \<and> gateway_ids (pd_Gateways (fst (HandleGatewayHello now i a sv db))) = gateway_ids (pd_Gateways db)" for a sv
      using seen [OF assms, of "\<lambda>r. r\<lparr>gr_LastSeen := now, gr_SoftwareVersion := if trim_space sv = [] then gr_SoftwareVersion r
          else trim_space sv\<rparr>" "\<lambda>r. gr_ID r = i"] v
      by (simp add: HandleGatewayHello_def Let_def gateway_key_def gateway_settings_ok_def)
    have 2: "gateways_ok (?h\<lparr>pd_Gateways := update_where (\<lambda>r. gr_ID r = i \<and> gr_AppliedVersion r < gv_Version m)
          (\<lambda>r. r\<lparr>gr_AppliedVersion := gv_Version m, gr_LastSeen := now\<rparr>) (pd_Gateways ?h)\<rparr>)
        \<and> gateway_ids (update_where (\<lambda>r. gr_ID r = i \<and> gr_AppliedVersion r < gv_Version m)
          (\<lambda>r. r\<lparr>gr_AppliedVersion := gv_Version m, gr_LastSeen := now\<rparr>) (pd_Gateways ?h)) = gateway_ids (pd_Gateways ?h)"
    proof (rule seen [OF h])
      fix x assume "x \<in> set (pd_Gateways db)" "gr_ID x = i \<and> gr_AppliedVersion x < gv_Version m"
      with v [of x] show "0 \<le> gr_AppliedVersion (x\<lparr>gr_AppliedVersion := gv_Version m, gr_LastSeen := now\<rparr>)" by simp
    qed (simp_all add: gateway_key_def gateway_settings_ok_def)
    have 3: "gateways_ok (?h\<lparr>pd_Gateways := update_where (\<lambda>r. gr_ID r = i) (\<lambda>r. r\<lparr>gr_LastSeen := now\<rparr>) (pd_Gateways ?h)\<rparr>)
        \<and> gateway_ids (update_where (\<lambda>r. gr_ID r = i) (\<lambda>r. r\<lparr>gr_LastSeen := now\<rparr>) (pd_Gateways ?h)) = gateway_ids (pd_Gateways ?h)"
      by (rule seen [OF h]) (simp_all add: gateway_key_def gateway_settings_ok_def v)
    from 1 2 3 assms show ?thesis
      by (cases "gv_Status m = ''APPLIED''") (simp_all add: gateway_message_def RecordConfigAck_def Let_def)
  qed
  then show "gateways_ok (gateway_message now i m db)"
    and "gateway_ids (pd_Gateways (gateway_message now i m db)) = gateway_ids (pd_Gateways db)" by blast+
  show "pd_Registry (gateway_message now i m db) = pd_Registry db"
    by (simp add: gateway_message_def RecordConfigAck_def HandleGatewayHello_def Let_def)
qed

text \<open>A push.\<close>

lemma recompute_ok:
  assumes "gateways_ok db"
  shows "gateways_ok (fst (doRecomputeAndPushMiddleware sha deliver i db))"
    and "gateway_ids (pd_Gateways (fst (doRecomputeAndPushMiddleware sha deliver i db))) = gateway_ids (pd_Gateways db)"
    and "pd_Registry (fst (doRecomputeAndPushMiddleware sha deliver i db)) = pd_Registry db"
proof -
  let ?r = "fst (doRecomputeAndPushMiddleware sha deliver i db)"
  have "gateways_ok ?r \<and> gateway_ids (pd_Gateways ?r) = gateway_ids (pd_Gateways db) \<and> pd_Registry ?r = pd_Registry db"
  proof (cases "gateway_row db i")
    case None
    with assms show ?thesis by (simp add: doRecomputeAndPushMiddleware_def)
  next
    case (Some g)
    then have g: "g \<in> set (pd_Gateways db)" "gr_ID g = i" by (auto simp: gateway_row_def find_Some_iff)
    show ?thesis
    proof (cases "buildConfigSnapshot sha (pd_Registry db) g")
      case (Inl err)
      with assms Some show ?thesis by (simp add: doRecomputeAndPushMiddleware_def)
    next
      case (Inr s)
      let ?f = "\<lambda>r. r\<lparr>gr_ConfigVersion := gr_ConfigVersion r + 1, gr_Snapshot := Some s\<rparr>"
      let ?h = "\<lparr>hi_ClientID = i, hi_Version = gr_ConfigVersion g + 1, hi_Snapshot = s\<lparr>mg_Version := gr_ConfigVersion g + 1\<rparr>,
          hi_Status = ''PENDING'', hi_Reason = [], hi_AckedAt = None\<rparr>"
      let ?d = "db\<lparr>pd_Gateways := update_where (\<lambda>r. gr_ID r = i) ?f (pd_Gateways db), pd_History := pd_History db @ [?h]\<rparr>"
      have "versions_ok ?d"
        using assms g by (intro versions_push) (simp_all add: gateways_ok_def)
      moreover have "gateways_ok (db\<lparr>pd_Gateways := update_where (\<lambda>r. gr_ID r = i) ?f (pd_Gateways db)\<rparr>)"
        and ids: "gateway_ids (update_where (\<lambda>r. gr_ID r = i) ?f (pd_Gateways db)) = gateway_ids (pd_Gateways db)"
        using assms
        by (intro gateways_update; simp add: gateway_key_def gateway_settings_ok_def gateways_ok_def versions_ok_def)+
      ultimately have d: "gateways_ok ?d" by (simp add: gateways_ok_def)
      have "gateways_ok (?d\<lparr>pd_History := update_where (\<lambda>h. hi_ClientID h = i \<and> hi_Version h = gr_ConfigVersion g + 1)
          (\<lambda>h. h\<lparr>hi_Status := ''SENT''\<rparr>) (pd_History ?d)\<rparr>)"
        by (rule gateways_history_status [OF d]) simp
      with d ids show ?thesis
        by (simp add: doRecomputeAndPushMiddleware_def Some Inr Let_def)
    qed
  qed
  then show "gateways_ok ?r" and "gateway_ids (pd_Gateways ?r) = gateway_ids (pd_Gateways db)"
    and "pd_Registry ?r = pd_Registry db" by blast+
qed

subsection \<open>Assignments\<close>

interpretation assignments: upsert_table "snd :: string \<times> string \<Rightarrow> string" "\<lambda>a _. a"
  by unfold_locales simp

lemma upsert_assignment_by: "upsert_assignment a rows = upsert_by snd (\<lambda>a _. a) a rows"
  by (simp add: upsert_assignment_def upsert_by_def)

lemma upsert_assignment_ok:
  assumes "assignments_ok gs reg" and "(org, g) \<in> gateway_ids gs" and "(org, p) \<in> plant_ids reg"
  shows "assignments_ok gs (reg\<lparr>rg_Assigned := upsert_assignment (g, p) (rg_Assigned reg)\<rparr>)"
proof -
  have "distinct (map snd (upsert_assignment (g, p) (rg_Assigned reg)))"
    using assms(1) unfolding upsert_assignment_by by (intro assignments.distinct_upsert) (simp add: assignments_ok_def)
  moreover have "\<exists>org. (org, x) \<in> gateway_ids gs \<and> (org, y) \<in> plant_ids reg"
    if "(x, y) \<in> set (upsert_assignment (g, p) (rg_Assigned reg))" for x y
    using that unfolding upsert_assignment_by
    by (rule assignments.set_upsert) (use assms in \<open>auto simp: assignments_ok_def\<close>)
  ultimately show ?thesis by (auto simp: assignments_ok_def plant_ids_def)
qed

lemma filter_assignments_ok:
  assumes "assignments_ok gs reg" and "\<And>g p. P (g, p) \<Longrightarrow> (g, p) \<in> set (rg_Assigned reg) \<Longrightarrow>
      \<exists>org. (org, g) \<in> gateway_ids gs' \<and> (org, p) \<in> plant_ids reg'"
    and "rg_Assigned reg' = filter P (rg_Assigned reg)"
  shows "assignments_ok gs' reg'"
  using assms by (auto simp: assignments_ok_def distinct_map_filter)

lemma plant_ids_audit [simp]: "plant_ids (audit org a t i reg) = plant_ids reg"
  by (simp add: plant_ids_def audit_def)

lemma assigned_audit [simp]: "rg_Assigned (audit org a t i reg) = rg_Assigned reg"
  by (simp add: audit_def)

lemma assignments_audit [simp]: "assignments_ok gs (audit org a t i reg) = assignments_ok gs reg"
  by (simp add: assignments_ok_def)

definition push_ok :: "PushDb \<Rightarrow> bool" where
  "push_ok db \<longleftrightarrow> registry_ok (pd_Registry db) \<and> gateways_ok db \<and> assignments_ok (pd_Gateways db) (pd_Registry db)"

lemma platform_ok_push: "platform_ok db = push_ok (pl_Push db)"
  by (simp add: platform_ok_def push_ok_def)

lemma push_ok_registry:
  assumes "push_ok db" and "registry_ok reg" and "plants_kept (pd_Registry db) reg"
  shows "push_ok (db\<lparr>pd_Registry := reg\<rparr>)"
  using assms assignments_mono [of "pd_Gateways db" "pd_Registry db" reg "pd_Gateways db"]
  by (simp add: push_ok_def plants_kept_def gateways_ok_def versions_ok_def)

lemma plants_kept_audit: "plants_kept reg (audit org a t i reg)"
  by (simp add: plants_kept_def)

lemma push_ok_audit: "push_ok db \<Longrightarrow> push_ok (db\<lparr>pd_Registry := audit org a t i (pd_Registry db)\<rparr>)"
  using push_ok_registry [of db] plants_kept_audit by (simp add: push_ok_def)

lemma find_plant_info_Some: "find_plant_info i reg = Some p \<Longrightarrow> p \<in> set (rg_Plants reg) \<and> pn_ID p = i"
  by (auto simp: find_plant_info_def find_Some_iff)

lemma AssignMiddlewarePlant_ok:
  assumes "push_ok db" shows "push_ok (fst (AssignMiddlewarePlant env i p db))"
proof -
  have "push_ok (db\<lparr>pd_Registry := audit org a t k ((pd_Registry db)\<lparr>rg_Assigned := upsert_assignment (i, p) (rg_Assigned (pd_Registry db))\<rparr>)\<rparr>)"
    if "gateway_row db i = Some g" "find_plant_info p (pd_Registry db) = Some q" "pn_OrganizationID q = gr_OrganizationID g"
    for g q org a t k
  proof -
    have "(gr_OrganizationID g, i) \<in> gateway_ids (pd_Gateways db)"
      using that(1) by (auto simp: gateway_row_def find_Some_iff gateway_ids_def)
    moreover have "(gr_OrganizationID g, p) \<in> plant_ids (pd_Registry db)"
      using that(3) find_plant_info_Some [OF that(2)] unfolding plant_ids_def by (intro image_eqI [of _ _ q]) simp_all
    ultimately show ?thesis
      using assms by (simp add: push_ok_def upsert_assignment_ok assigned_registry_ok gateways_ok_def versions_ok_def)
  qed
  then show ?thesis
    using assms by (simp add: AssignMiddlewarePlant_def Let_def split: option.split)
qed

lemma UnassignMiddlewarePlant_ok:
  assumes "push_ok db" shows "push_ok (fst (UnassignMiddlewarePlant env i p db))"
proof -
  have "push_ok (db\<lparr>pd_Registry := audit org a t k ((pd_Registry db)\<lparr>rg_Assigned := filter P (rg_Assigned (pd_Registry db))\<rparr>)\<rparr>)"
    for org a t k P
  proof -
    have "assignments_ok (pd_Gateways db) ((pd_Registry db)\<lparr>rg_Assigned := filter P (rg_Assigned (pd_Registry db))\<rparr>)"
    proof (rule filter_assignments_ok [of "pd_Gateways db" "pd_Registry db" P])
      show "assignments_ok (pd_Gateways db) (pd_Registry db)" using assms by (simp add: push_ok_def)
      then show "\<exists>org. (org, g) \<in> gateway_ids (pd_Gateways db)
          \<and> (org, q) \<in> plant_ids ((pd_Registry db)\<lparr>rg_Assigned := filter P (rg_Assigned (pd_Registry db))\<rparr>)"
        if "(g, q) \<in> set (rg_Assigned (pd_Registry db))" for g q
        using that by (simp add: assignments_ok_def plant_ids_def split_def) force
    qed simp
    with assms show ?thesis by (simp add: push_ok_def assigned_registry_ok gateways_ok_def versions_ok_def)
  qed
  then show ?thesis
    using assms by (simp add: UnassignMiddlewarePlant_def Let_def split: option.split)
qed

lemma CreateMiddleware_ok:
  assumes "push_ok db" and "i \<notin> gr_ID ` set (pd_Gateways db) \<union> hi_ClientID ` set (pd_History db)"
  shows "push_ok (fst (CreateMiddleware env sha256 secret i org input db))"
proof (cases rule: CreateMiddleware_cases [of env sha256 secret i org input db])
  case (2 g)
  let ?reg = "audit (gr_OrganizationID g) ''middleware_client.created'' ''middleware_client'' i (pd_Registry db)"
  have "versions_ok (db\<lparr>pd_Gateways := pd_Gateways db @ [g], pd_Registry := ?reg\<rparr>)"
    using assms 2 by (intro versions_add_gateway) (auto simp: push_ok_def gateways_ok_def)
  moreover have "assignments_ok (pd_Gateways db @ [g]) ?reg"
    by (rule assignments_mono [of "pd_Gateways db" "pd_Registry db"])
      (use assms(1) in \<open>auto simp: push_ok_def gateway_ids_def\<close>)
  ultimately show ?thesis
    using assms(1) 2 by (simp add: push_ok_def gateways_ok_def)
qed (use assms in simp)

lemma UpdateMiddleware_ok:
  assumes "push_ok db" shows "push_ok (fst (UpdateMiddleware env i input db))"
proof (cases rule: UpdateMiddleware_cases [of env i input db])
  case (2 f g)
  let ?gs = "update_where (\<lambda>g. gr_ID g = i) f (pd_Gateways db)"
  let ?reg = "audit (gr_OrganizationID g) ''middleware_client.updated'' ''middleware_client'' i (pd_Registry db)"
  have g: "g \<in> set (pd_Gateways db)" "gr_ID g = i" using 2(2) by (auto simp: gateway_row_def find_Some_iff)
  have ids: "distinct (map gr_ID (pd_Gateways db))" using assms by (simp add: push_ok_def gateways_ok_def versions_ok_def)
  have one: "x = g" if "x \<in> set (pd_Gateways db)" "gr_ID x = i" for x
    using that g ids by (auto simp: distinct_map inj_on_def)
  have "versions_ok (db\<lparr>pd_Gateways := ?gs, pd_Registry := ?reg\<rparr>)"
    using assms 2(3) by (intro versions_update) (auto simp: push_ok_def gateways_ok_def versions_ok_def)
  moreover have "distinct (map gateway_key ?gs)"
  proof (rule distinct_update_key [OF ids])
    show "distinct (map gateway_key (pd_Gateways db))" using assms by (simp add: push_ok_def gateways_ok_def)
    show "\<forall>y \<in> set (pd_Gateways db). gr_ID y \<noteq> i \<longrightarrow> gateway_key y \<noteq> gateway_key (f x)"
      if "x \<in> set (pd_Gateways db)" "gr_ID x = i" for x
      using 2(5) one [OF that] by blast
  qed
  moreover have "list_all gateway_settings_ok ?gs"
    using assms 2(4) by (auto simp: push_ok_def gateways_ok_def list_all_iff set_update_where)
  moreover have "map (\<lambda>g. (gr_OrganizationID g, gr_ID g)) ?gs = map (\<lambda>g. (gr_OrganizationID g, gr_ID g)) (pd_Gateways db)"
    by (rule update_where_map) (simp add: 2(3))
  from arg_cong [OF this, of set] have "gateway_ids ?gs = gateway_ids (pd_Gateways db)" by (simp add: gateway_ids_def)
  then have "assignments_ok ?gs ?reg"
    using assms by (simp add: push_ok_def assignments_ok_def)
  ultimately show ?thesis using assms by (simp add: 2(1) push_ok_def gateways_ok_def)
qed (use assms in simp)

lemma PushMiddlewareConfig_ok:
  assumes "push_ok db" shows "push_ok (fst (PushMiddlewareConfig env sha deliver i db))"
proof -
  obtain db' msg r where p: "doRecomputeAndPushMiddleware sha deliver i db = (db', msg, r)" by (rule prod_cases3)
  have "gateways_ok db'" "gateway_ids (pd_Gateways db') = gateway_ids (pd_Gateways db)" "pd_Registry db' = pd_Registry db"
    using recompute_ok [of db sha deliver i] assms p by (simp_all add: push_ok_def)
  with assms have d: "push_ok db'" by (simp add: push_ok_def assignments_ok_def)
  show ?thesis
  proof (cases r)
    case Inl
    with assms d p show ?thesis by (simp add: PushMiddlewareConfig_def split: option.split)
  next
    case Inr
    with assms d push_ok_audit [OF d] p show ?thesis by (simp add: PushMiddlewareConfig_def split: option.split)
  qed
qed

lemma ImportMiddlewareConfig_ok:
  assumes "push_ok db" and "fresh_ids env"
  shows "push_ok (fst (ImportMiddlewareConfig env call decode i db))"
proof -
  have r: "push_ok (db\<lparr>pd_Registry := reg\<rparr>)"
    if "importFromSnapshot env org gw s (pd_Registry db) = (reg, res, e)" for org gw s reg res e
  proof (rule push_ok_registry [OF assms(1)])
    have "registry_step (pd_Registry db) reg"
      using registry_step.import_config [OF assms(2), of "pd_Registry db" org gw s] that by simp
    with assms(1) show "registry_ok reg" "plants_kept (pd_Registry db) reg"
      by (auto simp: push_ok_def intro: registry_step_ok registry_step_plants)
  qed
  show ?thesis
    using assms(1) r by (auto simp: ImportMiddlewareConfig_def split: option.split sum.split prod.split)
qed

text \<open>The deletions keep the assignments of what is left.\<close>

lemma prepared_push_ok: "prepared db db1 \<Longrightarrow> push_ok (pl_Push db) \<Longrightarrow> push_ok (pl_Push db1)"
  by (auto simp: prepared_def intro: push_ok_audit)

lemma delete_devices_push:
  assumes "delete_devices P db = Some db'" and "push_ok (pl_Push db)" shows "push_ok (pl_Push db')"
proof -
  have e: "pl_Push db' = (pl_Push db)\<lparr>pd_Registry := (pl_Registry db)\<lparr>rg_Devices := filter (\<lambda>d. \<not> P d) (rg_Devices (pl_Registry db))\<rparr>\<rparr>"
    using assms(1) by (auto simp: delete_devices_def with_registry_def Let_def split: if_splits)
  show ?thesis
    unfolding e
  proof (rule push_ok_registry [OF assms(2)])
    show "registry_ok ((pl_Registry db)\<lparr>rg_Devices := filter (\<lambda>d. \<not> P d) (rg_Devices (pl_Registry db))\<rparr>)"
      using delete_devices_ok [OF _ assms(1)] assms(2) by (simp add: e push_ok_def)
  qed (simp add: plants_kept_same)
qed

lemma delete_model_push:
  assumes "delete_model i db = Some db'" and "push_ok (pl_Push db)" shows "push_ok (pl_Push db')"
proof -
  obtain reg where e: "pl_Push db' = (pl_Push db)\<lparr>pd_Registry := reg\<rparr>" "rg_Assigned reg = rg_Assigned (pl_Registry db)"
    "rg_Plants reg = rg_Plants (pl_Registry db)"
    using assms(1) by (auto simp: delete_model_def with_registry_def split: if_splits)
  show ?thesis
    unfolding e(1)
  proof (rule push_ok_registry [OF assms(2)])
    show "registry_ok reg" using delete_model_ok [OF _ assms(1)] assms(2) by (simp add: e push_ok_def)
  qed (simp add: plants_kept_same e)
qed

lemma delete_plant_push:
  assumes "delete_plant i db = Some db'" and "push_ok (pl_Push db)" shows "push_ok (pl_Push db')"
proof -
  let ?r = "pl_Registry db"
  let ?r' = "?r\<lparr>rg_Plants := filter (\<lambda>p. pn_ID p \<noteq> i) (rg_Plants ?r), rg_Assigned := filter (\<lambda>a. snd a \<noteq> i) (rg_Assigned ?r)\<rparr>"
  have e: "pl_Push db' = (pl_Push db)\<lparr>pd_Registry := ?r'\<rparr>"
    using assms(1) by (auto simp: delete_plant_def with_registry_def split: if_splits)
  have "registry_ok ?r'" using delete_plant_ok [OF _ assms(1)] assms(2) by (simp add: e push_ok_def)
  moreover have "assignments_ok (pd_Gateways (pl_Push db)) ?r'"
  proof (rule filter_assignments_ok)
    show a: "assignments_ok (pd_Gateways (pl_Push db)) ?r" using assms(2) by (simp add: push_ok_def)
    fix g p assume "snd (g, p) \<noteq> i" "(g, p) \<in> set (rg_Assigned ?r)"
    moreover from a this(2) obtain org where "(org, g) \<in> gateway_ids (pd_Gateways (pl_Push db))" "(org, p) \<in> plant_ids ?r"
      by (auto simp: assignments_ok_def)
    ultimately show "\<exists>org. (org, g) \<in> gateway_ids (pd_Gateways (pl_Push db)) \<and> (org, p) \<in> plant_ids ?r'"
      by (auto simp: plant_ids_def)
  qed simp
  moreover have "gateways_ok ((pl_Push db)\<lparr>pd_Registry := ?r'\<rparr>)"
    using assms(2) by (simp add: push_ok_def gateways_ok_def versions_ok_def)
  ultimately show ?thesis by (simp add: e push_ok_def)
qed

lemma delete_client_push:
  assumes "delete_client i db = Some db'" and "push_ok (pl_Push db)" shows "push_ok (pl_Push db')"
proof -
  let ?p = "pl_Push db"
  let ?r = "pd_Registry ?p"
  let ?gs = "filter (\<lambda>g. gr_ID g \<noteq> i) (pd_Gateways ?p)"
  have e: "pl_Push db' = ?p\<lparr>pd_Gateways := ?gs, pd_History := filter (\<lambda>h. hi_ClientID h \<noteq> i) (pd_History ?p),
      pd_Registry := ?r\<lparr>rg_Assigned := filter (\<lambda>a. fst a \<noteq> i) (rg_Assigned ?r)\<rparr>\<rparr>"
    using assms(1) by (auto simp: delete_client_def Let_def split: if_splits)
  have "assignments_ok ?gs (?r\<lparr>rg_Assigned := filter (\<lambda>a. fst a \<noteq> i) (rg_Assigned ?r)\<rparr>)"
  proof (rule filter_assignments_ok)
    show a: "assignments_ok (pd_Gateways ?p) ?r" using assms(2) by (simp add: push_ok_def)
    fix g p assume "fst (g, p) \<noteq> i" "(g, p) \<in> set (rg_Assigned ?r)"
    moreover from a this(2) obtain org where "(org, g) \<in> gateway_ids (pd_Gateways ?p)" "(org, p) \<in> plant_ids ?r"
      by (auto simp: assignments_ok_def)
    ultimately show "\<exists>org. (org, g) \<in> gateway_ids ?gs
        \<and> (org, p) \<in> plant_ids (?r\<lparr>rg_Assigned := filter (\<lambda>a. fst a \<noteq> i) (rg_Assigned ?r)\<rparr>)"
      by (auto simp: plant_ids_def gateway_ids_def)
  qed simp
  moreover have "gateways_ok (pl_Push db')"
    using assms(2) by (auto simp: e push_ok_def gateways_ok_def versions_ok_def distinct_map_filter list_all_iff)
  ultimately show ?thesis using assms(2) by (simp add: e push_ok_def assigned_registry_ok)
qed

lemma CreateEventLogbook_push:
  assumes "push_ok (pl_Push db)" shows "push_ok (pl_Push (fst (CreateEventLogbook env i p input db)))"
proof -
  have "push_ok (pl_Push (with_registry (audit org a t k) (db\<lparr>pl_Logbook := ls\<rparr>)))" for org a t k ls
    using push_ok_audit [OF assms] by (simp add: with_registry_def)
  then show ?thesis
    using assms by (simp add: CreateEventLogbook_def Let_def split: sum.split)
qed

lemma platform_step_ok:
  assumes "platform_step db db'" and "platform_ok db" shows "platform_ok db'"
  using assms unfolding platform_ok_push
proof (induction rule: platform_step.induct)
  case (registry db reg)
  have "registry_ok (pl_Registry db)" using registry(2) by (simp add: push_ok_def)
  then have "push_ok ((pl_Push db)\<lparr>pd_Registry := reg\<rparr>)"
    using registry by (intro push_ok_registry registry_step_ok [OF registry(1)] registry_step_plants [OF registry(1)]) simp_all
  then show ?case by (simp add: with_registry_def)
next
  case (message db now i m)
  then show ?case
    using gateway_message_ok [of "pl_Push db" now i m] by (simp add: push_ok_def assignments_ok_def)
next
  case (delete_plant db env i conf)
  show ?case
  proof (cases rule: HardDeletePlant_cases [of env i conf db])
    case (2 P db1 db2)
    then show ?thesis using delete_plant prepared_push_ok delete_devices_push delete_plant_push by blast
  qed (use delete_plant in simp)
next
  case (delete_device db env p i conf)
  show ?case
  proof (cases rule: HardDeleteDevice_cases [of env p i conf db])
    case (2 P db1)
    then show ?thesis using delete_device prepared_push_ok delete_devices_push by blast
  qed (use delete_device in simp)
next
  case (delete_model db env i conf)
  show ?case
  proof (cases rule: HardDeleteDeviceModel_cases [of env i conf db])
    case (2 P db1 db2)
    then show ?thesis using delete_model prepared_push_ok delete_devices_push delete_model_push by blast
  qed (use delete_model in simp)
next
  case (delete_gateway db env i conf)
  show ?case
  proof (cases rule: HardDeleteAPIKey_cases [of env i conf db])
    case (2 db1)
    then show ?thesis using delete_gateway prepared_push_ok delete_client_push by blast
  qed (use delete_gateway in simp)
qed (simp_all add: CreateMiddleware_ok UpdateMiddleware_ok AssignMiddlewarePlant_ok UnassignMiddlewarePlant_ok
    PushMiddlewareConfig_ok ImportMiddlewareConfig_ok CreateEventLogbook_push)

subsection \<open>Every reachable state\<close>

lemma empty_platform_ok: "platform_ok empty_platform"
  by (simp add: empty_platform_def platform_ok_def registry_ok_def keys_ok_def rows_ok_def references_ok_def gateways_ok_def
      versions_ok_def assignments_ok_def)

lemma assigned_plants_ids: "p \<in> set (assigned_plants reg i) \<Longrightarrow> (i, pn_ID p) \<in> set (rg_Assigned reg)"
  by (auto simp: assigned_plants_def split: if_splits)

lemma polled_by_one:
  assumes "assignments_ok gs reg" and "d \<in> set (polled_devices reg i)" and "d \<in> set (polled_devices reg j)"
  shows "i = j"
proof -
  obtain p q where "p \<in> set (assigned_plants reg i)" "q \<in> set (assigned_plants reg j)"
    "di_PlantID d = pn_ID p" "di_PlantID d = pn_ID q"
    using assms(2,3) by (auto simp: polled_devices_def pollable_devices_def)
  then have "(i, di_PlantID d) \<in> set (rg_Assigned reg)" "(j, di_PlantID d) \<in> set (rg_Assigned reg)"
    by (metis assigned_plants_ids)+
  moreover have "inj_on snd (set (rg_Assigned reg))" using assms(1) by (simp add: assignments_ok_def distinct_map)
  ultimately show ?thesis
    using inj_onD [of snd "set (rg_Assigned reg)" "(i, di_PlantID d)" "(j, di_PlantID d)"] by simp
qed


definition sample_gateway_input :: CreateMiddlewareInput where
  "sample_gateway_input =
     \<lparr>cm_Name = ''Bangkok'', cm_SiteName = [], cm_AutoOnboard = False, cm_PollInterval = 0, cm_CommandTimeout = 0,
      cm_IdleHeartbeat = 0, cm_APIPolling = True\<rparr>"

lemma sample_gateway_created:
  "length (pd_Gateways (fst (CreateMiddleware sample_core (\<lambda>_. ''hash'') ''0123456789'' ''g'' ''o'' sample_gateway_input
     (pl_Push empty_platform)))) = 1"
  by (simp add: CreateMiddleware_def clean_middleware_input_def middleware_input_valid_def sample_gateway_input_def
      sample_core_def empty_platform_def text_eval Let_def)


end
