(* ===== verification/ScadaDesigns.thy ===== *)
theory ScadaDesigns
  imports Registry
begin

section \<open>platform-api core: validation of a SCADA design\<close>

text \<open>
  \<open>core/scada.go\<close>, the document of a screen and \<open>ValidateScadaDesign\<close>. Nodes lie in groups and sections by
  \<open>ParentID\<close>; the check follows the parents of every node in a loop that ends because it remembers where it was,
  and for that it is a \<open>partial_function\<close>: \<open>None\<close> is a check that does not return. A missing pointer is \<open>None\<close>, a
  missing slice the empty list. \<open>ScadaEnv\<close> holds what the code calls of its libraries.
\<close>

record ScadaPosition =
  sp_X :: f64
  sp_Y :: f64

record ScadaViewport =
  vp_X :: f64
  vp_Y :: f64
  vp_Zoom :: f64

record ScadaTelemetryBinding =
  tb_DeviceID :: string
  tb_PointKey :: string
  tb_Unit :: string
  tb_Decimals :: int

record ScadaDataItem =
  it_Label :: string
  it_Binding :: ScadaTelemetryBinding
  it_MinAlarm :: "f64 option"
  it_MaxAlarm :: "f64 option"

record ScadaNodeData =
  nd_Label :: string
  nd_EquipmentKind :: string
  nd_Binding :: "ScadaTelemetryBinding option"
  nd_DeviceID :: string
  nd_DisplayType :: string
  nd_ShapeKind :: string
  nd_MinValue :: "f64 option"
  nd_MaxValue :: "f64 option"
  nd_OnValue :: "f64 option"
  nd_ImageURL :: string
  nd_Text :: string
  nd_Timezone :: string
  nd_Items :: "ScadaDataItem list"
  nd_BackgroundColor :: string
  nd_BorderColor :: string
  nd_BorderStyle :: string
  nd_BorderEnabled :: "bool option"
  nd_TextColor :: string
  nd_FontSize :: "f64 option"
  nd_FontWeight :: string
  nd_Hidden :: bool
  nd_Locked :: bool

record ScadaNode =
  sn_ID :: string
  sn_Type :: string
  sn_Position :: ScadaPosition
  sn_Data :: ScadaNodeData
  sn_Width :: f64
  sn_Height :: f64
  sn_ParentID :: string
  sn_ZIndex :: int

record ScadaEdge =
  ed_ID :: string
  ed_Source :: string
  ed_Target :: string
  ed_Type :: string

record ScadaDesign =
  ds_Version :: int
  ds_Nodes :: "ScadaNode list"
  ds_Edges :: "ScadaEdge list"
  ds_Viewport :: ScadaViewport

text \<open>
  \<open>se_uuid\<close> is \<open>pgtype.UUID.Scan\<close> of a trimmed text, \<open>se_location\<close> whether \<open>time.LoadLocation\<close> knows a time zone,
  \<open>se_url\<close> the scheme and host of \<open>url.ParseRequestURI\<close>, \<open>se_marshal\<close> the length of \<open>json.Marshal\<close> of a design.
  Of the database: \<open>se_column\<close> is a design as a \<open>jsonb\<close> column gives it back, \<open>None\<close> where it refuses it (a text with a
  NUL character), \<open>se_lower\<close> its \<open>lower\<close> of a name.
\<close>

record ScadaEnv =
  se_uuid :: "string \<Rightarrow> string option"
  se_location :: "string \<Rightarrow> bool"
  se_url :: "string \<Rightarrow> (string \<times> string) option"
  se_marshal :: "ScadaDesign \<Rightarrow> nat option"
  se_column :: "ScadaDesign \<Rightarrow> ScadaDesign option"
  se_lower :: "string \<Rightarrow> string"

definition scada_parseUUID :: "ScadaEnv \<Rightarrow> string \<Rightarrow> string option" where
  "scada_parseUUID env value = se_uuid env (trim_space value)"

subsection \<open>The parts of a node\<close>

definition finiteBetween :: "f64 \<Rightarrow> f64 \<Rightarrow> f64 \<Rightarrow> bool" where
  "finiteBetween value minimum maximum \<longleftrightarrow>
     \<not> is_nan value \<and> is_finite value \<and> (f_less minimum value \<or> f_eq value minimum)
     \<and> (f_less value maximum \<or> f_eq value maximum)"

definition between_int :: "f64 \<Rightarrow> int \<Rightarrow> int \<Rightarrow> bool" where
  "between_int value minimum maximum = finiteBetween value (f_of_int minimum) (f_of_int maximum)"

definition scada_oneOf :: "string \<Rightarrow> string list \<Rightarrow> bool" where
  "scada_oneOf value allowed = list_ex (\<lambda>item. value = item) allowed"

definition validScadaID :: "string \<Rightarrow> bool" where
  "validScadaID value \<longleftrightarrow> trim_space value = value \<and> value \<noteq> [] \<and> length value \<le> 100"

text \<open>\<open>^#[0-9a-fA-F]{6}$\<close>.\<close>

definition hex_char :: "char \<Rightarrow> bool" where
  "hex_char c \<longleftrightarrow> c \<in> set ''0123456789abcdefABCDEF''"

definition scadaHexColorPattern :: "string \<Rightarrow> bool" where
  "scadaHexColorPattern s \<longleftrightarrow> length s = 7 \<and> hd s = CHR ''#'' \<and> list_all hex_char (tl s)"

definition validScadaStyle :: "ScadaNodeData \<Rightarrow> bool" where
  "validScadaStyle data \<longleftrightarrow>
     list_all (\<lambda>color. color \<noteq> [] \<longrightarrow> scadaHexColorPattern color)
       [nd_BackgroundColor data, nd_BorderColor data, nd_TextColor data]
     \<and> (nd_BorderStyle data \<noteq> [] \<longrightarrow> scada_oneOf (nd_BorderStyle data) [''solid'', ''dashed'', ''dotted''])
     \<and> (nd_FontWeight data \<noteq> [] \<longrightarrow> scada_oneOf (nd_FontWeight data) [''normal'', ''bold''])
     \<and> (case nd_FontSize data of None \<Rightarrow> True | Some v \<Rightarrow> between_int v 8 144)"

definition validScadaBinding :: "ScadaEnv \<Rightarrow> ScadaTelemetryBinding \<Rightarrow> bool" where
  "validScadaBinding env b \<longleftrightarrow>
     scada_parseUUID env (tb_DeviceID b) \<noteq> None
     \<and> trim_space (tb_PointKey b) = tb_PointKey b \<and> tb_PointKey b \<noteq> [] \<and> length (tb_PointKey b) \<le> 200
     \<and> trim_space (tb_Unit b) = tb_Unit b \<and> length (tb_Unit b) \<le> 20
     \<and> 0 \<le> tb_Decimals b \<and> tb_Decimals b \<le> 6"

definition validScadaRange :: "f64 option \<Rightarrow> f64 option \<Rightarrow> bool" where
  "validScadaRange minimum maximum \<longleftrightarrow>
     (case minimum of None \<Rightarrow> True | Some v \<Rightarrow> between_int v (- (10 ^ 15)) (10 ^ 15))
     \<and> (case maximum of None \<Rightarrow> True | Some v \<Rightarrow> between_int v (- (10 ^ 15)) (10 ^ 15))
     \<and> (case (minimum, maximum) of (Some a, Some b) \<Rightarrow> f_less a b | _ \<Rightarrow> True)"

definition validScadaImageURL :: "ScadaEnv \<Rightarrow> string \<Rightarrow> bool" where
  "validScadaImageURL env value \<longleftrightarrow>
     (case se_url env value of
        None \<Rightarrow> False
      | Some (scheme, host) \<Rightarrow> take 1 value = ''/'' \<or> (scheme = ''http'' \<or> scheme = ''https'') \<and> host \<noteq> [])"

text \<open>The \<open>switch\<close> on the type of a node.\<close>

definition scada_kind_ok :: "ScadaEnv \<Rightarrow> ScadaNode \<Rightarrow> bool" where
  "scada_kind_ok env n =
     (let data = sn_Data n; kind = sn_Type n in
      if kind = ''equipment'' then scada_oneOf (nd_EquipmentKind data) [''solar-panel'', ''inverter'', ''meter'', ''grid'']
      else if kind = ''metric'' then
        nd_Binding data \<noteq> None \<and> scada_oneOf (nd_DisplayType data) [[], ''text'', ''gauge'', ''progress'', ''tank'']
        \<and> validScadaRange (nd_MinValue data) (nd_MaxValue data)
      else if kind = ''label'' then nd_Binding data = None
      else if kind = ''shape'' then
        scada_oneOf (nd_ShapeKind data) [''rectangle'', ''circle'', ''triangle'', ''diamond'', ''hexagon'']
      else if kind = ''section'' \<or> kind = ''group'' then True
      else if kind = ''led'' then
        nd_Binding data \<noteq> None
        \<and> (case nd_OnValue data of None \<Rightarrow> True | Some v \<Rightarrow> between_int v (- (10 ^ 15)) (10 ^ 15))
      else if kind = ''clock'' then
        nd_Timezone data \<noteq> [] \<and> length (nd_Timezone data) \<le> 100 \<and> se_location env (nd_Timezone data)
      else if kind = ''image'' then
        length (nd_ImageURL data) \<le> 2048 \<and> (nd_ImageURL data \<noteq> [] \<longrightarrow> validScadaImageURL env (nd_ImageURL data))
      else if kind = ''table'' \<or> kind = ''alarms'' then 1 \<le> length (nd_Items data) \<and> length (nd_Items data) \<le> 20
      else if kind = ''device-summary'' then scada_parseUUID env (nd_DeviceID data) \<noteq> None
      else if kind = ''ticker'' then
        trim_space (nd_Text data) = nd_Text data \<and> length (nd_Text data) \<le> 200
        \<and> \<not> (nd_Text data = [] \<and> nd_Binding data = None)
      else False)"

definition scada_item_ok :: "ScadaEnv \<Rightarrow> ScadaDataItem \<Rightarrow> bool" where
  "scada_item_ok env item \<longleftrightarrow>
     trim_space (it_Label item) = it_Label item \<and> it_Label item \<noteq> [] \<and> length (it_Label item) \<le> 100
     \<and> validScadaBinding env (it_Binding item) \<and> validScadaRange (it_MinAlarm item) (it_MaxAlarm item)"

text \<open>What the first loop checks of one node, its id among the earlier ones apart.\<close>

definition scada_node_ok :: "ScadaEnv \<Rightarrow> ScadaNode \<Rightarrow> bool" where
  "scada_node_ok env n \<longleftrightarrow>
     (let data = sn_Data n in
      validScadaID (sn_ID n)
      \<and> between_int (sp_X (sn_Position n)) (- 10000) 10000 \<and> between_int (sp_Y (sn_Position n)) (- 10000) 10000
      \<and> trim_space (nd_Label data) = nd_Label data \<and> nd_Label data \<noteq> [] \<and> length (nd_Label data) \<le> 100
      \<and> (\<not> f_eq (sn_Width n) f_zero \<longrightarrow> between_int (sn_Width n) 40 2000)
      \<and> (\<not> f_eq (sn_Height n) f_zero \<longrightarrow> between_int (sn_Height n) 30 2000)
      \<and> - 10000 \<le> sn_ZIndex n \<and> sn_ZIndex n \<le> 10000 \<and> validScadaStyle data
      \<and> scada_kind_ok env n
      \<and> (case nd_Binding data of None \<Rightarrow> True | Some b \<Rightarrow> validScadaBinding env b)
      \<and> list_all (scada_item_ok env) (nd_Items data))"

subsection \<open>The three loops\<close>

text \<open>The first loop: \<open>seen\<close> is the map \<open>nodes\<close> as far as it is filled.\<close>

fun check_nodes :: "ScadaEnv \<Rightarrow> string set \<Rightarrow> ScadaNode list \<Rightarrow> bool" where
  "check_nodes env seen [] = True"
| "check_nodes env seen (n # ns) =
     (sn_ID n \<notin> seen \<and> scada_node_ok env n \<and> check_nodes env (insert (sn_ID n) seen) ns)"

text \<open>The inner loop over the parents of one node.\<close>

definition is_container :: "ScadaNode \<Rightarrow> bool" where
  "is_container n \<longleftrightarrow> sn_Type n = ''group'' \<or> sn_Type n = ''section''"

partial_function (option) parent_walk :: "ScadaNode list \<Rightarrow> string set \<Rightarrow> string \<Rightarrow> bool option" where
  "parent_walk nodes seenParents parentID =
     (if parentID = [] then Some True
      else if parentID \<in> seenParents then Some False
      else (case find (\<lambda>candidate. sn_ID candidate = parentID) nodes of
              None \<Rightarrow> parent_walk nodes (insert parentID seenParents) []
            | Some candidate \<Rightarrow>
                if \<not> is_container candidate then Some False
                else parent_walk nodes (insert parentID seenParents) (sn_ParentID candidate)))"

fun check_parents :: "ScadaNode list \<Rightarrow> ScadaNode list \<Rightarrow> bool option" where
  "check_parents nodes [] = Some True"
| "check_parents nodes (n # ns) =
     (if sn_ParentID n \<noteq> [] \<and> (sn_ParentID n = sn_ID n \<or> sn_ParentID n \<notin> sn_ID ` set nodes) then Some False
      else (case parent_walk nodes {sn_ID n} (sn_ParentID n) of
              None \<Rightarrow> None
            | Some ok \<Rightarrow> if ok then check_parents nodes ns else Some False))"

definition pair_key :: "ScadaEdge \<Rightarrow> string" where
  "pair_key e = ed_Source e @ [CHR 0x00] @ ed_Target e"

definition edge_ends_ok :: "string set \<Rightarrow> ScadaEdge \<Rightarrow> bool" where
  "edge_ends_ok nodes e \<longleftrightarrow>
     validScadaID (ed_ID e) \<and> ed_Source e \<in> nodes \<and> ed_Target e \<in> nodes \<and> ed_Source e \<noteq> ed_Target e
     \<and> scada_oneOf (ed_Type e) [''default'', ''smoothstep'']"

fun check_edges :: "string set \<Rightarrow> string set \<Rightarrow> string set \<Rightarrow> ScadaEdge list \<Rightarrow> bool" where
  "check_edges nodes edges pairs [] = True"
| "check_edges nodes edges pairs (e # es) =
     (ed_ID e \<notin> edges \<and> pair_key e \<notin> pairs \<and> edge_ends_ok nodes e
      \<and> check_edges nodes (insert (ed_ID e) edges) (insert (pair_key e) pairs) es)"

definition maxScadaNodes :: nat where "maxScadaNodes = 300"
definition maxScadaEdges :: nat where "maxScadaEdges = 500"
definition maxScadaDesign :: nat where "maxScadaDesign = 512 * 1024"

text \<open>The test of the sizes and the viewport; \<open>.1\<close> is the float64 next to it.\<close>

definition zoom_min :: f64 where "zoom_min = F_Fin False (3602879701896397 / 2 ^ 55)"

definition scada_frame_ok :: "ScadaDesign \<Rightarrow> bool" where
  "scada_frame_ok design \<longleftrightarrow>
     ds_Version design = 1 \<and> length (ds_Nodes design) \<le> maxScadaNodes \<and> length (ds_Edges design) \<le> maxScadaEdges
     \<and> between_int (vp_X (ds_Viewport design)) (- 10000) 10000
     \<and> between_int (vp_Y (ds_Viewport design)) (- 10000) 10000
     \<and> finiteBetween (vp_Zoom (ds_Viewport design)) zoom_min (f_of_int 4)"

text \<open>\<open>Some True\<close> is \<open>nil\<close>, \<open>Some False\<close> is \<open>ErrInvalid\<close>.\<close>

definition ValidateScadaDesign :: "ScadaEnv \<Rightarrow> ScadaDesign \<Rightarrow> bool option" where
  "ValidateScadaDesign env design =
     (if \<not> scada_frame_ok design then Some False
      else if \<not> check_nodes env {} (ds_Nodes design) then Some False
      else (case check_parents (ds_Nodes design) (ds_Nodes design) of
              None \<Rightarrow> None
            | Some ok \<Rightarrow>
                if \<not> ok then Some False
                else if \<not> check_edges (sn_ID ` set (ds_Nodes design)) {} {} (ds_Edges design) then Some False
                else (case se_marshal env design of
                        None \<Rightarrow> Some False
                      | Some n \<Rightarrow> Some (n \<le> maxScadaDesign))))"

definition DefaultScadaDesign :: ScadaDesign where
  "DefaultScadaDesign =
     \<lparr>ds_Version = 1, ds_Nodes = [], ds_Edges = [], ds_Viewport = \<lparr>vp_X = f_zero, vp_Y = f_zero, vp_Zoom = f_one\<rparr>\<rparr>"

subsection \<open>The search for a cycle ends\<close>

declare parent_walk.simps [simp del]

definition node_ids :: "ScadaNode list \<Rightarrow> string set" where
  "node_ids nodes = sn_ID ` set nodes"

text \<open>Every turn that goes on puts the id of a node into \<open>seenParents\<close> that was not in it.\<close>

lemma fewer_ids:
  assumes "find (\<lambda>c. sn_ID c = p) nodes = Some c" and "p \<notin> seen"
  shows "card (node_ids nodes - insert p seen) < card (node_ids nodes - seen)"
proof (rule psubset_card_mono)
  have "p \<in> node_ids nodes"
    using assms(1) by (auto simp: node_ids_def find_Some_iff)
  then show "node_ids nodes - insert p seen \<subset> node_ids nodes - seen"
    using assms(2) by blast
qed (simp add: node_ids_def)

lemma walk_induct:
  assumes "\<And>seen p. (\<And>c. p \<noteq> [] \<Longrightarrow> p \<notin> seen \<Longrightarrow> find (\<lambda>c. sn_ID c = p) nodes = Some c \<Longrightarrow> is_container c
      \<Longrightarrow> P (insert p seen) (sn_ParentID c)) \<Longrightarrow> P seen p"
  shows "P seen p"
proof (induction "card (node_ids nodes - seen)" arbitrary: seen p rule: less_induct)
  case less
  show ?case by (rule assms) (use less fewer_ids in blast)
qed

lemma parent_walk_top [simp]: "parent_walk nodes seen [] = Some True"
  by (simp add: parent_walk.simps)

lemma parent_walk_returns: "parent_walk nodes seen p \<noteq> None"
proof (induction seen p rule: walk_induct [where nodes = nodes])
  case (1 seen p)
  then show ?case by (subst parent_walk.simps) (auto split: option.split)
qed

lemma check_parents_returns: "check_parents nodes ns \<noteq> None"
proof (induction ns)
  case (Cons n ns)
  then show ?case using parent_walk_returns [of nodes "{sn_ID n}" "sn_ParentID n"] by (auto split: option.split)
qed simp

text \<open>The same loop stopped after a number of evaluations of its condition.\<close>

fun walk_within :: "nat \<Rightarrow> ScadaNode list \<Rightarrow> string set \<Rightarrow> string \<Rightarrow> bool option" where
  "walk_within 0 nodes seen p = None"
| "walk_within (Suc k) nodes seen p =
     (if p = [] then Some True
      else if p \<in> seen then Some False
      else (case find (\<lambda>c. sn_ID c = p) nodes of
              None \<Rightarrow> walk_within k nodes (insert p seen) []
            | Some c \<Rightarrow> if \<not> is_container c then Some False
                        else walk_within k nodes (insert p seen) (sn_ParentID c)))"

lemma walk_within_enough:
  assumes "card (node_ids nodes - seen) + 2 \<le> k"
  shows "walk_within k nodes seen p = parent_walk nodes seen p"
  using assms
proof (induction seen p arbitrary: k rule: walk_induct [where nodes = nodes])
  case (1 seen p)
  obtain j where k: "k = Suc (Suc j)" using "1.prems" by (metis add_2_eq_Suc' le_Suc_ex add_Suc)
  have "walk_within (Suc j) nodes (insert p seen) (sn_ParentID c) = parent_walk nodes (insert p seen) (sn_ParentID c)"
    if "p \<noteq> []" "p \<notin> seen" "find (\<lambda>c. sn_ID c = p) nodes = Some c" "is_container c" for c
    by (rule "1.IH" [OF that]) (use fewer_ids [OF that(3,2)] "1.prems" k in linarith)
  then show ?case
    by (subst parent_walk.simps) (auto simp: k split: option.split)
qed

lemma own_id_seen:
  assumes "n \<in> set nodes"
  shows "card (node_ids nodes - {sn_ID n}) + 2 \<le> length nodes + 1"
proof -
  have "sn_ID n \<in> node_ids nodes" using assms by (simp add: node_ids_def)
  then have "card (node_ids nodes - {sn_ID n}) < card (node_ids nodes)"
    by (intro card_Diff1_less) (simp_all add: node_ids_def)
  moreover have "card (node_ids nodes) \<le> length nodes"
    using card_length [of "map sn_ID nodes"] by (simp add: node_ids_def)
  ultimately show ?thesis by linarith
qed

subsection \<open>What an accepted design is\<close>

definition parent_rel :: "ScadaNode list \<Rightarrow> (string \<times> string) set" where
  "parent_rel nodes = {(sn_ID n, sn_ParentID n) | n. n \<in> set nodes \<and> sn_ParentID n \<noteq> []}"

definition nested_in_containers :: "ScadaNode list \<Rightarrow> bool" where
  "nested_in_containers nodes \<longleftrightarrow>
     (\<forall>n \<in> set nodes. sn_ParentID n \<noteq> [] \<longrightarrow> (\<exists>g \<in> set nodes. sn_ID g = sn_ParentID n \<and> is_container g))"

definition design_ok :: "ScadaEnv \<Rightarrow> ScadaDesign \<Rightarrow> bool" where
  "design_ok env d \<longleftrightarrow>
     scada_frame_ok d
     \<and> distinct (map sn_ID (ds_Nodes d)) \<and> (\<forall>n \<in> set (ds_Nodes d). scada_node_ok env n)
     \<and> nested_in_containers (ds_Nodes d) \<and> acyclic (parent_rel (ds_Nodes d))
     \<and> distinct (map ed_ID (ds_Edges d)) \<and> distinct (map pair_key (ds_Edges d))
     \<and> (\<forall>e \<in> set (ds_Edges d). edge_ends_ok (node_ids (ds_Nodes d)) e)
     \<and> (\<exists>n. se_marshal env d = Some n \<and> n \<le> maxScadaDesign)"

lemma check_nodes_iff:
  "check_nodes env seen ns \<longleftrightarrow>
     distinct (map sn_ID ns) \<and> seen \<inter> sn_ID ` set ns = {} \<and> (\<forall>n \<in> set ns. scada_node_ok env n)"
  by (induction env seen ns rule: check_nodes.induct) auto

lemma check_edges_iff:
  "check_edges nodes edges pairs es \<longleftrightarrow>
     distinct (map ed_ID es) \<and> distinct (map pair_key es) \<and> edges \<inter> ed_ID ` set es = {} \<and> pairs \<inter> pair_key ` set es = {}
     \<and> (\<forall>e \<in> set es. edge_ends_ok nodes e)"
  by (induction nodes edges pairs es rule: check_edges.induct) auto

lemma find_node:
  assumes "distinct (map sn_ID nodes)"
  shows "find (\<lambda>c. sn_ID c = p) nodes = Some c \<longleftrightarrow> c \<in> set nodes \<and> sn_ID c = p"
  using assms by (induction nodes) auto

lemma parent_step:
  assumes "distinct (map sn_ID nodes)" and "c \<in> set nodes"
  shows "(sn_ID c, q) \<in> parent_rel nodes \<longleftrightarrow> q = sn_ParentID c \<and> q \<noteq> []"
  using assms by (auto simp: parent_rel_def distinct_map dest: inj_onD)

lemma step_unfolds:
  assumes "distinct (map sn_ID nodes)" and "c \<in> set nodes"
  shows "(sn_ID c, q) \<in> (parent_rel nodes)\<^sup>* \<longleftrightarrow>
    q = sn_ID c \<or> sn_ParentID c \<noteq> [] \<and> (sn_ParentID c, q) \<in> (parent_rel nodes)\<^sup>*"
proof
  assume "(sn_ID c, q) \<in> (parent_rel nodes)\<^sup>*"
  then show "q = sn_ID c \<or> sn_ParentID c \<noteq> [] \<and> (sn_ParentID c, q) \<in> (parent_rel nodes)\<^sup>*"
    by (cases rule: converse_rtranclE) (auto simp: parent_step [OF assms])
next
  assume "q = sn_ID c \<or> sn_ParentID c \<noteq> [] \<and> (sn_ParentID c, q) \<in> (parent_rel nodes)\<^sup>*"
  then show "(sn_ID c, q) \<in> (parent_rel nodes)\<^sup>*"
    using parent_step [OF assms, of "sn_ParentID c"] by (auto intro: converse_rtrancl_into_rtrancl)
qed

text \<open>A walk that reaches the top has met nothing of \<open>seenParents\<close>, and only containers.\<close>

definition parents_exist :: "ScadaNode list \<Rightarrow> bool" where
  "parents_exist nodes \<longleftrightarrow> (\<forall>n \<in> set nodes. sn_ParentID n \<noteq> [] \<longrightarrow> sn_ParentID n \<in> node_ids nodes)"

lemma walk_accepts:
  assumes "distinct (map sn_ID nodes)" and "parents_exist nodes"
    and "parent_walk nodes seen p = Some True" and "p \<in> node_ids nodes" and "p \<noteq> []"
  shows "(\<forall>q. (p, q) \<in> (parent_rel nodes)\<^sup>* \<longrightarrow> q \<notin> seen) \<and> (\<exists>c \<in> set nodes. sn_ID c = p \<and> is_container c)"
  using assms(3-)
proof (induction seen p rule: walk_induct [where nodes = nodes])
  case (1 seen p)
  obtain c where c: "p \<notin> seen" "c \<in> set nodes" "sn_ID c = p" "is_container c"
    and walk: "parent_walk nodes (insert p seen) (sn_ParentID c) = Some True"
    using "1.prems" by (subst (asm) parent_walk.simps)
      (auto simp: find_node [OF assms(1)] node_ids_def find_None_iff split: if_splits option.splits)
  have "q \<notin> seen" if q: "sn_ParentID c \<noteq> []" "(sn_ParentID c, q) \<in> (parent_rel nodes)\<^sup>*" for q
  proof -
    have "sn_ParentID c \<in> node_ids nodes" using assms(2) c(2) q(1) by (simp add: parents_exist_def)
    then have "q \<notin> insert p seen"
      using "1.IH" [of c] c walk q "1.prems"(3) by (simp add: find_node [OF assms(1)])
    then show ?thesis by simp
  qed
  then show ?case using c step_unfolds [OF assms(1) c(2)] by auto
qed

text \<open>Where every parent is a container and there is no cycle, every walk reaches the top.\<close>

lemma walk_reaches_top:
  assumes "distinct (map sn_ID nodes)" and "nested_in_containers nodes" and "acyclic (parent_rel nodes)"
    and "\<And>q. p \<noteq> [] \<Longrightarrow> (p, q) \<in> (parent_rel nodes)\<^sup>* \<Longrightarrow> q \<notin> seen"
    and "p = [] \<or> (\<exists>c \<in> set nodes. sn_ID c = p \<and> is_container c)"
  shows "parent_walk nodes seen p = Some True"
  using assms(4-)
proof (induction seen p rule: walk_induct [where nodes = nodes])
  case (1 seen p)
  show ?case
  proof (cases "p = []")
    case False
    then obtain c where c: "c \<in> set nodes" "sn_ID c = p" "is_container c" using "1.prems"(2) by blast
    have fresh: "p \<notin> seen" using "1.prems"(1) [OF False] by blast
    have "parent_walk nodes (insert p seen) (sn_ParentID c) = Some True"
    proof (rule "1.IH" [OF False fresh _ c(3)])
      show "find (\<lambda>c. sn_ID c = p) nodes = Some c" using c by (simp add: find_node [OF assms(1)])
      show "sn_ParentID c = [] \<or> (\<exists>g \<in> set nodes. sn_ID g = sn_ParentID c \<and> is_container g)"
        using assms(2) c(1) by (auto simp: nested_in_containers_def)
      fix q assume q: "sn_ParentID c \<noteq> []" "(sn_ParentID c, q) \<in> (parent_rel nodes)\<^sup>*"
      have step: "(p, sn_ParentID c) \<in> parent_rel nodes" using parent_step [OF assms(1) c(1)] c(2) q(1) by simp
      have "q \<noteq> p" using assms(3) rtrancl_into_trancl2 [OF step q(2)] by (auto simp: acyclic_def)
      moreover have "q \<notin> seen" using "1.prems"(1) [OF False] converse_rtrancl_into_rtrancl [OF step q(2)] by blast
      ultimately show "q \<notin> insert p seen" by simp
    qed
    moreover have "find (\<lambda>c. sn_ID c = p) nodes = Some c" using c by (simp add: find_node [OF assms(1)])
    ultimately show ?thesis using False fresh c by (subst parent_walk.simps) simp
  qed simp
qed

lemma check_parents_True:
  "check_parents nodes ns = Some True \<longleftrightarrow>
     (\<forall>n \<in> set ns. (sn_ParentID n \<noteq> [] \<longrightarrow> sn_ParentID n \<noteq> sn_ID n \<and> sn_ParentID n \<in> node_ids nodes)
                   \<and> parent_walk nodes {sn_ID n} (sn_ParentID n) = Some True)"
  using parent_walk_returns [of nodes]
  by (induction ns) (auto simp: node_ids_def split: option.split)

lemma check_parents_iff:
  assumes "distinct (map sn_ID nodes)"
  shows "check_parents nodes nodes = Some True \<longleftrightarrow> nested_in_containers nodes \<and> acyclic (parent_rel nodes)"
proof
  assume accepted: "check_parents nodes nodes = Some True"
  have walk: "sn_ParentID n \<noteq> []
      \<longrightarrow> (\<forall>q. (sn_ParentID n, q) \<in> (parent_rel nodes)\<^sup>* \<longrightarrow> q \<noteq> sn_ID n)
         \<and> (\<exists>g \<in> set nodes. sn_ID g = sn_ParentID n \<and> is_container g)" if "n \<in> set nodes" for n
    using walk_accepts [OF assms, of "{sn_ID n}" "sn_ParentID n"] accepted that
    by (auto simp: check_parents_True parents_exist_def)
  have "acyclic (parent_rel nodes)"
    unfolding acyclic_def
  proof (rule allI notI)+
    fix x assume "(x, x) \<in> (parent_rel nodes)\<^sup>+"
    then obtain y where "(x, y) \<in> parent_rel nodes" "(y, x) \<in> (parent_rel nodes)\<^sup>*"
      by (auto dest: tranclD)
    then show False using walk by (auto simp: parent_rel_def)
  qed
  then show "nested_in_containers nodes \<and> acyclic (parent_rel nodes)"
    using walk by (auto simp: nested_in_containers_def)
next
  assume forest: "nested_in_containers nodes \<and> acyclic (parent_rel nodes)"
  have "parent_walk nodes {sn_ID n} (sn_ParentID n) = Some True" if n: "n \<in> set nodes" for n
  proof (rule walk_reaches_top [OF assms])
    fix q assume "sn_ParentID n \<noteq> []" and q: "(sn_ParentID n, q) \<in> (parent_rel nodes)\<^sup>*"
    then have "(sn_ID n, q) \<in> (parent_rel nodes)\<^sup>+"
      using parent_step [OF assms n] by (auto intro: rtrancl_into_trancl2)
    then show "q \<notin> {sn_ID n}" using forest by (auto simp: acyclic_def)
  qed (use forest n in \<open>auto simp: nested_in_containers_def\<close>)
  moreover have "sn_ParentID n \<noteq> sn_ID n" if "n \<in> set nodes" "sn_ParentID n \<noteq> []" for n
    using forest parent_step [OF assms that(1), of "sn_ParentID n"] that(2)
    by (auto simp: acyclic_def dest: r_into_trancl)
  moreover have "sn_ParentID n \<in> node_ids nodes" if "n \<in> set nodes" "sn_ParentID n \<noteq> []" for n
    using forest that unfolding nested_in_containers_def node_ids_def by (metis imageI)
  ultimately show "check_parents nodes nodes = Some True"
    by (simp add: check_parents_True)
qed

lemma validate_exact: "ValidateScadaDesign env design = Some (design_ok env design)"
  using check_parents_returns [of "ds_Nodes design" "ds_Nodes design"] check_parents_iff [of "ds_Nodes design"]
  by (auto simp: ValidateScadaDesign_def design_ok_def check_nodes_iff check_edges_iff node_ids_def split: option.split)

subsection \<open>The properties of the validation\<close>

text \<open>C16: Validating a SCADA design ends, whatever the design: the search for a cycle among the parents of a node
  evaluates its condition at most once more often than the design has nodes, also when their ids repeat, a
  parent does not exist, or the parents go round.\<close>

theorem scada_validation_ends:
  "ValidateScadaDesign env design \<noteq> None
   \<and> list_all (\<lambda>n. let turns = length (ds_Nodes design) + 1 in
        walk_within turns (ds_Nodes design) {sn_ID n} (sn_ParentID n) \<noteq> None
        \<and> walk_within turns (ds_Nodes design) {sn_ID n} (sn_ParentID n)
          = parent_walk (ds_Nodes design) {sn_ID n} (sn_ParentID n)) (ds_Nodes design)"
proof
  show "ValidateScadaDesign env design \<noteq> None"
    using check_parents_returns [of "ds_Nodes design" "ds_Nodes design"]
    by (auto simp: ValidateScadaDesign_def split: option.split)
qed (simp add: list_all_iff Let_def walk_within_enough [OF own_id_seen, simplified] parent_walk_returns del: not_None_eq)

text \<open>C15: A design is accepted exactly if its sizes, nodes and edges are in their bounds, ids and pairs of ends are
  unique, every edge joins two nodes, and the nodes form a forest: every parent is a group or section of the design
  and no chain of parents comes back.\<close>

theorem scada_design_accepted_iff: "ValidateScadaDesign env design = Some (design_ok env design)"
  by (rule validate_exact)

end
