(* ===== verification/ScadaScreens.thy ===== *)
theory ScadaScreens
  imports Platform ScadaDesigns
begin

section \<open>platform-api core: SCADA screens, drafts and publications\<close>

text \<open>
  The operations of \<open>core/scada.go\<close> on the tables of migration 000018. A screen has one draft with a version that
  every save raises, and numbered publications that never change; saving and publishing name the versions they
  are based on. The row of the screen is locked for the transaction, so an operation is one step; on an error the
  tables are as before. \<open>CoreEnv\<close> holds the rights of the caller, \<open>draw\<close> is the result of \<open>newUUID\<close>. Authors and
  times are not modelled, an error other than those of the package is \<open>ErrStatement\<close>.
\<close>

datatype ScadaError =
    ErrScadaNotFound
  | ErrScadaConflict
  | ErrScadaVersionConflict
  | ScadaCore CoreError

abbreviation ErrScadaInternal :: ScadaError where
  "ErrScadaInternal \<equiv> ScadaCore ErrStatement"

record ScreenRow =
  sr_ID :: string
  sr_OrganizationID :: string
  sr_PlantID :: string
  sr_Name :: string
  sr_Design :: ScadaDesign
  sr_DraftVersion :: int
  sr_PublishedVersion :: int

record PublicationRow =
  pb_ID :: string
  pb_ScreenID :: string
  pb_Version :: int
  pb_SourceDraftVersion :: int
  pb_Design :: ScadaDesign

record ScadaDb =
  sc_Platform :: PlatformDb
  sc_Screens :: "ScreenRow list"
  sc_Publications :: "PublicationRow list"

abbreviation sc_Registry :: "ScadaDb \<Rightarrow> Registry" where
  "sc_Registry db \<equiv> pl_Registry (sc_Platform db)"

record ScadaScreenSummary =
  ss_ID :: string
  ss_OrganizationID :: string
  ss_PlantID :: string
  ss_PlantCode :: string
  ss_PlantName :: string
  ss_Name :: string
  ss_DraftVersion :: int
  ss_PublishedVersion :: int

record ScadaScreen = ScadaScreenSummary +
  ss_Design :: ScadaDesign
  ss_CanEdit :: bool
  ss_CanPublish :: bool
  ss_CanManageAccess :: bool
  ss_CanHardDelete :: bool

record PublishedScadaScreen = ScadaScreenSummary +
  ps_SourceDraftVersion :: int
  ps_Design :: ScadaDesign

record ScadaScreenVersion =
  sv_Version :: int
  sv_SourceDraftVersion :: int
  sv_Current :: bool

record CreateScadaScreenInput =
  cs_PlantID :: string
  cs_Name :: string

record UpdateScadaScreenInput =
  us_DraftVersion :: int
  us_Name :: string
  us_Design :: ScadaDesign

record PublishScadaScreenInput =
  pi_DraftVersion :: int
  pi_PublishedVersion :: int

record RollbackScadaScreenInput =
  rb_TargetVersion :: int
  rb_PublishedVersion :: int

record storedScadaScreen =
  st_Summary :: ScadaScreenSummary
  st_Design :: ScadaDesign

subsection \<open>Reading screens\<close>

definition screen_plant :: "ScreenRow \<Rightarrow> Registry \<Rightarrow> PlantInfo option" where
  "screen_plant row reg =
     find (\<lambda>p. pn_OrganizationID p = sr_OrganizationID row \<and> pn_ID p = sr_PlantID row) (rg_Plants reg)"

definition scanScadaSummary :: "PlantInfo \<Rightarrow> ScreenRow \<Rightarrow> ScadaScreenSummary" where
  "scanScadaSummary p row =
     \<lparr>ss_ID = sr_ID row, ss_OrganizationID = sr_OrganizationID row, ss_PlantID = sr_PlantID row,
      ss_PlantCode = pn_Code p, ss_PlantName = pn_Name p, ss_Name = sr_Name row,
      ss_DraftVersion = sr_DraftVersion row, ss_PublishedVersion = sr_PublishedVersion row\<rparr>"

definition scanStoredScada :: "ScadaEnv \<Rightarrow> PlantInfo \<Rightarrow> ScreenRow \<Rightarrow> ScadaError + storedScadaScreen" where
  "scanStoredScada env p row =
     (if ValidateScadaDesign env (sr_Design row) \<noteq> Some True then Inl ErrScadaInternal
      else Inr \<lparr>st_Summary = scanScadaSummary p row, st_Design = sr_Design row\<rparr>)"

text \<open>The join of a screen with its plant, under a condition on the screen.\<close>

definition stored_where :: "(ScreenRow \<Rightarrow> bool) \<Rightarrow> ScadaEnv \<Rightarrow> string \<Rightarrow> ScadaDb \<Rightarrow> ScadaError + storedScadaScreen" where
  "stored_where allowed env i db =
     (case find (\<lambda>s. sr_ID s = i) (sc_Screens db) of
        None \<Rightarrow> Inl ErrScadaNotFound
      | Some row \<Rightarrow>
          (case screen_plant row (sc_Registry db) of
             None \<Rightarrow> Inl ErrScadaNotFound
           | Some p \<Rightarrow> if allowed row then scanStoredScada env p row else Inl ErrScadaNotFound))"

definition getScadaScreenByID :: "ScadaEnv \<Rightarrow> string \<Rightarrow> ScadaDb \<Rightarrow> ScadaError + storedScadaScreen" where
  "getScadaScreenByID = stored_where (\<lambda>_. True)"

definition hasScadaScopePermission :: "CoreEnv \<Rightarrow> string \<Rightarrow> string \<Rightarrow> string \<Rightarrow> bool" where
  "hasScadaScopePermission c organizationID plantID action = ce_perm c action ''scada_screen'' organizationID (Some plantID)"

definition getAuthorizedScadaScreen ::
  "ScadaEnv \<Rightarrow> CoreEnv \<Rightarrow> string \<Rightarrow> string \<Rightarrow> ScadaDb \<Rightarrow> ScadaError + storedScadaScreen" where
  "getAuthorizedScadaScreen env c i action db =
     stored_where (\<lambda>row. hasScadaScopePermission c (sr_OrganizationID row) (sr_PlantID row) action) env i db"

definition fillScadaCapabilities :: "CoreEnv \<Rightarrow> ScadaScreen \<Rightarrow> ScadaScreen" where
  "fillScadaCapabilities c screen =
     (let can = hasScadaScopePermission c (ss_OrganizationID screen) (ss_PlantID screen)
      in screen\<lparr>ss_CanEdit := can ''edit'', ss_CanPublish := can ''publish'',
                ss_CanManageAccess := can ''manage_access'',
                ss_CanHardDelete := ce_global c ''hard_delete'' ''scada_screen''\<rparr>)"

definition screenFromStored :: "storedScadaScreen \<Rightarrow> ScadaScreen" where
  "screenFromStored stored =
     ScadaScreenSummary.extend (st_Summary stored)
       (ScadaScreen.fields (st_Design stored) False False False False)"

definition publishedFromStored :: "storedScadaScreen \<Rightarrow> int \<Rightarrow> ScadaDesign \<Rightarrow> PublishedScadaScreen" where
  "publishedFromStored stored sourceVersion design =
     ScadaScreenSummary.extend (st_Summary stored) (PublishedScadaScreen.fields sourceVersion design)"

definition getScadaPublication ::
  "ScadaEnv \<Rightarrow> storedScadaScreen \<Rightarrow> int \<Rightarrow> ScadaDb \<Rightarrow> ScadaError + PublishedScadaScreen" where
  "getScadaPublication env stored version db =
     (case find (\<lambda>p. pb_ScreenID p = ss_ID (st_Summary stored) \<and> pb_Version p = version) (sc_Publications db) of
        None \<Rightarrow> Inl ErrScadaNotFound
      | Some p \<Rightarrow>
          if ValidateScadaDesign env (pb_Design p) \<noteq> Some True then Inl ErrScadaInternal
          else Inr (publishedFromStored (stored\<lparr>st_Summary := (st_Summary stored)\<lparr>ss_PublishedVersion := version\<rparr>\<rparr>)
                     (pb_SourceDraftVersion p) (pb_Design p)))"

text \<open>\<open>by_name\<close> sorts as \<open>ORDER BY p.name, s.name\<close>; \<open>filter\<close> is the plant asked for.\<close>

definition Service_ScadaScreens ::
  "ScadaEnv \<Rightarrow> CoreEnv \<Rightarrow> (ScadaScreenSummary list \<Rightarrow> ScadaScreenSummary list) \<Rightarrow> string \<Rightarrow> ScadaDb
     \<Rightarrow> ScadaError + ScadaScreenSummary list" where
  "Service_ScadaScreens env c by_name plantID db =
     (let rows = (\<lambda>wanted. concat (map (\<lambda>row. case screen_plant row (sc_Registry db) of
                    None \<Rightarrow> []
                  | Some p \<Rightarrow> if wanted row \<and> hasScadaScopePermission c (sr_OrganizationID row) (sr_PlantID row) ''view''
                              then [scanScadaSummary p row] else []) (sc_Screens db)))
      in if \<not> ce_any c ''view'' ''scada_screen'' then Inl (ScadaCore ErrForbidden)
         else if trim_space plantID = [] then Inr (take 200 (by_name (rows (\<lambda>_. True))))
         else (case scada_parseUUID env plantID of
                 None \<Rightarrow> Inl (ScadaCore ErrInvalid)
               | Some i \<Rightarrow> Inr (take 200 (by_name (rows (\<lambda>row. sr_PlantID row = i))))))"

definition Service_ScadaScreen :: "ScadaEnv \<Rightarrow> CoreEnv \<Rightarrow> string \<Rightarrow> ScadaDb \<Rightarrow> ScadaError + ScadaScreen" where
  "Service_ScadaScreen env c screenID db =
     (case scada_parseUUID env screenID of
        None \<Rightarrow> Inl ErrScadaNotFound
      | Some i \<Rightarrow>
     (case getAuthorizedScadaScreen env c i ''view'' db of
        Inl err \<Rightarrow> Inl err
      | Inr stored \<Rightarrow> Inr (fillScadaCapabilities c (screenFromStored stored))))"

definition Service_PublishedScadaScreen ::
  "ScadaEnv \<Rightarrow> CoreEnv \<Rightarrow> string \<Rightarrow> ScadaDb \<Rightarrow> ScadaError + PublishedScadaScreen" where
  "Service_PublishedScadaScreen env c screenID db =
     (case scada_parseUUID env screenID of
        None \<Rightarrow> Inl ErrScadaNotFound
      | Some i \<Rightarrow>
     (case getAuthorizedScadaScreen env c i ''view'' db of
        Inl err \<Rightarrow> Inl err
      | Inr stored \<Rightarrow>
          if ss_PublishedVersion (st_Summary stored) < 1 then Inl ErrScadaNotFound
          else getScadaPublication env stored (ss_PublishedVersion (st_Summary stored)) db))"

definition Service_ScadaScreenVersions ::
  "ScadaEnv \<Rightarrow> CoreEnv \<Rightarrow> string \<Rightarrow> ScadaDb \<Rightarrow> ScadaError + ScadaScreenVersion list" where
  "Service_ScadaScreenVersions env c screenID db =
     (case scada_parseUUID env screenID of
        None \<Rightarrow> Inl ErrScadaNotFound
      | Some i \<Rightarrow>
     (case getAuthorizedScadaScreen env c i ''view'' db of
        Inl err \<Rightarrow> Inl err
      | Inr stored \<Rightarrow>
          Inr (map (\<lambda>p. \<lparr>sv_Version = pb_Version p, sv_SourceDraftVersion = pb_SourceDraftVersion p,
                          sv_Current = (pb_Version p = ss_PublishedVersion (st_Summary stored))\<rparr>)
                 (take 100 (sort_key (\<lambda>p. - pb_Version p) (filter (\<lambda>p. pb_ScreenID p = i) (sc_Publications db)))))))"

subsection \<open>Statements\<close>

definition sc_audit :: "string \<Rightarrow> string \<Rightarrow> string \<Rightarrow> ScadaDb \<Rightarrow> ScadaDb" where
  "sc_audit org action i db =
     db\<lparr>sc_Platform := with_registry (audit org action ''scada_screen'' i) (sc_Platform db)\<rparr>"

definition change_screen :: "string \<Rightarrow> (ScreenRow \<Rightarrow> ScreenRow) \<Rightarrow> ScadaDb \<Rightarrow> ScadaDb" where
  "change_screen i f db = db\<lparr>sc_Screens := update_where (\<lambda>s. sr_ID s = i) f (sc_Screens db)\<rparr>"

text \<open>The constraints a written screen row can violate: the length of the name and its uniqueness in the plant.\<close>

definition scada_name_length :: "string \<Rightarrow> bool" where
  "scada_name_length name \<longleftrightarrow> 1 \<le> char_length (btrim name) \<and> char_length (btrim name) \<le> 100"

definition name_key :: "ScadaEnv \<Rightarrow> ScreenRow \<Rightarrow> string \<times> string \<times> string" where
  "name_key env s = (sr_OrganizationID s, sr_PlantID s, se_lower env (sr_Name s))"

definition write_refused :: "ScadaEnv \<Rightarrow> ScreenRow \<Rightarrow> ScreenRow list \<Rightarrow> ScadaError option" where
  "write_refused env row others =
     (if \<not> scada_name_length (sr_Name row) then Some (ScadaCore ErrInvalid)
      else if list_ex (\<lambda>s. sr_ID s = sr_ID row \<or> name_key env s = name_key env row) others then Some ErrScadaConflict
      else None)"

definition max_int4 :: int where "max_int4 = 2147483647"

subsection \<open>Drafts\<close>

text \<open>\<open>authorizedScadaPlant\<close> with the permission to edit.\<close>

definition authorizedScadaPlant :: "CoreEnv \<Rightarrow> string \<Rightarrow> string \<Rightarrow> ScadaDb \<Rightarrow> PlantInfo option" where
  "authorizedScadaPlant c plantID action db = authorized_plant c action ''scada_screen'' plantID (sc_Registry db)"

definition new_screen :: "string \<Rightarrow> PlantInfo \<Rightarrow> string \<Rightarrow> ScadaDesign \<Rightarrow> ScreenRow" where
  "new_screen i p name design =
     \<lparr>sr_ID = i, sr_OrganizationID = pn_OrganizationID p, sr_PlantID = pn_ID p, sr_Name = name, sr_Design = design,
      sr_DraftVersion = 1, sr_PublishedVersion = 0\<rparr>"

definition CreateScadaScreen ::
  "ScadaEnv \<Rightarrow> CoreEnv \<Rightarrow> string \<Rightarrow> CreateScadaScreenInput \<Rightarrow> ScadaDb \<Rightarrow> ScadaDb \<times> (ScadaError + ScadaScreen)" where
  "CreateScadaScreen env c draw input db =
     (let name = trim_space (cs_Name input) in
      case scada_parseUUID env (cs_PlantID input) of
        None \<Rightarrow> (db, Inl (ScadaCore ErrInvalid))
      | Some plantID \<Rightarrow>
          if name = [] \<or> 100 < length name then (db, Inl (ScadaCore ErrInvalid))
          else (case authorizedScadaPlant c plantID ''edit'' db of
                  None \<Rightarrow> (db, Inl ErrScadaNotFound)
                | Some p \<Rightarrow>
                    (case se_column env DefaultScadaDesign of
                       None \<Rightarrow> (db, Inl ErrScadaInternal)
                     | Some design \<Rightarrow>
                         let row = new_screen draw p name design in
                         (case write_refused env row (sc_Screens db) of
                            Some err \<Rightarrow> (db, Inl err)
                          | None \<Rightarrow>
                              (sc_audit (pn_OrganizationID p) ''scada_screen.created'' draw
                                 (db\<lparr>sc_Screens := sc_Screens db @ [row]\<rparr>),
                               Inr (fillScadaCapabilities c (screenFromStored
                                 \<lparr>st_Summary = scanScadaSummary p row, st_Design = DefaultScadaDesign\<rparr>)))))))"

text \<open>\<open>validateScadaBindings\<close>: a device id that does not parse is compared as NULL.\<close>

definition node_device_ids :: "ScadaNode \<Rightarrow> string list" where
  "node_device_ids n =
     (let data = sn_Data n in
      (case nd_Binding data of None \<Rightarrow> [] | Some b \<Rightarrow> [tb_DeviceID b])
      @ (if nd_DeviceID data \<noteq> [] then [nd_DeviceID data] else [])
      @ map (\<lambda>item. tb_DeviceID (it_Binding item)) (nd_Items data))"

definition plant_has_device :: "ScadaEnv \<Rightarrow> string \<Rightarrow> string \<Rightarrow> ScadaDb \<Rightarrow> string \<Rightarrow> bool" where
  "plant_has_device env organizationID plantID db raw =
     (case scada_parseUUID env raw of
        None \<Rightarrow> False
      | Some i \<Rightarrow> list_ex (\<lambda>d. di_OrganizationID d = organizationID \<and> di_PlantID d = plantID \<and> di_ID d = i)
                   (rg_Devices (sc_Registry db)))"

fun check_devices :: "(string \<Rightarrow> bool) \<Rightarrow> string set \<Rightarrow> string list \<Rightarrow> bool" where
  "check_devices exists seen [] = True"
| "check_devices exists seen (i # ids) =
     (if i \<in> seen then check_devices exists seen ids
      else exists i \<and> check_devices exists (insert i seen) ids)"

definition validateScadaBindings :: "ScadaEnv \<Rightarrow> string \<Rightarrow> string \<Rightarrow> ScadaDesign \<Rightarrow> ScadaDb \<Rightarrow> bool" where
  "validateScadaBindings env organizationID plantID design db =
     check_devices (plant_has_device env organizationID plantID db) {} (concat (map node_device_ids (ds_Nodes design)))"

definition saved_draft :: "string \<Rightarrow> ScadaDesign \<Rightarrow> ScreenRow \<Rightarrow> ScreenRow" where
  "saved_draft name design s = s\<lparr>sr_Name := name, sr_Design := design, sr_DraftVersion := sr_DraftVersion s + 1\<rparr>"

text \<open>The statement that writes the draft; \<open>i\<close> is the id of the locked row.\<close>

definition write_draft :: "ScadaEnv \<Rightarrow> string \<Rightarrow> string \<Rightarrow> ScadaDesign \<Rightarrow> ScadaDb \<Rightarrow> ScadaError + ScadaDb" where
  "write_draft env i name input db =
     (case (find (\<lambda>s. sr_ID s = i) (sc_Screens db), se_column env input) of
        (Some s, Some design) \<Rightarrow>
          if max_int4 \<le> sr_DraftVersion s then Inl ErrScadaInternal
          else (case write_refused env (saved_draft name design s) (filter (\<lambda>t. sr_ID t \<noteq> i) (sc_Screens db)) of
                  Some err \<Rightarrow> Inl err
                | None \<Rightarrow> Inr (change_screen i (saved_draft name design) db))
      | _ \<Rightarrow> Inl ErrScadaInternal)"

definition SaveScadaScreen ::
  "ScadaEnv \<Rightarrow> CoreEnv \<Rightarrow> string \<Rightarrow> UpdateScadaScreenInput \<Rightarrow> ScadaDb \<Rightarrow> ScadaDb \<times> (ScadaError + ScadaScreen)" where
  "SaveScadaScreen env c screenID input db =
     (let name = trim_space (us_Name input); design = us_Design input in
      case scada_parseUUID env screenID of
        None \<Rightarrow> (db, Inl (ScadaCore ErrInvalid))
      | Some i \<Rightarrow>
          if us_DraftVersion input < 1 \<or> name = [] \<or> 100 < length name
             \<or> ValidateScadaDesign env design \<noteq> Some True then (db, Inl (ScadaCore ErrInvalid))
          else
     (case getAuthorizedScadaScreen env c i ''edit'' db of
        Inl err \<Rightarrow> (db, Inl err)
      | Inr stored \<Rightarrow>
          let summary = st_Summary stored; org = ss_OrganizationID summary in
          if ss_DraftVersion summary \<noteq> us_DraftVersion input then (db, Inl ErrScadaVersionConflict)
          else if \<not> validateScadaBindings env org (ss_PlantID summary) design db then (db, Inl (ScadaCore ErrInvalid))
          else (case write_draft env i name design db of
                  Inl err \<Rightarrow> (db, Inl err)
                | Inr db1 \<Rightarrow>
                    (sc_audit org ''scada_screen.draft_saved'' i db1,
                     Inr (fillScadaCapabilities c (screenFromStored
                       \<lparr>st_Summary = summary\<lparr>ss_Name := name, ss_DraftVersion := ss_DraftVersion summary + 1\<rparr>,
                        st_Design = design\<rparr>))))))"

subsection \<open>Publications\<close>

definition next_version :: "string \<Rightarrow> ScadaDb \<Rightarrow> int" where
  "next_version i db =
     fold max (map pb_Version (filter (\<lambda>p. pb_ScreenID p = i) (sc_Publications db))) 0 + 1"

text \<open>The insertion copies the draft column, \<open>stored.Raw\<close>; then the screen selects the new version.\<close>

definition select_version :: "int \<Rightarrow> ScreenRow \<Rightarrow> ScreenRow" where
  "select_version version s = s\<lparr>sr_PublishedVersion := version\<rparr>"

definition add_publication :: "PublicationRow \<Rightarrow> ScadaDb \<Rightarrow> ScadaError + ScadaDb" where
  "add_publication p db =
     (if list_ex (\<lambda>q. pb_ID q = pb_ID p) (sc_Publications db) then Inl ErrScadaInternal
      else Inr (change_screen (pb_ScreenID p) (select_version (pb_Version p))
             (db\<lparr>sc_Publications := sc_Publications db @ [p]\<rparr>)))"

definition PublishScadaScreen ::
  "ScadaEnv \<Rightarrow> CoreEnv \<Rightarrow> string \<Rightarrow> string \<Rightarrow> PublishScadaScreenInput \<Rightarrow> ScadaDb
     \<Rightarrow> ScadaDb \<times> (ScadaError + PublishedScadaScreen)" where
  "PublishScadaScreen env c draw screenID input db =
     (case scada_parseUUID env screenID of
        None \<Rightarrow> (db, Inl (ScadaCore ErrInvalid))
      | Some i \<Rightarrow>
          if pi_DraftVersion input < 1 \<or> pi_PublishedVersion input < 0 then (db, Inl (ScadaCore ErrInvalid))
          else
     (case getAuthorizedScadaScreen env c i ''publish'' db of
        Inl err \<Rightarrow> (db, Inl err)
      | Inr stored \<Rightarrow>
          let summary = st_Summary stored; version = next_version i db;
              p = \<lparr>pb_ID = draw, pb_ScreenID = i, pb_Version = version,
                   pb_SourceDraftVersion = ss_DraftVersion summary, pb_Design = st_Design stored\<rparr>
          in if ss_DraftVersion summary \<noteq> pi_DraftVersion input \<or> ss_PublishedVersion summary \<noteq> pi_PublishedVersion input
             then (db, Inl ErrScadaVersionConflict)
             else if max_int4 < version then (db, Inl ErrScadaInternal)
             else (case add_publication p db of
                     Inl err \<Rightarrow> (db, Inl err)
                   | Inr db1 \<Rightarrow>
                       (sc_audit (ss_OrganizationID summary) ''scada_screen.published'' i db1,
                        Inr (publishedFromStored (stored\<lparr>st_Summary := summary\<lparr>ss_PublishedVersion := version\<rparr>\<rparr>)
                          (ss_DraftVersion summary) (st_Design stored))))))"

definition RollbackScadaScreen ::
  "ScadaEnv \<Rightarrow> CoreEnv \<Rightarrow> string \<Rightarrow> RollbackScadaScreenInput \<Rightarrow> ScadaDb
     \<Rightarrow> ScadaDb \<times> (ScadaError + PublishedScadaScreen)" where
  "RollbackScadaScreen env c screenID input db =
     (case scada_parseUUID env screenID of
        None \<Rightarrow> (db, Inl (ScadaCore ErrInvalid))
      | Some i \<Rightarrow>
          if rb_TargetVersion input < 1 \<or> rb_PublishedVersion input < 1 then (db, Inl (ScadaCore ErrInvalid))
          else
     (case getAuthorizedScadaScreen env c i ''publish'' db of
        Inl err \<Rightarrow> (db, Inl err)
      | Inr stored \<Rightarrow>
          if ss_PublishedVersion (st_Summary stored) \<noteq> rb_PublishedVersion input
          then (db, Inl ErrScadaVersionConflict)
          else (case getScadaPublication env stored (rb_TargetVersion input) db of
                  Inl err \<Rightarrow> (db, Inl err)
                | Inr result \<Rightarrow>
                    (sc_audit (ss_OrganizationID (st_Summary stored)) ''scada_screen.rolled_back'' i
                       (change_screen i (select_version (rb_TargetVersion input)) db),
                     Inr (result\<lparr>ss_PublishedVersion := rb_TargetVersion input\<rparr>)))))"

text \<open>The publications of a screen go with it (\<open>ON DELETE CASCADE\<close>).\<close>

definition HardDeleteScadaScreen ::
  "ScadaEnv \<Rightarrow> CoreEnv \<Rightarrow> string \<Rightarrow> string \<Rightarrow> ScadaDb \<Rightarrow> ScadaDb \<times> ScadaError option" where
  "HardDeleteScadaScreen env c screenID confirmation db =
     (case scada_parseUUID env screenID of
        None \<Rightarrow> (db, Some ErrScadaNotFound)
      | Some i \<Rightarrow>
          if \<not> ce_global c ''hard_delete'' ''scada_screen'' then (db, Some (ScadaCore ErrForbidden))
          else
     (case getScadaScreenByID env i db of
        Inl err \<Rightarrow> (db, Some err)
      | Inr stored \<Rightarrow>
          if \<not> validHardDeleteConfirmation confirmation (''DELETE SCADA '' @ ss_Name (st_Summary stored))
          then (db, Some (ScadaCore ErrInvalid))
          else ((sc_audit (ss_OrganizationID (st_Summary stored)) ''scada_screen.hard_deleted'' i db)
                  \<lparr>sc_Screens := filter (\<lambda>s. sr_ID s \<noteq> i) (sc_Screens db),
                   sc_Publications := filter (\<lambda>p. pb_ScreenID p \<noteq> i) (sc_Publications db)\<rparr>, None)))"

subsection \<open>The screens as a machine\<close>

datatype ScadaOp =
    OpCreateScreen CreateScadaScreenInput
  | OpSaveScreen string UpdateScadaScreenInput
  | OpPublishScreen string PublishScadaScreenInput
  | OpRollbackScreen string RollbackScadaScreenInput
  | OpDeleteScreen string string

fun scada_perform :: "ScadaEnv \<Rightarrow> CoreEnv \<Rightarrow> string \<Rightarrow> ScadaOp \<Rightarrow> ScadaDb \<Rightarrow> ScadaDb" where
  "scada_perform env c draw (OpCreateScreen input) db = fst (CreateScadaScreen env c draw input db)"
| "scada_perform env c draw (OpSaveScreen i input) db = fst (SaveScadaScreen env c i input db)"
| "scada_perform env c draw (OpPublishScreen i input) db = fst (PublishScadaScreen env c draw i input db)"
| "scada_perform env c draw (OpRollbackScreen i input) db = fst (RollbackScadaScreen env c i input db)"
| "scada_perform env c draw (OpDeleteScreen i confirmation) db = fst (HardDeleteScadaScreen env c i confirmation db)"

text \<open>What the rest of the platform does: a deleted plant takes its screens and their publications with it.\<close>

definition with_platform :: "PlatformDb \<Rightarrow> ScadaDb \<Rightarrow> ScadaDb" where
  "with_platform p db =
     (let screens = filter (\<lambda>s. screen_plant s (pl_Registry p) \<noteq> None) (sc_Screens db)
      in \<lparr>sc_Platform = p, sc_Screens = screens,
          sc_Publications = filter (\<lambda>q. list_ex (\<lambda>s. sr_ID s = pb_ScreenID q) screens) (sc_Publications db)\<rparr>)"

text \<open>The tables and the ids drawn so far; \<open>newUUID\<close> never draws one again.\<close>

record ScadaState =
  sx_Db :: ScadaDb
  sx_Drawn :: "string set"

inductive scada_step :: "ScadaEnv \<Rightarrow> ScadaState \<Rightarrow> ScadaState \<Rightarrow> bool" for env where
  screen: "draw \<notin> sx_Drawn s \<Longrightarrow>
    scada_step env s (s\<lparr>sx_Db := scada_perform env c draw op (sx_Db s), sx_Drawn := insert draw (sx_Drawn s)\<rparr>)"
| platform: "platform_step (sc_Platform (sx_Db s)) p \<Longrightarrow> scada_step env s (s\<lparr>sx_Db := with_platform p (sx_Db s)\<rparr>)"

inductive scada_reach :: "ScadaEnv \<Rightarrow> ScadaState \<Rightarrow> ScadaState \<Rightarrow> bool" for env where
  start: "scada_reach env s s"
| step: "scada_reach env s t \<Longrightarrow> scada_step env t u \<Longrightarrow> scada_reach env s u"

subsection \<open>What an operation does to the rows\<close>

text \<open>
  The abstract view of the operations: a successful one makes one of five changes to screens and publications,
  a refused one none.
\<close>

datatype ScadaChange =
    Unchanged
  | Created ScreenRow
  | Saved string string ScadaDesign
  | Published PublicationRow
  | Selected string int
  | Deleted string

fun changed_rows :: "ScadaChange \<Rightarrow> ScreenRow list \<times> PublicationRow list \<Rightarrow> ScreenRow list \<times> PublicationRow list" where
  "changed_rows Unchanged (ss, ps) = (ss, ps)"
| "changed_rows (Created row) (ss, ps) = (ss @ [row], ps)"
| "changed_rows (Saved i name d) (ss, ps) = (update_where (\<lambda>s. sr_ID s = i) (saved_draft name d) ss, ps)"
| "changed_rows (Published p) (ss, ps) =
     (update_where (\<lambda>s. sr_ID s = pb_ScreenID p) (select_version (pb_Version p)) ss, ps @ [p])"
| "changed_rows (Selected i v) (ss, ps) = (update_where (\<lambda>s. sr_ID s = i) (select_version v) ss, ps)"
| "changed_rows (Deleted i) (ss, ps) = (filter (\<lambda>s. sr_ID s \<noteq> i) ss, filter (\<lambda>p. pb_ScreenID p \<noteq> i) ps)"

definition rows :: "ScadaDb \<Rightarrow> ScreenRow list \<times> PublicationRow list" where
  "rows db = (sc_Screens db, sc_Publications db)"

text \<open>What is known when a change is made.\<close>

definition draft_ok :: "ScadaEnv \<Rightarrow> ScadaDesign \<Rightarrow> bool" where
  "draft_ok env d \<longleftrightarrow> (\<exists>d0. (d0 = DefaultScadaDesign \<or> design_ok env d0) \<and> se_column env d0 = Some d)"

fun change_allowed :: "ScadaEnv \<Rightarrow> string \<Rightarrow> ScadaChange \<Rightarrow> ScadaDb \<Rightarrow> bool" where
  "change_allowed env draw Unchanged db = True"
| "change_allowed env draw (Created row) db \<longleftrightarrow>
     (\<exists>p name d. p \<in> set (rg_Plants (sc_Registry db)) \<and> row = new_screen draw p name d
        \<and> draft_ok env d \<and> write_refused env row (sc_Screens db) = None)"
| "change_allowed env draw (Saved i name d) db \<longleftrightarrow>
     (\<exists>s. find (\<lambda>s. sr_ID s = i) (sc_Screens db) = Some s \<and> sr_DraftVersion s < max_int4 \<and> draft_ok env d
        \<and> write_refused env (saved_draft name d s) (filter (\<lambda>t. sr_ID t \<noteq> i) (sc_Screens db)) = None)"
| "change_allowed env draw (Published p) db \<longleftrightarrow>
     (\<exists>s. find (\<lambda>s. sr_ID s = pb_ScreenID p) (sc_Screens db) = Some s \<and> design_ok env (sr_Design s)
        \<and> p = \<lparr>pb_ID = draw, pb_ScreenID = sr_ID s, pb_Version = next_version (sr_ID s) db,
              pb_SourceDraftVersion = sr_DraftVersion s, pb_Design = sr_Design s\<rparr>)"
| "change_allowed env draw (Selected i v) db \<longleftrightarrow>
     (\<exists>p \<in> set (sc_Publications db). pb_ScreenID p = i \<and> pb_Version p = v) \<and> 1 \<le> v"
| "change_allowed env draw (Deleted i) db = True"

text \<open>\<open>makes\<close>: the operation led from \<open>db\<close> to \<open>db'\<close> by the change, and the plants are as they were.\<close>

definition makes :: "ScadaEnv \<Rightarrow> string \<Rightarrow> ScadaChange \<Rightarrow> ScadaDb \<Rightarrow> ScadaDb \<Rightarrow> bool" where
  "makes env draw ch db db' \<longleftrightarrow>
     change_allowed env draw ch db \<and> rows db' = changed_rows ch (rows db)
     \<and> rg_Plants (sc_Registry db') = rg_Plants (sc_Registry db)"

lemma sc_audit_rows [simp]:
  "rows (sc_audit org action i db) = rows db"
  "rg_Plants (sc_Registry (sc_audit org action i db)) = rg_Plants (sc_Registry db)"
  by (simp_all add: rows_def sc_audit_def with_registry_def audit_def)

lemma makes_Unchanged: "makes env draw Unchanged db db"
  by (simp add: makes_def rows_def)

lemma stored_where_Inr:
  assumes "stored_where allowed env i db = Inr stored"
  obtains s p where "find (\<lambda>s. sr_ID s = i) (sc_Screens db) = Some s" and "screen_plant s (sc_Registry db) = Some p"
    and "allowed s" and "design_ok env (sr_Design s)"
    and "stored = \<lparr>st_Summary = scanScadaSummary p s, st_Design = sr_Design s\<rparr>"
  using assms by (auto simp: stored_where_def scanStoredScada_def validate_exact split: option.splits if_splits)

lemma found_screen: "find (\<lambda>s. sr_ID s = i) ss = Some s \<Longrightarrow> s \<in> set ss \<and> sr_ID s = i"
  by (auto simp: find_Some_iff)

lemma authorizedScadaPlant_in: "authorizedScadaPlant c i action db = Some p \<Longrightarrow> p \<in> set (rg_Plants (sc_Registry db))"
  by (auto simp: authorizedScadaPlant_def authorized_plant_def find_plant_info_def find_Some_iff split: option.splits if_splits)

lemma CreateScadaScreen_makes: "\<exists>ch. makes env draw ch db (fst (CreateScadaScreen env c draw input db))"
proof -
  have "makes env draw (Created (new_screen draw p name d)) db
      (sc_audit org action i (db\<lparr>sc_Screens := sc_Screens db @ [new_screen draw p name d]\<rparr>))"
    if "authorizedScadaPlant c plantID act db = Some p" "se_column env DefaultScadaDesign = Some d"
      "write_refused env (new_screen draw p name d) (sc_Screens db) = None" for p name d org action i plantID act
    using that authorizedScadaPlant_in [OF that(1)]
    by (auto simp: makes_def draft_ok_def rows_def [of db] rows_def [of "db\<lparr>sc_Screens := _\<rparr>"])
  then show ?thesis
    unfolding CreateScadaScreen_def Let_def
    by (simp split: option.split) (blast intro: makes_Unchanged)
qed

lemma write_draft_makes:
  assumes "write_draft env i name d0 db = Inr db'" and "design_ok env d0"
  shows "\<exists>d. makes env draw (Saved i name d) db db'"
  using assms by (auto simp: write_draft_def makes_def draft_ok_def change_screen_def rows_def split: option.splits if_splits)

lemma makes_audited: "makes env draw ch db db' \<Longrightarrow> makes env draw ch db (sc_audit org action i db')"
  by (simp add: makes_def)

lemma SaveScadaScreen_makes: "\<exists>ch. makes env draw ch db (fst (SaveScadaScreen env c i input db))"
  using makes_Unchanged
  by (auto simp: SaveScadaScreen_def Let_def validate_exact split: option.split sum.split
    dest!: write_draft_makes intro: makes_audited)

lemma add_publication_makes:
  assumes "add_publication p db = Inr db'" and "change_allowed env draw (Published p) db"
  shows "makes env draw (Published p) db db'"
  using assms by (auto simp: add_publication_def makes_def change_screen_def rows_def split: if_splits)

lemma PublishScadaScreen_Inr:
  assumes "PublishScadaScreen env c draw screenID input db = (db', Inr r)"
  obtains s p pub db1 where "scada_parseUUID env screenID = Some (sr_ID s)"
    and "find (\<lambda>t. sr_ID t = sr_ID s) (sc_Screens db) = Some s" and "design_ok env (sr_Design s)"
    and "sr_DraftVersion s = pi_DraftVersion input"
    and "pub = \<lparr>pb_ID = draw, pb_ScreenID = sr_ID s, pb_Version = next_version (sr_ID s) db,
               pb_SourceDraftVersion = sr_DraftVersion s, pb_Design = sr_Design s\<rparr>"
    and "add_publication pub db = Inr db1" and "db' = sc_audit (sr_OrganizationID s) ''scada_screen.published'' (sr_ID s) db1"
    and "ss_PublishedVersion r = next_version (sr_ID s) db" and "ps_Design r = sr_Design s"
proof -
  obtain i where i: "scada_parseUUID env screenID = Some i"
    using assms by (auto simp: PublishScadaScreen_def split: option.splits)
  obtain stored where stored: "getAuthorizedScadaScreen env c i ''publish'' db = Inr stored"
    using assms i by (auto simp: PublishScadaScreen_def split: if_splits sum.splits)
  obtain s p where s: "find (\<lambda>s. sr_ID s = i) (sc_Screens db) = Some s" "design_ok env (sr_Design s)"
    and eq: "stored = \<lparr>st_Summary = scanScadaSummary p s, st_Design = sr_Design s\<rparr>"
    using stored unfolding getAuthorizedScadaScreen_def by (rule stored_where_Inr)
  have [simp]: "i = sr_ID s" using found_screen [OF s(1)] by simp
  let ?pub = "\<lparr>pb_ID = draw, pb_ScreenID = sr_ID s, pb_Version = next_version (sr_ID s) db,
               pb_SourceDraftVersion = sr_DraftVersion s, pb_Design = sr_Design s\<rparr>"
  obtain db1 where "add_publication ?pub db = Inr db1"
    using assms i stored by (auto simp: PublishScadaScreen_def eq scanScadaSummary_def Let_def split: if_splits sum.splits)
  moreover from this have "sr_DraftVersion s = pi_DraftVersion input
      \<and> db' = sc_audit (sr_OrganizationID s) ''scada_screen.published'' (sr_ID s) db1
      \<and> ss_PublishedVersion r = next_version (sr_ID s) db \<and> ps_Design r = sr_Design s"
    using assms i stored by (auto simp: PublishScadaScreen_def eq scanScadaSummary_def publishedFromStored_def Let_def
      ScadaScreenSummary.defs PublishedScadaScreen.defs split: if_splits)
  ultimately show thesis using that [of s ?pub db1] i s by simp
qed

lemma PublishScadaScreen_makes: "\<exists>ch. makes env draw ch db (fst (PublishScadaScreen env c draw i input db))"
proof (cases "snd (PublishScadaScreen env c draw i input db)")
  case (Inl err)
  then have "fst (PublishScadaScreen env c draw i input db) = db"
    by (auto simp: PublishScadaScreen_def Let_def split: option.splits if_splits sum.splits)
  then show ?thesis using makes_Unchanged by metis
next
  case (Inr r)
  then have "PublishScadaScreen env c draw i input db = (fst (PublishScadaScreen env c draw i input db), Inr r)"
    by (simp add: prod_eq_iff)
  then obtain s p db1 where s: "find (\<lambda>t. sr_ID t = sr_ID s) (sc_Screens db) = Some s" "design_ok env (sr_Design s)"
    and p: "p = \<lparr>pb_ID = draw, pb_ScreenID = sr_ID s, pb_Version = next_version (sr_ID s) db,
        pb_SourceDraftVersion = sr_DraftVersion s, pb_Design = sr_Design s\<rparr>" and db1: "add_publication p db = Inr db1"
    and eq: "fst (PublishScadaScreen env c draw i input db) = sc_audit (sr_OrganizationID s) ''scada_screen.published'' (sr_ID s) db1"
    by (rule PublishScadaScreen_Inr)
  have "change_allowed env draw (Published p) db" using s by (auto simp: p)
  then show ?thesis unfolding eq using makes_audited [OF add_publication_makes [OF db1]] by blast
qed

lemma RollbackScadaScreen_makes: "\<exists>ch. makes env draw ch db (fst (RollbackScadaScreen env c i input db))"
proof -
  have "makes env draw (Selected j v) db (sc_audit org action a (change_screen j (select_version v) db))"
    if "getAuthorizedScadaScreen env c j act db = Inr stored" "getScadaPublication env stored v db = Inr result" "\<not> v < 1"
    for j v stored result org action a act
    using that unfolding getAuthorizedScadaScreen_def
    by (elim stored_where_Inr) (auto simp: getScadaPublication_def makes_def change_screen_def rows_def [of db]
      rows_def [of "db\<lparr>sc_Screens := _\<rparr>"] find_Some_iff scanScadaSummary_def split: option.splits)
  then show ?thesis
    unfolding RollbackScadaScreen_def Let_def
    by (simp split: option.split sum.split) (blast intro: makes_Unchanged)
qed

lemma HardDeleteScadaScreen_makes: "\<exists>ch. makes env draw ch db (fst (HardDeleteScadaScreen env c i confirmation db))"
proof -
  have "makes env draw (Deleted j) db ((sc_audit org action a db)\<lparr>sc_Screens := filter (\<lambda>s. sr_ID s \<noteq> j) (sc_Screens db),
      sc_Publications := filter (\<lambda>p. pb_ScreenID p \<noteq> j) (sc_Publications db)\<rparr>)" for j org action a
    by (simp add: makes_def rows_def sc_audit_def with_registry_def audit_def)
  then show ?thesis
    unfolding HardDeleteScadaScreen_def Let_def
    by (simp split: option.split sum.split) (blast intro: makes_Unchanged)
qed

lemma scada_perform_makes: "\<exists>ch. makes env draw ch db (scada_perform env c draw op db)"
  by (cases op) (simp_all add: CreateScadaScreen_makes SaveScadaScreen_makes PublishScadaScreen_makes
    RollbackScadaScreen_makes HardDeleteScadaScreen_makes)

subsection \<open>The invariant\<close>

text \<open>The publications of a screen are numbered from 1 without a gap; it selects one of them as soon as there is one.\<close>

definition own_publications :: "string \<Rightarrow> PublicationRow list \<Rightarrow> PublicationRow list" where
  "own_publications i ps = filter (\<lambda>p. pb_ScreenID p = i) ps"

definition numbered :: "int \<Rightarrow> PublicationRow list \<Rightarrow> bool" where
  "numbered selected ps \<longleftrightarrow>
     (\<exists>n. pb_Version ` set ps = {1..n} \<and> 0 \<le> selected \<and> selected \<le> n \<and> (selected = 0 \<longrightarrow> n = 0))"

definition screen_ok :: "ScadaEnv \<Rightarrow> Registry \<Rightarrow> PublicationRow list \<Rightarrow> ScreenRow \<Rightarrow> bool" where
  "screen_ok env reg ps s \<longleftrightarrow>
     screen_plant s reg \<noteq> None \<and> scada_name_length (sr_Name s) \<and> design_ok env (sr_Design s)
     \<and> 1 \<le> sr_DraftVersion s \<and> sr_DraftVersion s \<le> max_int4
     \<and> numbered (sr_PublishedVersion s) (own_publications (sr_ID s) ps)
     \<and> (\<forall>p \<in> set (own_publications (sr_ID s) ps). pb_SourceDraftVersion p \<le> sr_DraftVersion s)"

definition publication_ok :: "ScadaEnv \<Rightarrow> ScreenRow list \<Rightarrow> PublicationRow \<Rightarrow> bool" where
  "publication_ok env ss p \<longleftrightarrow> pb_ScreenID p \<in> sr_ID ` set ss \<and> design_ok env (pb_Design p) \<and> 1 \<le> pb_SourceDraftVersion p"

definition scada_rows_ok :: "ScadaEnv \<Rightarrow> Registry \<Rightarrow> string set \<Rightarrow> ScreenRow list \<Rightarrow> PublicationRow list \<Rightarrow> bool" where
  "scada_rows_ok env reg drawn ss ps \<longleftrightarrow>
     distinct (map sr_ID ss) \<and> distinct (map (name_key env) ss) \<and> sr_ID ` set ss \<subseteq> drawn
     \<and> distinct (map pb_ID ps) \<and> distinct (map (\<lambda>p. (pb_ScreenID p, pb_Version p)) ps) \<and> pb_ID ` set ps \<subseteq> drawn
     \<and> (\<forall>x \<in> set ss. screen_ok env reg ps x) \<and> (\<forall>p \<in> set ps. publication_ok env ss p)"

definition scada_ok :: "ScadaEnv \<Rightarrow> ScadaState \<Rightarrow> bool" where
  "scada_ok env s \<longleftrightarrow>
     scada_rows_ok env (sc_Registry (sx_Db s)) (sx_Drawn s) (sc_Screens (sx_Db s)) (sc_Publications (sx_Db s))"

text \<open>
  What the libraries promise: the document of an empty screen is short enough, and a column gives back an accepted
  design of a design that was accepted (it may write a number or a text in another way).
\<close>

definition scada_env_ok :: "ScadaEnv \<Rightarrow> bool" where
  "scada_env_ok env \<longleftrightarrow>
     (\<exists>n. se_marshal env DefaultScadaDesign = Some n \<and> n \<le> maxScadaDesign)
     \<and> (\<forall>d d'. design_ok env d \<longrightarrow> se_column env d = Some d' \<longrightarrow> design_ok env d')"

lemma default_frame: "scada_frame_ok DefaultScadaDesign"
  by (simp add: scada_frame_ok_def DefaultScadaDesign_def between_int_def finiteBetween_def f_of_int_exact zoom_min_def)

lemma default_design_ok:
  assumes "scada_env_ok env"
  shows "design_ok env DefaultScadaDesign"
proof -
  have "\<exists>n. se_marshal env DefaultScadaDesign = Some n \<and> n \<le> maxScadaDesign"
    using assms unfolding scada_env_ok_def by (rule conjunct1)
  moreover have "ds_Nodes DefaultScadaDesign = []" "ds_Edges DefaultScadaDesign = []" by (simp_all add: DefaultScadaDesign_def)
  ultimately show ?thesis
    using default_frame by (simp add: design_ok_def nested_in_containers_def parent_rel_def acyclic_def)
qed

lemma draft_ok_design: "scada_env_ok env \<Longrightarrow> draft_ok env d \<Longrightarrow> design_ok env d"
  using default_design_ok unfolding draft_ok_def scada_env_ok_def by blast

lemma write_accepted:
  assumes "write_refused env row others = None"
  shows "scada_name_length (sr_Name row) \<and> sr_ID row \<notin> sr_ID ` set others \<and> name_key env row \<notin> name_key env ` set others"
  using assms by (auto simp: write_refused_def list_ex_iff split: if_splits)

lemma scada_rows_ok_screen: "scada_rows_ok env reg D ss ps \<Longrightarrow> p \<in> set ps \<Longrightarrow> pb_ScreenID p \<in> sr_ID ` set ss"
  by (simp add: scada_rows_ok_def publication_ok_def)

lemma scada_rows_ok_unique: "scada_rows_ok env reg D ss ps \<Longrightarrow> s \<in> set ss \<Longrightarrow> t \<in> set ss \<Longrightarrow> sr_ID s = sr_ID t \<Longrightarrow> s = t"
  by (auto simp: scada_rows_ok_def distinct_map dest: inj_onD)

lemma new_screen_simps [simp]:
  "sr_ID (new_screen i p name d) = i" "sr_Name (new_screen i p name d) = name" "sr_Design (new_screen i p name d) = d"
  "sr_DraftVersion (new_screen i p name d) = 1" "sr_PublishedVersion (new_screen i p name d) = 0"
  by (simp_all add: new_screen_def)

lemma created_ok:
  assumes "scada_rows_ok env reg D ss ps" and "p \<in> set (rg_Plants reg)" and "draw \<notin> D" and "design_ok env d"
    and "write_refused env (new_screen draw p name d) ss = None"
  shows "scada_rows_ok env reg (insert draw D) (ss @ [new_screen draw p name d]) ps"
proof -
  have none: "own_publications draw ps = []"
    using assms(1,3) scada_rows_ok_screen [OF assms(1)] by (auto simp: own_publications_def filter_empty_conv scada_rows_ok_def)
  have "screen_plant (new_screen draw p name d) reg \<noteq> None"
    using assms(2) by (auto simp: screen_plant_def new_screen_def find_None_iff)
  then have "screen_ok env reg ps (new_screen draw p name d)"
    using write_accepted [OF assms(5)] assms(4) by (simp add: screen_ok_def max_int4_def none numbered_def)
  then show ?thesis
    using assms(1) write_accepted [OF assms(5)]
    by (auto simp: scada_rows_ok_def publication_ok_def)
qed

text \<open>One screen changes, and the publications may grow.\<close>

lemma updated_ok:
  assumes ok: "scada_rows_ok env reg D ss ps" and s: "find (\<lambda>s. sr_ID s = i) ss = Some s" and id: "\<And>x. sr_ID (f x) = sr_ID x"
    and name: "name_key env (f s) \<notin> name_key env ` set (filter (\<lambda>t. sr_ID t \<noteq> i) ss)"
    and one: "screen_ok env reg ps' (f s)" and others: "\<And>x. x \<in> set ss \<Longrightarrow> sr_ID x \<noteq> i \<Longrightarrow> screen_ok env reg ps' x"
    and pubs: "distinct (map pb_ID ps')" "distinct (map (\<lambda>p. (pb_ScreenID p, pb_Version p)) ps')" "pb_ID ` set ps' \<subseteq> D'"
      "\<forall>p \<in> set ps'. publication_ok env ss p" and D: "D \<subseteq> D'"
  shows "scada_rows_ok env reg D' (update_where (\<lambda>s. sr_ID s = i) f ss) ps'"
proof -
  let ?ss = "update_where (\<lambda>s. sr_ID s = i) f ss"
  have found: "x = s" if "x \<in> set ss" "sr_ID x = i" for x
    using scada_rows_ok_unique [OF ok that(1)] found_screen [OF s] that(2) by simp
  have ids: "map sr_ID ?ss = map sr_ID ss" by (rule update_where_map) (rule id)
  then have same: "sr_ID ` set ?ss = sr_ID ` set ss" by (metis list.set_map)
  have "\<forall>x \<in> set ss. sr_ID x = i \<longrightarrow> True \<longrightarrow> (\<forall>y \<in> set ss. sr_ID y \<noteq> i \<longrightarrow> name_key env y \<noteq> name_key env (f x))"
    using found name by (auto simp: image_iff)
  then have "distinct (filter (\<lambda>_. True) (map (name_key env) ?ss))"
    using ok id by (intro update_where_key_distinct) (simp_all add: scada_rows_ok_def)
  moreover have "\<forall>x \<in> set ?ss. screen_ok env reg ps' x"
    using one others found by (auto simp: set_update_where)
  moreover have "\<forall>p \<in> set ps'. publication_ok env ?ss p"
    using pubs(4) by (simp add: publication_ok_def same)
  ultimately show ?thesis
    using ok D pubs by (auto simp: scada_rows_ok_def ids same)
qed

lemma screen_ok_filter:
  "own_publications (sr_ID x) ps' = own_publications (sr_ID x) ps \<Longrightarrow> screen_ok env reg ps' x = screen_ok env reg ps x"
  by (simp add: screen_ok_def)

lemma scada_rows_ok_found: "scada_rows_ok env reg D ss ps \<Longrightarrow> find (\<lambda>s. sr_ID s = i) ss = Some s \<Longrightarrow> screen_ok env reg ps s"
  using found_screen by (fastforce simp: scada_rows_ok_def)

lemma scada_rows_ok_publications:
  assumes "scada_rows_ok env reg D ss ps"
  shows "distinct (map pb_ID ps)" "distinct (map (\<lambda>p. (pb_ScreenID p, pb_Version p)) ps)" "pb_ID ` set ps \<subseteq> D"
    "\<forall>p \<in> set ps. publication_ok env ss p" "\<And>x. x \<in> set ss \<Longrightarrow> screen_ok env reg ps x"
  using assms by (simp_all add: scada_rows_ok_def)

lemma saved_ok:
  assumes "scada_rows_ok env reg D ss ps" and "find (\<lambda>s. sr_ID s = i) ss = Some s" and "sr_DraftVersion s < max_int4"
    and "design_ok env d" and "write_refused env (saved_draft name d s) (filter (\<lambda>t. sr_ID t \<noteq> i) ss) = None"
  shows "scada_rows_ok env reg D (update_where (\<lambda>s. sr_ID s = i) (saved_draft name d) ss) ps"
proof (rule updated_ok [OF assms(1,2)])
  show "screen_ok env reg ps (saved_draft name d s)"
    using scada_rows_ok_found [OF assms(1,2)] assms(3,4) write_accepted [OF assms(5)]
    by (force simp: screen_ok_def saved_draft_def screen_plant_def)
qed (use scada_rows_ok_publications [OF assms(1)] write_accepted [OF assms(5)] in \<open>simp_all add: saved_draft_def\<close>)

text \<open>Selecting a version leaves name and place of a screen.\<close>

lemma selected_key [simp]: "name_key env (select_version v s) = name_key env s" "sr_ID (select_version v s) = sr_ID s"
  by (simp_all add: name_key_def select_version_def)

lemma own_key:
  assumes "scada_rows_ok env reg D ss ps" and "find (\<lambda>s. sr_ID s = i) ss = Some s"
  shows "name_key env s \<notin> name_key env ` set (filter (\<lambda>t. sr_ID t \<noteq> i) ss)"
proof
  assume "name_key env s \<in> name_key env ` set (filter (\<lambda>t. sr_ID t \<noteq> i) ss)"
  then obtain t where "t \<in> set ss" "sr_ID t \<noteq> i" "name_key env t = name_key env s" by auto
  then show False
    using assms(1) found_screen [OF assms(2)] by (auto simp: scada_rows_ok_def distinct_map dest: inj_onD)
qed

lemma selected_ok:
  assumes "scada_rows_ok env reg D ss ps" and "find (\<lambda>s. sr_ID s = i) ss = Some s"
    and "p \<in> set ps" and "pb_ScreenID p = i" and "pb_Version p = v" and "1 \<le> v"
  shows "scada_rows_ok env reg D (update_where (\<lambda>s. sr_ID s = i) (select_version v) ss) ps"
proof (rule updated_ok [OF assms(1,2)])
  have "sr_ID s = i" using found_screen [OF assms(2)] by simp
  then have "v \<in> pb_Version ` set (own_publications (sr_ID s) ps)" using assms(3-5) by (auto simp: own_publications_def)
  then have "numbered v (own_publications (sr_ID s) ps)"
    using scada_rows_ok_found [OF assms(1,2)] assms(6) unfolding screen_ok_def numbered_def by force
  then show "screen_ok env reg ps (select_version v s)"
    using scada_rows_ok_found [OF assms(1,2)] by (simp add: screen_ok_def select_version_def screen_plant_def)
qed (use scada_rows_ok_publications [OF assms(1)] own_key [OF assms(1,2)] in simp_all)

lemma fold_max: "fold max xs (a :: int) = Max (insert a (set xs))"
  by (metis Max.set_eq_fold list.simps(15))

lemma next_version_numbered:
  assumes "pb_Version ` set (own_publications i (sc_Publications db)) = {1..n}" and "0 \<le> n"
  shows "next_version i db = n + 1"
proof -
  have "Max (insert 0 {1..n}) = n"
    using assms(2) by (intro Max_eqI) auto
  then show ?thesis
    using assms(1) by (simp add: next_version_def fold_max own_publications_def [symmetric])
qed

lemma published_ok:
  assumes ok: "scada_rows_ok env reg D ss ps" and s: "find (\<lambda>s. sr_ID s = i) ss = Some s" and "draw \<notin> D"
    and db: "ss = sc_Screens db" "ps = sc_Publications db"
    and p: "p = \<lparr>pb_ID = draw, pb_ScreenID = i, pb_Version = next_version i db,
               pb_SourceDraftVersion = sr_DraftVersion s, pb_Design = sr_Design s\<rparr>"
  shows "scada_rows_ok env reg (insert draw D) (update_where (\<lambda>s. sr_ID s = i) (select_version (next_version i db)) ss) (ps @ [p])"
proof (rule updated_ok [OF ok s])
  have i: "sr_ID s = i" using found_screen [OF s] by simp
  have sok: "screen_ok env reg ps s" using scada_rows_ok_found [OF ok s] .
  then obtain n where n: "pb_Version ` set (own_publications i ps) = {1..n}" "0 \<le> n"
    by (auto simp: screen_ok_def numbered_def i)
  then have v: "next_version i db = n + 1" using next_version_numbered db(2) by simp
  have pv: "pb_Version p = n + 1" "pb_SourceDraftVersion p = sr_DraftVersion s" by (simp_all add: p v)
  have own: "own_publications i (ps @ [p]) = own_publications i ps @ [p]" by (simp add: own_publications_def p)
  have "{1..n + 1} = insert (n + 1) {1..n}" using n(2) by auto
  then have "numbered (n + 1) (own_publications i (ps @ [p]))"
    unfolding numbered_def own using n pv(1) by (intro exI [of _ "n + 1"]) simp
  then show "screen_ok env reg (ps @ [p]) (select_version (next_version i db) s)"
    using sok pv(2) by (auto simp: screen_ok_def select_version_def screen_plant_def i own v)
  show "screen_ok env reg (ps @ [p]) x" if "x \<in> set ss" "sr_ID x \<noteq> i" for x
    using scada_rows_ok_publications(5) [OF ok that(1)] that(2) screen_ok_filter [of x "ps @ [p]" ps]
    by (simp add: own_publications_def p)
  have "(i, n + 1) \<notin> (\<lambda>p. (pb_ScreenID p, pb_Version p)) ` set ps"
    using n(1) by (force simp: own_publications_def)
  then show "distinct (map (\<lambda>p. (pb_ScreenID p, pb_Version p)) (ps @ [p]))"
    using scada_rows_ok_publications(2) [OF ok] by (simp add: p v)
  have "publication_ok env ss p"
    using sok found_screen [OF s] by (auto simp: publication_ok_def p screen_ok_def)
  then show "\<forall>q \<in> set (ps @ [p]). publication_ok env ss q"
    using scada_rows_ok_publications(4) [OF ok] by simp
qed (use scada_rows_ok_publications(1,3) [OF ok] own_key [OF ok s] assms(3) in \<open>auto simp: p\<close>)

text \<open>Screens go, and their publications with them.\<close>

lemma dropped_ok:
  assumes ok: "scada_rows_ok env reg D ss ps" and "\<forall>s \<in> set ss. keep s \<longrightarrow> screen_plant s reg' \<noteq> None"
    and ps': "ps' = filter (\<lambda>q. pb_ScreenID q \<in> sr_ID ` set (filter keep ss)) ps"
  shows "scada_rows_ok env reg' D (filter keep ss) ps'"
proof -
  have "screen_ok env reg' ps' x" if "x \<in> set ss" "keep x" for x
  proof -
    have "own_publications (sr_ID x) ps' = own_publications (sr_ID x) ps"
      using that by (auto simp: own_publications_def ps' intro!: filter_cong)
    then show ?thesis using scada_rows_ok_publications(5) [OF ok that(1)] assms(2) that by (simp add: screen_ok_def)
  qed
  moreover have "\<forall>p \<in> set ps'. publication_ok env (filter keep ss) p"
    using scada_rows_ok_publications(4) [OF ok] by (auto simp: publication_ok_def ps')
  ultimately show ?thesis
    using ok by (auto simp: scada_rows_ok_def ps' intro: distinct_map_filter)
qed

lemma scada_rows_ok_mono:
  assumes "scada_rows_ok env reg D ss ps" and "D \<subseteq> D'" and "rg_Plants reg' = rg_Plants reg"
  shows "scada_rows_ok env reg' D' ss ps"
  using assms by (auto simp: scada_rows_ok_def screen_ok_def screen_plant_def)

lemma makes_ok:
  assumes env: "scada_env_ok env" and ok: "scada_ok env s" and draw: "draw \<notin> sx_Drawn s" and m: "makes env draw ch (sx_Db s) db'"
  shows "scada_ok env (s\<lparr>sx_Db := db', sx_Drawn := insert draw (sx_Drawn s)\<rparr>)"
proof -
  let ?db = "sx_Db s" and ?D = "sx_Drawn s"
  have rows: "(sc_Screens db', sc_Publications db') = changed_rows ch (sc_Screens ?db, sc_Publications ?db)"
    and plants: "rg_Plants (sc_Registry db') = rg_Plants (sc_Registry ?db)"
    using m by (simp_all add: makes_def rows_def)
  have old: "scada_rows_ok env (sc_Registry ?db) ?D (sc_Screens ?db) (sc_Publications ?db)" using ok by (simp add: scada_ok_def)
  have "scada_rows_ok env (sc_Registry ?db) (insert draw ?D) (sc_Screens db') (sc_Publications db')"
  proof (cases ch)
    case Unchanged
    then show ?thesis using rows scada_rows_ok_mono [OF old subset_insertI refl] by simp
  next
    case (Created row)
    have "change_allowed env draw (Created row) ?db" using m Created by (simp add: makes_def)
    then obtain p name d where "p \<in> set (rg_Plants (sc_Registry ?db))" "row = new_screen draw p name d" "draft_ok env d"
      "write_refused env row (sc_Screens ?db) = None"
      by auto
    then show ?thesis using created_ok [OF old _ draw] draft_ok_design [OF env] rows Created by simp
  next
    case (Saved i name d)
    have "change_allowed env draw (Saved i name d) ?db" using m Saved by (simp add: makes_def)
    then obtain t where t: "find (\<lambda>t. sr_ID t = i) (sc_Screens ?db) = Some t" "sr_DraftVersion t < max_int4" "draft_ok env d"
      "write_refused env (saved_draft name d t) (filter (\<lambda>t. sr_ID t \<noteq> i) (sc_Screens ?db)) = None"
      by auto
    show ?thesis
      using scada_rows_ok_mono [OF saved_ok [OF old t(1,2) draft_ok_design [OF env t(3)] t(4)] subset_insertI refl] rows Saved
      by simp
  next
    case (Published p)
    have "change_allowed env draw (Published p) ?db" using m Published by (simp add: makes_def)
    then obtain t where t: "find (\<lambda>t. sr_ID t = pb_ScreenID p) (sc_Screens ?db) = Some t"
      and p: "p = \<lparr>pb_ID = draw, pb_ScreenID = sr_ID t, pb_Version = next_version (sr_ID t) ?db,
               pb_SourceDraftVersion = sr_DraftVersion t, pb_Design = sr_Design t\<rparr>"
      unfolding change_allowed.simps by (elim exE conjE)
    have "pb_ScreenID p = sr_ID t" "pb_Version p = next_version (sr_ID t) ?db" by (subst p, simp)+
    then show ?thesis
      using published_ok [OF old t draw refl refl] p rows Published by simp
  next
    case (Selected i v)
    then obtain p where p: "p \<in> set (sc_Publications ?db)" "pb_ScreenID p = i" "pb_Version p = v" "1 \<le> v"
      using m by (auto simp: makes_def)
    then obtain t where "find (\<lambda>t. sr_ID t = i) (sc_Screens ?db) = Some t"
      using scada_rows_ok_screen [OF old p(1)] by (cases "find (\<lambda>t. sr_ID t = i) (sc_Screens ?db)") (auto simp: find_None_iff)
    then show ?thesis using rows Selected scada_rows_ok_mono [OF selected_ok [OF old _ p] subset_insertI refl] by simp
  next
    case (Deleted i)
    have "scada_rows_ok env (sc_Registry ?db) ?D (filter (\<lambda>s. sr_ID s \<noteq> i) (sc_Screens ?db))
        (filter (\<lambda>p. pb_ScreenID p \<noteq> i) (sc_Publications ?db))"
    proof (rule dropped_ok [OF old])
      show "\<forall>s \<in> set (sc_Screens ?db). sr_ID s \<noteq> i \<longrightarrow> screen_plant s (sc_Registry ?db) \<noteq> None"
        using scada_rows_ok_publications(5) [OF old] by (simp add: screen_ok_def)
      show "filter (\<lambda>p. pb_ScreenID p \<noteq> i) (sc_Publications ?db) = filter (\<lambda>q. pb_ScreenID q
          \<in> sr_ID ` set (filter (\<lambda>s. sr_ID s \<noteq> i) (sc_Screens ?db))) (sc_Publications ?db)"
        using scada_rows_ok_screen [OF old] by (intro filter_cong) auto
    qed
    then show ?thesis using rows Deleted scada_rows_ok_mono [OF _ subset_insertI refl] by simp
  qed
  then show ?thesis using plants by (auto simp: scada_ok_def intro: scada_rows_ok_mono)
qed

subsection \<open>What later states still know\<close>

text \<open>
  \<open>evolves D\<close>: a screen whose id was drawn before was there before, a draft with the version it had then is the
  draft it was then, and the publications of a screen stay with it.
\<close>

fun evolves :: "string set \<Rightarrow> ScreenRow list \<times> PublicationRow list \<Rightarrow> ScreenRow list \<times> PublicationRow list \<Rightarrow> bool" where
  "evolves D (ss, ps) (ss', ps') \<longleftrightarrow>
     (\<forall>y \<in> set ss'. sr_ID y \<in> D \<longrightarrow> (\<exists>x \<in> set ss. sr_ID x = sr_ID y \<and> sr_DraftVersion x \<le> sr_DraftVersion y
        \<and> (sr_DraftVersion x = sr_DraftVersion y \<longrightarrow> sr_Design x = sr_Design y \<and> sr_Name x = sr_Name y)))
     \<and> (\<forall>p \<in> set ps. pb_ScreenID p \<in> sr_ID ` set ss' \<longrightarrow> p \<in> set ps')"

lemma evolves_refl: "evolves D r r"
  by (cases r) auto

lemma evolves_trans:
  assumes "evolves D (ss, ps) (ss', ps')" and "evolves D' (ss', ps') (ss2, ps2)" and "D \<subseteq> D'" and "\<forall>p \<in> set ps. pb_ScreenID p \<in> D"
  shows "evolves D (ss, ps) (ss2, ps2)"
proof -
  have origin: "\<exists>y \<in> set ss'. sr_ID y = sr_ID z \<and> sr_DraftVersion y \<le> sr_DraftVersion z
      \<and> (sr_DraftVersion y = sr_DraftVersion z \<longrightarrow> sr_Design y = sr_Design z \<and> sr_Name y = sr_Name z)"
    if "z \<in> set ss2" "sr_ID z \<in> D" for z
    using assms(2,3) that by auto
  have "\<exists>x \<in> set ss. sr_ID x = sr_ID z \<and> sr_DraftVersion x \<le> sr_DraftVersion z
      \<and> (sr_DraftVersion x = sr_DraftVersion z \<longrightarrow> sr_Design x = sr_Design z \<and> sr_Name x = sr_Name z)"
    if z: "z \<in> set ss2" "sr_ID z \<in> D" for z
  proof -
    obtain y where y: "y \<in> set ss'" "sr_ID y = sr_ID z" "sr_DraftVersion y \<le> sr_DraftVersion z"
      "sr_DraftVersion y = sr_DraftVersion z \<longrightarrow> sr_Design y = sr_Design z \<and> sr_Name y = sr_Name z"
      using origin [OF z] by blast
    then obtain x where "x \<in> set ss" "sr_ID x = sr_ID y" "sr_DraftVersion x \<le> sr_DraftVersion y"
      "sr_DraftVersion x = sr_DraftVersion y \<longrightarrow> sr_Design x = sr_Design y \<and> sr_Name x = sr_Name y"
      using assms(1) z(2) by auto
    then show ?thesis using y by (intro bexI [of _ x]) auto
  qed
  moreover have "p \<in> set ps2" if p: "p \<in> set ps" "pb_ScreenID p \<in> sr_ID ` set ss2" for p
  proof -
    obtain z where z: "z \<in> set ss2" "pb_ScreenID p = sr_ID z" using p(2) by blast
    then have "sr_ID z \<in> D" using assms(4) p(1) by metis
    then have "pb_ScreenID p \<in> sr_ID ` set ss'" using origin [OF z(1)] z(2) by (metis imageI)
    then show ?thesis using assms(1,2) p by simp
  qed
  ultimately show ?thesis by simp
qed

lemma changed_evolves:
  assumes "change_allowed env draw ch db" and "draw \<notin> D"
  shows "evolves D (rows db) (changed_rows ch (rows db))"
proof (cases ch)
  case (Created row)
  then show ?thesis using assms by (auto simp: rows_def)
next
  case (Saved i name d)
  then show ?thesis by (force simp: rows_def set_update_where saved_draft_def)
next
  case (Published p)
  then show ?thesis by (force simp: rows_def set_update_where select_version_def)
next
  case (Selected i v)
  then show ?thesis by (force simp: rows_def set_update_where select_version_def)
qed (auto simp: rows_def)

definition follows :: "ScadaEnv \<Rightarrow> ScadaState \<Rightarrow> ScadaState \<Rightarrow> bool" where
  "follows env s t \<longleftrightarrow> scada_ok env t \<and> sx_Drawn s \<subseteq> sx_Drawn t \<and> evolves (sx_Drawn s) (rows (sx_Db s)) (rows (sx_Db t))"

lemma operation_follows:
  assumes "scada_env_ok env" and "scada_ok env s" and "draw \<notin> sx_Drawn s" and "makes env draw ch (sx_Db s) db'"
  shows "follows env s (s\<lparr>sx_Db := db', sx_Drawn := insert draw (sx_Drawn s)\<rparr>)"
  using makes_ok [OF assms] changed_evolves [of env draw ch "sx_Db s" "sx_Drawn s"] assms(3,4)
  by (auto simp: follows_def makes_def)

lemma platform_follows:
  assumes "scada_ok env s"
  shows "follows env s (s\<lparr>sx_Db := with_platform p (sx_Db s)\<rparr>)"
proof -
  have "scada_rows_ok env (pl_Registry p) (sx_Drawn s) (sc_Screens (with_platform p (sx_Db s)))
      (sc_Publications (with_platform p (sx_Db s)))"
    unfolding with_platform_def Let_def ScadaDb.select_convs
    by (rule dropped_ok [OF assms [unfolded scada_ok_def]]) (auto simp: list_ex_iff image_iff intro!: filter_cong)
  then show ?thesis
    by (auto simp: follows_def scada_ok_def rows_def with_platform_def Let_def list_ex_iff)
qed

lemma step_follows:
  assumes "scada_step env s t" and "scada_env_ok env" and "scada_ok env s"
  shows "follows env s t"
  using assms(1)
proof cases
  case (screen draw c op)
  then show ?thesis using operation_follows [OF assms(2,3)] scada_perform_makes [of env draw "sx_Db s" c op] by auto
next
  case (platform p)
  then show ?thesis using platform_follows [OF assms(3)] by simp
qed

lemma reach_follows:
  assumes "scada_reach env s t" and "scada_env_ok env" and "scada_ok env s"
  shows "follows env s t"
  using assms
proof (induction rule: scada_reach.induct)
  case (start s)
  then show ?case by (simp add: follows_def evolves_refl)
next
  case (step s t u)
  have st: "follows env s t" using step by simp
  then have tu: "follows env t u" using step_follows step by (simp add: follows_def)
  have "\<forall>p \<in> set (sc_Publications (sx_Db s)). pb_ScreenID p \<in> sx_Drawn s"
    using step.prems(2) by (auto simp: scada_ok_def scada_rows_ok_def publication_ok_def)
  then have "evolves (sx_Drawn s) (rows (sx_Db s)) (rows (sx_Db u))"
    using evolves_trans st tu unfolding follows_def rows_def by blast
  then show ?case using st tu by (auto simp: follows_def)
qed

subsection \<open>A small plant\<close>

definition sample_scada_env :: ScadaEnv where
  "sample_scada_env =
     \<lparr>se_uuid = Some, se_location = (\<lambda>_. True), se_url = (\<lambda>_. None), se_marshal = (\<lambda>_. Some 100),
      se_column = Some, se_lower = to_lower\<rparr>"

definition sample_caller :: CoreEnv where
  "sample_caller =
     \<lparr>ce_perm = (\<lambda>_ _ _ _. True), ce_any = (\<lambda>_ _. True), ce_global = (\<lambda>_ _. True), ce_organization = Some ''o'',
      ce_uuid = (\<lambda>_. ''u''), ce_models = (\<lambda>x. x), ce_plants = (\<lambda>x. x), ce_devices = (\<lambda>x. x), ce_location = (\<lambda>_. True),
      ce_notify_role = (\<lambda>_ _. True), ce_numeric = Some\<rparr>"

definition sample_scada_plant :: PlantInfo where
  "sample_scada_plant =
     \<lparr>pn_ID = ''p'', pn_OrganizationID = ''o'', pn_Code = ''P'', pn_Name = ''Plant'', pn_Timezone = ''UTC'',
      pn_Latitude = None, pn_Longitude = None, pn_InstalledDcKW = None, pn_InstalledAcKW = None,
      pn_LifecycleStatus = ''OPERATIONAL'', pn_IsActive = True, pn_AlarmEmail = False, pn_AlarmRole = None\<rparr>"

definition sample_screen :: ScreenRow where
  "sample_screen = new_screen ''s'' sample_scada_plant ''Main'' DefaultScadaDesign"

definition sample_scada :: ScadaState where
  "sample_scada =
     \<lparr>sx_Db = \<lparr>sc_Platform = with_registry (\<lambda>reg. reg\<lparr>rg_Plants := [sample_scada_plant]\<rparr>) empty_platform,
        sc_Screens = [sample_screen], sc_Publications = []\<rparr>, sx_Drawn = {''s''}\<rparr>"

lemma sample_scada_env_ok: "scada_env_ok sample_scada_env"
  by (simp add: scada_env_ok_def sample_scada_env_def maxScadaDesign_def)

lemma sample_scada_ok: "scada_ok sample_scada_env sample_scada"
proof -
  have "scada_name_length ''Main''" by code_simp
  then show ?thesis
    using default_design_ok [OF sample_scada_env_ok]
    by (simp add: scada_ok_def scada_rows_ok_def sample_scada_def screen_ok_def sample_screen_def max_int4_def
      own_publications_def numbered_def screen_plant_def with_registry_def new_screen_def sample_scada_plant_def)
qed

definition sample_published :: "ScadaDb \<times> (ScadaError + PublishedScadaScreen)" where
  "sample_published = PublishScadaScreen sample_scada_env sample_caller ''d'' ''s''
     \<lparr>pi_DraftVersion = 1, pi_PublishedVersion = 0\<rparr> (sx_Db sample_scada)"

text \<open>The evaluation rests on \<open>validate_exact\<close>: the forest check itself is not unfolded.\<close>

lemmas scada_eval = stored_where_def getAuthorizedScadaScreen_def scanStoredScada_def scanScadaSummary_def
  validate_exact default_design_ok [OF sample_scada_env_ok] hasScadaScopePermission_def screen_plant_def
  new_screen_def with_registry_def change_screen_def select_version_def publishedFromStored_def
  PublishedScadaScreen.defs ScadaScreen.defs ScadaScreenSummary.defs sc_audit_def audit_def Let_def

lemma sample_id: "scada_parseUUID sample_scada_env ''s'' = Some ''s''"
  by code_simp

lemma sample_published_done:
  "\<exists>r. sample_published = (fst sample_published, Inr r) \<and> ss_PublishedVersion r = 1"
  by (simp add: sample_published_def PublishScadaScreen_def scada_eval add_publication_def next_version_def
    sample_scada_def sample_screen_def sample_scada_plant_def sample_caller_def sample_id max_int4_def)

subsection \<open>The properties of the screens\<close>

text \<open>C14: In every reachable state the SCADA tables are in order, whatever callers do to screens and the rest of the
  platform does to its plants: ids and names are unique, every draft and every publication is a design the
  validation accepts, the publications of a screen are numbered from 1 without a gap, and a screen shows one of them
  as soon as it has one.\<close>

theorem scada_reachable_ok:
  assumes "scada_reach env s t" and "scada_env_ok env" and "scada_ok env s"
  shows "scada_ok env t"
  using reach_follows [OF assms] by (simp add: follows_def)

theorem scada_reachable_ok_witness:
  "scada_ok sample_scada_env
     (sample_scada\<lparr>sx_Db := scada_perform sample_scada_env sample_caller ''d''
        (OpPublishScreen ''s'' \<lparr>pi_DraftVersion = 1, pi_PublishedVersion = 0\<rparr>) (sx_Db sample_scada),
      sx_Drawn := insert ''d'' (sx_Drawn sample_scada)\<rparr>)"
proof (rule scada_reachable_ok [OF scada_reach.step [OF scada_reach.start scada_step.screen] sample_scada_env_ok sample_scada_ok])
  show "''d'' \<notin> sx_Drawn sample_scada" by (simp add: sample_scada_def)
qed

lemma Service_ScadaScreen_Inr:
  assumes "Service_ScadaScreen env c screenID db = Inr seen"
  obtains x where "scada_parseUUID env screenID = Some (sr_ID x)" and "x \<in> set (sc_Screens db)"
    and "ss_DraftVersion seen = sr_DraftVersion x" and "ss_Design seen = sr_Design x"
proof -
  obtain i stored where i: "scada_parseUUID env screenID = Some i"
    and stored: "getAuthorizedScadaScreen env c i ''view'' db = Inr stored"
    and seen: "seen = fillScadaCapabilities c (screenFromStored stored)"
    using assms by (auto simp: Service_ScadaScreen_def split: option.splits sum.splits)
  obtain s p where s: "find (\<lambda>s. sr_ID s = i) (sc_Screens db) = Some s"
    and eq: "stored = \<lparr>st_Summary = scanScadaSummary p s, st_Design = sr_Design s\<rparr>"
    using stored unfolding getAuthorizedScadaScreen_def by (rule stored_where_Inr)
  show thesis
    by (rule that [of s]) (use found_screen [OF s] i in \<open>simp_all add: seen eq fillScadaCapabilities_def screenFromStored_def
      scanScadaSummary_def ScadaScreen.defs ScadaScreenSummary.defs Let_def\<close>)
qed

lemma Service_PublishedScadaScreen_Inr:
  assumes "Service_PublishedScadaScreen env c screenID db = Inr q"
  obtains z p where "scada_parseUUID env screenID = Some (sr_ID z)" and "z \<in> set (sc_Screens db)" and "p \<in> set (sc_Publications db)"
    and "pb_ScreenID p = sr_ID z" and "pb_Version p = ss_PublishedVersion q"
    and "ps_Design q = pb_Design p" and "ps_SourceDraftVersion q = pb_SourceDraftVersion p"
proof -
  obtain i stored where i: "scada_parseUUID env screenID = Some i"
    and stored: "getAuthorizedScadaScreen env c i ''view'' db = Inr stored"
    and q: "getScadaPublication env stored (ss_PublishedVersion (st_Summary stored)) db = Inr q"
    using assms by (auto simp: Service_PublishedScadaScreen_def split: option.splits sum.splits if_splits)
  obtain s p where s: "find (\<lambda>s. sr_ID s = i) (sc_Screens db) = Some s"
    and eq: "stored = \<lparr>st_Summary = scanScadaSummary p s, st_Design = sr_Design s\<rparr>"
    using stored unfolding getAuthorizedScadaScreen_def by (rule stored_where_Inr)
  obtain p' where p': "find (\<lambda>p. pb_ScreenID p = sr_ID s \<and> pb_Version p = sr_PublishedVersion s) (sc_Publications db) = Some p'"
    "q = publishedFromStored (stored\<lparr>st_Summary := (st_Summary stored)\<lparr>ss_PublishedVersion := sr_PublishedVersion s\<rparr>\<rparr>)
       (pb_SourceDraftVersion p') (pb_Design p')"
    using q by (auto simp: getScadaPublication_def eq scanScadaSummary_def split: option.splits if_splits)
  have "p' \<in> set (sc_Publications db)" "pb_ScreenID p' = sr_ID s" "pb_Version p' = sr_PublishedVersion s"
    using p'(1) by (auto simp: find_Some_iff)
  then show thesis
    using that [of s p'] found_screen [OF s] i
    by (simp add: p'(2) publishedFromStored_def PublishedScadaScreen.defs ScadaScreenSummary.defs)
qed

lemma same_draft:
  assumes "scada_ok env s" and "follows env s t" and "x \<in> set (sc_Screens (sx_Db s))" and "y \<in> set (sc_Screens (sx_Db t))"
    and "sr_ID x = sr_ID y" and "sr_DraftVersion x = sr_DraftVersion y"
  shows "sr_Design x = sr_Design y"
proof -
  have "sr_ID y \<in> sx_Drawn s" using assms(1,3,5) by (auto simp: scada_ok_def scada_rows_ok_def)
  then obtain x' where x': "x' \<in> set (sc_Screens (sx_Db s))" "sr_ID x' = sr_ID y"
    "sr_DraftVersion x' = sr_DraftVersion y \<longrightarrow> sr_Design x' = sr_Design y"
    using assms(2,4) by (auto simp: follows_def rows_def)
  then have "x' = x" using scada_rows_ok_unique [OF assms(1) [unfolded scada_ok_def] x'(1) assms(3)] assms(5) by simp
  then show ?thesis using x'(3) assms(6) by simp
qed

lemma publication_stays:
  assumes "follows env t u" and "p \<in> set (sc_Publications (sx_Db t))" and "z \<in> set (sc_Screens (sx_Db u))" and "pb_ScreenID p = sr_ID z"
    and "q \<in> set (sc_Publications (sx_Db u))" and "pb_ScreenID q = sr_ID z" and "pb_Version q = pb_Version p"
  shows "q = p"
proof -
  have "p \<in> set (sc_Publications (sx_Db u))" using assms(1-4) by (auto simp: follows_def rows_def)
  moreover have "distinct (map (\<lambda>p. (pb_ScreenID p, pb_Version p)) (sc_Publications (sx_Db u)))"
    using assms(1) by (simp add: follows_def scada_ok_def scada_rows_ok_def)
  ultimately show ?thesis
    using assms(4-7) inj_onD [of "\<lambda>p. (pb_ScreenID p, pb_Version p)" "set (sc_Publications (sx_Db u))" q p]
    by (simp add: distinct_map)
qed

text \<open>C13: What is published is what was looked at. When a caller publishes naming the draft version of a screen he
  read, in whatever state that was, then whoever reads the published screen later, as long as it shows that
  version, gets the design he read, whatever saves, publications and rollbacks ran before and after.\<close>

theorem published_as_reviewed:
  assumes "scada_env_ok env" and "scada_ok env s"
    and "Service_ScadaScreen env reader screenID (sx_Db s) = Inr seen"
    and "scada_reach env s t"
    and "PublishScadaScreen env publisher draw screenID input (sx_Db t) = (db', Inr result)"
    and "pi_DraftVersion input = ss_DraftVersion seen" and "draw \<notin> sx_Drawn t"
    and "scada_reach env (t\<lparr>sx_Db := db', sx_Drawn := insert draw (sx_Drawn t)\<rparr>) u"
    and "Service_PublishedScadaScreen env viewer screenID (sx_Db u) = Inr shown"
    and "ss_PublishedVersion shown = ss_PublishedVersion result"
  shows "ps_Design shown = ss_Design seen \<and> ps_SourceDraftVersion shown = ss_DraftVersion seen"
proof -
  let ?t' = "t\<lparr>sx_Db := db', sx_Drawn := insert draw (sx_Drawn t)\<rparr>"
  have st: "follows env s t" by (rule reach_follows [OF assms(4,1,2)])
  obtain x where x: "scada_parseUUID env screenID = Some (sr_ID x)" "x \<in> set (sc_Screens (sx_Db s))"
    "ss_DraftVersion seen = sr_DraftVersion x" "ss_Design seen = sr_Design x"
    using assms(3) by (rule Service_ScadaScreen_Inr)
  obtain y pub db1 where y: "scada_parseUUID env screenID = Some (sr_ID y)"
      "find (\<lambda>t. sr_ID t = sr_ID y) (sc_Screens (sx_Db t)) = Some y" "design_ok env (sr_Design y)" "sr_DraftVersion y = pi_DraftVersion input"
    and pub: "pub = \<lparr>pb_ID = draw, pb_ScreenID = sr_ID y, pb_Version = next_version (sr_ID y) (sx_Db t),
               pb_SourceDraftVersion = sr_DraftVersion y, pb_Design = sr_Design y\<rparr>"
    and db1: "add_publication pub (sx_Db t) = Inr db1" "db' = sc_audit (sr_OrganizationID y) ''scada_screen.published'' (sr_ID y) db1"
    and result: "ss_PublishedVersion result = next_version (sr_ID y) (sx_Db t)"
    using assms(5) by (rule PublishScadaScreen_Inr)
  obtain z p where z: "scada_parseUUID env screenID = Some (sr_ID z)" "z \<in> set (sc_Screens (sx_Db u))"
      "p \<in> set (sc_Publications (sx_Db u))" "pb_ScreenID p = sr_ID z" "pb_Version p = ss_PublishedVersion shown"
      "ps_Design shown = pb_Design p" "ps_SourceDraftVersion shown = pb_SourceDraftVersion p"
    using assms(9) by (rule Service_PublishedScadaScreen_Inr)
  have "change_allowed env draw (Published pub) (sx_Db t)" using y(2,3) by (auto simp: pub)
  then have m: "makes env draw (Published pub) (sx_Db t) db'"
    unfolding db1(2) by (intro makes_audited add_publication_makes [OF db1(1)])
  have tt': "follows env t ?t'"
    by (rule operation_follows [OF assms(1) _ assms(7) m]) (use st in \<open>simp add: follows_def\<close>)
  have "follows env ?t' u"
    by (rule reach_follows [OF assms(8,1)]) (use tt' in \<open>simp add: follows_def\<close>)
  moreover have "pub \<in> set (sc_Publications (sx_Db ?t'))" using m by (simp add: makes_def rows_def)
  ultimately have "p = pub"
    by (rule publication_stays [of env ?t' u pub z p]) (use y(1) z result assms(10) in \<open>simp_all add: pub\<close>)
  moreover have "sr_Design x = sr_Design y"
    by (rule same_draft [OF assms(2) st x(2)]) (use found_screen [OF y(2)] x y(1,4) assms(6) in simp_all)
  ultimately show ?thesis using z(6,7) x(3,4) y(4) assms(6) by (simp add: pub)
qed

theorem published_as_reviewed_witness:
  "\<exists>seen shown. Service_ScadaScreen sample_scada_env sample_caller ''s'' (sx_Db sample_scada) = Inr seen
     \<and> Service_PublishedScadaScreen sample_scada_env sample_caller ''s'' (fst sample_published) = Inr shown
     \<and> ps_Design shown = ss_Design seen \<and> ps_SourceDraftVersion shown = ss_DraftVersion seen"
proof -
  obtain r where r: "sample_published = (fst sample_published, Inr r)" "ss_PublishedVersion r = 1"
    using sample_published_done by blast
  have publish: "PublishScadaScreen sample_scada_env sample_caller ''d'' ''s'' \<lparr>pi_DraftVersion = 1, pi_PublishedVersion = 0\<rparr>
      (sx_Db sample_scada) = (fst sample_published, Inr r)"
    by (subst sample_published_def [symmetric]) (rule r(1))
  obtain seen where seen: "Service_ScadaScreen sample_scada_env sample_caller ''s'' (sx_Db sample_scada) = Inr seen"
    "ss_DraftVersion seen = 1"
    by (simp add: Service_ScadaScreen_def scada_eval sample_scada_def sample_screen_def sample_scada_plant_def
      sample_caller_def sample_id fillScadaCapabilities_def screenFromStored_def)
  obtain shown where shown: "Service_PublishedScadaScreen sample_scada_env sample_caller ''s'' (fst sample_published) = Inr shown"
    "ss_PublishedVersion shown = 1"
    by (simp add: sample_published_def PublishScadaScreen_def scada_eval add_publication_def next_version_def
      sample_scada_def sample_screen_def sample_scada_plant_def sample_caller_def sample_id max_int4_def
      Service_PublishedScadaScreen_def update_where_def getScadaPublication_def)
  have "ps_Design shown = ss_Design seen \<and> ps_SourceDraftVersion shown = ss_DraftVersion seen"
    by (rule published_as_reviewed [OF sample_scada_env_ok sample_scada_ok seen(1) scada_reach.start publish _ _ scada_reach.start])
      (use r seen shown in \<open>simp_all add: sample_scada_def\<close>)
  then show ?thesis using seen(1) shown(1) by blast
qed


end
